(* ===== verification/Prelude.thy ===== *)
theory Prelude
  imports Main "HOL-Library.AList" "HOL-Library.Char_ord" "HOL-Library.List_Lexorder"
    "HOL-Library.Sublist"
begin

text \<open>
  Shared vocabulary of the development: the JavaScript values every component of the program
  uses (strings, insertion-ordered maps, thrown errors), the generic lemmas about them, and runs of state
  machines given by a partial step function.

  A JavaScript string is a \<^typ>\<open>string\<close> whose characters are UTF-16 code units below 256; the
  whitespace and case tables below are those of ECMAScript restricted to that range. A timestamp
  is the string \<^verbatim>\<open>Date.prototype.toISOString\<close> produces and is compared, as in the code, by the
  code-unit order on strings, which is the order of \<open>HOL-Library.List_Lexorder\<close>. A JavaScript
  \<^verbatim>\<open>Map\<close> is an association list in insertion order: \<^verbatim>\<open>set\<close> on a present key keeps its position.
\<close>

named_theorems jsm_simps "lookup and update laws of insertion-ordered maps"
named_theorems path_simps "laws of path segments and of resolved paths"

type_synonym timestamp = string
type_synonym ident = string

section \<open>Thrown errors and results\<close>

text \<open>
  The part of a JavaScript \<^verbatim>\<open>Error\<close> the code inspects: its message, the \<^verbatim>\<open>code\<close> of a Node system
  error and the HTTP status an error may carry.
\<close>

record exn =
  message :: string
  err_code :: "string option"
  err_status :: "int option"

definition Error :: "string \<Rightarrow> exn" where
  "Error m = \<lparr>message = m, err_code = None, err_status = None\<rparr>"

type_synonym 'a result = "exn + 'a"

lemma message_Error [simp]: "message (Error m) = m"
  by (simp add: Error_def)

lemma err_code_Error [simp]: "err_code (Error m) = None"
  by (simp add: Error_def)

lemma err_status_Error [simp]: "err_status (Error m) = None"
  by (simp add: Error_def)

section \<open>Strings\<close>

definition js_space :: "char \<Rightarrow> bool" where
  "js_space c \<longleftrightarrow> of_char c \<in> {9, 10, 11, 12, 13, 32, 160 :: nat}"

definition js_trim :: "string \<Rightarrow> string" where
  "js_trim s = rev (dropWhile js_space (rev (dropWhile js_space s)))"

definition js_lower_char :: "char \<Rightarrow> char" where
  "js_lower_char c = (let n = (of_char c :: nat) in
     if 65 \<le> n \<and> n \<le> 90 \<or> 192 \<le> n \<and> n \<le> 222 \<and> n \<noteq> 215 then char_of (n + 32) else c)"

definition js_toLowerCase :: "string \<Rightarrow> string" where
  "js_toLowerCase s = map js_lower_char s"

definition js_startsWith :: "string \<Rightarrow> string \<Rightarrow> bool" where
  "js_startsWith s p \<longleftrightarrow> take (length p) s = p"

definition js_endsWith :: "string \<Rightarrow> string \<Rightarrow> bool" where
  "js_endsWith s p \<longleftrightarrow> length p \<le> length s \<and> drop (length s - length p) s = p"

fun js_includes :: "string \<Rightarrow> string \<Rightarrow> bool" where
  "js_includes [] p \<longleftrightarrow> p = []"
| "js_includes (c # s) p \<longleftrightarrow> js_startsWith (c # s) p \<or> js_includes s p"

fun js_split :: "char \<Rightarrow> string \<Rightarrow> string list" where
  "js_split c [] = [[]]"
| "js_split c (x # xs) =
     (if x = c then [] # js_split c xs
      else (case js_split c xs of [] \<Rightarrow> [[x]] | y # ys \<Rightarrow> (x # y) # ys))"

fun js_join :: "string \<Rightarrow> string list \<Rightarrow> string" where
  "js_join sep [] = []"
| "js_join sep [x] = x"
| "js_join sep (x # y # r) = x @ sep @ js_join sep (y # r)"

lemma js_startsWith_prefix: "js_startsWith s p \<longleftrightarrow> prefix p s"
  unfolding js_startsWith_def by (metis append_eq_conv_conj prefix_def take_is_prefix)

lemma js_includes_sublist: "js_includes s p \<longleftrightarrow> sublist p s"
  by (induction s) (auto simp: js_startsWith_prefix sublist_Cons_right)

lemma js_endsWith_suffix: "js_endsWith s p \<longleftrightarrow> suffix p s"
proof
  assume "js_endsWith s p"
  then have "p = drop (length s - length p) s" by (simp add: js_endsWith_def)
  then show "suffix p s" by (metis suffix_drop)
next
  assume "suffix p s"
  then obtain t where "s = t @ p" by (auto simp: suffix_def)
  then show "js_endsWith s p" by (simp add: js_endsWith_def)
qed

lemma js_startsWith_Nil [simp]: "js_startsWith s []"
  by (simp add: js_startsWith_def)

lemma js_startsWith_Cons [simp]:
  "js_startsWith (c # s) (d # p) \<longleftrightarrow> c = d \<and> js_startsWith s p"
  by (auto simp: js_startsWith_def)

lemma js_startsWith_empty [simp]: "js_startsWith [] p \<longleftrightarrow> p = []"
  by (auto simp: js_startsWith_def)

lemma js_includes_append [simp]: "js_includes (a @ p @ b) p"
  by (simp add: js_includes_sublist)

lemma js_includes_middle: "js_includes (a @ p) p"
  by (simp add: js_includes_sublist)

lemma js_split_nonempty [simp]: "js_split c s \<noteq> []"
  by (cases s) (auto split: list.splits)

lemma js_split_no_sep: "x \<in> set (js_split c s) \<Longrightarrow> c \<notin> set x"
proof (induction s arbitrary: x)
  case (Cons a s)
  then show ?case by (auto split: list.splits if_splits)
qed simp

lemma js_split_noop: "c \<notin> set s \<Longrightarrow> js_split c s = [s]"
  by (induction s) auto

lemma js_split_append: "c \<notin> set s \<Longrightarrow> js_split c (s @ c # t) = s # js_split c t"
  by (induction s) auto

text \<open>Splitting at a separator and joining with it again is the identity, both ways.\<close>

lemma js_join_split: "js_join [c] (js_split c s) = s"
proof (induction s)
  case (Cons a s)
  show ?case
  proof (cases "js_split c s")
    case (Cons y ys)
    with Cons.IH show ?thesis by (cases ys) auto
  qed simp
qed simp

lemma js_split_join:
  "xs \<noteq> [] \<Longrightarrow> (\<And>x. x \<in> set xs \<Longrightarrow> c \<notin> set x) \<Longrightarrow> js_split c (js_join [c] xs) = xs"
proof (induction "[c]" xs rule: js_join.induct)
  case (2 x)
  then show ?case by (simp add: js_split_noop)
next
  case (3 x y r)
  then show ?case by (simp add: js_split_append)
qed simp

lemma js_split_prefix_append: "js_split c (s @ c # t) = js_split c s @ js_split c t"
proof (induction s)
  case (Cons a s)
  then show ?case by (cases "js_split c s") auto
qed simp

lemma js_trim_empty [simp]: "js_trim [] = []"
  by (simp add: js_trim_def)

lemma dropWhile_idem: "dropWhile P (dropWhile P s) = dropWhile P s"
  by (induction s) auto

lemma js_trim_Nil_iff: "js_trim s = [] \<longleftrightarrow> (\<forall>c \<in> set s. js_space c)"
proof -
  have "(\<forall>x \<in> set (dropWhile js_space s). js_space x) \<longleftrightarrow> dropWhile js_space s = []"
    by (metis dropWhile_eq_Nil_conv dropWhile_idem)
  then show ?thesis by (simp add: js_trim_def)
qed

lemma length_js_trim: "length (js_trim s) \<le> length s"
proof -
  have "length (js_trim s) \<le> length (dropWhile js_space s)"
    unfolding js_trim_def by (metis length_dropWhile_le length_rev)
  also have "\<dots> \<le> length s" by (rule length_dropWhile_le)
  finally show ?thesis .
qed

lemma js_trim_idem [simp]: "js_trim (js_trim s) = js_trim s"
proof -
  let ?r = "dropWhile js_space (rev (dropWhile js_space s))"
  have "dropWhile js_space (rev ?r) = rev ?r"
  proof (cases "rev ?r")
    case (Cons c t)
    have "suffix ?r (rev (dropWhile js_space s))"
      by (rule suffix_dropWhile)
    then have "prefix (rev ?r) (dropWhile js_space s)"
      by (simp add: suffix_to_prefix)
    with Cons obtain u where "dropWhile js_space s = c # u"
      by (metis append_Cons prefix_def)
    then have "\<not> js_space c" by (metis hd_dropWhile list.distinct(1) list.sel(1))
    then show ?thesis by (simp only: Cons dropWhile.simps if_False)
  next
    case Nil
    then show ?thesis by (simp only: dropWhile.simps)
  qed
  then show ?thesis by (simp add: js_trim_def dropWhile_idem)
qed

lemma js_lower_char_idem [simp]: "js_lower_char (js_lower_char c) = js_lower_char c"
proof (cases "65 \<le> (of_char c :: nat) \<and> (of_char c :: nat) \<le> 90 \<or>
    192 \<le> (of_char c :: nat) \<and> (of_char c :: nat) \<le> 222 \<and> (of_char c :: nat) \<noteq> 215")
  case True
  then have "js_lower_char c = char_of ((of_char c :: nat) + 32)"
    by (simp add: js_lower_char_def Let_def)
  moreover have "(of_char c :: nat) + 32 < 256"
    using True by auto
  ultimately have "(of_char (js_lower_char c) :: nat) = of_char c + 32"
    by (simp add: of_char_of)
  with True show ?thesis
    by (auto simp: js_lower_char_def [of "js_lower_char c"] Let_def)
next
  case False
  then have "js_lower_char c = c" unfolding js_lower_char_def Let_def by (rule if_not_P)
  then show ?thesis by simp
qed

lemma js_toLowerCase_idem [simp]: "js_toLowerCase (js_toLowerCase s) = js_toLowerCase s"
  by (simp add: js_toLowerCase_def)

lemma js_toLowerCase_Nil [simp]: "js_toLowerCase s = [] \<longleftrightarrow> s = []"
  by (simp add: js_toLowerCase_def)

section \<open>Insertion-ordered maps\<close>

type_synonym ('k, 'v) jsmap = "('k \<times> 'v) list"

abbreviation jm_get :: "('k, 'v) jsmap \<Rightarrow> 'k \<Rightarrow> 'v option" where
  "jm_get m k \<equiv> map_of m k"

abbreviation jm_set :: "('k, 'v) jsmap \<Rightarrow> 'k \<Rightarrow> 'v \<Rightarrow> ('k, 'v) jsmap" where
  "jm_set m k v \<equiv> AList.update k v m"

abbreviation jm_delete :: "('k, 'v) jsmap \<Rightarrow> 'k \<Rightarrow> ('k, 'v) jsmap" where
  "jm_delete m k \<equiv> AList.delete k m"

abbreviation jm_values :: "('k, 'v) jsmap \<Rightarrow> 'v list" where
  "jm_values m \<equiv> map snd m"

abbreviation jm_keys :: "('k, 'v) jsmap \<Rightarrow> 'k list" where
  "jm_keys m \<equiv> map fst m"

definition jm_ok :: "('k, 'v) jsmap \<Rightarrow> bool" where
  "jm_ok m \<longleftrightarrow> distinct (jm_keys m)"

text \<open>
  The contract of a keyed store: what a lookup returns after a write or a removal, and that both
  keep the store well formed. Every repository of the program is a client of it.
\<close>

locale keyed_store =
  fixes empty :: "'m"
    and get :: "'m \<Rightarrow> 'k \<Rightarrow> 'v option"
    and put :: "'m \<Rightarrow> 'k \<Rightarrow> 'v \<Rightarrow> 'm"
    and del :: "'m \<Rightarrow> 'k \<Rightarrow> 'm"
    and listed :: "'m \<Rightarrow> 'v list"
    and ok :: "'m \<Rightarrow> bool"
  assumes ok_empty: "ok empty"
    and ok_put: "ok m \<Longrightarrow> ok (put m k v)"
    and ok_del: "ok m \<Longrightarrow> ok (del m k)"
    and get_empty: "get empty k = None"
    and get_put: "get (put m k v) k' = (if k' = k then Some v else get m k')"
    and get_del: "get (del m k) k' = (if k' = k then None else get m k')"
    and listed_iff: "ok m \<Longrightarrow> v \<in> set (listed m) \<longleftrightarrow> (\<exists>k. get m k = Some v)"
begin

lemma get_put_same: "get (put m k v) k = Some v"
  by (simp add: get_put)

lemma get_put_other: "k' \<noteq> k \<Longrightarrow> get (put m k v) k' = get m k'"
  by (simp add: get_put)

lemma put_listed: "ok m \<Longrightarrow> v \<in> set (listed (put m k v))"
  using listed_iff [OF ok_put] get_put_same by blast

lemma listed_put_cases:
  assumes "ok m" and "x \<in> set (listed (put m k v))"
  shows "x = v \<or> x \<in> set (listed m)"
proof -
  from assms obtain k' where "get (put m k v) k' = Some x"
    using listed_iff [OF ok_put] by blast
  then show ?thesis using assms(1) by (auto simp: get_put listed_iff split: if_splits)
qed

lemma put_put: "get (put (put m k v) k w) k' = get (put m k w) k'"
  by (simp add: get_put)

lemma put_invariant:
  assumes "ok m" and "\<forall>x \<in> set (listed m). P x" and "P v"
  shows "\<forall>x \<in> set (listed (put m k v)). P x"
  using assms listed_put_cases by blast

lemma del_listed: "ok m \<Longrightarrow> x \<in> set (listed (del m k)) \<Longrightarrow> x \<in> set (listed m)"
  by (auto simp: listed_iff ok_del get_del split: if_splits)

end

lemma jm_ok_Nil [simp, intro]: "jm_ok []"
  by (simp add: jm_ok_def)

lemma jm_ok_set [simp, intro]: "jm_ok m \<Longrightarrow> jm_ok (jm_set m k v)"
  by (simp add: jm_ok_def distinct_update)

lemma jm_ok_delete [simp, intro]: "jm_ok m \<Longrightarrow> jm_ok (jm_delete m k)"
  by (simp add: jm_ok_def distinct_delete)

lemma jm_get_set [jsm_simps]: "jm_get (jm_set m k v) k' = (if k' = k then Some v else jm_get m k')"
  by (simp add: update_conv)

lemma jm_get_delete [jsm_simps]: "jm_get (jm_delete m k) k' = (if k' = k then None else jm_get m k')"
  by (simp add: delete_conv)

lemma jm_values_iff: "jm_ok m \<Longrightarrow> v \<in> set (jm_values m) \<longleftrightarrow> (\<exists>k. jm_get m k = Some v)"
proof -
  assume ok: "jm_ok m"
  have "v \<in> set (jm_values m) \<longleftrightarrow> (\<exists>k. (k, v) \<in> set m)" by force
  with ok show ?thesis by (simp add: jm_ok_def map_of_eq_Some_iff)
qed

interpretation jsm: keyed_store "[]" jm_get jm_set jm_delete jm_values jm_ok
  by unfold_locales (simp_all only: jm_ok_Nil jm_ok_set jm_ok_delete jsm_simps jm_values_iff map_of.simps)

lemma jm_set_fresh: "jm_get m k = None \<Longrightarrow> jm_set m k v = m @ [(k, v)]"
  by (induction m) (auto split: if_splits)

lemma jm_values_set_fresh: "jm_get m k = None \<Longrightarrow> jm_values (jm_set m k v) = jm_values m @ [v]"
  by (simp add: jm_set_fresh)

lemma jm_keys_set: "jm_keys (jm_set m k v) = (if k \<in> set (jm_keys m) then jm_keys m else jm_keys m @ [k])"
  by (induction m) auto

lemma jm_set_mem: "x \<in> set (jm_set m k v) \<Longrightarrow> x = (k, v) \<or> x \<in> set m"
  by (induction m) (auto split: if_splits)

lemma jm_values_map:
  "jm_ok m \<Longrightarrow> jm_get m k = Some v \<Longrightarrow>
   jm_values (jm_set m k w) = map (\<lambda>(k', v'). if k' = k then w else v') m"
proof (induction m)
  case (Cons p m)
  obtain a b where p: "p = (a, b)" by (cases p)
  show ?case
  proof (cases "a = k")
    case True
    with Cons.prems p have "\<forall>x \<in> set m. fst x \<noteq> k" by (auto simp: jm_ok_def)
    then have "map (\<lambda>(k', v'). if k' = k then w else v') m = map snd m"
      by (auto simp: case_prod_beta)
    with True p show ?thesis by simp
  next
    case False
    with Cons p show ?thesis by (auto simp: jm_ok_def)
  qed
qed simp

section \<open>Lists and options\<close>

lemma filter_map_values: "length (filter P (map f xs)) = length (filter (P \<circ> f) xs)"
  by (induction xs) auto

lemma find_Some_set: "find P xs = Some x \<Longrightarrow> x \<in> set xs \<and> P x"
  by (induction xs) (auto split: if_splits)

definition js_or :: "'a option \<Rightarrow> 'a \<Rightarrow> 'a" where
  \<comment> \<open>The operator \<^verbatim>\<open>a ?? d\<close>.\<close>
  "js_or a d = (case a of None \<Rightarrow> d | Some x \<Rightarrow> x)"

definition js_or_opt :: "'a option \<Rightarrow> 'a option \<Rightarrow> 'a option" where
  \<comment> \<open>The operator \<^verbatim>\<open>a ?? b\<close> where \<^verbatim>\<open>b\<close> may itself be undefined.\<close>
  "js_or_opt a b = (case a of None \<Rightarrow> b | Some x \<Rightarrow> Some x)"

lemma js_or_simps [simp]: "js_or None d = d" "js_or (Some x) d = x"
  by (simp_all add: js_or_def)

lemma js_or_opt_simps [simp]: "js_or_opt None b = b" "js_or_opt (Some x) b = Some x"
  by (simp_all add: js_or_opt_def)

definition js_truthy :: "string option \<Rightarrow> bool" where
  \<comment> \<open>An optional string in a condition: neither absent nor empty.\<close>
  "js_truthy a = (case a of None \<Rightarrow> False | Some s \<Rightarrow> s \<noteq> [])"

lemma js_truthy_simps [simp]: "js_truthy None = False" "js_truthy (Some s) = (s \<noteq> [])"
  by (simp_all add: js_truthy_def)

section \<open>Numbers as text\<close>

definition digit_char :: "nat \<Rightarrow> char" where
  "digit_char d = char_of (48 + d)"

fun show_nat :: "nat \<Rightarrow> string" where
  "show_nat n = (if n < 10 then [digit_char n] else show_nat (n div 10) @ [digit_char (n mod 10)])"

declare show_nat.simps [simp del]

definition show_int :: "int \<Rightarrow> string" where
  "show_int i = (if i < 0 then CHR ''-'' # show_nat (nat (- i)) else show_nat (nat i))"

lemma show_nat_nonempty [simp]: "show_nat n \<noteq> []"
  by (subst show_nat.simps) simp

section \<open>Runs of a state machine\<close>

fun run_events :: "('e \<Rightarrow> 's \<Rightarrow> 's option) \<Rightarrow> 'e list \<Rightarrow> 's \<Rightarrow> 's option" where
  "run_events step [] s = Some s"
| "run_events step (e # es) s = (case step e s of None \<Rightarrow> None | Some s1 \<Rightarrow> run_events step es s1)"

lemma run_exists:
  "(case run_events step es start of None \<Rightarrow> False | Some s \<Rightarrow> P s) \<Longrightarrow> \<exists>es s. run_events step es start = Some s \<and> P s"
  by (cases "run_events step es start") auto

lemma run_events_append: "run_events step (xs @ ys) s = Option.bind (run_events step xs s) (run_events step ys)"
  by (induction xs arbitrary: s) (auto split: option.splits)

text \<open>A machine with an invariant, for properties of all states its runs lead to.\<close>

locale event_machine =
  fixes step :: "'e \<Rightarrow> 's \<Rightarrow> 's option"
    and start :: 's
    and inv :: "'s \<Rightarrow> bool"
  assumes inv_start: "inv start"
    and inv_step: "inv s \<Longrightarrow> step e s = Some s' \<Longrightarrow> inv s'"
begin

lemma run_from:
  assumes keep: "\<And>s e s'. inv s \<Longrightarrow> P s \<Longrightarrow> step e s = Some s' \<Longrightarrow> P s'"
  shows "inv s \<Longrightarrow> P s \<Longrightarrow> run_events step es s = Some s' \<Longrightarrow> inv s' \<and> P s'"
proof (induction es arbitrary: s)
  case (Cons e es)
  then obtain s1 where "step e s = Some s1" "run_events step es s1 = Some s'" by (auto split: option.splits)
  with Cons keep inv_step show ?case by blast
qed simp

lemma run_inv: "run_events step es start = Some s \<Longrightarrow> inv s"
  using run_from [of "\<lambda>_. True"] inv_start by blast

end

end
