(* ===== verification/Node_Path.thy ===== *)
theory Node_Path
  imports Prelude
begin

text \<open>
  The part of Node's \<^verbatim>\<open>node:path\<close> the program uses, for POSIX paths: \<^verbatim>\<open>normalize\<close>, \<^verbatim>\<open>isAbsolute\<close>,
  \<^verbatim>\<open>resolve\<close>, \<^verbatim>\<open>relative\<close> and \<^verbatim>\<open>basename\<close>. The working directory \<^verbatim>\<open>process.cwd()\<close> is an argument.
  Node scans the characters of a path once; the model splits it at \<^verbatim>\<open>/\<close> and keeps the same stack of
  segments. The central fact is \<open>within_root_iff\<close>: the test \<^verbatim>\<open>relative(root, target)\<close> is empty, or
  neither starts with two dots nor is absolute, which both the permission policy and the sandbox
  make, holds exactly when the segments of the root are a prefix of those of the target and the
  first segment below the root does not itself start with two dots.
\<close>

section \<open>Definitions\<close>

abbreviation dot :: string where "dot \<equiv> ''.''"
abbreviation dotdot :: string where "dotdot \<equiv> ''..''"

fun normalize_segments :: "bool \<Rightarrow> string list \<Rightarrow> string list \<Rightarrow> string list" where
  "normalize_segments aar acc [] = rev acc"
| "normalize_segments aar acc (s # ss) =
     (if s = [] \<or> s = dot then normalize_segments aar acc ss
      else if s = dotdot then
        (case acc of
           [] \<Rightarrow> normalize_segments aar (if aar then [dotdot] else []) ss
         | a # as \<Rightarrow> if a \<noteq> dotdot then normalize_segments aar as ss
                    else normalize_segments aar (if aar then dotdot # acc else acc) ss)
      else normalize_segments aar (s # acc) ss)"

definition posix_isAbsolute :: "string \<Rightarrow> bool" where
  "posix_isAbsolute p \<longleftrightarrow> p \<noteq> [] \<and> hd p = CHR ''/''"

definition path_join :: "string list \<Rightarrow> string" where
  "path_join xs = js_join ''/'' xs"

definition posix_normalize :: "string \<Rightarrow> string" where
  "posix_normalize p =
     (if p = [] then dot
      else let isAbs = posix_isAbsolute p;
               trailing = (last p = CHR ''/'');
               body = path_join (normalize_segments (\<not> isAbs) [] (js_split CHR ''/'' p))
           in if body = [] then (if isAbs then ''/'' else if trailing then ''./'' else dot)
              else (if isAbs then ''/'' else []) @ body @ (if trailing then ''/'' else []))"

definition posix_resolve :: "string \<Rightarrow> string \<Rightarrow> string" where
  "posix_resolve cwd p =
     (let full = (if posix_isAbsolute p then p else cwd @ ''/'' @ p);
          body = path_join (normalize_segments (\<not> posix_isAbsolute full) [] (js_split CHR ''/'' full))
      in if posix_isAbsolute full then CHR ''/'' # body
         else if body = [] then dot else body)"

text \<open>The segments of an absolute path, with \<^verbatim>\<open>.\<close> and \<^verbatim>\<open>..\<close> resolved.\<close>

definition abs_segments :: "string \<Rightarrow> string list" where
  "abs_segments p = normalize_segments False [] (js_split CHR ''/'' p)"

fun common_len :: "string list \<Rightarrow> string list \<Rightarrow> nat" where
  "common_len (x # xs) (y # ys) = (if x = y then Suc (common_len xs ys) else 0)"
| "common_len _ _ = 0"

definition posix_relative :: "string \<Rightarrow> string \<Rightarrow> string \<Rightarrow> string" where
  "posix_relative cwd from to =
     (let fs = abs_segments (posix_resolve cwd from);
          ts = abs_segments (posix_resolve cwd to);
          k = common_len fs ts
      in path_join (replicate (length fs - k) dotdot @ drop k ts))"

definition posix_basename :: "string \<Rightarrow> string" where
  "posix_basename p = last (js_split CHR ''/'' (rev (dropWhile (\<lambda>c. c = CHR ''/'') (rev p))))"

text \<open>
  A path module: the functions of \<^verbatim>\<open>path.posix\<close> or \<^verbatim>\<open>path.win32\<close> that the permission policy calls.
\<close>

record path_module =
  pm_normalize :: "string \<Rightarrow> string"
  pm_isAbsolute :: "string \<Rightarrow> bool"
  pm_resolve :: "string \<Rightarrow> string"
  pm_relative :: "string \<Rightarrow> string \<Rightarrow> string"

definition posix_module :: "string \<Rightarrow> path_module" where
  "posix_module cwd = \<lparr>pm_normalize = posix_normalize, pm_isAbsolute = posix_isAbsolute,
     pm_resolve = posix_resolve cwd, pm_relative = posix_relative cwd\<rparr>"

text \<open>The containment test of the program, over the relative path.\<close>

definition relative_inside :: "path_module \<Rightarrow> string \<Rightarrow> bool" where
  "relative_inside pm rel \<longleftrightarrow> rel = [] \<or> \<not> js_startsWith rel dotdot \<and> \<not> pm_isAbsolute pm rel"

section \<open>Segments\<close>

definition plain_segment :: "string \<Rightarrow> bool" where
  "plain_segment s \<longleftrightarrow> s \<noteq> [] \<and> s \<noteq> dot \<and> s \<noteq> dotdot \<and> CHR ''/'' \<notin> set s"

lemma normalize_plain:
  assumes "\<forall>s \<in> set acc. plain_segment s" and "\<forall>s \<in> set ss. CHR ''/'' \<notin> set s"
  shows "\<forall>s \<in> set (normalize_segments False acc ss). plain_segment s"
  using assms
proof (induction ss arbitrary: acc)
  case (Cons s ss)
  then have IH: "\<forall>x \<in> set acc'. plain_segment x \<Longrightarrow>
      \<forall>x \<in> set (normalize_segments False acc' ss). plain_segment x" for acc'
    by simp
  show ?case
  proof (cases "s = [] \<or> s = dot")
    case True
    with IH [OF Cons.prems(1)] show ?thesis by auto
  next
    case plain: False
    show ?thesis
    proof (cases "s = dotdot")
      case True
      show ?thesis
      proof (cases acc)
        case Nil
        with IH [of "[]"] plain True show ?thesis by simp
      next
        case (Cons a as)
        with Cons.prems(1) IH [of as] plain True show ?thesis by (simp add: plain_segment_def)
      qed
    next
      case False
      with Cons.prems plain have "\<forall>x \<in> set (s # acc). plain_segment x"
        by (simp add: plain_segment_def)
      from IH [OF this] plain False show ?thesis by simp
    qed
  qed
qed simp

lemma abs_segments_plain: "s \<in> set (abs_segments p) \<Longrightarrow> plain_segment s"
  using normalize_plain [of "[]" "js_split CHR ''/'' p"] js_split_no_sep
  by (auto simp: abs_segments_def)

lemma normalize_id:
  "\<forall>s \<in> set ss. plain_segment s \<Longrightarrow> normalize_segments aar acc ss = rev acc @ ss"
  by (induction ss arbitrary: acc) (auto simp: plain_segment_def)

lemma abs_segments_join:
  assumes "\<forall>s \<in> set ss. plain_segment s"
  shows "abs_segments (CHR ''/'' # path_join ss) = ss"
proof (cases "ss = []")
  case True
  then show ?thesis by (simp add: abs_segments_def path_join_def)
next
  case False
  have "js_split CHR ''/'' (path_join ss) = ss"
    unfolding path_join_def using assms False by (intro js_split_join) (auto simp: plain_segment_def)
  with assms show ?thesis by (simp add: abs_segments_def normalize_id)
qed

text \<open>The absolute path a path resolves to, before normalization.\<close>

definition full_path :: "string \<Rightarrow> string \<Rightarrow> string" where
  "full_path cwd p = (if posix_isAbsolute p then p else cwd @ ''/'' @ p)"

lemma full_path_absolute: "posix_isAbsolute cwd \<Longrightarrow> posix_isAbsolute (full_path cwd p)"
  by (cases cwd) (auto simp: full_path_def posix_isAbsolute_def)

lemma posix_resolve_segments:
  assumes "posix_isAbsolute cwd"
  shows "posix_resolve cwd p = CHR ''/'' # path_join (abs_segments (full_path cwd p))"
  using full_path_absolute [OF assms, of p]
  by (simp add: posix_resolve_def full_path_def abs_segments_def Let_def)

lemma resolve_absolute [path_simps]:
  "posix_isAbsolute cwd \<Longrightarrow> posix_isAbsolute (posix_resolve cwd p)"
  by (simp add: posix_resolve_segments posix_isAbsolute_def)

lemma segments_resolve [path_simps]:
  "posix_isAbsolute cwd \<Longrightarrow> abs_segments (posix_resolve cwd p) = abs_segments (full_path cwd p)"
  by (simp add: posix_resolve_segments abs_segments_join abs_segments_plain)

lemma resolve_idem [path_simps]:
  assumes "posix_isAbsolute cwd"
  shows "posix_resolve cwd (posix_resolve cwd p) = posix_resolve cwd p"
proof -
  have "full_path cwd (posix_resolve cwd p) = posix_resolve cwd p"
    using resolve_absolute [OF assms] by (simp add: full_path_def)
  then show ?thesis
    using assms by (simp add: posix_resolve_segments [of cwd "posix_resolve cwd p"] segments_resolve)
      (simp add: posix_resolve_segments)
qed

lemma normalize_append:
  "normalize_segments False acc (xs @ ys) =
   normalize_segments False (rev (normalize_segments False acc xs)) ys"
proof (induction False acc xs rule: normalize_segments.induct)
  case (2 acc s ss)
  then show ?case by (auto split: list.splits)
qed simp

section \<open>Relative paths\<close>

lemma common_len_le: "common_len xs ys \<le> length xs \<and> common_len xs ys \<le> length ys"
  by (induction xs ys rule: common_len.induct) auto

lemma common_len_full: "common_len xs ys = length xs \<longleftrightarrow> prefix xs ys"
  by (induction xs ys rule: common_len.induct) auto

lemma path_join_eq_Nil:
  "\<forall>s \<in> set ss. s \<noteq> [] \<Longrightarrow> path_join ss = [] \<longleftrightarrow> ss = []"
  unfolding path_join_def by (induction "''/''" ss rule: js_join.induct) auto

lemma path_join_Cons: "path_join (s # ss) = s @ (if ss = [] then [] else CHR ''/'' # path_join ss)"
  unfolding path_join_def by (cases ss) auto

lemma dotdot_join:
  assumes "plain_segment s"
  shows "js_startsWith (path_join (s # ss)) dotdot \<longleftrightarrow> js_startsWith s dotdot"
proof -
  obtain c t where s: "s = c # t" using assms by (cases s) (auto simp: plain_segment_def)
  show ?thesis
  proof (cases t)
    case Nil
    with s assms have "c \<noteq> CHR ''.''" by (auto simp: plain_segment_def)
    with Nil s show ?thesis by (simp add: path_join_Cons)
  next
    case (Cons d u)
    with s show ?thesis by (simp add: path_join_Cons)
  qed
qed

lemma absolute_join:
  assumes "plain_segment s"
  shows "\<not> posix_isAbsolute (path_join (s # ss))"
  using assms by (cases s) (auto simp: plain_segment_def posix_isAbsolute_def path_join_Cons)

text \<open>The containment relation on segments that the test decides.\<close>

definition segments_inside :: "string list \<Rightarrow> string list \<Rightarrow> bool" where
  "segments_inside root target \<longleftrightarrow>
     (\<exists>rest. target = root @ rest \<and> (rest = [] \<or> \<not> js_startsWith (hd rest) dotdot))"

lemma relative_inside_segments:
  assumes plain: "\<forall>s \<in> set ts. plain_segment s"
  shows "relative_inside (posix_module cwd)
      (path_join (replicate (length fs - common_len fs ts) dotdot @ drop (common_len fs ts) ts))
    \<longleftrightarrow> segments_inside fs ts"
proof (cases "prefix fs ts")
  case True
  then obtain rest where ts: "ts = fs @ rest" by (auto simp: prefix_def)
  have k: "common_len fs ts = length fs" using True by (simp add: common_len_full)
  show ?thesis
  proof (cases rest)
    case Nil
    with ts k show ?thesis
      by (simp add: relative_inside_def path_join_def segments_inside_def)
  next
    case (Cons s ss)
    with plain ts have "plain_segment s" by simp
    then have "path_join (s # ss) \<noteq> []"
      by (auto simp: path_join_Cons plain_segment_def)
    with Cons ts k show ?thesis
      using dotdot_join [OF \<open>plain_segment s\<close>, of ss] absolute_join [OF \<open>plain_segment s\<close>, of ss]
      by (auto simp: relative_inside_def segments_inside_def posix_module_def)
  qed
next
  case False
  then have "common_len fs ts < length fs"
    using common_len_le [of fs ts] by (metis common_len_full nat_less_le)
  then obtain n where "length fs - common_len fs ts = Suc n"
    by (metis Suc_diff_Suc)
  then have "js_startsWith (path_join (replicate (length fs - common_len fs ts) dotdot
      @ drop (common_len fs ts) ts)) dotdot"
    by (simp add: path_join_Cons)
  with False show ?thesis
    by (auto simp: relative_inside_def segments_inside_def prefix_def)
qed

theorem within_root_iff:
  assumes "posix_isAbsolute cwd"
  shows "relative_inside (posix_module cwd) (posix_relative cwd root target) \<longleftrightarrow>
    segments_inside (abs_segments (full_path cwd root)) (abs_segments (full_path cwd target))"
  using assms relative_inside_segments [of "abs_segments (full_path cwd target)"] abs_segments_plain
  by (simp add: posix_relative_def Let_def segments_resolve)

lemma segments_inside_refl [simp]: "segments_inside xs xs"
  by (simp add: segments_inside_def)

lemma segments_inside_prefix: "segments_inside xs ys \<Longrightarrow> prefix xs ys"
  by (auto simp: segments_inside_def)

lemma segments_inside_root [simp]:
  "segments_inside [] ys \<longleftrightarrow> ys = [] \<or> \<not> js_startsWith (hd ys) dotdot"
  by (auto simp: segments_inside_def)

section \<open>Normalization and resolution agree\<close>

lemma segments_trailing: "abs_segments (p @ ''/'') = abs_segments p"
  by (simp add: abs_segments_def js_split_prefix_append normalize_append)

lemma segments_normalize:
  assumes "posix_isAbsolute p"
  shows "abs_segments (posix_normalize p) = abs_segments p"
proof -
  let ?b = "path_join (abs_segments p)"
  have norm: "posix_normalize p =
      (if ?b = [] then ''/'' else ''/'' @ ?b @ (if last p = CHR ''/'' then ''/'' else []))"
    using assms by (auto simp: posix_normalize_def Let_def abs_segments_def posix_isAbsolute_def)
  have join: "abs_segments (CHR ''/'' # ?b) = abs_segments p"
    by (simp add: abs_segments_join abs_segments_plain)
  have "abs_segments (CHR ''/'' # ?b @ ''/'') = abs_segments p"
    using segments_trailing [of "CHR ''/'' # ?b"] join by simp
  with join norm show ?thesis by (cases "?b = []") simp_all
qed

lemma normalize_absolute: "posix_isAbsolute p \<Longrightarrow> posix_isAbsolute (posix_normalize p)"
  by (auto simp: posix_normalize_def Let_def posix_isAbsolute_def)

text \<open>
  Normalizing a relative path first, with leading \<^verbatim>\<open>..\<close> kept, does not change what it resolves to
  against any directory.
\<close>

lemma normalize_twice:
  "\<forall>s \<in> set b. s \<noteq> [] \<and> s \<noteq> dot \<Longrightarrow>
   normalize_segments False acc (normalize_segments True b ss) =
   normalize_segments False (rev (normalize_segments False acc (rev b))) ss"
proof (induction ss arbitrary: b)
  case (Cons s ss)
  have push: "normalize_segments False acc (rev (x # b)) =
      normalize_segments False (rev (normalize_segments False acc (rev b))) [x]" for x
    by (simp add: normalize_append)
  show ?case
  proof (cases "s = [] \<or> s = dot")
    case True
    with Cons show ?thesis by auto
  next
    case kept: False
    show ?thesis
    proof (cases "s = dotdot \<and> b \<noteq> [] \<and> hd b \<noteq> dotdot")
      case True
      then obtain a as where b: "b = a # as" "a \<noteq> dotdot" by (cases b) auto
      with Cons.prems have "normalize_segments False acc (rev b) = normalize_segments False acc (rev as) @ [a]"
        by (simp add: normalize_append)
      with b True Cons.prems Cons.IH [of as] show ?thesis by simp
    next
      case False
      with kept have "normalize_segments True b (s # ss) = normalize_segments True (s # b) ss"
        by (cases b) auto
      moreover have "normalize_segments False (rev (normalize_segments False acc (rev b))) (s # ss) =
          normalize_segments False (rev (normalize_segments False acc (rev (s # b)))) ss"
        using normalize_append [of "rev (normalize_segments False acc (rev b))" "[s]" ss]
        by (simp only: push append_Cons append_Nil)
      ultimately show ?thesis using kept Cons.prems Cons.IH [of "s # b"] by simp
    qed
  qed
qed simp

lemma normalize_True_kept:
  "\<forall>s \<in> set b. s \<noteq> [] \<and> CHR ''/'' \<notin> set s \<Longrightarrow> \<forall>s \<in> set ss. CHR ''/'' \<notin> set s \<Longrightarrow>
   x \<in> set (normalize_segments True b ss) \<Longrightarrow> x \<noteq> [] \<and> CHR ''/'' \<notin> set x"
proof (induction ss arbitrary: b)
  case (Cons s ss)
  have "\<exists>b'. (\<forall>s \<in> set b'. s \<noteq> [] \<and> CHR ''/'' \<notin> set s) \<and>
      normalize_segments True b (s # ss) = normalize_segments True b' ss"
  proof (cases "s = [] \<or> s = dot")
    case True
    with Cons.prems show ?thesis by auto
  next
    case kept: False
    show ?thesis
    proof (cases "s = dotdot \<and> b \<noteq> [] \<and> hd b \<noteq> dotdot")
      case True
      with Cons.prems show ?thesis by (intro exI [of _ "tl b"]) (cases b; auto)
    next
      case False
      with kept Cons.prems show ?thesis by (intro exI [of _ "s # b"]) (cases b; auto)
    qed
  qed
  with Cons show ?case by auto
qed auto

lemma split_join_trailing:
  assumes "xs \<noteq> []" and "\<forall>x \<in> set xs. x \<noteq> [] \<and> CHR ''/'' \<notin> set x"
  shows "normalize_segments False acc (js_split CHR ''/'' (path_join xs @ (if t then ''/'' else []))) =
    normalize_segments False acc xs"
proof -
  have "js_split CHR ''/'' (path_join xs) = xs"
    unfolding path_join_def using assms by (intro js_split_join) auto
  then show ?thesis
    by (cases t) (simp_all add: js_split_prefix_append normalize_append)
qed

lemma relative_normalize:
  assumes "\<not> posix_isAbsolute p"
  shows "\<not> posix_isAbsolute (posix_normalize p)"
    and "normalize_segments False acc (js_split CHR ''/'' (posix_normalize p)) =
      normalize_segments False acc (js_split CHR ''/'' p)"
proof -
  let ?xs = "normalize_segments True [] (js_split CHR ''/'' p)"
  have kept: "\<forall>x \<in> set ?xs. x \<noteq> [] \<and> CHR ''/'' \<notin> set x"
    using normalize_True_kept [of "[]" "js_split CHR ''/'' p"] js_split_no_sep by auto
  have twice: "normalize_segments False acc ?xs = normalize_segments False acc (js_split CHR ''/'' p)"
    using normalize_twice [of "[]" acc] by simp
  have empty: "path_join ?xs = [] \<longleftrightarrow> ?xs = []"
    using kept by (intro path_join_eq_Nil) auto
  have "\<not> posix_isAbsolute (posix_normalize p) \<and>
      normalize_segments False acc (js_split CHR ''/'' (posix_normalize p)) =
      normalize_segments False acc (js_split CHR ''/'' p)"
  proof (cases "?xs = []")
    case True
    then have "posix_normalize p = dot \<or> posix_normalize p = ''./''"
      using assms by (auto simp: posix_normalize_def Let_def path_join_def)
    with True twice show ?thesis by (auto simp: posix_isAbsolute_def)
  next
    case False
    then have "p \<noteq> []" by auto
    with False assms empty have norm: "posix_normalize p =
        path_join ?xs @ (if last p = CHR ''/'' then ''/'' else [])"
      by (auto simp: posix_normalize_def Let_def)
    obtain y ys where "?xs = y # ys" using False by (cases ?xs) auto
    with kept norm have "\<not> posix_isAbsolute (posix_normalize p)"
      by (cases y) (auto simp: posix_isAbsolute_def path_join_Cons)
    then show ?thesis
      using split_join_trailing [OF False kept, of acc "last p = CHR ''/''"] norm twice by simp
  qed
  then show "\<not> posix_isAbsolute (posix_normalize p)"
    and "normalize_segments False acc (js_split CHR ''/'' (posix_normalize p)) =
      normalize_segments False acc (js_split CHR ''/'' p)"
    by auto
qed

lemma full_path_normalize:
  assumes "posix_isAbsolute cwd"
  shows "abs_segments (full_path cwd (posix_normalize p)) = abs_segments (full_path cwd p)"
proof (cases "posix_isAbsolute p")
  case True
  then show ?thesis by (simp add: full_path_def normalize_absolute segments_normalize)
next
  case False
  then show ?thesis
    by (simp add: full_path_def abs_segments_def relative_normalize js_split_prefix_append
        normalize_append)
qed

end
