(* ===== verification/Permissions.thy ===== *)
theory Permissions
  imports Node_Path
begin

text \<open>
  The local permission policy (\<^verbatim>\<open>packages/config/src/permissions.ts\<close>) and the permission records of
  \<^verbatim>\<open>packages/config/src/index.ts\<close>. The policy picks \<^verbatim>\<open>path.win32\<close> as soon as one of the paths looks
  like a Windows path and \<^verbatim>\<open>path.posix\<close> otherwise. The POSIX module is the one of \<open>Node_Path\<close>; the
  Windows module is an argument, and the locale \<open>path_contract\<close> states what the policy relies on.
  The working directory is \<^verbatim>\<open>/\<close> followed by \<open>wd\<close>.
\<close>

section \<open>Definitions\<close>

datatype LocalPermissionAction =
  ActRead | ActWrite | ActDelete | ActMkdir | ActRename | ActShell

datatype LocalPermissionOutcome = Allow | Deny | RequiresApproval

datatype enforcement = Managed

record GlobalFilesystemPermissionsConfig =
  allowAllWrites :: bool
  writeAllowedPaths :: "string list"
  fs_promptForElevation :: bool

record GlobalShellPermissionsConfig =
  shell_enabled :: bool
  enforcementMode :: enforcement
  shell_promptForElevation :: bool

record GlobalPermissionsConfig =
  filesystem :: GlobalFilesystemPermissionsConfig
  shell :: GlobalShellPermissionsConfig

definition DEFAULT_GLOBAL_PERMISSIONS :: GlobalPermissionsConfig where
  "DEFAULT_GLOBAL_PERMISSIONS =
     \<lparr>filesystem = \<lparr>allowAllWrites = False, writeAllowedPaths = [], fs_promptForElevation = True\<rparr>,
      shell = \<lparr>shell_enabled = True, enforcementMode = Managed, shell_promptForElevation = True\<rparr>\<rparr>"

record EvaluateLocalPermissionInput =
  permissions :: GlobalPermissionsConfig
  action :: LocalPermissionAction
  targetPath :: "string option"
  declaredWritePaths :: "string list option"
  requiresElevation :: bool

record LocalPermissionDecision =
  outcome :: LocalPermissionOutcome
  reason :: "string option"

datatype path_style = Posix | Win32

abbreviation (input) cwd_of :: "string \<Rightarrow> string" where
  "cwd_of wd \<equiv> CHR ''/'' # wd"

definition path_ops :: "string \<Rightarrow> path_module \<Rightarrow> path_style \<Rightarrow> path_module" where
  "path_ops wd w style = (case style of Posix \<Rightarrow> posix_module (cwd_of wd) | Win32 \<Rightarrow> w)"

definition is_letter :: "char \<Rightarrow> bool" where
  "is_letter c \<longleftrightarrow> (let n = (of_char c :: nat) in 65 \<le> n \<and> n \<le> 90 \<or> 97 \<le> n \<and> n \<le> 122)"

definition isWindowsStylePath :: "string \<Rightarrow> bool" where
  "isWindowsStylePath v \<longleftrightarrow>
     (case v of
        a # b # c # _ \<Rightarrow> is_letter a \<and> b = CHR '':'' \<and> (c = CHR 0x5C \<or> c = CHR ''/'')
      | _ \<Rightarrow> False)
     \<or> js_startsWith v [CHR 0x5C, CHR 0x5C]"

definition selectPathModule :: "string option list \<Rightarrow> path_style" where
  "selectPathModule vs =
     (if \<exists>v \<in> set vs. (case v of None \<Rightarrow> False | Some s \<Rightarrow> s \<noteq> [] \<and> isWindowsStylePath s)
      then Win32 else Posix)"

definition normalizePath :: "path_module \<Rightarrow> string \<Rightarrow> string" where
  "normalizePath pm p =
     (let normalized = pm_normalize pm p
      in if pm_isAbsolute pm normalized then normalized else pm_resolve pm normalized)"

definition normalizeForComparison :: "path_module \<Rightarrow> path_style \<Rightarrow> string \<Rightarrow> string" where
  "normalizeForComparison pm style p =
     (let normalized = normalizePath pm p
      in if style = Win32 then js_toLowerCase normalized else normalized)"

definition isWithinRoot :: "path_module \<Rightarrow> path_style \<Rightarrow> string \<Rightarrow> string \<Rightarrow> bool" where
  "isWithinRoot pm style target root =
     relative_inside pm
       (pm_relative pm (normalizeForComparison pm style root) (normalizeForComparison pm style target))"

definition isMutatingAction :: "LocalPermissionAction \<Rightarrow> bool" where
  "isMutatingAction a \<longleftrightarrow> a \<noteq> ActRead"

definition elevation_reason :: string where
  "elevation_reason = ''The requested action requires elevated local permissions.''"

definition input_style :: "EvaluateLocalPermissionInput \<Rightarrow> path_style" where
  "input_style i = selectPathModule
     (targetPath i # map Some (writeAllowedPaths (filesystem (permissions i)))
      @ map Some (js_or (declaredWritePaths i) []))"

definition evaluateLocalPermission ::
    "string \<Rightarrow> path_module \<Rightarrow> EvaluateLocalPermissionInput \<Rightarrow> LocalPermissionDecision" where
  "evaluateLocalPermission wd w i =
     (let fsp = filesystem (permissions i);
          style = input_style i;
          pm = path_ops wd w style
      in if requiresElevation i then
           (if fs_promptForElevation fsp \<or> shell_promptForElevation (shell (permissions i))
            then \<lparr>outcome = RequiresApproval, reason = Some elevation_reason\<rparr>
            else \<lparr>outcome = Deny, reason = Some elevation_reason\<rparr>)
         else if \<not> isMutatingAction (action i) then \<lparr>outcome = Allow, reason = None\<rparr>
         else if action i = ActShell then
           (let declared = js_or (declaredWritePaths i) []
            in if declared = [] then \<lparr>outcome = Allow, reason = None\<rparr>
               else if allowAllWrites fsp then \<lparr>outcome = Allow, reason = None\<rparr>
               else if list_all (\<lambda>entry. list_ex (\<lambda>root. isWithinRoot pm style entry root)
                                           (writeAllowedPaths fsp)) declared
               then \<lparr>outcome = Allow, reason = None\<rparr>
               else \<lparr>outcome = Deny,
                     reason = Some ''Shell command would write outside allowed paths.''\<rparr>)
         else (case targetPath i of
                 None \<Rightarrow> \<lparr>outcome = Deny,
                    reason = Some ''A target path is required for mutating filesystem actions.''\<rparr>
               | Some target \<Rightarrow>
                  if target = [] then \<lparr>outcome = Deny,
                    reason = Some ''A target path is required for mutating filesystem actions.''\<rparr>
                  else if allowAllWrites fsp then \<lparr>outcome = Allow, reason = None\<rparr>
                  else if list_ex (\<lambda>root. isWithinRoot pm style target root) (writeAllowedPaths fsp)
                  then \<lparr>outcome = Allow, reason = None\<rparr>
                  else \<lparr>outcome = Deny,
                    reason = Some ''Target path is outside the configured write allowlist.''\<rparr>))"

section \<open>What the policy relies on of a path module\<close>

text \<open>
  \<open>seg\<close> gives the segments of the location a path names. A path module fulfils the contract when
  its relative paths decide containment of locations and normalization keeps the location.
\<close>

locale path_contract =
  fixes pm :: path_module and seg :: "string \<Rightarrow> string list"
  assumes inside_iff: "relative_inside pm (pm_relative pm r t) \<longleftrightarrow> segments_inside (seg r) (seg t)"
    and seg_normalize: "seg (pm_normalize pm p) = seg p"
    and seg_resolve: "seg (pm_resolve pm p) = seg p"
begin

lemma seg_normalizePath: "seg (normalizePath pm p) = seg p"
  by (simp add: normalizePath_def Let_def seg_normalize seg_resolve)

lemma isWithinRoot_inside: "isWithinRoot pm Posix t r \<longleftrightarrow> segments_inside (seg r) (seg t)"
  by (simp add: isWithinRoot_def normalizeForComparison_def Let_def inside_iff seg_normalizePath)

lemma isWithinRoot_prefix: "isWithinRoot pm Posix t r \<Longrightarrow> prefix (seg r) (seg t)"
  by (simp add: isWithinRoot_inside segments_inside_prefix)

lemma isWithinRoot_refl: "isWithinRoot pm Posix r r"
  by (simp add: isWithinRoot_inside)

end

definition posix_segments :: "string \<Rightarrow> string \<Rightarrow> string list" where
  "posix_segments wd p = abs_segments (full_path (cwd_of wd) p)"

lemma cwd_absolute [simp]: "posix_isAbsolute (cwd_of wd)"
  by (simp add: posix_isAbsolute_def)

interpretation posix: path_contract "posix_module (cwd_of wd)" "posix_segments wd" for wd
proof unfold_locales
  fix r t p
  show "relative_inside (posix_module (cwd_of wd)) (pm_relative (posix_module (cwd_of wd)) r t)
      \<longleftrightarrow> segments_inside (posix_segments wd r) (posix_segments wd t)"
    using within_root_iff [OF cwd_absolute, of wd r t]
    by (simp add: posix_module_def posix_segments_def relative_inside_def)
  show "posix_segments wd (pm_normalize (posix_module (cwd_of wd)) p) = posix_segments wd p"
    by (simp add: posix_module_def posix_segments_def full_path_normalize)
  have "full_path (cwd_of wd) (posix_resolve (cwd_of wd) p) = posix_resolve (cwd_of wd) p"
    by (simp add: full_path_def resolve_absolute)
  then show "posix_segments wd (pm_resolve (posix_module (cwd_of wd)) p) = posix_segments wd p"
    by (simp add: posix_module_def posix_segments_def segments_resolve)
qed

lemma path_ops_Posix [simp]: "path_ops wd w Posix = posix_module (cwd_of wd)"
  by (simp add: path_ops_def)

lemma path_ops_Win32 [simp]: "path_ops wd w Win32 = w"
  by (simp add: path_ops_def)

section \<open>Properties\<close>

lemma allow_mutation_iff:
  assumes "action i \<notin> {ActRead, ActShell}" and "input_style i = Posix"
  shows "outcome (evaluateLocalPermission wd w i) = Allow \<longleftrightarrow>
    \<not> requiresElevation i \<and> (\<exists>target. targetPath i = Some target \<and> target \<noteq> [] \<and>
      (allowAllWrites (filesystem (permissions i)) \<or>
       (\<exists>root \<in> set (writeAllowedPaths (filesystem (permissions i))).
          segments_inside (posix_segments wd root) (posix_segments wd target))))"
  using assms
  by (auto simp: evaluateLocalPermission_def Let_def isMutatingAction_def
      posix.isWithinRoot_inside list_ex_iff split: option.splits)

lemma allow_shell_iff:
  assumes "action i = ActShell" and "input_style i = Posix"
  shows "outcome (evaluateLocalPermission wd w i) = Allow \<longleftrightarrow>
    \<not> requiresElevation i \<and> (allowAllWrites (filesystem (permissions i)) \<or>
      (\<forall>entry \<in> set (js_or (declaredWritePaths i) []).
        \<exists>root \<in> set (writeAllowedPaths (filesystem (permissions i))).
          segments_inside (posix_segments wd root) (posix_segments wd entry)))"
  using assms
  by (auto simp: evaluateLocalPermission_def Let_def isMutatingAction_def
      posix.isWithinRoot_inside list_ex_iff list_all_iff)

lemma posix_segments_plain: "\<forall>s \<in> set (posix_segments wd t). s \<noteq> dot \<and> s \<noteq> dotdot"
  using abs_segments_plain by (auto simp: posix_segments_def plain_segment_def)

text \<open>
  C1. A mutating file action that the policy allows without asking for approval stays inside the
  allowlist: unless every write is allowed, the segments of one of the configured roots are a
  prefix of the segments of the resolved target, in which no \<^verbatim>\<open>.\<close> or \<^verbatim>\<open>..\<close> is left, so a target
  written with \<^verbatim>\<open>..\<close> segments cannot leave the root it is matched against.
\<close>

theorem allowed_write_confined:
  assumes "outcome (evaluateLocalPermission wd w i) = Allow"
    and "action i \<notin> {ActRead, ActShell}" and "\<not> allowAllWrites (filesystem (permissions i))"
    and "input_style i = Posix"
  shows "\<exists>target root. targetPath i = Some target \<and>
    root \<in> set (writeAllowedPaths (filesystem (permissions i))) \<and>
    prefix (posix_segments wd root) (posix_segments wd target) \<and>
    (\<forall>s \<in> set (posix_segments wd target). s \<noteq> dot \<and> s \<noteq> dotdot)"
  using assms posix_segments_plain allow_mutation_iff [OF assms(2,4)]
  by (meson segments_inside_prefix)

definition demo_write :: "string \<Rightarrow> EvaluateLocalPermissionInput" where
  "demo_write p =
     \<lparr>permissions = DEFAULT_GLOBAL_PERMISSIONS\<lparr>filesystem :=
        \<lparr>allowAllWrites = False, writeAllowedPaths = [''/srv/data''], fs_promptForElevation = True\<rparr>\<rparr>,
      action = ActWrite, targetPath = Some p, declaredWritePaths = None, requiresElevation = False\<rparr>"

theorem allowed_write_confined_witness:
  "\<exists>target root. targetPath (demo_write ''/srv/data/a/../b.txt'') = Some target \<and>
    root \<in> set (writeAllowedPaths (filesystem (permissions (demo_write ''/srv/data/a/../b.txt'')))) \<and>
    prefix (posix_segments ''home'' root) (posix_segments ''home'' target) \<and>
    (\<forall>s \<in> set (posix_segments ''home'' target). s \<noteq> dot \<and> s \<noteq> dotdot)"
proof (rule allowed_write_confined [where w = "posix_module ''/''"])
  show "outcome (evaluateLocalPermission ''home'' (posix_module ''/'') (demo_write ''/srv/data/a/../b.txt'')) = Allow"
    by code_simp
qed (code_simp+)


definition demo_shell :: "string list \<Rightarrow> EvaluateLocalPermissionInput" where
  "demo_shell ps = (demo_write [])\<lparr>action := ActShell, targetPath := None, declaredWritePaths := Some ps\<rparr>"


end
