(* ===== verification/Sandbox_Filesystem.thy ===== *)
theory Sandbox_Filesystem
  imports Permissions "HOL-Library.Word"
begin

text \<open>
  The filesystem policy of the tool sandbox (\<^verbatim>\<open>apps/tool-runner-host/src/sandbox-filesystem.ts\<close>): the
  access controller of the host, the copy of it that is shipped to the worker process as source
  text, and the table of \<^verbatim>\<open>fs\<close> and \<^verbatim>\<open>fs/promises\<close> functions the worker replaces by guarded ones.
  \<^verbatim>\<open>fileURLToPath\<close> is an argument. A guarded call either throws or hands resolved paths to the
  original function; the model returns those paths in argument order. Paths are compared as text:
  symbolic links are outside the policy, as in the code.
\<close>

unbundle bit_operations_syntax

section \<open>Definitions\<close>

record js_url =
  url_protocol :: string
  url_hostname :: string
  url_text :: string

text \<open>A path argument: a \<^verbatim>\<open>URL\<close> object, or any other value through \<^verbatim>\<open>String(value)\<close>.\<close>

datatype js_target = TUrl js_url | TString string

text \<open>An optional flag or mode argument: absent, a number (as 32 bits), or text.\<close>

datatype js_flags = FAbsent | FNumber "32 word" | FString string

abbreviation O_WRONLY :: "32 word" where "O_WRONLY \<equiv> 1"
abbreviation O_RDWR :: "32 word" where "O_RDWR \<equiv> 2"
abbreviation O_CREAT :: "32 word" where "O_CREAT \<equiv> 64"
abbreviation O_TRUNC :: "32 word" where "O_TRUNC \<equiv> 512"
abbreviation O_APPEND :: "32 word" where "O_APPEND \<equiv> 1024"
abbreviation W_OK :: "32 word" where "W_OK \<equiv> 2"

definition access_denied :: "string \<Rightarrow> exn" where
  "access_denied p = Error (''Access denied: '' @ p)"

definition toFilePath :: "(js_url \<Rightarrow> string result) \<Rightarrow> js_target \<Rightarrow> string result" where
  "toFilePath furl v =
     (case v of
        TUrl u \<Rightarrow> if url_protocol u \<noteq> ''file:'' then Inl (access_denied (url_text u)) else furl u
      | TString s \<Rightarrow> Inr s)"

definition isWithinRoot_sandbox :: "string \<Rightarrow> string \<Rightarrow> string \<Rightarrow> bool" where
  "isWithinRoot_sandbox wd t r =
     relative_inside (posix_module (cwd_of wd)) (posix_relative (cwd_of wd) r t)"

record fs_guards =
  ensureReadAccess :: "js_target \<Rightarrow> string result"
  ensureWriteAccess :: "js_target \<Rightarrow> string result"
  ensureAccessMode :: "js_target \<Rightarrow> js_flags \<Rightarrow> string result"
  isWriteFlag :: "js_flags \<Rightarrow> bool"

definition write_mask :: "32 word" where
  "write_mask = O_WRONLY OR O_RDWR OR O_APPEND OR O_CREAT OR O_TRUNC"

definition createFilesystemAccessController ::
    "string \<Rightarrow> (js_url \<Rightarrow> string result) \<Rightarrow> string \<Rightarrow> string list \<Rightarrow> fs_guards" where
  "createFilesystemAccessController wd furl sandboxDirectory allowedPaths =
     (let sandboxRoot = posix_resolve (cwd_of wd) sandboxDirectory;
          readableRoots = sandboxRoot # map (posix_resolve (cwd_of wd)) allowedPaths;
          readAccess = (\<lambda>target. case toFilePath furl target of Inl e \<Rightarrow> Inl e | Inr requested \<Rightarrow>
             (let resolved = posix_resolve (cwd_of wd) requested
              in if list_ex (\<lambda>r. isWithinRoot_sandbox wd resolved r) readableRoots then Inr resolved
                 else Inl (access_denied requested)));
          writeAccess = (\<lambda>target. case toFilePath furl target of Inl e \<Rightarrow> Inl e | Inr requested \<Rightarrow>
             (let resolved = posix_resolve (cwd_of wd) requested
              in if isWithinRoot_sandbox wd resolved sandboxRoot then Inr resolved
                 else Inl (access_denied requested)))
      in \<lparr>ensureReadAccess = readAccess, ensureWriteAccess = writeAccess,
          ensureAccessMode = (\<lambda>target mode. case mode of
              FNumber n \<Rightarrow> if n AND W_OK \<noteq> 0 then writeAccess target else readAccess target
            | _ \<Rightarrow> readAccess target),
          isWriteFlag = (\<lambda>flags. case flags of
              FAbsent \<Rightarrow> False
            | FNumber n \<Rightarrow> n AND write_mask \<noteq> 0
            | FString s \<Rightarrow> list_ex (\<lambda>c. c = CHR ''w'' \<or> c = CHR ''a'' \<or> c = CHR ''+'') s)\<rparr>)"

text \<open>The worker's own copy of the guards, in the source text shipped to it.\<close>

definition worker_ensureReadAccess ::
    "string \<Rightarrow> (js_url \<Rightarrow> string result) \<Rightarrow> string list \<Rightarrow> js_target \<Rightarrow> string result" where
  "worker_ensureReadAccess wd furl readableRoots target =
     (case toFilePath furl target of Inl e \<Rightarrow> Inl e | Inr requested \<Rightarrow>
        if list_ex (isWithinRoot_sandbox wd (posix_resolve (cwd_of wd) requested)) readableRoots
        then Inr (posix_resolve (cwd_of wd) requested) else Inl (access_denied requested))"

definition worker_ensureWriteAccess ::
    "string \<Rightarrow> (js_url \<Rightarrow> string result) \<Rightarrow> string \<Rightarrow> js_target \<Rightarrow> string result" where
  "worker_ensureWriteAccess wd furl sandboxRoot target =
     (case toFilePath furl target of Inl e \<Rightarrow> Inl e | Inr requested \<Rightarrow>
        if isWithinRoot_sandbox wd (posix_resolve (cwd_of wd) requested) sandboxRoot
        then Inr (posix_resolve (cwd_of wd) requested) else Inl (access_denied requested))"

definition worker_isWriteFlag :: "js_flags \<Rightarrow> bool" where
  "worker_isWriteFlag flags =
     (case flags of FAbsent \<Rightarrow> False | FNumber n \<Rightarrow> n AND write_mask \<noteq> 0
      | FString s \<Rightarrow> CHR ''w'' \<in> set s \<or> CHR ''a'' \<in> set s \<or> CHR ''+'' \<in> set s)"

definition createFsGuards ::
    "string \<Rightarrow> (js_url \<Rightarrow> string result) \<Rightarrow> string \<Rightarrow> string list \<Rightarrow> fs_guards" where
  "createFsGuards wd furl sandboxDirectory allowedPaths =
     (let root = posix_resolve (cwd_of wd) sandboxDirectory;
          roots = root # map (posix_resolve (cwd_of wd)) allowedPaths
      in \<lparr>ensureReadAccess = worker_ensureReadAccess wd furl roots,
          ensureWriteAccess = worker_ensureWriteAccess wd furl root,
          ensureAccessMode = (\<lambda>target mode.
            if (case mode of FNumber n \<Rightarrow> n AND W_OK \<noteq> 0 | _ \<Rightarrow> False)
            then worker_ensureWriteAccess wd furl root target
            else worker_ensureReadAccess wd furl roots target),
          isWriteFlag = worker_isWriteFlag\<rparr>)"

text \<open>
  The functions the worker replaces, in the order of \<^verbatim>\<open>applyFilesystemSandbox\<close>. The functions that
  read take the \<^verbatim>\<open>flag\<close> option among the remaining arguments, which the replacement passes on.
\<close>

datatype fs_call =
  ReadFileSync js_target js_flags | WriteFileSync js_target | AppendFileSync js_target
| MkdirSync js_target | RmSync js_target | UnlinkSync js_target | ReaddirSync js_target
| CreateReadStream js_target js_flags | CreateWriteStream js_target | AccessSync js_target js_flags
| CopyFileSync js_target js_target | RenameSync js_target js_target
| PReadFile js_target js_flags | PWriteFile js_target | PAppendFile js_target | PMkdir js_target
| PRm js_target | PUnlink js_target | PReaddir js_target | PAccess js_target js_flags
| PCopyFile js_target js_target | PRename js_target js_target | POpen js_target js_flags

definition guard1 :: "string result \<Rightarrow> string list result" where
  "guard1 r = (case r of Inl e \<Rightarrow> Inl e | Inr p \<Rightarrow> Inr [p])"

definition guard2 :: "string result \<Rightarrow> string result \<Rightarrow> string list result" where
  "guard2 r s = (case r of Inl e \<Rightarrow> Inl e | Inr p \<Rightarrow> (case s of Inl e \<Rightarrow> Inl e | Inr q \<Rightarrow> Inr [p, q]))"

fun applyFilesystemSandbox :: "fs_guards \<Rightarrow> fs_call \<Rightarrow> string list result" where
  "applyFilesystemSandbox g (ReadFileSync t flag) = guard1 (ensureReadAccess g t)"
| "applyFilesystemSandbox g (WriteFileSync t) = guard1 (ensureWriteAccess g t)"
| "applyFilesystemSandbox g (AppendFileSync t) = guard1 (ensureWriteAccess g t)"
| "applyFilesystemSandbox g (MkdirSync t) = guard1 (ensureWriteAccess g t)"
| "applyFilesystemSandbox g (RmSync t) = guard1 (ensureWriteAccess g t)"
| "applyFilesystemSandbox g (UnlinkSync t) = guard1 (ensureWriteAccess g t)"
| "applyFilesystemSandbox g (ReaddirSync t) = guard1 (ensureReadAccess g t)"
| "applyFilesystemSandbox g (CreateReadStream t flag) = guard1 (ensureReadAccess g t)"
| "applyFilesystemSandbox g (CreateWriteStream t) = guard1 (ensureWriteAccess g t)"
| "applyFilesystemSandbox g (AccessSync t mode) = guard1 (ensureAccessMode g t mode)"
| "applyFilesystemSandbox g (CopyFileSync s d) = guard2 (ensureReadAccess g s) (ensureWriteAccess g d)"
| "applyFilesystemSandbox g (RenameSync s d) = guard2 (ensureWriteAccess g s) (ensureWriteAccess g d)"
| "applyFilesystemSandbox g (PReadFile t flag) = guard1 (ensureReadAccess g t)"
| "applyFilesystemSandbox g (PWriteFile t) = guard1 (ensureWriteAccess g t)"
| "applyFilesystemSandbox g (PAppendFile t) = guard1 (ensureWriteAccess g t)"
| "applyFilesystemSandbox g (PMkdir t) = guard1 (ensureWriteAccess g t)"
| "applyFilesystemSandbox g (PRm t) = guard1 (ensureWriteAccess g t)"
| "applyFilesystemSandbox g (PUnlink t) = guard1 (ensureWriteAccess g t)"
| "applyFilesystemSandbox g (PReaddir t) = guard1 (ensureReadAccess g t)"
| "applyFilesystemSandbox g (PAccess t mode) = guard1 (ensureAccessMode g t mode)"
| "applyFilesystemSandbox g (PCopyFile s d) = guard2 (ensureReadAccess g s) (ensureWriteAccess g d)"
| "applyFilesystemSandbox g (PRename s d) = guard2 (ensureWriteAccess g s) (ensureWriteAccess g d)"
| "applyFilesystemSandbox g (POpen t flags) =
     guard1 (if isWriteFlag g flags then ensureWriteAccess g t else ensureReadAccess g t)"

section \<open>What the calls do to the paths they are given\<close>

text \<open>
  For each path argument, whether the original function can change the file system at that path.
  An \<^verbatim>\<open>open\<close> can when its flags ask for write access, creation, truncation or appending; the
  textual flags are the documented ones.
\<close>

definition writing_text_flags :: "string list" where
  "writing_text_flags = [''a'', ''ax'', ''a+'', ''ax+'', ''as'', ''as+'', ''r+'', ''rs+'',
     ''w'', ''wx'', ''w+'', ''wx+'']"

definition opens_for_writing :: "js_flags \<Rightarrow> bool" where
  "opens_for_writing flags =
     (case flags of FAbsent \<Rightarrow> False
      | FNumber n \<Rightarrow> n AND O_WRONLY \<noteq> 0 \<or> n AND O_RDWR \<noteq> 0 \<or> n AND O_CREAT \<noteq> 0
          \<or> n AND O_TRUNC \<noteq> 0 \<or> n AND O_APPEND \<noteq> 0
      | FString s \<Rightarrow> s \<in> set writing_text_flags)"

fun fs_mutates :: "fs_call \<Rightarrow> bool list" where
  "fs_mutates (WriteFileSync _) = [True]"
| "fs_mutates (AppendFileSync _) = [True]"
| "fs_mutates (MkdirSync _) = [True]"
| "fs_mutates (RmSync _) = [True]"
| "fs_mutates (UnlinkSync _) = [True]"
| "fs_mutates (CreateWriteStream _) = [True]"
| "fs_mutates (CopyFileSync _ _) = [False, True]"
| "fs_mutates (RenameSync _ _) = [True, True]"
| "fs_mutates (PWriteFile _) = [True]"
| "fs_mutates (PAppendFile _) = [True]"
| "fs_mutates (PMkdir _) = [True]"
| "fs_mutates (PRm _) = [True]"
| "fs_mutates (PUnlink _) = [True]"
| "fs_mutates (PCopyFile _ _) = [False, True]"
| "fs_mutates (PRename _ _) = [True, True]"
| "fs_mutates (POpen _ flags) = [opens_for_writing flags]"
| "fs_mutates (ReadFileSync _ flag) = [opens_for_writing flag]"
| "fs_mutates (CreateReadStream _ flag) = [opens_for_writing flag]"
| "fs_mutates (PReadFile _ flag) = [opens_for_writing flag]"
| "fs_mutates _ = [False]"

text \<open>Whether a call of a reading function asks, through its \<^verbatim>\<open>flag\<close> option, for a writable file.\<close>

fun reads_for_writing :: "fs_call \<Rightarrow> bool" where
  "reads_for_writing (ReadFileSync _ flag) = opens_for_writing flag"
| "reads_for_writing (CreateReadStream _ flag) = opens_for_writing flag"
| "reads_for_writing (PReadFile _ flag) = opens_for_writing flag"
| "reads_for_writing _ = False"

text \<open>
  The contract of a set of guards: the paths they let through lie inside the writable region or the
  readable one, and every flag that opens for writing is recognised.
\<close>

locale fs_policy =
  fixes g :: fs_guards and readable :: "string \<Rightarrow> bool" and writable :: "string \<Rightarrow> bool"
  assumes read_inside: "ensureReadAccess g t = Inr p \<Longrightarrow> readable p"
    and write_inside: "ensureWriteAccess g t = Inr p \<Longrightarrow> writable p"
    and mode_inside: "ensureAccessMode g t m = Inr p \<Longrightarrow> readable p"
    and writable_readable: "writable p \<Longrightarrow> readable p"
    and flags_recognised: "opens_for_writing f \<Longrightarrow> isWriteFlag g f"
begin

lemma guard1_inside:
  "guard1 r = Inr ps \<Longrightarrow> (\<And>p. r = Inr p \<Longrightarrow> Q p) \<Longrightarrow> \<exists>p. ps = [p] \<and> Q p"
  by (auto simp: guard1_def split: sum.splits)

lemma guard2_inside:
  "guard2 r s = Inr ps \<Longrightarrow> (\<And>p. r = Inr p \<Longrightarrow> Q p) \<Longrightarrow> (\<And>p. s = Inr p \<Longrightarrow> R p) \<Longrightarrow>
   \<exists>p q. ps = [p, q] \<and> Q p \<and> R q"
  by (auto simp: guard2_def split: sum.splits)

lemma call_confined:
  assumes "applyFilesystemSandbox g call = Inr ps"
  shows "length ps = length (fs_mutates call) \<and>
    (\<forall>(p, m) \<in> set (zip ps (fs_mutates call)).
       readable p \<and> (m \<and> \<not> reads_for_writing call \<longrightarrow> writable p))"
  using assms read_inside write_inside mode_inside writable_readable flags_recognised
  by (cases call) (fastforce simp: guard1_def guard2_def split: sum.splits if_splits)+

end

section \<open>The guards fulfil the contract\<close>

definition inside :: "string \<Rightarrow> string \<Rightarrow> string \<Rightarrow> bool" where
  "inside wd root p \<longleftrightarrow> segments_inside (posix_segments wd root) (posix_segments wd p)"

lemma isWithinRoot_sandbox_iff: "isWithinRoot_sandbox wd t r \<longleftrightarrow> inside wd r t"
  using posix.inside_iff [of wd r t]
  by (simp add: isWithinRoot_sandbox_def inside_def posix_module_def)

lemma inside_resolve [simp]: "inside wd (posix_resolve (cwd_of wd) r) p \<longleftrightarrow> inside wd r p"
  using posix.seg_resolve [of wd r] by (simp add: inside_def posix_module_def)

lemma inside_resolve_target [simp]: "inside wd r (posix_resolve (cwd_of wd) p) \<longleftrightarrow> inside wd r p"
  using posix.seg_resolve [of wd p] by (simp add: inside_def posix_module_def)

lemma mask_bits:
  "n AND write_mask = 0 \<longleftrightarrow> n AND O_WRONLY = 0 \<and> n AND O_RDWR = 0 \<and> n AND O_APPEND = 0
     \<and> n AND O_CREAT = 0 \<and> n AND O_TRUNC = 0" for n :: "32 word"
proof -
  have or_zero: "x OR y = 0 \<longleftrightarrow> x = 0 \<and> y = 0" for x y :: "32 word"
    by (metis or.right_neutral or.left_neutral or_eq_0_iff)
  have "n AND (x OR y) = 0 \<longleftrightarrow> n AND x = 0 \<and> n AND y = 0" for x y :: "32 word"
    by (simp only: bit.conj_disj_distrib or_zero)
  then show ?thesis by (simp only: write_mask_def conj_assoc)
qed

lemma worker_isWriteFlag_complete: "opens_for_writing f \<Longrightarrow> worker_isWriteFlag f"
proof (cases f)
  case (FNumber n)
  then show "opens_for_writing f \<Longrightarrow> ?thesis"
    using mask_bits [of n] by (auto simp: opens_for_writing_def worker_isWriteFlag_def)
next
  case (FString s)
  then show "opens_for_writing f \<Longrightarrow> ?thesis"
    by (auto simp: opens_for_writing_def worker_isWriteFlag_def writing_text_flags_def)
qed (simp add: opens_for_writing_def)

definition readable_by :: "string \<Rightarrow> string \<Rightarrow> string list \<Rightarrow> string \<Rightarrow> bool" where
  "readable_by wd sandboxDirectory allowed p \<longleftrightarrow> (\<exists>r \<in> set (sandboxDirectory # allowed). inside wd r p)"

lemma worker_read_iff:
  "worker_ensureReadAccess wd furl (posix_resolve (cwd_of wd) d # map (posix_resolve (cwd_of wd)) as) t = Inr p
   \<longleftrightarrow> (\<exists>s. toFilePath furl t = Inr s \<and> p = posix_resolve (cwd_of wd) s \<and> readable_by wd d as s)"
  by (auto simp: worker_ensureReadAccess_def list_ex_iff isWithinRoot_sandbox_iff readable_by_def
      split: sum.splits)

lemma worker_write_iff:
  "worker_ensureWriteAccess wd furl (posix_resolve (cwd_of wd) d) t = Inr p
   \<longleftrightarrow> (\<exists>s. toFilePath furl t = Inr s \<and> p = posix_resolve (cwd_of wd) s \<and> inside wd d s)"
  by (auto simp: worker_ensureWriteAccess_def isWithinRoot_sandbox_iff split: sum.splits)

lemma readable_resolve: "readable_by wd d as (posix_resolve (cwd_of wd) s) \<longleftrightarrow> readable_by wd d as s"
  by (simp add: readable_by_def)

interpretation worker: fs_policy "createFsGuards wd furl d as" "readable_by wd d as" "inside wd d"
  for wd furl d as
proof unfold_locales
  fix t m f p
  show "readable_by wd d as p" if "ensureReadAccess (createFsGuards wd furl d as) t = Inr p"
    using that by (auto simp: createFsGuards_def Let_def worker_read_iff readable_resolve)
  show "inside wd d p" if "ensureWriteAccess (createFsGuards wd furl d as) t = Inr p"
    using that by (auto simp: createFsGuards_def Let_def worker_write_iff)
  show "readable_by wd d as p" if "ensureAccessMode (createFsGuards wd furl d as) t m = Inr p"
    using that
    by (auto simp: createFsGuards_def Let_def worker_write_iff worker_read_iff readable_resolve readable_by_def
        split: if_splits)
  show "readable_by wd d as p" if "inside wd d p"
    using that by (simp add: readable_by_def)
  show "isWriteFlag (createFsGuards wd furl d as) f" if "opens_for_writing f"
    using that by (simp add: createFsGuards_def Let_def worker_isWriteFlag_complete)
qed

section \<open>Properties\<close>

text \<open>
  C5. Sandbox confinement: whenever a guarded file-system call of the worker reaches the original
  function, every path it passes on lies inside the sandbox directory or one of the allowed paths,
  and every path at which the function can change the file system lies inside the sandbox directory,
  reading functions with a writing \<^verbatim>\<open>flag\<close> option excepted.
\<close>

theorem sandbox_call_confined:
  assumes "applyFilesystemSandbox (createFsGuards wd furl d as) call = Inr ps"
  shows "length ps = length (fs_mutates call) \<and>
    (\<forall>(p, m) \<in> set (zip ps (fs_mutates call)).
       readable_by wd d as p \<and> (m \<and> \<not> reads_for_writing call \<longrightarrow> inside wd d p))"
  using assms by (rule worker.call_confined)

theorem sandbox_call_confined_witness:
  "\<exists>p q. readable_by ''tmp'' ''/tmp/box'' [''/data''] p \<and> inside ''tmp'' ''/tmp/box'' q"
proof -
  let ?call = "CopyFileSync (TString ''/data/in/../a.csv'') (TString ''box/out.csv'')"
  have "applyFilesystemSandbox (createFsGuards ''tmp'' (\<lambda>u. Inl (Error [])) ''/tmp/box'' [''/data'']) ?call
      = Inr [''/data/a.csv'', ''/tmp/box/out.csv'']"
    by code_simp
  from sandbox_call_confined [OF this] show ?thesis by auto
qed


text \<open>
  That exception is real: a reading function that is given a writing \<^verbatim>\<open>flag\<close> reaches the original
  function on every path of the readable roots, so a file of an allowed path outside the sandbox
  directory can be truncated by \<^verbatim>\<open>readFileSync(path, { flag: "w+" })\<close>, where \<^verbatim>\<open>open\<close> is denied.
\<close>

lemma read_flag_escapes_write_policy:
  defines "g \<equiv> createFsGuards ''tmp'' (\<lambda>u. Inl (Error [])) ''/tmp/box'' [''/data'']"
  shows "applyFilesystemSandbox g (ReadFileSync (TString ''/data/a.csv'') (FString ''w+'')) = Inr [''/data/a.csv'']"
    and "fs_mutates (ReadFileSync (TString ''/data/a.csv'') (FString ''w+'')) = [True]"
    and "\<not> isWithinRoot_sandbox ''tmp'' ''/data/a.csv'' ''/tmp/box''"
    and "applyFilesystemSandbox g (POpen (TString ''/data/a.csv'') (FString ''w+'')) = Inl (access_denied ''/data/a.csv'')"
  unfolding g_def by code_simp+

end
