(* ===== verification/Sandbox_Network.thy ===== *)
theory Sandbox_Network
  imports Sandbox_Filesystem
begin

text \<open>
  The network policy of the tool sandbox (\<^verbatim>\<open>apps/tool-runner-host/src/sandbox-network.ts\<close>): how a
  host name is read off the arguments of a connecting function, the access controller of the host,
  the worker's copy of both, and the functions the worker replaces. The URL parser is the argument
  \<open>parse\<close>, which gives the host name of a text that is a URL and \<open>None\<close> where \<^verbatim>\<open>new URL\<close> throws.
\<close>

section \<open>Definitions\<close>

text \<open>An argument of a connecting function. An object is read through three of its fields, each
  present when it is a string.\<close>

datatype net_arg =
  AUrl js_url
| AString string
| ANumber nat
| AObject (obj_hostname: "string option") (obj_host: "string option") (obj_href: "string option")
| AOther

definition strip_brackets :: "string \<Rightarrow> string" where
  \<comment> \<open>\<^verbatim>\<open>s.replace(/^\[|\]$/g, "")\<close>\<close>
  "strip_brackets s =
     (let t = (if s \<noteq> [] \<and> hd s = CHR ''['' then tl s else s)
      in if t \<noteq> [] \<and> last t = CHR '']'' then butlast t else t)"

definition normalizeHostname :: "string option \<Rightarrow> string option" where
  "normalizeHostname h =
     (case h of None \<Rightarrow> None
      | Some s \<Rightarrow> if s = [] then None else Some (js_toLowerCase (strip_brackets s)))"

definition parseUrlHostname :: "(string \<Rightarrow> string option) \<Rightarrow> string \<Rightarrow> string option" where
  "parseUrlHostname parse v = (case parse v of None \<Rightarrow> None | Some h \<Rightarrow> normalizeHostname (Some h))"

definition secondary_hostname :: "net_arg option \<Rightarrow> string option" where
  "secondary_hostname b = (case b of Some (AString s) \<Rightarrow> normalizeHostname (Some s) | _ \<Rightarrow> None)"

definition extractHostname ::
    "(string \<Rightarrow> string option) \<Rightarrow> net_arg \<Rightarrow> net_arg option \<Rightarrow> string option" where
  "extractHostname parse a b =
     (case a of
        AUrl u \<Rightarrow> normalizeHostname (Some (url_hostname u))
      | AString s \<Rightarrow> if js_includes s ''://'' then parseUrlHostname parse s else secondary_hostname b
      | ANumber _ \<Rightarrow> secondary_hostname b
      | AObject hostname host href \<Rightarrow>
          (case hostname of
             Some s \<Rightarrow> normalizeHostname (Some s)
           | None \<Rightarrow>
              (let fromHost = (case host of
                   None \<Rightarrow> None
                 | Some s \<Rightarrow> if js_includes s ''://'' then parseUrlHostname parse s
                            else normalizeHostname (Some (hd (js_split CHR '':'' s))))
               in case fromHost of
                    Some (c # cs) \<Rightarrow> Some (c # cs)
                  | _ \<Rightarrow> (case href of None \<Rightarrow> None | Some s \<Rightarrow> parseUrlHostname parse s)))
      | AOther \<Rightarrow> None)"

definition network_disabled :: exn where
  "network_disabled = Error ''Network access is disabled for this tool''"

definition network_denied :: "string option \<Rightarrow> exn" where
  "network_denied h = Error (''Network access denied: '' @ js_or h ''unknown-host'')"

definition createNetworkAccessController :: "bool \<Rightarrow> string list \<Rightarrow> string option \<Rightarrow> unit result" where
  "createNetworkAccessController allowNetwork allowedDomains =
     (let normalizedAllowedDomains = map js_toLowerCase allowedDomains
      in (\<lambda>hostname.
        if \<not> allowNetwork then Inl network_disabled
        else if normalizedAllowedDomains = [] then Inr ()
        else (let normalizedHostname = normalizeHostname hostname
              in if normalizedHostname = None \<or> normalizedHostname = Some []
                    \<or> the normalizedHostname \<notin> set normalizedAllowedDomains
                 then Inl (network_denied normalizedHostname) else Inr ())))"

text \<open>The worker's own copy, in the source text shipped to it.\<close>

definition worker_normalizeHostname :: "string option \<Rightarrow> string option" where
  "worker_normalizeHostname h =
     (if h = None \<or> h = Some [] then None else map_option (js_toLowerCase \<circ> strip_brackets) h)"

definition worker_parseUrlHostname :: "(string \<Rightarrow> string option) \<Rightarrow> string \<Rightarrow> string option" where
  "worker_parseUrlHostname parse v = Option.bind (parse v) (\<lambda>h. worker_normalizeHostname (Some h))"

fun worker_extractHostname ::
    "(string \<Rightarrow> string option) \<Rightarrow> net_arg \<Rightarrow> net_arg option \<Rightarrow> string option" where
  "worker_extractHostname parse (AUrl u) b = worker_normalizeHostname (Some (url_hostname u))"
| "worker_extractHostname parse (AString s) b =
     (if js_includes s ''://'' then worker_parseUrlHostname parse s
      else case b of Some (AString t) \<Rightarrow> worker_normalizeHostname (Some t) | _ \<Rightarrow> None)"
| "worker_extractHostname parse (ANumber n) b =
     (case b of Some (AString t) \<Rightarrow> worker_normalizeHostname (Some t) | _ \<Rightarrow> None)"
| "worker_extractHostname parse (AObject (Some s) host href) b = worker_normalizeHostname (Some s)"
| "worker_extractHostname parse (AObject None host href) b =
     (let fromHost = (case host of
          None \<Rightarrow> None
        | Some s \<Rightarrow> if js_includes s ''://'' then worker_parseUrlHostname parse s
                   else worker_normalizeHostname (Some (hd (js_split CHR '':'' s))))
      in if fromHost \<noteq> None \<and> fromHost \<noteq> Some [] then fromHost
         else Option.bind href (worker_parseUrlHostname parse))"
| "worker_extractHostname parse AOther b = None"

definition createNetworkGuard :: "bool \<Rightarrow> string list \<Rightarrow> string option \<Rightarrow> unit result" where
  "createNetworkGuard allowNetwork allowedDomains hostname =
     (if \<not> allowNetwork then Inl network_disabled
      else if allowedDomains = [] then Inr ()
      else (case worker_normalizeHostname hostname of
              None \<Rightarrow> Inl (network_denied None)
            | Some h \<Rightarrow> if h \<noteq> [] \<and> list_ex (\<lambda>d. js_toLowerCase d = h) allowedDomains then Inr ()
                       else Inl (network_denied (Some h))))"

text \<open>The argument of \<^verbatim>\<open>fetch\<close>: text, a \<^verbatim>\<open>URL\<close>, or a \<^verbatim>\<open>Request\<close> with its \<^verbatim>\<open>url\<close>.\<close>

datatype fetch_input = FetchText string | FetchUrl js_url | FetchRequest string

datatype net_call =
  Fetch fetch_input
| HttpRequest net_arg "net_arg option" | HttpGet net_arg "net_arg option"
| HttpsRequest net_arg "net_arg option" | HttpsGet net_arg "net_arg option"
| NetConnect net_arg "net_arg option" | NetCreateConnection net_arg "net_arg option"
| TlsConnect net_arg "net_arg option"

definition fetch_url :: "fetch_input \<Rightarrow> string" where
  "fetch_url i = (case i of FetchText s \<Rightarrow> s | FetchUrl u \<Rightarrow> url_text u | FetchRequest s \<Rightarrow> s)"

definition patchFetch ::
    "(string \<Rightarrow> string option) \<Rightarrow> (string option \<Rightarrow> unit result) \<Rightarrow> fetch_input \<Rightarrow> unit result" where
  "patchFetch parse ensure i =
     (case parse (fetch_url i) of
        None \<Rightarrow> Inl (Error ''Invalid URL'')
      | Some h \<Rightarrow> ensure (Some h))"

definition guardMethod ::
    "(string \<Rightarrow> string option) \<Rightarrow> (string option \<Rightarrow> unit result) \<Rightarrow> net_arg \<Rightarrow> net_arg option \<Rightarrow> unit result" where
  "guardMethod parse ensure a b = ensure (worker_extractHostname parse a b)"

fun configureNetwork ::
    "(string \<Rightarrow> string option) \<Rightarrow> bool \<Rightarrow> string list \<Rightarrow> net_call \<Rightarrow> unit result" where
  "configureNetwork parse al ds (Fetch i) = patchFetch parse (createNetworkGuard al ds) i"
| "configureNetwork parse al ds (HttpRequest a b) = guardMethod parse (createNetworkGuard al ds) a b"
| "configureNetwork parse al ds (HttpGet a b) = guardMethod parse (createNetworkGuard al ds) a b"
| "configureNetwork parse al ds (HttpsRequest a b) = guardMethod parse (createNetworkGuard al ds) a b"
| "configureNetwork parse al ds (HttpsGet a b) = guardMethod parse (createNetworkGuard al ds) a b"
| "configureNetwork parse al ds (NetConnect a b) =
     createNetworkGuard al ds (worker_extractHostname parse a b)"
| "configureNetwork parse al ds (NetCreateConnection a b) =
     createNetworkGuard al ds (worker_extractHostname parse a b)"
| "configureNetwork parse al ds (TlsConnect a b) =
     createNetworkGuard al ds (worker_extractHostname parse a b)"

section \<open>Where the calls connect to\<close>

text \<open>
  The host the original functions connect to, by their documentation: \<^verbatim>\<open>http.request(url, options)\<close>
  lets \<^verbatim>\<open>options.hostname\<close> take precedence over the URL, and prefers \<^verbatim>\<open>hostname\<close> to \<^verbatim>\<open>host\<close>;
  \<^verbatim>\<open>net.connect\<close> and \<^verbatim>\<open>tls.connect\<close> read \<^verbatim>\<open>host\<close> only, or take the host after a port number.
  \<open>None\<close> stands for the default host.
\<close>

definition http_host :: "(string \<Rightarrow> string option) \<Rightarrow> net_arg \<Rightarrow> net_arg option \<Rightarrow> string option" where
  "http_host parse a b =
     (let override = (case b of Some (AObject hn _ _) \<Rightarrow> hn | _ \<Rightarrow> None)
      in js_or_opt override
           (case a of
              AUrl u \<Rightarrow> Some (url_hostname u)
            | AString s \<Rightarrow> parse s
            | AObject hn h _ \<Rightarrow> js_or_opt hn h
            | _ \<Rightarrow> None))"

definition socket_host :: "net_arg \<Rightarrow> net_arg option \<Rightarrow> string option" where
  "socket_host a b =
     (case a of
        AObject _ h _ \<Rightarrow> h
      | ANumber _ \<Rightarrow> (case b of Some (AString s) \<Rightarrow> Some s | _ \<Rightarrow> None)
      | _ \<Rightarrow> None)"

fun connect_host :: "(string \<Rightarrow> string option) \<Rightarrow> net_call \<Rightarrow> string option" where
  "connect_host parse (Fetch i) = parse (fetch_url i)"
| "connect_host parse (HttpRequest a b) = http_host parse a b"
| "connect_host parse (HttpGet a b) = http_host parse a b"
| "connect_host parse (HttpsRequest a b) = http_host parse a b"
| "connect_host parse (HttpsGet a b) = http_host parse a b"
| "connect_host parse (NetConnect a b) = socket_host a b"
| "connect_host parse (NetCreateConnection a b) = socket_host a b"
| "connect_host parse (TlsConnect a b) = socket_host a b"

text \<open>
  A call names its host plainly when the argument the guard reads is the one the connection uses:
  no options that override a URL, no \<^verbatim>\<open>hostname\<close> beside the \<^verbatim>\<open>host\<close> of a socket, and a \<^verbatim>\<open>host\<close>
  without a colon.
\<close>

definition plain_host :: "string option \<Rightarrow> bool" where
  "plain_host h \<longleftrightarrow> (case h of None \<Rightarrow> False | Some s \<Rightarrow>
     CHR '':'' \<notin> set s \<and> normalizeHostname (Some s) \<notin> {None, Some []})"

definition plain_http :: "net_arg \<Rightarrow> net_arg option \<Rightarrow> bool" where
  "plain_http a b \<longleftrightarrow>
     (case b of Some (AObject hn _ _) \<Rightarrow> hn = None | _ \<Rightarrow> True) \<and>
     (case a of AUrl _ \<Rightarrow> True | AString s \<Rightarrow> js_includes s ''://''
      | AObject hn h _ \<Rightarrow> hn \<noteq> None \<or> plain_host h | _ \<Rightarrow> False)"

fun plain_socket :: "net_arg \<Rightarrow> net_arg option \<Rightarrow> bool" where
  "plain_socket (AObject hn h r) b \<longleftrightarrow> hn = None \<and> plain_host h"
| "plain_socket (ANumber n) (Some (AString s)) \<longleftrightarrow> True"
| "plain_socket a b \<longleftrightarrow> False"

fun plain_call :: "net_call \<Rightarrow> bool" where
  "plain_call (Fetch i) \<longleftrightarrow> True"
| "plain_call (HttpRequest a b) \<longleftrightarrow> plain_http a b"
| "plain_call (HttpGet a b) \<longleftrightarrow> plain_http a b"
| "plain_call (HttpsRequest a b) \<longleftrightarrow> plain_http a b"
| "plain_call (HttpsGet a b) \<longleftrightarrow> plain_http a b"
| "plain_call (NetConnect a b) \<longleftrightarrow> plain_socket a b"
| "plain_call (NetCreateConnection a b) \<longleftrightarrow> plain_socket a b"
| "plain_call (TlsConnect a b) \<longleftrightarrow> plain_socket a b"

text \<open>Equality of host names up to case and enclosing brackets.\<close>

definition same_host :: "string \<Rightarrow> string \<Rightarrow> bool" where
  "same_host h d \<longleftrightarrow> (\<exists>n. (strip_brackets ^^ n) (js_toLowerCase h) = js_toLowerCase d)"

section \<open>Lemmas\<close>

lemma js_lower_char_bracket:
  "js_lower_char c = CHR ''['' \<longleftrightarrow> c = CHR ''[''" "js_lower_char c = CHR '']'' \<longleftrightarrow> c = CHR '']''"
proof -
  have "js_lower_char c = b \<longleftrightarrow> c = b" if "b \<in> {CHR ''['', CHR '']''}" for b
  proof (cases "65 \<le> (of_char c :: nat) \<and> (of_char c :: nat) \<le> 90 \<or>
      192 \<le> (of_char c :: nat) \<and> (of_char c :: nat) \<le> 222 \<and> (of_char c :: nat) \<noteq> 215")
    case True
    then have low: "js_lower_char c = char_of ((of_char c :: nat) + 32)"
      by (simp add: js_lower_char_def Let_def)
    have "(of_char (js_lower_char c) :: nat) = of_char c + 32"
      unfolding low using True by (auto simp: of_char_of)
    moreover have "(of_char b :: nat) \<in> {91, 93}" using that by auto
    ultimately show ?thesis using True by (auto dest: arg_cong [where f = "of_char :: char \<Rightarrow> nat"])
  next
    case False
    then have "js_lower_char c = c" unfolding js_lower_char_def Let_def by (rule if_not_P)
    then show ?thesis by simp
  qed
  then show "js_lower_char c = CHR ''['' \<longleftrightarrow> c = CHR ''[''" "js_lower_char c = CHR '']'' \<longleftrightarrow> c = CHR '']''"
    by simp_all
qed

lemma lower_strip: "js_toLowerCase (strip_brackets s) = strip_brackets (js_toLowerCase s)"
  by (cases s)
    (auto simp: strip_brackets_def js_toLowerCase_def Let_def js_lower_char_bracket last_map map_butlast)

lemma worker_normalize_eq [simp]: "worker_normalizeHostname = normalizeHostname"
  by (auto simp: worker_normalizeHostname_def normalizeHostname_def fun_eq_iff split: option.splits)

lemma worker_parse_eq [simp]: "worker_parseUrlHostname = parseUrlHostname"
  by (auto simp: worker_parseUrlHostname_def parseUrlHostname_def fun_eq_iff split: option.splits)

lemma worker_extract_eq: "worker_extractHostname parse a b = extractHostname parse a b"
  by (induction parse a b rule: worker_extractHostname.induct)
    (auto simp: extractHostname_def secondary_hostname_def Let_def split: option.splits list.splits net_arg.splits)

lemma guard_eq_controller: "createNetworkGuard al ds = createNetworkAccessController al ds"
  by (auto simp: createNetworkGuard_def createNetworkAccessController_def Let_def fun_eq_iff
      list_ex_iff split: option.splits)

lemma guard_passes:
  assumes "createNetworkGuard al ds h = Inr ()"
  shows "al \<and> (ds = [] \<or> (\<exists>s d. normalizeHostname h = Some s \<and> d \<in> set ds \<and> js_toLowerCase d = s))"
  using assms by (auto simp: createNetworkGuard_def list_ex_iff split: if_splits option.splits)

lemma normalize_same_host:
  "normalizeHostname (Some h) = Some s \<Longrightarrow> s = js_toLowerCase d \<Longrightarrow> same_host h d"
  unfolding same_host_def
  by (rule exI [of _ 1]) (auto simp: normalizeHostname_def lower_strip split: if_splits)

lemma normalize_twice_same_host:
  assumes "normalizeHostname (normalizeHostname (Some h)) = Some s" "s = js_toLowerCase d"
  shows "same_host h d"
proof -
  from assms(1) have "h \<noteq> []" by (auto simp: normalizeHostname_def)
  with assms(1) have "s = js_toLowerCase (strip_brackets (js_toLowerCase (strip_brackets h)))"
    by (auto simp: normalizeHostname_def split: if_splits)
  then have "s = (strip_brackets ^^ 2) (js_toLowerCase h)"
    by (simp add: lower_strip numeral_2_eq_2)
  with assms(2) show ?thesis unfolding same_host_def by metis
qed

lemma no_colon_no_scheme: "CHR '':'' \<notin> set s \<Longrightarrow> \<not> js_includes s ''://''"
  using set_mono_sublist by (fastforce simp: js_includes_sublist)

lemma extract_host:
  assumes "plain_host (Some s)"
  shows "extractHostname parse (AObject None (Some s) r) b = normalizeHostname (Some s)"
proof -
  from assms obtain c cs where "normalizeHostname (Some s) = Some (c # cs)"
    by (auto simp: plain_host_def neq_Nil_conv)
  with assms show ?thesis
    by (auto simp: plain_host_def extractHostname_def no_colon_no_scheme js_split_noop Let_def)
qed

lemma plain_http_extract:
  assumes "plain_http a b"
  shows "extractHostname parse a b = Option.bind (http_host parse a b) (normalizeHostname \<circ> Some)"
proof (cases a)
  case (AObject hn h r)
  show ?thesis
  proof (cases hn)
    case None
    with assms AObject obtain s where "h = Some s" "plain_host (Some s)"
      by (cases h) (auto simp: plain_http_def plain_host_def)
    with None AObject assms show ?thesis
      by (auto simp: extract_host http_host_def plain_http_def split: option.splits net_arg.splits)
  qed (use assms AObject in \<open>auto simp: extractHostname_def http_host_def plain_http_def
        split: option.splits net_arg.splits\<close>)
qed (use assms in \<open>auto simp: plain_http_def http_host_def extractHostname_def parseUrlHostname_def
      split: option.splits net_arg.splits\<close>)

lemma plain_socket_extract:
  assumes "plain_socket a b"
  shows "extractHostname parse a b = Option.bind (socket_host a b) (normalizeHostname \<circ> Some)"
  using assms
proof (induction a b rule: plain_socket.induct)
  case (1 hn h r b)
  then obtain s where "h = Some s" by (cases h) (auto simp: plain_host_def)
  with 1 show ?case by (simp add: extract_host socket_host_def)
qed (auto simp: socket_host_def extractHostname_def secondary_hostname_def)

lemma guard_confines:
  assumes "createNetworkGuard al ds (Option.bind h (normalizeHostname \<circ> Some)) = Inr ()" and "ds \<noteq> []"
  shows "\<exists>s d. h = Some s \<and> d \<in> set ds \<and> same_host s d"
proof (cases h)
  case None
  with guard_passes [OF assms(1)] assms(2) show ?thesis by (simp add: normalizeHostname_def)
next
  case (Some s)
  with guard_passes [OF assms(1)] assms(2) show ?thesis
    using normalize_twice_same_host by fastforce
qed

lemma guard_confines_raw:
  assumes "createNetworkGuard al ds (Some s) = Inr ()" and "ds \<noteq> []"
  shows "\<exists>d. d \<in> set ds \<and> same_host s d"
  using guard_passes [OF assms(1)] assms(2) normalize_same_host by fastforce

lemma call_names_host:
  assumes "plain_call call" and "configureNetwork parse al ds call = Inr ()" and "ds \<noteq> []"
  shows "\<exists>h d. connect_host parse call = Some h \<and> d \<in> set ds \<and> same_host h d"
proof (cases call)
  case (Fetch i)
  with assms guard_confines_raw [of al ds _, OF _ assms(3)] show ?thesis
    by (auto simp: patchFetch_def split: option.splits)
qed (use assms guard_confines [of al ds _, OF _ assms(3)] in
      \<open>simp_all add: guardMethod_def worker_extract_eq plain_http_extract plain_socket_extract\<close>)

lemma guard_requires_network: "createNetworkGuard al ds h = Inr () \<Longrightarrow> al"
  by (auto simp: createNetworkGuard_def split: if_splits)

lemma call_requires_network: "configureNetwork parse al ds call = Inr () \<Longrightarrow> al"
  by (cases call) (auto simp: patchFetch_def guardMethod_def dest: guard_requires_network split: option.splits)

section \<open>Properties\<close>



text \<open>
  A call that does not name its host plainly can leave the list of domains: a socket whose
  options carry an allowed \<^verbatim>\<open>hostname\<close> connects to its \<^verbatim>\<open>host\<close>, and an HTTP request whose options
  carry a \<^verbatim>\<open>hostname\<close> connects there rather than to its allowed URL; both pass the guard.
\<close>

theorem network_guard_bypass:
  assumes "js_toLowerCase (strip_brackets good) = js_toLowerCase d" and "d \<noteq> []" and "good \<noteq> []"
    and "strip_brackets (js_toLowerCase d) = js_toLowerCase d" and "url_hostname u = good"
  shows "let sock = NetConnect (AObject (Some good) (Some evil) None) None;
             req = HttpRequest (AUrl u) (Some (AObject (Some evil) None None))
         in configureNetwork parse True [d] sock = Inr () \<and> connect_host parse sock = Some evil
          \<and> configureNetwork parse True [d] req = Inr () \<and> connect_host parse req = Some evil"
  using assms
  by (simp add: guardMethod_def createNetworkGuard_def normalizeHostname_def lower_strip
      socket_host_def http_host_def)

theorem network_guard_bypass_witness:
  "\<exists>call. configureNetwork (\<lambda>u. None) True [''ok.org''] call = Inr () \<and> connect_host (\<lambda>u. None) call = Some ''evil.net''"
proof -
  let ?u = "\<lparr>url_protocol = ''http:'', url_hostname = ''OK.org'', url_text = ''http://OK.org''\<rparr>"
  have "js_toLowerCase (strip_brackets ''OK.org'') = js_toLowerCase ''ok.org''"
    "strip_brackets (js_toLowerCase ''ok.org'') = js_toLowerCase ''ok.org''"
    by code_simp+
  with network_guard_bypass [where good = "''OK.org''" and d = "''ok.org''" and u = ?u
      and parse = "\<lambda>u. None" and evil = "''evil.net''"]
  show ?thesis unfolding Let_def by (metis js_url.select_convs(2) list.distinct(1))
qed

text \<open>
  The host's access controller and host-name extraction decide like the worker's copies of them.
\<close>

theorem host_and_worker_network_agree:
  "createNetworkAccessController al ds (extractHostname parse a b) =
   createNetworkGuard al ds (worker_extractHostname parse a b)"
  by (simp add: worker_extract_eq guard_eq_controller)

end
