(* ===== verification/Protocol.thy ===== *)
theory Protocol
  imports Prelude
begin

text \<open>
  The data the program's parts exchange and store (\<^verbatim>\<open>packages/protocol/src\<close>): JSON values, tool
  definitions and results, messages, agents, background tasks, runs, scheduled jobs, API keys and
  audit entries. Field names carry a short prefix per record because HOL record fields are global;
  an optional field is an \<^typ>\<open>'a option\<close>. JSON numbers are integers.
\<close>

section \<open>JSON values\<close>

datatype json =
  JNull | JBool bool | JNum int | JStr string | JArr "json list" | JObj "(string \<times> json) list"

text \<open>A parsed object has one entry per key; later duplicates replace earlier ones.\<close>

definition json_field :: "json \<Rightarrow> string \<Rightarrow> json option" where
  "json_field j k = (case j of JObj kvs \<Rightarrow> map_of kvs k | _ \<Rightarrow> None)"

text \<open>The left operand of \<^verbatim>\<open>??\<close>: \<^verbatim>\<open>null\<close> counts as absent.\<close>

definition json_nullish :: "json option \<Rightarrow> json option" where
  "json_nullish b = (case b of Some JNull \<Rightarrow> None | _ \<Rightarrow> b)"

text \<open>A JSON value as a condition and as part of a text.\<close>

definition json_truthy :: "json \<Rightarrow> bool" where
  "json_truthy j = (case j of JNull \<Rightarrow> False | JBool b \<Rightarrow> b | JNum i \<Rightarrow> i \<noteq> 0 | JStr s \<Rightarrow> s \<noteq> [] | _ \<Rightarrow> True)"

fun json_String :: "json \<Rightarrow> string" where
  "json_String JNull = ''null''"
| "json_String (JBool b) = (if b then ''true'' else ''false'')"
| "json_String (JNum i) = show_int i"
| "json_String (JStr s) = s"
| "json_String (JArr js) = js_join '','' (map (\<lambda>j. if j = JNull then [] else json_String j) js)"
| "json_String (JObj kvs) = ''[object Object]''"

text \<open>\<^verbatim>\<open>JSON.stringify\<close> without a replacer: no white space, control characters escaped.\<close>

definition hex_digit :: "nat \<Rightarrow> char" where
  "hex_digit d = (if d < 10 then char_of (48 + d) else char_of (87 + d))"

definition json_escape :: "char \<Rightarrow> string" where
  "json_escape c =
     (let n = (of_char c :: nat) in
      if n = 34 then [CHR 0x5C, CHR 0x22] else if n = 92 then [CHR 0x5C, CHR 0x5C]
      else if n = 8 then [CHR 0x5C, CHR ''b''] else if n = 9 then [CHR 0x5C, CHR ''t'']
      else if n = 10 then [CHR 0x5C, CHR ''n''] else if n = 12 then [CHR 0x5C, CHR ''f'']
      else if n = 13 then [CHR 0x5C, CHR ''r'']
      else if n < 32 then [CHR 0x5C, CHR ''u'', CHR ''0'', CHR ''0'', hex_digit (n div 16), hex_digit (n mod 16)]
      else [c])"

definition json_quote :: "string \<Rightarrow> string" where
  "json_quote s = [CHR 0x22] @ concat (map json_escape s) @ [CHR 0x22]"

fun json_stringify :: "json \<Rightarrow> string" where
  "json_stringify JNull = ''null''"
| "json_stringify (JBool b) = (if b then ''true'' else ''false'')"
| "json_stringify (JNum i) = show_int i"
| "json_stringify (JStr s) = json_quote s"
| "json_stringify (JArr js) = ''['' @ js_join '','' (map json_stringify js) @ '']''"
| "json_stringify (JObj kvs) =
     ''{'' @ js_join '','' (map (\<lambda>kv. json_quote (fst kv) @ '':'' @ json_stringify (snd kv)) kvs) @ ''}''"

section \<open>Tools\<close>

record ToolSandboxConfig =
  sb_level :: nat
  sb_timeout :: "nat option"
  sb_maxMemory :: "nat option"
  sb_maxCpu :: "nat option"
  sb_allowNetwork :: "bool option"
  sb_allowedDomains :: "string list option"
  sb_allowedPaths :: "string list option"

record ToolConcurrencyConfig =
  cc_safe :: bool
  cc_cancelSiblingsOnFailure :: "bool option"

text \<open>An issue of a failed schema check: its path and its message.\<close>

record issue =
  is_path :: "string list"
  is_message :: string

type_synonym schema = "json \<Rightarrow> issue list + json"

record ToolDefinition =
  td_name :: string
  td_description :: string
  td_inputSchema :: schema
  td_sandbox :: "ToolSandboxConfig option"
  td_concurrency :: "ToolConcurrencyConfig option"

record ToolResult =
  tr_toolCallId :: ident
  tr_success :: bool
  tr_content :: "string option"
  tr_error :: "string option"
  tr_approvalRequired :: "bool option"
  tr_approvalRequestId :: "ident option"

section \<open>Messages\<close>

record ToolCall =
  tc_toolCallId :: ident
  tc_toolName :: string
  tc_args :: json

datatype Message =
  SystemMessage string
| UserMessage string
| AssistantMessage "string option" "ToolCall list option"
| ToolMessage ident string

section \<open>Agents\<close>

record ProviderConfig =
  pc_provider :: string
  pc_model :: string
  pc_temperature :: "int option"
  pc_maxTokens :: "nat option"

datatype AgentEffort = EffortLow | EffortMedium | EffortHigh
datatype AgentIsolation = IsoShared | IsoIsolated
datatype AgentMode = ModeStandard | ModeCoordinator

text \<open>The input of agent creation, whose defaulted fields may be absent, and the stored agent.\<close>

record CreateAgent =
  ca_name :: string
  ca_systemPrompt :: string
  ca_provider :: ProviderConfig
  ca_tools :: "string list option"
  ca_effort :: "AgentEffort option"
  ca_isolation :: "AgentIsolation option"
  ca_permissionMode :: "string option"
  ca_mode :: "AgentMode option"
  ca_maxTurns :: "nat option"
  ca_background :: "bool option"

record Agent =
  ag_id :: ident
  ag_name :: string
  ag_systemPrompt :: string
  ag_provider :: ProviderConfig
  ag_tools :: "string list"
  ag_effort :: AgentEffort
  ag_isolation :: AgentIsolation
  ag_permissionMode :: string
  ag_mode :: AgentMode
  ag_maxTurns :: "nat option"
  ag_background :: bool

section \<open>Background tasks\<close>

datatype AgentTaskStatus =
  TaskPending | TaskRunning | TaskPaused | TaskCompleted | TaskFailed | TaskKilled

datatype PendingRole = RoleUser | RoleSystem

record AgentRunLink =
  lk_parentRunId :: "ident option"
  lk_agentTaskId :: "ident option"

record AgentTranscriptReference =
  tx_taskId :: ident
  tx_lastMessageSeq :: nat

record CreateAgentTask =
  ct_selectedAgentId :: ident
  ct_initialInput :: string
  ct_background :: "bool option"
  ct_parentRunId :: "ident option"
  ct_parentTaskId :: "ident option"
  ct_metadata :: "(string \<times> json) list option"

record AgentTask =
  tk_id :: ident
  tk_selectedAgentId :: ident
  tk_status :: AgentTaskStatus
  tk_initialInput :: string
  tk_background :: bool
  tk_parentRunId :: "ident option"
  tk_parentTaskId :: "ident option"
  tk_activeRunId :: "ident option"
  tk_transcript :: AgentTranscriptReference
  tk_metadata :: "(string \<times> json) list"
  tk_createdAt :: timestamp
  tk_updatedAt :: timestamp
  tk_error :: "string option"

record AgentTranscriptEntry =
  te_seq :: nat
  te_taskId :: ident
  te_sourceRunId :: "ident option"
  te_message :: Message
  te_insertedAt :: timestamp

record CreateAgentTaskPendingMessage =
  cp_taskId :: ident
  cp_role :: PendingRole
  cp_content :: string

record AgentTaskPendingMessage =
  pn_id :: ident
  pn_taskId :: ident
  pn_role :: PendingRole
  pn_content :: string
  pn_createdAt :: timestamp
  pn_deliveredAt :: "timestamp option"

section \<open>Runs\<close>

datatype RunStatus = RunPending | RunRunning | RunCompleted | RunFailed

record Run =
  rn_id :: ident
  rn_agentId :: ident
  rn_input :: string
  rn_status :: RunStatus
  rn_parentRunId :: "ident option"
  rn_agentTaskId :: "ident option"
  rn_createdAt :: timestamp
  rn_updatedAt :: timestamp
  rn_error :: "string option"

section \<open>Scheduled jobs\<close>

record ScheduledJob =
  jb_id :: ident
  jb_agentId :: ident
  jb_name :: string
  jb_cronExpression :: string
  jb_input :: string
  jb_enabled :: bool
  jb_allowConcurrent :: bool
  jb_timezone :: string
  jb_maxRetries :: nat
  jb_createdAt :: timestamp
  jb_updatedAt :: timestamp
  jb_lastRunAt :: "timestamp option"
  jb_nextRunAt :: "timestamp option"

record CreateScheduledJob =
  cj_agentId :: ident
  cj_name :: string
  cj_cronExpression :: string
  cj_input :: string
  cj_allowConcurrent :: "bool option"
  cj_timezone :: "string option"
  cj_maxRetries :: "nat option"

record UpdateScheduledJob =
  uj_name :: "string option"
  uj_cronExpression :: "string option"
  uj_input :: "string option"
  uj_enabled :: "bool option"
  uj_allowConcurrent :: "bool option"
  uj_timezone :: "string option"
  uj_maxRetries :: "nat option"

datatype JobExecutionStatus = ExecSubmitted | ExecCompleted | ExecFailed | ExecSkipped

record JobExecution =
  je_id :: ident
  je_jobId :: ident
  je_runId :: "ident option"
  je_status :: JobExecutionStatus
  je_scheduledAt :: timestamp
  je_executedAt :: "timestamp option"
  je_error :: "string option"

record CreateJobExecution =
  cx_jobId :: ident
  cx_runId :: "ident option"
  cx_status :: JobExecutionStatus
  cx_scheduledAt :: timestamp
  cx_executedAt :: "timestamp option"
  cx_error :: "string option"

section \<open>API keys and audit entries\<close>

datatype ApiKeyRole = RoleAdmin | RoleUserKey | RoleReadonly

record ApiKeyRecord =
  ak_id :: ident
  ak_lookupHash :: string
  ak_keyHash :: string
  ak_name :: string
  ak_role :: ApiKeyRole
  ak_createdBy :: ident
  ak_createdAt :: timestamp
  ak_expiresAt :: "timestamp option"
  ak_lastUsedAt :: "timestamp option"
  ak_revokedAt :: "timestamp option"
  ak_revokedBy :: "string option"
  ak_revokedReason :: "string option"

record AuthenticatedApiKey =
  au_id :: ident
  au_name :: string
  au_role :: ApiKeyRole
  au_createdBy :: ident
  au_createdAt :: timestamp
  au_expiresAt :: "timestamp option"
  au_lastUsedAt :: "timestamp option"
  au_revokedAt :: "timestamp option"
  au_revokedBy :: "string option"
  au_revokedReason :: "string option"

record ApiKeyListFilters =
  kf_role :: "ApiKeyRole option"
  kf_revoked :: "bool option"
  kf_expired :: "bool option"

record AuditLog =
  al_id :: ident
  al_keyId :: ident
  al_method :: string
  al_path :: string
  al_status :: int
  al_ip :: string
  al_userAgent :: "string option"
  al_requestBody :: "string option"
  al_responseTimeMs :: nat
  al_timestamp :: timestamp

section \<open>Error payloads\<close>

record ParsedApiErrorPayload =
  pe_code :: string
  pe_message :: string
  pe_details :: "json option"

definition parseApiErrorPayload :: "json option \<Rightarrow> string \<Rightarrow> ParsedApiErrorPayload" where
  "parseApiErrorPayload payload fallbackMessage =
     (case payload of
        Some (JObj kvs) \<Rightarrow>
          \<lparr>pe_code = (case map_of kvs ''error'' of Some (JStr s) \<Rightarrow> s | _ \<Rightarrow> ''UNKNOWN_ERROR''),
           pe_message = (case map_of kvs ''message'' of Some (JStr s) \<Rightarrow> s | _ \<Rightarrow> fallbackMessage),
           pe_details = map_of kvs ''details''\<rparr>
      | _ \<Rightarrow> \<lparr>pe_code = ''UNKNOWN_ERROR'', pe_message = fallbackMessage, pe_details = None\<rparr>)"

definition formatOperatorErrorMessage :: "int \<Rightarrow> string \<Rightarrow> string" where
  "formatOperatorErrorMessage status m =
     (if status = 401 then ''Authentication failed: '' @ m
      else if status = 403 then ''Not enough permissions: '' @ m
      else m)"

end
