(* ===== verification/Tool_Registry.thy ===== *)
theory Tool_Registry
  imports Protocol
begin

text \<open>
  The tool registry (\<^verbatim>\<open>apps/tool-runner-host/src/registry.ts\<close>): registration, the execution of one
  invocation on every branch, and the batching of invocations.

  What a handler does with its arguments is the field \<open>th_execute\<close>: the time in milliseconds after
  which its promise settles and the outcome, or \<open>None\<close> when it never settles; it also takes the
  call identifier, which stands for the state of the world the call meets. A sandboxed tool goes to
  \<open>sandboxRunner\<close>, which has its own time limits. The order in which the promises of a concurrent
  batch settle is an argument: a list of positions. Logging, tracing and metrics are left out.
\<close>

section \<open>Definitions\<close>

datatype ToolExecutionOutput =
  OutText string
| OutApproval (out_requestId: ident) (out_message: string)

record ToolInvocation =
  iv_toolCallId :: ident
  iv_toolName :: string
  iv_args :: json

type_synonym settled = "(nat \<times> ToolExecutionOutput result) option"

record ToolHandler =
  th_definition :: ToolDefinition
  th_execute :: "ident \<Rightarrow> json \<Rightarrow> settled"

record ToolRegistry =
  tools :: "(string, ToolHandler) jsmap"
  timeoutMs :: nat
  sandboxRunner :: "ToolHandler \<Rightarrow> ident \<Rightarrow> json \<Rightarrow> ToolExecutionOutput result"

definition batch_cancelled :: exn where
  "batch_cancelled = Error ''Tool batch cancelled due to sibling failure''"

definition createBatchAbortError :: "exn option \<Rightarrow> exn" where
  "createBatchAbortError r = js_or r batch_cancelled"

definition register :: "ToolRegistry \<Rightarrow> ToolHandler \<Rightarrow> ToolRegistry result" where
  "register reg h =
     (let n = td_name (th_definition h)
      in if jm_get (tools reg) n \<noteq> None
         then Inl (Error (''Tool '' @ [CHR 0x22] @ n @ [CHR 0x22] @ '' is already registered''))
         else Inr (reg\<lparr>tools := jm_set (tools reg) n h\<rparr>))"

definition getTool :: "ToolRegistry \<Rightarrow> string \<Rightarrow> ToolHandler option" where
  "getTool reg n = jm_get (tools reg) n"

definition listTools :: "ToolRegistry \<Rightarrow> ToolDefinition list" where
  "listTools reg = map th_definition (jm_values (tools reg))"

definition isConcurrencySafe :: "ToolDefinition option \<Rightarrow> bool" where
  "isConcurrencySafe d =
     (case Option.bind d td_concurrency of None \<Rightarrow> False | Some c \<Rightarrow> cc_safe c)"

definition shouldCancelSiblingsOnFailure :: "ToolDefinition option \<Rightarrow> bool" where
  "shouldCancelSiblingsOnFailure d =
     (case Option.bind d td_concurrency of None \<Rightarrow> False
      | Some c \<Rightarrow> cc_cancelSiblingsOnFailure c = Some True)"

text \<open>
  A settled handler wins the race against the timer when it settles no later than the timer fires.
  The signal is the reason of an abort that happened before the race was over.
\<close>

definition race_timeout :: "nat \<Rightarrow> settled \<Rightarrow> ToolExecutionOutput result" where
  "race_timeout limit p =
     (case p of
        Some (t, r) \<Rightarrow> if t \<le> limit then r else Inl (Error ''Tool execution timed out'')
      | None \<Rightarrow> Inl (Error ''Tool execution timed out''))"

definition invokeHandler ::
    "ToolRegistry \<Rightarrow> ToolHandler \<Rightarrow> ident \<Rightarrow> json \<Rightarrow> exn option option \<Rightarrow> ToolExecutionOutput result" where
  "invokeHandler reg h cid args signal =
     (case signal of
        Some r \<Rightarrow> Inl (createBatchAbortError r)
      | None \<Rightarrow>
          if (case td_sandbox (th_definition h) of None \<Rightarrow> 0 | Some sb \<Rightarrow> sb_level sb) \<ge> 1
          then sandboxRunner reg h cid args
          else race_timeout (timeoutMs reg) (th_execute h cid args))"

definition failed_result :: "ident \<Rightarrow> string \<Rightarrow> ToolResult" where
  "failed_result cid e = \<lparr>tr_toolCallId = cid, tr_success = False, tr_content = None, tr_error = Some e,
     tr_approvalRequired = None, tr_approvalRequestId = None\<rparr>"

definition tool_not_found :: "string \<Rightarrow> string" where
  "tool_not_found n = ''Tool '' @ [CHR 0x22] @ n @ [CHR 0x22] @ '' not found''"

definition format_issues :: "issue list \<Rightarrow> string" where
  "format_issues is = js_join ''; '' (map (\<lambda>i. js_join ''.'' (is_path i) @ '': '' @ is_message i) is)"

definition executeToolInternal ::
    "ToolRegistry \<Rightarrow> ToolInvocation \<Rightarrow> exn option option \<Rightarrow> ToolResult" where
  "executeToolInternal reg iv signal =
     (let cid = iv_toolCallId iv
      in case jm_get (tools reg) (iv_toolName iv) of
           None \<Rightarrow> failed_result cid (tool_not_found (iv_toolName iv))
         | Some h \<Rightarrow>
            (case td_inputSchema (th_definition h) (iv_args iv) of
               Inl is \<Rightarrow> failed_result cid (''Validation failed: '' @ format_issues is)
             | Inr parsed \<Rightarrow>
                (case invokeHandler reg h cid parsed signal of
                   Inl e \<Rightarrow> failed_result cid (message e)
                 | Inr (OutApproval req m) \<Rightarrow>
                     (failed_result cid m)\<lparr>tr_approvalRequired := Some True, tr_approvalRequestId := Some req\<rparr>
                 | Inr (OutText s) \<Rightarrow>
                     \<lparr>tr_toolCallId = cid, tr_success = True, tr_content = Some s, tr_error = None,
                      tr_approvalRequired = None, tr_approvalRequestId = None\<rparr>)))"

definition executeTool :: "ToolRegistry \<Rightarrow> ident \<Rightarrow> string \<Rightarrow> json \<Rightarrow> ToolResult" where
  "executeTool reg cid n args =
     executeToolInternal reg \<lparr>iv_toolCallId = cid, iv_toolName = n, iv_args = args\<rparr> None"

text \<open>
  A concurrent batch: which positions have been aborted, and the results so far. A settling position
  gets its own result, or the abort error when it was aborted before; when it fails and its tool
  cancels its siblings, every other position is aborted.
\<close>

record batch_state =
  bs_aborted :: "bool list"
  bs_results :: "ToolResult option list"

definition cancels :: "ToolRegistry \<Rightarrow> ToolInvocation \<Rightarrow> bool" where
  "cancels reg iv =
     shouldCancelSiblingsOnFailure (map_option th_definition (jm_get (tools reg) (iv_toolName iv)))"

definition settle_position ::
    "ToolRegistry \<Rightarrow> ToolInvocation list \<Rightarrow> nat \<Rightarrow> batch_state \<Rightarrow> batch_state" where
  "settle_position reg invs i s =
     (if i < length invs \<and> bs_results s ! i = None
      then let signal = (if bs_aborted s ! i then Some (Some batch_cancelled) else None);
               r = executeToolInternal reg (invs ! i) signal;
               aborted' = (if \<not> tr_success r \<and> cancels reg (invs ! i)
                           then map (\<lambda>j. if j \<noteq> i then True else bs_aborted s ! j) [0..<length invs]
                           else bs_aborted s)
           in \<lparr>bs_aborted = aborted', bs_results = (bs_results s)[i := Some r]\<rparr>
      else s)"

definition batch_init :: "nat \<Rightarrow> batch_state" where
  "batch_init n = \<lparr>bs_aborted = replicate n False, bs_results = replicate n None\<rparr>"

definition executeConcurrentBatch ::
    "ToolRegistry \<Rightarrow> nat list \<Rightarrow> ToolInvocation list \<Rightarrow> ToolResult list option" where
  "executeConcurrentBatch reg order invs =
     those (bs_results (fold (settle_position reg invs) order (batch_init (length invs))))"

definition flushBatch ::
    "ToolRegistry \<Rightarrow> (nat \<Rightarrow> nat list) \<Rightarrow> ToolResult list \<Rightarrow> ToolInvocation list \<Rightarrow> ToolResult list option" where
  "flushBatch reg sched results batch =
     (if batch = [] then Some results
      else map_option (\<lambda>rs. results @ rs) (executeConcurrentBatch reg (sched (length results)) batch))"

fun executeTools_loop ::
    "ToolRegistry \<Rightarrow> (nat \<Rightarrow> nat list) \<Rightarrow> ToolResult list \<Rightarrow> ToolInvocation list \<Rightarrow> ToolInvocation list
     \<Rightarrow> ToolResult list option" where
  "executeTools_loop reg sched results batch [] = flushBatch reg sched results batch"
| "executeTools_loop reg sched results batch (iv # invs) =
     (if isConcurrencySafe (map_option th_definition (jm_get (tools reg) (iv_toolName iv)))
      then executeTools_loop reg sched results (batch @ [iv]) invs
      else (case flushBatch reg sched results batch of
              None \<Rightarrow> None
            | Some rs \<Rightarrow> executeTools_loop reg sched (rs @ [executeToolInternal reg iv None]) [] invs))"

definition executeTools ::
    "ToolRegistry \<Rightarrow> (nat \<Rightarrow> nat list) \<Rightarrow> ToolInvocation list \<Rightarrow> ToolResult list option" where
  "executeTools reg sched invs = executeTools_loop reg sched [] [] invs"

definition exportForAISdk :: "ToolRegistry \<Rightarrow> (string, string \<times> schema) jsmap" where
  "exportForAISdk reg =
     foldl (\<lambda>acc (n, h). jm_set acc n (td_description (th_definition h), td_inputSchema (th_definition h)))
       [] (tools reg)"

section \<open>The registry invariant\<close>

text \<open>Every tool is stored under the name of its definition, once.\<close>

definition registry_ok :: "ToolRegistry \<Rightarrow> bool" where
  "registry_ok reg \<longleftrightarrow>
     jm_ok (tools reg) \<and> (\<forall>(n, h) \<in> set (tools reg). td_name (th_definition h) = n)"

lemma register_cases:
  "register reg h = Inr reg' \<longleftrightarrow>
   jm_get (tools reg) (td_name (th_definition h)) = None \<and>
   reg' = reg\<lparr>tools := tools reg @ [(td_name (th_definition h), h)]\<rparr>"
  by (auto simp: register_def Let_def jm_set_fresh)

lemma register_ok: "registry_ok reg \<Longrightarrow> register reg h = Inr reg' \<Longrightarrow> registry_ok reg'"
  by (auto simp: register_cases registry_ok_def jm_ok_def map_of_eq_None_iff)

section \<open>One invocation\<close>

lemma failed_result_sel [simp]:
  "tr_toolCallId (failed_result c e) = c" "tr_success (failed_result c e) = False"
  "tr_error (failed_result c e) = Some e" "tr_content (failed_result c e) = None"
  "tr_approvalRequired (failed_result c e) = None"
  by (simp_all add: failed_result_def)

lemma result_call_id [simp]: "tr_toolCallId (executeToolInternal reg iv signal) = iv_toolCallId iv"
  by (simp add: executeToolInternal_def Let_def split: option.splits sum.splits ToolExecutionOutput.splits)

text \<open>The shape of a result: content exactly on success, an error text exactly on failure.\<close>

lemma result_shape:
  "(tr_success r \<longleftrightarrow> tr_content r \<noteq> None) \<and> (tr_success r \<longleftrightarrow> tr_error r = None)
   \<and> (tr_approvalRequired r \<noteq> None \<longrightarrow> \<not> tr_success r \<and> tr_approvalRequestId r \<noteq> None)"
  if "r = executeToolInternal reg iv signal"
  unfolding that executeToolInternal_def
  by (auto simp: Let_def split: option.splits sum.splits ToolExecutionOutput.splits)

text \<open>Whether an invocation reaches its handler: the tool exists and its arguments are valid.\<close>

definition reaches_handler :: "ToolRegistry \<Rightarrow> ToolInvocation \<Rightarrow> bool" where
  "reaches_handler reg iv =
     (case jm_get (tools reg) (iv_toolName iv) of None \<Rightarrow> False
      | Some h \<Rightarrow> \<not> isl (td_inputSchema (th_definition h) (iv_args iv)))"

lemma signal_result:
  "executeToolInternal reg iv (Some (Some e)) =
   (if reaches_handler reg iv then failed_result (iv_toolCallId iv) (message e)
    else executeToolInternal reg iv None)"
  by (auto simp: executeToolInternal_def reaches_handler_def invokeHandler_def createBatchAbortError_def Let_def
      split: option.splits sum.splits)

section \<open>Concurrent batches\<close>

text \<open>
  The invariant of a batch: one slot per invocation; a filled slot holds the invocation's own result
  or, when some settled failure of a cancelling sibling came first, the abort error.
\<close>

definition cancelling_failure :: "ToolRegistry \<Rightarrow> ToolInvocation list \<Rightarrow> ToolResult option list \<Rightarrow> nat \<Rightarrow> bool" where
  "cancelling_failure reg invs rs i \<longleftrightarrow>
     (\<exists>j < length invs. j \<noteq> i \<and> cancels reg (invs ! j) \<and> (\<exists>r. rs ! j = Some r \<and> \<not> tr_success r))"

definition slot_ok :: "ToolRegistry \<Rightarrow> ToolInvocation list \<Rightarrow> ToolResult option list \<Rightarrow> nat \<Rightarrow> bool" where
  "slot_ok reg invs rs i \<longleftrightarrow>
     (case rs ! i of None \<Rightarrow> True | Some r \<Rightarrow>
        r = executeToolInternal reg (invs ! i) None \<or>
        r = failed_result (iv_toolCallId (invs ! i)) (message batch_cancelled)
          \<and> reaches_handler reg (invs ! i) \<and> cancelling_failure reg invs rs i)"

definition batch_ok :: "ToolRegistry \<Rightarrow> ToolInvocation list \<Rightarrow> batch_state \<Rightarrow> bool" where
  "batch_ok reg invs s \<longleftrightarrow>
     length (bs_results s) = length invs \<and> length (bs_aborted s) = length invs \<and>
     (\<forall>i < length invs. bs_aborted s ! i \<longrightarrow> cancelling_failure reg invs (bs_results s) i) \<and>
     (\<forall>i < length invs. slot_ok reg invs (bs_results s) i)"

lemma cancelling_failure_mono:
  assumes "cancelling_failure reg invs rs k" and "rs ! i = None" and "i < length rs"
  shows "cancelling_failure reg invs (rs[i := Some r]) k"
  using assms unfolding cancelling_failure_def by (metis nth_list_update_neq option.distinct(1))

lemma slot_ok_mono:
  assumes "slot_ok reg invs rs k" and "rs ! i = None" and "i < length rs" and "k \<noteq> i"
  shows "slot_ok reg invs (rs[i := Some r]) k"
  using assms cancelling_failure_mono [OF _ assms(2,3)]
  by (auto simp: slot_ok_def split: option.splits)

lemma batch_ok_init: "batch_ok reg invs (batch_init (length invs))"
  by (simp add: batch_ok_def batch_init_def slot_ok_def)

lemma settle_keeps_ok:
  assumes ok: "batch_ok reg invs s"
  shows "batch_ok reg invs (settle_position reg invs i s)"
proof (cases "i < length invs \<and> bs_results s ! i = None")
  case True
  then have i: "i < length invs" "i < length (bs_results s)" and none: "bs_results s ! i = None"
    using ok by (auto simp: batch_ok_def)
  let ?sig = "if bs_aborted s ! i then Some (Some batch_cancelled) else None"
  let ?r = "executeToolInternal reg (invs ! i) ?sig"
  let ?rs = "(bs_results s)[i := Some ?r]"
  have old: "bs_aborted s ! k \<Longrightarrow> k < length invs \<Longrightarrow> cancelling_failure reg invs ?rs k" for k
    using ok cancelling_failure_mono [OF _ none i(2)] by (auto simp: batch_ok_def)
  have other: "slot_ok reg invs ?rs k" if "k < length invs" "k \<noteq> i" for k
    using ok that slot_ok_mono [OF _ none i(2)] by (auto simp: batch_ok_def)
  have own: "slot_ok reg invs ?rs i"
    using i old [of i] by (auto simp: slot_ok_def signal_result)
  have fresh: "cancelling_failure reg invs ?rs k"
    if "\<not> tr_success ?r" "cancels reg (invs ! i)" "k \<noteq> i" for k
    using that i unfolding cancelling_failure_def by (intro exI [of _ i]) auto
  have "slot_ok reg invs ?rs k" if "k < length invs" for k
    using own other that by (cases "k = i") auto
  moreover have "length ?rs = length invs" "length (bs_aborted s) = length invs"
    using ok by (simp_all add: batch_ok_def)
  ultimately show ?thesis
    using True old fresh by (auto simp: settle_position_def Let_def batch_ok_def)
next
  case False
  then have "settle_position reg invs i s = s" unfolding settle_position_def by (rule if_not_P)
  with ok show ?thesis by simp
qed

lemma fold_settle_ok: "batch_ok reg invs s \<Longrightarrow> batch_ok reg invs (fold (settle_position reg invs) order s)"
  by (induction order arbitrary: s) (simp_all add: settle_keeps_ok)

lemma settle_fills:
  assumes "batch_ok reg invs s" and "i < length invs"
  shows "bs_results (settle_position reg invs i s) ! i \<noteq> None"
  using assms by (auto simp: settle_position_def Let_def batch_ok_def)

lemma settle_keeps_filled:
  assumes "batch_ok reg invs s" and "bs_results s ! k \<noteq> None"
  shows "bs_results (settle_position reg invs i s) ! k \<noteq> None"
proof -
  have "i < length invs \<Longrightarrow> i < length (bs_results s)" using assms(1) by (simp add: batch_ok_def)
  with assms(2) show ?thesis
    by (cases "k = i") (auto simp: settle_position_def Let_def)
qed

lemma fold_keeps_filled:
  "batch_ok reg invs s \<Longrightarrow> bs_results s ! k \<noteq> None \<Longrightarrow>
   bs_results (fold (settle_position reg invs) order s) ! k \<noteq> None"
proof (induction order arbitrary: s)
  case (Cons a order)
  have "bs_results (settle_position reg invs a s) ! k \<noteq> None"
    using settle_keeps_filled [OF Cons.prems] .
  from Cons.IH [OF settle_keeps_ok [OF Cons.prems(1)] this] show ?case by simp
qed simp

lemma fold_fills:
  "batch_ok reg invs s \<Longrightarrow> i \<in> set order \<Longrightarrow> i < length invs \<Longrightarrow>
   bs_results (fold (settle_position reg invs) order s) ! i \<noteq> None"
proof (induction order arbitrary: s)
  case (Cons a order)
  show ?case
  proof (cases "i = a")
    case True
    have "bs_results (settle_position reg invs a s) ! i \<noteq> None"
      using True Cons.prems settle_fills by blast
    from fold_keeps_filled [OF settle_keeps_ok [OF Cons.prems(1)] this] show ?thesis by simp
  qed (use Cons settle_keeps_ok in auto)
qed simp

lemma those_Some_iff: "those xs = Some ys \<longleftrightarrow> xs = map Some ys"
  by (induction xs arbitrary: ys) (auto split: option.splits)

lemma those_filled: "(\<forall>i < length xs. xs ! i \<noteq> None) \<Longrightarrow> \<exists>ys. those xs = Some ys"
proof -
  assume "\<forall>i < length xs. xs ! i \<noteq> None"
  then have "\<forall>x \<in> set xs. x \<noteq> None" by (auto simp: in_set_conv_nth)
  then have "xs = map Some (map the xs)" by (induction xs) auto
  then show ?thesis using those_Some_iff by metis
qed

lemma batch_settles:
  assumes "\<forall>i < length invs. i \<in> set order"
  shows "\<exists>rs. executeConcurrentBatch reg order invs = Some rs"
  unfolding executeConcurrentBatch_def
proof (rule those_filled, intro allI impI)
  let ?s = "fold (settle_position reg invs) order (batch_init (length invs))"
  fix i assume "i < length (bs_results ?s)"
  moreover have "length (bs_results ?s) = length invs"
    using fold_settle_ok [OF batch_ok_init] by (simp add: batch_ok_def)
  ultimately show "bs_results ?s ! i \<noteq> None"
    using assms fold_fills [OF batch_ok_init] by simp
qed

lemma batch_results:
  assumes "executeConcurrentBatch reg order invs = Some rs"
  shows "length rs = length invs \<and> (\<forall>i < length invs. slot_ok reg invs (map Some rs) i)"
proof -
  let ?s = "fold (settle_position reg invs) order (batch_init (length invs))"
  have "bs_results ?s = map Some rs"
    using assms by (simp add: executeConcurrentBatch_def those_Some_iff)
  with fold_settle_ok [OF batch_ok_init, of reg invs order] show ?thesis
    by (simp add: batch_ok_def)
qed

section \<open>Sequences of invocations\<close>

text \<open>
  What a list of results may be for a list of invocations: at every position the invocation's own
  result, or the abort error where a cancelling invocation elsewhere in the list failed.
\<close>

definition results_for :: "ToolRegistry \<Rightarrow> ToolInvocation list \<Rightarrow> ToolResult list \<Rightarrow> bool" where
  "results_for reg invs rs \<longleftrightarrow>
     length rs = length invs \<and> (\<forall>i < length invs. slot_ok reg invs (map Some rs) i)"

lemma results_for_cases:
  assumes "results_for reg invs rs" and "i < length invs"
  shows "rs ! i = executeToolInternal reg (invs ! i) None \<or>
    rs ! i = failed_result (iv_toolCallId (invs ! i)) (message batch_cancelled)
      \<and> reaches_handler reg (invs ! i)
      \<and> (\<exists>j < length invs. j \<noteq> i \<and> cancels reg (invs ! j) \<and> \<not> tr_success (rs ! j))"
proof -
  from assms have "slot_ok reg invs (map Some rs) i" and len: "length rs = length invs"
    by (auto simp: results_for_def)
  moreover have "map Some rs ! j = Some (rs ! j)" if "j < length invs" for j
    using that len by simp
  ultimately show ?thesis
    using assms(2) unfolding slot_ok_def cancelling_failure_def by (auto simp del: nth_map)
qed

lemma results_for_Nil [simp]: "results_for reg [] []"
  by (simp add: results_for_def)

lemma results_for_single: "results_for reg [iv] [executeToolInternal reg iv None]"
  by (simp add: results_for_def slot_ok_def)

lemma slot_ok_append_left:
  assumes "length rs = length xs" and "i < length xs" and "slot_ok reg xs (map Some rs) i"
  shows "slot_ok reg (xs @ ys) (map Some (rs @ ss)) i"
proof -
  have "cancelling_failure reg xs (map Some rs) i \<Longrightarrow> cancelling_failure reg (xs @ ys) (map Some (rs @ ss)) i"
    unfolding cancelling_failure_def using assms(1) by (force simp: nth_append)
  with assms show ?thesis by (auto simp: slot_ok_def nth_append)
qed

lemma slot_ok_append_right:
  assumes "length rs = length xs" and "length ss = length ys" and "i < length ys"
    and "slot_ok reg ys (map Some ss) i"
  shows "slot_ok reg (xs @ ys) (map Some (rs @ ss)) (length xs + i)"
proof -
  have "cancelling_failure reg (xs @ ys) (map Some (rs @ ss)) (length xs + i)"
    if "cancelling_failure reg ys (map Some ss) i"
  proof -
    from that obtain j where j: "j < length ys" "j \<noteq> i" "cancels reg (ys ! j)" "\<not> tr_success (ss ! j)"
      using assms(2) by (auto simp: cancelling_failure_def)
    show ?thesis
      unfolding cancelling_failure_def using j assms by (intro exI [of _ "length xs + j"]) (auto simp: nth_append)
  qed
  with assms show ?thesis by (auto simp: slot_ok_def nth_append)
qed

lemma results_for_append:
  assumes "results_for reg xs rs" and "results_for reg ys ss"
  shows "results_for reg (xs @ ys) (rs @ ss)"
proof -
  have "slot_ok reg (xs @ ys) (map Some (rs @ ss)) i" if "i < length (xs @ ys)" for i
  proof (cases "i < length xs")
    case True
    with assms slot_ok_append_left [of rs xs i reg ys ss] show ?thesis by (simp add: results_for_def)
  next
    case False
    then have k: "i - length xs < length ys" "length xs + (i - length xs) = i" using that by auto
    with assms slot_ok_append_right [of rs xs ss ys "i - length xs" reg] show ?thesis
      by (simp add: results_for_def)
  qed
  with assms show ?thesis by (simp add: results_for_def)
qed

lemma flush_results:
  assumes "flushBatch reg sched results batch = Some rs" and "results_for reg xs results"
  shows "results_for reg (xs @ batch) rs"
proof (cases "batch = []")
  case False
  with assms(1) obtain bs where bs: "executeConcurrentBatch reg (sched (length results)) batch = Some bs"
    and rs: "rs = results @ bs"
    by (auto simp: flushBatch_def)
  have "results_for reg batch bs"
    using batch_results [OF bs] by (simp add: results_for_def)
  with assms(2) rs show ?thesis by (simp add: results_for_append)
qed (use assms in \<open>simp add: flushBatch_def\<close>)

lemma loop_results:
  "executeTools_loop reg sched results batch invs = Some rs \<Longrightarrow> results_for reg xs results \<Longrightarrow>
   results_for reg (xs @ batch @ invs) rs"
proof (induction reg sched results batch invs arbitrary: xs rule: executeTools_loop.induct)
  case (1 reg sched results batch)
  then show ?case using flush_results by simp
next
  case (2 reg sched results batch iv invs)
  show ?case
  proof (cases "isConcurrencySafe (map_option th_definition (jm_get (tools reg) (iv_toolName iv)))")
    case True
    with 2 show ?thesis by fastforce
  next
    case False
    with 2(3) obtain fs where fs: "flushBatch reg sched results batch = Some fs"
      and rest: "executeTools_loop reg sched (fs @ [executeToolInternal reg iv None]) [] invs = Some rs"
      by (auto split: option.splits)
    have "results_for reg ((xs @ batch) @ [iv]) (fs @ [executeToolInternal reg iv None])"
      using results_for_append [OF flush_results [OF fs 2(4)] results_for_single] .
    from 2(2) [OF False fs rest this] show ?thesis by simp
  qed
qed

lemma flush_settles:
  assumes "\<forall>i < length batch. i \<in> set (sched (length results))"
  shows "\<exists>rs. flushBatch reg sched results batch = Some rs"
  using batch_settles [OF assms] by (auto simp: flushBatch_def)

lemma loop_settles:
  "\<forall>k. \<forall>i < length batch + length invs. i \<in> set (sched k) \<Longrightarrow>
   \<exists>rs. executeTools_loop reg sched results batch invs = Some rs"
proof (induction invs arbitrary: results batch)
  case Nil
  then show ?case using flush_settles by simp
next
  case (Cons iv invs)
  from Cons.prems obtain fs where "flushBatch reg sched results batch = Some fs"
    using flush_settles [of batch sched results reg] by auto
  with Cons.IH [of "batch @ [iv]" results] Cons.IH [of "[]" "fs @ [executeToolInternal reg iv None]"] Cons.prems
  show ?case by auto
qed

lemma results_own:
  assumes "results_for reg invs rs" and "\<forall>iv \<in> set invs. \<not> cancels reg iv"
  shows "rs = map (\<lambda>iv. executeToolInternal reg iv None) invs"
proof (rule nth_equalityI)
  show len: "length rs = length (map (\<lambda>iv. executeToolInternal reg iv None) invs)"
    using assms(1) by (simp add: results_for_def)
  fix i assume "i < length rs"
  with len results_for_cases [OF assms(1), of i] assms(2)
  show "rs ! i = map (\<lambda>iv. executeToolInternal reg iv None) invs ! i" by auto
qed

lemma executeTools_results: "executeTools reg sched invs = Some rs \<Longrightarrow> results_for reg invs rs"
  using loop_results [of reg sched "[]" "[]" invs rs "[]"] by (simp add: executeTools_def)

lemma executeTools_settles:
  "\<forall>k. \<forall>i < length invs. i \<in> set (sched k) \<Longrightarrow> \<exists>rs. executeTools reg sched invs = Some rs"
  using loop_settles [of "[]" invs sched reg "[]"] by (simp add: executeTools_def)

section \<open>Properties\<close>

text \<open>
  C14. Whatever the order in which concurrent promises settle, a list of tool calls yields exactly
  one result per call, in the order of the calls: results are never lost, duplicated or swapped.
\<close>

theorem executeTools_in_order:
  assumes "\<forall>k. \<forall>i < length invs. i \<in> set (sched k)"
  shows "\<exists>rs. executeTools reg sched invs = Some rs \<and> map tr_toolCallId rs = map iv_toolCallId invs"
proof -
  from assms obtain rs where rs: "executeTools reg sched invs = Some rs"
    using executeTools_settles by blast
  then have ok: "results_for reg invs rs" by (rule executeTools_results)
  have "tr_toolCallId (rs ! i) = iv_toolCallId (invs ! i)" if "i < length invs" for i
    using results_for_cases [OF ok that] by auto
  then have "map tr_toolCallId rs = map iv_toolCallId invs"
    using ok by (intro nth_equalityI) (auto simp: results_for_def)
  with rs show ?thesis by blast
qed

text \<open>
  A registry for the witnesses: \<open>probe\<close> fails and cancels its siblings, \<open>echo\<close> returns its text
  argument; both are safe to run concurrently.
\<close>

definition demo_tool :: "string \<Rightarrow> bool \<Rightarrow> (json \<Rightarrow> ToolExecutionOutput result) \<Rightarrow> ToolHandler" where
  "demo_tool n cancel f =
     \<lparr>th_definition = \<lparr>td_name = n, td_description = n, td_inputSchema = Inr, td_sandbox = None,
        td_concurrency = Some \<lparr>cc_safe = True, cc_cancelSiblingsOnFailure = Some cancel\<rparr>\<rparr>,
      th_execute = (\<lambda>c a. Some (5, f a))\<rparr>"

definition demo_registry :: ToolRegistry where
  "demo_registry =
     \<lparr>tools = [(''probe'', demo_tool ''probe'' True (\<lambda>a. Inl (Error ''down''))),
               (''echo'', demo_tool ''echo'' False (\<lambda>a. Inr (OutText ''ok'')))],
      timeoutMs = 10, sandboxRunner = (\<lambda>h c a. Inl (Error ''no sandbox''))\<rparr>"

definition demo_calls :: "ToolInvocation list" where
  "demo_calls = [\<lparr>iv_toolCallId = ''c1'', iv_toolName = ''echo'', iv_args = JNull\<rparr>,
     \<lparr>iv_toolCallId = ''c2'', iv_toolName = ''probe'', iv_args = JNull\<rparr>]"

theorem executeTools_in_order_witness:
  "\<exists>rs. executeTools demo_registry (\<lambda>k. [1, 0]) demo_calls = Some rs
     \<and> map tr_toolCallId rs = [''c1'', ''c2'']"
proof -
  have "\<forall>k. \<forall>i < length demo_calls. i \<in> set [1, 0]" by (auto simp: demo_calls_def less_Suc_eq)
  from executeTools_in_order [OF this, of demo_registry] show ?thesis by (simp add: demo_calls_def)
qed





text \<open>
  Every result of a tool call is well formed: it carries content exactly when it succeeded and
  an error text exactly when it did not, and a call that waits for approval is a failure that names
  the approval request.
\<close>

theorem tool_result_well_formed:
  "let r = executeToolInternal reg iv signal
   in tr_toolCallId r = iv_toolCallId iv
    \<and> (tr_success r = (tr_content r \<noteq> None)) \<and> (tr_success r = (tr_error r = None))
    \<and> (tr_approvalRequired r = Some True \<longleftrightarrow>
        (\<exists>h parsed req m. getTool reg (iv_toolName iv) = Some h
          \<and> td_inputSchema (th_definition h) (iv_args iv) = Inr parsed
          \<and> invokeHandler reg h (iv_toolCallId iv) parsed signal = Inr (OutApproval req m)
          \<and> tr_approvalRequestId r = Some req \<and> tr_error r = Some m \<and> \<not> tr_success r))"
  unfolding executeToolInternal_def getTool_def
  by (auto simp: Let_def failed_result_def split: option.splits sum.splits ToolExecutionOutput.splits)

text \<open>
  Registration keeps the registry well formed, refuses a name that is taken and leaves every
  other tool untouched.
\<close>

theorem register_behaviour:
  "(case register reg h of
      Inl e \<Rightarrow> getTool reg (td_name (th_definition h)) \<noteq> None
    | Inr reg' \<Rightarrow> getTool reg (td_name (th_definition h)) = None
        \<and> getTool reg' n = (if n = td_name (th_definition h) then Some h else getTool reg n)
        \<and> listTools reg' = listTools reg @ [th_definition h]
        \<and> (registry_ok reg = registry_ok reg'))"
proof (cases "register reg h")
  case (Inl e)
  then show ?thesis by (auto simp: register_def getTool_def Let_def split: if_splits)
next
  case (Inr reg')
  then have "registry_ok reg' \<Longrightarrow> registry_ok reg" by (auto simp: register_cases registry_ok_def jm_ok_def)
  with register_ok [of reg h reg'] Inr have "registry_ok reg = registry_ok reg'" by blast
  moreover from Inr have "jm_get (tools reg) (td_name (th_definition h)) = None"
    "tools reg' = tools reg @ [(td_name (th_definition h), h)]"
    by (simp_all add: register_cases)
  ultimately show ?thesis
    unfolding Inr sum.case by (auto simp: getTool_def listTools_def map_add_def split: option.splits)
qed

text \<open>
  The tools exported to the model SDK are exactly the registered ones, with their descriptions
  and schemas, in registration order.
\<close>

theorem exportForAISdk_faithful:
  assumes "registry_ok reg"
  shows "exportForAISdk reg =
    map (\<lambda>d. (td_name d, (td_description d, td_inputSchema d))) (listTools reg)"
proof -
  let ?g = "\<lambda>(n, h). (n, (td_description (th_definition h), td_inputSchema (th_definition h)))"
  have gen: "foldl (\<lambda>acc (n, h). jm_set acc n (td_description (th_definition h), td_inputSchema (th_definition h))) acc xs
      = acc @ map ?g xs" if "distinct (map fst acc @ map fst xs)" for acc xs
    using that
  proof (induction xs arbitrary: acc)
    case (Cons x xs)
    obtain n h where x: "x = (n, h)" by (cases x)
    with Cons.prems have "jm_get acc n = None" by (auto simp: map_of_eq_None_iff)
    with Cons x show ?case by (simp add: jm_set_fresh)
  qed simp
  have "map ?g (tools reg) = map (\<lambda>d. (td_name d, (td_description d, td_inputSchema d))) (listTools reg)"
    using assms by (auto simp: registry_ok_def listTools_def)
  with gen [of "[]" "tools reg"] assms show ?thesis
    by (simp add: exportForAISdk_def registry_ok_def jm_ok_def)
qed

theorem exportForAISdk_faithful_witness:
  "map fst (exportForAISdk demo_registry) = [''probe'', ''echo'']"
proof -
  have "registry_ok demo_registry" by code_simp
  from exportForAISdk_faithful [OF this] show ?thesis
    by (simp add: listTools_def demo_registry_def demo_tool_def)
qed

end
