(* ===== verification/Sandbox_Runner.thy ===== *)
theory Sandbox_Runner
  imports Sandbox_Network Tool_Registry
begin

text \<open>
  The process that runs a sandboxed tool (\<^verbatim>\<open>apps/tool-runner-host/src/sandbox.ts\<close>), the worker's side
  of it (\<^verbatim>\<open>sandbox-worker-source.ts\<close>) and the resource checks (\<^verbatim>\<open>sandbox-resources.ts\<close>).

  The host side is an event handler on the state of one execution: the events are the callbacks of
  the child process and the timers, in any order. Removing the sandbox directory is asynchronous in
  the code; its outcome is the parameter \<open>clean\<close>. The Rust runner of level 4, the creation of the
  temporary directory and the evaluation of the handler's source text are parameters.
\<close>

section \<open>Options\<close>

record SandboxedToolRunnerOptions =
  defaultTimeoutMs :: "nat option"
  defaultMaxMemoryMb :: "nat option"
  defaultMaxCpu :: "nat option"

record ResolvedSandboxOptions =
  ro_level :: nat
  ro_timeoutMs :: nat
  ro_maxMemoryMb :: nat
  ro_maxCpu :: nat
  ro_allowNetwork :: bool
  ro_allowedDomains :: "string list"
  ro_allowedPaths :: "string list"

definition resolveSandboxOptions ::
    "string \<Rightarrow> ToolDefinition \<Rightarrow> SandboxedToolRunnerOptions \<Rightarrow> ResolvedSandboxOptions" where
  "resolveSandboxOptions wd d defs =
     (let sb = td_sandbox d
      in \<lparr>ro_level = (case sb of None \<Rightarrow> 0 | Some c \<Rightarrow> sb_level c),
          ro_timeoutMs = js_or (js_or_opt (Option.bind sb sb_timeout) (defaultTimeoutMs defs)) 30000,
          ro_maxMemoryMb = js_or (js_or_opt (Option.bind sb sb_maxMemory) (defaultMaxMemoryMb defs)) 512,
          ro_maxCpu = js_or (js_or_opt (Option.bind sb sb_maxCpu) (defaultMaxCpu defs)) 100,
          ro_allowNetwork = js_or (Option.bind sb sb_allowNetwork) False,
          ro_allowedDomains = js_or (Option.bind sb sb_allowedDomains) [],
          ro_allowedPaths = map (posix_resolve (cwd_of wd)) (js_or (Option.bind sb sb_allowedPaths) [])\<rparr>)"

section \<open>Removal of the sandbox directory\<close>

definition SANDBOX_CLEANUP_RETRY_DELAY_MS :: nat where "SANDBOX_CLEANUP_RETRY_DELAY_MS = 100"
definition SANDBOX_CLEANUP_MAX_ATTEMPTS :: nat where "SANDBOX_CLEANUP_MAX_ATTEMPTS = 10"

definition isRetriableSandboxCleanupError :: "exn \<Rightarrow> bool" where
  "isRetriableSandboxCleanupError e \<longleftrightarrow>
     err_code e = Some ''EBUSY'' \<or> err_code e = Some ''EPERM'' \<or> err_code e = Some ''ENOTEMPTY''"

text \<open>\<open>rm k\<close> is the outcome of the \<open>k\<close>-th attempt; the result carries the delays awaited.\<close>

function removal_loop :: "(nat \<Rightarrow> unit result) \<Rightarrow> nat \<Rightarrow> nat list \<Rightarrow> unit result \<times> nat list" where
  "removal_loop rm attempt delays =
     (case rm attempt of
        Inr _ \<Rightarrow> (Inr (), delays)
      | Inl e \<Rightarrow>
          if \<not> isRetriableSandboxCleanupError e then (Inl e, delays)
          else if attempt \<ge> SANDBOX_CLEANUP_MAX_ATTEMPTS then (Inl e, delays)
          else removal_loop rm (attempt + 1) (delays @ [SANDBOX_CLEANUP_RETRY_DELAY_MS * attempt]))"
  by pat_completeness auto
termination
  by (relation "measure (\<lambda>(_, attempt, _). SANDBOX_CLEANUP_MAX_ATTEMPTS - attempt)") auto

declare removal_loop.simps [simp del]

definition removeSandboxDirectory :: "(nat \<Rightarrow> unit result) \<Rightarrow> unit result \<times> nat list" where
  "removeSandboxDirectory rm = removal_loop rm 1 []"

section \<open>Resource checks\<close>

definition isOutOfMemory :: "string \<Rightarrow> bool" where
  "isOutOfMemory err =
     (let normalized = js_toLowerCase err
      in js_includes normalized ''heap out of memory'' \<or> js_includes normalized ''allocation failed'')"

definition shouldMonitorCpu :: "nat \<Rightarrow> bool" where
  "shouldMonitorCpu maxCpu \<longleftrightarrow> 0 < maxCpu \<and> maxCpu < 100"

text \<open>One reading of the CPU monitor, with the comparison cleared of its fraction.\<close>

definition cpu_limit_exceeded :: "nat \<Rightarrow> nat \<Rightarrow> nat option \<Rightarrow> bool" where
  "cpu_limit_exceeded maxCpu elapsedMs cpuTimeMs =
     (case cpuTimeMs of None \<Rightarrow> False
      | Some cpu \<Rightarrow> 500 \<le> elapsedMs \<and> cpu * 100 > elapsedMs * maxCpu + 100 * 100)"

section \<open>Messages between host and worker\<close>

record ExecuteMessage =
  xm_handlerSource :: string
  xm_args :: json
  xm_sandboxLevel :: nat
  xm_sandboxDirectory :: "string option"
  xm_allowNetwork :: bool
  xm_allowedDomains :: "string list"
  xm_allowedPaths :: "string list"

definition createExecuteMessage ::
    "string \<Rightarrow> json \<Rightarrow> ResolvedSandboxOptions \<Rightarrow> string option \<Rightarrow> ExecuteMessage" where
  "createExecuteMessage src args ro dir =
     \<lparr>xm_handlerSource = src, xm_args = args, xm_sandboxLevel = ro_level ro, xm_sandboxDirectory = dir,
      xm_allowNetwork = ro_allowNetwork ro, xm_allowedDomains = ro_allowedDomains ro,
      xm_allowedPaths = ro_allowedPaths ro\<rparr>"

datatype worker_reply = ReplyResult string | ReplyError string

text \<open>
  The environment the handler is evaluated in: the file-system functions, replaced from level 2 on,
  and the connecting functions, always replaced. An unguarded file-system function gets the text of
  its path arguments.
\<close>

record worker_env =
  env_fs :: "fs_call \<Rightarrow> string list result"
  env_net :: "net_call \<Rightarrow> unit result"

definition worker_environment ::
    "string \<Rightarrow> (js_url \<Rightarrow> string result) \<Rightarrow> (string \<Rightarrow> string option) \<Rightarrow> (fs_call \<Rightarrow> string list result)
     \<Rightarrow> ExecuteMessage \<Rightarrow> worker_env" where
  "worker_environment wd furl parse originalFs xm =
     \<lparr>env_fs = (case xm_sandboxDirectory xm of
          Some d \<Rightarrow> if 2 \<le> xm_sandboxLevel xm \<and> d \<noteq> []
                   then applyFilesystemSandbox (createFsGuards wd furl d (xm_allowedPaths xm)) else originalFs
        | None \<Rightarrow> originalFs),
      env_net = configureNetwork parse (xm_allowNetwork xm) (xm_allowedDomains xm)\<rparr>"

definition serializeResult :: "json option \<Rightarrow> string" where
  "serializeResult v =
     (case v of Some (JStr s) \<Rightarrow> s | Some j \<Rightarrow> json_stringify j | None \<Rightarrow> json_stringify JNull)"

definition executeMessage ::
    "string \<Rightarrow> (js_url \<Rightarrow> string result) \<Rightarrow> (string \<Rightarrow> string option) \<Rightarrow> (fs_call \<Rightarrow> string list result)
     \<Rightarrow> (worker_env \<Rightarrow> string \<Rightarrow> json \<Rightarrow> json option result) \<Rightarrow> ExecuteMessage \<Rightarrow> worker_reply" where
  "executeMessage wd furl parse originalFs evalHandler xm =
     (case evalHandler (worker_environment wd furl parse originalFs xm) (xm_handlerSource xm) (xm_args xm) of
        Inr v \<Rightarrow> ReplyResult (serializeResult v)
      | Inl e \<Rightarrow> ReplyError (message e))"

section \<open>The execution of one tool\<close>

datatype exit_signal = Signal string

datatype sandbox_event =
  EvStderr string
| EvReady
| EvReply worker_reply
| EvChildError exn
| EvClose "int option" "exit_signal option"
| EvExecutionTimeout
| EvStartupTimeout
| EvCpuReading nat "nat option"

record sandbox_state =
  sx_outcome :: "string result option"
  sx_stderr :: string
  sx_workerReady :: bool
  sx_queued :: "ExecuteMessage option"
  sx_sent :: "ExecuteMessage list"
  sx_result :: "string option"
  sx_errorMessage :: "string option"
  sx_pendingError :: "exn option"
  sx_timer :: bool
  sx_startupTimer :: bool
  sx_cpuMonitor :: bool
  sx_cleanups :: nat
  sx_killed :: bool

definition sandbox_init :: "ExecuteMessage \<Rightarrow> sandbox_state" where
  "sandbox_init xm =
     \<lparr>sx_outcome = None, sx_stderr = [], sx_workerReady = False, sx_queued = Some xm, sx_sent = [],
      sx_result = None, sx_errorMessage = None, sx_pendingError = None, sx_timer = False,
      sx_startupTimer = True, sx_cpuMonitor = False, sx_cleanups = 0, sx_killed = False\<rparr>"

definition settleOnce :: "unit result \<Rightarrow> string result \<Rightarrow> sandbox_state \<Rightarrow> sandbox_state" where
  "settleOnce clean r s =
     (if sx_outcome s \<noteq> None then s
      else s\<lparr>sx_outcome := Some (case clean of Inl e \<Rightarrow> Inl e | Inr _ \<Rightarrow> r), sx_timer := False,
             sx_startupTimer := False, sx_cpuMonitor := False, sx_cleanups := sx_cleanups s + 1\<rparr>)"

definition recordPendingError :: "exn \<Rightarrow> sandbox_state \<Rightarrow> sandbox_state" where
  "recordPendingError e s = s\<lparr>sx_pendingError := js_or_opt (sx_pendingError s) (Some e)\<rparr>"

definition dispatchMessage :: "unit result \<Rightarrow> unit result \<Rightarrow> sandbox_state \<Rightarrow> sandbox_state" where
  "dispatchMessage clean send s =
     (case sx_queued s of
        None \<Rightarrow> s
      | Some xm \<Rightarrow>
          if \<not> sx_workerReady s then s
          else let s1 = s\<lparr>sx_queued := None\<rparr>
               in case send of
                    Inr _ \<Rightarrow> s1\<lparr>sx_sent := sx_sent s1 @ [xm]\<rparr>
                  | Inl e \<Rightarrow> settleOnce clean (Inl e) s1)"

definition startExecutionTimer :: "ResolvedSandboxOptions \<Rightarrow> sandbox_state \<Rightarrow> sandbox_state" where
  "startExecutionTimer ro s =
     (if sx_timer s then s else s\<lparr>sx_timer := True, sx_cpuMonitor := shouldMonitorCpu (ro_maxCpu ro)\<rparr>)"

definition exit_error :: "ResolvedSandboxOptions \<Rightarrow> sandbox_state \<Rightarrow> int option \<Rightarrow> exit_signal option \<Rightarrow> exn" where
  "exit_error ro s code sig =
     (case sx_pendingError s of
        Some e \<Rightarrow> e
      | None \<Rightarrow>
          if isOutOfMemory (sx_stderr s)
          then Error (''Tool execution exceeded memory limit ('' @ show_nat (ro_maxMemoryMb ro) @ '' MB)'')
          else (case sig of
                  Some (Signal n) \<Rightarrow> Error (''Tool process killed by signal '' @ n)
                | None \<Rightarrow>
                    if code \<noteq> Some 0
                    then (let c = (case code of None \<Rightarrow> ''null'' | Some i \<Rightarrow> show_int i);
                              t = js_trim (sx_stderr s)
                          in if t = [] then Error (''Tool process exited with code '' @ c)
                             else Error (''Tool process exited with code '' @ c @ '': '' @ t))
                    else Error ''Tool process exited before returning a result''))"

definition on_close ::
    "unit result \<Rightarrow> ResolvedSandboxOptions \<Rightarrow> int option \<Rightarrow> exit_signal option \<Rightarrow> sandbox_state \<Rightarrow> sandbox_state" where
  "on_close clean ro code sig s =
     (case sx_errorMessage s of
        Some e \<Rightarrow> settleOnce clean (Inl (Error e)) s
      | None \<Rightarrow>
          (case sx_result s of
             Some r \<Rightarrow> settleOnce clean (Inr r) s
           | None \<Rightarrow> settleOnce clean (Inl (exit_error ro s code sig)) s))"

fun on_event ::
    "unit result \<Rightarrow> unit result \<Rightarrow> ResolvedSandboxOptions \<Rightarrow> sandbox_event \<Rightarrow> sandbox_state \<Rightarrow> sandbox_state" where
  "on_event clean send ro (EvStderr chunk) s = s\<lparr>sx_stderr := sx_stderr s @ chunk\<rparr>"
| "on_event clean send ro EvReady s =
     startExecutionTimer ro (dispatchMessage clean send (s\<lparr>sx_workerReady := True, sx_startupTimer := False\<rparr>))"
| "on_event clean send ro (EvReply reply) s =
     (let s1 = s\<lparr>sx_timer := False, sx_cpuMonitor := False\<rparr>
      in case reply of ReplyResult r \<Rightarrow> s1\<lparr>sx_result := Some r\<rparr>
         | ReplyError e \<Rightarrow> s1\<lparr>sx_errorMessage := Some e\<rparr>)"
| "on_event clean send ro (EvChildError e) s = settleOnce clean (Inl e) s"
| "on_event clean send ro (EvClose code sig) s = on_close clean ro code sig s"
| "on_event clean send ro EvExecutionTimeout s =
     (if sx_timer s
      then (recordPendingError (Error ''Tool execution timed out'') s)\<lparr>sx_killed := True\<rparr> else s)"
| "on_event clean send ro EvStartupTimeout s =
     (if sx_startupTimer s \<and> \<not> sx_workerReady s
      then (recordPendingError (Error ''Sandbox worker failed to become ready'') s)\<lparr>sx_killed := True\<rparr> else s)"
| "on_event clean send ro (EvCpuReading elapsed cpu) s =
     (if sx_cpuMonitor s \<and> cpu_limit_exceeded (ro_maxCpu ro) elapsed cpu
      then recordPendingError
             (Error (''Tool execution exceeded CPU limit ('' @ show_nat (ro_maxCpu ro) @ ''%)'')) (s\<lparr>sx_killed := True\<rparr>)
      else s)"

definition sandbox_run ::
    "unit result \<Rightarrow> unit result \<Rightarrow> ResolvedSandboxOptions \<Rightarrow> ExecuteMessage \<Rightarrow> sandbox_event list \<Rightarrow> sandbox_state" where
  "sandbox_run clean send ro xm evs = fold (on_event clean send ro) evs (sandbox_init xm)"

definition executeWithRustRunner ::
    "(ExecuteMessage \<Rightarrow> string result) \<Rightarrow> unit result \<Rightarrow> ExecuteMessage \<Rightarrow> string result" where
  "executeWithRustRunner rust clean xm =
     (case clean of Inl e \<Rightarrow> Inl e | Inr _ \<Rightarrow> rust xm)"

text \<open>
  The whole execution: the outcome, or \<open>None\<close> while no event has settled it. A directory is made from
  level 2 on; without one there is nothing to clean up.
\<close>

definition SandboxedToolRunner_execute ::
    "string \<Rightarrow> SandboxedToolRunnerOptions \<Rightarrow> (ExecuteMessage \<Rightarrow> string result) \<Rightarrow> string result
     \<Rightarrow> (nat \<Rightarrow> unit result) \<Rightarrow> unit result \<Rightarrow> sandbox_event list \<Rightarrow> ToolDefinition \<Rightarrow> string \<Rightarrow> json
     \<Rightarrow> string result option" where
  "SandboxedToolRunner_execute wd defs rust mkdtemp rm send evs d src args =
     (let ro = resolveSandboxOptions wd d defs
      in if 2 \<le> ro_level ro
         then (case mkdtemp of
                 Inl e \<Rightarrow> Some (Inl e)
               | Inr dir \<Rightarrow>
                   let xm = createExecuteMessage src args ro (Some dir);
                       clean = fst (removeSandboxDirectory rm)
                   in if ro_level ro = 4 then Some (executeWithRustRunner rust clean xm)
                      else sx_outcome (sandbox_run clean send ro xm evs))
         else sx_outcome (sandbox_run (Inr ()) send ro (createExecuteMessage src args ro None) evs))"

section \<open>Lemmas\<close>

text \<open>
  The invariant of an execution: cleaned up at most once and exactly when settled, the execute message
  is sent at most once and only to a ready worker, and a settled execution has no timer armed by the
  host that could still settle it differently.
\<close>

definition sandbox_ok :: "ExecuteMessage \<Rightarrow> sandbox_state \<Rightarrow> bool" where
  "sandbox_ok xm s \<longleftrightarrow>
     sx_cleanups s = (if sx_outcome s = None then 0 else 1) \<and>
     (sx_queued s = None \<or> sx_queued s = Some xm \<and> sx_sent s = []) \<and>
     (sx_sent s = [] \<or> sx_sent s = [xm] \<and> sx_workerReady s)"

lemma settleOnce_sel [simp]:
  "sx_stderr (settleOnce clean r s) = sx_stderr s" "sx_workerReady (settleOnce clean r s) = sx_workerReady s"
  "sx_queued (settleOnce clean r s) = sx_queued s" "sx_sent (settleOnce clean r s) = sx_sent s"
  "sx_outcome (settleOnce clean r s) \<noteq> None"
  by (simp_all add: settleOnce_def)

lemma settleOnce_ok: "sandbox_ok xm s \<Longrightarrow> sandbox_ok xm (settleOnce clean r s)"
  by (auto simp: sandbox_ok_def settleOnce_def)

lemma settleOnce_stable: "sx_outcome s = Some r \<Longrightarrow> sx_outcome (settleOnce clean r' s) = Some r"
  by (simp add: settleOnce_def)

lemma dispatchMessage_ok: "sandbox_ok xm s \<Longrightarrow> sandbox_ok xm (dispatchMessage clean send s)"
  by (auto simp: sandbox_ok_def dispatchMessage_def settleOnce_def Let_def split: option.splits sum.splits)

lemma on_event_ok: "sandbox_ok xm s \<Longrightarrow> sandbox_ok xm (on_event clean send ro ev s)"
proof (cases ev)
  case EvReady
  assume "sandbox_ok xm s"
  then have "sandbox_ok xm (s\<lparr>sx_workerReady := True, sx_startupTimer := False\<rparr>)" by (auto simp: sandbox_ok_def)
  from dispatchMessage_ok [OF this, of clean send] show ?thesis
    using EvReady by (auto simp: startExecutionTimer_def sandbox_ok_def)
qed (auto simp: on_close_def settleOnce_ok recordPendingError_def sandbox_ok_def Let_def
      settleOnce_def split: option.splits worker_reply.splits)

lemma run_ok: "sandbox_ok xm (sandbox_run clean send ro xm evs)"
proof -
  have "sandbox_ok xm (fold (on_event clean send ro) evs s)" if "sandbox_ok xm s" for s
    using that by (induction evs arbitrary: s) (simp_all add: on_event_ok)
  then show ?thesis by (simp add: sandbox_run_def sandbox_init_def sandbox_ok_def)
qed

lemma on_event_stable: "sx_outcome s = Some r \<Longrightarrow> sx_outcome (on_event clean send ro ev s) = Some r"
  by (cases ev) (auto simp: on_close_def settleOnce_def recordPendingError_def startExecutionTimer_def
      dispatchMessage_def Let_def split: option.splits sum.splits worker_reply.splits)

lemma fold_stable: "sx_outcome s = Some r \<Longrightarrow> sx_outcome (fold (on_event clean send ro) evs s) = Some r"
  by (induction evs arbitrary: s) (simp_all add: on_event_stable)

text \<open>What a successful outcome rests on: the worker's result, and a directory that was removed.\<close>

definition success_ok :: "unit result \<Rightarrow> sandbox_event list \<Rightarrow> sandbox_state \<Rightarrow> bool" where
  "success_ok clean evs s \<longleftrightarrow>
     (\<forall>r. sx_result s = Some r \<longrightarrow> EvReply (ReplyResult r) \<in> set evs) \<and>
     (\<forall>r. sx_outcome s = Some (Inr r) \<longrightarrow> EvReply (ReplyResult r) \<in> set evs \<and> clean = Inr ())"

lemma settle_failure_outcome: "sx_outcome (settleOnce clean (Inl e) s) = Some (Inr r) \<Longrightarrow> sx_outcome s = Some (Inr r)"
  by (auto simp: settleOnce_def split: if_splits sum.splits)

lemma settle_success_outcome:
  "sx_outcome (settleOnce clean (Inr v) s) = Some (Inr r) \<Longrightarrow> sx_outcome s = Some (Inr r) \<or> r = v \<and> clean = Inr ()"
  by (auto simp: settleOnce_def split: if_splits sum.splits)

lemma settle_result [simp]: "sx_result (settleOnce clean v s) = sx_result s"
  by (simp add: settleOnce_def)

lemma dispatch_result [simp]: "sx_result (dispatchMessage clean send s) = sx_result s"
  by (simp add: dispatchMessage_def Let_def split: option.splits sum.splits)

lemma dispatch_success:
  "sx_outcome (dispatchMessage clean send s) = Some (Inr r) \<Longrightarrow> sx_outcome s = Some (Inr r)"
  by (auto simp: dispatchMessage_def Let_def dest: settle_failure_outcome split: option.splits sum.splits if_splits)

lemma success_step:
  assumes "success_ok clean evs s"
  shows "success_ok clean (evs @ [ev]) (on_event clean send ro ev s)"
proof (cases ev)
  case EvReady
  with assms show ?thesis
    by (auto simp: success_ok_def startExecutionTimer_def dest: dispatch_success)
next
  case (EvClose code sig)
  with assms show ?thesis
    by (auto simp: success_ok_def on_close_def dest: settle_failure_outcome settle_success_outcome split: option.splits)
next
  case (EvChildError e)
  with assms show ?thesis by (auto simp: success_ok_def dest: settle_failure_outcome)
qed (use assms in \<open>auto simp: success_ok_def recordPendingError_def Let_def split: worker_reply.splits\<close>)

lemma run_success: "success_ok clean evs (sandbox_run clean send ro xm evs)"
proof (induction evs rule: rev_induct)
  case (snoc ev evs)
  then show ?case by (simp add: sandbox_run_def success_step)
qed (simp add: success_ok_def sandbox_run_def sandbox_init_def)

lemma close_settles: "sx_outcome (on_close clean ro code sig s) \<noteq> None"
  using settleOnce_sel(5) by (auto simp: on_close_def simp del: not_None_eq split: option.splits)

lemma removal_behaviour:
  "attempt \<le> SANDBOX_CLEANUP_MAX_ATTEMPTS \<Longrightarrow>
   removal_loop rm attempt ds = (r, ds') \<Longrightarrow>
   \<exists>k \<ge> attempt. k \<le> SANDBOX_CLEANUP_MAX_ATTEMPTS \<and> r = rm k
     \<and> (\<forall>i. attempt \<le> i \<and> i < k \<longrightarrow> (\<exists>e. rm i = Inl e \<and> isRetriableSandboxCleanupError e))
     \<and> (\<forall>e. rm k = Inl e \<and> isRetriableSandboxCleanupError e \<longrightarrow> k = SANDBOX_CLEANUP_MAX_ATTEMPTS)
     \<and> ds' = ds @ map (\<lambda>i. SANDBOX_CLEANUP_RETRY_DELAY_MS * i) [attempt..<k]"
proof (induction rm attempt ds rule: removal_loop.induct)
  case (1 rm attempt ds)
  show ?case
  proof (cases "rm attempt")
    case (Inr u)
    with 1(2,3) show ?thesis by (intro exI [of _ attempt]) (auto simp: removal_loop.simps [of rm attempt])
  next
    case (Inl e)
    show ?thesis
    proof (cases "isRetriableSandboxCleanupError e \<and> attempt < SANDBOX_CLEANUP_MAX_ATTEMPTS")
      case False
      with Inl 1(2,3) show ?thesis
        by (intro exI [of _ attempt]) (auto simp: removal_loop.simps [of rm attempt] split: if_splits)
    next
      case True
      with Inl 1(3) have "removal_loop rm (attempt + 1) (ds @ [SANDBOX_CLEANUP_RETRY_DELAY_MS * attempt]) = (r, ds')"
        by (simp add: removal_loop.simps [of rm attempt])
      with 1(1) [OF Inl] True obtain k where k: "attempt + 1 \<le> k" "k \<le> SANDBOX_CLEANUP_MAX_ATTEMPTS" "r = rm k"
        "\<forall>i. attempt + 1 \<le> i \<and> i < k \<longrightarrow> (\<exists>e. rm i = Inl e \<and> isRetriableSandboxCleanupError e)"
        "\<forall>e. rm k = Inl e \<and> isRetriableSandboxCleanupError e \<longrightarrow> k = SANDBOX_CLEANUP_MAX_ATTEMPTS"
        "ds' = (ds @ [SANDBOX_CLEANUP_RETRY_DELAY_MS * attempt]) @ map (\<lambda>i. SANDBOX_CLEANUP_RETRY_DELAY_MS * i) [attempt + 1..<k]"
        by auto
      moreover have "[attempt..<k] = attempt # [attempt + 1..<k]" using k(1) by (simp add: upt_conv_Cons)
      moreover have "\<exists>e. rm i = Inl e \<and> isRetriableSandboxCleanupError e" if "attempt \<le> i" "i < k" for i
        using that k(4) Inl True by (cases "i = attempt") auto
      ultimately show ?thesis by (intro exI [of _ k]) auto
    qed
  qed
qed

section \<open>Properties\<close>


definition demo_sandboxed :: ToolDefinition where
  "demo_sandboxed = \<lparr>td_name = ''csv'', td_description = ''csv'', td_inputSchema = Inr,
     td_sandbox = Some \<lparr>sb_level = 3, sb_timeout = None, sb_maxMemory = None, sb_maxCpu = None,
       sb_allowNetwork = None, sb_allowedDomains = None, sb_allowedPaths = Some [''/data'']\<rparr>,
     td_concurrency = None\<rparr>"

definition demo_message :: ExecuteMessage where
  "demo_message = createExecuteMessage ''f'' JNull
     (resolveSandboxOptions ''tmp'' demo_sandboxed
        \<lparr>defaultTimeoutMs = None, defaultMaxMemoryMb = None, defaultMaxCpu = None\<rparr>) (Some ''/tmp/sb1'')"

definition demo_options :: ResolvedSandboxOptions where
  "demo_options = \<lparr>ro_level = 1, ro_timeoutMs = 9, ro_maxMemoryMb = 8, ro_maxCpu = 5,
     ro_allowNetwork = False, ro_allowedDomains = [], ro_allowedPaths = []\<rparr>"


text \<open>
  C18. Whatever the events of the child process and the timers, and in whatever order, an execution
  settles at most once: the outcome never changes afterwards, the sandbox directory is removed exactly
  when the execution settles and never twice, and the execute message is sent at most once, to a worker
  that has reported ready.
\<close>

theorem sandbox_settles_once:
  "let s = sandbox_run clean send ro xm evs
   in (\<forall>r. sx_outcome s = Some r \<longrightarrow> sx_outcome (sandbox_run clean send ro xm (evs @ later)) = Some r)
    \<and> sx_cleanups s = (if sx_outcome s = None then 0 else 1)
    \<and> (sx_sent s = [] \<or> sx_sent s = [xm] \<and> sx_workerReady s)"
  using run_ok [of xm clean send ro evs] fold_stable
  by (auto simp: Let_def sandbox_run_def sandbox_ok_def)

theorem sandbox_settles_once_witness:
  "sx_outcome (sandbox_run (Inr ()) (Inr ()) demo_options (createExecuteMessage ''f'' JNull demo_options None)
      ([EvReady, EvReply (ReplyResult ''ok''), EvClose (Some 0) None] @ [EvChildError (Error ''late'')]))
   = Some (Inr ''ok'')"
proof -
  have "sx_outcome (sandbox_run (Inr ()) (Inr ()) demo_options (createExecuteMessage ''f'' JNull demo_options None)
      [EvReady, EvReply (ReplyResult ''ok''), EvClose (Some 0) None]) = Some (Inr ''ok'')"
    by code_simp
  with sandbox_settles_once show ?thesis unfolding Let_def by blast
qed

text \<open>
  C19. Once the child process has closed, the execution has settled; it has settled with success only
  if the worker sent that very result and the sandbox directory could be removed.
\<close>

theorem sandbox_close_settles:
  assumes "EvClose code sig \<in> set evs"
  shows "\<exists>r. sx_outcome (sandbox_run clean send ro xm evs) = Some r
    \<and> (\<forall>v. r = Inr v \<longrightarrow> EvReply (ReplyResult v) \<in> set evs \<and> clean = Inr ())"
proof -
  from assms obtain xs ys where evs: "evs = (xs @ [EvClose code sig]) @ ys"
    by (auto dest: split_list)
  obtain r where "sx_outcome (sandbox_run clean send ro xm (xs @ [EvClose code sig])) = Some r"
    using close_settles [of clean ro code sig] by (fastforce simp: sandbox_run_def)
  then have "sx_outcome (sandbox_run clean send ro xm evs) = Some r"
    unfolding evs sandbox_run_def using fold_stable by (simp del: on_event.simps)
  with run_success [of clean evs send ro xm] show ?thesis by (auto simp: success_ok_def)
qed

theorem sandbox_close_settles_witness:
  "\<exists>r. sx_outcome (sandbox_run (Inr ()) (Inr ()) demo_options (createExecuteMessage ''f'' JNull demo_options None)
      [EvReady, EvExecutionTimeout, EvClose None (Some (Signal ''SIGKILL''))]) = Some r"
  using sandbox_close_settles [of None "Some (Signal ''SIGKILL'')"
      "[EvReady, EvExecutionTimeout, EvClose None (Some (Signal ''SIGKILL''))]"]
  by fastforce

text \<open>
  Removing the sandbox directory terminates after at most ten attempts: it retries exactly on
  busy, permission and not-empty errors, returns the outcome of the last attempt, and waits between
  attempts for at most 4.5 seconds in total.
\<close>

theorem removeSandboxDirectory_bounded:
  "\<exists>k \<in> {1..10}. fst (removeSandboxDirectory rm) = rm k
    \<and> (\<forall>i. 1 \<le> i \<and> i < k \<longrightarrow> (\<exists>e. rm i = Inl e \<and> isRetriableSandboxCleanupError e))
    \<and> (\<forall>e. rm k = Inl e \<and> isRetriableSandboxCleanupError e \<longrightarrow> k = 10)
    \<and> sum_list (snd (removeSandboxDirectory rm)) \<le> 4500"
proof -
  obtain r ds where run: "removal_loop rm 1 [] = (r, ds)" by fastforce
  with removal_behaviour [of 1 rm "[]" r ds] obtain k where k: "1 \<le> k" "k \<le> 10" "r = rm k"
    "\<forall>i. 1 \<le> i \<and> i < k \<longrightarrow> (\<exists>e. rm i = Inl e \<and> isRetriableSandboxCleanupError e)"
    "\<forall>e. rm k = Inl e \<and> isRetriableSandboxCleanupError e \<longrightarrow> k = 10"
    "ds = map (\<lambda>i. 100 * i) [1..<k]"
    by (auto simp: SANDBOX_CLEANUP_MAX_ATTEMPTS_def SANDBOX_CLEANUP_RETRY_DELAY_MS_def)
  have "sum_list ds \<le> sum_list (map (\<lambda>i. 100 * i) [1..<k] @ map (\<lambda>i. 100 * i) [k..<10])"
    using k(6) by (simp only: sum_list_append)
  also have "\<dots> = sum_list (map (\<lambda>i. 100 * i) [1..<10])"
    using k(1,2) by (metis map_append upt_add_eq_append le_add_diff_inverse)
  also have "\<dots> = 4500" by (simp add: upt_rec numeral_eq_Suc)
  finally show ?thesis using run k by (intro bexI [of _ k]) (auto simp: removeSandboxDirectory_def)
qed

theorem removeSandboxDirectory_bounded_witness:
  "\<exists>k \<in> {1..10}. fst (removeSandboxDirectory (\<lambda>k. if k < 3
      then Inl \<lparr>message = ''busy'', err_code = Some ''EBUSY'', err_status = None\<rparr> else Inr ())) = Inr ()
    \<and> k = (3 :: nat)"
proof -
  let ?rm = "\<lambda>k :: nat. if k < 3 then Inl \<lparr>message = ''busy'', err_code = Some ''EBUSY'', err_status = None\<rparr> else Inr ()"
  from removeSandboxDirectory_bounded [of ?rm] obtain k where k: "k \<in> {1..10}"
    "fst (removeSandboxDirectory ?rm) = ?rm k"
    "\<forall>i. 1 \<le> i \<and> i < k \<longrightarrow> (\<exists>e. ?rm i = Inl e \<and> isRetriableSandboxCleanupError e)"
    "\<forall>e. ?rm k = Inl e \<and> isRetriableSandboxCleanupError e \<longrightarrow> k = 10"
    by blast
  have "k \<ge> 3" using k(4) by (auto simp: isRetriableSandboxCleanupError_def split: if_splits)
  moreover have "k \<le> 3" using k(3) by (metis Inl_Inr_False not_less one_le_numeral order_refl)
  ultimately show ?thesis using k(2) by auto
qed

end
