(* ===== verification/Api_Keys.thy ===== *)
theory Api_Keys
  imports Protocol "HOL-Library.Word"
begin

text \<open>
  API keys: generation and format (\<^verbatim>\<open>packages/storage/src/api-key-crypto.ts\<close>), the two repositories
  (\<^verbatim>\<open>apps/gateway/src/auth/repositories.ts\<close> in memory, \<^verbatim>\<open>packages/storage/src/api-key-repository.ts\<close>
  over SQLite) and the service on top of them (\<^verbatim>\<open>apps/gateway/src/auth/api-key-service.ts\<close>).

  A table is the list of its rows in insertion order; a query is the list function it denotes, and
  an insert that breaks the primary key or a unique index throws. SHA-256 is the argument \<open>sha\<close> and
  bcrypt the pair \<open>bhash\<close> (which also takes the salt) and \<open>bcompare\<close>. Random bytes, identifiers and
  the current time are arguments of the operations that draw them.
\<close>

section \<open>Keys\<close>

definition API_KEY_PREFIX :: string where "API_KEY_PREFIX = ''sk_''"
definition API_KEY_BODY_LENGTH :: nat where "API_KEY_BODY_LENGTH = 43"

definition BASE62_ALPHABET :: string where
  "BASE62_ALPHABET = ''0123456789ABCDEFGHIJKLMNOPQRSTUVWXYZabcdefghijklmnopqrstuvwxyz''"

definition padStart :: "nat \<Rightarrow> char \<Rightarrow> string \<Rightarrow> string" where
  "padStart n c s = replicate (n - length s) c @ s"

text \<open>The number a buffer denotes when it is read as big-endian hexadecimal digits.\<close>

definition buffer_value :: "8 word list \<Rightarrow> nat" where
  "buffer_value bs = foldl (\<lambda>acc b. acc * 256 + unat b) 0 bs"

fun base62_digits :: "nat \<Rightarrow> string \<Rightarrow> string" where
  "base62_digits v encoded =
     (if v = 0 then encoded else base62_digits (v div 62) (BASE62_ALPHABET ! (v mod 62) # encoded))"

declare base62_digits.simps [simp del]

definition base62Encode :: "8 word list \<Rightarrow> string" where
  "base62Encode bs =
     (let v = buffer_value bs
      in if v = 0 then padStart API_KEY_BODY_LENGTH CHR ''0'' ''0''
         else padStart API_KEY_BODY_LENGTH CHR ''0'' (base62_digits v []))"

definition generateApiKey :: "8 word list \<Rightarrow> string" where
  "generateApiKey randomBytes = API_KEY_PREFIX @ base62Encode randomBytes"

definition is_alnum :: "char \<Rightarrow> bool" where
  "is_alnum c \<longleftrightarrow> (let n = (of_char c :: nat)
     in 65 \<le> n \<and> n \<le> 90 \<or> 97 \<le> n \<and> n \<le> 122 \<or> 48 \<le> n \<and> n \<le> 57)"

definition isValidApiKeyFormat :: "string \<Rightarrow> bool" where
  "isValidApiKeyFormat v \<longleftrightarrow>
     js_startsWith v API_KEY_PREFIX \<and> length v = length API_KEY_PREFIX + API_KEY_BODY_LENGTH
     \<and> list_all is_alnum (drop (length API_KEY_PREFIX) v)"

section \<open>Repositories\<close>

text \<open>The interface \<^verbatim>\<open>IApiKeyRepository\<close>, over a type of repository states.\<close>

record 's ApiKeyRepository =
  kr_create :: "'s \<Rightarrow> ApiKeyRecord \<Rightarrow> 's result"
  kr_get :: "'s \<Rightarrow> ident \<Rightarrow> ApiKeyRecord option"
  kr_list :: "timestamp \<Rightarrow> 's \<Rightarrow> ApiKeyListFilters \<Rightarrow> ApiKeyRecord list"
  kr_findByLookupHash :: "'s \<Rightarrow> string \<Rightarrow> ApiKeyRecord option"
  kr_updateLastUsed :: "timestamp \<Rightarrow> 's \<Rightarrow> ident \<Rightarrow> 's"
  kr_revoke :: "timestamp \<Rightarrow> 's \<Rightarrow> ident \<Rightarrow> string \<Rightarrow> string \<Rightarrow> 's \<times> ApiKeyRecord option"
  kr_count :: "'s \<Rightarrow> nat"

record key_maps =
  km_records :: "(ident, ApiKeyRecord) jsmap"
  km_lookup :: "(string, ident) jsmap"

definition key_expired :: "timestamp \<Rightarrow> ApiKeyRecord \<Rightarrow> bool" where
  "key_expired now r = (case ak_expiresAt r of None \<Rightarrow> False | Some t \<Rightarrow> t \<noteq> [] \<and> t < now)"

definition key_filter :: "timestamp \<Rightarrow> ApiKeyListFilters \<Rightarrow> ApiKeyRecord \<Rightarrow> bool" where
  "key_filter now f r \<longleftrightarrow>
     (case kf_role f of None \<Rightarrow> True | Some role \<Rightarrow> ak_role r = role) \<and>
     \<not> (kf_revoked f = Some True \<and> \<not> js_truthy (ak_revokedAt r)) \<and>
     \<not> (kf_revoked f = Some False \<and> js_truthy (ak_revokedAt r)) \<and>
     \<not> (kf_expired f = Some True \<and> \<not> key_expired now r) \<and>
     \<not> (kf_expired f = Some False \<and> key_expired now r)"

definition revoked_record :: "timestamp \<Rightarrow> string \<Rightarrow> string \<Rightarrow> ApiKeyRecord \<Rightarrow> ApiKeyRecord" where
  "revoked_record now who why r =
     r\<lparr>ak_revokedAt := Some now, ak_revokedBy := Some who, ak_revokedReason := Some why\<rparr>"

definition InMemoryApiKeyRepository :: "key_maps ApiKeyRepository" where
  "InMemoryApiKeyRepository =
     \<lparr>kr_create = (\<lambda>s d. Inr (s\<lparr>km_records := jm_set (km_records s) (ak_id d) d,
                              km_lookup := jm_set (km_lookup s) (ak_lookupHash d) (ak_id d)\<rparr>)),
      kr_get = (\<lambda>s i. jm_get (km_records s) i),
      kr_list = (\<lambda>now s f. filter (key_filter now f) (jm_values (km_records s))),
      kr_findByLookupHash = (\<lambda>s h. let i = jm_get (km_lookup s) h
         in if js_truthy i then jm_get (km_records s) (the i) else None),
      kr_updateLastUsed = (\<lambda>now s i. case jm_get (km_records s) i of None \<Rightarrow> s
         | Some r \<Rightarrow> s\<lparr>km_records := jm_set (km_records s) i (r\<lparr>ak_lastUsedAt := Some now\<rparr>)\<rparr>),
      kr_revoke = (\<lambda>now s i who why. case jm_get (km_records s) i of None \<Rightarrow> (s, None)
         | Some r \<Rightarrow> let r' = revoked_record now who why r
                    in (s\<lparr>km_records := jm_set (km_records s) i r'\<rparr>, Some r')),
      kr_count = (\<lambda>s. length (km_records s))\<rparr>"

text \<open>The SQLite repository: its conditions are collected into one conjunction.\<close>

definition sql_active :: "timestamp \<Rightarrow> ApiKeyRecord \<Rightarrow> bool" where
  "sql_active now r = (case ak_expiresAt r of None \<Rightarrow> True | Some t \<Rightarrow> now < t)"

definition sql_key_conditions :: "timestamp \<Rightarrow> ApiKeyListFilters \<Rightarrow> (ApiKeyRecord \<Rightarrow> bool) list" where
  "sql_key_conditions now f =
     (case kf_role f of None \<Rightarrow> [] | Some role \<Rightarrow> [\<lambda>r. ak_role r = role]) @
     (case kf_revoked f of None \<Rightarrow> [] | Some True \<Rightarrow> [\<lambda>r. ak_revokedAt r \<noteq> None]
      | Some False \<Rightarrow> [\<lambda>r. ak_revokedAt r = None]) @
     (case kf_expired f of None \<Rightarrow> []
      | Some True \<Rightarrow> [\<lambda>r. case ak_expiresAt r of None \<Rightarrow> False | Some t \<Rightarrow> t < now]
      | Some False \<Rightarrow> [sql_active now])"

definition sql_update :: "('r \<Rightarrow> bool) \<Rightarrow> ('r \<Rightarrow> 'r) \<Rightarrow> 'r list \<Rightarrow> 'r list" where
  "sql_update cond upd rows = map (\<lambda>r. if cond r then upd r else r) rows"

definition unique_violation :: exn where
  "unique_violation = Error ''UNIQUE constraint failed''"

definition SqliteApiKeyRepository :: "ApiKeyRecord list ApiKeyRepository" where
  "SqliteApiKeyRepository =
     \<lparr>kr_create = (\<lambda>s d. if list_ex (\<lambda>r. ak_id r = ak_id d \<or> ak_lookupHash r = ak_lookupHash d) s
                          then Inl unique_violation else Inr (s @ [d])),
      kr_get = (\<lambda>s i. find (\<lambda>r. ak_id r = i) s),
      kr_list = (\<lambda>now s f. sort_key ak_createdAt (filter (\<lambda>r. list_all (\<lambda>c. c r) (sql_key_conditions now f)) s)),
      kr_findByLookupHash = (\<lambda>s h. find (\<lambda>r. ak_lookupHash r = h) s),
      kr_updateLastUsed = (\<lambda>now s i. sql_update (\<lambda>r. ak_id r = i) (\<lambda>r. r\<lparr>ak_lastUsedAt := Some now\<rparr>) s),
      kr_revoke = (\<lambda>now s i who why.
         let s' = sql_update (\<lambda>r. ak_id r = i) (revoked_record now who why) s
         in (s', find (\<lambda>r. ak_id r = i) s')),
      kr_count = length\<rparr>"

section \<open>The service\<close>

definition sanitizeApiKey :: "ApiKeyRecord \<Rightarrow> AuthenticatedApiKey" where
  "sanitizeApiKey r =
     \<lparr>au_id = ak_id r, au_name = ak_name r, au_role = ak_role r, au_createdBy = ak_createdBy r,
      au_createdAt = ak_createdAt r, au_expiresAt = ak_expiresAt r, au_lastUsedAt = ak_lastUsedAt r,
      au_revokedAt = ak_revokedAt r, au_revokedBy = ak_revokedBy r, au_revokedReason = ak_revokedReason r\<rparr>"

record CreateManagedApiKeyInput =
  ci_name :: string
  ci_role :: ApiKeyRole
  ci_createdBy :: ident
  ci_expiresAt :: "timestamp option"

record AuthenticationFailure =
  af_error :: string
  af_message :: string

definition unauthorized :: "string \<Rightarrow> AuthenticationFailure" where
  "unauthorized m = \<lparr>af_error = ''UNAUTHORIZED'', af_message = m\<rparr>"

definition new_key_record ::
    "(string \<Rightarrow> string) \<Rightarrow> (string \<Rightarrow> string \<Rightarrow> string) \<Rightarrow> ident \<Rightarrow> string \<Rightarrow> timestamp \<Rightarrow> string
     \<Rightarrow> CreateManagedApiKeyInput \<Rightarrow> ApiKeyRecord" where
  "new_key_record sha bhash uuid salt now rawKey input =
     \<lparr>ak_id = uuid, ak_lookupHash = sha rawKey, ak_keyHash = bhash salt rawKey, ak_name = ci_name input,
      ak_role = ci_role input, ak_createdBy = ci_createdBy input, ak_createdAt = now,
      ak_expiresAt = ci_expiresAt input, ak_lastUsedAt = None, ak_revokedAt = None, ak_revokedBy = None,
      ak_revokedReason = None\<rparr>"

definition createApiKey ::
    "'s ApiKeyRepository \<Rightarrow> (string \<Rightarrow> string) \<Rightarrow> (string \<Rightarrow> string \<Rightarrow> string) \<Rightarrow> 8 word list \<Rightarrow> ident \<Rightarrow> string
     \<Rightarrow> timestamp \<Rightarrow> 's \<Rightarrow> CreateManagedApiKeyInput \<Rightarrow> ('s \<times> AuthenticatedApiKey \<times> string) result" where
  "createApiKey R sha bhash rnd uuid salt now s input =
     (let rawKey = generateApiKey rnd;
          record = new_key_record sha bhash uuid salt now rawKey input
      in case kr_create R s record of
           Inl e \<Rightarrow> Inl e
         | Inr s' \<Rightarrow> Inr (s', sanitizeApiKey record, rawKey))"

definition authenticateApiKey ::
    "'s ApiKeyRepository \<Rightarrow> (string \<Rightarrow> string) \<Rightarrow> (string \<Rightarrow> string \<Rightarrow> bool) \<Rightarrow> timestamp \<Rightarrow> 's \<Rightarrow> string
     \<Rightarrow> AuthenticationFailure + AuthenticatedApiKey" where
  "authenticateApiKey R sha bcompare now s rawKey =
     (if \<not> isValidApiKeyFormat rawKey then Inl (unauthorized ''Invalid API key format'')
      else (case kr_findByLookupHash R s (sha rawKey) of
              None \<Rightarrow> Inl (unauthorized ''API key not found'')
            | Some r \<Rightarrow>
                if \<not> bcompare rawKey (ak_keyHash r) then Inl (unauthorized ''API key not found'')
                else if js_truthy (ak_revokedAt r) then Inl (unauthorized ''API key has been revoked'')
                else if key_expired now r then Inl (unauthorized ''API key has expired'')
                else Inr (sanitizeApiKey r)))"

definition getApiKey :: "'s ApiKeyRepository \<Rightarrow> 's \<Rightarrow> ident \<Rightarrow> AuthenticatedApiKey option" where
  "getApiKey R s i = map_option sanitizeApiKey (kr_get R s i)"

definition listApiKeys ::
    "'s ApiKeyRepository \<Rightarrow> timestamp \<Rightarrow> 's \<Rightarrow> ApiKeyListFilters \<Rightarrow> AuthenticatedApiKey list" where
  "listApiKeys R now s f = map sanitizeApiKey (kr_list R now s f)"

definition revokeApiKey ::
    "'s ApiKeyRepository \<Rightarrow> timestamp \<Rightarrow> 's \<Rightarrow> ident \<Rightarrow> string \<Rightarrow> string \<Rightarrow> 's \<times> AuthenticatedApiKey option" where
  "revokeApiKey R now s i who why =
     (let (s', r) = kr_revoke R now s i who why in (s', map_option sanitizeApiKey r))"

definition ensureBootstrapAdminKey ::
    "'s ApiKeyRepository \<Rightarrow> (string \<Rightarrow> string) \<Rightarrow> (string \<Rightarrow> string \<Rightarrow> string) \<Rightarrow> 8 word list \<Rightarrow> ident \<Rightarrow> string
     \<Rightarrow> timestamp \<Rightarrow> 's \<Rightarrow> ('s \<times> string option) result" where
  "ensureBootstrapAdminKey R sha bhash rnd uuid salt now s =
     (if kr_count R s > 0 then Inr (s, None)
      else (case createApiKey R sha bhash rnd uuid salt now s
                   \<lparr>ci_name = ''Bootstrap Admin Key'', ci_role = RoleAdmin, ci_createdBy = ''system'',
                    ci_expiresAt = None\<rparr> of
              Inl e \<Rightarrow> Inl e
            | Inr (s', _, rawKey) \<Rightarrow> Inr (s', Some rawKey)))"

section \<open>Generated keys have the accepted format\<close>

lemma length_alphabet [simp]: "length BASE62_ALPHABET = 62"
  by (simp add: BASE62_ALPHABET_def)

lemma alphabet_alnum: "i < 62 \<Longrightarrow> is_alnum (BASE62_ALPHABET ! i)"
proof -
  have "list_all is_alnum BASE62_ALPHABET" by code_simp
  then show "i < 62 \<Longrightarrow> is_alnum (BASE62_ALPHABET ! i)" by (simp add: list_all_length)
qed

lemma alphabet_distinct: "distinct BASE62_ALPHABET"
  by code_simp

lemma digits_step: "v \<noteq> 0 \<Longrightarrow> base62_digits v acc = base62_digits (v div 62) (BASE62_ALPHABET ! (v mod 62) # acc)"
  by (simp add: base62_digits.simps [of v])

lemma digits_append: "base62_digits v acc = base62_digits v [] @ acc"
proof (induction v arbitrary: acc rule: less_induct)
  case (less v)
  show ?case
  proof (cases "v = 0")
    case False
    then have "v div 62 < v" by simp
    from less [OF this, of "BASE62_ALPHABET ! (v mod 62) # acc"] less [OF this, of "[BASE62_ALPHABET ! (v mod 62)]"]
    show ?thesis using False by (simp add: digits_step)
  qed (simp add: base62_digits.simps)
qed

lemma digits_snoc:
  assumes "v \<noteq> 0"
  shows "base62_digits v [] = base62_digits (v div 62) [] @ [BASE62_ALPHABET ! (v mod 62)]"
  using assms digits_append [of "v div 62" "[BASE62_ALPHABET ! (v mod 62)]"] by (simp add: digits_step)

lemma digits_zero [simp]: "base62_digits 0 acc = acc"
  by (simp add: base62_digits.simps)

lemma digits_alnum: "list_all is_alnum (base62_digits v [])"
proof (induction v rule: less_induct)
  case (less v)
  show ?case
  proof (cases "v = 0")
    case False
    then have "v div 62 < v" by simp
    with less False show ?thesis by (simp add: digits_snoc alphabet_alnum)
  qed simp
qed

lemma digits_length: "v < 62 ^ n \<Longrightarrow> length (base62_digits v []) \<le> n"
proof (induction n arbitrary: v)
  case (Suc n)
  show ?case
  proof (cases "v = 0")
    case False
    from Suc.prems have "v div 62 < 62 ^ n" by (simp add: less_mult_imp_div_less mult.commute)
    with Suc.IH False show ?thesis by (simp add: digits_snoc)
  qed simp
qed simp

lemma buffer_value_bound: "buffer_value bs < 256 ^ length bs"
proof (induction bs rule: rev_induct)
  case (snoc b bs)
  have "unat b < 256" using unsigned_less [of b, where ?'a = nat] by simp
  with snoc show ?case by (simp add: buffer_value_def)
qed (simp add: buffer_value_def)

text \<open>A key body is long enough for every buffer of 32 bytes: \<open>2^256 < 62^43\<close>.\<close>

lemma body_length: "length bs = 32 \<Longrightarrow> length (base62_digits (buffer_value bs) []) \<le> API_KEY_BODY_LENGTH"
proof -
  assume "length bs = 32"
  then have "buffer_value bs < 256 ^ 32" using buffer_value_bound [of bs] by simp
  also have "(256 :: nat) ^ 32 \<le> 62 ^ 43" by simp
  finally show ?thesis by (simp add: digits_length API_KEY_BODY_LENGTH_def)
qed

lemma base62Encode_padded:
  "base62Encode bs = padStart API_KEY_BODY_LENGTH CHR ''0'' (base62_digits (buffer_value bs) [])"
  by (simp add: base62Encode_def Let_def padStart_def API_KEY_BODY_LENGTH_def numeral_eq_Suc)

text \<open>Reading a key body back as a number.\<close>

definition base62_index :: "char \<Rightarrow> nat" where
  "base62_index c = length (takeWhile (\<lambda>d. d \<noteq> c) BASE62_ALPHABET)"

definition base62_value :: "string \<Rightarrow> nat" where
  "base62_value s = foldl (\<lambda>acc c. acc * 62 + base62_index c) 0 s"

lemma base62_index_nth: "i < 62 \<Longrightarrow> base62_index (BASE62_ALPHABET ! i) = i"
proof -
  assume i: "i < 62"
  have "takeWhile (\<lambda>d. d \<noteq> BASE62_ALPHABET ! i) BASE62_ALPHABET = take i BASE62_ALPHABET"
  proof (rule takeWhile_eq_take_P_nth)
    fix j assume "j < i" "j < length BASE62_ALPHABET"
    then show "BASE62_ALPHABET ! j \<noteq> BASE62_ALPHABET ! i"
      using i alphabet_distinct by (simp add: nth_eq_iff_index_eq)
  qed simp
  then show ?thesis using i by (simp add: base62_index_def)
qed

lemma base62_value_digits: "base62_value (base62_digits v []) = v"
proof (induction v rule: less_induct)
  case (less v)
  show ?case
  proof (cases "v = 0")
    case False
    then have "v div 62 < v" by simp
    with less False show ?thesis by (simp add: digits_snoc base62_value_def base62_index_nth)
  qed (simp add: base62_value_def)
qed

lemma base62_value_padding: "base62_value (replicate n CHR ''0'' @ s) = base62_value s"
proof (induction n)
  case (Suc n)
  have "base62_index CHR ''0'' = 0" by (simp add: base62_index_def BASE62_ALPHABET_def)
  with Suc show ?case by (simp add: base62_value_def)
qed simp

lemma generated_key_valid_plain: "length rnd = 32 \<Longrightarrow> isValidApiKeyFormat (generateApiKey rnd)"
proof -
  assume len: "length rnd = 32"
  have "list_all is_alnum (base62Encode rnd)"
    using digits_alnum [of "buffer_value rnd"]
    by (auto simp: base62Encode_padded padStart_def list_all_iff is_alnum_def)
  moreover have "length (base62Encode rnd) = API_KEY_BODY_LENGTH"
    using body_length [OF len] by (simp add: base62Encode_padded padStart_def)
  ultimately show ?thesis
    by (simp add: isValidApiKeyFormat_def generateApiKey_def js_startsWith_def)
qed

section \<open>Properties of keys\<close>

text \<open>
  Every key generated from 32 random bytes has the format the service accepts, whatever the
  bytes are: the prefix, exactly 43 characters, all alphanumeric.
\<close>

theorem generated_key_valid:
  assumes "length rnd = 32"
  shows "isValidApiKeyFormat (generateApiKey rnd)"
  using assms by (rule generated_key_valid_plain)

theorem generated_key_valid_witness: "isValidApiKeyFormat (generateApiKey (replicate 32 255))"
  by (rule generated_key_valid) simp

text \<open>
  Key generation loses nothing of the randomness: the key body, read in base 62, is the number
  the random bytes denote.
\<close>

theorem key_body_roundtrip: "base62_value (drop (length API_KEY_PREFIX) (generateApiKey rnd)) = buffer_value rnd"
  by (simp add: generateApiKey_def base62Encode_padded padStart_def base62_value_padding base62_value_digits)

section \<open>Sequences of operations\<close>

datatype key_op =
  KeyCreate ApiKeyRecord
| KeyTouch timestamp ident
| KeyRevoke timestamp ident string string

fun apply_key_op :: "'s ApiKeyRepository \<Rightarrow> key_op \<Rightarrow> 's \<Rightarrow> 's result" where
  "apply_key_op R (KeyCreate r) s = kr_create R s r"
| "apply_key_op R (KeyTouch now i) s = Inr (kr_updateLastUsed R now s i)"
| "apply_key_op R (KeyRevoke now i who why) s = Inr (fst (kr_revoke R now s i who why))"

fun run_key_ops :: "'s ApiKeyRepository \<Rightarrow> key_op list \<Rightarrow> 's \<Rightarrow> 's result" where
  "run_key_ops R [] s = Inr s"
| "run_key_ops R (k # ks) s = (case apply_key_op R k s of Inl e \<Rightarrow> Inl e | Inr s' \<Rightarrow> run_key_ops R ks s')"

text \<open>
  Every created record has an identifier and a hash that no earlier record of the sequence has: the
  identifiers are random and the hashes those of random keys. Times are not empty.
\<close>

fun fresh_key_ops :: "key_op list \<Rightarrow> ident list \<Rightarrow> string list \<Rightarrow> bool" where
  "fresh_key_ops [] ids hs \<longleftrightarrow> True"
| "fresh_key_ops (KeyCreate r # ks) ids hs \<longleftrightarrow>
     ak_id r \<noteq> [] \<and> ak_id r \<notin> set ids \<and> ak_lookupHash r \<notin> set hs
     \<and> fresh_key_ops ks (ak_id r # ids) (ak_lookupHash r # hs)"
| "fresh_key_ops (KeyTouch now i # ks) ids hs \<longleftrightarrow> fresh_key_ops ks ids hs"
| "fresh_key_ops (KeyRevoke now i who why # ks) ids hs \<longleftrightarrow> now \<noteq> [] \<and> fresh_key_ops ks ids hs"

fun op_ids :: "key_op list \<Rightarrow> ident list \<Rightarrow> ident list" where
  "op_ids [] ids = ids"
| "op_ids (k # ks) ids = op_ids ks (case k of KeyCreate r \<Rightarrow> ak_id r # ids | _ \<Rightarrow> ids)"

fun op_hashes :: "key_op list \<Rightarrow> string list \<Rightarrow> string list" where
  "op_hashes [] hs = hs"
| "op_hashes (k # ks) hs = op_hashes ks (case k of KeyCreate r \<Rightarrow> ak_lookupHash r # hs | _ \<Rightarrow> hs)"

lemma fresh_key_ops_append:
  "fresh_key_ops (ks @ ks') ids hs \<longleftrightarrow> fresh_key_ops ks ids hs \<and> fresh_key_ops ks' (op_ids ks ids) (op_hashes ks hs)"
  by (induction ks ids hs rule: fresh_key_ops.induct) auto

lemma run_key_ops_append:
  "run_key_ops R (ks @ ks') s = (case run_key_ops R ks s of Inl e \<Rightarrow> Inl e | Inr s' \<Rightarrow> run_key_ops R ks' s')"
  by (induction ks arbitrary: s) (auto split: sum.splits)

section \<open>The contract of a key repository\<close>

definition touched :: "timestamp \<Rightarrow> ident \<Rightarrow> ApiKeyRecord \<Rightarrow> ApiKeyRecord" where
  "touched now i r = (if ak_id r = i then r\<lparr>ak_lastUsedAt := Some now\<rparr> else r)"

definition revoked :: "timestamp \<Rightarrow> ident \<Rightarrow> string \<Rightarrow> string \<Rightarrow> ApiKeyRecord \<Rightarrow> ApiKeyRecord" where
  "revoked now i who why r = (if ak_id r = i then revoked_record now who why r else r)"

locale key_repository =
  fixes R :: "'s ApiKeyRepository" and ok :: "'s \<Rightarrow> bool"
  assumes create_law:
      "ok s \<Longrightarrow> kr_get R s (ak_id r) = None \<Longrightarrow> kr_findByLookupHash R s (ak_lookupHash r) = None \<Longrightarrow> ak_id r \<noteq> [] \<Longrightarrow>
       \<exists>s'. kr_create R s r = Inr s' \<and> ok s' \<and> kr_count R s' = Suc (kr_count R s)
         \<and> (\<forall>i. kr_get R s' i = (if i = ak_id r then Some r else kr_get R s i))
         \<and> (\<forall>h. kr_findByLookupHash R s' h = (if h = ak_lookupHash r then Some r else kr_findByLookupHash R s h))"
    and touch_law:
      "ok s \<Longrightarrow> ok (kr_updateLastUsed R now s i)
         \<and> kr_get R (kr_updateLastUsed R now s i) j = map_option (touched now i) (kr_get R s j)
         \<and> kr_findByLookupHash R (kr_updateLastUsed R now s i) h
             = map_option (touched now i) (kr_findByLookupHash R s h)"
    and revoke_law:
      "ok s \<Longrightarrow> kr_revoke R now s i who why = (s', res) \<Longrightarrow> ok s' \<and> res = kr_get R s' i
         \<and> kr_get R s' j = map_option (revoked now i who why) (kr_get R s j)
         \<and> kr_findByLookupHash R s' h = map_option (revoked now i who why) (kr_findByLookupHash R s h)"
    and find_law: "ok s \<Longrightarrow> kr_findByLookupHash R s h = Some r \<Longrightarrow> ak_lookupHash r = h \<and> kr_get R s (ak_id r) = Some r"
    and get_law: "ok s \<Longrightarrow> kr_get R s i = Some r \<Longrightarrow> ak_id r = i \<and> kr_findByLookupHash R s (ak_lookupHash r) = Some r"
    and count_law: "ok s \<Longrightarrow> kr_count R s = 0 \<longleftrightarrow> (\<forall>i. kr_get R s i = None)"
begin

lemma authenticate_iff:
  "authenticateApiKey R sha bcompare now s raw = Inr k \<longleftrightarrow>
   isValidApiKeyFormat raw \<and>
   (\<exists>r. kr_findByLookupHash R s (sha raw) = Some r \<and> bcompare raw (ak_keyHash r)
     \<and> \<not> js_truthy (ak_revokedAt r) \<and> \<not> key_expired now r \<and> k = sanitizeApiKey r)"
  by (auto simp: authenticateApiKey_def split: option.splits)

lemma create_then_authenticate:
  assumes "ok s" and "length rnd = 32" and "uuid \<noteq> []"
    and fresh: "kr_get R s uuid = None" "kr_findByLookupHash R s (sha (generateApiKey rnd)) = None"
    and compare: "\<And>salt v. bcompare v (bhash salt v)"
    and live: "\<forall>t. ci_expiresAt input = Some t \<longrightarrow> \<not> t < now'"
  shows "\<exists>s' k raw. createApiKey R sha bhash rnd uuid salt now s input = Inr (s', k, raw) \<and> ok s'
    \<and> authenticateApiKey R sha bcompare now' s' raw = Inr k \<and> au_id k = uuid \<and> au_role k = ci_role input"
proof -
  let ?raw = "generateApiKey rnd"
  let ?r = "new_key_record sha bhash uuid salt now ?raw input"
  obtain s' where s': "kr_create R s ?r = Inr s'" "ok s'" "kr_findByLookupHash R s' (sha ?raw) = Some ?r"
    using create_law [of s ?r] assms by (auto simp: new_key_record_def)
  have "authenticateApiKey R sha bcompare now' s' ?raw = Inr (sanitizeApiKey ?r)"
    using s'(3) generated_key_valid_plain [OF assms(2)] compare live
    by (auto simp: authenticate_iff new_key_record_def key_expired_def split: option.splits)
  with s' show ?thesis by (auto simp: createApiKey_def Let_def sanitizeApiKey_def new_key_record_def)
qed

text \<open>The operations of the gateway on the keys; a created record has a fresh identifier and hash.\<close>

inductive key_step :: "'s \<Rightarrow> 's \<Rightarrow> bool" where
  step_create: "kr_create R s r = Inr s' \<Longrightarrow> kr_get R s (ak_id r) = None \<Longrightarrow>
    kr_findByLookupHash R s (ak_lookupHash r) = None \<Longrightarrow> ak_id r \<noteq> [] \<Longrightarrow> key_step s s'"
| step_touch: "key_step s (kr_updateLastUsed R now s i)"
| step_revoke: "now \<noteq> [] \<Longrightarrow> key_step s (fst (kr_revoke R now s i who why))"

lemma key_step_ok: "key_step s s' \<Longrightarrow> ok s \<Longrightarrow> ok s'"
proof (induction rule: key_step.induct)
  case (step_create s r s')
  with create_law [of s r] show ?case by auto
next
  case (step_revoke now s i who why)
  then show ?case using revoke_law [of s now i who why] by (metis prod.collapse)
qed (simp add: touch_law)

lemma key_step_revoked:
  assumes "key_step s s'" and "ok s" and "kr_findByLookupHash R s h = Some r" and "js_truthy (ak_revokedAt r)"
  shows "\<exists>r'. kr_findByLookupHash R s' h = Some r' \<and> ak_id r' = ak_id r \<and> js_truthy (ak_revokedAt r')"
  using assms
proof (induction rule: key_step.induct)
  case (step_create s d s')
  with create_law [of s d] show ?case by auto
next
  case (step_touch s now i)
  then show ?case using touch_law [of s now i _ h] by (auto simp: touched_def)
next
  case (step_revoke now s i who why)
  obtain s2 res where rv: "kr_revoke R now s i who why = (s2, res)" by fastforce
  from revoke_law [OF step_revoke(2) rv] step_revoke rv show ?case
    by (auto simp: revoked_def revoked_record_def)
qed

lemma revoked_for_ever:
  assumes "key_step\<^sup>*\<^sup>* s s'" and "ok s" and "kr_findByLookupHash R s (sha raw) = Some r" and "js_truthy (ak_revokedAt r)"
  shows "\<exists>e. authenticateApiKey R sha bcompare now s' raw = Inl e"
proof -
  have "ok s' \<and> (\<exists>r'. kr_findByLookupHash R s' (sha raw) = Some r' \<and> js_truthy (ak_revokedAt r'))"
    using assms by (induction rule: rtranclp_induct) (use key_step_revoked key_step_ok in blast)+
  then show ?thesis by (auto simp: authenticateApiKey_def)
qed

text \<open>The identifiers and hashes a store holds are among those given.\<close>

definition within :: "'s \<Rightarrow> ident list \<Rightarrow> string list \<Rightarrow> bool" where
  "within s ids hs \<longleftrightarrow> ok s \<and> (\<forall>i. kr_get R s i \<noteq> None \<longrightarrow> i \<in> set ids)
     \<and> (\<forall>h. kr_findByLookupHash R s h \<noteq> None \<longrightarrow> h \<in> set hs)"

lemma op_is_step:
  assumes "within s ids hs" and "fresh_key_ops (k # ks) ids hs" and "apply_key_op R k s = Inr s'"
  shows "key_step s s' \<and> within s' (op_ids [k] ids) (op_hashes [k] hs)
    \<and> fresh_key_ops ks (op_ids [k] ids) (op_hashes [k] hs)"
proof (cases k)
  case (KeyCreate r)
  with assms have "kr_get R s (ak_id r) = None" "kr_findByLookupHash R s (ak_lookupHash r) = None"
    unfolding within_def by auto
  with assms KeyCreate create_law [of s r] step_create [of s r s'] show ?thesis
    by (auto simp: within_def)
next
  case (KeyTouch now i)
  with assms touch_law [of s now i] step_touch [of s now i] show ?thesis by (auto simp: within_def)
next
  case (KeyRevoke now i who why)
  obtain s2 res where rv: "kr_revoke R now s i who why = (s2, res)" by fastforce
  have "ok s" using assms(1) by (simp add: within_def)
  with KeyRevoke assms revoke_law [OF _ rv] step_revoke [of now s i who why] rv show ?thesis
    by (auto simp: within_def)
qed

lemma run_is_steps:
  "within s ids hs \<Longrightarrow> fresh_key_ops ks ids hs \<Longrightarrow> run_key_ops R ks s = Inr s' \<Longrightarrow>
   key_step\<^sup>*\<^sup>* s s' \<and> within s' (op_ids ks ids) (op_hashes ks hs)"
proof (induction ks arbitrary: s ids hs)
  case (Cons k ks)
  then obtain s1 where s1: "apply_key_op R k s = Inr s1" and run: "run_key_ops R ks s1 = Inr s'"
    by (auto split: sum.splits)
  from op_is_step [OF Cons.prems(1,2) s1] Cons.IH [of s1 "op_ids [k] ids" "op_hashes [k] hs"] run
  show ?case by (auto intro: converse_rtranclp_into_rtranclp)
qed simp

lemma revoked_in_run:
  assumes "within s ids hs" and "fresh_key_ops (ks @ KeyRevoke now i who why # ks') ids hs"
    and "run_key_ops R ks s = Inr s0" and "kr_findByLookupHash R s0 (sha raw) = Some r" and "ak_id r = i"
    and "run_key_ops R (ks @ KeyRevoke now i who why # ks') s = Inr s'"
  shows "\<exists>e. authenticateApiKey R sha bcompare time s' raw = Inl e"
proof -
  have fresh: "fresh_key_ops ks ids hs" "now \<noteq> []" "fresh_key_ops ks' (op_ids ks ids) (op_hashes ks hs)"
    using assms(2) by (auto simp: fresh_key_ops_append)
  have w0: "within s0 (op_ids ks ids) (op_hashes ks hs)" using run_is_steps [OF assms(1) fresh(1) assms(3)] by simp
  obtain s1 res where rv: "kr_revoke R now s0 i who why = (s1, res)" by fastforce
  have ok0: "ok s0" using w0 by (simp add: within_def)
  have find1: "kr_findByLookupHash R s1 (sha raw) = Some (revoked now i who why r)"
    using revoke_law [OF ok0 rv] assms(4) by simp
  have truthy: "js_truthy (ak_revokedAt (revoked now i who why r))"
    using assms(5) fresh(2) by (simp add: revoked_def revoked_record_def)
  have w1: "within s1 (op_ids ks ids) (op_hashes ks hs)"
    using w0 revoke_law [OF ok0 rv] by (auto simp: within_def)
  have "run_key_ops R ks' s1 = Inr s'"
    using assms(3,6) rv by (simp add: run_key_ops_append)
  from run_is_steps [OF w1 fresh(3) this] have "key_step\<^sup>*\<^sup>* s1 s'" by simp
  from revoked_for_ever [where sha = sha, OF this _ find1 truthy] w1 show ?thesis by (simp add: within_def)
qed

end

section \<open>Both repositories fulfil the contract\<close>

definition key_maps_ok :: "key_maps \<Rightarrow> bool" where
  "key_maps_ok s \<longleftrightarrow>
     (\<forall>i r. jm_get (km_records s) i = Some r \<longrightarrow>
        ak_id r = i \<and> i \<noteq> [] \<and> jm_get (km_lookup s) (ak_lookupHash r) = Some i) \<and>
     (\<forall>h i. jm_get (km_lookup s) h = Some i \<longrightarrow>
        (\<exists>r. jm_get (km_records s) i = Some r \<and> ak_lookupHash r = h))"

lemma maps_record:
  "key_maps_ok s \<Longrightarrow> jm_get (km_records s) i = Some r \<Longrightarrow>
   ak_id r = i \<and> i \<noteq> [] \<and> jm_get (km_lookup s) (ak_lookupHash r) = Some i"
  by (simp add: key_maps_ok_def)

lemma maps_lookup:
  "key_maps_ok s \<Longrightarrow> jm_get (km_lookup s) h = Some i \<Longrightarrow>
   \<exists>r. jm_get (km_records s) i = Some r \<and> ak_lookupHash r = h"
  by (simp add: key_maps_ok_def)

lemma memory_find_unfold:
  "kr_findByLookupHash InMemoryApiKeyRepository s h =
   (case jm_get (km_lookup s) h of None \<Rightarrow> None | Some i \<Rightarrow> if i \<noteq> [] then jm_get (km_records s) i else None)"
  by (simp add: InMemoryApiKeyRepository_def Let_def split: option.splits)

lemma memory_find:
  assumes "key_maps_ok s"
  shows "kr_findByLookupHash InMemoryApiKeyRepository s h = Some r \<longleftrightarrow>
    ak_lookupHash r = h \<and> jm_get (km_records s) (ak_id r) = Some r"
proof
  assume "kr_findByLookupHash InMemoryApiKeyRepository s h = Some r"
  then obtain i where i: "jm_get (km_lookup s) h = Some i" "jm_get (km_records s) i = Some r"
    by (auto simp: memory_find_unfold split: option.splits if_splits)
  with maps_lookup [OF assms i(1)] maps_record [OF assms i(2)]
  show "ak_lookupHash r = h \<and> jm_get (km_records s) (ak_id r) = Some r" by simp
next
  assume r: "ak_lookupHash r = h \<and> jm_get (km_records s) (ak_id r) = Some r"
  with maps_record [OF assms, of "ak_id r" r] show "kr_findByLookupHash InMemoryApiKeyRepository s h = Some r"
    by (auto simp: memory_find_unfold)
qed

lemma memory_get: "kr_get InMemoryApiKeyRepository s i = jm_get (km_records s) i"
  by (simp add: InMemoryApiKeyRepository_def)

text \<open>Replacing a stored record by one with the same identifier and hash.\<close>

lemma memory_replace:
  assumes ok: "key_maps_ok s" and at: "jm_get (km_records s) i = Some r"
    and same: "ak_id r' = ak_id r" "ak_lookupHash r' = ak_lookupHash r"
  shows "key_maps_ok (s\<lparr>km_records := jm_set (km_records s) i r'\<rparr>)"
  unfolding key_maps_ok_def
proof (intro conjI allI impI)
  let ?s = "s\<lparr>km_records := jm_set (km_records s) i r'\<rparr>"
  show "ak_id x = j" "j \<noteq> []" "jm_get (km_lookup ?s) (ak_lookupHash x) = Some j"
    if "jm_get (km_records ?s) j = Some x" for j x
    using that maps_record [OF ok at] maps_record [OF ok, of j x] same
    by (auto simp: jm_get_set split: if_splits)
  show "\<exists>x. jm_get (km_records ?s) j = Some x \<and> ak_lookupHash x = h"
    if "jm_get (km_lookup ?s) h = Some j" for h j
  proof -
    from that maps_lookup [OF ok, of h j] obtain x where
      x: "jm_get (km_records s) j = Some x" "ak_lookupHash x = h" by auto
    show ?thesis using x at same by (cases "j = i") (auto simp: jm_get_set)
  qed
qed

lemma memory_replace_find:
  assumes ok: "key_maps_ok s" and at: "jm_get (km_records s) i = Some r"
  shows "kr_findByLookupHash InMemoryApiKeyRepository (s\<lparr>km_records := jm_set (km_records s) i r'\<rparr>) h =
    map_option (\<lambda>x. if ak_id x = i then r' else x) (kr_findByLookupHash InMemoryApiKeyRepository s h)"
proof (cases "jm_get (km_lookup s) h")
  case (Some j)
  then obtain x where x: "jm_get (km_records s) j = Some x" using maps_lookup [OF ok] by blast
  then have "ak_id x = j" "j \<noteq> []" using maps_record [OF ok] by auto
  with Some x show ?thesis by (auto simp: memory_find_unfold jm_get_set)
qed (simp add: memory_find_unfold)

lemma memory_replace_get:
  assumes ok: "key_maps_ok s" and at: "jm_get (km_records s) i = Some r"
  shows "jm_get (jm_set (km_records s) i r') j =
    map_option (\<lambda>x. if ak_id x = i then r' else x) (jm_get (km_records s) j)"
proof (cases "jm_get (km_records s) j")
  case None
  with at have "j \<noteq> i" by auto
  with None show ?thesis by (simp add: jm_get_set)
next
  case (Some x)
  with maps_record [OF ok Some] show ?thesis by (simp add: jm_get_set)
qed

text \<open>A stored record is the only one with its identifier.\<close>

lemma memory_only:
  assumes ok: "key_maps_ok s" and at: "jm_get (km_records s) i = Some r"
  shows "map_option (\<lambda>x. if ak_id x = i then f r else x) (jm_get (km_records s) j)
      = map_option (\<lambda>x. if ak_id x = i then f x else x) (jm_get (km_records s) j)" (is ?get)
    and "map_option (\<lambda>x. if ak_id x = i then f r else x) (kr_findByLookupHash InMemoryApiKeyRepository s h)
      = map_option (\<lambda>x. if ak_id x = i then f x else x) (kr_findByLookupHash InMemoryApiKeyRepository s h)" (is ?find)
proof -
  have only: "x = r" if "jm_get (km_records s) k = Some x" "ak_id x = i" for x k
    using that maps_record [OF ok that(1)] at by simp
  show ?get using only by (cases "jm_get (km_records s) j") auto
  show ?find
  proof (cases "kr_findByLookupHash InMemoryApiKeyRepository s h")
    case (Some x)
    then have "jm_get (km_records s) (ak_id x) = Some x" using memory_find [OF ok] by blast
    with Some only show ?thesis by auto
  qed simp
qed

lemma memory_absent:
  assumes ok: "key_maps_ok s" and none: "jm_get (km_records s) i = None"
  shows "map_option (\<lambda>x. if ak_id x = i then f x else x) (jm_get (km_records s) j) = jm_get (km_records s) j" (is ?get)
    and "map_option (\<lambda>x. if ak_id x = i then f x else x) (kr_findByLookupHash InMemoryApiKeyRepository s h)
      = kr_findByLookupHash InMemoryApiKeyRepository s h" (is ?find)
proof -
  have absent: "ak_id x \<noteq> i" if "jm_get (km_records s) k = Some x" for x k
    using that maps_record [OF ok that] none by auto
  show ?get using absent by (cases "jm_get (km_records s) j") auto
  show ?find
  proof (cases "kr_findByLookupHash InMemoryApiKeyRepository s h")
    case (Some x)
    then have "jm_get (km_records s) (ak_id x) = Some x" using memory_find [OF ok] by blast
    with Some absent show ?thesis by auto
  qed simp
qed

lemma memory_id: "key_maps_ok s \<Longrightarrow> jm_get (km_records s) i = Some r \<Longrightarrow> ak_id r = i"
  by (simp add: key_maps_ok_def)

lemma memory_find_id:
  "key_maps_ok s \<Longrightarrow> kr_findByLookupHash InMemoryApiKeyRepository s h = Some x \<Longrightarrow>
   jm_get (km_records s) (ak_id x) = Some x"
  using memory_find by blast

interpretation memory: key_repository InMemoryApiKeyRepository key_maps_ok
proof unfold_locales
  fix s r i now who why s' res j h
  assume ok: "key_maps_ok s"
  let ?R = InMemoryApiKeyRepository
  show "\<exists>s'. kr_create ?R s r = Inr s' \<and> key_maps_ok s' \<and> kr_count ?R s' = Suc (kr_count ?R s)
      \<and> (\<forall>i. kr_get ?R s' i = (if i = ak_id r then Some r else kr_get ?R s i))
      \<and> (\<forall>h. kr_findByLookupHash ?R s' h = (if h = ak_lookupHash r then Some r else kr_findByLookupHash ?R s h))"
    if fresh: "kr_get ?R s (ak_id r) = None" "kr_findByLookupHash ?R s (ak_lookupHash r) = None" "ak_id r \<noteq> []"
  proof -
    let ?s = "s\<lparr>km_records := jm_set (km_records s) (ak_id r) r,
                km_lookup := jm_set (km_lookup s) (ak_lookupHash r) (ak_id r)\<rparr>"
    have noid: "jm_get (km_records s) (ak_id r) = None" using fresh(1) by (simp add: memory_get)
    have nohash: "jm_get (km_lookup s) (ak_lookupHash r) = None"
    proof (rule ccontr)
      assume "jm_get (km_lookup s) (ak_lookupHash r) \<noteq> None"
      then obtain i x where "jm_get (km_records s) i = Some x" "ak_lookupHash x = ak_lookupHash r"
        using maps_lookup [OF ok] by blast
      with memory_find [OF ok] maps_record [OF ok] fresh(2) show False by (metis option.distinct(1))
    qed
    have ok': "key_maps_ok ?s"
      unfolding key_maps_ok_def
    proof (intro conjI allI impI)
      show "ak_id x = j" "j \<noteq> []" "jm_get (km_lookup ?s) (ak_lookupHash x) = Some j"
        if "jm_get (km_records ?s) j = Some x" for j x
        using that fresh(3) nohash maps_record [OF ok, of j x] by (auto simp: jm_get_set split: if_splits)
      show "\<exists>x. jm_get (km_records ?s) j = Some x \<and> ak_lookupHash x = h"
        if "jm_get (km_lookup ?s) h = Some j" for h j
        using that noid maps_lookup [OF ok, of h j] by (auto simp: jm_get_set split: if_splits)
    qed
    have "kr_findByLookupHash ?R ?s h = (if h = ak_lookupHash r then Some r else kr_findByLookupHash ?R s h)" for h
      using fresh(3) noid maps_lookup [OF ok, of h] by (auto simp: memory_find_unfold jm_get_set split: option.splits)
    moreover have "kr_create ?R s r = Inr ?s" by (simp add: InMemoryApiKeyRepository_def)
    moreover have "kr_count ?R ?s = Suc (kr_count ?R s)"
      using noid by (simp add: InMemoryApiKeyRepository_def jm_set_fresh)
    ultimately show ?thesis using ok' by (intro exI [of _ ?s]) (simp add: memory_get jm_get_set)
  qed
  show "key_maps_ok (kr_updateLastUsed ?R now s i)
      \<and> kr_get ?R (kr_updateLastUsed ?R now s i) j = map_option (touched now i) (kr_get ?R s j)
      \<and> kr_findByLookupHash ?R (kr_updateLastUsed ?R now s i) h
          = map_option (touched now i) (kr_findByLookupHash ?R s h)"
  proof (cases "jm_get (km_records s) i")
    case None
    then have "kr_updateLastUsed ?R now s i = s" by (simp add: InMemoryApiKeyRepository_def)
    with None ok memory_absent [OF ok None] show ?thesis by (simp add: memory_get touched_def [abs_def])
  next
    case (Some r0)
    let ?r = "r0\<lparr>ak_lastUsedAt := Some now\<rparr>"
    have "kr_updateLastUsed ?R now s i = s\<lparr>km_records := jm_set (km_records s) i ?r\<rparr>"
      using Some by (simp add: InMemoryApiKeyRepository_def)
    with memory_replace [OF ok Some, of ?r] memory_replace_find [OF ok Some, of ?r h]
      memory_replace_get [OF ok Some, of ?r j] memory_only [OF ok Some, of "\<lambda>r. r\<lparr>ak_lastUsedAt := Some now\<rparr>"]
    show ?thesis by (simp add: memory_get touched_def [abs_def])
  qed
  show "key_maps_ok s' \<and> res = kr_get ?R s' i
      \<and> kr_get ?R s' j = map_option (revoked now i who why) (kr_get ?R s j)
      \<and> kr_findByLookupHash ?R s' h = map_option (revoked now i who why) (kr_findByLookupHash ?R s h)"
    if rv: "kr_revoke ?R now s i who why = (s', res)"
  proof (cases "jm_get (km_records s) i")
    case None
    with rv have "s' = s" "res = None" by (auto simp: InMemoryApiKeyRepository_def)
    with None ok memory_absent [OF ok None] show ?thesis by (simp add: memory_get revoked_def [abs_def])
  next
    case (Some r0)
    let ?r = "revoked_record now who why r0"
    have upd: "s' = s\<lparr>km_records := jm_set (km_records s) i ?r\<rparr>" "res = Some ?r"
      using Some rv by (auto simp: InMemoryApiKeyRepository_def Let_def)
    have "ak_id ?r = ak_id r0" "ak_lookupHash ?r = ak_lookupHash r0" by (simp_all add: revoked_record_def)
    with upd memory_replace [OF ok Some, of ?r] memory_replace_find [OF ok Some, of ?r h]
      memory_replace_get [OF ok Some, of ?r j] memory_only [OF ok Some, of "revoked_record now who why"]
    show ?thesis by (simp add: memory_get revoked_def [abs_def] jm_get_set)
  qed
  show "ak_lookupHash r = h \<and> kr_get ?R s (ak_id r) = Some r" if "kr_findByLookupHash ?R s h = Some r"
    using that memory_find [OF ok] by (simp add: memory_get)
  show "ak_id r = i \<and> kr_findByLookupHash ?R s (ak_lookupHash r) = Some r" if "kr_get ?R s i = Some r"
    using that memory_find [OF ok] memory_id [OF ok] by (auto simp: memory_get)
  show "kr_count ?R s = 0 \<longleftrightarrow> (\<forall>i. kr_get ?R s i = None)"
    by (cases "km_records s") (auto simp: InMemoryApiKeyRepository_def)
qed

definition key_rows_ok :: "ApiKeyRecord list \<Rightarrow> bool" where
  "key_rows_ok s \<longleftrightarrow> distinct (map ak_id s) \<and> distinct (map ak_lookupHash s) \<and> [] \<notin> set (map ak_id s)"

lemma find_unique:
  "distinct (map f s) \<Longrightarrow> find (\<lambda>r. f r = k) s = Some r \<longleftrightarrow> r \<in> set s \<and> f r = k"
  by (induction s) (auto simp: image_iff)

lemma find_None_key: "find (\<lambda>r. f r = k) s = None \<longleftrightarrow> k \<notin> f ` set s"
  by (auto simp: find_None_iff)

lemma find_sql_update:
  assumes "\<And>r. f (upd r) = f r"
  shows "find (\<lambda>r. f r = k) (sql_update cond upd s) = map_option (\<lambda>r. if cond r then upd r else r) (find (\<lambda>r. f r = k) s)"
  using assms by (induction s) (auto simp: sql_update_def)

lemma rows_ok_update:
  assumes "\<And>r. ak_id (upd r) = ak_id r" "\<And>r. ak_lookupHash (upd r) = ak_lookupHash r"
  shows "key_rows_ok (sql_update cond upd s) \<longleftrightarrow> key_rows_ok s"
proof -
  have "map ak_id (sql_update cond upd s) = map ak_id s" "map ak_lookupHash (sql_update cond upd s) = map ak_lookupHash s"
    using assms by (auto simp: sql_update_def)
  then show ?thesis by (simp only: key_rows_ok_def)
qed

lemma find_snoc: "find P (s @ [r]) = (case find P s of Some x \<Rightarrow> Some x | None \<Rightarrow> if P r then Some r else None)"
  by (induction s) auto

interpretation sqlite: key_repository SqliteApiKeyRepository key_rows_ok
proof unfold_locales
  fix s r i now who why s' res j h
  assume ok: "key_rows_ok s"
  let ?R = SqliteApiKeyRepository
  note sql = SqliteApiKeyRepository_def
  show "\<exists>s'. kr_create ?R s r = Inr s' \<and> key_rows_ok s' \<and> kr_count ?R s' = Suc (kr_count ?R s)
      \<and> (\<forall>i. kr_get ?R s' i = (if i = ak_id r then Some r else kr_get ?R s i))
      \<and> (\<forall>h. kr_findByLookupHash ?R s' h = (if h = ak_lookupHash r then Some r else kr_findByLookupHash ?R s h))"
    if "kr_get ?R s (ak_id r) = None" "kr_findByLookupHash ?R s (ak_lookupHash r) = None" "ak_id r \<noteq> []"
  proof (intro exI [of _ "s @ [r]"] conjI allI)
    have fresh: "ak_id r \<notin> ak_id ` set s" "ak_lookupHash r \<notin> ak_lookupHash ` set s"
      using that by (auto simp: sql find_None_key)
    then have "\<not> list_ex (\<lambda>x. ak_id x = ak_id r \<or> ak_lookupHash x = ak_lookupHash r) s"
      by (auto simp: list_ex_iff image_iff)
    then show "kr_create ?R s r = Inr (s @ [r])" by (simp add: sql)
    show "key_rows_ok (s @ [r])" using ok fresh that(3) by (auto simp: key_rows_ok_def)
    show "kr_get ?R (s @ [r]) i = (if i = ak_id r then Some r else kr_get ?R s i)" for i
      using that(1) by (auto simp: sql find_snoc split: option.splits)
    show "kr_findByLookupHash ?R (s @ [r]) h = (if h = ak_lookupHash r then Some r else kr_findByLookupHash ?R s h)" for h
      using that(2) by (auto simp: sql find_snoc split: option.splits)
  qed (simp add: sql)
  show "key_rows_ok (kr_updateLastUsed ?R now s i)
      \<and> kr_get ?R (kr_updateLastUsed ?R now s i) j = map_option (touched now i) (kr_get ?R s j)
      \<and> kr_findByLookupHash ?R (kr_updateLastUsed ?R now s i) h = map_option (touched now i) (kr_findByLookupHash ?R s h)"
    using ok by (simp add: sql rows_ok_update find_sql_update touched_def [abs_def])
  show "key_rows_ok s' \<and> res = kr_get ?R s' i
      \<and> kr_get ?R s' j = map_option (revoked now i who why) (kr_get ?R s j)
      \<and> kr_findByLookupHash ?R s' h = map_option (revoked now i who why) (kr_findByLookupHash ?R s h)"
    if "kr_revoke ?R now s i who why = (s', res)"
  proof -
    have "s' = sql_update (\<lambda>r. ak_id r = i) (revoked_record now who why) s" "res = find (\<lambda>r. ak_id r = i) s'"
      using that by (auto simp: sql Let_def)
    with ok show ?thesis
      by (simp add: sql rows_ok_update find_sql_update revoked_def [abs_def] revoked_record_def)
  qed
  show "ak_lookupHash r = h \<and> kr_get ?R s (ak_id r) = Some r" if "kr_findByLookupHash ?R s h = Some r"
    using that ok by (auto simp: sql key_rows_ok_def find_unique)
  show "ak_id r = i \<and> kr_findByLookupHash ?R s (ak_lookupHash r) = Some r" if "kr_get ?R s i = Some r"
    using that ok by (auto simp: sql key_rows_ok_def find_unique)
  show "kr_count ?R s = 0 \<longleftrightarrow> (\<forall>i. kr_get ?R s i = None)"
    by (cases s) (auto simp: sql)
qed

section \<open>The two repositories side by side\<close>

locale two_key_repositories = A: key_repository R okA + B: key_repository Q okB
  for R :: "'a ApiKeyRepository" and okA and Q :: "'b ApiKeyRepository" and okB
begin

definition simulates :: "'a \<Rightarrow> 'b \<Rightarrow> ident list \<Rightarrow> string list \<Rightarrow> bool" where
  "simulates a b ids hs \<longleftrightarrow> okA a \<and> okB b \<and>
     (\<forall>i. kr_get R a i = kr_get Q b i \<and> (kr_get R a i \<noteq> None \<longrightarrow> i \<in> set ids)) \<and>
     (\<forall>h. kr_findByLookupHash R a h = kr_findByLookupHash Q b h
        \<and> (kr_findByLookupHash R a h \<noteq> None \<longrightarrow> h \<in> set hs))"

lemma simulates_create:
  assumes sim: "simulates a b ids hs" and fresh: "ak_id r \<noteq> []" "ak_id r \<notin> set ids" "ak_lookupHash r \<notin> set hs"
  shows "\<exists>a' b'. kr_create R a r = Inr a' \<and> kr_create Q b r = Inr b' \<and>
    simulates a' b' (ak_id r # ids) (ak_lookupHash r # hs)"
proof -
  have none: "kr_get R a (ak_id r) = None" "kr_findByLookupHash R a (ak_lookupHash r) = None"
    "kr_get Q b (ak_id r) = None" "kr_findByLookupHash Q b (ak_lookupHash r) = None"
    using sim fresh unfolding simulates_def by (metis, metis, metis, metis)
  have ok: "okA a" "okB b" using sim by (auto simp: simulates_def)
  from A.create_law [OF ok(1) none(1,2) fresh(1)] B.create_law [OF ok(2) none(3,4) fresh(1)] sim
  show ?thesis unfolding simulates_def by auto
qed

lemma simulates_touch:
  "simulates a b ids hs \<Longrightarrow> simulates (kr_updateLastUsed R now a i) (kr_updateLastUsed Q now b i) ids hs"
  unfolding simulates_def using A.touch_law [of a now i] B.touch_law [of b now i] by auto

lemma simulates_revoke:
  assumes "simulates a b ids hs"
  shows "simulates (fst (kr_revoke R now a i who why)) (fst (kr_revoke Q now b i who why)) ids hs"
proof -
  obtain a' ra b' rb where "kr_revoke R now a i who why = (a', ra)" "kr_revoke Q now b i who why = (b', rb)"
    by fastforce
  with assms A.revoke_law [of a now i who why a' ra] B.revoke_law [of b now i who why b' rb] show ?thesis
    unfolding simulates_def by auto
qed

lemma simulates_run:
  "simulates a b ids hs \<Longrightarrow> fresh_key_ops ks ids hs \<Longrightarrow>
   \<exists>a' b' ids' hs'. run_key_ops R ks a = Inr a' \<and> run_key_ops Q ks b = Inr b' \<and> simulates a' b' ids' hs'"
proof (induction ks arbitrary: a b ids hs)
  case (Cons k ks)
  show ?case
  proof (cases k)
    case (KeyCreate r)
    with Cons.prems simulates_create [of a b ids hs r] obtain a1 b1 where
      "kr_create R a r = Inr a1" "kr_create Q b r = Inr b1" "simulates a1 b1 (ak_id r # ids) (ak_lookupHash r # hs)"
      by auto
    with KeyCreate Cons.IH [of a1 b1] Cons.prems show ?thesis by simp
  next
    case (KeyTouch now i)
    with Cons.IH [OF simulates_touch [OF Cons.prems(1)]] Cons.prems(2) show ?thesis by simp
  next
    case (KeyRevoke now i who why)
    with Cons.IH [OF simulates_revoke [OF Cons.prems(1)]] Cons.prems(2) show ?thesis by simp
  qed
qed auto

lemma simulates_authenticate:
  "simulates a b ids hs \<Longrightarrow>
   authenticateApiKey R sha bcompare now a raw = authenticateApiKey Q sha bcompare now b raw"
  by (simp add: simulates_def authenticateApiKey_def)

end

interpretation both: two_key_repositories InMemoryApiKeyRepository key_maps_ok SqliteApiKeyRepository key_rows_ok
  by unfold_locales

section \<open>Properties of the service\<close>

text \<open>
  A key that was just created authenticates as itself, with the role it was created with, until
  it expires: with both repositories, for every random key, provided its identifier and hash are not
  taken and bcrypt accepts the text it hashed.
\<close>

theorem created_key_authenticates:
  assumes "length rnd = 32" and "uuid \<noteq> []" and "\<And>salt v. bcompare v (bhash salt v)"
    and "\<forall>t. ci_expiresAt input = Some t \<longrightarrow> \<not> t < now'"
  shows "(key_maps_ok m \<and> kr_get InMemoryApiKeyRepository m uuid = None
      \<and> kr_findByLookupHash InMemoryApiKeyRepository m (sha (generateApiKey rnd)) = None \<longrightarrow>
     (\<exists>m' k raw. createApiKey InMemoryApiKeyRepository sha bhash rnd uuid salt now m input = Inr (m', k, raw)
       \<and> authenticateApiKey InMemoryApiKeyRepository sha bcompare now' m' raw = Inr k
       \<and> au_id k = uuid \<and> au_role k = ci_role input))
    \<and> (key_rows_ok t \<and> kr_get SqliteApiKeyRepository t uuid = None
      \<and> kr_findByLookupHash SqliteApiKeyRepository t (sha (generateApiKey rnd)) = None \<longrightarrow>
     (\<exists>t' k raw. createApiKey SqliteApiKeyRepository sha bhash rnd uuid salt now t input = Inr (t', k, raw)
       \<and> authenticateApiKey SqliteApiKeyRepository sha bcompare now' t' raw = Inr k
       \<and> au_id k = uuid \<and> au_role k = ci_role input))"
  using memory.create_then_authenticate [where bcompare = bcompare and bhash = bhash and input = input and now' = now',
      OF _ assms(1,2) _ _ assms(3,4)]
    sqlite.create_then_authenticate [where bcompare = bcompare and bhash = bhash and input = input and now' = now',
      OF _ assms(1,2) _ _ assms(3,4)]
  by blast

definition demo_key_input :: CreateManagedApiKeyInput where
  "demo_key_input = \<lparr>ci_name = ''ci'', ci_role = RoleUserKey, ci_createdBy = ''root'', ci_expiresAt = None\<rparr>"

theorem created_key_authenticates_witness:
  "\<exists>t' k raw. createApiKey SqliteApiKeyRepository (\<lambda>v. v) (\<lambda>salt v. v) (replicate 32 7) ''k1'' [] ''2026'' [] demo_key_input
      = Inr (t', k, raw)
    \<and> authenticateApiKey SqliteApiKeyRepository (\<lambda>v. v) (\<lambda>v h. v = h) ''2027'' t' raw = Inr k
    \<and> au_id k = ''k1'' \<and> au_role k = RoleUserKey"
proof -
  have "key_rows_ok []" "kr_get SqliteApiKeyRepository [] ''k1'' = None"
    "kr_findByLookupHash SqliteApiKeyRepository [] (generateApiKey (replicate 32 7)) = None"
    by (simp_all add: key_rows_ok_def SqliteApiKeyRepository_def)
  with created_key_authenticates [where rnd = "replicate 32 7" and uuid = "''k1''" and sha = "\<lambda>v. v"
      and bhash = "\<lambda>salt v. v" and bcompare = "\<lambda>v h. v = h" and input = demo_key_input and now' = "''2027''"
      and salt = "[]" and now = "''2026''" and t = "[]"]
  show ?thesis by (simp add: demo_key_input_def)
qed

lemma empty_stores: "both.simulates \<lparr>km_records = [], km_lookup = []\<rparr> [] [] []"
  unfolding both.simulates_def
  by (simp add: key_maps_ok_def key_rows_ok_def InMemoryApiKeyRepository_def SqliteApiKeyRepository_def)

text \<open>
  The in-memory repository and the SQLite repository are interchangeable for authentication: after
  the same operations from an empty store, every key is accepted or refused alike, with the same answer.
\<close>

theorem key_repositories_agree:
  assumes "fresh_key_ops ks [] []"
  shows "\<exists>m t. run_key_ops InMemoryApiKeyRepository ks \<lparr>km_records = [], km_lookup = []\<rparr> = Inr m
    \<and> run_key_ops SqliteApiKeyRepository ks [] = Inr t
    \<and> (\<forall>sha bcompare now raw. authenticateApiKey InMemoryApiKeyRepository sha bcompare now m raw
        = authenticateApiKey SqliteApiKeyRepository sha bcompare now t raw)"
proof -
  from both.simulates_run [OF empty_stores assms] obtain m t ids hs where
    run: "run_key_ops InMemoryApiKeyRepository ks \<lparr>km_records = [], km_lookup = []\<rparr> = Inr m"
      "run_key_ops SqliteApiKeyRepository ks [] = Inr t" and sim: "both.simulates m t ids hs"
    by blast
  from both.simulates_authenticate [OF sim] run show ?thesis by blast
qed

theorem key_repositories_agree_witness:
  "\<exists>m t. run_key_ops InMemoryApiKeyRepository [KeyTouch ''2028'' ''k1''] \<lparr>km_records = [], km_lookup = []\<rparr> = Inr m
    \<and> run_key_ops SqliteApiKeyRepository [KeyTouch ''2028'' ''k1''] [] = Inr t
    \<and> (\<forall>sha bcompare now raw. authenticateApiKey InMemoryApiKeyRepository sha bcompare now m raw
        = authenticateApiKey SqliteApiKeyRepository sha bcompare now t raw)"
  by (rule key_repositories_agree) simp

text \<open>
  C13. A revoked key stays revoked: after any further sequence of gateway operations on the keys (new
  keys with fresh identifiers and hashes, usage updates, revocations) it does not authenticate, at any
  time and with either repository.
\<close>

theorem revoked_key_never_authenticates:
  assumes "fresh_key_ops (ks @ KeyRevoke now i who why # ks') [] []"
    and "run_key_ops InMemoryApiKeyRepository ks \<lparr>km_records = [], km_lookup = []\<rparr> = Inr m0"
    and "kr_findByLookupHash InMemoryApiKeyRepository m0 (sha raw) = Some r" and "ak_id r = i"
  shows "\<exists>m t e. run_key_ops InMemoryApiKeyRepository (ks @ KeyRevoke now i who why # ks')
          \<lparr>km_records = [], km_lookup = []\<rparr> = Inr m
    \<and> run_key_ops SqliteApiKeyRepository (ks @ KeyRevoke now i who why # ks') [] = Inr t
    \<and> authenticateApiKey InMemoryApiKeyRepository sha bcompare time m raw = Inl e
    \<and> authenticateApiKey SqliteApiKeyRepository sha bcompare time t raw = Inl e"
proof -
  let ?ks = "ks @ KeyRevoke now i who why # ks'"
  from both.simulates_run [OF empty_stores assms(1)] obtain m t ids hs where
    run: "run_key_ops InMemoryApiKeyRepository ?ks \<lparr>km_records = [], km_lookup = []\<rparr> = Inr m"
      "run_key_ops SqliteApiKeyRepository ?ks [] = Inr t" and sim: "both.simulates m t ids hs"
    by blast
  have "memory.within \<lparr>km_records = [], km_lookup = []\<rparr> [] []"
    using empty_stores unfolding both.simulates_def memory.within_def by blast
  from memory.revoked_in_run [where sha = sha, OF this assms run(1)] both.simulates_authenticate [OF sim] run
  show ?thesis by metis
qed

definition demo_key :: ApiKeyRecord where
  "demo_key = new_key_record (\<lambda>v. v) (\<lambda>salt v. v) ''k1'' [] ''2026'' ''raw'' demo_key_input"

theorem revoked_key_never_authenticates_witness:
  "\<exists>t e. run_key_ops SqliteApiKeyRepository [KeyCreate demo_key, KeyRevoke ''2027'' ''k1'' ''root'' ''leak'', KeyTouch ''2028'' ''k1''] []
      = Inr t
    \<and> authenticateApiKey SqliteApiKeyRepository (\<lambda>v. v) (\<lambda>v h. v = h) ''2029'' t ''raw'' = Inl e"
proof -
  let ?m0 = "\<lparr>km_records = [(''k1'', demo_key)], km_lookup = [(''raw'', ''k1'')]\<rparr>"
  have "fresh_key_ops ([KeyCreate demo_key] @ KeyRevoke ''2027'' ''k1'' ''root'' ''leak'' # [KeyTouch ''2028'' ''k1'']) [] []"
    by code_simp
  moreover have "run_key_ops InMemoryApiKeyRepository [KeyCreate demo_key] \<lparr>km_records = [], km_lookup = []\<rparr> = Inr ?m0"
    by (simp add: InMemoryApiKeyRepository_def demo_key_def new_key_record_def)
  moreover have "kr_findByLookupHash InMemoryApiKeyRepository ?m0 ((\<lambda>v. v) ''raw'') = Some demo_key"
    by (simp add: InMemoryApiKeyRepository_def)
  ultimately show ?thesis
    using revoked_key_never_authenticates [of "[KeyCreate demo_key]" "''2027''" "''k1''" "''root''" "''leak''"
        "[KeyTouch ''2028'' ''k1'']" ?m0 "\<lambda>v. v" "''raw''" demo_key "\<lambda>v h. v = h" "''2029''"]
    by (auto simp: demo_key_def new_key_record_def)
qed

end
