(* ===== verification/Gateway_Auth.thy ===== *)
theory Gateway_Auth
  imports Api_Keys
begin

text \<open>
  Authentication and authorization of the gateway: the authentication hook, role checks, rate limits
  and audit entries (\<^verbatim>\<open>apps/gateway/src/plugins/auth.ts\<close>, \<^verbatim>\<open>auth/authorization.ts\<close>), the error
  handler (\<^verbatim>\<open>plugins/error-handler.ts\<close>), the audit repositories (\<^verbatim>\<open>auth/repositories.ts\<close>,
  \<^verbatim>\<open>packages/storage/src/audit-log-repository.ts\<close>) and the key management routes (\<^verbatim>\<open>routes/keys.ts\<close>).

  A handler is a function of the state and the request that returns the new state and the reply. The
  framework runs the plugin's hook before a route's own hook and stops at the first reply; the counter
  behind the rate limiter belongs to a third-party plugin and is left out. Schema checks of request
  bodies are arguments.
\<close>

section \<open>Requests and replies\<close>

record request =
  rq_url :: string
  rq_method :: string
  rq_ip :: string
  rq_authorization :: "string option"
  rq_userAgent :: "string option"
  rq_query :: "(string, string) jsmap"
  rq_id :: ident
  rq_body :: "json option"
  rq_apiKey :: "AuthenticatedApiKey option"

record reply =
  rp_status :: int
  rp_body :: json

definition error_reply :: "int \<Rightarrow> string \<Rightarrow> string \<Rightarrow> reply" where
  "error_reply st e m = \<lparr>rp_status = st, rp_body = JObj [(''error'', JStr e), (''message'', JStr m)]\<rparr>"

definition issue_details :: "issue list \<Rightarrow> json" where
  "issue_details is = JArr (map (\<lambda>i. JObj [(''path'', JStr (js_join ''.'' (is_path i))), (''message'', JStr (is_message i))]) is)"

definition validation_reply :: "string \<Rightarrow> issue list \<Rightarrow> reply" where
  "validation_reply m is = \<lparr>rp_status = 400,
     rp_body = JObj [(''error'', JStr ''VALIDATION_ERROR''), (''message'', JStr m), (''details'', issue_details is)]\<rparr>"

definition quoted_not_found :: "string \<Rightarrow> ident \<Rightarrow> string" where
  "quoted_not_found what i = what @ '' '' @ [CHR 0x22] @ i @ [CHR 0x22] @ '' not found''"

section \<open>The authentication plugin\<close>

definition isPublicRoute :: "string \<Rightarrow> bool" where
  "isPublicRoute url =
     (let path = hd (js_split CHR ''?'' url)
      in path = ''/health'' \<or> path = ''/api/runtime/health'' \<or> path = ''/metrics''
         \<or> path = ''/api/runtime/settings'' \<or> js_startsWith path ''/webhooks/'')"

definition redacted_fields :: "string list" where
  "redacted_fields = [''password'', ''token'', ''secret'', ''apiKey'', ''key'']"

text \<open>The shallow copy \<^verbatim>\<open>{ ...body }\<close>; an array spreads into an object with index keys.\<close>

definition spread_fields :: "json \<Rightarrow> (string \<times> json) list" where
  "spread_fields b = (case b of JObj kvs \<Rightarrow> kvs
     | JArr js \<Rightarrow> map (\<lambda>(i, j). (show_nat i, j)) (zip [0..<length js] js) | _ \<Rightarrow> [])"

definition redact_fields :: "(string \<times> json) list \<Rightarrow> (string \<times> json) list" where
  "redact_fields kvs =
     foldl (\<lambda>copy f. if jm_get copy f \<noteq> None then jm_set copy f (JStr ''***REDACTED***'') else copy)
       kvs redacted_fields"

definition redactBody :: "json option \<Rightarrow> string option" where
  "redactBody b =
     (case b of
        None \<Rightarrow> None
      | Some JNull \<Rightarrow> None
      | Some (JBool x) \<Rightarrow> Some (json_stringify (JBool x))
      | Some (JNum x) \<Rightarrow> Some (json_stringify (JNum x))
      | Some (JStr x) \<Rightarrow> Some (json_stringify (JStr x))
      | Some j \<Rightarrow>
          (let text = json_stringify (JObj (redact_fields (spread_fields j)))
           in Some (if length text \<le> 1024 then text else take 1024 text @ ''... (truncated)'')))"

definition resolveApiKey :: "request \<Rightarrow> string option" where
  "resolveApiKey req =
     (case rq_authorization req of
        Some h \<Rightarrow> if js_startsWith h ''Bearer '' then Some (js_trim (drop 7 h)) else jm_get (rq_query req) ''api_key''
      | None \<Rightarrow> jm_get (rq_query req) ''api_key'')"

definition auth_failure_reply :: "AuthenticationFailure \<Rightarrow> reply" where
  "auth_failure_reply f = error_reply 401 (af_error f) (af_message f)"

definition authPreHandler ::
    "'s ApiKeyRepository \<Rightarrow> (string \<Rightarrow> string) \<Rightarrow> (string \<Rightarrow> string \<Rightarrow> bool) \<Rightarrow> timestamp \<Rightarrow> 's \<Rightarrow> request
     \<Rightarrow> reply + ('s \<times> request)" where
  "authPreHandler R sha bcompare now s req =
     (if isPublicRoute (rq_url req) then Inr (s, req)
      else if \<not> js_truthy (resolveApiKey req)
      then Inl (error_reply 401 ''UNAUTHORIZED''
             ''API key required. Provide Authorization: Bearer <key> or ?api_key=<key>.'')
      else (case authenticateApiKey R sha bcompare now s (the (resolveApiKey req)) of
              Inl f \<Rightarrow> Inl (auth_failure_reply f)
            | Inr k \<Rightarrow> Inr (kr_updateLastUsed R now s (au_id k), req\<lparr>rq_apiKey := Some k\<rparr>)))"

record rate_limits =
  rl_admin :: "nat option"
  rl_user :: "nat option"
  rl_readonly :: "nat option"

definition rate_limit_max :: "rate_limits \<Rightarrow> request \<Rightarrow> nat" where
  "rate_limit_max rl req =
     (case (case rq_apiKey req of None \<Rightarrow> RoleReadonly | Some k \<Rightarrow> au_role k) of
        RoleAdmin \<Rightarrow> js_or (rl_admin rl) 1000
      | RoleUserKey \<Rightarrow> js_or (rl_user rl) 100
      | RoleReadonly \<Rightarrow> js_or (rl_readonly rl) 50)"

definition audit_entry :: "ident \<Rightarrow> timestamp \<Rightarrow> int \<Rightarrow> nat \<Rightarrow> request \<Rightarrow> AuthenticatedApiKey \<Rightarrow> AuditLog" where
  "audit_entry uuid now status elapsed req k =
     \<lparr>al_id = uuid, al_keyId = au_id k, al_method = rq_method req, al_path = hd (js_split CHR ''?'' (rq_url req)),
      al_status = status, al_ip = rq_ip req, al_userAgent = rq_userAgent req, al_requestBody = redactBody (rq_body req),
      al_responseTimeMs = elapsed, al_timestamp = now\<rparr>"

definition authOnResponse ::
    "ident \<Rightarrow> timestamp \<Rightarrow> int \<Rightarrow> nat \<Rightarrow> request \<Rightarrow> AuditLog option" where
  "authOnResponse uuid now status elapsed req =
     (case rq_apiKey req of
        None \<Rightarrow> None
      | Some k \<Rightarrow> if isPublicRoute (rq_url req) then None else Some (audit_entry uuid now status elapsed req k))"

section \<open>Roles\<close>

definition readRoles :: "ApiKeyRole list" where "readRoles = [RoleAdmin, RoleUserKey, RoleReadonly]"
definition writeRoles :: "ApiKeyRole list" where "writeRoles = [RoleAdmin, RoleUserKey]"

definition role_text :: "ApiKeyRole \<Rightarrow> string" where
  "role_text r = (case r of RoleAdmin \<Rightarrow> ''admin'' | RoleUserKey \<Rightarrow> ''user'' | RoleReadonly \<Rightarrow> ''readonly'')"

definition requireRoles :: "ApiKeyRole list \<Rightarrow> request \<Rightarrow> reply option" where
  "requireRoles allowedRoles req =
     (case rq_apiKey req of
        None \<Rightarrow> Some (error_reply 401 ''UNAUTHORIZED'' ''API key required'')
      | Some k \<Rightarrow>
          if au_role k \<in> set allowedRoles then None
          else Some (error_reply 403 ''FORBIDDEN''
            (''Insufficient permissions. Required role: '' @ js_join '' or '' (map role_text allowedRoles)
             @ ''. Your role: '' @ role_text (au_role k))))"

text \<open>A route of the gateway with the roles it requires: the plugin's hook, the route's hook, the handler.\<close>

definition secured_route ::
    "'s ApiKeyRepository \<Rightarrow> (string \<Rightarrow> string) \<Rightarrow> (string \<Rightarrow> string \<Rightarrow> bool) \<Rightarrow> timestamp \<Rightarrow> ApiKeyRole list
     \<Rightarrow> ('s \<Rightarrow> 'w \<Rightarrow> request \<Rightarrow> 's \<times> 'w \<times> reply) \<Rightarrow> 's \<Rightarrow> 'w \<Rightarrow> request \<Rightarrow> 's \<times> 'w \<times> reply" where
  "secured_route R sha bcompare now roles handler s w req =
     (case authPreHandler R sha bcompare now s req of
        Inl rep \<Rightarrow> (s, w, rep)
      | Inr (s', req') \<Rightarrow>
          (case requireRoles roles req' of
             Some rep \<Rightarrow> (s', w, rep)
           | None \<Rightarrow> handler s' w req'))"

section \<open>The error handler\<close>

datatype thrown = ZodIssues "issue list" | Thrown exn

text \<open>The number in the \<^verbatim>\<open>retry-after\<close> header is an argument; zero stands for no usable header.\<close>

definition rate_limit_reply :: "string \<Rightarrow> nat \<Rightarrow> reply" where
  "rate_limit_reply m retryAfter = \<lparr>rp_status = 429,
     rp_body = JObj ([(''error'', JStr ''RATE_LIMIT_EXCEEDED''), (''message'', JStr m)]
       @ (if retryAfter = 0 then [] else [(''retryAfter'', JNum (int retryAfter))]))\<rparr>"

definition errorHandler :: "nat \<Rightarrow> thrown \<Rightarrow> reply" where
  "errorHandler retryAfter e =
     (case e of
        ZodIssues is \<Rightarrow> validation_reply ''Request validation failed'' is
      | Thrown x \<Rightarrow>
          (let st = js_or (err_status x) 500
           in if st = 400 then error_reply 400 ''INVALID_JSON'' (message x)
              else if st = 404 then error_reply 404 ''NOT_FOUND'' (message x)
              else if st = 429 then rate_limit_reply (message x) retryAfter
              else error_reply st ''INTERNAL_ERROR'' (if st \<ge> 500 then ''Internal server error'' else message x)))"

section \<open>Audit repositories\<close>

definition InMemoryAuditLog_listByKeyId :: "AuditLog list \<Rightarrow> ident \<Rightarrow> nat \<Rightarrow> nat \<Rightarrow> AuditLog list" where
  "InMemoryAuditLog_listByKeyId logs k limit offset =
     (let sorted = sort_key al_timestamp (filter (\<lambda>l. al_keyId l = k) logs)
      in take (offset + limit - offset) (drop offset sorted))"

definition InMemoryAuditLog_countByKeyId :: "AuditLog list \<Rightarrow> ident \<Rightarrow> nat" where
  "InMemoryAuditLog_countByKeyId logs k = length (filter (\<lambda>l. al_keyId l = k) logs)"

definition InMemoryAuditLog_deleteOlderThan :: "AuditLog list \<Rightarrow> timestamp \<Rightarrow> AuditLog list \<times> nat" where
  "InMemoryAuditLog_deleteOlderThan logs t =
     (let remaining = filter (\<lambda>l. t \<le> al_timestamp l) logs in (remaining, length logs - length remaining))"

definition SqliteAuditLog_listByKeyId :: "AuditLog list \<Rightarrow> ident \<Rightarrow> nat \<Rightarrow> nat \<Rightarrow> AuditLog list" where
  "SqliteAuditLog_listByKeyId rows k limit offset =
     take limit (drop offset (sort_key al_timestamp (filter (\<lambda>l. al_keyId l = k) rows)))"

definition SqliteAuditLog_deleteOlderThan :: "AuditLog list \<Rightarrow> timestamp \<Rightarrow> AuditLog list \<times> nat" where
  "SqliteAuditLog_deleteOlderThan rows t =
     (filter (\<lambda>l. \<not> al_timestamp l < t) rows, length (filter (\<lambda>l. al_timestamp l < t) rows))"

section \<open>Key management routes\<close>

record CreateApiKeyRequest =
  cr_name :: string
  cr_role :: ApiKeyRole
  cr_expiresAt :: "timestamp option"

definition opt_json :: "string option \<Rightarrow> json" where
  "opt_json o' = (case o' of None \<Rightarrow> JNull | Some s \<Rightarrow> JStr s)"

definition key_json :: "AuthenticatedApiKey \<Rightarrow> json" where
  "key_json k = JObj [(''id'', JStr (au_id k)), (''name'', JStr (au_name k)), (''role'', JStr (role_text (au_role k))),
     (''createdBy'', JStr (au_createdBy k)), (''createdAt'', JStr (au_createdAt k)), (''expiresAt'', opt_json (au_expiresAt k)),
     (''lastUsedAt'', opt_json (au_lastUsedAt k)), (''revokedAt'', opt_json (au_revokedAt k)),
     (''revokedBy'', opt_json (au_revokedBy k)), (''revokedReason'', opt_json (au_revokedReason k))]"

definition post_key ::
    "'s ApiKeyRepository \<Rightarrow> (string \<Rightarrow> string) \<Rightarrow> (string \<Rightarrow> string \<Rightarrow> string) \<Rightarrow> 8 word list \<Rightarrow> ident \<Rightarrow> string
     \<Rightarrow> timestamp \<Rightarrow> (json option \<Rightarrow> issue list + CreateApiKeyRequest) \<Rightarrow> 's \<Rightarrow> request \<Rightarrow> 's \<times> reply" where
  "post_key R sha bhash rnd uuid salt now parse s req =
     (case rq_apiKey req of
        None \<Rightarrow> (s, error_reply 401 ''UNAUTHORIZED'' ''API key required'')
      | Some requester \<Rightarrow>
          (case parse (rq_body req) of
             Inl is \<Rightarrow> (s, validation_reply ''Invalid API key request'' is)
           | Inr c \<Rightarrow>
               (case createApiKey R sha bhash rnd uuid salt now s
                       \<lparr>ci_name = cr_name c, ci_role = cr_role c, ci_createdBy = au_id requester,
                        ci_expiresAt = cr_expiresAt c\<rparr> of
                  Inl e \<Rightarrow> (s, errorHandler 0 (Thrown e))
                | Inr (s', k, rawKey) \<Rightarrow>
                    (s', \<lparr>rp_status = 201, rp_body = JObj [(''id'', JStr (au_id k)), (''key'', JStr rawKey),
                       (''name'', JStr (au_name k)), (''role'', JStr (role_text (au_role k))),
                       (''createdAt'', JStr (au_createdAt k)), (''expiresAt'', opt_json (au_expiresAt k))]\<rparr>))))"

definition query_bool :: "string option \<Rightarrow> bool option" where
  "query_bool q = (if q = Some ''true'' then Some True else if q = Some ''false'' then Some False else None)"

definition parse_role :: "string option \<Rightarrow> ApiKeyRole option" where
  "parse_role q =
     (if q = Some ''admin'' then Some RoleAdmin else if q = Some ''user'' then Some RoleUserKey
      else if q = Some ''readonly'' then Some RoleReadonly else None)"

definition get_keys :: "'s ApiKeyRepository \<Rightarrow> timestamp \<Rightarrow> 's \<Rightarrow> request \<Rightarrow> reply" where
  "get_keys R now s req =
     \<lparr>rp_status = 200,
      rp_body = JArr (map key_json (listApiKeys R now s
        \<lparr>kf_role = parse_role (jm_get (rq_query req) ''role''), kf_revoked = query_bool (jm_get (rq_query req) ''revoked''),
         kf_expired = query_bool (jm_get (rq_query req) ''expired'')\<rparr>))\<rparr>"

definition delete_key ::
    "'s ApiKeyRepository \<Rightarrow> timestamp \<Rightarrow> (json \<Rightarrow> issue list + string) \<Rightarrow> 's \<Rightarrow> request \<Rightarrow> 's \<times> reply" where
  "delete_key R now parse s req =
     (case rq_apiKey req of
        None \<Rightarrow> (s, error_reply 401 ''UNAUTHORIZED'' ''API key required'')
      | Some requester \<Rightarrow>
          (case getApiKey R s (rq_id req) of
             None \<Rightarrow> (s, error_reply 404 ''NOT_FOUND'' (quoted_not_found ''API key'' (rq_id req)))
           | Some existing \<Rightarrow>
               if js_truthy (au_revokedAt existing)
               then (s, error_reply 400 ''KEY_ALREADY_REVOKED'' ''API key is already revoked'')
               else (case parse (js_or (json_nullish (rq_body req)) (JObj [(''reason'', JStr ''revoked'')])) of
                       Inl is \<Rightarrow> (s, validation_reply ''Invalid revoke request'' is)
                     | Inr why \<Rightarrow>
                         (let (s', k) = revokeApiKey R now s (rq_id req) (au_id requester) why
                          in (s', \<lparr>rp_status = 200, rp_body = (case k of None \<Rightarrow> JNull | Some k' \<Rightarrow> key_json k')\<rparr>)))))"

section \<open>Lemmas\<close>

lemma error_reply_status [simp]: "rp_status (error_reply st e m) = st"
  by (simp add: error_reply_def)

lemma authPreHandler_cases:
  assumes "\<not> isPublicRoute (rq_url req)" and "authPreHandler R sha bcompare now s req = Inr (s', req')"
  shows "\<exists>raw k. resolveApiKey req = Some raw \<and> authenticateApiKey R sha bcompare now s raw = Inr k
    \<and> s' = kr_updateLastUsed R now s (au_id k) \<and> req' = req\<lparr>rq_apiKey := Some k\<rparr>"
  using assms
  by (cases "resolveApiKey req") (auto simp: authPreHandler_def split: if_splits sum.splits)

lemma authPreHandler_401:
  "authPreHandler R sha bcompare now s req = Inl rep \<Longrightarrow> rp_status rep = 401"
  by (auto simp: authPreHandler_def auth_failure_reply_def split: if_splits sum.splits)

lemma redact_step:
  "jm_get (if jm_get copy f \<noteq> None then jm_set copy f v else copy) k =
   (if k = f \<and> jm_get copy f \<noteq> None then Some v else jm_get copy k)"
  by (auto simp: jm_get_set)

lemma redact_fields_get:
  "jm_get (redact_fields kvs) k =
   (if k \<in> set redacted_fields \<and> jm_get kvs k \<noteq> None then Some (JStr ''***REDACTED***'') else jm_get kvs k)"
proof -
  have "jm_get (foldl (\<lambda>copy f. if jm_get copy f \<noteq> None then jm_set copy f v else copy) kvs fs) k =
      (if k \<in> set fs \<and> jm_get kvs k \<noteq> None then Some v else jm_get kvs k)" for fs and v :: json
    by (induction fs arbitrary: kvs) (auto simp: redact_step jm_get_set)
  then show ?thesis by (simp add: redact_fields_def)
qed

lemma redactBody_length: "redactBody b = Some t \<Longrightarrow> (\<exists>j. b = Some j \<and> spread_fields j \<noteq> []) \<Longrightarrow> length t \<le> 1039"
  by (auto simp: redactBody_def spread_fields_def Let_def split: option.splits json.splits)

context key_repository
begin

lemma revoked_auth:
  assumes "ok s" and "kr_findByLookupHash R s (sha raw) = Some r" and "now \<noteq> []" and "ak_id r = i"
  shows "\<exists>f. authenticateApiKey R sha bcompare time (fst (kr_revoke R now s i who why)) raw = Inl f"
proof -
  obtain s1 res where rv: "kr_revoke R now s i who why = (s1, res)" by fastforce
  have "kr_findByLookupHash R s1 (sha raw) = Some (revoked now i who why r)"
    using revoke_law [OF assms(1) rv] assms(2) by simp
  then show ?thesis
    using assms(3,4) rv by (auto simp: authenticateApiKey_def revoked_def revoked_record_def)
qed

lemma delete_key_effect:
  assumes "ok s" and "rq_apiKey req = Some admin" and "kr_findByLookupHash R s (sha raw) = Some r"
    and "ak_id r = rq_id req" and "\<not> js_truthy (ak_revokedAt r)" and "now \<noteq> []"
    and "parse (js_or (json_nullish (rq_body req)) (JObj [(''reason'', JStr ''revoked'')])) = Inr why"
  shows "\<exists>s' rep. delete_key R now parse s req = (s', rep) \<and> rp_status rep = 200 \<and> ok s'
    \<and> (\<exists>f. authenticateApiKey R sha bcompare time s' raw = Inl f)
    \<and> rp_status (snd (delete_key R now parse s' req)) = 400"
proof -
  have get: "kr_get R s (rq_id req) = Some r" using find_law [OF assms(1,3)] assms(4) by simp
  obtain s1 res where rv: "kr_revoke R now s (rq_id req) (au_id admin) why = (s1, res)" by fastforce
  have law: "ok s1" "kr_get R s1 (rq_id req) = Some (revoked now (rq_id req) (au_id admin) why r)"
    using revoke_law [OF assms(1) rv] get by simp_all
  have "delete_key R now parse s req = (s1, snd (delete_key R now parse s req)) \<and> rp_status (snd (delete_key R now parse s req)) = 200"
    using assms get rv by (simp add: delete_key_def getApiKey_def sanitizeApiKey_def revokeApiKey_def)
  moreover have "\<exists>f. authenticateApiKey R sha bcompare time s1 raw = Inl f"
    using revoked_auth [where sha = sha and bcompare = bcompare and time = time and who = "au_id admin" and why = why,
        OF assms(1,3,6,4)] rv by simp
  moreover have "rp_status (snd (delete_key R now parse s1 req)) = 400"
    using assms law by (simp add: delete_key_def getApiKey_def sanitizeApiKey_def revoked_def revoked_record_def)
  ultimately show ?thesis using law(1) by metis
qed

end

section \<open>Properties\<close>


text \<open>A request and a handler for the witness.\<close>

definition demo_request :: request where
  "demo_request = \<lparr>rq_url = ''/api/v1/agents'', rq_method = ''POST'', rq_ip = ''10.0.0.1'',
     rq_authorization = Some (''Bearer '' @ generateApiKey []), rq_userAgent = None, rq_query = [],
     rq_id = ''k1'', rq_body = None, rq_apiKey = None\<rparr>"

definition demo_rows :: "ApiKeyRecord list" where
  "demo_rows = [new_key_record (\<lambda>v. v) (\<lambda>salt v. v) ''k1'' [] ''2026'' (generateApiKey []) demo_key_input]"


text \<open>
  Revoking a key over the API takes effect at once: the reply is 200, from then on the key no
  longer authenticates, and a second revocation is refused with 400. This holds for both repositories.
\<close>

theorem key_revocation_route:
  assumes "rq_apiKey req = Some admin" and "ak_id r = rq_id req" and "\<not> js_truthy (ak_revokedAt r)" and "now \<noteq> []"
    and "parse (js_or (json_nullish (rq_body req)) (JObj [(''reason'', JStr ''revoked'')])) = Inr why"
  shows "(key_maps_ok m \<and> kr_findByLookupHash InMemoryApiKeyRepository m (sha raw) = Some r \<longrightarrow>
      (\<exists>m' rep f. delete_key InMemoryApiKeyRepository now parse m req = (m', rep) \<and> rp_status rep = 200
        \<and> authenticateApiKey InMemoryApiKeyRepository sha bcompare time m' raw = Inl f
        \<and> rp_status (snd (delete_key InMemoryApiKeyRepository now parse m' req)) = 400))
    \<and> (key_rows_ok t \<and> kr_findByLookupHash SqliteApiKeyRepository t (sha raw) = Some r \<longrightarrow>
      (\<exists>t' rep f. delete_key SqliteApiKeyRepository now parse t req = (t', rep) \<and> rp_status rep = 200
        \<and> authenticateApiKey SqliteApiKeyRepository sha bcompare time t' raw = Inl f
        \<and> rp_status (snd (delete_key SqliteApiKeyRepository now parse t' req)) = 400))"
  using memory.delete_key_effect [where sha = sha and parse = parse, OF _ assms(1) _ assms(2-5)]
    sqlite.delete_key_effect [where sha = sha and parse = parse, OF _ assms(1) _ assms(2-5)]
  by meson

theorem key_revocation_route_witness:
  "\<exists>t' rep f. delete_key SqliteApiKeyRepository ''2027'' (\<lambda>b. Inr ''leak'') demo_rows
      (demo_request\<lparr>rq_apiKey := Some (sanitizeApiKey (hd demo_rows))\<rparr>) = (t', rep)
    \<and> rp_status rep = 200
    \<and> authenticateApiKey SqliteApiKeyRepository (\<lambda>v. v) (\<lambda>v h. v = h) ''2028'' t' (generateApiKey []) = Inl f"
proof -
  let ?req = "demo_request\<lparr>rq_apiKey := Some (sanitizeApiKey (hd demo_rows))\<rparr>"
  have rows: "key_rows_ok demo_rows" by code_simp
  have found: "kr_findByLookupHash SqliteApiKeyRepository demo_rows ((\<lambda>v. v) (generateApiKey [])) = Some (hd demo_rows)"
    by (simp add: SqliteApiKeyRepository_def demo_rows_def new_key_record_def)
  have req: "rq_apiKey ?req = Some (sanitizeApiKey (hd demo_rows))" "ak_id (hd demo_rows) = rq_id ?req"
    "\<not> js_truthy (ak_revokedAt (hd demo_rows))"
    by (simp_all add: demo_request_def demo_rows_def new_key_record_def)
  from key_revocation_route [where parse = "\<lambda>b. Inr ''leak''" and sha = "\<lambda>v. v" and raw = "generateApiKey []"
      and bcompare = "\<lambda>v h. v = h" and time = "''2028''" and t = demo_rows and now = "''2027''", OF req _ refl] rows found
  show ?thesis by blast
qed

text \<open>
  The audit log never stores a secret that is a top-level field of a request body: the copy that
  is written has the redaction mark under every such name and keeps every other field.
\<close>

theorem audit_redacts_top_level:
  "jm_get (redact_fields kvs) f =
    (if f \<in> {''password'', ''token'', ''secret'', ''apiKey'', ''key''}
     then map_option (\<lambda>_. JStr ''***REDACTED***'') (jm_get kvs f) else jm_get kvs f)"
  by (cases "jm_get kvs f") (auto simp: redact_fields_get redacted_fields_def)

text \<open>
  A secret one level deeper is stored: the body that creates a webhook connector carries its secret in
  \<^verbatim>\<open>config.secret\<close>.
\<close>

lemma nested_secret_is_logged:
  "redactBody (Some (JObj [(''config'', JObj [(''secret'', JStr ''s3'')])])) =
   Some (json_stringify (JObj [(''config'', JObj [(''secret'', JStr ''s3'')])]))"
  by code_simp

text \<open>The two audit repositories agree on every page and on what a clean-up keeps and counts.\<close>

lemma audit_list_agree: "InMemoryAuditLog_listByKeyId logs k limit offset = SqliteAuditLog_listByKeyId logs k limit offset"
  by (simp add: InMemoryAuditLog_listByKeyId_def SqliteAuditLog_listByKeyId_def)

lemma audit_delete_agree: "InMemoryAuditLog_deleteOlderThan logs t = SqliteAuditLog_deleteOlderThan logs t"
proof -
  have "length logs - length (filter (\<lambda>l. t \<le> al_timestamp l) logs) = length (filter (\<lambda>l. \<not> t \<le> al_timestamp l) logs)"
    using sum_length_filter_compl [of "\<lambda>l. t \<le> al_timestamp l" logs] by simp
  then show ?thesis
    by (simp add: InMemoryAuditLog_deleteOlderThan_def SqliteAuditLog_deleteOlderThan_def not_le not_less)
qed

end
