(* ===== verification/Approvals.thy ===== *)
theory Approvals
  imports Gateway_Auth
begin

text \<open>
  The approval queue (\<^verbatim>\<open>apps/gateway/src/approval-queue.ts\<close>) and its routes
  (\<^verbatim>\<open>apps/gateway/src/routes/approvals.ts\<close>). Identifiers and times are arguments of the operations
  that draw them; \<^verbatim>\<open>sort\<close> is stable and \<^verbatim>\<open>localeCompare\<close> on timestamps is their order.
\<close>

section \<open>The queue\<close>

datatype ApprovalKind = KindFilesystem | KindShell

datatype ApprovalStatus = ApprovalPending | ApprovalApproved | ApprovalRejected

record ApprovalRequest =
  ap_id :: ident
  ap_kind :: ApprovalKind
  ap_action :: string
  ap_targetPaths :: "string list"
  ap_reason :: string
  ap_requestedBy :: string
  ap_status :: ApprovalStatus
  ap_createdAt :: timestamp
  ap_resolvedAt :: "timestamp option"
  ap_resolvedBy :: "ident option"
  ap_resolutionComment :: "string option"

record CreateApprovalRequestInput =
  ar_kind :: ApprovalKind
  ar_action :: string
  ar_targetPaths :: "string list"
  ar_reason :: string
  ar_requestedBy :: string

type_synonym approval_queue = "(ident, ApprovalRequest) jsmap"

definition ApprovalQueue_create ::
    "ident \<Rightarrow> timestamp \<Rightarrow> approval_queue \<Rightarrow> CreateApprovalRequestInput \<Rightarrow> approval_queue \<times> ApprovalRequest" where
  "ApprovalQueue_create uuid now q input =
     (let r = \<lparr>ap_id = uuid, ap_kind = ar_kind input, ap_action = ar_action input,
               ap_targetPaths = ar_targetPaths input, ap_reason = ar_reason input,
               ap_requestedBy = ar_requestedBy input, ap_status = ApprovalPending, ap_createdAt = now,
               ap_resolvedAt = None, ap_resolvedBy = None, ap_resolutionComment = None\<rparr>
      in (jm_set q uuid r, r))"

text \<open>\<open>None\<close> stands for \<^verbatim>\<open>"all"\<close>.\<close>

definition ApprovalQueue_list :: "approval_queue \<Rightarrow> ApprovalStatus option \<Rightarrow> ApprovalRequest list" where
  "ApprovalQueue_list q status =
     sort_key ap_createdAt (filter (\<lambda>r. status = None \<or> Some (ap_status r) = status) (jm_values q))"

definition ApprovalQueue_get :: "approval_queue \<Rightarrow> ident \<Rightarrow> ApprovalRequest option" where
  "ApprovalQueue_get q i = jm_get q i"

definition ApprovalQueue_approve ::
    "timestamp \<Rightarrow> approval_queue \<Rightarrow> ident \<Rightarrow> ident \<Rightarrow> approval_queue \<times> ApprovalRequest option" where
  "ApprovalQueue_approve now q i who =
     (case jm_get q i of
        None \<Rightarrow> (q, None)
      | Some r \<Rightarrow>
          let u = r\<lparr>ap_status := ApprovalApproved, ap_resolvedAt := Some now, ap_resolvedBy := Some who\<rparr>
          in (jm_set q i u, Some u))"

definition ApprovalQueue_reject ::
    "timestamp \<Rightarrow> approval_queue \<Rightarrow> ident \<Rightarrow> ident \<Rightarrow> string option \<Rightarrow> approval_queue \<times> ApprovalRequest option" where
  "ApprovalQueue_reject now q i who why =
     (case jm_get q i of
        None \<Rightarrow> (q, None)
      | Some r \<Rightarrow>
          let u = r\<lparr>ap_status := ApprovalRejected, ap_resolvedAt := Some now, ap_resolvedBy := Some who,
                    ap_resolutionComment := why\<rparr>
          in (jm_set q i u, Some u))"

section \<open>The routes\<close>

definition kind_text :: "ApprovalKind \<Rightarrow> string" where
  "kind_text k = (case k of KindFilesystem \<Rightarrow> ''filesystem'' | KindShell \<Rightarrow> ''shell'')"

definition approval_status_text :: "ApprovalStatus \<Rightarrow> string" where
  "approval_status_text s = (case s of ApprovalPending \<Rightarrow> ''pending'' | ApprovalApproved \<Rightarrow> ''approved''
     | ApprovalRejected \<Rightarrow> ''rejected'')"

definition opt_field :: "string \<Rightarrow> string option \<Rightarrow> (string \<times> json) list" where
  "opt_field n v = (case v of None \<Rightarrow> [] | Some s \<Rightarrow> [(n, JStr s)])"

definition approval_json :: "ApprovalRequest \<Rightarrow> json" where
  "approval_json r = JObj ([(''id'', JStr (ap_id r)), (''kind'', JStr (kind_text (ap_kind r))),
     (''action'', JStr (ap_action r)), (''targetPaths'', JArr (map JStr (ap_targetPaths r))),
     (''reason'', JStr (ap_reason r)), (''requestedBy'', JStr (ap_requestedBy r)),
     (''status'', JStr (approval_status_text (ap_status r))), (''createdAt'', JStr (ap_createdAt r))]
     @ opt_field ''resolvedAt'' (ap_resolvedAt r) @ opt_field ''resolvedBy'' (ap_resolvedBy r)
     @ opt_field ''resolutionComment'' (ap_resolutionComment r))"

definition get_approvals :: "approval_queue \<Rightarrow> reply" where
  "get_approvals q = \<lparr>rp_status = 200,
     rp_body = JArr (map approval_json (ApprovalQueue_list q (Some ApprovalPending)))\<rparr>"

definition resolution_reply :: "ident \<Rightarrow> ApprovalRequest option \<Rightarrow> reply" where
  "resolution_reply i r =
     (case r of None \<Rightarrow> error_reply 404 ''NOT_FOUND'' (quoted_not_found ''Approval request'' i)
      | Some a \<Rightarrow> \<lparr>rp_status = 200, rp_body = approval_json a\<rparr>)"

definition post_approve :: "timestamp \<Rightarrow> approval_queue \<Rightarrow> request \<Rightarrow> approval_queue \<times> reply" where
  "post_approve now q req =
     (case rq_apiKey req of
        None \<Rightarrow> (q, error_reply 401 ''UNAUTHORIZED'' ''API key required'')
      | Some k \<Rightarrow>
          (let (q', r) = ApprovalQueue_approve now q (rq_id req) (au_id k) in (q', resolution_reply (rq_id req) r)))"

definition post_reject ::
    "timestamp \<Rightarrow> (json \<Rightarrow> issue list + string option) \<Rightarrow> approval_queue \<Rightarrow> request \<Rightarrow> approval_queue \<times> reply" where
  "post_reject now parse q req =
     (case rq_apiKey req of
        None \<Rightarrow> (q, error_reply 401 ''UNAUTHORIZED'' ''API key required'')
      | Some k \<Rightarrow>
          (case parse (js_or (json_nullish (rq_body req)) (JObj [])) of
             Inl is \<Rightarrow> (q, validation_reply ''Invalid approval rejection request'' is)
           | Inr why \<Rightarrow>
               (let (q', r) = ApprovalQueue_reject now q (rq_id req) (au_id k) why
                in (q', resolution_reply (rq_id req) r))))"

section \<open>The life of a request\<close>

text \<open>
  A well-formed queue: requests stored once, under their identifier; a request names who resolved it
  and when exactly when it is not pending.
\<close>

definition approval_ok :: "ApprovalRequest \<Rightarrow> bool" where
  "approval_ok r \<longleftrightarrow>
     (ap_status r = ApprovalPending \<longleftrightarrow> ap_resolvedBy r = None) \<and> (ap_resolvedBy r = None \<longleftrightarrow> ap_resolvedAt r = None)"

definition queue_ok :: "approval_queue \<Rightarrow> bool" where
  "queue_ok q \<longleftrightarrow> jm_ok q \<and> (\<forall>(i, r) \<in> set q. ap_id r = i \<and> approval_ok r)"

inductive approval_step :: "approval_queue \<Rightarrow> approval_queue \<Rightarrow> bool" where
  create: "jm_get q uuid = None \<Longrightarrow> approval_step q (fst (ApprovalQueue_create uuid now q input))"
| approve: "approval_step q (fst (ApprovalQueue_approve now q i who))"
| reject: "approval_step q (fst (ApprovalQueue_reject now q i who why))"

inductive_cases approval_stepE: "approval_step q q'"

lemma queue_ok_set: "queue_ok q \<Longrightarrow> ap_id r = i \<Longrightarrow> approval_ok r \<Longrightarrow> queue_ok (jm_set q i r)"
  unfolding queue_ok_def by (auto dest: jm_set_mem)

lemma queue_ok_get: "queue_ok q \<Longrightarrow> jm_get q i = Some r \<Longrightarrow> ap_id r = i \<and> approval_ok r"
  unfolding queue_ok_def by (auto dest: map_of_SomeD)

lemma step_ok: "approval_step q q' \<Longrightarrow> queue_ok q \<Longrightarrow> queue_ok q'"
proof (induction rule: approval_step.induct)
  case (create q uuid now input)
  then show ?case by (simp add: ApprovalQueue_create_def Let_def queue_ok_set approval_ok_def)
next
  case (approve q now i who)
  then show ?case
    using queue_ok_get [OF approve] by (auto simp: ApprovalQueue_approve_def Let_def approval_ok_def
        intro: queue_ok_set split: option.splits)
next
  case (reject q now i who why)
  then show ?case
    using queue_ok_get [OF reject] by (auto simp: ApprovalQueue_reject_def Let_def approval_ok_def
        intro: queue_ok_set split: option.splits)
qed

text \<open>What a step may do to a stored request: nothing, or resolve it; its content never changes.\<close>

definition same_request :: "ApprovalRequest \<Rightarrow> ApprovalRequest \<Rightarrow> bool" where
  "same_request r r' \<longleftrightarrow> ap_id r' = ap_id r \<and> ap_kind r' = ap_kind r \<and> ap_action r' = ap_action r
     \<and> ap_targetPaths r' = ap_targetPaths r \<and> ap_reason r' = ap_reason r \<and> ap_requestedBy r' = ap_requestedBy r
     \<and> ap_createdAt r' = ap_createdAt r \<and> (ap_status r' = ApprovalPending \<longrightarrow> ap_status r = ApprovalPending)"

lemma step_same:
  assumes "approval_step q q'" and "jm_get q i = Some r"
  shows "\<exists>r'. jm_get q' i = Some r' \<and> same_request r r'"
  using assms
  by (elim approval_stepE)
    (auto simp: ApprovalQueue_create_def ApprovalQueue_approve_def ApprovalQueue_reject_def Let_def jm_get_set
      same_request_def split: option.splits)

lemma steps_ok: "approval_step\<^sup>*\<^sup>* q q' \<Longrightarrow> queue_ok q \<Longrightarrow> queue_ok q'"
  by (induction rule: rtranclp_induct) (auto intro: step_ok)

lemma steps_same:
  assumes "approval_step\<^sup>*\<^sup>* q q'" and "jm_get q i = Some r"
  shows "\<exists>r'. jm_get q' i = Some r' \<and> same_request r r'"
  using assms
proof (induction rule: rtranclp_induct)
  case (step y z)
  then obtain r1 where "jm_get y i = Some r1" "same_request r r1" by blast
  moreover from step_same [OF step(2) this(1)] obtain r2 where "jm_get z i = Some r2" "same_request r1 r2" by blast
  ultimately show ?case by (auto simp: same_request_def)
qed (auto simp: same_request_def)

section \<open>Properties\<close>

text \<open>
  Along any sequence of queue operations with fresh identifiers, a request is never lost and what
  was asked for never changes; once resolved it is never pending again; every stored request names its
  resolver and the time exactly when it is resolved; and the list of open requests shows exactly the
  pending ones, oldest first.
\<close>

theorem approval_queue_history:
  assumes "approval_step\<^sup>*\<^sup>* q q'" and "queue_ok q"
  shows "queue_ok q'
    \<and> (\<forall>i r. jm_get q i = Some r \<longrightarrow> (\<exists>r'. ApprovalQueue_get q' i = Some r' \<and> same_request r r'))
    \<and> (\<forall>r. r \<in> set (ApprovalQueue_list q' (Some ApprovalPending)) \<longleftrightarrow>
         ApprovalQueue_get q' (ap_id r) = Some r \<and> ap_status r = ApprovalPending)
    \<and> sorted (map ap_createdAt (ApprovalQueue_list q' (Some ApprovalPending)))"
proof -
  have ok: "queue_ok q'" using steps_ok [OF assms] .
  then have jm: "jm_ok q'" by (simp add: queue_ok_def)
  have "r \<in> set (ApprovalQueue_list q' (Some ApprovalPending)) \<longleftrightarrow>
      ApprovalQueue_get q' (ap_id r) = Some r \<and> ap_status r = ApprovalPending" for r
  proof -
    have "r \<in> set (ApprovalQueue_list q' (Some ApprovalPending)) \<longleftrightarrow>
        (\<exists>i. jm_get q' i = Some r) \<and> ap_status r = ApprovalPending"
      using jm_values_iff [OF jm, of r] by (simp add: ApprovalQueue_list_def)
    with queue_ok_get [OF ok] show ?thesis by (auto simp: ApprovalQueue_get_def)
  qed
  moreover have "sorted (map ap_createdAt (ApprovalQueue_list q' (Some ApprovalPending)))"
    by (simp add: ApprovalQueue_list_def)
  ultimately show ?thesis using ok steps_same [OF assms(1)] by (auto simp: ApprovalQueue_get_def)
qed

definition demo_approval :: CreateApprovalRequestInput where
  "demo_approval = \<lparr>ar_kind = KindShell, ar_action = ''rm'', ar_targetPaths = [''/srv''], ar_reason = ''elevation'',
     ar_requestedBy = ''tool''\<rparr>"

theorem approval_queue_history_witness:
  "queue_ok (fst (ApprovalQueue_approve ''2'' (fst (ApprovalQueue_create ''a1'' ''1'' [] demo_approval)) ''a1'' ''root''))"
proof -
  let ?q = "fst (ApprovalQueue_create ''a1'' ''1'' [] demo_approval)"
  have "approval_step\<^sup>*\<^sup>* [] (fst (ApprovalQueue_approve ''2'' ?q ''a1'' ''root''))"
    by (meson approval_step.create approval_step.approve map_of.simps(1) r_into_rtranclp rtranclp.rtrancl_into_rtrancl)
  moreover have "queue_ok []" by (simp add: queue_ok_def)
  ultimately show ?thesis using approval_queue_history by blast
qed

text \<open>
  A resolution is not final: approving a rejected request succeeds with reply 200 and turns it into
  an approved one that still carries the rejecter's comment, because neither the queue nor the routes
  check that a request is pending.
\<close>

theorem rejected_request_can_be_approved:
  assumes "rq_apiKey req = Some k" and "jm_get q (rq_id req) = Some r" and "ap_status r = ApprovalRejected"
  shows "\<exists>q' u. post_approve now q req = (q', \<lparr>rp_status = 200, rp_body = approval_json u\<rparr>)
    \<and> ApprovalQueue_get q' (rq_id req) = Some u \<and> ap_status u = ApprovalApproved
    \<and> ap_resolutionComment u = ap_resolutionComment r \<and> ap_resolvedBy u = Some (au_id k)"
  using assms
  by (simp add: post_approve_def ApprovalQueue_approve_def resolution_reply_def ApprovalQueue_get_def Let_def jm_get_set)

theorem rejected_request_can_be_approved_witness:
  "\<exists>q' u. post_approve ''3'' (fst (ApprovalQueue_reject ''2'' (fst (ApprovalQueue_create ''k1'' ''1'' [] demo_approval)) ''k1'' ''root'' (Some ''no'')))
      (demo_request\<lparr>rq_apiKey := Some (sanitizeApiKey (hd demo_rows))\<rparr>)
    = (q', \<lparr>rp_status = 200, rp_body = approval_json u\<rparr>) \<and> ap_status u = ApprovalApproved"
proof -
  let ?q = "fst (ApprovalQueue_reject ''2'' (fst (ApprovalQueue_create ''k1'' ''1'' [] demo_approval)) ''k1'' ''root'' (Some ''no''))"
  have "\<exists>r. jm_get ?q ''k1'' = Some r \<and> ap_status r = ApprovalRejected"
    by (simp add: ApprovalQueue_reject_def ApprovalQueue_create_def Let_def)
  then show ?thesis
    using rejected_request_can_be_approved [of "demo_request\<lparr>rq_apiKey := Some (sanitizeApiKey (hd demo_rows))\<rparr>"]
    by (fastforce simp: demo_request_def)
qed

end
