(* ===== verification/Agent_Repositories.thy ===== *)
theory Agent_Repositories
  imports Protocol
begin

text \<open>
  The in-memory repositories of the agent runner (\<^verbatim>\<open>apps/agent-runner/src/repositories.ts\<close>): agents,
  background tasks, runs, run messages, task transcripts and pending messages. Each repository is one
  insertion-ordered map of the state \<open>store\<close>; the transcript repository also moves the cursor of the
  task it belongs to. Identifiers and times are arguments of the operations that draw them.
\<close>

section \<open>State\<close>

record store =
  st_agents :: "(ident, Agent) jsmap"
  st_tasks :: "(ident, AgentTask) jsmap"
  st_runs :: "(ident, Run) jsmap"
  st_messages :: "(ident, Message list) jsmap"
  st_transcripts :: "(ident, AgentTranscriptEntry list) jsmap"
  st_pending :: "(ident, AgentTaskPendingMessage) jsmap"

definition store_init :: store where
  "store_init = \<lparr>st_agents = [], st_tasks = [], st_runs = [], st_messages = [], st_transcripts = [], st_pending = []\<rparr>"

section \<open>Agents\<close>

definition new_agent :: "ident \<Rightarrow> CreateAgent \<Rightarrow> Agent" where
  "new_agent uuid d =
     \<lparr>ag_id = uuid, ag_name = ca_name d, ag_systemPrompt = ca_systemPrompt d, ag_provider = ca_provider d,
      ag_tools = js_or (ca_tools d) [], ag_effort = js_or (ca_effort d) EffortMedium,
      ag_isolation = js_or (ca_isolation d) IsoShared, ag_permissionMode = js_or (ca_permissionMode d) ''default'',
      ag_mode = js_or (ca_mode d) ModeStandard, ag_maxTurns = ca_maxTurns d, ag_background = js_or (ca_background d) False\<rparr>"

definition InMemoryAgentRepository_create :: "ident \<Rightarrow> store \<Rightarrow> CreateAgent \<Rightarrow> store \<times> Agent" where
  "InMemoryAgentRepository_create uuid s d =
     (let a = new_agent uuid d in (s\<lparr>st_agents := jm_set (st_agents s) (ag_id a) a\<rparr>, a))"

definition InMemoryAgentRepository_get :: "store \<Rightarrow> ident \<Rightarrow> Agent option" where
  "InMemoryAgentRepository_get s i = jm_get (st_agents s) i"

definition InMemoryAgentRepository_list :: "store \<Rightarrow> Agent list" where
  "InMemoryAgentRepository_list s = jm_values (st_agents s)"

definition InMemoryAgentRepository_delete :: "store \<Rightarrow> ident \<Rightarrow> store \<times> bool" where
  "InMemoryAgentRepository_delete s i =
     (s\<lparr>st_agents := jm_delete (st_agents s) i\<rparr>, jm_get (st_agents s) i \<noteq> None)"

section \<open>Background tasks\<close>

definition new_task :: "ident \<Rightarrow> timestamp \<Rightarrow> CreateAgentTask \<Rightarrow> AgentTask" where
  "new_task uuid now d =
     \<lparr>tk_id = uuid, tk_selectedAgentId = ct_selectedAgentId d, tk_status = TaskPending,
      tk_initialInput = ct_initialInput d, tk_background = js_or (ct_background d) True,
      tk_parentRunId = ct_parentRunId d, tk_parentTaskId = ct_parentTaskId d, tk_activeRunId = None,
      tk_transcript = \<lparr>tx_taskId = uuid, tx_lastMessageSeq = 0\<rparr>, tk_metadata = js_or (ct_metadata d) [],
      tk_createdAt = now, tk_updatedAt = now, tk_error = None\<rparr>"

definition InMemoryAgentTaskRepository_create ::
    "ident \<Rightarrow> timestamp \<Rightarrow> store \<Rightarrow> CreateAgentTask \<Rightarrow> store \<times> AgentTask" where
  "InMemoryAgentTaskRepository_create uuid now s d =
     (let t = new_task uuid now d in (s\<lparr>st_tasks := jm_set (st_tasks s) uuid t\<rparr>, t))"

definition InMemoryAgentTaskRepository_get :: "store \<Rightarrow> ident \<Rightarrow> AgentTask option" where
  "InMemoryAgentTaskRepository_get s i = jm_get (st_tasks s) i"

definition InMemoryAgentTaskRepository_list :: "store \<Rightarrow> AgentTask list" where
  "InMemoryAgentTaskRepository_list s = jm_values (st_tasks s)"

definition InMemoryAgentTaskRepository_updateStatus ::
    "timestamp \<Rightarrow> store \<Rightarrow> ident \<Rightarrow> AgentTaskStatus \<Rightarrow> string option \<Rightarrow> store \<times> AgentTask option" where
  "InMemoryAgentTaskRepository_updateStatus now s i status err =
     (case jm_get (st_tasks s) i of
        None \<Rightarrow> (s, None)
      | Some t \<Rightarrow>
          let u = t\<lparr>tk_status := status, tk_updatedAt := now, tk_error := js_or_opt err (tk_error t)\<rparr>
          in (s\<lparr>st_tasks := jm_set (st_tasks s) i u\<rparr>, Some u))"

definition InMemoryAgentTaskRepository_setActiveRun ::
    "timestamp \<Rightarrow> store \<Rightarrow> ident \<Rightarrow> ident option \<Rightarrow> store \<times> AgentTask option" where
  "InMemoryAgentTaskRepository_setActiveRun now s i r =
     (case jm_get (st_tasks s) i of
        None \<Rightarrow> (s, None)
      | Some t \<Rightarrow>
          let u = t\<lparr>tk_activeRunId := r, tk_updatedAt := now\<rparr>
          in (s\<lparr>st_tasks := jm_set (st_tasks s) i u\<rparr>, Some u))"

definition updateTranscriptCursor :: "timestamp \<Rightarrow> store \<Rightarrow> ident \<Rightarrow> nat \<Rightarrow> store" where
  "updateTranscriptCursor now s i n =
     (case jm_get (st_tasks s) i of
        None \<Rightarrow> s
      | Some t \<Rightarrow>
          s\<lparr>st_tasks := jm_set (st_tasks s) i
              (t\<lparr>tk_transcript := \<lparr>tx_taskId = tk_id t, tx_lastMessageSeq = n\<rparr>, tk_updatedAt := now\<rparr>)\<rparr>)"

section \<open>Runs and their messages\<close>

definition new_run :: "ident \<Rightarrow> timestamp \<Rightarrow> ident \<Rightarrow> string \<Rightarrow> AgentRunLink option \<Rightarrow> Run" where
  "new_run uuid now agentId input link =
     \<lparr>rn_id = uuid, rn_agentId = agentId, rn_input = input, rn_status = RunPending,
      rn_parentRunId = Option.bind link lk_parentRunId, rn_agentTaskId = Option.bind link lk_agentTaskId,
      rn_createdAt = now, rn_updatedAt = now, rn_error = None\<rparr>"

definition InMemoryRunRepository_create ::
    "ident \<Rightarrow> timestamp \<Rightarrow> store \<Rightarrow> ident \<Rightarrow> string \<Rightarrow> AgentRunLink option \<Rightarrow> store \<times> Run" where
  "InMemoryRunRepository_create uuid now s agentId input link =
     (let r = new_run uuid now agentId input link in (s\<lparr>st_runs := jm_set (st_runs s) (rn_id r) r\<rparr>, r))"

definition InMemoryRunRepository_get :: "store \<Rightarrow> ident \<Rightarrow> Run option" where
  "InMemoryRunRepository_get s i = jm_get (st_runs s) i"

definition InMemoryRunRepository_updateStatus ::
    "timestamp \<Rightarrow> store \<Rightarrow> ident \<Rightarrow> RunStatus \<Rightarrow> string option \<Rightarrow> store \<times> Run option" where
  "InMemoryRunRepository_updateStatus now s i status err =
     (case jm_get (st_runs s) i of
        None \<Rightarrow> (s, None)
      | Some r \<Rightarrow>
          let u = r\<lparr>rn_status := status, rn_updatedAt := now, rn_error := js_or_opt err (rn_error r)\<rparr>
          in (s\<lparr>st_runs := jm_set (st_runs s) i u\<rparr>, Some u))"

definition InMemoryRunRepository_list :: "store \<Rightarrow> Run list" where
  "InMemoryRunRepository_list s = jm_values (st_runs s)"

definition InMemoryMessageRepository_append :: "store \<Rightarrow> ident \<Rightarrow> Message \<Rightarrow> store" where
  "InMemoryMessageRepository_append s runId m =
     s\<lparr>st_messages := jm_set (st_messages s) runId (js_or (jm_get (st_messages s) runId) [] @ [m])\<rparr>"

definition InMemoryMessageRepository_listByRunId :: "store \<Rightarrow> ident \<Rightarrow> Message list" where
  "InMemoryMessageRepository_listByRunId s runId = js_or (jm_get (st_messages s) runId) []"

section \<open>Task transcripts\<close>

definition InMemoryAgentTaskMessageRepository_listByTaskId :: "store \<Rightarrow> ident \<Rightarrow> AgentTranscriptEntry list" where
  "InMemoryAgentTaskMessageRepository_listByTaskId s taskId = js_or (jm_get (st_transcripts s) taskId) []"

definition InMemoryAgentTaskMessageRepository_append ::
    "timestamp \<Rightarrow> store \<Rightarrow> ident \<Rightarrow> Message \<Rightarrow> ident option \<Rightarrow> store \<times> AgentTranscriptEntry" where
  "InMemoryAgentTaskMessageRepository_append now s taskId m sourceRunId =
     (let existing = js_or (jm_get (st_transcripts s) taskId) [];
          entry = \<lparr>te_seq = length existing + 1, te_taskId = taskId, te_sourceRunId = sourceRunId,
                   te_message = m, te_insertedAt = now\<rparr>;
          s1 = s\<lparr>st_transcripts := jm_set (st_transcripts s) taskId (existing @ [entry])\<rparr>
      in (updateTranscriptCursor now s1 taskId (te_seq entry), entry))"

section \<open>Pending messages\<close>

definition InMemoryAgentTaskPendingMessageRepository_enqueue ::
    "ident \<Rightarrow> timestamp \<Rightarrow> store \<Rightarrow> CreateAgentTaskPendingMessage \<Rightarrow> store \<times> AgentTaskPendingMessage" where
  "InMemoryAgentTaskPendingMessageRepository_enqueue uuid now s d =
     (let p = \<lparr>pn_id = uuid, pn_taskId = cp_taskId d, pn_role = cp_role d, pn_content = cp_content d,
               pn_createdAt = now, pn_deliveredAt = None\<rparr>
      in (s\<lparr>st_pending := jm_set (st_pending s) uuid p\<rparr>, p))"

definition InMemoryAgentTaskPendingMessageRepository_listPendingByTaskId ::
    "store \<Rightarrow> ident \<Rightarrow> AgentTaskPendingMessage list" where
  "InMemoryAgentTaskPendingMessageRepository_listPendingByTaskId s taskId =
     filter (\<lambda>p. pn_taskId p = taskId \<and> \<not> js_truthy (pn_deliveredAt p)) (jm_values (st_pending s))"

definition InMemoryAgentTaskPendingMessageRepository_markDelivered ::
    "timestamp \<Rightarrow> store \<Rightarrow> ident \<Rightarrow> store \<times> AgentTaskPendingMessage option" where
  "InMemoryAgentTaskPendingMessageRepository_markDelivered now s i =
     (case jm_get (st_pending s) i of
        None \<Rightarrow> (s, None)
      | Some p \<Rightarrow>
          let u = p\<lparr>pn_deliveredAt := Some now\<rparr> in (s\<lparr>st_pending := jm_set (st_pending s) i u\<rparr>, Some u))"

text \<open>Short names for the operations, used by the components above them.\<close>

abbreviation "task_get \<equiv> InMemoryAgentTaskRepository_get"
abbreviation "task_updateStatus \<equiv> InMemoryAgentTaskRepository_updateStatus"
abbreviation "task_setActiveRun \<equiv> InMemoryAgentTaskRepository_setActiveRun"
abbreviation "run_get \<equiv> InMemoryRunRepository_get"
abbreviation "run_create \<equiv> InMemoryRunRepository_create"
abbreviation "run_updateStatus \<equiv> InMemoryRunRepository_updateStatus"
abbreviation "run_append \<equiv> InMemoryMessageRepository_append"
abbreviation "run_messages \<equiv> InMemoryMessageRepository_listByRunId"
abbreviation "transcript_append \<equiv> InMemoryAgentTaskMessageRepository_append"
abbreviation "transcript_of \<equiv> InMemoryAgentTaskMessageRepository_listByTaskId"
abbreviation "pending_enqueue \<equiv> InMemoryAgentTaskPendingMessageRepository_enqueue"
abbreviation "pending_list \<equiv> InMemoryAgentTaskPendingMessageRepository_listPendingByTaskId"
abbreviation "pending_deliver \<equiv> InMemoryAgentTaskPendingMessageRepository_markDelivered"

lemmas store_ops =
  InMemoryAgentRepository_create_def InMemoryAgentRepository_get_def InMemoryAgentRepository_delete_def
  InMemoryAgentTaskRepository_create_def InMemoryAgentTaskRepository_get_def
  InMemoryAgentTaskRepository_updateStatus_def InMemoryAgentTaskRepository_setActiveRun_def
  updateTranscriptCursor_def InMemoryRunRepository_create_def InMemoryRunRepository_get_def
  InMemoryRunRepository_updateStatus_def InMemoryMessageRepository_append_def
  InMemoryMessageRepository_listByRunId_def InMemoryAgentTaskMessageRepository_append_def
  InMemoryAgentTaskMessageRepository_listByTaskId_def InMemoryAgentTaskPendingMessageRepository_enqueue_def
  InMemoryAgentTaskPendingMessageRepository_listPendingByTaskId_def
  InMemoryAgentTaskPendingMessageRepository_markDelivered_def

section \<open>The store invariant\<close>

text \<open>
  Records are stored under their identifiers; a transcript is numbered 1, 2, 3 and so on without gaps, its
  entries belong to the task, and the task's cursor is the number of the last entry.
\<close>

definition transcript_ok :: "ident \<Rightarrow> AgentTranscriptEntry list \<Rightarrow> bool" where
  "transcript_ok i es \<longleftrightarrow> map te_seq es = [1..<length es + 1] \<and> (\<forall>e \<in> set es. te_taskId e = i)"

definition store_ok :: "store \<Rightarrow> bool" where
  "store_ok s \<longleftrightarrow>
     (\<forall>i t. jm_get (st_tasks s) i = Some t \<longrightarrow> tk_id t = i \<and>
        tk_transcript t = \<lparr>tx_taskId = i, tx_lastMessageSeq = length (transcript_of s i)\<rparr>) \<and>
     (\<forall>i r. jm_get (st_runs s) i = Some r \<longrightarrow> rn_id r = i) \<and>
     (\<forall>i p. jm_get (st_pending s) i = Some p \<longrightarrow> pn_id p = i) \<and>
     (\<forall>i es. jm_get (st_transcripts s) i = Some es \<longrightarrow> transcript_ok i es)"

lemma store_ok_init: "store_ok store_init"
  by (simp add: store_ok_def store_init_def)

lemma store_ok_task_create:
  "store_ok s \<Longrightarrow> transcript_of s uuid = [] \<Longrightarrow> store_ok (fst (InMemoryAgentTaskRepository_create uuid now s d))"
  by (auto simp: store_ok_def store_ops new_task_def Let_def jm_get_set)

lemma store_ok_task_updateStatus: "store_ok s \<Longrightarrow> store_ok (fst (task_updateStatus now s i st err))"
  by (auto simp: store_ok_def store_ops Let_def jm_get_set split: option.splits)

lemma store_ok_task_setActiveRun: "store_ok s \<Longrightarrow> store_ok (fst (task_setActiveRun now s i r))"
  by (auto simp: store_ok_def store_ops Let_def jm_get_set split: option.splits)

lemma store_ok_run_create: "store_ok s \<Longrightarrow> store_ok (fst (run_create uuid now s a input link))"
  by (auto simp: store_ok_def store_ops Let_def jm_get_set new_run_def)

lemma store_ok_run_updateStatus: "store_ok s \<Longrightarrow> store_ok (fst (run_updateStatus now s i st err))"
  by (auto simp: store_ok_def store_ops Let_def jm_get_set split: option.splits)

lemma store_ok_run_append: "store_ok s \<Longrightarrow> store_ok (run_append s r m)"
  by (auto simp: store_ok_def store_ops)

lemma store_ok_enqueue: "store_ok s \<Longrightarrow> store_ok (fst (pending_enqueue uuid now s d))"
  by (auto simp: store_ok_def store_ops Let_def jm_get_set)

lemma store_ok_deliver: "store_ok s \<Longrightarrow> store_ok (fst (pending_deliver now s i))"
  by (auto simp: store_ok_def store_ops Let_def jm_get_set split: option.splits)

lemma store_ok_agents: "store_ok (s\<lparr>st_agents := as\<rparr>) \<longleftrightarrow> store_ok s"
  by (simp add: store_ok_def store_ops)

lemma transcript_ok_snoc:
  assumes "transcript_ok i es" and "te_seq e = length es + 1" and "te_taskId e = i"
  shows "transcript_ok i (es @ [e])"
  using assms by (simp add: transcript_ok_def)

lemma transcript_ok_of: "store_ok s \<Longrightarrow> transcript_ok i (transcript_of s i)"
  by (cases "jm_get (st_transcripts s) i") (auto simp: store_ok_def store_ops transcript_ok_def)

lemma transcript_of_append:
  "transcript_of (fst (transcript_append now s i m r)) j =
   (if j = i then transcript_of s i @ [snd (transcript_append now s i m r)] else transcript_of s j)"
  by (simp add: store_ops Let_def jm_get_set split: option.splits)

lemma store_ok_transcript_append:
  assumes "store_ok s"
  shows "store_ok (fst (transcript_append now s i m r))"
proof -
  let ?s = "fst (transcript_append now s i m r)" and ?e = "snd (transcript_append now s i m r)"
  have seq: "te_seq ?e = length (transcript_of s i) + 1" "te_taskId ?e = i"
    by (simp_all add: store_ops Let_def)
  have "transcript_ok j es" if "jm_get (st_transcripts ?s) j = Some es" for j es
  proof -
    have "es = transcript_of ?s j" using that by (simp add: InMemoryAgentTaskMessageRepository_listByTaskId_def)
    then show ?thesis
      using transcript_ok_of [OF assms] transcript_ok_snoc [OF transcript_ok_of [OF assms] seq]
      by (simp add: transcript_of_append)
  qed
  moreover have "tk_id t = j \<and> tk_transcript t = \<lparr>tx_taskId = j, tx_lastMessageSeq = length (transcript_of ?s j)\<rparr>"
    if "jm_get (st_tasks ?s) j = Some t" for j t
    using that assms unfolding transcript_of_append
    by (auto simp: store_ok_def store_ops Let_def jm_get_set split: option.splits if_splits)
  moreover have "st_runs ?s = st_runs s" "st_pending ?s = st_pending s"
    by (auto simp: store_ops Let_def split: option.splits)
  ultimately show ?thesis using assms by (simp add: store_ok_def)
qed

end
