(* ===== verification/Execution_Loop.thy ===== *)
theory Execution_Loop
  imports Agent_Repositories Tool_Registry
begin

text \<open>
  The execution of one run (\<^verbatim>\<open>apps/agent-runner/src/execution-loop.ts\<close>) with the coordinator rules
  (\<^verbatim>\<open>coordinator-mode.ts\<close>) and the recording of failures (\<^verbatim>\<open>run-failure.ts\<close>).

  The model provider (\<open>resolve\<close>) and the AI SDK's \<^verbatim>\<open>generateText\<close> (\<open>gen\<close>, a function of the request it
  is given that either throws, also on the abort timer, or returns its steps) are arguments. What an
  execution does to the repositories is a list of effects, one per awaited repository call, so that
  the agent service can interleave them; \<open>executeRunRequest\<close> performs them in order, the \<open>k\<close>-th at
  time \<open>clock k\<close>. Logging, tracing and metrics are left out.
\<close>

section \<open>Coordinator mode\<close>

definition COORDINATOR_MODE_PROMPT :: string where
  "COORDINATOR_MODE_PROMPT = js_join '' ''
     [''You are operating in coordinator mode.'',
      ''Answer directly when delegation is unnecessary.'',
      ''Delegate only when specialized or long-running work is warranted.'',
      ''Reuse an existing worker when it already covers the current workstream instead of always creating a new one.'',
      ''Use only the provided orchestration tools for worker lifecycle, inspection, and communication.'']"

definition isCoordinatorAgent :: "Agent \<Rightarrow> bool" where
  "isCoordinatorAgent a \<longleftrightarrow> ag_mode a = ModeCoordinator"

definition buildRuntimeSystemPrompt :: "Agent \<Rightarrow> string" where
  "buildRuntimeSystemPrompt a =
     (if \<not> isCoordinatorAgent a then ag_systemPrompt a
      else ag_systemPrompt a @ [CHR 0x0A, CHR 0x0A] @ COORDINATOR_MODE_PROMPT)"

definition getCoordinatorAllowedToolNames :: "ToolDefinition list \<Rightarrow> string list" where
  "getCoordinatorAllowedToolNames ts = filter (\<lambda>n. js_startsWith n ''agent_tasks.'') (map td_name ts)"

definition isToolAllowedForAgent :: "Agent \<Rightarrow> string \<Rightarrow> string list \<Rightarrow> bool" where
  "isToolAllowedForAgent a n avail \<longleftrightarrow>
     \<not> (isCoordinatorAgent a \<and> n \<notin> set avail) \<and> (ag_tools a = [] \<or> n \<in> set (ag_tools a))"

datatype CoordinatorActionDecision = Direct string | Reuse ident string | Spawn string

definition decideCoordinatorAction :: "bool \<Rightarrow> ident option \<Rightarrow> CoordinatorActionDecision" where
  "decideCoordinatorAction requiresDelegation existingTaskId =
     (if \<not> requiresDelegation then Direct ''The current task can be answered directly without a worker.''
      else if js_truthy existingTaskId
      then Reuse (the existingTaskId) ''A relevant worker already exists and should be continued.''
      else Spawn ''Specialized or long-running work requires a new worker.'')"

section \<open>What the model is asked\<close>

definition formatToolResultForModel :: "ToolResult \<Rightarrow> string" where
  "formatToolResultForModel r =
     (if tr_success r then js_or (tr_content r) []
      else if tr_approvalRequired r = Some True
      then ''Approval required: '' @ js_or (tr_error r) ''This action requires operator approval.''
           @ (if js_truthy (tr_approvalRequestId r)
              then '' Approval request ID: '' @ the (tr_approvalRequestId r) @ ''.'' else [])
      else ''Error: '' @ js_or (tr_error r) ''Unknown error'')"

definition renderAssistantHistory :: "string option \<Rightarrow> ToolCall list option \<Rightarrow> string" where
  "renderAssistantHistory content calls =
     (if js_truthy content then the content
      else (case calls of
              Some (c # cs) \<Rightarrow> js_join [CHR 0x0A] (map (\<lambda>k. ''Tool call '' @ tc_toolName k @ ''('' @ json_stringify (tc_args k) @ '')'') (c # cs))
            | _ \<Rightarrow> ''Assistant response''))"

datatype model_role = AsUser | AsAssistant

fun toModelHistoryMessages :: "Message list \<Rightarrow> (model_role \<times> string) list" where
  "toModelHistoryMessages [] = []"
| "toModelHistoryMessages (SystemMessage c # ms) = toModelHistoryMessages ms"
| "toModelHistoryMessages (UserMessage c # ms) = (AsUser, c) # toModelHistoryMessages ms"
| "toModelHistoryMessages (AssistantMessage c k # ms) = (AsAssistant, renderAssistantHistory c k) # toModelHistoryMessages ms"
| "toModelHistoryMessages (ToolMessage i c # ms) =
     (AsAssistant, ''Tool result ('' @ i @ ''): '' @ c) # toModelHistoryMessages ms"

definition tools_for_sdk :: "Agent \<Rightarrow> ToolDefinition list \<Rightarrow> ToolDefinition list" where
  "tools_for_sdk a registered =
     filter (\<lambda>d. \<not> (ag_tools a \<noteq> [] \<and> td_name d \<notin> set (ag_tools a))
        \<and> isToolAllowedForAgent a (td_name d) (getCoordinatorAllowedToolNames registered)) registered"

definition sdk_tool_execute :: "ToolRegistry \<Rightarrow> string \<Rightarrow> string \<Rightarrow> json \<Rightarrow> string" where
  "sdk_tool_execute reg millis toolName input =
     formatToolResultForModel (executeTool reg (''call-'' @ toolName @ ''-'' @ millis) toolName input)"

record ExecutionOptions =
  xo_maxTurns :: nat
  xo_llmTimeoutMs :: nat

record llm_request =
  lr_system :: string
  lr_messages :: "(model_role \<times> string) list"
  lr_tools :: "ToolDefinition list"
  lr_stepLimit :: nat
  lr_timeoutMs :: nat

definition build_llm_request ::
    "Agent \<Rightarrow> string \<Rightarrow> Message list \<Rightarrow> ToolDefinition list \<Rightarrow> ExecutionOptions \<Rightarrow> llm_request" where
  "build_llm_request a userInput hist registered xo =
     (let turns = js_or (ag_maxTurns a) (xo_maxTurns xo)
      in \<lparr>lr_system = buildRuntimeSystemPrompt a,
          lr_messages = toModelHistoryMessages hist @ [(AsUser, userInput)],
          lr_tools = tools_for_sdk a registered, lr_stepLimit = turns, lr_timeoutMs = xo_llmTimeoutMs xo * turns\<rparr>)"

section \<open>What the model answers\<close>

record sdk_tool_call =
  sc_toolCallId :: ident
  sc_toolName :: string
  sc_args :: "json option"
  sc_input :: "json option"

record sdk_tool_result =
  sr_toolCallId :: ident
  sr_output :: "json option"
  sr_result :: "json option"

record llm_step =
  ls_toolCalls :: "sdk_tool_call list option"
  ls_toolResults :: "sdk_tool_result list option"
  ls_text :: string

record llm_result =
  lm_steps :: "llm_step list option"
  lm_finishReason :: string
  lm_text :: string

definition step_tool_call :: "sdk_tool_call \<Rightarrow> ToolCall" where
  "step_tool_call c = \<lparr>tc_toolCallId = sc_toolCallId c, tc_toolName = sc_toolName c,
     tc_args = js_or (js_or_opt (json_nullish (sc_args c)) (json_nullish (sc_input c))) (JObj [])\<rparr>"

definition step_tool_message :: "sdk_tool_result \<Rightarrow> Message" where
  "step_tool_message r =
     (let output = js_or (js_or_opt (json_nullish (sr_output r)) (json_nullish (sr_result r))) (JStr [])
      in ToolMessage (sr_toolCallId r) (case output of JStr t \<Rightarrow> t | j \<Rightarrow> json_stringify j))"

definition step_messages :: "llm_step \<Rightarrow> Message list" where
  "step_messages st =
     (case ls_toolCalls st of
        Some (c # cs) \<Rightarrow> AssistantMessage None (Some (map step_tool_call (c # cs)))
           # map step_tool_message (js_or (ls_toolResults st) [])
      | _ \<Rightarrow> [])
     @ (if ls_text st \<noteq> [] then [AssistantMessage (Some (ls_text st)) None] else [])"

section \<open>Effects of a run\<close>

datatype run_effect = EffStatus RunStatus "string option" | EffMessage Message

text \<open>\<^verbatim>\<open>markRunFailed\<close> records the message of the error.\<close>

definition markRunFailed :: "exn \<Rightarrow> run_effect" where
  "markRunFailed e = EffStatus RunFailed (Some (message e))"

definition result_effects :: "llm_result \<Rightarrow> run_effect list" where
  "result_effects r =
     map EffMessage (concat (map step_messages (js_or (lm_steps r) [])))
     @ (if lm_finishReason r = ''stop'' \<or> lm_finishReason r = ''other''
        then (if js_or (lm_steps r) [] = [] then [EffMessage (AssistantMessage (Some (lm_text r)) None)] else [])
             @ [EffStatus RunCompleted None]
        else if lm_finishReason r = ''length'' then [markRunFailed (Error ''Maximum turn limit exceeded'')]
        else [EffStatus RunCompleted None])"

definition run_effects ::
    "(ProviderConfig \<Rightarrow> unit result) \<Rightarrow> (llm_request \<Rightarrow> llm_result result) \<Rightarrow> ToolRegistry \<Rightarrow> ExecutionOptions
     \<Rightarrow> Agent \<Rightarrow> string \<Rightarrow> Message list \<Rightarrow> run_effect list" where
  "run_effects resolve gen reg xo a userInput hist =
     [EffStatus RunRunning None, EffMessage (SystemMessage (buildRuntimeSystemPrompt a)),
      EffMessage (UserMessage userInput)]
     @ (case resolve (ag_provider a) of
          Inl e \<Rightarrow> [markRunFailed e]
        | Inr _ \<Rightarrow>
            (case gen (build_llm_request a userInput hist (listTools reg) xo) of
               Inl e \<Rightarrow> [markRunFailed e]
             | Inr r \<Rightarrow> result_effects r))"

text \<open>
  A message goes to the run and, for the run of a background task, also to the task's transcript
  (\<^verbatim>\<open>MirroringMessageRepository\<close>).
\<close>

definition MirroringMessageRepository_append :: "timestamp \<Rightarrow> store \<Rightarrow> ident \<Rightarrow> ident \<Rightarrow> Message \<Rightarrow> store" where
  "MirroringMessageRepository_append now s taskId runId m =
     fst (transcript_append now (run_append s runId m) taskId m (Some runId))"

definition apply_effect :: "timestamp \<Rightarrow> ident \<Rightarrow> ident option \<Rightarrow> run_effect \<Rightarrow> store \<Rightarrow> store" where
  "apply_effect now runId task eff s =
     (case eff of
        EffStatus st e \<Rightarrow> fst (run_updateStatus now s runId st e)
      | EffMessage m \<Rightarrow>
          (case task of None \<Rightarrow> run_append s runId m
           | Some t \<Rightarrow> MirroringMessageRepository_append now s t runId m))"

fun perform :: "(nat \<Rightarrow> timestamp) \<Rightarrow> nat \<Rightarrow> ident \<Rightarrow> ident option \<Rightarrow> run_effect list \<Rightarrow> store \<Rightarrow> store" where
  "perform clock k runId task [] s = s"
| "perform clock k runId task (e # es) s =
     perform clock (Suc k) runId task es (apply_effect (clock k) runId task e s)"

definition executeRunRequest ::
    "(nat \<Rightarrow> timestamp) \<Rightarrow> (ProviderConfig \<Rightarrow> unit result) \<Rightarrow> (llm_request \<Rightarrow> llm_result result) \<Rightarrow> ToolRegistry
     \<Rightarrow> ExecutionOptions \<Rightarrow> ident \<Rightarrow> ident option \<Rightarrow> Agent \<Rightarrow> string \<Rightarrow> Message list \<Rightarrow> store \<Rightarrow> store" where
  "executeRunRequest clock resolve gen reg xo runId task a userInput hist s =
     perform clock 0 runId task (run_effects resolve gen reg xo a userInput hist) s"

definition executeRun ::
    "(nat \<Rightarrow> timestamp) \<Rightarrow> (ProviderConfig \<Rightarrow> unit result) \<Rightarrow> (llm_request \<Rightarrow> llm_result result) \<Rightarrow> ToolRegistry
     \<Rightarrow> ExecutionOptions \<Rightarrow> ident \<Rightarrow> Agent \<Rightarrow> string \<Rightarrow> store \<Rightarrow> store" where
  "executeRun clock resolve gen reg xo runId a userInput s =
     executeRunRequest clock resolve gen reg xo runId None a userInput [] s"

section \<open>Lemmas\<close>

fun effect_messages :: "run_effect list \<Rightarrow> Message list" where
  "effect_messages [] = []"
| "effect_messages (EffMessage m # es) = m # effect_messages es"
| "effect_messages (EffStatus st e # es) = effect_messages es"

lemma effect_messages_append [simp]: "effect_messages (es @ fs) = effect_messages es @ effect_messages fs"
  by (induction es rule: effect_messages.induct) auto

lemma effect_messages_map [simp]: "effect_messages (map EffMessage ms) = ms"
  by (induction ms) auto

lemma apply_effect_store_ok: "store_ok s \<Longrightarrow> store_ok (apply_effect now r t e s)"
  by (auto simp: apply_effect_def MirroringMessageRepository_append_def store_ok_run_updateStatus
      store_ok_run_append store_ok_transcript_append split: run_effect.splits option.splits)

lemma perform_store_ok: "store_ok s \<Longrightarrow> store_ok (perform clock k r t es s)"
  by (induction es arbitrary: k s) (simp_all add: apply_effect_store_ok)

lemma perform_append: "perform clock k r t (es @ fs) s = perform clock (k + length es) r t fs (perform clock k r t es s)"
  by (induction es arbitrary: k s) simp_all

lemma mirror_runs [simp]: "st_runs (MirroringMessageRepository_append now s t r m) = st_runs s"
  by (simp add: MirroringMessageRepository_append_def store_ops Let_def split: option.splits)

lemma mirror_messages [simp]:
  "run_messages (MirroringMessageRepository_append now s t r m) r' = run_messages (run_append s r m) r'"
  by (simp add: MirroringMessageRepository_append_def store_ops Let_def split: option.splits)

lemma run_append_messages [simp]:
  "run_messages (run_append s r m) r' = (if r' = r then run_messages s r @ [m] else run_messages s r')"
  by (simp add: store_ops jm_get_set)

lemma status_messages [simp]: "run_messages (fst (run_updateStatus now s r st e)) r' = run_messages s r'"
  by (simp add: store_ops Let_def split: option.splits)

lemma apply_messages:
  "run_messages (apply_effect now r t e s) r' = run_messages s r' @ (if r' = r then effect_messages [e] else [])"
  by (cases e) (auto simp: apply_effect_def split: option.splits)

lemma perform_messages:
  "run_messages (perform clock k r t es s) r' = run_messages s r' @ (if r' = r then effect_messages es else [])"
proof (induction es arbitrary: k s)
  case (Cons e es)
  then show ?case by (cases e) (auto simp: apply_messages)
qed simp

lemma apply_run_present:
  "jm_get (st_runs s) r \<noteq> None \<Longrightarrow> jm_get (st_runs (apply_effect now r t e s)) r \<noteq> None"
  by (auto simp: apply_effect_def store_ops Let_def jm_get_set split: run_effect.splits option.splits)

lemma perform_run_present: "jm_get (st_runs s) r \<noteq> None \<Longrightarrow> jm_get (st_runs (perform clock k r t es s)) r \<noteq> None"
proof (induction es arbitrary: k s)
  case (Cons e es)
  from Cons.IH [OF apply_run_present [OF Cons.prems]] show ?case by (simp only: perform.simps not_False_eq_True)
qed simp

lemma perform_status_last:
  assumes "jm_get (st_runs s) r \<noteq> None"
  shows "\<exists>x. run_get (perform clock k r t (es @ [EffStatus st e]) s) r = Some x \<and> rn_status x = st
    \<and> (\<forall>m. e = Some m \<longrightarrow> rn_error x = Some m)"
proof -
  let ?s = "perform clock k r t es s"
  obtain x where "jm_get (st_runs ?s) r = Some x" using perform_run_present [OF assms] by blast
  then show ?thesis
    by (auto simp: perform_append apply_effect_def store_ops Let_def jm_get_set)
qed

lemma apply_other_run: "r' \<noteq> r \<Longrightarrow> run_get (apply_effect now r t e s) r' = run_get s r'"
  by (auto simp: apply_effect_def InMemoryRunRepository_get_def split: run_effect.splits option.splits)
    (auto simp: store_ops Let_def jm_get_set split: option.splits)

lemma perform_other_run: "r' \<noteq> r \<Longrightarrow> run_get (perform clock k r t es s) r' = run_get s r'"
  by (induction es arbitrary: k s) (simp_all add: apply_other_run)

text \<open>The outcome of a run, as a function of what the provider and the model do.\<close>

definition run_succeeds ::
    "(ProviderConfig \<Rightarrow> unit result) \<Rightarrow> (llm_request \<Rightarrow> llm_result result) \<Rightarrow> ToolRegistry \<Rightarrow> ExecutionOptions
     \<Rightarrow> Agent \<Rightarrow> string \<Rightarrow> Message list \<Rightarrow> bool" where
  "run_succeeds resolve gen reg xo a input hist =
     (case resolve (ag_provider a) of Inl _ \<Rightarrow> False
      | Inr _ \<Rightarrow> (case gen (build_llm_request a input hist (listTools reg) xo) of Inl _ \<Rightarrow> False
                 | Inr r \<Rightarrow> lm_finishReason r \<noteq> ''length''))"

definition model_messages ::
    "(ProviderConfig \<Rightarrow> unit result) \<Rightarrow> (llm_request \<Rightarrow> llm_result result) \<Rightarrow> ToolRegistry \<Rightarrow> ExecutionOptions
     \<Rightarrow> Agent \<Rightarrow> string \<Rightarrow> Message list \<Rightarrow> Message list" where
  "model_messages resolve gen reg xo a input hist =
     (case resolve (ag_provider a) of Inl _ \<Rightarrow> []
      | Inr _ \<Rightarrow> (case gen (build_llm_request a input hist (listTools reg) xo) of Inl _ \<Rightarrow> []
                 | Inr r \<Rightarrow> concat (map step_messages (js_or (lm_steps r) []))
                    @ (if lm_finishReason r \<in> {''stop'', ''other''} \<and> js_or (lm_steps r) [] = []
                       then [AssistantMessage (Some (lm_text r)) None] else [])))"

text \<open>Every list of effects ends with the terminal status and has no other terminal status.\<close>

lemma result_effects_shape:
  "\<exists>ms. result_effects r = map EffMessage ms @
     [if lm_finishReason r = ''length'' then markRunFailed (Error ''Maximum turn limit exceeded'') else EffStatus RunCompleted None]
   \<and> ms = concat (map step_messages (js_or (lm_steps r) []))
       @ (if lm_finishReason r \<in> {''stop'', ''other''} \<and> js_or (lm_steps r) [] = []
          then [AssistantMessage (Some (lm_text r)) None] else [])"
  by (auto simp: result_effects_def)

lemma run_effects_shape:
  "\<exists>e. run_effects resolve gen reg xo a input hist =
     EffStatus RunRunning None # map EffMessage (SystemMessage (buildRuntimeSystemPrompt a) # UserMessage input
        # model_messages resolve gen reg xo a input hist)
     @ [if run_succeeds resolve gen reg xo a input hist then EffStatus RunCompleted None else EffStatus RunFailed (Some e)]"
proof (cases "resolve (ag_provider a)")
  case (Inl e)
  then show ?thesis by (simp add: run_effects_def model_messages_def run_succeeds_def markRunFailed_def)
next
  case (Inr u)
  show ?thesis
  proof (cases "gen (build_llm_request a input hist (listTools reg) xo)")
    case (Inl e)
    with Inr show ?thesis by (simp add: run_effects_def model_messages_def run_succeeds_def markRunFailed_def)
  next
    case inner: (Inr r)
    with Inr result_effects_shape [of r] show ?thesis
      by (auto simp: run_effects_def model_messages_def run_succeeds_def markRunFailed_def)
  qed
qed

lemma run_terminal:
  assumes "run_get s r \<noteq> None"
  shows "\<exists>x. run_get (executeRunRequest clock resolve gen reg xo r task a input hist s) r = Some x
    \<and> (if run_succeeds resolve gen reg xo a input hist then rn_status x = RunCompleted
       else rn_status x = RunFailed \<and> rn_error x \<noteq> None)
    \<and> run_messages (executeRunRequest clock resolve gen reg xo r task a input hist s) r
        = run_messages s r @ [SystemMessage (buildRuntimeSystemPrompt a), UserMessage input]
            @ model_messages resolve gen reg xo a input hist
    \<and> (\<forall>r'. r' \<noteq> r \<longrightarrow>
        run_get (executeRunRequest clock resolve gen reg xo r task a input hist s) r' = run_get s r'
      \<and> run_messages (executeRunRequest clock resolve gen reg xo r task a input hist s) r' = run_messages s r')"
proof -
  let ?ok = "run_succeeds resolve gen reg xo a input hist"
  let ?ms = "SystemMessage (buildRuntimeSystemPrompt a) # UserMessage input # model_messages resolve gen reg xo a input hist"
  obtain e where effs: "run_effects resolve gen reg xo a input hist = (EffStatus RunRunning None # map EffMessage ?ms)
      @ [EffStatus (if ?ok then RunCompleted else RunFailed) (if ?ok then None else Some e)]"
    using run_effects_shape [of resolve gen reg xo a input hist] by (auto split: if_splits)
  have "jm_get (st_runs s) r \<noteq> None" using assms by (simp add: InMemoryRunRepository_get_def)
  from perform_status_last [OF this, of clock 0 task "EffStatus RunRunning None # map EffMessage ?ms"
      "if ?ok then RunCompleted else RunFailed" "if ?ok then None else Some e"]
  obtain x where "run_get (executeRunRequest clock resolve gen reg xo r task a input hist s) r = Some x"
    "rn_status x = (if ?ok then RunCompleted else RunFailed)" "\<not> ?ok \<longrightarrow> rn_error x = Some e"
    unfolding executeRunRequest_def effs by (auto split: if_splits)
  moreover have "effect_messages (run_effects resolve gen reg xo a input hist) = ?ms"
    unfolding effs by (simp del: list.map(2))
  then have "run_messages (executeRunRequest clock resolve gen reg xo r task a input hist s) r'
      = run_messages s r' @ (if r' = r then ?ms else [])" for r'
    by (simp add: executeRunRequest_def perform_messages)
  moreover have "run_get (executeRunRequest clock resolve gen reg xo r task a input hist s) r' = run_get s r'"
    if "r' \<noteq> r" for r'
    using that by (simp add: executeRunRequest_def perform_other_run)
  ultimately show ?thesis by (intro exI [of _ x]) auto
qed

section \<open>Properties\<close>

text \<open>An agent for the witnesses.\<close>

definition demo_td :: "string \<Rightarrow> ToolDefinition" where
  "demo_td n = th_definition (demo_tool n False (\<lambda>a. Inr (OutText [])))"

definition demo_agent :: CreateAgent where
  "demo_agent = \<lparr>ca_name = ''w'', ca_systemPrompt = ''p'',
     ca_provider = \<lparr>pc_provider = ''openai'', pc_model = ''m'', pc_temperature = None, pc_maxTokens = None\<rparr>,
     ca_tools = None, ca_effort = None, ca_isolation = None, ca_permissionMode = None,
     ca_mode = Some ModeCoordinator, ca_maxTurns = None, ca_background = Some True\<rparr>"



text \<open>
  The model is offered exactly the tools the agent may use: registered tools on the agent's list
  (all of them when the list is empty), and for a coordinator only the orchestration tools among them.
\<close>

theorem offered_tools_exact:
  "d \<in> set (lr_tools (build_llm_request a input hist registered xo)) \<longleftrightarrow>
   d \<in> set registered \<and> (ag_tools a = [] \<or> td_name d \<in> set (ag_tools a))
   \<and> (ag_mode a = ModeCoordinator \<longrightarrow> prefix ''agent_tasks.'' (td_name d))"
  by (auto simp: build_llm_request_def Let_def tools_for_sdk_def isToolAllowedForAgent_def isCoordinatorAgent_def
      getCoordinatorAllowedToolNames_def js_startsWith_prefix)

theorem offered_tools_exact_witness:
  "demo_td ''shell.exec'' \<notin> set (lr_tools (build_llm_request (new_agent ''a1'' demo_agent) [] []
     [demo_td ''shell.exec'', demo_td ''agent_tasks.list''] \<lparr>xo_maxTurns = 3, xo_llmTimeoutMs = 5\<rparr>))"
  unfolding offered_tools_exact by (simp add: new_agent_def demo_agent_def demo_td_def demo_tool_def)

end
