(* ===== verification/Agent_Service.thy ===== *)
theory Agent_Service
  imports Execution_Loop
begin

text \<open>
  The agent service (\<^verbatim>\<open>apps/agent-runner/src/agent-service.ts\<close>) over the in-memory repositories, as a
  concurrent system. The asynchronous work the service has under way is a list of threads; a thread
  advances by one segment at a time, a segment being the code between two points at which another
  handler can observe or change what it works on. Consecutive reads, and the three writes that start
  an execution, are one segment. Every interleaving of segments and client calls is a sequence of steps.
  The in-memory repositories do not throw, so the \<^verbatim>\<open>catch\<close> branches around them do not occur.
\<close>

section \<open>State\<close>

record environment =
  ev_resolve :: "ProviderConfig \<Rightarrow> unit result"
  ev_gen :: "llm_request \<Rightarrow> llm_result result"
  ev_registry :: ToolRegistry
  ev_options :: ExecutionOptions

datatype thread =
  TExec ident "ident option" "run_effect list"
| TClear ident "Run option"
| TStatus ident "Run option"
| TPending ident
| TResume ident
| TStart AgentTask Agent string "Message list" "ident list"
| TDeliver "ident list"

record service =
  sv_store :: store
  sv_launches :: "ident list"
  sv_threads :: "thread list"

definition service_init :: service where
  "service_init = \<lparr>sv_store = store_init, sv_launches = [], sv_threads = []\<rparr>"

section \<open>Operations\<close>

definition agent_not_found :: "ident \<Rightarrow> exn" where
  "agent_not_found i = Error (''Agent '' @ [CHR 0x22] @ i @ [CHR 0x22] @ '' not found'')"

definition task_not_found :: "ident \<Rightarrow> exn" where
  "task_not_found i = Error (''Agent task '' @ [CHR 0x22] @ i @ [CHR 0x22] @ '' not found'')"

definition spawn :: "thread \<Rightarrow> service \<Rightarrow> service" where
  "spawn t sv = sv\<lparr>sv_threads := sv_threads sv @ [t]\<rparr>"

definition effects_of :: "environment \<Rightarrow> Agent \<Rightarrow> string \<Rightarrow> Message list \<Rightarrow> run_effect list" where
  "effects_of ev a input hist = run_effects (ev_resolve ev) (ev_gen ev) (ev_registry ev) (ev_options ev) a input hist"

definition submitTask ::
    "environment \<Rightarrow> ident \<Rightarrow> timestamp \<Rightarrow> service \<Rightarrow> ident \<Rightarrow> string \<Rightarrow> service \<times> Run result" where
  "submitTask ev uuid now sv agentId input =
     (case InMemoryAgentRepository_get (sv_store sv) agentId of
        None \<Rightarrow> (sv, Inl (agent_not_found agentId))
      | Some a \<Rightarrow>
          (let (s1, run) = run_create uuid now (sv_store sv) agentId input None
           in (spawn (TExec (rn_id run) None (effects_of ev a input [])) (sv\<lparr>sv_store := s1\<rparr>), Inr run)))"

definition startAgentTaskExecution ::
    "environment \<Rightarrow> ident \<Rightarrow> timestamp \<Rightarrow> service \<Rightarrow> AgentTask \<Rightarrow> Agent \<Rightarrow> string \<Rightarrow> Message list \<Rightarrow> service \<times> AgentTask" where
  "startAgentTaskExecution ev uuid now sv task a input hist =
     (if tk_id task \<in> set (sv_launches sv) then (sv, js_or (task_get (sv_store sv) (tk_id task)) task)
      else
        (let (s1, run) = run_create uuid now (sv_store sv) (ag_id a) input
               (Some \<lparr>lk_parentRunId = tk_parentRunId task, lk_agentTaskId = Some (tk_id task)\<rparr>);
             s2 = fst (task_setActiveRun now s1 (tk_id task) (Some (rn_id run)));
             (s3, updated) = task_updateStatus now s2 (tk_id task) TaskRunning None
         in (spawn (TExec (rn_id run) (Some (tk_id task)) (effects_of ev a input hist))
               (sv\<lparr>sv_store := s3, sv_launches := tk_id task # sv_launches sv\<rparr>),
             js_or updated task)))"

record CreateBackgroundTaskOptions =
  bo_background :: "bool option"
  bo_parentRunId :: "ident option"
  bo_parentTaskId :: "ident option"
  bo_metadata :: "(string \<times> json) list option"

definition createBackgroundTask ::
    "environment \<Rightarrow> ident \<Rightarrow> ident \<Rightarrow> timestamp \<Rightarrow> service \<Rightarrow> ident \<Rightarrow> string \<Rightarrow> CreateBackgroundTaskOptions
     \<Rightarrow> service \<times> AgentTask result" where
  "createBackgroundTask ev taskUuid runUuid now sv agentId input opts =
     (case InMemoryAgentRepository_get (sv_store sv) agentId of
        None \<Rightarrow> (sv, Inl (agent_not_found agentId))
      | Some a \<Rightarrow>
          if \<not> ag_background a
          then (sv, Inl (Error (''Agent '' @ [CHR 0x22] @ agentId @ [CHR 0x22] @ '' does not allow background execution'')))
          else
            (let (s1, task) = InMemoryAgentTaskRepository_create taskUuid now (sv_store sv)
                   \<lparr>ct_selectedAgentId = agentId, ct_initialInput = input,
                    ct_background = Some (js_or (bo_background opts) True), ct_parentRunId = bo_parentRunId opts,
                    ct_parentTaskId = bo_parentTaskId opts, ct_metadata = Some (js_or (bo_metadata opts) [])\<rparr>;
                 (sv1, _) = startAgentTaskExecution ev runUuid now (sv\<lparr>sv_store := s1\<rparr>) task a input []
             in (sv1, Inr (js_or (task_get (sv_store sv1) (tk_id task)) task))))"

definition getAgentTaskMessages :: "service \<Rightarrow> ident \<Rightarrow> Message list" where
  "getAgentTaskMessages sv taskId = map te_message (transcript_of (sv_store sv) taskId)"

definition task_busy :: "AgentTask \<Rightarrow> bool" where
  "task_busy t \<longleftrightarrow> tk_status t = TaskRunning \<and> js_truthy (tk_activeRunId t)"

definition sendMessageToAgentTask ::
    "ident \<Rightarrow> timestamp \<Rightarrow> service \<Rightarrow> ident \<Rightarrow> string \<Rightarrow> PendingRole \<Rightarrow> service \<times> AgentTaskPendingMessage result" where
  "sendMessageToAgentTask uuid now sv taskId content role =
     (case task_get (sv_store sv) taskId of
        None \<Rightarrow> (sv, Inl (task_not_found taskId))
      | Some task \<Rightarrow>
          (let (s1, p) = pending_enqueue uuid now (sv_store sv) \<lparr>cp_taskId = taskId, cp_role = role, cp_content = content\<rparr>;
               sv1 = sv\<lparr>sv_store := s1\<rparr>
           in (if task_busy task then sv1 else spawn (TResume taskId) sv1, Inr p)))"

definition resume_input :: "AgentTaskPendingMessage list \<Rightarrow> string" where
  "resume_input ps =
     (if ps \<noteq> [] then js_join [CHR 0x0A, CHR 0x0A] (map pn_content ps)
      else ''Continue from the current state and report progress.'')"

text \<open>The reads of \<^verbatim>\<open>resumeAgentTask\<close>: an error, the task that is already busy, or what to start.\<close>

definition resumeAgentTask :: "service \<Rightarrow> ident \<Rightarrow> exn + (AgentTask + thread)" where
  "resumeAgentTask sv taskId =
     (case task_get (sv_store sv) taskId of
        None \<Rightarrow> Inl (task_not_found taskId)
      | Some task \<Rightarrow>
          if task_busy task then Inr (Inl task)
          else (case InMemoryAgentRepository_get (sv_store sv) (tk_selectedAgentId task) of
                  None \<Rightarrow> Inl (agent_not_found (tk_selectedAgentId task))
                | Some a \<Rightarrow>
                    (let ps = pending_list (sv_store sv) (tk_id task)
                     in Inr (Inr (TStart task a (resume_input ps)
                          (map te_message (transcript_of (sv_store sv) (tk_id task))) (map pn_id ps))))))"

definition final_task_status :: "Run option \<Rightarrow> AgentTaskStatus" where
  "final_task_status r = (case r of Some x \<Rightarrow> if rn_status x = RunFailed then TaskFailed else TaskCompleted | None \<Rightarrow> TaskCompleted)"

fun thread_step :: "environment \<Rightarrow> ident \<Rightarrow> timestamp \<Rightarrow> service \<Rightarrow> thread \<Rightarrow> service \<times> thread list" where
  "thread_step ev uuid now sv (TExec r t (e # es)) =
     (sv\<lparr>sv_store := apply_effect now r t e (sv_store sv)\<rparr>, [TExec r t es])"
| "thread_step ev uuid now sv (TExec r None []) = (sv, [])"
| "thread_step ev uuid now sv (TExec r (Some t) []) =
     (sv\<lparr>sv_launches := removeAll t (sv_launches sv)\<rparr>, [TClear t (run_get (sv_store sv) r)])"
| "thread_step ev uuid now sv (TClear t run) =
     (sv\<lparr>sv_store := fst (task_setActiveRun now (sv_store sv) t None)\<rparr>, [TStatus t run])"
| "thread_step ev uuid now sv (TStatus t run) =
     (sv\<lparr>sv_store := fst (task_updateStatus now (sv_store sv) t (final_task_status run) (Option.bind run rn_error))\<rparr>,
      [TPending t])"
| "thread_step ev uuid now sv (TPending t) = (sv, if pending_list (sv_store sv) t = [] then [] else [TResume t])"
| "thread_step ev uuid now sv (TResume t) =
     (sv, case resumeAgentTask sv t of Inr (Inr start) \<Rightarrow> [start] | _ \<Rightarrow> [])"
| "thread_step ev uuid now sv (TStart task a input hist ids) =
     (fst (startAgentTaskExecution ev uuid now sv task a input hist), [TDeliver ids])"
| "thread_step ev uuid now sv (TDeliver []) = (sv, [])"
| "thread_step ev uuid now sv (TDeliver (p # ps)) =
     (sv\<lparr>sv_store := fst (pending_deliver now (sv_store sv) p)\<rparr>, [TDeliver ps])"

definition advance :: "environment \<Rightarrow> ident \<Rightarrow> timestamp \<Rightarrow> nat \<Rightarrow> service \<Rightarrow> service" where
  "advance ev uuid now k sv =
     (let (sv', ts) = thread_step ev uuid now sv (sv_threads sv ! k)
      in sv'\<lparr>sv_threads := take k (sv_threads sv') @ ts @ drop (Suc k) (sv_threads sv')\<rparr>)"

section \<open>Steps\<close>

datatype command =
  CreateAgentCmd ident CreateAgent
| DeleteAgentCmd ident
| SubmitCmd ident timestamp ident string
| BackgroundCmd ident ident timestamp ident string CreateBackgroundTaskOptions
| SendCmd ident timestamp ident string PendingRole
| ResumeCmd ident
| AdvanceCmd ident timestamp nat

fun command_step :: "environment \<Rightarrow> command \<Rightarrow> service \<Rightarrow> service" where
  "command_step ev (CreateAgentCmd uuid d) sv =
     sv\<lparr>sv_store := fst (InMemoryAgentRepository_create uuid (sv_store sv) d)\<rparr>"
| "command_step ev (DeleteAgentCmd i) sv = sv\<lparr>sv_store := fst (InMemoryAgentRepository_delete (sv_store sv) i)\<rparr>"
| "command_step ev (SubmitCmd uuid now i input) sv = fst (submitTask ev uuid now sv i input)"
| "command_step ev (BackgroundCmd tu ru now i input opts) sv = fst (createBackgroundTask ev tu ru now sv i input opts)"
| "command_step ev (SendCmd uuid now t c role) sv = fst (sendMessageToAgentTask uuid now sv t c role)"
| "command_step ev (ResumeCmd t) sv = spawn (TResume t) sv"
| "command_step ev (AdvanceCmd uuid now k) sv = advance ev uuid now k sv"

text \<open>A command is enabled when its random identifiers are fresh and its thread exists.\<close>

fun enabled :: "command \<Rightarrow> service \<Rightarrow> bool" where
  "enabled (BackgroundCmd tu ru now i input opts) sv \<longleftrightarrow>
     task_get (sv_store sv) tu = None \<and> transcript_of (sv_store sv) tu = [] \<and> run_get (sv_store sv) ru = None"
| "enabled (SubmitCmd uuid now i input) sv \<longleftrightarrow> run_get (sv_store sv) uuid = None"
| "enabled (SendCmd uuid now t c role) sv \<longleftrightarrow> jm_get (st_pending (sv_store sv)) uuid = None"
| "enabled (AdvanceCmd uuid now k) sv \<longleftrightarrow> k < length (sv_threads sv) \<and> run_get (sv_store sv) uuid = None"
| "enabled _ sv \<longleftrightarrow> True"

inductive service_step :: "service \<Rightarrow> service \<Rightarrow> bool" where
  step: "enabled c sv \<Longrightarrow> service_step sv (command_step ev c sv)"

inductive_cases service_stepE: "service_step sv sv'"

inductive reachable :: "service \<Rightarrow> bool" where
  init: "reachable service_init"
| step: "reachable sv \<Longrightarrow> service_step sv sv' \<Longrightarrow> reachable sv'"

section \<open>The invariant\<close>

text \<open>The executions of a task that are under way.\<close>

fun executes :: "ident \<Rightarrow> thread \<Rightarrow> bool" where
  "executes t (TExec r (Some t') es) \<longleftrightarrow> t' = t"
| "executes t _ \<longleftrightarrow> False"

definition executions :: "service \<Rightarrow> ident \<Rightarrow> nat" where
  "executions sv t = length (filter (executes t) (sv_threads sv))"

text \<open>
  At most one execution per task, registered in the set of launches exactly while it is under way; and
  a well-formed store.
\<close>

definition service_ok :: "service \<Rightarrow> bool" where
  "service_ok sv \<longleftrightarrow> store_ok (sv_store sv) \<and> distinct (sv_launches sv) \<and>
     (\<forall>t. executions sv t = (if t \<in> set (sv_launches sv) then 1 else 0))"

lemma service_ok_init: "service_ok service_init"
  by (simp add: service_ok_def service_init_def store_ok_init executions_def)

lemma executions_spawn: "executions (spawn th sv) t = executions sv t + (if executes t th then 1 else 0)"
  by (simp add: executions_def spawn_def)

lemma executions_store [simp]: "executions (sv\<lparr>sv_store := s\<rparr>) t = executions sv t"
  by (simp add: executions_def)

lemma executions_launches [simp]: "executions (sv\<lparr>sv_launches := l\<rparr>) t = executions sv t"
  by (simp add: executions_def)

lemma spawn_sel [simp]: "sv_store (spawn th sv) = sv_store sv" "sv_launches (spawn th sv) = sv_launches sv"
  "sv_threads (spawn th sv) = sv_threads sv @ [th]"
  by (simp_all add: spawn_def)

lemma service_ok_spawn: "(\<And>t. \<not> executes t th) \<Longrightarrow> service_ok (spawn th sv) \<longleftrightarrow> service_ok sv"
  by (simp add: service_ok_def executions_spawn)

lemma service_ok_store: "service_ok sv \<Longrightarrow> store_ok s \<Longrightarrow> service_ok (sv\<lparr>sv_store := s\<rparr>)"
  by (simp add: service_ok_def)

lemma start_cases:
  "fst (startAgentTaskExecution ev uuid now sv task a input hist) = sv \<and> tk_id task \<in> set (sv_launches sv) \<or>
   tk_id task \<notin> set (sv_launches sv) \<and>
   (\<exists>s. fst (startAgentTaskExecution ev uuid now sv task a input hist) =
      spawn (TExec uuid (Some (tk_id task)) (effects_of ev a input hist))
        (sv\<lparr>sv_store := s, sv_launches := tk_id task # sv_launches sv\<rparr>)
      \<and> (store_ok (sv_store sv) \<longrightarrow> store_ok s))"
proof (cases "tk_id task \<in> set (sv_launches sv)")
  case False
  obtain s1 run where r: "run_create uuid now (sv_store sv) (ag_id a) input
      (Some \<lparr>lk_parentRunId = tk_parentRunId task, lk_agentTaskId = Some (tk_id task)\<rparr>) = (s1, run)" by fastforce
  then have id: "rn_id run = uuid" by (auto simp: InMemoryRunRepository_create_def new_run_def Let_def)
  let ?s2 = "fst (task_setActiveRun now s1 (tk_id task) (Some (rn_id run)))"
  obtain s3 u where u: "task_updateStatus now ?s2 (tk_id task) TaskRunning None = (s3, u)" by fastforce
  have "store_ok s3" if "store_ok (sv_store sv)"
  proof -
    have "store_ok s1" using store_ok_run_create [OF that] r by (metis fst_conv)
    then have "store_ok ?s2" by (rule store_ok_task_setActiveRun)
    from store_ok_task_updateStatus [OF this] u show ?thesis by (metis fst_conv)
  qed
  with False r u id show ?thesis by (auto simp: startAgentTaskExecution_def)
qed (simp add: startAgentTaskExecution_def)

text \<open>What a launch writes.\<close>

lemma launch_effect:
  assumes "task_get (sv_store sv) (tk_id task) = Some x" and "tk_id task \<notin> set (sv_launches sv)"
  shows "run_get (sv_store (fst (startAgentTaskExecution ev uuid now sv task a input hist))) uuid
      = Some (new_run uuid now (ag_id a) input (Some \<lparr>lk_parentRunId = tk_parentRunId task, lk_agentTaskId = Some (tk_id task)\<rparr>))"
    and "task_get (sv_store (fst (startAgentTaskExecution ev uuid now sv task a input hist))) (tk_id task)
      = Some (x\<lparr>tk_activeRunId := Some uuid, tk_status := TaskRunning, tk_updatedAt := now\<rparr>)"
    and "sv_threads (fst (startAgentTaskExecution ev uuid now sv task a input hist))
      = sv_threads sv @ [TExec uuid (Some (tk_id task)) (effects_of ev a input hist)]"
    and "sv_launches (fst (startAgentTaskExecution ev uuid now sv task a input hist)) = tk_id task # sv_launches sv"
  using assms
  by (simp_all add: startAgentTaskExecution_def store_ops new_run_def Let_def jm_get_set js_or_opt_def split: option.splits)

lemma start_ok:
  assumes "service_ok sv"
  shows "service_ok (fst (startAgentTaskExecution ev uuid now sv task a input hist))"
  using start_cases [of ev uuid now sv task a input hist] assms
  by (auto simp: service_ok_def executions_spawn)

lemma filter_replace:
  assumes "k < length xs"
  shows "length (filter P (take k xs @ ts @ drop (Suc k) xs)) + (if P (xs ! k) then 1 else 0)
    = length (filter P xs) + length (filter P ts)"
proof -
  have "filter P xs = filter P (take k xs @ xs ! k # drop (Suc k) xs)"
    using id_take_nth_drop [OF assms] by simp
  then show ?thesis by simp
qed

text \<open>A segment keeps the threads it does not run, and keeps its own position.\<close>

lemma thread_step_threads:
  assumes "thread_step ev uuid now sv th = (sv', ts)" and "k < length (sv_threads sv)"
  shows "k < length (sv_threads sv') \<and> sv_threads sv' ! k = sv_threads sv ! k"
proof (cases th)
  case (TStart task a input hist ids)
  with assms start_cases [of ev uuid now sv task a input hist] show ?thesis by (auto simp: nth_append)
next
  case (TExec r task es)
  with assms show ?thesis by (cases task; cases es) auto
next
  case (TDeliver ps)
  with assms show ?thesis by (cases ps) auto
qed (use assms in auto)

lemma executions_advance:
  assumes "thread_step ev uuid now sv (sv_threads sv ! k) = (sv', ts)" and "k < length (sv_threads sv)"
  shows "executions (advance ev uuid now k sv) t + (if executes t (sv_threads sv ! k) then 1 else 0)
    = executions sv' t + length (filter (executes t) ts)"
  using thread_step_threads [OF assms] filter_replace [of k "sv_threads sv'" "executes t" ts] assms(1)
  by (simp add: advance_def executions_def)

lemma advance_sel:
  assumes "thread_step ev uuid now sv (sv_threads sv ! k) = (sv', ts)"
  shows "sv_store (advance ev uuid now k sv) = sv_store sv'" "sv_launches (advance ev uuid now k sv) = sv_launches sv'"
  using assms by (simp_all add: advance_def)

lemma advance_quiet:
  assumes step: "thread_step ev uuid now sv (sv_threads sv ! k) = (sv', ts)" and k: "k < length (sv_threads sv)"
    and ok: "service_ok sv'"
    and same: "\<And>t. length (filter (executes t) ts) = (if executes t (sv_threads sv ! k) then 1 else 0)"
  shows "service_ok (advance ev uuid now k sv)"
  using executions_advance [OF step k] same ok advance_sel [OF step] by (simp add: service_ok_def)

lemma advance_finish:
  assumes ok: "service_ok sv" and k: "k < length (sv_threads sv)" and th: "sv_threads sv ! k = TExec r (Some t) []"
  shows "service_ok (advance ev uuid now k sv)"
proof -
  let ?sv = "sv\<lparr>sv_launches := removeAll t (sv_launches sv)\<rparr>"
  have step: "thread_step ev uuid now sv (sv_threads sv ! k) = (?sv, [TClear t (run_get (sv_store sv) r)])"
    using th by simp
  have count: "executions (advance ev uuid now k sv) u + (if u = t then 1 else 0) = executions sv u" for u
    using executions_advance [OF step k, of u] th by auto
  have "executions (advance ev uuid now k sv) u = (if u \<in> set (removeAll t (sv_launches sv)) then 1 else 0)" for u
    using count [of u] ok by (auto simp: service_ok_def split: if_splits)
  with ok advance_sel [OF step] show ?thesis by (simp add: service_ok_def distinct_removeAll)
qed

lemma advance_ok:
  assumes ok: "service_ok sv" and k: "k < length (sv_threads sv)"
  shows "service_ok (advance ev uuid now k sv)"
proof (cases "sv_threads sv ! k")
  case (TExec r task es)
  show ?thesis
  proof (cases es)
    case Nil
    show ?thesis
    proof (cases task)
      case None
      with TExec Nil show ?thesis by (intro advance_quiet [OF _ k ok]) auto
    next
      case (Some t)
      with TExec Nil advance_finish [OF ok k] show ?thesis by simp
    qed
  next
    case (Cons e es')
    have "service_ok (sv\<lparr>sv_store := apply_effect now r task e (sv_store sv)\<rparr>)"
      using ok apply_effect_store_ok by (simp add: service_ok_def)
    with TExec Cons show ?thesis by (intro advance_quiet [OF _ k], simp, simp) (cases task; simp)
  qed
next
  case (TClear t run)
  have "service_ok (sv\<lparr>sv_store := fst (task_setActiveRun now (sv_store sv) t None)\<rparr>)"
    using ok store_ok_task_setActiveRun by (simp add: service_ok_def)
  with TClear show ?thesis by (intro advance_quiet [OF _ k], simp, simp, simp)
next
  case (TStatus t run)
  have "service_ok (sv\<lparr>sv_store := fst (task_updateStatus now (sv_store sv) t (final_task_status run) (Option.bind run rn_error))\<rparr>)"
    using ok store_ok_task_updateStatus by (simp add: service_ok_def)
  with TStatus show ?thesis by (intro advance_quiet [OF _ k], simp, simp, simp)
next
  case (TPending t)
  then show ?thesis by (intro advance_quiet [OF _ k ok]) auto
next
  case (TResume t)
  then show ?thesis
    by (intro advance_quiet [OF _ k ok])
      (auto simp: resumeAgentTask_def Let_def split: sum.splits option.splits if_splits)
next
  case (TStart task a input hist ids)
  then show ?thesis by (intro advance_quiet [OF _ k start_ok [OF ok]]) auto
next
  case (TDeliver ps)
  show ?thesis
  proof (cases ps)
    case (Cons p ps')
    have "service_ok (sv\<lparr>sv_store := fst (pending_deliver now (sv_store sv) p)\<rparr>)"
      using ok store_ok_deliver by (simp add: service_ok_def)
    with TDeliver Cons show ?thesis by (intro advance_quiet [OF _ k], simp, simp, simp)
  qed (use TDeliver in \<open>intro advance_quiet [OF _ k ok], simp, simp\<close>)
qed

lemma background_ok:
  assumes ok: "service_ok sv" and fresh: "transcript_of (sv_store sv) tu = []"
  shows "service_ok (fst (createBackgroundTask ev tu ru now sv i input opts))"
proof (cases "InMemoryAgentRepository_get (sv_store sv) i")
  case (Some a)
  show ?thesis
  proof (cases "ag_background a")
    case True
    let ?d = "\<lparr>ct_selectedAgentId = i, ct_initialInput = input, ct_background = Some (js_or (bo_background opts) True),
      ct_parentRunId = bo_parentRunId opts, ct_parentTaskId = bo_parentTaskId opts,
      ct_metadata = Some (js_or (bo_metadata opts) [])\<rparr>"
    obtain s1 task where c: "InMemoryAgentTaskRepository_create tu now (sv_store sv) ?d = (s1, task)" by fastforce
    have "store_ok s1"
      using store_ok_task_create [of "sv_store sv" tu now ?d] ok fresh c by (simp add: service_ok_def)
    then have "service_ok (sv\<lparr>sv_store := s1\<rparr>)" using ok by (simp add: service_ok_def)
    from start_ok [OF this, of ev ru now task a input "[]"] Some True c show ?thesis
      by (auto simp: createBackgroundTask_def split: prod.splits)
  qed (use Some ok in \<open>simp add: createBackgroundTask_def\<close>)
qed (use ok in \<open>simp add: createBackgroundTask_def\<close>)

lemma submit_ok: "service_ok sv \<Longrightarrow> service_ok (fst (submitTask ev uuid now sv i input))"
  using store_ok_run_create [of "sv_store sv" uuid now i input None]
  by (auto simp: submitTask_def service_ok_def executions_spawn split: option.splits prod.splits)

lemma send_ok: "service_ok sv \<Longrightarrow> service_ok (fst (sendMessageToAgentTask uuid now sv t c role))"
  using store_ok_enqueue [of "sv_store sv" uuid now "\<lparr>cp_taskId = t, cp_role = role, cp_content = c\<rparr>"]
  by (auto simp: sendMessageToAgentTask_def service_ok_def executions_spawn Let_def split: option.splits prod.splits)

lemma command_ok: "service_ok sv \<Longrightarrow> enabled c sv \<Longrightarrow> service_ok (command_step ev c sv)"
proof (cases c)
  case (CreateAgentCmd uuid d)
  then show "service_ok sv \<Longrightarrow> ?thesis"
    by (simp add: service_ok_def InMemoryAgentRepository_create_def Let_def store_ok_agents)
next
  case (DeleteAgentCmd i)
  then show "service_ok sv \<Longrightarrow> ?thesis"
    by (simp add: service_ok_def InMemoryAgentRepository_delete_def store_ok_agents)
next
  case (ResumeCmd t)
  then show "service_ok sv \<Longrightarrow> ?thesis" by (simp add: service_ok_spawn)
qed (simp_all add: background_ok submit_ok send_ok advance_ok)

lemma reachable_ok: "reachable sv \<Longrightarrow> service_ok sv"
  by (induction rule: reachable.induct) (auto simp: service_ok_init command_ok elim: service_stepE)

section \<open>Running one thread alone\<close>

text \<open>\<open>n\<close> segments of the thread at position \<open>k\<close>, without interference.\<close>

primrec drive :: "environment \<Rightarrow> ident \<Rightarrow> (nat \<Rightarrow> timestamp) \<Rightarrow> nat \<Rightarrow> nat \<Rightarrow> nat \<Rightarrow> service \<Rightarrow> service" where
  "drive ev uuid clock i k 0 sv = sv"
| "drive ev uuid clock i k (Suc n) sv = drive ev uuid clock (Suc i) k n (advance ev uuid (clock i) k sv)"

lemma drive_add: "drive ev uuid clock i k (m + n) sv = drive ev uuid clock (i + m) k n (drive ev uuid clock i k m sv)"
  by (induction m arbitrary: i sv) simp_all

lemma advance_at:
  assumes "sv_threads sv = pre @ th # post" and "length pre = k"
    and "sv_threads (fst (thread_step ev uuid now sv th)) = sv_threads sv"
  shows "advance ev uuid now k sv
    = (fst (thread_step ev uuid now sv th))\<lparr>sv_threads := pre @ snd (thread_step ev uuid now sv th) @ post\<rparr>"
  using assms by (auto simp: advance_def split: prod.splits)

lemma drive_exec:
  assumes "sv_threads sv = pre @ TExec r (Some t) es # post" and "length pre = k"
  shows "drive ev uuid clock i k (length es) sv
    = sv\<lparr>sv_store := perform clock i r (Some t) es (sv_store sv), sv_threads := pre @ TExec r (Some t) [] # post\<rparr>"
  using assms
proof (induction es arbitrary: i sv)
  case (Cons e es)
  have "advance ev uuid (clock i) k sv
      = sv\<lparr>sv_store := apply_effect (clock i) r (Some t) e (sv_store sv), sv_threads := pre @ TExec r (Some t) es # post\<rparr>"
    using Cons.prems by (subst advance_at [OF Cons.prems]) simp_all
  then show ?case using Cons.prems by (simp add: Cons.IH)
qed simp

text \<open>The end of an execution: the launch is released, the active run cleared and the final status written.\<close>

definition settled_store :: "(nat \<Rightarrow> timestamp) \<Rightarrow> nat \<Rightarrow> ident \<Rightarrow> ident \<Rightarrow> store \<Rightarrow> store" where
  "settled_store clock i r t s =
     fst (task_updateStatus (clock (i + 2)) (fst (task_setActiveRun (clock (i + 1)) s t None)) t
       (final_task_status (run_get s r)) (Option.bind (run_get s r) rn_error))"

lemma drive_finish:
  assumes "sv_threads sv = pre @ TExec r (Some t) [] # post" and "length pre = k"
    and "pending_list (settled_store clock i r t (sv_store sv)) t = []"
  shows "drive ev uuid clock i k 4 sv
    = sv\<lparr>sv_launches := removeAll t (sv_launches sv), sv_store := settled_store clock i r t (sv_store sv),
         sv_threads := pre @ post\<rparr>"
proof -
  let ?run = "run_get (sv_store sv) r"
  let ?sv1 = "sv\<lparr>sv_launches := removeAll t (sv_launches sv), sv_threads := pre @ TClear t ?run # post\<rparr>"
  have 1: "advance ev uuid (clock i) k sv = ?sv1" using assms by (subst advance_at [OF assms(1,2)]) simp_all
  let ?sv2 = "?sv1\<lparr>sv_store := fst (task_setActiveRun (clock (i + 1)) (sv_store sv) t None),
    sv_threads := pre @ TStatus t ?run # post\<rparr>"
  have 2: "advance ev uuid (clock (Suc i)) k ?sv1 = ?sv2"
    using assms by (subst advance_at [of _ pre "TClear t ?run" post]) simp_all
  let ?sv3 = "?sv2\<lparr>sv_store := settled_store clock i r t (sv_store sv), sv_threads := pre @ TPending t # post\<rparr>"
  have 3: "advance ev uuid (clock (Suc (Suc i))) k ?sv2 = ?sv3"
    using assms by (subst advance_at [of _ pre "TStatus t ?run" post]) (simp_all add: settled_store_def)
  have 4: "advance ev uuid (clock (Suc (Suc (Suc i)))) k ?sv3 = ?sv3\<lparr>sv_threads := pre @ post\<rparr>"
    using assms by (subst advance_at [of _ pre "TPending t" post]) simp_all
  have four: "4 = Suc (Suc (Suc (Suc 0)))" by simp
  show ?thesis unfolding four drive.simps 1 2 3 4 by simp
qed

lemma perform_pending: "st_pending (perform clock k r t es s) = st_pending s"
proof (induction es arbitrary: k s)
  case (Cons e es)
  have "st_pending (apply_effect (clock k) r t e s) = st_pending s"
    by (auto simp: apply_effect_def MirroringMessageRepository_append_def store_ops Let_def
        split: run_effect.splits option.splits)
  with Cons show ?case by simp
qed simp

lemma apply_task_present: "task_get s t \<noteq> None \<Longrightarrow> task_get (apply_effect now r u e s) t \<noteq> None"
  by (auto simp: apply_effect_def MirroringMessageRepository_append_def store_ops Let_def jm_get_set
      split: run_effect.splits option.splits)

lemma perform_task_present: "task_get s t \<noteq> None \<Longrightarrow> task_get (perform clock k r u es s) t \<noteq> None"
proof (induction es arbitrary: k s)
  case (Cons e es)
  from Cons.IH [OF apply_task_present [OF Cons.prems]] show ?case by (simp only: perform.simps not_False_eq_True)
qed simp

lemma settled_pending: "st_pending (settled_store clock i r t s) = st_pending s"
  by (simp add: settled_store_def store_ops Let_def split: option.splits)

lemma settled_task:
  assumes "task_get s t \<noteq> None"
  shows "\<exists>x. task_get (settled_store clock i r t s) t = Some x \<and> tk_activeRunId x = None
    \<and> tk_status x = final_task_status (run_get s r)"
  using assms by (auto simp: settled_store_def store_ops Let_def jm_get_set split: option.splits)

lemma settled_run: "run_get (settled_store clock i r t s) r' = run_get s r'"
  by (simp add: settled_store_def store_ops Let_def split: option.splits)

section \<open>Properties\<close>

text \<open>An environment for the witnesses: a model that answers with one text.\<close>

definition demo_env :: environment where
  "demo_env =
     \<lparr>ev_resolve = (\<lambda>p. Inr ()),
      ev_gen = (\<lambda>q. Inr \<lparr>lm_steps = None, lm_finishReason = ''stop'', lm_text = ''ok''\<rparr>),
      ev_registry = \<lparr>tools = [], timeoutMs = 1, sandboxRunner = (\<lambda>h c a. Inl (Error []))\<rparr>,
      ev_options = \<lparr>xo_maxTurns = 3, xo_llmTimeoutMs = 5\<rparr>\<rparr>"

definition demo_opts :: CreateBackgroundTaskOptions where
  "demo_opts = \<lparr>bo_background = None, bo_parentRunId = None, bo_parentTaskId = None, bo_metadata = None\<rparr>"

fun play :: "environment \<Rightarrow> command list \<Rightarrow> service \<Rightarrow> service option" where
  "play ev [] sv = Some sv"
| "play ev (c # cs) sv = (if enabled c sv then play ev cs (command_step ev c sv) else None)"

lemma play_reachable: "play ev cs sv = Some sv' \<Longrightarrow> reachable sv \<Longrightarrow> reachable sv'"
  by (induction ev cs sv rule: play.induct) (auto split: if_splits intro: reachable.step service_step.step)

definition demo_background :: "command list" where
  "demo_background = [CreateAgentCmd ''a1'' demo_agent, BackgroundCmd ''t1'' ''r1'' ''now'' ''a1'' ''go'' demo_opts]"

definition demo_lost :: "command list" where
  "demo_lost = demo_background @ replicate 9 (AdvanceCmd ''r2'' ''now'' 0) @
     [SendCmd ''p1'' ''now'' ''t1'' ''one'' RoleUser, AdvanceCmd ''r2'' ''now'' 0,
      SendCmd ''p2'' ''now'' ''t1'' ''two'' RoleUser, AdvanceCmd ''r2'' ''now'' 1,
      AdvanceCmd ''r2'' ''now'' 0] @ replicate 4 (AdvanceCmd ''r3'' ''now'' 1) @ replicate 11 (AdvanceCmd ''r3'' ''now'' 0)"

text \<open>
  C21. However client calls and the work under way interleave, a background task has at most one
  execution, it is registered as launched exactly while that execution is under way, and its transcript
  is numbered 1, 2, 3 and so on with the task's cursor at the last entry.
\<close>

theorem background_execution_exclusive:
  assumes "reachable sv"
  shows "executions sv t \<le> 1 \<and> (t \<in> set (sv_launches sv) \<longleftrightarrow> executions sv t = 1)
    \<and> map te_seq (transcript_of (sv_store sv) t) = [1..<length (transcript_of (sv_store sv) t) + 1]
    \<and> (\<forall>x. task_get (sv_store sv) t = Some x \<longrightarrow>
          tx_lastMessageSeq (tk_transcript x) = length (transcript_of (sv_store sv) t))"
proof -
  have ok: "service_ok sv" using assms by (rule reachable_ok)
  then have "store_ok (sv_store sv)" by (simp add: service_ok_def)
  from transcript_ok_of [OF this, of t] this ok show ?thesis
    by (auto simp: service_ok_def transcript_ok_def store_ok_def InMemoryAgentTaskRepository_get_def)
qed

lemma demo_background_plays:
  "map_option (\<lambda>sv. executions sv ''t1'') (play demo_env demo_background service_init) = Some 1"
  by code_simp

theorem background_execution_exclusive_witness:
  "\<exists>sv. play demo_env demo_background service_init = Some sv \<and> executions sv ''t1'' = 1 \<and> ''t1'' \<in> set (sv_launches sv)"
proof -
  obtain sv where sv: "play demo_env demo_background service_init = Some sv" "executions sv ''t1'' = 1"
    using demo_background_plays by auto
  have "reachable sv" using sv(1) play_reachable reachable.init by blast
  from background_execution_exclusive [OF this, of "''t1''"] sv show ?thesis by auto
qed

text \<open>
  C23. The execution of a background task, run to its end with no message waiting, takes as many
  segments as it has effects and four more; then its launch is released and the task has no active run,
  is completed if the run succeeded and failed otherwise, and the thread is gone.
\<close>

theorem background_execution_settles:
  assumes "sv_threads sv = pre @ TExec r (Some t) (effects_of ev a input hist) # post"
    and "run_get (sv_store sv) r \<noteq> None" and "task_get (sv_store sv) t \<noteq> None"
    and "pending_list (sv_store sv) t = []"
  shows "\<exists>x y. task_get (sv_store (drive ev uuid clock 0 (length pre) (length (effects_of ev a input hist) + 4) sv)) t = Some x
    \<and> tk_activeRunId x = None
    \<and> tk_status x = (if run_succeeds (ev_resolve ev) (ev_gen ev) (ev_registry ev) (ev_options ev) a input hist
        then TaskCompleted else TaskFailed)
    \<and> run_get (sv_store (drive ev uuid clock 0 (length pre) (length (effects_of ev a input hist) + 4) sv)) r = Some y
    \<and> (rn_status y = RunCompleted \<or> rn_status y = RunFailed)
    \<and> t \<notin> set (sv_launches (drive ev uuid clock 0 (length pre) (length (effects_of ev a input hist) + 4) sv))
    \<and> sv_threads (drive ev uuid clock 0 (length pre) (length (effects_of ev a input hist) + 4) sv) = pre @ post"
proof -
  let ?es = "effects_of ev a input hist"
  let ?s = "perform clock 0 r (Some t) ?es (sv_store sv)"
  let ?i = "length ?es"
  let ?sv1 = "sv\<lparr>sv_store := ?s, sv_threads := pre @ TExec r (Some t) [] # post\<rparr>"
  have "pending_list (settled_store clock ?i r t ?s) t = []"
    using assms(4)
    by (simp add: InMemoryAgentTaskPendingMessageRepository_listPendingByTaskId_def settled_pending perform_pending)
  then have drive: "drive ev uuid clock 0 (length pre) (?i + 4) sv = ?sv1\<lparr>sv_launches := removeAll t (sv_launches sv),
      sv_store := settled_store clock ?i r t ?s, sv_threads := pre @ post\<rparr>"
    using drive_exec [OF assms(1) refl, of ev uuid clock 0] by (simp add: drive_add drive_finish [of ?sv1 pre r t post])
  from run_terminal [OF assms(2), of clock "ev_resolve ev" "ev_gen ev" "ev_registry ev" "ev_options ev" "Some t" a input hist]
  obtain y where "run_get ?s r = Some y" "if run_succeeds (ev_resolve ev) (ev_gen ev) (ev_registry ev)
      (ev_options ev) a input hist then rn_status y = RunCompleted else rn_status y = RunFailed \<and> rn_error y \<noteq> None"
    unfolding executeRunRequest_def effects_of_def [symmetric] by (elim exE conjE)
  then have y: "run_get ?s r = Some y" "rn_status y = (if run_succeeds (ev_resolve ev) (ev_gen ev) (ev_registry ev)
      (ev_options ev) a input hist then RunCompleted else RunFailed)"
    by (simp_all split: if_splits)
  obtain x where "task_get (settled_store clock ?i r t ?s) t = Some x" "tk_activeRunId x = None"
      "tk_status x = final_task_status (run_get ?s r)"
    using settled_task [OF perform_task_present [OF assms(3)]] by blast
  with y show ?thesis unfolding drive by (simp add: settled_run final_task_status_def)
qed

theorem background_execution_settles_witness:
  "\<exists>sv x. sv_threads sv \<noteq> [] \<and>
     task_get (sv_store (drive demo_env ''u'' (\<lambda>n. ''later'') 0 0 9 sv)) ''t1'' = Some x \<and> tk_status x = TaskCompleted"
proof -
  let ?a = "new_agent ''a1'' demo_agent"
  let ?s1 = "fst (InMemoryAgentTaskRepository_create ''t1'' ''now'' store_init \<lparr>ct_selectedAgentId = ''a1'',
    ct_initialInput = ''go'', ct_background = None, ct_parentRunId = None, ct_parentTaskId = None, ct_metadata = None\<rparr>)"
  let ?s = "fst (run_create ''r1'' ''now'' ?s1 ''a1'' ''go'' None)"
  let ?sv = "\<lparr>sv_store = ?s, sv_launches = [''t1''], sv_threads = [TExec ''r1'' (Some ''t1'') (effects_of demo_env ?a ''go'' [])]\<rparr>"
  have len: "length (effects_of demo_env ?a ''go'' []) = 5"
    by (simp add: effects_of_def run_effects_def demo_env_def result_effects_def)
  have run: "run_get (sv_store ?sv) ''r1'' \<noteq> None" and task: "task_get (sv_store ?sv) ''t1'' \<noteq> None"
    and pend: "pending_list (sv_store ?sv) ''t1'' = []"
    by (simp_all add: store_ops store_init_def Let_def new_run_def new_task_def)
  have threads: "sv_threads ?sv = [] @ TExec ''r1'' (Some ''t1'') (effects_of demo_env ?a ''go'' []) # []" by simp
  have "run_succeeds (ev_resolve demo_env) (ev_gen demo_env) (ev_registry demo_env) (ev_options demo_env) ?a ''go'' []"
    by (simp add: run_succeeds_def demo_env_def)
  with background_execution_settles [OF threads run task pend, of "''u''" "\<lambda>n. ''later''"] len
  show ?thesis by (intro exI [of _ ?sv]) auto
qed

text \<open>
  C25. Resuming a task that is not launched starts a run whose input is exactly the messages waiting for
  the task, joined by blank lines (a fixed request when none waits), whose history is the task's
  transcript, and whose task is the resumed one; the task is running with that run active, and exactly
  those messages are then marked delivered.
\<close>

theorem resume_starts_with_pending:
  assumes "resumeAgentTask sv t = Inr (Inr th)" and "t \<notin> set (sv_launches sv)" and "store_ok (sv_store sv)"
  shows "\<exists>a task run. let sv' = fst (thread_step ev uuid now sv th) in
    snd (thread_step ev uuid now sv th) = [TDeliver (map pn_id (pending_list (sv_store sv) t))]
    \<and> run_get (sv_store sv') uuid = Some run \<and> rn_input run = resume_input (pending_list (sv_store sv) t)
    \<and> rn_agentTaskId run = Some t \<and> rn_status run = RunPending
    \<and> task_get (sv_store sv') t = Some task \<and> tk_status task = TaskRunning \<and> tk_activeRunId task = Some uuid
    \<and> InMemoryAgentRepository_get (sv_store sv) (tk_selectedAgentId task) = Some a
    \<and> sv_threads sv' = sv_threads sv @ [TExec uuid (Some t)
         (effects_of ev a (resume_input (pending_list (sv_store sv) t)) (getAgentTaskMessages sv t))]
    \<and> sv_launches sv' = t # sv_launches sv"
proof -
  obtain x where x: "task_get (sv_store sv) t = Some x"
    using assms(1) by (auto simp: resumeAgentTask_def split: option.splits)
  then have id: "tk_id x = t" using assms(3) by (auto simp: store_ok_def InMemoryAgentTaskRepository_get_def)
  obtain a where a: "InMemoryAgentRepository_get (sv_store sv) (tk_selectedAgentId x) = Some a"
    and th: "th = TStart x a (resume_input (pending_list (sv_store sv) t)) (getAgentTaskMessages sv t)
      (map pn_id (pending_list (sv_store sv) t))"
    using assms(1) x id
    by (auto simp: resumeAgentTask_def getAgentTaskMessages_def Let_def split: option.splits if_splits)
  show ?thesis
    using x id a assms(2) by (intro exI [of _ a]) (auto simp: th Let_def launch_effect [of sv x x] new_run_def)
qed

definition demo_follow_up :: service where
  "demo_follow_up =
     (let s1 = fst (InMemoryAgentRepository_create ''a1'' store_init demo_agent);
          s2 = fst (InMemoryAgentTaskRepository_create ''t1'' ''now'' s1 \<lparr>ct_selectedAgentId = ''a1'',
            ct_initialInput = ''go'', ct_background = None, ct_parentRunId = None, ct_parentTaskId = None, ct_metadata = None\<rparr>);
          s3 = fst (pending_enqueue ''p1'' ''now'' s2 \<lparr>cp_taskId = ''t1'', cp_role = RoleUser, cp_content = ''one''\<rparr>)
      in \<lparr>sv_store = s3, sv_launches = [], sv_threads = []\<rparr>)"

lemma demo_follow_up_ok: "store_ok (sv_store demo_follow_up)"
  by (auto simp: demo_follow_up_def Let_def store_ok_def store_ops store_init_def new_agent_def new_task_def)

theorem resume_starts_with_pending_witness:
  "\<exists>th run. resumeAgentTask demo_follow_up ''t1'' = Inr (Inr th)
    \<and> run_get (sv_store (fst (thread_step demo_env ''r1'' ''now'' demo_follow_up th))) ''r1'' = Some run
    \<and> rn_input run = ''one''"
proof -
  have "(case resumeAgentTask demo_follow_up ''t1'' of Inr (Inr th) \<Rightarrow> True | _ \<Rightarrow> False)" by code_simp
  then obtain th where th: "resumeAgentTask demo_follow_up ''t1'' = Inr (Inr th)"
    by (auto split: sum.splits)
  have launches: "''t1'' \<notin> set (sv_launches demo_follow_up)" by (simp add: demo_follow_up_def Let_def)
  have "resume_input (pending_list (sv_store demo_follow_up) ''t1'') = ''one''" by code_simp
  with resume_starts_with_pending [OF th launches demo_follow_up_ok, of demo_env "''r1''" "''now''"] th
  show ?thesis by (auto simp: Let_def)
qed

lemma demo_lost_plays:
  "map_option (\<lambda>sv. (sv_threads sv, sv_launches sv, map rn_input (InMemoryRunRepository_list (sv_store sv)),
      map (\<lambda>p. (pn_id p, pn_content p, pn_deliveredAt p)) (jm_values (st_pending (sv_store sv)))))
    (play demo_env demo_lost service_init)
   = Some ([], [], [''go'', ''one''], [(''p1'', ''one'', Some ''now''), (''p2'', ''two'', Some ''now'')])"
  by code_simp

text \<open>
  A follow-up message can be lost: there is a reachable state in which nothing is under way, a
  message is marked delivered, and no run ever had it in its input. Two messages are sent to an idle
  task; the first resumption launches with the first message only, and the second, which read both,
  finds the task launched, starts nothing and still marks both delivered.
\<close>

theorem follow_up_message_lost:
  "\<exists>sv. reachable sv \<and> sv_threads sv = []
    \<and> map rn_input (InMemoryRunRepository_list (sv_store sv)) = [''go'', ''one'']
    \<and> map (\<lambda>p. (pn_id p, pn_content p, pn_deliveredAt p)) (jm_values (st_pending (sv_store sv)))
      = [(''p1'', ''one'', Some ''now''), (''p2'', ''two'', Some ''now'')]"
proof -
  obtain sv where sv: "play demo_env demo_lost service_init = Some sv" using demo_lost_plays by auto
  with play_reachable reachable.init have "reachable sv" by blast
  with demo_lost_plays sv show ?thesis by (intro exI [of _ sv]) simp
qed

end
