(* ===== verification/Json_Text.thy ===== *)
theory Json_Text
  imports Protocol
begin

text \<open>
  \<^verbatim>\<open>JSON.parse\<close>, as the storage and configuration code uses it, and its round trip with the
  \<^verbatim>\<open>JSON.stringify\<close> of \<open>Protocol\<close>. The parser accepts the JSON grammar over the values of the model:
  numbers are integers and characters are code units below 256; text outside of these is refused, as
  malformed text is. Of several members with one name the last one counts, at the place of the first.

  The recursion is bounded by a number that every call decreases; \<open>json_parse\<close> starts with the length
  of the text, which \<open>json_parse_stringify\<close> shows to be enough for every serialised value.
\<close>

section \<open>The parser\<close>

definition json_space :: "char \<Rightarrow> bool" where
  "json_space c \<longleftrightarrow> of_char c \<in> {9, 10, 13, 32 :: nat}"

definition skip_space :: "string \<Rightarrow> string" where
  "skip_space s = dropWhile json_space s"

definition is_digit :: "char \<Rightarrow> bool" where
  "is_digit c \<longleftrightarrow> 48 \<le> (of_char c :: nat) \<and> (of_char c :: nat) \<le> 57"

definition digit_val :: "char \<Rightarrow> nat" where
  "digit_val c = of_char c - 48"

definition digits_val :: "string \<Rightarrow> nat" where
  "digits_val ds = foldl (\<lambda>n c. 10 * n + digit_val c) 0 ds"

text \<open>An unsigned integer: digits without a leading zero.\<close>

definition parse_nat :: "string \<Rightarrow> (nat \<times> string) option" where
  "parse_nat s =
     (let ds = takeWhile is_digit s
      in if ds = [] \<or> (hd ds = CHR ''0'' \<and> length ds > 1) then None
         else Some (digits_val ds, dropWhile is_digit s))"

definition hex_val :: "char \<Rightarrow> nat option" where
  "hex_val c = (let n = (of_char c :: nat) in
     if 48 \<le> n \<and> n \<le> 57 then Some (n - 48)
     else if 97 \<le> n \<and> n \<le> 102 then Some (n - 87)
     else if 65 \<le> n \<and> n \<le> 70 then Some (n - 55) else None)"

definition simple_escape :: "char \<Rightarrow> char option" where
  "simple_escape e = (let n = (of_char e :: nat) in
     if n = 34 \<or> n = 92 \<or> n = 47 then Some e else if n = 98 then Some (char_of (8 :: nat))
     else if n = 102 then Some (char_of (12 :: nat)) else if n = 110 then Some (char_of (10 :: nat))
     else if n = 114 then Some (char_of (13 :: nat)) else if n = 116 then Some (char_of (9 :: nat)) else None)"

definition unicode_escape :: "char \<Rightarrow> char \<Rightarrow> char \<Rightarrow> char \<Rightarrow> char option" where
  "unicode_escape a b c d =
     (case (hex_val a, hex_val b, hex_val c, hex_val d) of
        (Some 0, Some 0, Some h, Some l) \<Rightarrow> Some (char_of (16 * h + l))
      | _ \<Rightarrow> None)"

text \<open>The rest of a string literal after its opening quote.\<close>

fun parse_string :: "string \<Rightarrow> (string \<times> string) option" where
  "parse_string [] = None"
| "parse_string (c # r) =
     (if of_char c = (34 :: nat) then Some ([], r)
      else if of_char c < (32 :: nat) then None
      else if of_char c = (92 :: nat) then
        (case r of
           [] \<Rightarrow> None
         | e # r1 \<Rightarrow>
             if of_char e = (117 :: nat) then
               (case r1 of
                  a # b # c2 # d # r2 \<Rightarrow>
                    (case unicode_escape a b c2 d of None \<Rightarrow> None
                     | Some x \<Rightarrow> map_option (map_prod (Cons x) id) (parse_string r2))
                | _ \<Rightarrow> None)
             else (case simple_escape e of None \<Rightarrow> None
                   | Some x \<Rightarrow> map_option (map_prod (Cons x) id) (parse_string r1)))
      else map_option (map_prod (Cons c) id) (parse_string r))"

definition parse_word :: "string \<Rightarrow> json \<Rightarrow> string \<Rightarrow> (json \<times> string) option" where
  "parse_word w j s = (if js_startsWith s w then Some (j, drop (length w) s) else None)"

definition parse_number :: "string \<Rightarrow> (json \<times> string) option" where
  "parse_number s =
     (case s of
        [] \<Rightarrow> None
      | c # r \<Rightarrow>
          if c = CHR ''-'' then map_option (map_prod (\<lambda>n. JNum (- int n)) id) (parse_nat r)
          else map_option (map_prod (\<lambda>n. JNum (int n)) id) (parse_nat s))"

fun parse_value :: "nat \<Rightarrow> string \<Rightarrow> (json \<times> string) option"
  and parse_elements :: "nat \<Rightarrow> string \<Rightarrow> (json list \<times> string) option"
  and parse_members :: "nat \<Rightarrow> string \<Rightarrow> ((string \<times> json) list \<times> string) option" where
  "parse_value 0 s = None"
| "parse_value (Suc n) s =
     (case skip_space s of
        [] \<Rightarrow> None
      | c # r \<Rightarrow>
          if c = CHR 0x22 then map_option (map_prod JStr id) (parse_string r)
          else if c = CHR ''['' then
            (case skip_space r of
               d # r' \<Rightarrow> if d = CHR '']'' then Some (JArr [], r')
                         else map_option (map_prod JArr id) (parse_elements n r)
             | [] \<Rightarrow> None)
          else if c = CHR ''{'' then
            (case skip_space r of
               d # r' \<Rightarrow> if d = CHR ''}'' then Some (JObj [], r')
                         else map_option (map_prod (\<lambda>kvs. JObj (foldl (\<lambda>m (k, v). jm_set m k v) [] kvs)) id)
                                (parse_members n r)
             | [] \<Rightarrow> None)
          else if c = CHR ''n'' then parse_word ''null'' JNull (c # r)
          else if c = CHR ''t'' then parse_word ''true'' (JBool True) (c # r)
          else if c = CHR ''f'' then parse_word ''false'' (JBool False) (c # r)
          else parse_number (c # r))"
| "parse_elements 0 s = None"
| "parse_elements (Suc n) s =
     (case parse_value n s of
        None \<Rightarrow> None
      | Some (v, r) \<Rightarrow>
          (case skip_space r of
             [] \<Rightarrow> None
           | d # r' \<Rightarrow>
               if d = CHR '']'' then Some ([v], r')
               else if d = CHR '','' then map_option (map_prod (Cons v) id) (parse_elements n r')
               else None))"
| "parse_members 0 s = None"
| "parse_members (Suc n) s =
     (case skip_space s of
        [] \<Rightarrow> None
      | q # r \<Rightarrow>
          if q \<noteq> CHR 0x22 then None
          else (case parse_string r of
                  None \<Rightarrow> None
                | Some (k, r1) \<Rightarrow>
                    (case skip_space r1 of
                       [] \<Rightarrow> None
                     | col # r2 \<Rightarrow>
                         if col \<noteq> CHR '':'' then None
                         else (case parse_value n r2 of
                                 None \<Rightarrow> None
                               | Some (v, r3) \<Rightarrow>
                                   (case skip_space r3 of
                                      [] \<Rightarrow> None
                                    | d # r4 \<Rightarrow>
                                        if d = CHR ''}'' then Some ([(k, v)], r4)
                                        else if d = CHR '','' then map_option (map_prod (Cons (k, v)) id) (parse_members n r4)
                                        else None)))))"

definition json_parse :: "string \<Rightarrow> json option" where
  "json_parse s =
     (case parse_value (length s) s of
        None \<Rightarrow> None
      | Some (j, r) \<Rightarrow> if skip_space r = [] then Some j else None)"

section \<open>Numbers and strings\<close>

lemma char_of_of_char: "of_char c = n \<Longrightarrow> char_of (n :: nat) = c"
  by (metis char_of_char)

lemma is_digit_char [simp]: "d < 10 \<Longrightarrow> is_digit (digit_char d)"
  by (simp add: is_digit_def digit_char_def of_char_of)

lemma digit_val_char [simp]: "d < 10 \<Longrightarrow> digit_val (digit_char d) = d"
  by (simp add: digit_val_def digit_char_def of_char_of)

lemma digit_char_zero: "d < 10 \<Longrightarrow> digit_char d = CHR ''0'' \<longleftrightarrow> d = 0"
proof
  assume "d < 10" and "digit_char d = CHR ''0''"
  then have "digit_val (digit_char d) = digit_val (CHR ''0'')" by simp
  moreover have "digit_val (CHR ''0'') = 0" by (simp add: digit_val_def)
  ultimately show "d = 0" using \<open>d < 10\<close> by simp
qed (simp add: digit_char_def char_of_of_char)

lemma show_nat_digits: "c \<in> set (show_nat n) \<Longrightarrow> is_digit c"
proof (induction n rule: show_nat.induct)
  case (1 n)
  then show ?case by (subst (asm) (2) show_nat.simps) (auto split: if_splits)
qed

lemma digits_val_snoc: "digits_val (ds @ [c]) = 10 * digits_val ds + digit_val c"
  by (simp add: digits_val_def)

lemma digits_val_show: "digits_val (show_nat n) = n"
proof (induction n rule: show_nat.induct)
  case (1 n)
  show ?case
  proof (cases "n < 10")
    case True
    then show ?thesis by (subst show_nat.simps) (simp add: digits_val_def)
  next
    case False
    have "show_nat n = show_nat (n div 10) @ [digit_char (n mod 10)]" using False by (subst show_nat.simps) simp
    with 1 [OF False] show ?thesis by (simp add: digits_val_snoc)
  qed
qed

lemma show_nat_head: "0 < n \<Longrightarrow> hd (show_nat n) \<noteq> CHR ''0''"
proof (induction n rule: show_nat.induct)
  case (1 n)
  show ?case
  proof (cases "n < 10")
    case True
    with 1(2) digit_char_zero [OF True] show ?thesis by (subst show_nat.simps) simp
  next
    case False
    with 1(1) [OF False] show ?thesis by (subst show_nat.simps) (simp add: hd_append)
  qed
qed

definition number_ends :: "string \<Rightarrow> bool" where
  "number_ends rest = (case rest of [] \<Rightarrow> True | c # _ \<Rightarrow> \<not> is_digit c)"

lemma parse_nat_show: "number_ends rest \<Longrightarrow> parse_nat (show_nat n @ rest) = Some (n, rest)"
proof -
  assume "number_ends rest"
  then have "takeWhile is_digit (show_nat n @ rest) = show_nat n" and "dropWhile is_digit (show_nat n @ rest) = rest"
    using show_nat_digits [of _ n]
    by (auto simp: takeWhile_append dropWhile_append number_ends_def split: list.splits)
  moreover have "\<not> (hd (show_nat n) = CHR ''0'' \<and> 1 < length (show_nat n))"
    using show_nat_head [of n] show_nat.simps [of 0] by (cases n) auto
  ultimately show ?thesis by (simp add: parse_nat_def Let_def digits_val_show)
qed

lemma parse_number_show: "number_ends rest \<Longrightarrow> parse_number (show_int i @ rest) = Some (JNum i, rest)"
proof (cases "i < 0")
  case False
  assume ends: "number_ends rest"
  obtain c t where s: "show_nat (nat i) = c # t" by (cases "show_nat (nat i)") auto
  then have "c \<noteq> CHR ''-''" using show_nat_digits [of c "nat i"] by (auto simp: is_digit_def)
  with False s parse_nat_show [OF ends, of "nat i"] show ?thesis by (simp add: parse_number_def show_int_def)
qed (simp add: parse_number_def show_int_def parse_nat_show)

lemma hex_val_digit: "d < 16 \<Longrightarrow> hex_val (hex_digit d) = Some d"
  by (simp add: hex_val_def hex_digit_def of_char_of)

lemma parse_string_escape:
  "parse_string (json_escape c @ t) = map_option (map_prod (Cons c) id) (parse_string t)"
proof -
  define n where "n = (of_char c :: nat)"
  have c: "char_of n = c" using char_of_of_char n_def by blast
  consider "n \<in> {34, 92, 8, 9, 10, 12, 13}" | "n < 32" "n \<notin> {8, 9, 10, 12, 13}" | "32 \<le> n" "n \<noteq> 34" "n \<noteq> 92"
    by fastforce
  then show ?thesis
  proof cases
    case 1
    have "char_of (34 :: nat) = CHR 0x22" and "char_of (92 :: nat) = CHR 0x5C" by (simp_all add: char_of_of_char)
    with 1 show ?thesis using c
      by (auto simp: json_escape_def n_def [symmetric] simple_escape_def Let_def)
  next
    case 2
    have hex: "unicode_escape CHR ''0'' CHR ''0'' (hex_digit (n div 16)) (hex_digit (n mod 16)) = Some c"
      using 2(1) c by (simp add: unicode_escape_def hex_val_digit) (simp add: hex_val_def)
    from 2 have "json_escape c = [CHR 0x5C, CHR ''u'', CHR ''0'', CHR ''0'', hex_digit (n div 16), hex_digit (n mod 16)]"
      by (auto simp: json_escape_def n_def [symmetric] Let_def)
    with hex show ?thesis by simp
  next
    case 3
    then show ?thesis by (simp add: json_escape_def n_def [symmetric] Let_def)
  qed
qed

lemma parse_string_quote: "parse_string (concat (map json_escape s) @ CHR 0x22 # rest) = Some (s, rest)"
  by (induction s) (simp_all add: parse_string_escape)

section \<open>The round trip\<close>

fun json_ok :: "json \<Rightarrow> bool" where
  "json_ok (JArr js) \<longleftrightarrow> (\<forall>j \<in> set js. json_ok j)"
| "json_ok (JObj kvs) \<longleftrightarrow> distinct (map fst kvs) \<and> (\<forall>kv \<in> set kvs. json_ok (snd kv))"
| "json_ok _ \<longleftrightarrow> True"

text \<open>
  A printer with white space: \<open>nl d\<close> before a part at depth \<open>d\<close> and before a closing bracket, \<open>sp\<close> after a
  colon. Without white space it is \<^verbatim>\<open>JSON.stringify(value)\<close>, with line breaks and two spaces for each level
  it is \<^verbatim>\<open>JSON.stringify(value, null, 2)\<close>.
\<close>

fun json_write :: "(nat \<Rightarrow> string) \<Rightarrow> string \<Rightarrow> nat \<Rightarrow> json \<Rightarrow> string" where
  "json_write nl sp d (JArr js) =
     (if js = [] then ''[]''
      else CHR ''['' # nl (Suc d) @ js_join (CHR '','' # nl (Suc d)) (map (json_write nl sp (Suc d)) js) @ nl d @ '']'')"
| "json_write nl sp d (JObj kvs) =
     (if kvs = [] then ''{}''
      else CHR ''{'' # nl (Suc d)
        @ js_join (CHR '','' # nl (Suc d)) (map (\<lambda>kv. json_quote (fst kv) @ CHR '':'' # sp @ json_write nl sp (Suc d) (snd kv)) kvs)
        @ nl d @ ''}'')"
| "json_write nl sp d j = json_stringify j"

definition json_pretty :: "json \<Rightarrow> string" where
  "json_pretty j = json_write (\<lambda>d. CHR 0x0A # replicate (2 * d) CHR '' '') '' '' 0 j"

lemma json_stringify_write: "json_stringify j = json_write (\<lambda>d. []) [] d j"
proof (induction j arbitrary: d)
  case (JArr js)
  then show ?case by (auto intro!: arg_cong [where f = "js_join '',''"])
next
  case (JObj kvs)
  then have "json_stringify (snd kv) = json_write (\<lambda>d. []) [] (Suc d) (snd kv)" if "kv \<in> set kvs" for kv
    using that by (auto simp: snds.simps)
  then show ?case by (auto intro!: arg_cong [where f = "js_join '',''"])
qed simp_all

lemma foldl_jm_set_distinct:
  "distinct (map fst acc @ map fst kvs) \<Longrightarrow> foldl (\<lambda>m (k, v). jm_set m k v) acc kvs = acc @ kvs"
proof (induction kvs arbitrary: acc)
  case (Cons kv kvs)
  obtain k v where kv: "kv = (k, v)" by (cases kv)
  with Cons.prems have "jm_get acc k = None" by (auto simp: map_of_eq_None_iff)
  with Cons kv show ?case by (simp add: jm_set_fresh)
qed simp

definition value_head :: "char \<Rightarrow> bool" where
  "value_head c \<longleftrightarrow> \<not> json_space c \<and> c \<noteq> CHR '']'' \<and> c \<noteq> CHR ''}''"

lemma show_nat_Cons: "\<exists>c t. show_nat n = c # t \<and> is_digit c"
  using show_nat_digits [of _ n] by (cases "show_nat n") auto

lemma write_head: "\<exists>c t. json_write nl sp d j = c # t \<and> value_head c"
proof (cases j)
  case (JNum i)
  then show ?thesis using show_nat_Cons [of "nat i"]
    by (auto simp: show_int_def value_head_def json_space_def is_digit_def)
qed (auto simp: value_head_def json_space_def json_quote_def)

lemma skip_space_Cons [simp]: "\<not> json_space c \<Longrightarrow> skip_space (c # t) = c # t"
  by (simp add: skip_space_def)

lemma skip_space_append [simp]: "\<forall>c \<in> set w. json_space c \<Longrightarrow> skip_space (w @ t) = skip_space t"
  by (simp add: skip_space_def dropWhile_append)

lemma parse_value_space [simp]: "\<forall>c \<in> set w. json_space c \<Longrightarrow> parse_value n (w @ t) = parse_value n t"
  by (cases n) simp_all

lemma parse_elements_space [simp]: "\<forall>c \<in> set w. json_space c \<Longrightarrow> parse_elements n (w @ t) = parse_elements n t"
  by (cases n) simp_all

lemma parse_members_space [simp]: "\<forall>c \<in> set w. json_space c \<Longrightarrow> parse_members n (w @ t) = parse_members n t"
  by (cases n) simp_all

lemma json_space_marks [simp]:
  "\<not> json_space CHR '',''" "\<not> json_space CHR '']''" "\<not> json_space CHR ''}''" "\<not> json_space CHR '':''"
  "\<not> json_space CHR 0x22" "\<not> json_space CHR ''[''" "\<not> json_space CHR ''{''" "\<not> json_space CHR ''n''"
  "\<not> json_space CHR ''t''" "\<not> json_space CHR ''f''"
  by (simp_all add: json_space_def)

lemma number_ends_marks [simp]:
  "number_ends (CHR '','' # r)" "number_ends (CHR '']'' # r)" "number_ends (CHR ''}'' # r)" "number_ends []"
  by (simp_all add: number_ends_def is_digit_def)

lemma number_ends_space: "\<forall>c \<in> set w. json_space c \<Longrightarrow> number_ends t \<Longrightarrow> number_ends (w @ t)"
  by (cases w) (auto simp: number_ends_def json_space_def is_digit_def)

definition parses_back :: "string \<Rightarrow> json \<Rightarrow> bool" where
  "parses_back t j \<longleftrightarrow> (\<forall>n rest. length t \<le> n \<longrightarrow> number_ends rest \<longrightarrow> parse_value n (t @ rest) = Some (j, rest))"

lemma parse_elements_back:
  assumes "\<forall>c \<in> set w. json_space c" and "\<forall>c \<in> set w'. json_space c"
  shows "\<forall>j \<in> set js. parses_back (W j) j \<Longrightarrow> js \<noteq> [] \<Longrightarrow> length (js_join (CHR '','' # w) (map W js)) < n \<Longrightarrow>
   parse_elements n (js_join (CHR '','' # w) (map W js) @ w' @ CHR '']'' # rest) = Some (js, rest)"
proof (induction js arbitrary: n)
  case (Cons j js)
  then obtain m where n: "n = Suc m" by (cases n) auto
  show ?case
  proof (cases js)
    case Nil
    with Cons.prems n assms number_ends_space [OF assms(2)] show ?thesis by (simp add: parses_back_def)
  next
    case (Cons k ks)
    let ?tl = "js_join (CHR '','' # w) (map W js)"
    have "parse_value m (W j @ CHR '','' # w @ ?tl @ w' @ CHR '']'' # rest)
        = Some (j, CHR '','' # w @ ?tl @ w' @ CHR '']'' # rest)"
      using Cons.prems n Cons by (simp add: parses_back_def)
    moreover have "parse_elements m (?tl @ w' @ CHR '']'' # rest) = Some (js, rest)"
      using Cons.IH [of m] Cons.prems n Cons by simp
    ultimately show ?thesis using n Cons assms by simp
  qed
qed simp

lemma parse_members_back:
  fixes W :: "json \<Rightarrow> string"
  assumes "\<forall>c \<in> set w. json_space c" and "\<forall>c \<in> set w'. json_space c" and "\<forall>c \<in> set sp. json_space c"
  defines "M \<equiv> \<lambda>kv. json_quote (fst kv) @ CHR '':'' # sp @ W (snd kv)"
  shows "\<forall>kv \<in> set kvs. parses_back (W (snd kv)) (snd kv) \<Longrightarrow> kvs \<noteq> [] \<Longrightarrow>
   length (js_join (CHR '','' # w) (map M kvs)) < n \<Longrightarrow>
   parse_members n (js_join (CHR '','' # w) (map M kvs) @ w' @ CHR ''}'' # rest) = Some (kvs, rest)"
proof (induction kvs arbitrary: n)
  case (Cons kv kvs)
  then obtain m where n: "n = Suc m" by (cases n) auto
  obtain k v where kv: "kv = (k, v)" by (cases kv)
  have str: "parse_string (concat (map json_escape k) @ CHR 0x22 # r) = Some (k, r)" for r
    by (rule parse_string_quote)
  show ?case
  proof (cases kvs)
    case Nil
    with Cons.prems n kv str assms number_ends_space [OF assms(2)] show ?thesis
      by (simp add: parses_back_def json_quote_def)
  next
    case (Cons kv' kvs')
    let ?tl = "js_join (CHR '','' # w) (map M kvs)"
    have "parse_value m (W v @ CHR '','' # w @ ?tl @ w' @ CHR ''}'' # rest)
        = Some (v, CHR '','' # w @ ?tl @ w' @ CHR ''}'' # rest)"
      using Cons.prems n Cons kv by (simp add: parses_back_def M_def)
    moreover have "parse_members m (?tl @ w' @ CHR ''}'' # rest) = Some (kvs, rest)"
      using Cons.IH [of m] Cons.prems n Cons by simp
    moreover have "M kv = CHR 0x22 # concat (map json_escape k) @ CHR 0x22 # CHR '':'' # sp @ W v"
      by (simp add: M_def kv json_quote_def)
    ultimately show ?thesis using n Cons kv str assms(1-3) by simp
  qed
qed simp

lemma parses_back:
  assumes "\<And>d. \<forall>c \<in> set (nl d). json_space c" and "\<forall>c \<in> set sp. json_space c"
  shows "json_ok j \<Longrightarrow> parses_back (json_write nl sp d j) j"
proof (induction j arbitrary: d)
  case (JNum i)
  show ?case
    unfolding parses_back_def
  proof (intro allI impI)
    fix n rest assume n: "length (json_write nl sp d (JNum i)) \<le> n" and ends: "number_ends rest"
    obtain c t where s: "show_int i = c # t" "c = CHR ''-'' \<or> is_digit c"
      using show_nat_Cons [of "nat i"] by (cases "i < 0") (auto simp: show_int_def)
    then have c: "\<not> json_space c" "c \<notin> {CHR 0x22, CHR ''['', CHR ''{'', CHR ''n'', CHR ''t'', CHR ''f''}"
      by (auto simp: is_digit_def json_space_def)
    from n s obtain m where "n = Suc m" by (cases n) auto
    with s c parse_number_show [OF ends, of i]
    show "parse_value n (json_write nl sp d (JNum i) @ rest) = Some (JNum i, rest)" by simp
  qed
next
  case (JStr s)
  show ?case
    unfolding parses_back_def
  proof (intro allI impI)
    fix n rest assume "length (json_write nl sp d (JStr s)) \<le> n"
    then obtain m where "n = Suc m" by (cases n) (auto simp: json_quote_def)
    with parse_string_quote show "parse_value n (json_write nl sp d (JStr s) @ rest) = Some (JStr s, rest)"
      by (simp add: json_quote_def)
  qed
next
  case (JArr js)
  then have all: "\<forall>j \<in> set js. parses_back (json_write nl sp (Suc d) j) j" by simp
  show ?case
    unfolding parses_back_def
  proof (intro allI impI)
    fix n rest assume len: "length (json_write nl sp d (JArr js)) \<le> n"
    then obtain m where n: "n = Suc m" by (cases n) (auto split: if_splits)
    show "parse_value n (json_write nl sp d (JArr js) @ rest) = Some (JArr js, rest)"
    proof (cases js)
      case (Cons k ks)
      let ?body = "js_join (CHR '','' # nl (Suc d)) (map (json_write nl sp (Suc d)) js)"
      obtain c t where c: "json_write nl sp (Suc d) k = c # t" "value_head c" using write_head by blast
      then have "\<exists>u. ?body = c # u" using Cons by (cases ks) auto
      moreover have "parse_elements m (?body @ nl d @ CHR '']'' # rest) = Some (js, rest)"
        using parse_elements_back [OF assms(1) assms(1) all] len n Cons by simp
      ultimately show ?thesis using n c(2) Cons assms(1) by (auto simp: value_head_def)
    qed (simp add: n)
  qed
next
  case (JObj kvs)
  then have all: "\<forall>kv \<in> set kvs. parses_back (json_write nl sp (Suc d) (snd kv)) (snd kv)" and dist: "distinct (map fst kvs)"
    by (auto simp: snds.simps)
  show ?case
    unfolding parses_back_def
  proof (intro allI impI)
    fix n rest assume len: "length (json_write nl sp d (JObj kvs)) \<le> n"
    then obtain m where n: "n = Suc m" by (cases n) (auto split: if_splits)
    let ?body = "js_join (CHR '','' # nl (Suc d)) (map (\<lambda>kv. json_quote (fst kv) @ CHR '':'' # sp @ json_write nl sp (Suc d) (snd kv)) kvs)"
    show "parse_value n (json_write nl sp d (JObj kvs) @ rest) = Some (JObj kvs, rest)"
    proof (cases kvs)
      case (Cons kv ks)
      have "\<exists>u. ?body = CHR 0x22 # u" using Cons by (cases ks) (auto simp: json_quote_def)
      moreover have "parse_members m (?body @ nl d @ CHR ''}'' # rest) = Some (kvs, rest)"
        using parse_members_back [OF assms(1) assms(1) assms(2) all] len n Cons by simp
      moreover have "foldl (\<lambda>m (k, v). jm_set m k v) [] kvs = kvs"
        using foldl_jm_set_distinct [of "[]" kvs] dist by simp
      ultimately show ?thesis using n Cons assms(1) by auto
    qed (simp add: n)
  qed
qed (auto simp: parses_back_def parse_word_def Suc_le_eq dest!: less_imp_Suc_add)

lemma json_parse_back:
  assumes "parses_back t j" and "\<forall>c \<in> set w. json_space c"
  shows "json_parse (t @ w) = Some j"
proof -
  have "number_ends w" using number_ends_space [OF assms(2), of "[]"] by simp
  then have "parse_value (length (t @ w)) (t @ w) = Some (j, w)" using assms(1) by (simp add: parses_back_def)
  with assms(2) skip_space_append [of w "[]"] show ?thesis by (simp add: json_parse_def skip_space_def)
qed

lemma json_parse_stringify: "json_ok j \<Longrightarrow> json_parse (json_stringify j) = Some j"
  using json_parse_back [OF parses_back [of "\<lambda>d. []" "[]" j 0], of "[]"] by (simp add: json_stringify_write [of j 0])

text \<open>A value written with indentation, with or without a line break at the end.\<close>

lemma json_parse_pretty:
  assumes "json_ok j"
  shows "json_parse (json_pretty j) = Some j" and "json_parse (json_pretty j @ [CHR 0x0A]) = Some j"
proof -
  have "parses_back (json_pretty j) j"
    unfolding json_pretty_def using assms by (intro parses_back) (auto simp: json_space_def)
  from json_parse_back [OF this, of "[]"] json_parse_back [OF this, of "[CHR 0x0A]"]
  show "json_parse (json_pretty j) = Some j" and "json_parse (json_pretty j @ [CHR 0x0A]) = Some j"
    by (simp_all add: json_space_def)
qed

end
