(* ===== verification/Scheduler.thy ===== *)
theory Scheduler
  imports Gateway_Auth
begin

text \<open>
  The scheduler: the service (\<^verbatim>\<open>packages/scheduler/src/scheduler.ts\<close>, \<^verbatim>\<open>cron-evaluator.ts\<close>), its two pairs
  of repositories (\<^verbatim>\<open>apps/gateway/src/scheduler-repositories.ts\<close> in memory, \<^verbatim>\<open>job-repository.ts\<close> and
  \<^verbatim>\<open>execution-repository.ts\<close> of \<^verbatim>\<open>packages/storage\<close> over SQLite) and the job routes
  (\<^verbatim>\<open>apps/gateway/src/routes/jobs.ts\<close>).

  The cron parser is the argument \<open>cron\<close>: expression, time zone and current time give the next time, or
  \<open>None\<close> where the parser throws. The agent service is the argument \<open>submit\<close>, a function on the whole
  state. Timestamps are ISO texts, whose order is the order of the times; rows with equal keys are
  listed in insertion order. Foreign keys are enforced, as the SQLite driver does by default. A tick is
  modelled without client calls in between. Metrics and logging are left out.
\<close>

type_synonym cron_parser = "string \<Rightarrow> string \<Rightarrow> timestamp \<Rightarrow> timestamp option"

definition calculateNextRun :: "cron_parser \<Rightarrow> timestamp \<Rightarrow> string \<Rightarrow> string \<Rightarrow> timestamp result" where
  "calculateNextRun cron clk e tz =
     (case cron e tz clk of None \<Rightarrow> Inl (Error (''Invalid cron expression: '' @ e)) | Some t \<Rightarrow> Inr t)"

section \<open>Records\<close>

definition new_job :: "ident \<Rightarrow> timestamp \<Rightarrow> timestamp \<Rightarrow> CreateScheduledJob \<Rightarrow> ScheduledJob" where
  "new_job uuid now nextRunAt d =
     \<lparr>jb_id = uuid, jb_agentId = cj_agentId d, jb_name = cj_name d, jb_cronExpression = cj_cronExpression d,
      jb_input = cj_input d, jb_enabled = True, jb_allowConcurrent = js_or (cj_allowConcurrent d) False,
      jb_timezone = js_or (cj_timezone d) ''UTC'', jb_maxRetries = js_or (cj_maxRetries d) 0,
      jb_createdAt = now, jb_updatedAt = now, jb_lastRunAt = None, jb_nextRunAt = Some nextRunAt\<rparr>"

definition new_execution :: "ident \<Rightarrow> CreateJobExecution \<Rightarrow> JobExecution" where
  "new_execution uuid d =
     \<lparr>je_id = uuid, je_jobId = cx_jobId d, je_runId = cx_runId d, je_status = cx_status d,
      je_scheduledAt = cx_scheduledAt d, je_executedAt = cx_executedAt d, je_error = cx_error d\<rparr>"

definition disabled_job :: "timestamp \<Rightarrow> ScheduledJob \<Rightarrow> ScheduledJob" where
  "disabled_job clk j = j\<lparr>jb_enabled := False, jb_updatedAt := clk\<rparr>"

definition rescheduled_job :: "timestamp \<Rightarrow> timestamp \<Rightarrow> timestamp \<Rightarrow> ScheduledJob \<Rightarrow> ScheduledJob" where
  "rescheduled_job clk lastRun nextRun j = j\<lparr>jb_lastRunAt := Some lastRun, jb_nextRunAt := Some nextRun, jb_updatedAt := clk\<rparr>"

text \<open>The fields of an update that are present replace those of the job.\<close>

definition updated_job :: "timestamp \<Rightarrow> UpdateScheduledJob \<Rightarrow> ScheduledJob \<Rightarrow> ScheduledJob" where
  "updated_job clk d j =
     j\<lparr>jb_name := js_or (uj_name d) (jb_name j), jb_cronExpression := js_or (uj_cronExpression d) (jb_cronExpression j),
       jb_input := js_or (uj_input d) (jb_input j), jb_enabled := js_or (uj_enabled d) (jb_enabled j),
       jb_allowConcurrent := js_or (uj_allowConcurrent d) (jb_allowConcurrent j),
       jb_timezone := js_or (uj_timezone d) (jb_timezone j), jb_maxRetries := js_or (uj_maxRetries d) (jb_maxRetries j),
       jb_updatedAt := clk\<rparr>"

text \<open>A stable sort by descending time.\<close>

definition newest_first :: "JobExecution list \<Rightarrow> JobExecution list" where
  "newest_first es = rev (sort_key je_scheduledAt (rev es))"

definition exec_page :: "nat option \<Rightarrow> nat option \<Rightarrow> 'a list \<Rightarrow> 'a list" where
  "exec_page limit offset xs = take (js_or limit 50) (drop (js_or offset 0) xs)"

section \<open>The repositories in memory\<close>

record sched_maps =
  sm_jobs :: "(ident, ScheduledJob) jsmap"
  sm_executions :: "(ident, JobExecution) jsmap"

definition InMemoryJobRepository_create ::
    "cron_parser \<Rightarrow> ident \<Rightarrow> timestamp \<Rightarrow> sched_maps \<Rightarrow> CreateScheduledJob \<Rightarrow> (sched_maps \<times> ScheduledJob) result" where
  "InMemoryJobRepository_create cron uuid now s d =
     (case calculateNextRun cron now (cj_cronExpression d) (js_or (cj_timezone d) ''UTC'') of
        Inl e \<Rightarrow> Inl e
      | Inr t \<Rightarrow> (let j = new_job uuid now t d in Inr (s\<lparr>sm_jobs := jm_set (sm_jobs s) uuid j\<rparr>, j)))"

definition InMemoryJobRepository_list :: "sched_maps \<Rightarrow> ident option \<Rightarrow> bool option \<Rightarrow> ScheduledJob list" where
  "InMemoryJobRepository_list s agentId enabled =
     (let jobs = jm_values (sm_jobs s);
          jobs1 = (if js_truthy agentId then filter (\<lambda>j. jb_agentId j = the agentId) jobs else jobs)
      in (case enabled of None \<Rightarrow> jobs1 | Some b \<Rightarrow> filter (\<lambda>j. jb_enabled j = b) jobs1))"

definition InMemoryJobRepository_update ::
    "cron_parser \<Rightarrow> timestamp \<Rightarrow> sched_maps \<Rightarrow> ident \<Rightarrow> UpdateScheduledJob \<Rightarrow> (sched_maps \<times> ScheduledJob option) result" where
  "InMemoryJobRepository_update cron clk s i d =
     (case jm_get (sm_jobs s) i of
        None \<Rightarrow> Inr (s, None)
      | Some j \<Rightarrow>
          (let u = updated_job clk d j;
               store = (\<lambda>v. Inr (s\<lparr>sm_jobs := jm_set (sm_jobs s) i v\<rparr>, Some v))
           in (case uj_cronExpression d of
                 None \<Rightarrow> store u
               | Some e \<Rightarrow>
                   (case calculateNextRun cron clk e (js_or (uj_timezone d) (jb_timezone j)) of
                      Inl x \<Rightarrow> Inl x
                    | Inr t \<Rightarrow> store (u\<lparr>jb_nextRunAt := Some t\<rparr>)))))"

definition InMemoryJobRepository_delete :: "sched_maps \<Rightarrow> ident \<Rightarrow> sched_maps \<times> bool" where
  "InMemoryJobRepository_delete s i = (s\<lparr>sm_jobs := jm_delete (sm_jobs s) i\<rparr>, jm_get (sm_jobs s) i \<noteq> None)"

definition InMemoryJobRepository_disable :: "timestamp \<Rightarrow> sched_maps \<Rightarrow> ident \<Rightarrow> sched_maps" where
  "InMemoryJobRepository_disable clk s i =
     (case jm_get (sm_jobs s) i of None \<Rightarrow> s
      | Some j \<Rightarrow> s\<lparr>sm_jobs := jm_set (sm_jobs s) i (disabled_job clk j)\<rparr>)"

definition InMemoryJobRepository_findDueJobs :: "timestamp \<Rightarrow> sched_maps \<Rightarrow> ScheduledJob list" where
  "InMemoryJobRepository_findDueJobs now s =
     filter (\<lambda>j. jb_enabled j \<and> js_truthy (jb_nextRunAt j) \<and> the (jb_nextRunAt j) \<le> now) (jm_values (sm_jobs s))"

definition InMemoryJobRepository_updateNextRun ::
    "timestamp \<Rightarrow> sched_maps \<Rightarrow> ident \<Rightarrow> timestamp \<Rightarrow> timestamp \<Rightarrow> sched_maps" where
  "InMemoryJobRepository_updateNextRun clk s i lastRun nextRun =
     (case jm_get (sm_jobs s) i of None \<Rightarrow> s
      | Some j \<Rightarrow> s\<lparr>sm_jobs := jm_set (sm_jobs s) i (rescheduled_job clk lastRun nextRun j)\<rparr>)"

definition InMemoryExecutionRepository_create ::
    "ident \<Rightarrow> sched_maps \<Rightarrow> CreateJobExecution \<Rightarrow> (sched_maps \<times> JobExecution) result" where
  "InMemoryExecutionRepository_create uuid s d =
     (let e = new_execution uuid d in Inr (s\<lparr>sm_executions := jm_set (sm_executions s) uuid e\<rparr>, e))"

definition InMemoryExecutionRepository_listByJobId ::
    "sched_maps \<Rightarrow> ident \<Rightarrow> nat option \<Rightarrow> nat option \<Rightarrow> JobExecution list" where
  "InMemoryExecutionRepository_listByJobId s i limit offset =
     exec_page limit offset (newest_first (filter (\<lambda>e. je_jobId e = i) (jm_values (sm_executions s))))"

definition updated_execution :: "JobExecutionStatus \<Rightarrow> ident option \<Rightarrow> string option \<Rightarrow> JobExecution \<Rightarrow> JobExecution" where
  "updated_execution st runId err e =
     e\<lparr>je_status := st, je_runId := js_or_opt runId (je_runId e), je_error := js_or_opt err (je_error e)\<rparr>"

definition InMemoryExecutionRepository_updateStatus ::
    "sched_maps \<Rightarrow> ident \<Rightarrow> JobExecutionStatus \<Rightarrow> ident option \<Rightarrow> string option \<Rightarrow> sched_maps" where
  "InMemoryExecutionRepository_updateStatus s i st runId err =
     (case jm_get (sm_executions s) i of None \<Rightarrow> s
      | Some e \<Rightarrow> s\<lparr>sm_executions := jm_set (sm_executions s) i (updated_execution st runId err e)\<rparr>)"

definition InMemoryExecutionRepository_hasRunningExecution :: "sched_maps \<Rightarrow> ident \<Rightarrow> bool" where
  "InMemoryExecutionRepository_hasRunningExecution s i \<longleftrightarrow>
     list_ex (\<lambda>e. je_jobId e = i \<and> je_status e = ExecSubmitted) (jm_values (sm_executions s))"

definition InMemoryExecutionRepository_countRecentFailures :: "sched_maps \<Rightarrow> ident \<Rightarrow> nat \<Rightarrow> nat" where
  "InMemoryExecutionRepository_countRecentFailures s i limit =
     length (filter (\<lambda>e. je_status e = ExecFailed)
       (take limit (newest_first (filter (\<lambda>e. je_jobId e = i) (jm_values (sm_executions s))))))"

section \<open>The repositories over SQLite\<close>

text \<open>The tables of jobs and executions and what they refer to: agents and runs.\<close>

record sched_db =
  db_agents :: "ident list"
  db_runs :: "(ident \<times> RunStatus) list"
  db_jobs :: "ScheduledJob list"
  db_executions :: "JobExecution list"

definition foreign_key_violation :: exn where
  "foreign_key_violation = Error ''FOREIGN KEY constraint failed''"

definition SqliteJobRepository_create ::
    "cron_parser \<Rightarrow> ident \<Rightarrow> timestamp \<Rightarrow> sched_db \<Rightarrow> CreateScheduledJob \<Rightarrow> (sched_db \<times> ScheduledJob) result" where
  "SqliteJobRepository_create cron uuid now s d =
     (case calculateNextRun cron now (cj_cronExpression d) (js_or (cj_timezone d) ''UTC'') of
        Inl e \<Rightarrow> Inl e
      | Inr t \<Rightarrow>
          (let j = new_job uuid now t d
           in if list_ex (\<lambda>r. jb_id r = uuid) (db_jobs s) then Inl unique_violation
              else if cj_agentId d \<notin> set (db_agents s) then Inl foreign_key_violation
              else Inr (s\<lparr>db_jobs := db_jobs s @ [j]\<rparr>, j)))"

definition SqliteJobRepository_get :: "sched_db \<Rightarrow> ident \<Rightarrow> ScheduledJob option" where
  "SqliteJobRepository_get s i = find (\<lambda>j. jb_id j = i) (db_jobs s)"

definition SqliteJobRepository_list :: "sched_db \<Rightarrow> ident option \<Rightarrow> bool option \<Rightarrow> ScheduledJob list" where
  "SqliteJobRepository_list s agentId enabled =
     (let conditions = (if js_truthy agentId then [\<lambda>j. jb_agentId j = the agentId] else [])
        @ (case enabled of None \<Rightarrow> [] | Some b \<Rightarrow> [\<lambda>j. jb_enabled j = b])
      in filter (\<lambda>j. list_all (\<lambda>c. c j) conditions) (db_jobs s))"

definition SqliteJobRepository_update ::
    "cron_parser \<Rightarrow> timestamp \<Rightarrow> sched_db \<Rightarrow> ident \<Rightarrow> UpdateScheduledJob \<Rightarrow> (sched_db \<times> ScheduledJob option) result" where
  "SqliteJobRepository_update cron clk s i d =
     (case SqliteJobRepository_get s i of
        None \<Rightarrow> Inr (s, None)
      | Some existing \<Rightarrow>
          (let commit = (\<lambda>upd. let s' = s\<lparr>db_jobs := sql_update (\<lambda>j. jb_id j = i) upd (db_jobs s)\<rparr>
                              in Inr (s', SqliteJobRepository_get s' i))
           in if uj_cronExpression d \<noteq> None \<or> uj_timezone d \<noteq> None
              then (case calculateNextRun cron clk (js_or (uj_cronExpression d) (jb_cronExpression existing))
                          (js_or (uj_timezone d) (jb_timezone existing)) of
                      Inl x \<Rightarrow> Inl x
                    | Inr t \<Rightarrow> commit (\<lambda>j. (updated_job clk d j)\<lparr>jb_nextRunAt := Some t\<rparr>))
              else commit (updated_job clk d)))"

definition SqliteJobRepository_delete :: "sched_db \<Rightarrow> ident \<Rightarrow> sched_db \<times> bool" where
  "SqliteJobRepository_delete s i =
     (s\<lparr>db_jobs := filter (\<lambda>j. jb_id j \<noteq> i) (db_jobs s), db_executions := filter (\<lambda>e. je_jobId e \<noteq> i) (db_executions s)\<rparr>,
      list_ex (\<lambda>j. jb_id j = i) (db_jobs s))"

definition SqliteJobRepository_disable :: "timestamp \<Rightarrow> sched_db \<Rightarrow> ident \<Rightarrow> sched_db" where
  "SqliteJobRepository_disable clk s i = s\<lparr>db_jobs := sql_update (\<lambda>j. jb_id j = i) (disabled_job clk) (db_jobs s)\<rparr>"

definition SqliteJobRepository_findDueJobs :: "timestamp \<Rightarrow> sched_db \<Rightarrow> ScheduledJob list" where
  "SqliteJobRepository_findDueJobs now s =
     filter (\<lambda>j. jb_enabled j \<and> (case jb_nextRunAt j of None \<Rightarrow> False | Some t \<Rightarrow> t \<le> now)) (db_jobs s)"

definition SqliteJobRepository_updateNextRun ::
    "timestamp \<Rightarrow> sched_db \<Rightarrow> ident \<Rightarrow> timestamp \<Rightarrow> timestamp \<Rightarrow> sched_db" where
  "SqliteJobRepository_updateNextRun clk s i lastRun nextRun =
     s\<lparr>db_jobs := sql_update (\<lambda>j. jb_id j = i) (rescheduled_job clk lastRun nextRun) (db_jobs s)\<rparr>"

definition SqliteExecutionRepository_create ::
    "ident \<Rightarrow> sched_db \<Rightarrow> CreateJobExecution \<Rightarrow> (sched_db \<times> JobExecution) result" where
  "SqliteExecutionRepository_create uuid s d =
     (if list_ex (\<lambda>r. je_id r = uuid) (db_executions s) then Inl unique_violation
      else if \<not> list_ex (\<lambda>j. jb_id j = cx_jobId d) (db_jobs s)
              \<or> (case cx_runId d of None \<Rightarrow> False | Some r \<Rightarrow> \<not> list_ex (\<lambda>x. fst x = r) (db_runs s))
      then Inl foreign_key_violation
      else (let e = new_execution uuid d in Inr (s\<lparr>db_executions := db_executions s @ [e]\<rparr>, e)))"

definition SqliteExecutionRepository_get :: "sched_db \<Rightarrow> ident \<Rightarrow> JobExecution option" where
  "SqliteExecutionRepository_get s i = find (\<lambda>e. je_id e = i) (db_executions s)"

definition SqliteExecutionRepository_listByJobId ::
    "sched_db \<Rightarrow> ident \<Rightarrow> nat option \<Rightarrow> nat option \<Rightarrow> JobExecution list" where
  "SqliteExecutionRepository_listByJobId s i limit offset =
     exec_page limit offset (sort_key je_scheduledAt (filter (\<lambda>e. je_jobId e = i) (db_executions s)))"

definition SqliteExecutionRepository_updateStatus ::
    "sched_db \<Rightarrow> ident \<Rightarrow> JobExecutionStatus \<Rightarrow> ident option \<Rightarrow> string option \<Rightarrow> sched_db" where
  "SqliteExecutionRepository_updateStatus s i st runId err =
     s\<lparr>db_executions := sql_update (\<lambda>e. je_id e = i) (updated_execution st runId err) (db_executions s)\<rparr>"

definition SqliteExecutionRepository_hasRunningExecution :: "sched_db \<Rightarrow> ident \<Rightarrow> bool" where
  "SqliteExecutionRepository_hasRunningExecution s i \<longleftrightarrow>
     list_ex (\<lambda>e. je_jobId e = i \<and> je_status e = ExecSubmitted
       \<and> list_ex (\<lambda>(r, st). je_runId e = Some r \<and> (st = RunPending \<or> st = RunRunning)) (db_runs s)) (db_executions s)"

definition SqliteExecutionRepository_countRecentFailures :: "sched_db \<Rightarrow> ident \<Rightarrow> nat \<Rightarrow> nat" where
  "SqliteExecutionRepository_countRecentFailures s i limit =
     length (filter (\<lambda>e. je_status e = ExecFailed)
       (take limit (newest_first (filter (\<lambda>e. je_jobId e = i) (db_executions s)))))"

section \<open>The service\<close>

text \<open>The operations of the repositories that the service calls.\<close>

record 's sched_repos =
  jr_create :: "cron_parser \<Rightarrow> ident \<Rightarrow> timestamp \<Rightarrow> 's \<Rightarrow> CreateScheduledJob \<Rightarrow> ('s \<times> ScheduledJob) result"
  jr_get :: "'s \<Rightarrow> ident \<Rightarrow> ScheduledJob option"
  jr_list :: "'s \<Rightarrow> ident option \<Rightarrow> bool option \<Rightarrow> ScheduledJob list"
  jr_update :: "cron_parser \<Rightarrow> timestamp \<Rightarrow> 's \<Rightarrow> ident \<Rightarrow> UpdateScheduledJob \<Rightarrow> ('s \<times> ScheduledJob option) result"
  jr_delete :: "'s \<Rightarrow> ident \<Rightarrow> 's \<times> bool"
  jr_disable :: "timestamp \<Rightarrow> 's \<Rightarrow> ident \<Rightarrow> 's"
  jr_findDueJobs :: "timestamp \<Rightarrow> 's \<Rightarrow> ScheduledJob list"
  jr_updateNextRun :: "timestamp \<Rightarrow> 's \<Rightarrow> ident \<Rightarrow> timestamp \<Rightarrow> timestamp \<Rightarrow> 's"
  er_create :: "ident \<Rightarrow> 's \<Rightarrow> CreateJobExecution \<Rightarrow> ('s \<times> JobExecution) result"
  er_listByJobId :: "'s \<Rightarrow> ident \<Rightarrow> nat option \<Rightarrow> nat option \<Rightarrow> JobExecution list"
  er_hasRunningExecution :: "'s \<Rightarrow> ident \<Rightarrow> bool"
  er_countRecentFailures :: "'s \<Rightarrow> ident \<Rightarrow> nat \<Rightarrow> nat"

definition memory_repos :: "sched_maps sched_repos" where
  "memory_repos = \<lparr>jr_create = InMemoryJobRepository_create, jr_get = (\<lambda>s. jm_get (sm_jobs s)),
     jr_list = InMemoryJobRepository_list, jr_update = InMemoryJobRepository_update,
     jr_delete = InMemoryJobRepository_delete, jr_disable = InMemoryJobRepository_disable,
     jr_findDueJobs = InMemoryJobRepository_findDueJobs, jr_updateNextRun = InMemoryJobRepository_updateNextRun,
     er_create = InMemoryExecutionRepository_create, er_listByJobId = InMemoryExecutionRepository_listByJobId,
     er_hasRunningExecution = InMemoryExecutionRepository_hasRunningExecution,
     er_countRecentFailures = InMemoryExecutionRepository_countRecentFailures\<rparr>"

definition sqlite_repos :: "sched_db sched_repos" where
  "sqlite_repos = \<lparr>jr_create = SqliteJobRepository_create, jr_get = SqliteJobRepository_get,
     jr_list = SqliteJobRepository_list, jr_update = SqliteJobRepository_update,
     jr_delete = SqliteJobRepository_delete, jr_disable = SqliteJobRepository_disable,
     jr_findDueJobs = SqliteJobRepository_findDueJobs, jr_updateNextRun = SqliteJobRepository_updateNextRun,
     er_create = SqliteExecutionRepository_create, er_listByJobId = SqliteExecutionRepository_listByJobId,
     er_hasRunningExecution = SqliteExecutionRepository_hasRunningExecution,
     er_countRecentFailures = SqliteExecutionRepository_countRecentFailures\<rparr>"

type_synonym 's submit = "'s \<Rightarrow> ident \<Rightarrow> string \<Rightarrow> 's \<times> ident result"

text \<open>The second component of a result is the error the asynchronous function rejects with, if any.\<close>

definition updateNextRun ::
    "'s sched_repos \<Rightarrow> cron_parser \<Rightarrow> timestamp \<Rightarrow> timestamp \<Rightarrow> 's \<Rightarrow> ScheduledJob \<Rightarrow> 's \<times> exn option" where
  "updateNextRun R cron clk now s job =
     (case calculateNextRun cron clk (jb_cronExpression job) (jb_timezone job) of
        Inl e \<Rightarrow> (s, Some e)
      | Inr t \<Rightarrow> (jr_updateNextRun R clk s (jb_id job) now t, None))"

definition handleFailure ::
    "'s sched_repos \<Rightarrow> cron_parser \<Rightarrow> timestamp \<Rightarrow> timestamp \<Rightarrow> 's \<Rightarrow> ScheduledJob \<Rightarrow> 's \<times> exn option" where
  "handleFailure R cron clk now s job =
     (if 3 \<le> er_countRecentFailures R s (jb_id job) 5 then (jr_disable R clk s (jb_id job), None)
      else updateNextRun R cron clk now s job)"

definition recordSkippedExecution ::
    "'s sched_repos \<Rightarrow> ident \<Rightarrow> timestamp \<Rightarrow> 's \<Rightarrow> ident \<Rightarrow> ('s \<times> JobExecution) result" where
  "recordSkippedExecution R uuid now s jobId =
     er_create R uuid s \<lparr>cx_jobId = jobId, cx_runId = None, cx_status = ExecSkipped, cx_scheduledAt = now,
       cx_executedAt = Some now, cx_error = Some ''Previous execution still running''\<rparr>"

text \<open>The body of the \<^verbatim>\<open>try\<close> block of \<^verbatim>\<open>executeJob\<close>.\<close>

definition submitJob ::
    "'s sched_repos \<Rightarrow> cron_parser \<Rightarrow> 's submit \<Rightarrow> ident \<Rightarrow> timestamp \<Rightarrow> timestamp \<Rightarrow> 's \<Rightarrow> ScheduledJob \<Rightarrow> 's \<times> exn option" where
  "submitJob R cron submit uuid clk now s job =
     (let (s1, res) = submit s (jb_agentId job) (jb_input job)
      in (case res of
            Inl e \<Rightarrow> (s1, Some e)
          | Inr runId \<Rightarrow>
              (case er_create R uuid s1 \<lparr>cx_jobId = jb_id job, cx_runId = Some runId, cx_status = ExecSubmitted,
                       cx_scheduledAt = now, cx_executedAt = Some now, cx_error = None\<rparr> of
                 Inl e \<Rightarrow> (s1, Some e)
               | Inr (s2, _) \<Rightarrow> updateNextRun R cron clk now s2 job)))"

definition executeJob ::
    "'s sched_repos \<Rightarrow> cron_parser \<Rightarrow> 's submit \<Rightarrow> ident \<times> ident \<Rightarrow> timestamp \<Rightarrow> timestamp \<Rightarrow> 's \<Rightarrow> ScheduledJob
     \<Rightarrow> 's \<times> exn option" where
  "executeJob R cron submit uuids clk now s job =
     (if \<not> jb_allowConcurrent job \<and> er_hasRunningExecution R s (jb_id job)
      then (case recordSkippedExecution R (fst uuids) now s (jb_id job) of
              Inl e \<Rightarrow> (s, Some e)
            | Inr (s1, _) \<Rightarrow> updateNextRun R cron clk now s1 job)
      else (case submitJob R cron submit (fst uuids) clk now s job of
              (s1, None) \<Rightarrow> (s1, None)
            | (s1, Some e) \<Rightarrow>
                (case er_create R (snd uuids) s1 \<lparr>cx_jobId = jb_id job, cx_runId = None, cx_status = ExecFailed,
                         cx_scheduledAt = now, cx_executedAt = Some now, cx_error = Some (message e)\<rparr> of
                   Inl e' \<Rightarrow> (s1, Some e')
                 | Inr (s2, _) \<Rightarrow> handleFailure R cron clk now s2 job)))"

text \<open>The loop of a tick; an error stops it. The \<open>k\<close>-th job draws identifiers \<open>us k\<close> and ends at \<open>clks k\<close>.\<close>

fun tick_loop ::
    "'s sched_repos \<Rightarrow> cron_parser \<Rightarrow> 's submit \<Rightarrow> (nat \<Rightarrow> ident \<times> ident) \<Rightarrow> (nat \<Rightarrow> timestamp) \<Rightarrow> timestamp \<Rightarrow> nat
     \<Rightarrow> 's \<Rightarrow> ScheduledJob list \<Rightarrow> 's \<times> exn option" where
  "tick_loop R cron submit us clks now k s [] = (s, None)"
| "tick_loop R cron submit us clks now k s (j # js) =
     (case executeJob R cron submit (us k) (clks k) now s j of
        (s1, Some e) \<Rightarrow> (s1, Some e)
      | (s1, None) \<Rightarrow> tick_loop R cron submit us clks now (Suc k) s1 js)"

definition tick ::
    "'s sched_repos \<Rightarrow> cron_parser \<Rightarrow> 's submit \<Rightarrow> (nat \<Rightarrow> ident \<times> ident) \<Rightarrow> (nat \<Rightarrow> timestamp) \<Rightarrow> timestamp
     \<Rightarrow> 's \<Rightarrow> 's \<times> exn option" where
  "tick R cron submit us clks now s = tick_loop R cron submit us clks now 0 s (jr_findDueJobs R now s)"

definition createJob ::
    "'s sched_repos \<Rightarrow> cron_parser \<Rightarrow> ('s \<Rightarrow> ident \<Rightarrow> bool) option \<Rightarrow> ident \<Rightarrow> timestamp \<Rightarrow> 's \<Rightarrow> CreateScheduledJob
     \<Rightarrow> ('s \<times> ScheduledJob) result" where
  "createJob R cron getAgent uuid now s d =
     (case getAgent of
        Some known \<Rightarrow> if \<not> known s (cj_agentId d)
          then Inl (Error (quoted_not_found ''Agent'' (cj_agentId d))) else jr_create R cron uuid now s d
      | None \<Rightarrow> jr_create R cron uuid now s d)"

section \<open>The job routes\<close>

text \<open>
  The two validators (\<open>valid_cron\<close>, \<open>valid_tz\<close>) and the body schemas are arguments, as is the decimal
  reading of the paging parameters. Each handler runs after the role check of its route.
\<close>

definition opt_field :: "string \<Rightarrow> string option \<Rightarrow> (string \<times> json) list" where
  "opt_field n v = (case v of None \<Rightarrow> [] | Some t \<Rightarrow> [(n, JStr t)])"

definition job_json :: "ScheduledJob \<Rightarrow> json" where
  "job_json j = JObj ([(''id'', JStr (jb_id j)), (''agentId'', JStr (jb_agentId j)), (''name'', JStr (jb_name j)),
     (''cronExpression'', JStr (jb_cronExpression j)), (''input'', JStr (jb_input j)), (''enabled'', JBool (jb_enabled j)),
     (''allowConcurrent'', JBool (jb_allowConcurrent j)), (''timezone'', JStr (jb_timezone j)),
     (''maxRetries'', JNum (int (jb_maxRetries j))), (''createdAt'', JStr (jb_createdAt j)), (''updatedAt'', JStr (jb_updatedAt j))]
     @ opt_field ''lastRunAt'' (jb_lastRunAt j) @ opt_field ''nextRunAt'' (jb_nextRunAt j))"

definition validateScheduleFields ::
    "(string \<Rightarrow> bool) \<Rightarrow> (string \<Rightarrow> bool) \<Rightarrow> string option \<Rightarrow> string option \<Rightarrow> issue list" where
  "validateScheduleFields valid_cron valid_tz cronExpression timezone =
     (case cronExpression of None \<Rightarrow> []
      | Some e \<Rightarrow> if valid_cron e then [] else [\<lparr>is_path = [''cronExpression''], is_message = ''Invalid cron expression''\<rparr>])
     @ (case timezone of None \<Rightarrow> []
      | Some z \<Rightarrow> if valid_tz z then [] else [\<lparr>is_path = [''timezone''], is_message = ''Invalid timezone''\<rparr>])"

definition post_job ::
    "'s sched_repos \<Rightarrow> cron_parser \<Rightarrow> (string \<Rightarrow> bool) \<Rightarrow> (string \<Rightarrow> bool) \<Rightarrow> ('s \<Rightarrow> ident \<Rightarrow> bool) option \<Rightarrow> ident \<Rightarrow> timestamp
     \<Rightarrow> (json option \<Rightarrow> issue list + CreateScheduledJob) \<Rightarrow> 's \<Rightarrow> request \<Rightarrow> 's \<times> reply" where
  "post_job R cron valid_cron valid_tz getAgent uuid now parse s req =
     (case parse (rq_body req) of
        Inl is \<Rightarrow> (s, validation_reply ''Invalid job definition'' is)
      | Inr d \<Rightarrow>
          (let issues = validateScheduleFields valid_cron valid_tz (Some (cj_cronExpression d)) (cj_timezone d)
           in if issues \<noteq> [] then (s, validation_reply ''Invalid job definition'' issues)
              else (case createJob R cron getAgent uuid now s d of
                      Inr (s', j) \<Rightarrow> (s', \<lparr>rp_status = 201, rp_body = job_json j\<rparr>)
                    | Inl e \<Rightarrow>
                        if js_includes (message e) ''not found'' then (s, error_reply 404 ''NOT_FOUND'' (message e))
                        else (s, errorHandler 0 (Thrown e)))))"

definition get_jobs :: "'s sched_repos \<Rightarrow> 's \<Rightarrow> request \<Rightarrow> reply" where
  "get_jobs R s req =
     (let agentId = jm_get (rq_query req) ''agentId'';
          enabled = jm_get (rq_query req) ''enabled''
      in \<lparr>rp_status = 200,
          rp_body = JArr (map job_json (jr_list R s (if js_truthy agentId then agentId else None)
            (map_option (\<lambda>e. e = ''true'') enabled)))\<rparr>)"

definition job_not_found :: "request \<Rightarrow> reply" where
  "job_not_found req = error_reply 404 ''NOT_FOUND'' (quoted_not_found ''Job'' (rq_id req))"

definition get_job :: "'s sched_repos \<Rightarrow> 's \<Rightarrow> request \<Rightarrow> reply" where
  "get_job R s req =
     (case jr_get R s (rq_id req) of
        None \<Rightarrow> job_not_found req | Some j \<Rightarrow> \<lparr>rp_status = 200, rp_body = job_json j\<rparr>)"

definition patch_job ::
    "'s sched_repos \<Rightarrow> cron_parser \<Rightarrow> (string \<Rightarrow> bool) \<Rightarrow> (string \<Rightarrow> bool) \<Rightarrow> timestamp
     \<Rightarrow> (json option \<Rightarrow> issue list + UpdateScheduledJob) \<Rightarrow> 's \<Rightarrow> request \<Rightarrow> 's \<times> reply" where
  "patch_job R cron valid_cron valid_tz now parse s req =
     (case parse (rq_body req) of
        Inl is \<Rightarrow> (s, validation_reply ''Invalid job update'' is)
      | Inr d \<Rightarrow>
          (let issues = validateScheduleFields valid_cron valid_tz (uj_cronExpression d) (uj_timezone d)
           in if issues \<noteq> [] then (s, validation_reply ''Invalid job update'' issues)
              else (case jr_update R cron now s (rq_id req) d of
                      Inl e \<Rightarrow> (s, errorHandler 0 (Thrown e))
                    | Inr (s', None) \<Rightarrow> (s', job_not_found req)
                    | Inr (s', Some j) \<Rightarrow> (s', \<lparr>rp_status = 200, rp_body = job_json j\<rparr>))))"

definition delete_job :: "'s sched_repos \<Rightarrow> 's \<Rightarrow> request \<Rightarrow> 's \<times> reply" where
  "delete_job R s req =
     (let (s', deleted) = jr_delete R s (rq_id req)
      in if deleted then (s', \<lparr>rp_status = 204, rp_body = JNull\<rparr>) else (s', job_not_found req))"

definition get_job_executions ::
    "'s sched_repos \<Rightarrow> nat option \<Rightarrow> nat option \<Rightarrow> 's \<Rightarrow> request \<Rightarrow> JobExecution list" where
  "get_job_executions R limit offset s req = er_listByJobId R s (rq_id req) limit offset"

section \<open>The contract of the repositories\<close>

definition job_due :: "timestamp \<Rightarrow> ScheduledJob \<Rightarrow> bool" where
  "job_due now j \<longleftrightarrow> jb_enabled j \<and> js_truthy (jb_nextRunAt j) \<and> the (jb_nextRunAt j) \<le> now"

abbreviation at_job :: "ident \<Rightarrow> (ScheduledJob \<Rightarrow> ScheduledJob) \<Rightarrow> ScheduledJob list \<Rightarrow> ScheduledJob list" where
  "at_job i f \<equiv> map (\<lambda>j. if jb_id j = i then f j else j)"

definition recent_failures :: "ident \<Rightarrow> nat \<Rightarrow> JobExecution list \<Rightarrow> nat" where
  "recent_failures i n es =
     length (filter (\<lambda>e. je_status e = ExecFailed) (take n (newest_first (filter (\<lambda>e. je_jobId e = i) es))))"

text \<open>The parser gives the job a time after the current one.\<close>

definition next_at :: "cron_parser \<Rightarrow> timestamp \<Rightarrow> ScheduledJob \<Rightarrow> timestamp \<Rightarrow> bool" where
  "next_at cron clk j n \<longleftrightarrow> cron (jb_cronExpression j) (jb_timezone j) clk = Some n \<and> clk < n"

text \<open>The identifiers drawn from position \<open>k\<close> on are new and never drawn for two jobs.\<close>

definition fresh_from :: "(nat \<Rightarrow> ident \<times> ident) \<Rightarrow> nat \<Rightarrow> ident set \<Rightarrow> bool" where
  "fresh_from us k used \<longleftrightarrow> (\<forall>i \<ge> k. {fst (us i), snd (us i)} \<inter> used = {}
     \<and> (\<forall>m > i. {fst (us i), snd (us i)} \<inter> {fst (us m), snd (us m)} = {}))"

text \<open>The jobs and executions stored, in insertion order, and the runs an execution may refer to.\<close>

locale sched_repository =
  fixes R :: "'s sched_repos" and ok :: "'s \<Rightarrow> bool" and jobs_of :: "'s \<Rightarrow> ScheduledJob list"
    and execs_of :: "'s \<Rightarrow> JobExecution list" and known_run :: "'s \<Rightarrow> ident \<Rightarrow> bool"
  assumes due_law: "ok s \<Longrightarrow> jr_findDueJobs R now s = filter (job_due now) (jobs_of s)"
    and ids_law: "ok s \<Longrightarrow> distinct (map jb_id (jobs_of s))"
    and next_law: "ok s \<Longrightarrow> n \<noteq> [] \<Longrightarrow> ok (jr_updateNextRun R clk s i l n)
      \<and> jobs_of (jr_updateNextRun R clk s i l n) = at_job i (rescheduled_job clk l n) (jobs_of s)
      \<and> execs_of (jr_updateNextRun R clk s i l n) = execs_of s"
    and disable_law: "ok s \<Longrightarrow> ok (jr_disable R clk s i)
      \<and> jobs_of (jr_disable R clk s i) = at_job i (disabled_job clk) (jobs_of s)
      \<and> execs_of (jr_disable R clk s i) = execs_of s"
    and exec_law: "ok s \<Longrightarrow> u \<notin> je_id ` set (execs_of s) \<Longrightarrow> cx_jobId d \<in> jb_id ` set (jobs_of s) \<Longrightarrow>
      (\<forall>r. cx_runId d = Some r \<longrightarrow> known_run s r) \<Longrightarrow>
      \<exists>s'. er_create R u s d = Inr (s', new_execution u d) \<and> ok s' \<and> jobs_of s' = jobs_of s
        \<and> execs_of s' = execs_of s @ [new_execution u d]"
    and failures_law: "ok s \<Longrightarrow> er_countRecentFailures R s i lim = recent_failures i lim (execs_of s)"
begin

text \<open>
  The agent service adds runs and touches neither jobs nor executions.
\<close>

definition submits_well :: "'s submit \<Rightarrow> bool" where
  "submits_well submit \<longleftrightarrow> (\<forall>s a x s1 res. ok s \<longrightarrow> submit s a x = (s1, res) \<longrightarrow>
     ok s1 \<and> jobs_of s1 = jobs_of s \<and> execs_of s1 = execs_of s \<and> (\<forall>r. res = Inr r \<longrightarrow> known_run s1 r))"

text \<open>What one job does to the state: one execution more, and the job disabled or due later.\<close>

definition job_done :: "timestamp \<Rightarrow> timestamp \<Rightarrow> ident set \<Rightarrow> ScheduledJob \<Rightarrow> 's \<Rightarrow> 's \<Rightarrow> bool" where
  "job_done clk now us j s s' \<longleftrightarrow> ok s' \<and> (\<exists>e f. execs_of s' = execs_of s @ [e] \<and> je_jobId e = jb_id j \<and> je_id e \<in> us
     \<and> je_scheduledAt e = now \<and> je_status e \<noteq> ExecCompleted \<and> jobs_of s' = at_job (jb_id j) f (jobs_of s)
     \<and> (f = disabled_job clk \<or> (\<exists>n. f = rescheduled_job clk now n \<and> clk < n)))"

lemma job_doneI:
  assumes "ok s'" and "execs_of s' = execs_of s @ [e]" and "je_jobId e = jb_id j" "je_id e \<in> us" "je_scheduledAt e = now"
    "je_status e \<noteq> ExecCompleted" and "jobs_of s' = at_job (jb_id j) f (jobs_of s)"
    and "f = disabled_job clk \<or> (\<exists>n. f = rescheduled_job clk now n \<and> clk < n)"
  shows "job_done clk now us j s s'"
  using assms unfolding job_done_def by blast

lemma updateNextRun_done:
  assumes "ok s" and "next_at cron clk j n"
  shows "\<exists>s'. updateNextRun R cron clk now s j = (s', None) \<and> ok s' \<and> execs_of s' = execs_of s
    \<and> jobs_of s' = at_job (jb_id j) (rescheduled_job clk now n) (jobs_of s)"
proof -
  have "n \<noteq> []" using assms(2) by (auto simp: next_at_def)
  from next_law [OF assms(1) this] assms(2) show ?thesis
    by (simp add: updateNextRun_def calculateNextRun_def next_at_def)
qed

lemma handleFailure_done:
  assumes "ok s" and "next_at cron clk j n"
  shows "\<exists>s' f. handleFailure R cron clk now s j = (s', None) \<and> ok s' \<and> execs_of s' = execs_of s
    \<and> jobs_of s' = at_job (jb_id j) f (jobs_of s)
    \<and> f = (if 3 \<le> recent_failures (jb_id j) 5 (execs_of s) then disabled_job clk else rescheduled_job clk now n)"
  using updateNextRun_done [OF assms] disable_law [OF assms(1)] failures_law [OF assms(1)]
  by (auto simp: handleFailure_def)

text \<open>Submission: the job submitted and rescheduled, or the error of the agent service.\<close>

lemma submitJob_done:
  assumes "ok s" and "next_at cron clk j n"
    and "submits_well submit" and "u \<notin> je_id ` set (execs_of s)" and "jb_id j \<in> jb_id ` set (jobs_of s)"
  shows "(\<exists>s1 e. submit s (jb_agentId j) (jb_input j) = (s1, Inl e) \<and> submitJob R cron submit u clk now s j = (s1, Some e)
        \<and> ok s1 \<and> jobs_of s1 = jobs_of s \<and> execs_of s1 = execs_of s)
    \<or> (\<exists>s1 r s'. submit s (jb_agentId j) (jb_input j) = (s1, Inr r) \<and> submitJob R cron submit u clk now s j = (s', None) \<and> ok s'
        \<and> jobs_of s' = at_job (jb_id j) (rescheduled_job clk now n) (jobs_of s)
        \<and> execs_of s' = execs_of s @ [\<lparr>je_id = u, je_jobId = jb_id j, je_runId = Some r, je_status = ExecSubmitted,
            je_scheduledAt = now, je_executedAt = Some now, je_error = None\<rparr>])"
proof -
  obtain s1 res where sub: "submit s (jb_agentId j) (jb_input j) = (s1, res)" by fastforce
  then have s1: "ok s1" "jobs_of s1 = jobs_of s" "execs_of s1 = execs_of s" "\<And>r. res = Inr r \<Longrightarrow> known_run s1 r"
    using assms(1,3) by (auto simp: submits_well_def)
  show ?thesis
  proof (cases res)
    case (Inl e)
    with sub s1 show ?thesis by (simp add: submitJob_def)
  next
    case (Inr r)
    let ?d = "\<lparr>cx_jobId = jb_id j, cx_runId = Some r, cx_status = ExecSubmitted, cx_scheduledAt = now,
      cx_executedAt = Some now, cx_error = None\<rparr>"
    obtain s2 where s2: "er_create R u s1 ?d = Inr (s2, new_execution u ?d)" "ok s2" "jobs_of s2 = jobs_of s"
        "execs_of s2 = execs_of s @ [new_execution u ?d]"
      using exec_law [OF s1(1), of u ?d] s1 assms(4,5) Inr by auto
    from updateNextRun_done [OF s2(2) assms(2), of now] s2 sub Inr show ?thesis
      by (auto simp: submitJob_def new_execution_def)
  qed
qed

lemma executeJob_done:
  assumes "ok s" and "next_at cron clk j n"
    and "submits_well submit" and "u \<notin> je_id ` set (execs_of s)" "u' \<notin> je_id ` set (execs_of s)"
    and "jb_id j \<in> jb_id ` set (jobs_of s)"
  shows "\<exists>s'. executeJob R cron submit (u, u') clk now s j = (s', None) \<and> job_done clk now {u, u'} j s s'"
proof (cases "\<not> jb_allowConcurrent j \<and> er_hasRunningExecution R s (jb_id j)")
  case True
  let ?d = "\<lparr>cx_jobId = jb_id j, cx_runId = None, cx_status = ExecSkipped, cx_scheduledAt = now,
    cx_executedAt = Some now, cx_error = Some ''Previous execution still running''\<rparr>"
  obtain s1 where s1: "er_create R u s ?d = Inr (s1, new_execution u ?d)" "ok s1" "jobs_of s1 = jobs_of s"
      "execs_of s1 = execs_of s @ [new_execution u ?d]"
    using exec_law [OF assms(1), of u ?d] assms(4,6) by auto
  obtain s' where s': "updateNextRun R cron clk now s1 j = (s', None)" "ok s'" "execs_of s' = execs_of s1"
      "jobs_of s' = at_job (jb_id j) (rescheduled_job clk now n) (jobs_of s1)"
    using updateNextRun_done [OF s1(2) assms(2)] by blast
  have "job_done clk now {u, u'} j s s'"
    by (rule job_doneI [of _ _ "new_execution u ?d" _ _ _ "rescheduled_job clk now n"])
      (use s' s1 assms(2) in \<open>auto simp: new_execution_def next_at_def\<close>)
  with s' s1 True show ?thesis by (simp add: executeJob_def recordSkippedExecution_def)
next
  case no_skip: False
  from submitJob_done [OF assms(1-4,6), of now] consider
      (fail) s1 e where "submitJob R cron submit u clk now s j = (s1, Some e)" "ok s1" "jobs_of s1 = jobs_of s" "execs_of s1 = execs_of s"
    | (submitted) s' r where "submitJob R cron submit u clk now s j = (s', None)" "ok s'"
        "jobs_of s' = at_job (jb_id j) (rescheduled_job clk now n) (jobs_of s)"
        "execs_of s' = execs_of s @ [\<lparr>je_id = u, je_jobId = jb_id j, je_runId = Some r, je_status = ExecSubmitted,
            je_scheduledAt = now, je_executedAt = Some now, je_error = None\<rparr>]" by blast
  then show ?thesis
  proof cases
    case submitted
    then have "job_done clk now {u, u'} j s s'"
      by (intro job_doneI [of s' s _ j "{u, u'}" now "rescheduled_job clk now n" clk]) (use assms(2) in \<open>auto simp: next_at_def\<close>)
    with submitted(1) no_skip show ?thesis by (auto simp: executeJob_def)
  next
    case fail
    let ?d = "\<lparr>cx_jobId = jb_id j, cx_runId = None, cx_status = ExecFailed, cx_scheduledAt = now,
      cx_executedAt = Some now, cx_error = Some (message e)\<rparr>"
    obtain s2 where s2: "er_create R u' s1 ?d = Inr (s2, new_execution u' ?d)" "ok s2" "jobs_of s2 = jobs_of s1"
        "execs_of s2 = execs_of s1 @ [new_execution u' ?d]"
      using exec_law [OF fail(2), of u' ?d] fail assms(5,6) by auto
    obtain s' f where s': "handleFailure R cron clk now s2 j = (s', None)" "ok s'" "execs_of s' = execs_of s2"
        "jobs_of s' = at_job (jb_id j) f (jobs_of s2)" "f = disabled_job clk \<or> f = rescheduled_job clk now n"
      using handleFailure_done [OF s2(2) assms(2), of now] by (metis (full_types))
    have "job_done clk now {u, u'} j s s'"
      by (rule job_doneI [of _ _ "new_execution u' ?d" _ _ _ f])
        (use s' s2 fail assms(2) in \<open>auto simp: new_execution_def next_at_def\<close>)
    with s' s2 fail no_skip show ?thesis by (auto simp: executeJob_def)
  qed
qed

lemma job_done_jobs:
  assumes "job_done clk now us j s s'" and "now \<le> clk"
  shows "map jb_id (jobs_of s') = map jb_id (jobs_of s)"
    and "x \<in> set (jobs_of s') \<Longrightarrow> jb_id x = jb_id j \<Longrightarrow> \<not> job_due now x"
    and "x \<in> set (jobs_of s') \<Longrightarrow> jb_id x \<noteq> jb_id j \<Longrightarrow> x \<in> set (jobs_of s)"
proof -
  obtain f where jobs: "jobs_of s' = at_job (jb_id j) f (jobs_of s)"
    and f: "f = disabled_job clk \<or> (\<exists>n. f = rescheduled_job clk now n \<and> clk < n)"
    using assms(1) by (auto simp: job_done_def)
  have id: "jb_id (f y) = jb_id y" for y using f by (auto simp: disabled_job_def rescheduled_job_def)
  have late: "\<not> job_due now (f y)" for y
    using f assms(2) by (auto simp: job_due_def disabled_job_def rescheduled_job_def)
  show "map jb_id (jobs_of s') = map jb_id (jobs_of s)" using id by (simp add: jobs)
  show "\<not> job_due now x" if "x \<in> set (jobs_of s')" "jb_id x = jb_id j" using that id late by (auto simp: jobs split: if_splits)
  show "x \<in> set (jobs_of s)" if "x \<in> set (jobs_of s')" "jb_id x \<noteq> jb_id j" using that id by (auto simp: jobs split: if_splits)
qed

lemma tick_loop_done:
  assumes "ok s" and "submits_well submit" and "\<And>i. now \<le> clks i"
    and "\<forall>j \<in> set js. \<forall>i. \<exists>n. next_at cron (clks i) j n"
    and "fresh_from us k (je_id ` set (execs_of s))"
    and "jb_id ` set js \<subseteq> jb_id ` set (jobs_of s)" and "distinct (map jb_id js)"
  shows "\<exists>s' es. tick_loop R cron submit us clks now k s js = (s', None) \<and> ok s' \<and> execs_of s' = execs_of s @ es
    \<and> map je_jobId es = map jb_id js \<and> (\<forall>e \<in> set es. je_scheduledAt e = now \<and> je_status e \<noteq> ExecCompleted)
    \<and> map jb_id (jobs_of s') = map jb_id (jobs_of s)
    \<and> (\<forall>x \<in> set (jobs_of s'). if jb_id x \<in> jb_id ` set js then \<not> job_due now x else x \<in> set (jobs_of s))"
  using assms(1,4-7)
proof (induction js arbitrary: k s)
  case (Cons j js)
  obtain n where n: "next_at cron (clks k) j n" using Cons.prems(2) by (auto dest: spec [of _ k])
  have fresh: "fst (us k) \<notin> je_id ` set (execs_of s)" "snd (us k) \<notin> je_id ` set (execs_of s)"
    using Cons.prems(3) by (auto simp: fresh_from_def)
  obtain s1 where s1: "executeJob R cron submit (us k) (clks k) now s j = (s1, None)"
      and dn: "job_done (clks k) now {fst (us k), snd (us k)} j s s1"
    using executeJob_done [OF Cons.prems(1) n assms(2) fresh, of now] Cons.prems(4) by auto
  note jobs = job_done_jobs [OF dn assms(3)]
  obtain e where e: "execs_of s1 = execs_of s @ [e]" "je_jobId e = jb_id j" "je_id e \<in> {fst (us k), snd (us k)}"
      "je_scheduledAt e = now" "je_status e \<noteq> ExecCompleted" and "ok s1"
    using dn by (auto simp: job_done_def)
  have fresh1: "fresh_from us (Suc k) (je_id ` set (execs_of s1))"
    using Cons.prems(3) e(1,3) by (fastforce simp: fresh_from_def)
  have ids: "jb_id ` set (jobs_of s1) = jb_id ` set (jobs_of s)" using jobs(1) by (metis list.set_map)
  obtain s' es where s': "tick_loop R cron submit us clks now (Suc k) s1 js = (s', None)" "ok s'" "execs_of s' = execs_of s1 @ es"
      "map je_jobId es = map jb_id js" "\<forall>e \<in> set es. je_scheduledAt e = now \<and> je_status e \<noteq> ExecCompleted"
      "map jb_id (jobs_of s') = map jb_id (jobs_of s1)"
    and later: "\<forall>x \<in> set (jobs_of s'). if jb_id x \<in> jb_id ` set js then \<not> job_due now x else x \<in> set (jobs_of s1)"
    using Cons.IH [OF \<open>ok s1\<close> _ fresh1] Cons.prems(2,4,5) ids by auto
  have "\<forall>x \<in> set (jobs_of s'). if jb_id x \<in> jb_id ` set (j # js) then \<not> job_due now x else x \<in> set (jobs_of s)"
    using later jobs(2,3) by (auto split: if_splits)
  with s' s1 e jobs(1) show ?case by (intro exI [of _ s'] exI [of _ "e # es"]) simp
qed simp

theorem tick_done:
  assumes "ok s" and "submits_well submit" and "\<And>i. now \<le> clks i"
    and "\<forall>j \<in> set (jobs_of s). \<forall>i. \<exists>n. next_at cron (clks i) j n"
    and "fresh_from us 0 (je_id ` set (execs_of s))"
  shows "\<exists>s' es. tick R cron submit us clks now s = (s', None) \<and> ok s' \<and> jr_findDueJobs R now s' = []
    \<and> execs_of s' = execs_of s @ es \<and> map je_jobId es = map jb_id (filter (job_due now) (jobs_of s))
    \<and> (\<forall>e \<in> set es. je_scheduledAt e = now \<and> je_status e \<noteq> ExecCompleted)
    \<and> map jb_id (jobs_of s') = map jb_id (jobs_of s)
    \<and> (\<forall>x \<in> set (jobs_of s). \<not> job_due now x \<longrightarrow> x \<in> set (jobs_of s'))"
proof -
  let ?js = "filter (job_due now) (jobs_of s)"
  have distinct: "distinct (map jb_id (jobs_of s))" using ids_law [OF assms(1)] .
  have sub: "\<forall>j \<in> set ?js. \<forall>i. \<exists>n. next_at cron (clks i) j n" using assms(4) by simp
  obtain s' es where s': "tick_loop R cron submit us clks now 0 s ?js = (s', None)" "ok s'" "execs_of s' = execs_of s @ es"
      "map je_jobId es = map jb_id ?js" "\<forall>e \<in> set es. je_scheduledAt e = now \<and> je_status e \<noteq> ExecCompleted"
    and ids: "map jb_id (jobs_of s') = map jb_id (jobs_of s)"
    and jobs: "\<forall>x \<in> set (jobs_of s'). if jb_id x \<in> jb_id ` set ?js then \<not> job_due now x else x \<in> set (jobs_of s)"
    using tick_loop_done [where js = ?js and k = 0 and cron = cron, OF assms(1,2,3) sub assms(5)
        image_mono [OF filter_is_subset] distinct_map_filter [OF distinct]] by (elim exE conjE)
  have none: "\<not> job_due now x" if "x \<in> set (jobs_of s')" for x
  proof (cases "jb_id x \<in> jb_id ` set ?js")
    case True
    from bspec [OF jobs that] show ?thesis unfolding if_P [OF True] .
  next
    case False
    then have "x \<notin> set ?js" by blast
    moreover from bspec [OF jobs that] have "x \<in> set (jobs_of s)" unfolding if_not_P [OF False] .
    ultimately show ?thesis by simp
  qed
  have kept: "x \<in> set (jobs_of s')" if x: "x \<in> set (jobs_of s)" "\<not> job_due now x" for x
  proof -
    obtain y where y: "y \<in> set (jobs_of s')" "jb_id y = jb_id x"
      using ids x(1) by (metis imageE image_eqI list.set_map)
    have out: "jb_id y \<notin> jb_id ` set ?js" unfolding y(2) using distinct x by (auto simp: distinct_map inj_on_def)
    from bspec [OF jobs y(1)] have "y \<in> set (jobs_of s)" unfolding if_not_P [OF out] .
    with y(2) x(1) distinct have "y = x" by (auto simp: distinct_map inj_on_def)
    with y(1) show ?thesis by simp
  qed
  have "filter (job_due now) (jobs_of s') = []" using none by (simp add: filter_empty_conv)
  with s' ids kept show ?thesis
    by (intro exI [of _ s'] exI [of _ es]) (simp add: tick_def due_law [OF assms(1)] due_law [OF s'(2)])
qed

end

section \<open>Both repositories keep the contract\<close>

definition sched_maps_ok :: "sched_maps \<Rightarrow> bool" where
  "sched_maps_ok s \<longleftrightarrow> jm_ok (sm_jobs s) \<and> (\<forall>(k, v) \<in> set (sm_jobs s). jb_id v = k)
     \<and> (\<forall>(k, v) \<in> set (sm_executions s). je_id v = k)"

definition sched_db_ok :: "sched_db \<Rightarrow> bool" where
  "sched_db_ok s \<longleftrightarrow> distinct (map jb_id (db_jobs s)) \<and> (\<forall>j \<in> set (db_jobs s). jb_nextRunAt j \<noteq> Some [])"

lemma map_values_at:
  assumes "jm_ok m" and "jm_get m i = Some j" and "\<forall>(k, v) \<in> set m. jb_id v = k"
  shows "jm_values (jm_set m i (f j)) = at_job i f (jm_values m)"
proof -
  have "(if fst p = i then f j else snd p) = (if jb_id (snd p) = i then f (snd p) else snd p)" if "p \<in> set m" for p
    using assms that eq_key_imp_eq_value [of m i] map_of_SomeD [OF assms(2)] by (cases p) (auto simp: jm_ok_def)
  then show ?thesis using jm_values_map [OF assms(1,2), of "f j"] by (simp add: case_prod_beta)
qed

lemma map_values_absent:
  assumes "jm_get m i = None" and "\<forall>(k, v) \<in> set m. jb_id v = k"
  shows "at_job i f (jm_values m) = jm_values m"
proof -
  have "jb_id v \<noteq> i" if "v \<in> set (jm_values m)" for v
    using assms that by (force simp: map_of_eq_None_iff)
  then show ?thesis by (auto intro: map_idI)
qed

lemma sched_maps_ok_job:
  assumes "sched_maps_ok s" and "jm_get (sm_jobs s) i = Some j" and "jb_id v = jb_id j"
  shows "sched_maps_ok (s\<lparr>sm_jobs := jm_set (sm_jobs s) i v\<rparr>)"
proof -
  have "jb_id v = i" using assms map_of_SomeD [OF assms(2)] by (auto simp: sched_maps_ok_def)
  with assms(1) show ?thesis by (auto simp: sched_maps_ok_def dest: jm_set_mem)
qed

lemma memory_at_job:
  assumes "sched_maps_ok s" and "\<And>j. jb_id (f j) = jb_id j"
  shows "let s' = (case jm_get (sm_jobs s) i of None \<Rightarrow> s | Some j \<Rightarrow> s\<lparr>sm_jobs := jm_set (sm_jobs s) i (f j)\<rparr>) in sched_maps_ok s' \<and> jm_values (sm_jobs s') = at_job i f (jm_values (sm_jobs s)) \<and> sm_executions s' = sm_executions s"
proof (cases "jm_get (sm_jobs s) i")
  case None
  moreover have "at_job i f (jm_values (sm_jobs s)) = jm_values (sm_jobs s)"
    using map_values_absent [OF None] assms(1) by (simp add: sched_maps_ok_def)
  ultimately show ?thesis using assms(1) by (simp del: map_map)
next
  case (Some j)
  with assms sched_maps_ok_job [OF assms(1) Some, of "f j"] show ?thesis
    by (simp add: map_values_at sched_maps_ok_def)
qed

lemma rescheduled_id [simp]: "jb_id (rescheduled_job clk l n j) = jb_id j"
  by (simp add: rescheduled_job_def)

lemma disabled_id [simp]: "jb_id (disabled_job clk j) = jb_id j"
  by (simp add: disabled_job_def)

interpretation memory_sched: sched_repository memory_repos sched_maps_ok "\<lambda>s. jm_values (sm_jobs s)"
    "\<lambda>s. jm_values (sm_executions s)" "\<lambda>s r. True"
proof unfold_locales
  fix s :: sched_maps and u d
  assume ok: "sched_maps_ok s" and fresh: "u \<notin> je_id ` set (jm_values (sm_executions s))"
  have "jm_keys (sm_executions s) = map je_id (jm_values (sm_executions s))" using ok by (auto simp: sched_maps_ok_def)
  with fresh have "u \<notin> set (jm_keys (sm_executions s))" by (simp only: set_map) simp
  then have "jm_set (sm_executions s) u (new_execution u d) = sm_executions s @ [(u, new_execution u d)]"
    by (intro jm_set_fresh) (simp add: map_of_eq_None_iff)
  with ok show "\<exists>s'. er_create memory_repos u s d = Inr (s', new_execution u d) \<and> sched_maps_ok s'
      \<and> jm_values (sm_jobs s') = jm_values (sm_jobs s)
      \<and> jm_values (sm_executions s') = jm_values (sm_executions s) @ [new_execution u d]"
    by (auto simp: memory_repos_def InMemoryExecutionRepository_create_def Let_def sched_maps_ok_def new_execution_def)
next
  fix s :: sched_maps and now
  show "sched_maps_ok s \<Longrightarrow> jr_findDueJobs memory_repos now s = filter (job_due now) (jm_values (sm_jobs s))"
    by (simp add: memory_repos_def InMemoryJobRepository_findDueJobs_def job_due_def [abs_def])
next
  fix s :: sched_maps
  assume ok: "sched_maps_ok s"
  then have "map jb_id (jm_values (sm_jobs s)) = jm_keys (sm_jobs s)" by (auto simp: sched_maps_ok_def)
  with ok show "distinct (map jb_id (jm_values (sm_jobs s)))" by (simp only: sched_maps_ok_def jm_ok_def)
next
  fix s :: sched_maps and n clk i l :: string
  assume "sched_maps_ok s"
  from memory_at_job [OF this, of "rescheduled_job clk l n" i]
  show "sched_maps_ok (jr_updateNextRun memory_repos clk s i l n)
      \<and> jm_values (sm_jobs (jr_updateNextRun memory_repos clk s i l n)) = at_job i (rescheduled_job clk l n) (jm_values (sm_jobs s))
      \<and> jm_values (sm_executions (jr_updateNextRun memory_repos clk s i l n)) = jm_values (sm_executions s)"
    by (simp add: memory_repos_def InMemoryJobRepository_updateNextRun_def Let_def)
next
  fix s :: sched_maps and clk i :: string
  assume "sched_maps_ok s"
  from memory_at_job [OF this, of "disabled_job clk" i]
  show "sched_maps_ok (jr_disable memory_repos clk s i)
      \<and> jm_values (sm_jobs (jr_disable memory_repos clk s i)) = at_job i (disabled_job clk) (jm_values (sm_jobs s))
      \<and> jm_values (sm_executions (jr_disable memory_repos clk s i)) = jm_values (sm_executions s)"
    by (simp add: memory_repos_def InMemoryJobRepository_disable_def Let_def)
next
  fix s :: sched_maps and i lim
  show "er_countRecentFailures memory_repos s i lim = recent_failures i lim (jm_values (sm_executions s))"
    by (simp add: memory_repos_def InMemoryExecutionRepository_countRecentFailures_def recent_failures_def)
qed

lemma sqlite_at_job:
  assumes "sched_db_ok s" and "\<And>j. jb_id (f j) = jb_id j" and "\<And>j. jb_nextRunAt j \<noteq> Some [] \<Longrightarrow> jb_nextRunAt (f j) \<noteq> Some []"
  shows "sched_db_ok (s\<lparr>db_jobs := sql_update (\<lambda>j. jb_id j = i) f (db_jobs s)\<rparr>)"
proof -
  have "map jb_id (sql_update (\<lambda>j. jb_id j = i) f (db_jobs s)) = map jb_id (db_jobs s)"
    using assms(2) by (simp add: sql_update_def)
  moreover have "\<forall>j \<in> set (sql_update (\<lambda>j. jb_id j = i) f (db_jobs s)). jb_nextRunAt j \<noteq> Some []"
    using assms(1,3) by (auto simp: sched_db_ok_def sql_update_def)
  ultimately show ?thesis using assms(1) by (simp add: sched_db_ok_def)
qed

interpretation sqlite_sched: sched_repository sqlite_repos sched_db_ok db_jobs db_executions
    "\<lambda>s r. r \<in> set (map fst (db_runs s))"
proof unfold_locales
  fix s :: sched_db and u and d :: CreateJobExecution
  assume "sched_db_ok s" and "u \<notin> je_id ` set (db_executions s)" and "cx_jobId d \<in> jb_id ` set (db_jobs s)"
    and "\<forall>r. cx_runId d = Some r \<longrightarrow> r \<in> set (map fst (db_runs s))"
  then show "\<exists>s'. er_create sqlite_repos u s d = Inr (s', new_execution u d) \<and> sched_db_ok s'
      \<and> db_jobs s' = db_jobs s \<and> db_executions s' = db_executions s @ [new_execution u d]"
    by (force simp: sqlite_repos_def SqliteExecutionRepository_create_def Let_def sched_db_ok_def list_ex_iff
        split: option.splits)
next
  fix s :: sched_db and now
  assume "sched_db_ok s"
  then show "jr_findDueJobs sqlite_repos now s = filter (job_due now) (db_jobs s)"
    by (auto simp: sqlite_repos_def SqliteJobRepository_findDueJobs_def job_due_def sched_db_ok_def
        js_truthy_def intro!: filter_cong split: option.splits)
next
  fix s :: sched_db
  show "sched_db_ok s \<Longrightarrow> distinct (map jb_id (db_jobs s))" by (simp add: sched_db_ok_def)
next
  fix s :: sched_db and n clk i l :: string
  assume "sched_db_ok s" and "n \<noteq> []"
  with sqlite_at_job [of s "rescheduled_job clk l n" i]
  show "sched_db_ok (jr_updateNextRun sqlite_repos clk s i l n)
      \<and> db_jobs (jr_updateNextRun sqlite_repos clk s i l n) = at_job i (rescheduled_job clk l n) (db_jobs s)
      \<and> db_executions (jr_updateNextRun sqlite_repos clk s i l n) = db_executions s"
    by (simp add: sqlite_repos_def SqliteJobRepository_updateNextRun_def sql_update_def rescheduled_job_def)
next
  fix s :: sched_db and clk i :: string
  assume "sched_db_ok s"
  with sqlite_at_job [of s "disabled_job clk" i]
  show "sched_db_ok (jr_disable sqlite_repos clk s i)
      \<and> db_jobs (jr_disable sqlite_repos clk s i) = at_job i (disabled_job clk) (db_jobs s)
      \<and> db_executions (jr_disable sqlite_repos clk s i) = db_executions s"
    by (simp add: sqlite_repos_def SqliteJobRepository_disable_def sql_update_def disabled_job_def)
next
  fix s :: sched_db and i lim
  show "er_countRecentFailures sqlite_repos s i lim = recent_failures i lim (db_executions s)"
    by (simp add: sqlite_repos_def SqliteExecutionRepository_countRecentFailures_def recent_failures_def)
qed

section \<open>Properties\<close>

lemma memory_keeps_execution:
  assumes "\<And>s a x. sm_executions (fst (submit s a x)) = sm_executions s" and "k \<notin> {fst uu, snd uu}"
  shows "jm_get (sm_executions (fst (executeJob memory_repos cron submit uu clk now s job))) k = jm_get (sm_executions s) k"
proof -
  have next_keeps: "sm_executions (fst (updateNextRun memory_repos cron clk now s job)) = sm_executions s" for s
    by (auto simp: updateNextRun_def memory_repos_def InMemoryJobRepository_updateNextRun_def split: sum.splits option.splits)
  have fail_keeps: "sm_executions (fst (handleFailure memory_repos cron clk now s job)) = sm_executions s" for s
    using next_keeps by (auto simp: handleFailure_def)
      (auto simp: memory_repos_def InMemoryJobRepository_disable_def split: option.splits)
  have create: "er_create memory_repos u s d =
      Inr (s\<lparr>sm_executions := jm_set (sm_executions s) u (new_execution u d)\<rparr>, new_execution u d)" for u s d
    by (simp add: memory_repos_def InMemoryExecutionRepository_create_def Let_def)
  have submit_keeps: "jm_get (sm_executions (fst (submitJob memory_repos cron submit (fst uu) clk now s job))) k
      = jm_get (sm_executions s) k"
    using assms(1) [of s "jb_agentId job" "jb_input job"] assms(2)
    by (auto simp: submitJob_def create next_keeps jm_get_set split: sum.splits prod.splits)
  show ?thesis
    using submit_keeps assms(2)
    by (auto simp: executeJob_def recordSkippedExecution_def create next_keeps fail_keeps jm_get_set
        split: prod.splits option.splits)
qed

lemma memory_tick_keeps:
  assumes "\<And>s a x. sm_executions (fst (submit s a x)) = sm_executions s" and "\<And>i. k \<notin> {fst (us i), snd (us i)}"
  shows "jm_get (sm_executions (fst (tick_loop memory_repos cron submit us clks now n s js))) k = jm_get (sm_executions s) k"
proof (induction js arbitrary: n s)
  case (Cons j js)
  have "jm_get (sm_executions (fst (executeJob memory_repos cron submit (us n) (clks n) now s j))) k = jm_get (sm_executions s) k"
    using assms by (intro memory_keeps_execution)
  with Cons.IH show ?case by (auto split: prod.splits option.splits)
qed simp

text \<open>Data for the witnesses.\<close>

definition demo_job :: ScheduledJob where
  "demo_job = new_job ''j1'' ''1'' ''2'' \<lparr>cj_agentId = ''a1'', cj_name = ''n'', cj_cronExpression = ''c'', cj_input = ''go'',
     cj_allowConcurrent = None, cj_timezone = None, cj_maxRetries = None\<rparr>"

definition demo_cron :: cron_parser where "demo_cron e tz clk = Some (clk @ ''9'')"

definition demo_db :: sched_db where
  "demo_db = \<lparr>db_agents = [''a1''], db_runs = [], db_jobs = [demo_job], db_executions = []\<rparr>"

definition demo_submit :: "sched_db submit" where
  "demo_submit s a x = (s\<lparr>db_runs := db_runs s @ [(''r1'', RunPending)]\<rparr>, Inr ''r1'')"

definition demo_ids :: "nat \<Rightarrow> ident \<times> ident" where
  "demo_ids i = (replicate i CHR ''x'' @ ''y'', replicate i CHR ''x'' @ ''z'')"

lemma demo_db_ok: "sched_db_ok demo_db"
  by (simp add: sched_db_ok_def demo_db_def demo_job_def new_job_def)

lemma demo_next: "next_at demo_cron clk j (clk @ ''9'')"
  by (induction clk) (auto simp: next_at_def demo_cron_def)

lemma demo_ids_fresh: "fresh_from demo_ids 0 {}"
proof -
  have "replicate i CHR ''x'' @ [c] \<noteq> replicate m CHR ''x'' @ [d]" if "i < m" for i m c d
  proof
    assume "replicate i CHR ''x'' @ [c] = replicate m CHR ''x'' @ [d]"
    then have "length (replicate i CHR ''x'' @ [c]) = length (replicate m CHR ''x'' @ [d])" by (rule arg_cong)
    with that show False by simp
  qed
  then show ?thesis by (auto simp: fresh_from_def demo_ids_def)
qed

text \<open>
  C27. A tick over the SQLite repositories returns and handles every due job once: it adds exactly one
  execution per due job, in the order of the jobs, at the time of the tick and submitted, failed or
  skipped; afterwards no job is due at that time, no job is lost and jobs that were not due are unchanged.
  The parser is assumed to give every job a later time, the agent service to add runs only, and
  identifiers to be fresh.
\<close>

theorem tick_handles_due_jobs:
  assumes "sched_db_ok s"
    and "\<forall>s a x. sched_db_ok s \<longrightarrow> sched_db_ok (fst (submit s a x)) \<and> db_jobs (fst (submit s a x)) = db_jobs s
      \<and> db_executions (fst (submit s a x)) = db_executions s
      \<and> (\<forall>r. snd (submit s a x) = Inr r \<longrightarrow> r \<in> set (map fst (db_runs (fst (submit s a x)))))"
    and "\<And>i. now \<le> clks i" and "\<forall>j \<in> set (db_jobs s). \<forall>i. \<exists>n. next_at cron (clks i) j n"
    and "fresh_from us 0 (je_id ` set (db_executions s))"
  shows "\<exists>s' es. tick sqlite_repos cron submit us clks now s = (s', None) \<and> SqliteJobRepository_findDueJobs now s' = []
    \<and> db_executions s' = db_executions s @ es
    \<and> map je_jobId es = map jb_id (SqliteJobRepository_findDueJobs now s)
    \<and> (\<forall>e \<in> set es. je_scheduledAt e = now \<and> je_status e \<in> {ExecSubmitted, ExecFailed, ExecSkipped})
    \<and> map jb_id (db_jobs s') = map jb_id (db_jobs s)
    \<and> (\<forall>x \<in> set (db_jobs s). x \<notin> set (SqliteJobRepository_findDueJobs now s) \<longrightarrow> x \<in> set (db_jobs s'))"
proof -
  have well: "sqlite_sched.submits_well submit"
    unfolding sqlite_sched.submits_well_def using assms(2) by (metis fst_conv snd_conv)
  have due: "SqliteJobRepository_findDueJobs now s = filter (job_due now) (db_jobs s)"
    using sqlite_sched.due_law [OF assms(1)] by (simp add: sqlite_repos_def)
  have status: "st \<noteq> ExecCompleted \<longleftrightarrow> st \<in> {ExecSubmitted, ExecFailed, ExecSkipped}" for st by (cases st) auto
  from sqlite_sched.tick_done [OF assms(1) well assms(3,4,5)] show ?thesis
    unfolding due status by (simp add: sqlite_repos_def) blast
qed

theorem tick_handles_due_jobs_witness:
  "\<exists>s' es. tick sqlite_repos demo_cron demo_submit demo_ids (\<lambda>i. ''5'') ''5'' demo_db = (s', None)
    \<and> SqliteJobRepository_findDueJobs ''5'' s' = [] \<and> db_executions s' = es \<and> map je_jobId es = [''j1'']"
proof -
  have submit: "\<forall>s a x. sched_db_ok s \<longrightarrow> sched_db_ok (fst (demo_submit s a x)) \<and> db_jobs (fst (demo_submit s a x)) = db_jobs s
      \<and> db_executions (fst (demo_submit s a x)) = db_executions s
      \<and> (\<forall>r. snd (demo_submit s a x) = Inr r \<longrightarrow> r \<in> set (map fst (db_runs (fst (demo_submit s a x)))))"
    by (simp add: demo_submit_def sched_db_ok_def)
  have fresh: "fresh_from demo_ids 0 (je_id ` set (db_executions demo_db))"
    using demo_ids_fresh by (simp add: demo_db_def)
  have due: "map jb_id (SqliteJobRepository_findDueJobs ''5'' demo_db) = [''j1'']" by code_simp
  have "db_executions demo_db = []" by (simp add: demo_db_def)
  moreover have "\<forall>j \<in> set (db_jobs demo_db). \<forall>i. \<exists>n. next_at demo_cron ''5'' j n" using demo_next by blast
  ultimately show ?thesis
    using tick_handles_due_jobs [OF demo_db_ok submit, of "''5''" "\<lambda>i. ''5''" demo_cron demo_ids] fresh due by auto
qed



text \<open>
  Over the in-memory repositories a submitted execution is never completed: its record survives
  every tick, and as long as it is there a job without concurrency is only skipped, whatever the agent
  service is. Such a job runs once in the life of the process.
\<close>

theorem memory_job_runs_once:
  assumes "jm_get (sm_executions s) k = Some x" and "je_jobId x = jb_id job" and "je_status x = ExecSubmitted"
    and "\<not> jb_allowConcurrent job" and "\<And>i. k \<notin> {fst (us i), snd (us i)}"
    and "\<And>s a x. sm_executions (fst (submit s a x)) = sm_executions s"
  shows "jm_get (sm_executions (fst (tick memory_repos cron submit us clks now s))) k = Some x
    \<and> executeJob memory_repos cron submit uu clk now s job = executeJob memory_repos cron submit' uu clk now s job"
proof -
  have "x \<in> set (jm_values (sm_executions s))" using map_of_SomeD [OF assms(1)] by force
  then have "er_hasRunningExecution memory_repos s (jb_id job)"
    using assms(2,3) by (auto simp: memory_repos_def InMemoryExecutionRepository_hasRunningExecution_def list_ex_iff)
  with assms(4) have "executeJob memory_repos cron submit uu clk now s job = executeJob memory_repos cron submit' uu clk now s job"
    by (simp add: executeJob_def)
  with memory_tick_keeps [of submit k us, OF assms(6,5)] assms(1) show ?thesis by (simp add: tick_def)
qed

definition demo_maps :: sched_maps where
  "demo_maps = \<lparr>sm_jobs = [(''j1'', demo_job)], sm_executions = [(''e1'', \<lparr>je_id = ''e1'', je_jobId = ''j1'', je_runId = Some ''r1'',
     je_status = ExecSubmitted, je_scheduledAt = ''1'', je_executedAt = Some ''1'', je_error = None\<rparr>)]\<rparr>"

theorem memory_job_runs_once_witness:
  "jm_get (sm_executions (fst (tick memory_repos demo_cron (\<lambda>s a x. (s, Inr ''r2'')) demo_ids (\<lambda>i. ''5'') ''5'' demo_maps))) ''e1'' \<noteq> None
   \<and> executeJob memory_repos demo_cron (\<lambda>s a x. (s, Inr ''r2'')) (''u'', ''v'') ''5'' ''5'' demo_maps demo_job
     = executeJob memory_repos demo_cron (\<lambda>s a x. (s, Inl (Error ''down''))) (''u'', ''v'') ''5'' ''5'' demo_maps demo_job"
proof -
  have "''e1'' \<notin> {fst (demo_ids i), snd (demo_ids i)}" for i by (cases i) (auto simp: demo_ids_def)
  then show ?thesis
    using memory_job_runs_once [of demo_maps "''e1''" "the (jm_get (sm_executions demo_maps) ''e1'')" demo_job demo_ids
        "\<lambda>s a x. (s, Inr ''r2'')" demo_cron "\<lambda>i. ''5''" "''5''" "(''u'', ''v'')" "''5''" "\<lambda>s a x. (s, Inl (Error ''down''))"]
    by (simp add: demo_maps_def demo_job_def new_job_def)
qed

end
