(* ===== verification/Agent_Storage.thy ===== *)
theory Agent_Storage
  imports Agent_Repositories Json_Text Scheduler
begin

text \<open>
  The SQLite repositories of agents, runs, messages, background tasks, task transcripts and pending
  messages (\<^verbatim>\<open>packages/storage/src/*-repository.ts\<close>, \<^verbatim>\<open>serialization.ts\<close>, with the tables of
  \<^verbatim>\<open>schema.ts\<close>), and their refinement of the in-memory repositories of \<open>Agent_Repositories\<close>.

  A table is the list of its rows in insertion order; structured columns hold JSON text. The two message
  tables have an automatically incremented key, whose last value is part of the state because it is
  shared by all runs or tasks. Columns with an enumerated value hold the value. Foreign keys are enforced.
  The schemas of the protocol package that check what was read back are arguments; what is relied on of
  them is the predicate \<open>schemas_ok\<close>: they accept what the program itself wrote and return it unchanged.
\<close>

section \<open>Tables\<close>

record agent_row =
  agr_id :: ident
  agr_name :: string
  agr_systemPrompt :: string
  agr_provider :: string
  agr_tools :: string
  agr_effort :: "AgentEffort option"
  agr_isolation :: "AgentIsolation option"
  agr_permissionMode :: string
  agr_mode :: "AgentMode option"
  agr_maxTurns :: "nat option"
  agr_background :: bool

record message_row =
  mr_seq :: nat
  mr_runId :: ident
  mr_role :: string
  mr_content :: "string option"
  mr_toolCalls :: "string option"
  mr_toolCallId :: "ident option"
  mr_insertedAt :: timestamp

record task_row =
  tr_id :: ident
  tr_selectedAgentId :: ident
  tr_status :: AgentTaskStatus
  tr_initialInput :: string
  tr_background :: bool
  tr_parentRunId :: "ident option"
  tr_parentTaskId :: "ident option"
  tr_activeRunId :: "ident option"
  tr_transcriptCursor :: nat
  tr_metadata :: string
  tr_createdAt :: timestamp
  tr_updatedAt :: timestamp
  tr_taskError :: "string option"

record task_message_row =
  tm_seq :: nat
  tm_taskId :: ident
  tm_sourceRunId :: "ident option"
  tm_role :: string
  tm_content :: "string option"
  tm_toolCalls :: "string option"
  tm_toolCallId :: "ident option"
  tm_insertedAt :: timestamp

record pending_row =
  pw_id :: ident
  pw_taskId :: ident
  pw_role :: PendingRole
  pw_content :: string
  pw_createdAt :: timestamp
  pw_deliveredAt :: "timestamp option"

record run_row =
  rr_id :: ident
  rr_agentId :: ident
  rr_input :: string
  rr_status :: RunStatus
  rr_parentRunId :: "ident option"
  rr_agentTaskId :: "ident option"
  rr_createdAt :: timestamp
  rr_updatedAt :: timestamp
  rr_error :: "string option"

record agent_db =
  ad_agents :: "agent_row list"
  ad_runs :: "run_row list"
  ad_messages :: "message_row list"
  ad_messageSeq :: nat
  ad_tasks :: "task_row list"
  ad_taskMessages :: "task_message_row list"
  ad_taskMessageSeq :: nat
  ad_pending :: "pending_row list"

section \<open>Serialization\<close>

record storage_schemas =
  ProviderConfigSchema :: "json \<Rightarrow> issue list + ProviderConfig"
  ToolsSchema :: "json \<Rightarrow> issue list + string list"
  ToolCallsSchema :: "json \<Rightarrow> issue list + ToolCall list"

text \<open>The text of the two errors depends on the engine and is not inspected.\<close>

definition syntax_error :: exn where "syntax_error = Error ''Unexpected token in JSON''"

definition schema_error :: "issue list \<Rightarrow> exn" where "schema_error is = Error ''Invalid value''"

definition schema_parse :: "(json \<Rightarrow> issue list + 'a) \<Rightarrow> string + json \<Rightarrow> 'a result" where
  "schema_parse schema v =
     (case (case v of Inl text \<Rightarrow> json_parse text | Inr j \<Rightarrow> Some j) of
        None \<Rightarrow> Inl syntax_error
      | Some j \<Rightarrow> (case schema j of Inl is \<Rightarrow> Inl (schema_error is) | Inr x \<Rightarrow> Inr x))"

definition opt_num :: "string \<Rightarrow> int option \<Rightarrow> (string \<times> json) list" where
  "opt_num k v = (case v of None \<Rightarrow> [] | Some i \<Rightarrow> [(k, JNum i)])"

definition provider_json :: "ProviderConfig \<Rightarrow> json" where
  "provider_json p = JObj ([(''provider'', JStr (pc_provider p)), (''model'', JStr (pc_model p))]
     @ opt_num ''temperature'' (pc_temperature p) @ opt_num ''maxTokens'' (map_option int (pc_maxTokens p)))"

definition toolCall_json :: "ToolCall \<Rightarrow> json" where
  "toolCall_json c = JObj [(''toolCallId'', JStr (tc_toolCallId c)), (''toolName'', JStr (tc_toolName c)),
     (''args'', tc_args c)]"

definition serializeProvider :: "ProviderConfig \<Rightarrow> string" where
  "serializeProvider p = json_stringify (provider_json p)"

definition deserializeProvider :: "storage_schemas \<Rightarrow> string + json \<Rightarrow> ProviderConfig result" where
  "deserializeProvider sc v = schema_parse (ProviderConfigSchema sc) v"

definition serializeTools :: "string list \<Rightarrow> string" where
  "serializeTools ts = json_stringify (JArr (map JStr ts))"

definition deserializeTools :: "storage_schemas \<Rightarrow> string + json \<Rightarrow> string list result" where
  "deserializeTools sc v = schema_parse (ToolsSchema sc) v"

definition serializeToolCalls :: "ToolCall list option \<Rightarrow> string option" where
  "serializeToolCalls cs =
     (case cs of None \<Rightarrow> None
      | Some l \<Rightarrow> if l = [] then None else Some (json_stringify (JArr (map toolCall_json l))))"

definition deserializeToolCalls :: "storage_schemas \<Rightarrow> (string + json) option \<Rightarrow> ToolCall list option result" where
  "deserializeToolCalls sc v =
     (case v of None \<Rightarrow> Inr None
      | Some x \<Rightarrow> (case schema_parse (ToolCallsSchema sc) x of Inl e \<Rightarrow> Inl e | Inr cs \<Rightarrow> Inr (Some cs)))"

section \<open>Agents\<close>

definition mapAgent :: "storage_schemas \<Rightarrow> agent_row \<Rightarrow> Agent result" where
  "mapAgent sc row =
     (case deserializeProvider sc (Inl (agr_provider row)) of
        Inl e \<Rightarrow> Inl e
      | Inr p \<Rightarrow>
          (case deserializeTools sc (Inl (agr_tools row)) of
             Inl e \<Rightarrow> Inl e
           | Inr ts \<Rightarrow> Inr \<lparr>ag_id = agr_id row, ag_name = agr_name row, ag_systemPrompt = agr_systemPrompt row,
               ag_provider = p, ag_tools = ts, ag_effort = js_or (agr_effort row) EffortMedium,
               ag_isolation = js_or (agr_isolation row) IsoShared, ag_permissionMode = agr_permissionMode row,
               ag_mode = js_or (agr_mode row) ModeStandard, ag_maxTurns = agr_maxTurns row,
               ag_background = agr_background row\<rparr>))"

definition new_agent_row :: "ident \<Rightarrow> CreateAgent \<Rightarrow> agent_row" where
  "new_agent_row uuid d =
     \<lparr>agr_id = uuid, agr_name = ca_name d, agr_systemPrompt = ca_systemPrompt d,
      agr_provider = serializeProvider (ca_provider d), agr_tools = serializeTools (js_or (ca_tools d) []),
      agr_effort = Some (js_or (ca_effort d) EffortMedium), agr_isolation = Some (js_or (ca_isolation d) IsoShared),
      agr_permissionMode = js_or (ca_permissionMode d) ''default'', agr_mode = Some (js_or (ca_mode d) ModeStandard),
      agr_maxTurns = ca_maxTurns d, agr_background = js_or (ca_background d) False\<rparr>"

definition SqliteAgentRepository_create ::
    "storage_schemas \<Rightarrow> ident \<Rightarrow> agent_db \<Rightarrow> CreateAgent \<Rightarrow> agent_db \<times> Agent result" where
  "SqliteAgentRepository_create sc uuid s d =
     (let row = new_agent_row uuid d
      in if list_ex (\<lambda>r. agr_id r = uuid) (ad_agents s) then (s, Inl unique_violation)
         else (s\<lparr>ad_agents := ad_agents s @ [row]\<rparr>, mapAgent sc row))"

definition SqliteAgentRepository_get :: "storage_schemas \<Rightarrow> agent_db \<Rightarrow> ident \<Rightarrow> Agent option result" where
  "SqliteAgentRepository_get sc s i =
     (case find (\<lambda>r. agr_id r = i) (ad_agents s) of
        None \<Rightarrow> Inr None
      | Some row \<Rightarrow> (case mapAgent sc row of Inl e \<Rightarrow> Inl e | Inr a \<Rightarrow> Inr (Some a)))"

text \<open>\<^verbatim>\<open>Array.map\<close> with a function that may throw: the first error is thrown.\<close>

fun map_throwing :: "('a \<Rightarrow> 'b result) \<Rightarrow> 'a list \<Rightarrow> 'b list result" where
  "map_throwing f [] = Inr []"
| "map_throwing f (x # xs) =
     (case f x of Inl e \<Rightarrow> Inl e
      | Inr y \<Rightarrow> (case map_throwing f xs of Inl e \<Rightarrow> Inl e | Inr ys \<Rightarrow> Inr (y # ys)))"

definition SqliteAgentRepository_list :: "storage_schemas \<Rightarrow> agent_db \<Rightarrow> Agent list result" where
  "SqliteAgentRepository_list sc s = map_throwing (mapAgent sc) (ad_agents s)"

definition SqliteAgentRepository_delete :: "agent_db \<Rightarrow> ident \<Rightarrow> agent_db \<times> bool" where
  "SqliteAgentRepository_delete s i =
     (s\<lparr>ad_agents := filter (\<lambda>r. agr_id r \<noteq> i) (ad_agents s)\<rparr>, list_ex (\<lambda>r. agr_id r = i) (ad_agents s))"

section \<open>Runs and their messages\<close>

definition mapRun :: "run_row \<Rightarrow> Run" where
  "mapRun row = \<lparr>rn_id = rr_id row, rn_agentId = rr_agentId row, rn_input = rr_input row, rn_status = rr_status row,
     rn_parentRunId = rr_parentRunId row, rn_agentTaskId = rr_agentTaskId row, rn_createdAt = rr_createdAt row,
     rn_updatedAt = rr_updatedAt row, rn_error = rr_error row\<rparr>"

definition SqliteRunRepository_create ::
    "ident \<Rightarrow> timestamp \<Rightarrow> agent_db \<Rightarrow> ident \<Rightarrow> string \<Rightarrow> AgentRunLink option \<Rightarrow> agent_db \<times> Run result" where
  "SqliteRunRepository_create uuid now s agentId input link =
     (let run = \<lparr>rr_id = uuid, rr_agentId = agentId, rr_input = input, rr_status = RunPending,
                 rr_parentRunId = Option.bind link lk_parentRunId, rr_agentTaskId = Option.bind link lk_agentTaskId,
                 rr_createdAt = now, rr_updatedAt = now, rr_error = None\<rparr>
      in if list_ex (\<lambda>r. rr_id r = uuid) (ad_runs s) then (s, Inl unique_violation)
         else (s\<lparr>ad_runs := ad_runs s @ [run]\<rparr>, Inr (mapRun run)))"

definition SqliteRunRepository_get :: "agent_db \<Rightarrow> ident \<Rightarrow> Run option" where
  "SqliteRunRepository_get s i = map_option mapRun (find (\<lambda>r. rr_id r = i) (ad_runs s))"

definition SqliteRunRepository_list :: "agent_db \<Rightarrow> Run list" where
  "SqliteRunRepository_list s = map mapRun (sort_key rr_createdAt (ad_runs s))"

definition SqliteRunRepository_updateStatus ::
    "timestamp \<Rightarrow> agent_db \<Rightarrow> ident \<Rightarrow> RunStatus \<Rightarrow> string option \<Rightarrow> agent_db \<times> Run option" where
  "SqliteRunRepository_updateStatus now s i status err =
     (case SqliteRunRepository_get s i of
        None \<Rightarrow> (s, None)
      | Some existing \<Rightarrow>
          let s' = s\<lparr>ad_runs := sql_update (\<lambda>r. rr_id r = i)
                 (\<lambda>r. r\<lparr>rr_status := status, rr_updatedAt := now, rr_error := js_or_opt err (rn_error existing)\<rparr>)
                 (ad_runs s)\<rparr>
          in (s', SqliteRunRepository_get s' i))"

definition message_role :: "Message \<Rightarrow> string" where
  "message_role m = (case m of SystemMessage _ \<Rightarrow> ''system'' | UserMessage _ \<Rightarrow> ''user''
     | AssistantMessage _ _ \<Rightarrow> ''assistant'' | ToolMessage _ _ \<Rightarrow> ''tool'')"

definition message_content :: "Message \<Rightarrow> string option" where
  "message_content m = (case m of SystemMessage c \<Rightarrow> Some c | UserMessage c \<Rightarrow> Some c
     | AssistantMessage c _ \<Rightarrow> c | ToolMessage _ c \<Rightarrow> Some c)"

definition message_toolCalls :: "Message \<Rightarrow> string option" where
  "message_toolCalls m = (case m of AssistantMessage _ cs \<Rightarrow> serializeToolCalls cs | _ \<Rightarrow> None)"

definition message_toolCallId :: "Message \<Rightarrow> ident option" where
  "message_toolCallId m = (case m of ToolMessage i _ \<Rightarrow> Some i | _ \<Rightarrow> None)"

definition read_message ::
    "storage_schemas \<Rightarrow> string \<Rightarrow> string option \<Rightarrow> string option \<Rightarrow> ident option \<Rightarrow> Message result" where
  "read_message sc role content toolCalls toolCallId =
     (if role = ''system'' then Inr (SystemMessage (js_or content []))
      else if role = ''user'' then Inr (UserMessage (js_or content []))
      else if role = ''assistant'' then
        (case deserializeToolCalls sc (map_option Inl toolCalls) of
           Inl e \<Rightarrow> Inl e | Inr cs \<Rightarrow> Inr (AssistantMessage content cs))
      else Inr (ToolMessage (js_or toolCallId []) (js_or content [])))"

definition mapMessage :: "storage_schemas \<Rightarrow> message_row \<Rightarrow> Message result" where
  "mapMessage sc row = read_message sc (mr_role row) (mr_content row) (mr_toolCalls row) (mr_toolCallId row)"

definition SqliteMessageRepository_append :: "timestamp \<Rightarrow> agent_db \<Rightarrow> ident \<Rightarrow> Message \<Rightarrow> agent_db" where
  "SqliteMessageRepository_append now s runId m =
     (let seq = ad_messageSeq s + 1;
          row = \<lparr>mr_seq = seq, mr_runId = runId, mr_role = message_role m, mr_content = message_content m,
                 mr_toolCalls = message_toolCalls m, mr_toolCallId = message_toolCallId m, mr_insertedAt = now\<rparr>
      in s\<lparr>ad_messages := ad_messages s @ [row], ad_messageSeq := seq\<rparr>)"

definition SqliteMessageRepository_listByRunId ::
    "storage_schemas \<Rightarrow> agent_db \<Rightarrow> ident \<Rightarrow> Message list result" where
  "SqliteMessageRepository_listByRunId sc s runId =
     map_throwing (mapMessage sc) (sort_key mr_seq (filter (\<lambda>r. mr_runId r = runId) (ad_messages s)))"

section \<open>Background tasks\<close>

text \<open>An array is an object whose members are named by its indices.\<close>

definition parseMetadata :: "string \<Rightarrow> (string \<times> json) list" where
  "parseMetadata text =
     (case json_parse text of
        Some (JObj kvs) \<Rightarrow> kvs
      | Some (JArr js) \<Rightarrow> map (\<lambda>i. (show_nat i, js ! i)) [0..<length js]
      | _ \<Rightarrow> [])"

definition mapAgentTask :: "task_row \<Rightarrow> AgentTask" where
  "mapAgentTask row =
     \<lparr>tk_id = tr_id row, tk_selectedAgentId = tr_selectedAgentId row, tk_status = tr_status row,
      tk_initialInput = tr_initialInput row, tk_background = tr_background row,
      tk_parentRunId = tr_parentRunId row, tk_parentTaskId = tr_parentTaskId row,
      tk_activeRunId = tr_activeRunId row,
      tk_transcript = \<lparr>tx_taskId = tr_id row, tx_lastMessageSeq = tr_transcriptCursor row\<rparr>,
      tk_metadata = parseMetadata (tr_metadata row), tk_createdAt = tr_createdAt row,
      tk_updatedAt = tr_updatedAt row, tk_error = tr_taskError row\<rparr>"

definition SqliteAgentTaskRepository_create ::
    "ident \<Rightarrow> timestamp \<Rightarrow> agent_db \<Rightarrow> CreateAgentTask \<Rightarrow> agent_db \<times> AgentTask result" where
  "SqliteAgentTaskRepository_create uuid now s d =
     (let task = \<lparr>tr_id = uuid, tr_selectedAgentId = ct_selectedAgentId d, tr_status = TaskPending,
            tr_initialInput = ct_initialInput d, tr_background = js_or (ct_background d) True,
            tr_parentRunId = ct_parentRunId d, tr_parentTaskId = ct_parentTaskId d, tr_activeRunId = None,
            tr_transcriptCursor = 0, tr_metadata = json_stringify (JObj (js_or (ct_metadata d) [])),
            tr_createdAt = now, tr_updatedAt = now, tr_taskError = None\<rparr>
      in if list_ex (\<lambda>r. tr_id r = uuid) (ad_tasks s) then (s, Inl unique_violation)
         else (s\<lparr>ad_tasks := ad_tasks s @ [task]\<rparr>, Inr (mapAgentTask task)))"

definition SqliteAgentTaskRepository_get :: "agent_db \<Rightarrow> ident \<Rightarrow> AgentTask option" where
  "SqliteAgentTaskRepository_get s i = map_option mapAgentTask (find (\<lambda>r. tr_id r = i) (ad_tasks s))"

definition SqliteAgentTaskRepository_list :: "agent_db \<Rightarrow> AgentTask list" where
  "SqliteAgentTaskRepository_list s = map mapAgentTask (sort_key tr_createdAt (ad_tasks s))"

definition SqliteAgentTaskRepository_updateStatus ::
    "timestamp \<Rightarrow> agent_db \<Rightarrow> ident \<Rightarrow> AgentTaskStatus \<Rightarrow> string option \<Rightarrow> agent_db \<times> AgentTask option" where
  "SqliteAgentTaskRepository_updateStatus now s i status err =
     (case SqliteAgentTaskRepository_get s i of
        None \<Rightarrow> (s, None)
      | Some existing \<Rightarrow>
          let s' = s\<lparr>ad_tasks := sql_update (\<lambda>r. tr_id r = i)
                 (\<lambda>r. r\<lparr>tr_status := status, tr_updatedAt := now, tr_taskError := js_or_opt err (tk_error existing)\<rparr>)
                 (ad_tasks s)\<rparr>
          in (s', SqliteAgentTaskRepository_get s' i))"

definition SqliteAgentTaskRepository_setActiveRun ::
    "timestamp \<Rightarrow> agent_db \<Rightarrow> ident \<Rightarrow> ident option \<Rightarrow> agent_db \<times> AgentTask option" where
  "SqliteAgentTaskRepository_setActiveRun now s i activeRunId =
     (case SqliteAgentTaskRepository_get s i of
        None \<Rightarrow> (s, None)
      | Some existing \<Rightarrow>
          let s' = s\<lparr>ad_tasks := sql_update (\<lambda>r. tr_id r = i)
                 (\<lambda>r. r\<lparr>tr_activeRunId := activeRunId, tr_updatedAt := now\<rparr>) (ad_tasks s)\<rparr>
          in (s', SqliteAgentTaskRepository_get s' i))"

section \<open>Task transcripts\<close>

definition task_mapMessage :: "storage_schemas \<Rightarrow> task_message_row \<Rightarrow> Message result" where
  "task_mapMessage sc row = read_message sc (tm_role row) (tm_content row) (tm_toolCalls row) (tm_toolCallId row)"

definition mapEntry :: "storage_schemas \<Rightarrow> task_message_row \<Rightarrow> AgentTranscriptEntry result" where
  "mapEntry sc row =
     (case task_mapMessage sc row of
        Inl e \<Rightarrow> Inl e
      | Inr m \<Rightarrow> Inr \<lparr>te_seq = tm_seq row, te_taskId = tm_taskId row, te_sourceRunId = tm_sourceRunId row,
                      te_message = m, te_insertedAt = tm_insertedAt row\<rparr>)"

definition SqliteAgentTaskMessageRepository_append ::
    "timestamp \<Rightarrow> agent_db \<Rightarrow> ident \<Rightarrow> Message \<Rightarrow> ident option \<Rightarrow> agent_db \<times> AgentTranscriptEntry result" where
  "SqliteAgentTaskMessageRepository_append now s taskId m sourceRunId =
     (let seq = ad_taskMessageSeq s + 1;
          row = \<lparr>tm_seq = seq, tm_taskId = taskId, tm_sourceRunId = sourceRunId, tm_role = message_role m,
                 tm_content = message_content m, tm_toolCalls = message_toolCalls m,
                 tm_toolCallId = message_toolCallId m, tm_insertedAt = now\<rparr>
      in if \<not> list_ex (\<lambda>r. tr_id r = taskId) (ad_tasks s) then (s, Inl foreign_key_violation)
         else (s\<lparr>ad_taskMessages := ad_taskMessages s @ [row], ad_taskMessageSeq := seq,
                 ad_tasks := sql_update (\<lambda>r. tr_id r = taskId)
                   (\<lambda>r. r\<lparr>tr_transcriptCursor := seq, tr_updatedAt := now\<rparr>) (ad_tasks s)\<rparr>,
               Inr \<lparr>te_seq = seq, te_taskId = taskId, te_sourceRunId = sourceRunId, te_message = m,
                    te_insertedAt = now\<rparr>))"

definition SqliteAgentTaskMessageRepository_listByTaskId ::
    "storage_schemas \<Rightarrow> agent_db \<Rightarrow> ident \<Rightarrow> AgentTranscriptEntry list result" where
  "SqliteAgentTaskMessageRepository_listByTaskId sc s taskId =
     map_throwing (mapEntry sc) (sort_key tm_seq (filter (\<lambda>r. tm_taskId r = taskId) (ad_taskMessages s)))"

section \<open>Pending messages\<close>

definition mapPending :: "pending_row \<Rightarrow> AgentTaskPendingMessage" where
  "mapPending row = \<lparr>pn_id = pw_id row, pn_taskId = pw_taskId row, pn_role = pw_role row, pn_content = pw_content row,
     pn_createdAt = pw_createdAt row, pn_deliveredAt = pw_deliveredAt row\<rparr>"

definition SqliteAgentTaskPendingMessageRepository_enqueue ::
    "ident \<Rightarrow> timestamp \<Rightarrow> agent_db \<Rightarrow> CreateAgentTaskPendingMessage \<Rightarrow> agent_db \<times> AgentTaskPendingMessage result" where
  "SqliteAgentTaskPendingMessageRepository_enqueue uuid now s d =
     (let row = \<lparr>pw_id = uuid, pw_taskId = cp_taskId d, pw_role = cp_role d, pw_content = cp_content d,
                 pw_createdAt = now, pw_deliveredAt = None\<rparr>
      in if list_ex (\<lambda>r. pw_id r = uuid) (ad_pending s) then (s, Inl unique_violation)
         else if \<not> list_ex (\<lambda>r. tr_id r = cp_taskId d) (ad_tasks s) then (s, Inl foreign_key_violation)
         else (s\<lparr>ad_pending := ad_pending s @ [row]\<rparr>, Inr (mapPending row)))"

definition SqliteAgentTaskPendingMessageRepository_listPendingByTaskId ::
    "agent_db \<Rightarrow> ident \<Rightarrow> AgentTaskPendingMessage list" where
  "SqliteAgentTaskPendingMessageRepository_listPendingByTaskId s taskId =
     map mapPending (sort_key pw_createdAt
       (filter (\<lambda>r. pw_taskId r = taskId \<and> pw_deliveredAt r = None) (ad_pending s)))"

definition SqliteAgentTaskPendingMessageRepository_markDelivered ::
    "timestamp \<Rightarrow> agent_db \<Rightarrow> ident \<Rightarrow> agent_db \<times> AgentTaskPendingMessage option" where
  "SqliteAgentTaskPendingMessageRepository_markDelivered now s i =
     (case find (\<lambda>r. pw_id r = i) (ad_pending s) of
        None \<Rightarrow> (s, None)
      | Some existing \<Rightarrow>
          (s\<lparr>ad_pending := sql_update (\<lambda>r. pw_id r = i) (\<lambda>r. r\<lparr>pw_deliveredAt := Some now\<rparr>) (ad_pending s)\<rparr>,
           Some (mapPending (existing\<lparr>pw_deliveredAt := Some now\<rparr>))))"

section \<open>Reading back what was written\<close>

definition valid_provider :: "ProviderConfig \<Rightarrow> bool" where
  "valid_provider p \<longleftrightarrow> pc_provider p \<noteq> [] \<and> pc_model p \<noteq> []
     \<and> (case pc_temperature p of None \<Rightarrow> True | Some t \<Rightarrow> 0 \<le> t \<and> t \<le> 2) \<and> pc_maxTokens p \<noteq> Some 0"

definition valid_toolCall :: "ToolCall \<Rightarrow> bool" where
  "valid_toolCall c \<longleftrightarrow> tc_toolCallId c \<noteq> [] \<and> tc_toolName c \<noteq> []
     \<and> (case tc_args c of JObj _ \<Rightarrow> json_ok (tc_args c) | _ \<Rightarrow> False)"

definition valid_message :: "Message \<Rightarrow> bool" where
  "valid_message m = (case m of AssistantMessage _ (Some cs) \<Rightarrow> list_all valid_toolCall cs | _ \<Rightarrow> True)"

definition schemas_ok :: "storage_schemas \<Rightarrow> bool" where
  "schemas_ok sc \<longleftrightarrow>
     (\<forall>p. valid_provider p \<longrightarrow> ProviderConfigSchema sc (provider_json p) = Inr p)
   \<and> (\<forall>ts. ToolsSchema sc (JArr (map JStr ts)) = Inr ts)
   \<and> (\<forall>cs. list_all valid_toolCall cs \<longrightarrow> ToolCallsSchema sc (JArr (map toolCall_json cs)) = Inr cs)"

text \<open>An empty list of tool calls is stored as \<^verbatim>\<open>NULL\<close> and read back as absent.\<close>

definition norm_message :: "Message \<Rightarrow> Message" where
  "norm_message m = (case m of AssistantMessage c (Some []) \<Rightarrow> AssistantMessage c None | _ \<Rightarrow> m)"

lemma provider_json_ok [simp]: "json_ok (provider_json p)"
  by (auto simp: provider_json_def opt_num_def split: option.splits)

lemma toolCall_json_ok: "valid_toolCall c \<Longrightarrow> json_ok (toolCall_json c)"
  by (auto simp: valid_toolCall_def toolCall_json_def split: json.splits)

lemma provider_roundtrip:
  "schemas_ok sc \<Longrightarrow> valid_provider p \<Longrightarrow> deserializeProvider sc (Inl (serializeProvider p)) = Inr p"
  by (simp add: deserializeProvider_def schema_parse_def serializeProvider_def json_parse_stringify schemas_ok_def)

lemma tools_roundtrip: "schemas_ok sc \<Longrightarrow> deserializeTools sc (Inl (serializeTools ts)) = Inr ts"
  by (simp add: deserializeTools_def schema_parse_def serializeTools_def json_parse_stringify schemas_ok_def
      del: json_stringify.simps)

lemma toolCalls_roundtrip:
  assumes "schemas_ok sc" and "list_all valid_toolCall cs"
  shows "deserializeToolCalls sc (map_option Inl (serializeToolCalls (Some cs))) = Inr (if cs = [] then None else Some cs)"
proof -
  have "json_ok (JArr (map toolCall_json cs))" using assms(2) by (auto simp: list_all_iff toolCall_json_ok)
  from json_parse_stringify [OF this] assms show ?thesis
    by (simp add: deserializeToolCalls_def serializeToolCalls_def schema_parse_def schemas_ok_def del: json_stringify.simps)
qed

lemma message_roundtrip:
  assumes "schemas_ok sc" and "valid_message m"
  shows "read_message sc (message_role m) (message_content m) (message_toolCalls m) (message_toolCallId m)
    = Inr (norm_message m)"
proof (cases m)
  case (AssistantMessage c cs)
  show ?thesis
  proof (cases cs)
    case None
    with AssistantMessage show ?thesis
      by (simp add: read_message_def message_role_def message_content_def message_toolCalls_def norm_message_def
          serializeToolCalls_def deserializeToolCalls_def)
  next
    case (Some l)
    with AssistantMessage assms toolCalls_roundtrip [of sc l] show ?thesis
      by (auto simp: read_message_def message_role_def message_content_def message_toolCalls_def norm_message_def
          valid_message_def split: list.splits)
  qed
qed (simp_all add: read_message_def message_role_def message_content_def message_toolCallId_def norm_message_def)

lemma mapAgent_new:
  "schemas_ok sc \<Longrightarrow> valid_provider (ca_provider d) \<Longrightarrow> mapAgent sc (new_agent_row uuid d) = Inr (new_agent uuid d)"
  by (simp add: mapAgent_def new_agent_row_def new_agent_def provider_roundtrip tools_roundtrip)

lemma metadata_roundtrip: "json_ok (JObj kvs) \<Longrightarrow> parseMetadata (json_stringify (JObj kvs)) = kvs"
  using json_parse_stringify [of "JObj kvs"] by (simp add: parseMetadata_def del: json_stringify.simps)

section \<open>Tables and insertion-ordered maps\<close>

text \<open>A table with a key column, read through its mapping function, is an insertion-ordered map.\<close>

definition as_map :: "('r \<Rightarrow> 'k) \<Rightarrow> ('r \<Rightarrow> 'v) \<Rightarrow> 'r list \<Rightarrow> ('k, 'v) jsmap" where
  "as_map key val rows = map (\<lambda>r. (key r, val r)) rows"

lemma as_map_get: "jm_get (as_map key val rows) i = map_option val (find (\<lambda>r. key r = i) rows)"
  by (induction rows) (auto simp: as_map_def)

lemma as_map_values: "jm_values (as_map key val rows) = map val rows"
  by (simp add: as_map_def)

lemma as_map_snoc: "as_map key val (rows @ [r]) = as_map key val rows @ [(key r, val r)]"
  by (simp add: as_map_def)

lemma as_map_None: "jm_get (as_map key val rows) i = None \<longleftrightarrow> \<not> list_ex (\<lambda>r. key r = i) rows"
  by (induction rows) (auto simp: as_map_def)

lemma as_map_ok: "jm_ok (as_map key val rows) \<longleftrightarrow> distinct (map key rows)"
  by (simp add: jm_ok_def as_map_def comp_def)

lemma as_map_delete: "jm_delete (as_map key val rows) i = as_map key val (filter (\<lambda>r. key r \<noteq> i) rows)"
  by (induction rows) (auto simp: as_map_def)

lemma as_map_update:
  "distinct (map key rows) \<Longrightarrow> find (\<lambda>r. key r = i) rows = Some r \<Longrightarrow> (\<And>x. key (upd x) = key x) \<Longrightarrow>
   as_map key val (sql_update (\<lambda>r. key r = i) upd rows) = jm_set (as_map key val rows) i (val (upd r))"
proof (induction rows)
  case (Cons x rows)
  show ?case
  proof (cases "key x = i")
    case True
    with Cons.prems have "map (\<lambda>r. if key r = i then upd r else r) rows = rows"
      by (intro map_idI) (force simp: image_iff)
    with True Cons.prems show ?thesis by (simp add: as_map_def sql_update_def)
  qed (use Cons in \<open>simp add: as_map_def sql_update_def\<close>)
qed simp

lemma map_throwing_Inr: "(\<And>x. x \<in> set xs \<Longrightarrow> f x = Inr (g x)) \<Longrightarrow> map_throwing f xs = Inr (map g xs)"
  by (induction xs) auto

lemma map_throwing_snoc:
  "map_throwing f xs = Inr ys \<Longrightarrow> f x = Inr y \<Longrightarrow> map_throwing f (xs @ [x]) = Inr (ys @ [y])"
  by (induction xs arbitrary: ys) (auto split: sum.splits)

lemma find_sql_update_key:
  "(\<And>x. key (upd x) = key x) \<Longrightarrow>
   find (\<lambda>r. key r = i) (sql_update (\<lambda>r. key r = i) upd rows) = map_option upd (find (\<lambda>r. key r = i) rows)"
  by (induction rows) (auto simp: sql_update_def)

lemma map_sql_update: "(\<And>x. f (upd x) = f x) \<Longrightarrow> map f (sql_update c upd rows) = map f rows"
  by (simp add: sql_update_def comp_def if_distrib cong: if_cong)

section \<open>Refinement of the in-memory repositories\<close>

text \<open>
  The two sets of repositories differ in the numbers of transcript entries (per task in memory, over
  all tasks in the database) and in empty lists of tool calls; \<open>hide_cursor\<close> and \<open>plain_entry\<close> forget
  that. \<open>refines t s m\<close>: the database \<open>s\<close> stands for the maps \<open>m\<close> and no row is younger than \<open>t\<close>.
\<close>

definition hide_cursor :: "AgentTask \<Rightarrow> AgentTask" where
  "hide_cursor t = t\<lparr>tk_transcript := \<lparr>tx_taskId = tx_taskId (tk_transcript t), tx_lastMessageSeq = 0\<rparr>\<rparr>"

definition plain_entry :: "AgentTranscriptEntry \<Rightarrow> AgentTranscriptEntry" where
  "plain_entry e = e\<lparr>te_seq := 0, te_message := norm_message (te_message e)\<rparr>"

definition numbered :: "('r \<Rightarrow> nat) \<Rightarrow> nat \<Rightarrow> 'r list \<Rightarrow> bool" where
  "numbered seq n rows \<longleftrightarrow> sorted_wrt (<) (map seq rows) \<and> (\<forall>r \<in> set rows. seq r \<le> n)"

definition dated :: "('r \<Rightarrow> timestamp) \<Rightarrow> timestamp \<Rightarrow> 'r list \<Rightarrow> bool" where
  "dated time t rows \<longleftrightarrow> sorted (map time rows) \<and> (\<forall>r \<in> set rows. time r \<le> t)"

definition last_seq :: "agent_db \<Rightarrow> ident \<Rightarrow> nat" where
  "last_seq s i = (case rev (filter (\<lambda>r. tm_taskId r = i) (ad_taskMessages s)) of [] \<Rightarrow> 0 | r # _ \<Rightarrow> tm_seq r)"

definition db_ok :: "timestamp \<Rightarrow> agent_db \<Rightarrow> bool" where
  "db_ok t s \<longleftrightarrow>
     distinct (map agr_id (ad_agents s)) \<and> distinct (map rr_id (ad_runs s))
   \<and> distinct (map tr_id (ad_tasks s)) \<and> distinct (map pw_id (ad_pending s))
   \<and> numbered mr_seq (ad_messageSeq s) (ad_messages s) \<and> numbered tm_seq (ad_taskMessageSeq s) (ad_taskMessages s)
   \<and> dated rr_createdAt t (ad_runs s) \<and> dated tr_createdAt t (ad_tasks s) \<and> dated pw_createdAt t (ad_pending s)
   \<and> (\<forall>r \<in> set (ad_tasks s). tr_transcriptCursor r = last_seq s (tr_id r))"

definition refines :: "storage_schemas \<Rightarrow> timestamp \<Rightarrow> agent_db \<Rightarrow> store \<Rightarrow> bool" where
  "refines sc t s m \<longleftrightarrow> db_ok t s
   \<and> as_map agr_id (mapAgent sc) (ad_agents s) = map (map_prod id Inr) (st_agents m)
   \<and> as_map rr_id mapRun (ad_runs s) = st_runs m
   \<and> as_map tr_id (hide_cursor \<circ> mapAgentTask) (ad_tasks s) = map (map_prod id hide_cursor) (st_tasks m)
   \<and> as_map pw_id mapPending (ad_pending s) = st_pending m
   \<and> (\<forall>r \<in> set (ad_pending s). pw_deliveredAt r \<noteq> Some [])
   \<and> (\<forall>i. SqliteMessageRepository_listByRunId sc s i = Inr (map norm_message (run_messages m i)))
   \<and> (\<forall>i. map_sum id (map plain_entry) (SqliteAgentTaskMessageRepository_listByTaskId sc s i)
          = Inr (map plain_entry (transcript_of m i)))"

datatype repo_op =
  OpCreateAgent ident CreateAgent | OpDeleteAgent ident
| OpCreateRun ident ident string "AgentRunLink option" | OpRunStatus ident RunStatus "string option"
| OpAppend ident Message
| OpCreateTask ident CreateAgentTask | OpTaskStatus ident AgentTaskStatus "string option"
| OpActiveRun ident "ident option" | OpTranscript ident Message "ident option"
| OpEnqueue ident CreateAgentTaskPendingMessage | OpDeliver ident

fun mem_step :: "timestamp \<Rightarrow> repo_op \<Rightarrow> store \<Rightarrow> store" where
  "mem_step now (OpCreateAgent i d) m = fst (InMemoryAgentRepository_create i m d)"
| "mem_step now (OpDeleteAgent i) m = fst (InMemoryAgentRepository_delete m i)"
| "mem_step now (OpCreateRun i a inp l) m = fst (run_create i now m a inp l)"
| "mem_step now (OpRunStatus i st e) m = fst (run_updateStatus now m i st e)"
| "mem_step now (OpAppend i msg) m = run_append m i msg"
| "mem_step now (OpCreateTask i d) m = fst (InMemoryAgentTaskRepository_create i now m d)"
| "mem_step now (OpTaskStatus i st e) m = fst (task_updateStatus now m i st e)"
| "mem_step now (OpActiveRun i r) m = fst (task_setActiveRun now m i r)"
| "mem_step now (OpTranscript i msg r) m = fst (transcript_append now m i msg r)"
| "mem_step now (OpEnqueue i d) m = fst (pending_enqueue i now m d)"
| "mem_step now (OpDeliver i) m = fst (pending_deliver now m i)"

fun sql_step :: "storage_schemas \<Rightarrow> timestamp \<Rightarrow> repo_op \<Rightarrow> agent_db \<Rightarrow> agent_db" where
  "sql_step sc now (OpCreateAgent i d) s = fst (SqliteAgentRepository_create sc i s d)"
| "sql_step sc now (OpDeleteAgent i) s = fst (SqliteAgentRepository_delete s i)"
| "sql_step sc now (OpCreateRun i a inp l) s = fst (SqliteRunRepository_create i now s a inp l)"
| "sql_step sc now (OpRunStatus i st e) s = fst (SqliteRunRepository_updateStatus now s i st e)"
| "sql_step sc now (OpAppend i msg) s = SqliteMessageRepository_append now s i msg"
| "sql_step sc now (OpCreateTask i d) s = fst (SqliteAgentTaskRepository_create i now s d)"
| "sql_step sc now (OpTaskStatus i st e) s = fst (SqliteAgentTaskRepository_updateStatus now s i st e)"
| "sql_step sc now (OpActiveRun i r) s = fst (SqliteAgentTaskRepository_setActiveRun now s i r)"
| "sql_step sc now (OpTranscript i msg r) s = fst (SqliteAgentTaskMessageRepository_append now s i msg r)"
| "sql_step sc now (OpEnqueue i d) s = fst (SqliteAgentTaskPendingMessageRepository_enqueue i now s d)"
| "sql_step sc now (OpDeliver i) s = fst (SqliteAgentTaskPendingMessageRepository_markDelivered now s i)"

text \<open>
  The uses the program makes: fresh identifiers, messages of existing tasks, and values that the
  protocol schemas admit.
\<close>

fun op_ok :: "repo_op \<Rightarrow> store \<Rightarrow> bool" where
  "op_ok (OpCreateAgent i d) m \<longleftrightarrow> jm_get (st_agents m) i = None \<and> valid_provider (ca_provider d)"
| "op_ok (OpCreateRun i a inp l) m \<longleftrightarrow> jm_get (st_runs m) i = None"
| "op_ok (OpAppend i msg) m \<longleftrightarrow> valid_message msg"
| "op_ok (OpCreateTask i d) m \<longleftrightarrow> jm_get (st_tasks m) i = None \<and> transcript_of m i = []
     \<and> json_ok (JObj (js_or (ct_metadata d) []))"
| "op_ok (OpTranscript i msg r) m \<longleftrightarrow> jm_get (st_tasks m) i \<noteq> None \<and> valid_message msg"
| "op_ok (OpEnqueue i d) m \<longleftrightarrow> jm_get (st_pending m) i = None \<and> jm_get (st_tasks m) (cp_taskId d) \<noteq> None"
| "op_ok _ m \<longleftrightarrow> True"

lemma norm_message_idem [simp]: "norm_message (norm_message m) = norm_message m"
  by (auto simp: norm_message_def split: Message.splits option.splits list.splits)

lemma plain_entry_idem [simp]: "plain_entry (plain_entry e) = plain_entry e"
  by (simp add: plain_entry_def)

lemma map_snd_get: "jm_get (map (map_prod id f) m) i = map_option f (jm_get m i)"
  by (induction m) (auto simp: map_prod_def)

lemma map_snd_set: "map (map_prod id f) (jm_set m i v) = jm_set (map (map_prod id f) m) i (f v)"
  by (induction m) (auto simp: map_prod_def)

lemma map_snd_delete: "map (map_prod id f) (jm_delete m i) = jm_delete (map (map_prod id f) m) i"
  by (induction m) (auto simp: map_prod_def)

lemma numbered_snoc:
  "numbered seq n rows \<Longrightarrow> seq r = n + 1 \<Longrightarrow> numbered seq (n + 1) (rows @ [r])"
  by (force simp: numbered_def sorted_wrt_append)

lemma numbered_sort: "numbered seq n rows \<Longrightarrow> sort_key seq (filter P rows) = filter P rows"
  unfolding numbered_def
  by (intro sort_key_id_if_sorted sorted_filter) (simp add: strict_sorted_imp_sorted)

lemma dated_snoc: "dated time t rows \<Longrightarrow> t \<le> now \<Longrightarrow> time r = now \<Longrightarrow> dated time now (rows @ [r])"
  by (force simp: dated_def sorted_append)

lemma dated_later: "dated time t rows \<Longrightarrow> t \<le> now \<Longrightarrow> dated time now rows"
  by (force simp: dated_def)

lemma dated_sort: "dated time t rows \<Longrightarrow> sort_key time (filter P rows) = filter P rows"
  unfolding dated_def by (intro sort_key_id_if_sorted sorted_filter) simp

lemma dated_update: "(\<And>x. time (upd x) = time x) \<Longrightarrow> dated time t (sql_update c upd rows) \<longleftrightarrow> dated time t rows"
proof -
  assume "\<And>x. time (upd x) = time x"
  then have "map time (sql_update c upd rows) = map time rows" by (rule map_sql_update)
  moreover have "dated time t xs \<longleftrightarrow> sorted (map time xs) \<and> (\<forall>y \<in> set (map time xs). y \<le> t)" for xs
    by (simp add: dated_def)
  ultimately show ?thesis by metis
qed

lemmas sql_lists = SqliteMessageRepository_listByRunId_def SqliteAgentTaskMessageRepository_listByTaskId_def

lemma refinesD:
  assumes "refines sc t s m"
  shows "db_ok t s" and "as_map agr_id (mapAgent sc) (ad_agents s) = map (map_prod id Inr) (st_agents m)"
    and "as_map rr_id mapRun (ad_runs s) = st_runs m"
    and "as_map tr_id (hide_cursor \<circ> mapAgentTask) (ad_tasks s) = map (map_prod id hide_cursor) (st_tasks m)"
    and "as_map pw_id mapPending (ad_pending s) = st_pending m"
    and "\<forall>r \<in> set (ad_pending s). pw_deliveredAt r \<noteq> Some []"
    and "SqliteMessageRepository_listByRunId sc s i = Inr (map norm_message (run_messages m i))"
    and "map_sum id (map plain_entry) (SqliteAgentTaskMessageRepository_listByTaskId sc s i)
          = Inr (map plain_entry (transcript_of m i))"
  using assms unfolding refines_def by blast+

lemma fresh_rows:
  assumes "refines sc t s m"
  shows "list_ex (\<lambda>r. agr_id r = i) (ad_agents s) \<longleftrightarrow> jm_get (st_agents m) i \<noteq> None"
    and "list_ex (\<lambda>r. rr_id r = i) (ad_runs s) \<longleftrightarrow> jm_get (st_runs m) i \<noteq> None"
    and "list_ex (\<lambda>r. tr_id r = i) (ad_tasks s) \<longleftrightarrow> jm_get (st_tasks m) i \<noteq> None"
    and "list_ex (\<lambda>r. pw_id r = i) (ad_pending s) \<longleftrightarrow> jm_get (st_pending m) i \<noteq> None"
  using refinesD(2-5) [OF assms, THEN arg_cong, of "\<lambda>x. jm_get x i"]
    as_map_None [of agr_id "mapAgent sc" "ad_agents s" i] as_map_None [of rr_id mapRun "ad_runs s" i]
    as_map_None [of tr_id "hide_cursor \<circ> mapAgentTask" "ad_tasks s" i] as_map_None [of pw_id mapPending "ad_pending s" i]
  by (auto simp: map_snd_get)

lemma distinct_snoc: "distinct (map key rows) \<Longrightarrow> \<not> list_ex (\<lambda>r. key r = key x) rows \<Longrightarrow> distinct (map key (rows @ [x]))"
  by (auto simp: list_ex_iff)

lemma refines_agents:
  assumes "refines sc t s m" and "t \<le> now"
    and "distinct (map agr_id rows)" and "as_map agr_id (mapAgent sc) rows = map (map_prod id Inr) as"
  shows "refines sc now (s\<lparr>ad_agents := rows\<rparr>) (m\<lparr>st_agents := as\<rparr>)"
  using assms(1) assms(2-)
  by (auto simp: refines_def db_ok_def sql_lists last_seq_def store_ops intro: dated_later)

lemma refines_runs:
  assumes "refines sc t s m" and "t \<le> now"
    and "distinct (map rr_id rows)" and "dated rr_createdAt now rows" and "as_map rr_id mapRun rows = rs"
  shows "refines sc now (s\<lparr>ad_runs := rows\<rparr>) (m\<lparr>st_runs := rs\<rparr>)"
  using assms(1) assms(2-)
  by (auto simp: refines_def db_ok_def sql_lists last_seq_def store_ops intro: dated_later)

lemma refines_tasks:
  assumes "refines sc t s m" and "t \<le> now" and "distinct (map tr_id rows)" and "dated tr_createdAt now rows"
    and "as_map tr_id (hide_cursor \<circ> mapAgentTask) rows = map (map_prod id hide_cursor) ts"
    and "\<forall>r \<in> set rows. tr_transcriptCursor r = last_seq s (tr_id r)"
  shows "refines sc now (s\<lparr>ad_tasks := rows\<rparr>) (m\<lparr>st_tasks := ts\<rparr>)"
  using assms(1) assms(2-)
  by (auto simp: refines_def db_ok_def sql_lists last_seq_def store_ops intro: dated_later)

lemma refines_pending:
  assumes "refines sc t s m" and "t \<le> now" and "distinct (map pw_id rows)" and "dated pw_createdAt now rows"
    and "as_map pw_id mapPending rows = ps" and "\<forall>r \<in> set rows. pw_deliveredAt r \<noteq> Some []"
  shows "refines sc now (s\<lparr>ad_pending := rows\<rparr>) (m\<lparr>st_pending := ps\<rparr>)"
  using assms(1) assms(2-)
  by (auto simp: refines_def db_ok_def sql_lists last_seq_def store_ops intro: dated_later)

lemma step_create_agent:
  assumes "refines sc t s m" and "t \<le> now" and "schemas_ok sc" and "op_ok (OpCreateAgent i d) m"
  shows "refines sc now (sql_step sc now (OpCreateAgent i d) s) (mem_step now (OpCreateAgent i d) m)"
proof -
  have fresh: "\<not> list_ex (\<lambda>r. agr_id r = i) (ad_agents s)" and none: "jm_get (st_agents m) i = None"
    using assms fresh_rows(1) by auto
  let ?row = "new_agent_row i d"
  have id: "agr_id ?row = i" by (simp add: new_agent_row_def)
  have "refines sc now (s\<lparr>ad_agents := ad_agents s @ [?row]\<rparr>) (m\<lparr>st_agents := st_agents m @ [(i, new_agent i d)]\<rparr>)"
  proof (rule refines_agents [OF assms(1,2)])
    show "distinct (map agr_id (ad_agents s @ [?row]))"
      using distinct_snoc fresh refinesD(1) [OF assms(1)] id unfolding db_ok_def by metis
    show "as_map agr_id (mapAgent sc) (ad_agents s @ [?row]) = map (map_prod id Inr) (st_agents m @ [(i, new_agent i d)])"
      using refinesD(2) [OF assms(1)] mapAgent_new [OF assms(3)] assms(4) id by (simp add: as_map_snoc)
  qed
  with fresh jm_set_fresh [OF none] show ?thesis
    by (simp add: SqliteAgentRepository_create_def InMemoryAgentRepository_create_def Let_def new_agent_def)
qed

lemma step_delete_agent:
  assumes "refines sc t s m" and "t \<le> now"
  shows "refines sc now (sql_step sc now (OpDeleteAgent i) s) (mem_step now (OpDeleteAgent i) m)"
proof -
  have "refines sc now (s\<lparr>ad_agents := filter (\<lambda>r. agr_id r \<noteq> i) (ad_agents s)\<rparr>)
      (m\<lparr>st_agents := jm_delete (st_agents m) i\<rparr>)"
  proof (rule refines_agents [OF assms])
    show "distinct (map agr_id (filter (\<lambda>r. agr_id r \<noteq> i) (ad_agents s)))"
      using refinesD(1) [OF assms(1)] by (simp add: db_ok_def distinct_map_filter)
    show "as_map agr_id (mapAgent sc) (filter (\<lambda>r. agr_id r \<noteq> i) (ad_agents s))
        = map (map_prod id Inr) (jm_delete (st_agents m) i)"
      using refinesD(2) [OF assms(1)] as_map_delete [of i agr_id "mapAgent sc" "ad_agents s"] by (simp add: map_snd_delete)
  qed
  then show ?thesis by (simp add: SqliteAgentRepository_delete_def InMemoryAgentRepository_delete_def)
qed

lemma step_create_run:
  assumes "refines sc t s m" and "t \<le> now" and "op_ok (OpCreateRun i a inp l) m"
  shows "refines sc now (sql_step sc now (OpCreateRun i a inp l) s) (mem_step now (OpCreateRun i a inp l) m)"
proof -
  have fresh: "\<not> list_ex (\<lambda>r. rr_id r = i) (ad_runs s)" and none: "jm_get (st_runs m) i = None"
    using assms fresh_rows(2) by auto
  let ?row = "\<lparr>rr_id = i, rr_agentId = a, rr_input = inp, rr_status = RunPending,
     rr_parentRunId = Option.bind l lk_parentRunId, rr_agentTaskId = Option.bind l lk_agentTaskId,
     rr_createdAt = now, rr_updatedAt = now, rr_error = None\<rparr>"
  have "refines sc now (s\<lparr>ad_runs := ad_runs s @ [?row]\<rparr>) (m\<lparr>st_runs := st_runs m @ [(i, new_run i now a inp l)]\<rparr>)"
  proof (rule refines_runs [OF assms(1,2)])
    show "distinct (map rr_id (ad_runs s @ [?row]))"
      using distinct_snoc [of rr_id "ad_runs s" ?row] fresh refinesD(1) [OF assms(1)] by (simp add: db_ok_def)
    show "dated rr_createdAt now (ad_runs s @ [?row])"
      using refinesD(1) [OF assms(1)] assms(2) by (intro dated_snoc) (auto simp: db_ok_def)
    show "as_map rr_id mapRun (ad_runs s @ [?row]) = st_runs m @ [(i, new_run i now a inp l)]"
      using refinesD(3) [OF assms(1)] by (simp add: as_map_snoc mapRun_def new_run_def)
  qed
  with fresh jm_set_fresh [OF none] show ?thesis
    by (simp add: SqliteRunRepository_create_def InMemoryRunRepository_create_def Let_def new_run_def)
qed

lemma step_run_status:
  assumes "refines sc t s m" and "t \<le> now"
  shows "refines sc now (sql_step sc now (OpRunStatus i st e) s) (mem_step now (OpRunStatus i st e) m)"
proof (cases "find (\<lambda>r. rr_id r = i) (ad_runs s)")
  case None
  then have "jm_get (st_runs m) i = None"
    using refinesD(3) [OF assms(1)] as_map_get [of rr_id mapRun "ad_runs s" i] by simp
  with None assms show ?thesis
    using refines_runs [OF assms, of "ad_runs s" "st_runs m"] refinesD(1,3) [OF assms(1)]
    by (simp add: SqliteRunRepository_updateStatus_def SqliteRunRepository_get_def InMemoryRunRepository_updateStatus_def
        db_ok_def dated_later [OF _ assms(2)])
next
  case (Some r)
  let ?upd = "\<lambda>x. x\<lparr>rr_status := st, rr_updatedAt := now, rr_error := js_or_opt e (rr_error r)\<rparr>"
  have got: "jm_get (st_runs m) i = Some (mapRun r)"
    using refinesD(3) [OF assms(1)] as_map_get [of rr_id mapRun "ad_runs s" i] Some by simp
  have db: "distinct (map rr_id (ad_runs s))" "dated rr_createdAt t (ad_runs s)"
    using refinesD(1) [OF assms(1)] by (simp_all add: db_ok_def)
  have "refines sc now (s\<lparr>ad_runs := sql_update (\<lambda>r. rr_id r = i) ?upd (ad_runs s)\<rparr>)
      (m\<lparr>st_runs := jm_set (st_runs m) i (mapRun (?upd r))\<rparr>)"
    using db as_map_update [OF db(1) Some, of ?upd mapRun] refinesD(3) [OF assms(1)]
    by (intro refines_runs [OF assms])
      (simp_all add: map_sql_update dated_update dated_later [OF _ assms(2)])
  with Some got show ?thesis
    by (simp add: SqliteRunRepository_updateStatus_def SqliteRunRepository_get_def InMemoryRunRepository_updateStatus_def
        Let_def mapRun_def)
qed

lemma listing_snoc:
  assumes "numbered seq n rows" and "seq r = n + 1"
    and "map_throwing f (sort_key seq (filter P rows)) = Inr ys" and "f r = Inr y"
  shows "map_throwing f (sort_key seq (filter P (rows @ [r]))) = Inr (if P r then ys @ [y] else ys)"
proof -
  have "map_throwing f (filter P rows) = Inr ys" using assms(3) numbered_sort [OF assms(1)] by simp
  moreover have "sort_key seq (filter P (rows @ [r])) = filter P (rows @ [r])"
    by (rule numbered_sort [OF numbered_snoc [of seq n rows r]]) (use assms in auto)
  ultimately show ?thesis using map_throwing_snoc [of f "filter P rows" ys r y] assms(4) by simp
qed

lemma step_append:
  assumes "refines sc t s m" and "t \<le> now" and "schemas_ok sc" and "op_ok (OpAppend i msg) m"
  shows "refines sc now (sql_step sc now (OpAppend i msg) s) (mem_step now (OpAppend i msg) m)"
proof -
  define row where "row = \<lparr>mr_seq = ad_messageSeq s + 1, mr_runId = i, mr_role = message_role msg, mr_content = message_content msg,
     mr_toolCalls = message_toolCalls msg, mr_toolCallId = message_toolCallId msg, mr_insertedAt = now\<rparr>"
  define s' where "s' = s\<lparr>ad_messages := ad_messages s @ [row], ad_messageSeq := ad_messageSeq s + 1\<rparr>"
  have row: "mr_seq row = ad_messageSeq s + 1" "mr_runId row = i" by (simp_all add: row_def)
  have num: "numbered mr_seq (ad_messageSeq s) (ad_messages s)"
    using refinesD(1) [OF assms(1)] by (simp add: db_ok_def)
  have "mapMessage sc row = Inr (norm_message msg)"
    using message_roundtrip [OF assms(3)] assms(4) by (simp add: mapMessage_def row_def)
  note snoc = listing_snoc [where seq = mr_seq and f = "mapMessage sc" and r = row, OF num row(1) _ this]
  have "SqliteMessageRepository_listByRunId sc s' j = Inr (map norm_message (run_messages (run_append m i msg) j))" for j
    using snoc [of "\<lambda>r. mr_runId r = j"] refinesD(7) [OF assms(1), of j] row(2)
    by (auto simp: SqliteMessageRepository_listByRunId_def s'_def store_ops jm_get_set)
  moreover have "numbered mr_seq (ad_messageSeq s + 1) (ad_messages s @ [row])" using numbered_snoc [OF num row(1)] .
  ultimately have "refines sc now s' (run_append m i msg)"
    using assms(1,2)
    by (auto simp: refines_def db_ok_def s'_def last_seq_def store_ops SqliteAgentTaskMessageRepository_listByTaskId_def
        intro: dated_later)
  then show ?thesis by (simp add: SqliteMessageRepository_append_def Let_def s'_def row_def)
qed

lemma hide_cursor_upd:
  "hide_cursor (mapAgentTask (r\<lparr>tr_status := st, tr_updatedAt := now, tr_taskError := e\<rparr>))
     = hide_cursor (mapAgentTask r)\<lparr>tk_status := st, tk_updatedAt := now, tk_error := e\<rparr>"
  "hide_cursor (mapAgentTask (r\<lparr>tr_activeRunId := a, tr_updatedAt := now\<rparr>))
     = hide_cursor (mapAgentTask r)\<lparr>tk_activeRunId := a, tk_updatedAt := now\<rparr>"
  "hide_cursor (mapAgentTask (r\<lparr>tr_transcriptCursor := n, tr_updatedAt := now\<rparr>))
     = hide_cursor (mapAgentTask r)\<lparr>tk_updatedAt := now\<rparr>"
  by (simp_all add: hide_cursor_def mapAgentTask_def)

lemma hide_cursor_mem:
  "hide_cursor (u\<lparr>tk_status := st, tk_updatedAt := now, tk_error := e\<rparr>)
     = hide_cursor u\<lparr>tk_status := st, tk_updatedAt := now, tk_error := e\<rparr>"
  "hide_cursor (u\<lparr>tk_activeRunId := a, tk_updatedAt := now\<rparr>) = hide_cursor u\<lparr>tk_activeRunId := a, tk_updatedAt := now\<rparr>"
  by (simp_all add: hide_cursor_def)

lemma tk_error_hide [simp]: "tk_error (hide_cursor u) = tk_error u" "tk_id (hide_cursor u) = tk_id u"
  by (simp_all add: hide_cursor_def)

lemma task_rows:
  assumes "refines sc t s m"
  shows "find (\<lambda>r. tr_id r = i) (ad_tasks s) = None \<longleftrightarrow> jm_get (st_tasks m) i = None"
    and "find (\<lambda>r. tr_id r = i) (ad_tasks s) = Some r \<Longrightarrow>
      \<exists>u. jm_get (st_tasks m) i = Some u \<and> hide_cursor (mapAgentTask r) = hide_cursor u"
  using refinesD(4) [OF assms, THEN arg_cong, of "\<lambda>x. jm_get x i"]
  by (cases "jm_get (st_tasks m) i"; auto simp: as_map_get map_snd_get)+

text \<open>An update of one task row that keeps the key, the date and the cursor.\<close>

lemma refines_task_update:
  assumes ref: "refines sc t s m" and "t \<le> now" and "find (\<lambda>r. tr_id r = i) (ad_tasks s) = Some r"
    and keep: "\<And>x. tr_id (upd x) = tr_id x" "\<And>x. tr_createdAt (upd x) = tr_createdAt x"
      "\<And>x. tr_transcriptCursor (upd x) = tr_transcriptCursor x"
    and "hide_cursor (mapAgentTask (upd r)) = hide_cursor u'"
  shows "refines sc now (s\<lparr>ad_tasks := sql_update (\<lambda>r. tr_id r = i) upd (ad_tasks s)\<rparr>)
      (m\<lparr>st_tasks := jm_set (st_tasks m) i u'\<rparr>)"
proof (rule refines_tasks [OF assms(1,2)])
  have db: "distinct (map tr_id (ad_tasks s))" "dated tr_createdAt t (ad_tasks s)"
    "\<forall>r \<in> set (ad_tasks s). tr_transcriptCursor r = last_seq s (tr_id r)"
    using refinesD(1) [OF ref] by (simp_all add: db_ok_def)
  show "distinct (map tr_id (sql_update (\<lambda>r. tr_id r = i) upd (ad_tasks s)))" using db(1) keep(1) by (simp add: map_sql_update)
  show "dated tr_createdAt now (sql_update (\<lambda>r. tr_id r = i) upd (ad_tasks s))"
    using db(2) keep(2) by (simp add: dated_update dated_later [OF _ assms(2)])
  show "as_map tr_id (hide_cursor \<circ> mapAgentTask) (sql_update (\<lambda>r. tr_id r = i) upd (ad_tasks s))
      = map (map_prod id hide_cursor) (jm_set (st_tasks m) i u')"
    using as_map_update [OF db(1) assms(3) keep(1), of "hide_cursor \<circ> mapAgentTask"] refinesD(4) [OF ref] assms(7)
    by (simp add: map_snd_set)
  show "\<forall>r \<in> set (sql_update (\<lambda>r. tr_id r = i) upd (ad_tasks s)). tr_transcriptCursor r = last_seq s (tr_id r)"
    using db(3) keep by (auto simp: sql_update_def)
qed

lemma refines_clock:
  assumes "refines sc t s m" and "t \<le> now"
  shows "refines sc now s m"
  using assms by (auto simp: refines_def db_ok_def intro: dated_later)

lemma step_task_status:
  assumes "refines sc t s m" and "t \<le> now"
  shows "refines sc now (sql_step sc now (OpTaskStatus i st e) s) (mem_step now (OpTaskStatus i st e) m)"
proof (cases "find (\<lambda>r. tr_id r = i) (ad_tasks s)")
  case None
  then have "jm_get (st_tasks m) i = None" using task_rows(1) [OF assms(1)] by simp
  with None refines_clock [OF assms] show ?thesis
    by (simp add: SqliteAgentTaskRepository_updateStatus_def SqliteAgentTaskRepository_get_def
        InMemoryAgentTaskRepository_updateStatus_def)
next
  case (Some r)
  then obtain u where u: "jm_get (st_tasks m) i = Some u" "hide_cursor (mapAgentTask r) = hide_cursor u"
    using task_rows(2) [OF assms(1)] by blast
  have err: "tk_error u = tr_taskError r" using u(2) [THEN arg_cong, of tk_error] by (simp add: mapAgentTask_def)
  let ?upd = "\<lambda>x. x\<lparr>tr_status := st, tr_updatedAt := now, tr_taskError := js_or_opt e (tr_taskError r)\<rparr>"
  have "refines sc now (s\<lparr>ad_tasks := sql_update (\<lambda>r. tr_id r = i) ?upd (ad_tasks s)\<rparr>)
      (m\<lparr>st_tasks := jm_set (st_tasks m) i
         (u\<lparr>tk_status := st, tk_updatedAt := now, tk_error := js_or_opt e (tk_error u)\<rparr>)\<rparr>)"
    by (rule refines_task_update [OF assms Some]) (simp_all add: hide_cursor_upd hide_cursor_mem u(2) err)
  with Some u show ?thesis
    by (simp add: SqliteAgentTaskRepository_updateStatus_def SqliteAgentTaskRepository_get_def
        InMemoryAgentTaskRepository_updateStatus_def Let_def mapAgentTask_def)
qed

lemma step_active_run:
  assumes "refines sc t s m" and "t \<le> now"
  shows "refines sc now (sql_step sc now (OpActiveRun i a) s) (mem_step now (OpActiveRun i a) m)"
proof (cases "find (\<lambda>r. tr_id r = i) (ad_tasks s)")
  case None
  then have "jm_get (st_tasks m) i = None" using task_rows(1) [OF assms(1)] by simp
  with None refines_clock [OF assms] show ?thesis
    by (simp add: SqliteAgentTaskRepository_setActiveRun_def SqliteAgentTaskRepository_get_def
        InMemoryAgentTaskRepository_setActiveRun_def)
next
  case (Some r)
  then obtain u where u: "jm_get (st_tasks m) i = Some u" "hide_cursor (mapAgentTask r) = hide_cursor u"
    using task_rows(2) [OF assms(1)] by blast
  have "refines sc now (s\<lparr>ad_tasks := sql_update (\<lambda>r. tr_id r = i) (\<lambda>x. x\<lparr>tr_activeRunId := a, tr_updatedAt := now\<rparr>) (ad_tasks s)\<rparr>)
      (m\<lparr>st_tasks := jm_set (st_tasks m) i (u\<lparr>tk_activeRunId := a, tk_updatedAt := now\<rparr>)\<rparr>)"
    by (rule refines_task_update [OF assms Some]) (simp_all add: hide_cursor_upd hide_cursor_mem u(2))
  with Some u show ?thesis
    by (simp add: SqliteAgentTaskRepository_setActiveRun_def SqliteAgentTaskRepository_get_def
        InMemoryAgentTaskRepository_setActiveRun_def Let_def)
qed

lemma no_entries_last_seq:
  assumes "refines sc t s m" and "transcript_of m i = []"
  shows "last_seq s i = 0"
proof -
  have "map_sum id (map plain_entry) (SqliteAgentTaskMessageRepository_listByTaskId sc s i) = Inr []"
    using refinesD(8) [OF assms(1), of i] assms(2) by simp
  then have empty: "SqliteAgentTaskMessageRepository_listByTaskId sc s i = Inr []"
    by (cases "SqliteAgentTaskMessageRepository_listByTaskId sc s i") auto
  have nil: "xs = []" if "map_throwing f xs = Inr []" for f :: "task_message_row \<Rightarrow> AgentTranscriptEntry result" and xs
    using that by (cases xs) (auto split: sum.splits)
  have "sort_key tm_seq (filter (\<lambda>r. tm_taskId r = i) (ad_taskMessages s)) = []"
    by (rule nil [of "mapEntry sc"]) (use empty in \<open>simp add: SqliteAgentTaskMessageRepository_listByTaskId_def\<close>)
  then have "filter (\<lambda>r. tm_taskId r = i) (ad_taskMessages s) = []"
    by (metis length_0_conv length_sort)
  then show ?thesis unfolding last_seq_def by simp
qed

lemma step_create_task:
  assumes "refines sc t s m" and "t \<le> now" and "op_ok (OpCreateTask i d) m"
  shows "refines sc now (sql_step sc now (OpCreateTask i d) s) (mem_step now (OpCreateTask i d) m)"
proof -
  have fresh: "\<not> list_ex (\<lambda>r. tr_id r = i) (ad_tasks s)" and none: "jm_get (st_tasks m) i = None"
    using assms fresh_rows(3) by auto
  define row where "row = \<lparr>tr_id = i, tr_selectedAgentId = ct_selectedAgentId d, tr_status = TaskPending,
            tr_initialInput = ct_initialInput d, tr_background = js_or (ct_background d) True,
            tr_parentRunId = ct_parentRunId d, tr_parentTaskId = ct_parentTaskId d, tr_activeRunId = None,
            tr_transcriptCursor = 0, tr_metadata = json_stringify (JObj (js_or (ct_metadata d) [])),
            tr_createdAt = now, tr_updatedAt = now, tr_taskError = None\<rparr>"
  have row: "tr_id row = i" "tr_createdAt row = now" "tr_transcriptCursor row = 0" by (simp_all add: row_def)
  have map_row: "mapAgentTask row = new_task i now d"
    using assms(3) metadata_roundtrip [of "js_or (ct_metadata d) []"]
    by (simp add: row_def mapAgentTask_def new_task_def del: json_stringify.simps json_ok.simps)
  have db: "distinct (map tr_id (ad_tasks s))" "dated tr_createdAt t (ad_tasks s)"
    "\<forall>r \<in> set (ad_tasks s). tr_transcriptCursor r = last_seq s (tr_id r)"
    using refinesD(1) [OF assms(1)] by (simp_all add: db_ok_def)
  have "refines sc now (s\<lparr>ad_tasks := ad_tasks s @ [row]\<rparr>) (m\<lparr>st_tasks := st_tasks m @ [(i, new_task i now d)]\<rparr>)"
  proof (rule refines_tasks [OF assms(1,2)])
    show "distinct (map tr_id (ad_tasks s @ [row]))" using distinct_snoc [OF db(1), of row] fresh row by simp
    show "dated tr_createdAt now (ad_tasks s @ [row])" using db(2) assms(2) row by (intro dated_snoc) auto
    show "as_map tr_id (hide_cursor \<circ> mapAgentTask) (ad_tasks s @ [row])
        = map (map_prod id hide_cursor) (st_tasks m @ [(i, new_task i now d)])"
      using refinesD(4) [OF assms(1)] map_row row by (simp add: as_map_snoc)
    show "\<forall>r \<in> set (ad_tasks s @ [row]). tr_transcriptCursor r = last_seq s (tr_id r)"
      using db(3) no_entries_last_seq [OF assms(1)] assms(3) row by simp
  qed
  with fresh jm_set_fresh [OF none] show ?thesis
    by (simp add: SqliteAgentTaskRepository_create_def InMemoryAgentTaskRepository_create_def Let_def row_def
        del: json_stringify.simps)
qed

lemma last_seq_snoc:
  assumes "ad_taskMessages s' = ad_taskMessages s @ [row]"
  shows "last_seq s' i = (if tm_taskId row = i then tm_seq row else last_seq s i)"
  using assms by (simp add: last_seq_def)

lemma transcript_mem:
  assumes "jm_get (st_tasks m) i = Some u"
  shows "fst (transcript_append now m i msg r) =
    m\<lparr>st_transcripts := jm_set (st_transcripts m) i (transcript_of m i @ [snd (transcript_append now m i msg r)]),
      st_tasks := jm_set (st_tasks m) i (u\<lparr>tk_transcript := \<lparr>tx_taskId = tk_id u,
         tx_lastMessageSeq = te_seq (snd (transcript_append now m i msg r))\<rparr>, tk_updatedAt := now\<rparr>)\<rparr>"
  using assms by (simp add: store_ops Let_def)

lemma step_transcript:
  assumes ref: "refines sc t s m" and "t \<le> now" and "schemas_ok sc" and "op_ok (OpTranscript i msg r) m"
  shows "refines sc now (sql_step sc now (OpTranscript i msg r) s) (mem_step now (OpTranscript i msg r) m)"
proof -
  obtain u where u: "jm_get (st_tasks m) i = Some u" using assms(4) by auto
  have ex: "list_ex (\<lambda>r. tr_id r = i) (ad_tasks s)" using fresh_rows(3) [OF ref] u by simp
  define seq where "seq = ad_taskMessageSeq s + 1"
  define row where "row = \<lparr>tm_seq = seq, tm_taskId = i, tm_sourceRunId = r, tm_role = message_role msg,
     tm_content = message_content msg, tm_toolCalls = message_toolCalls msg, tm_toolCallId = message_toolCallId msg,
     tm_insertedAt = now\<rparr>"
  define upd :: "task_row \<Rightarrow> task_row" where "upd = (\<lambda>r. r\<lparr>tr_transcriptCursor := seq, tr_updatedAt := now\<rparr>)"
  define s' where "s' = s\<lparr>ad_taskMessages := ad_taskMessages s @ [row], ad_taskMessageSeq := seq,
     ad_tasks := sql_update (\<lambda>r. tr_id r = i) upd (ad_tasks s)\<rparr>"
  define e where "e = snd (transcript_append now m i msg r)"
  define m' where "m' = fst (transcript_append now m i msg r)"
  have row: "tm_seq row = ad_taskMessageSeq s + 1" "tm_taskId row = i" by (simp_all add: row_def seq_def)
  have db: "distinct (map tr_id (ad_tasks s))" "dated tr_createdAt t (ad_tasks s)"
    "\<forall>r \<in> set (ad_tasks s). tr_transcriptCursor r = last_seq s (tr_id r)"
    "numbered tm_seq (ad_taskMessageSeq s) (ad_taskMessages s)"
    using refinesD(1) [OF ref] by (simp_all add: db_ok_def)
  have entry: "mapEntry sc row = Inr \<lparr>te_seq = seq, te_taskId = i, te_sourceRunId = r, te_message = norm_message msg,
      te_insertedAt = now\<rparr>"
    using message_roundtrip [OF assms(3)] assms(4) by (simp add: mapEntry_def task_mapMessage_def row_def)
  have listing: "map_sum id (map plain_entry) (SqliteAgentTaskMessageRepository_listByTaskId sc s' j)
      = Inr (map plain_entry (transcript_of m' j))" for j
  proof -
    obtain es where es: "SqliteAgentTaskMessageRepository_listByTaskId sc s j = Inr es"
      "map plain_entry es = map plain_entry (transcript_of m j)"
      using refinesD(8) [OF ref, of j] by (cases "SqliteAgentTaskMessageRepository_listByTaskId sc s j") auto
    have "plain_entry \<lparr>te_seq = seq, te_taskId = i, te_sourceRunId = r, te_message = norm_message msg,
        te_insertedAt = now\<rparr> = plain_entry e"
      by (simp add: e_def plain_entry_def store_ops Let_def)
    with es listing_snoc [where seq = tm_seq and f = "mapEntry sc" and r = row, OF db(4) row(1) _ entry, of "\<lambda>r. tm_taskId r = j" es] row(2)
    show ?thesis
      by (simp add: SqliteAgentTaskMessageRepository_listByTaskId_def s'_def m'_def transcript_of_append e_def)
  qed
  obtain q where q: "find (\<lambda>r. tr_id r = i) (ad_tasks s) = Some q" "hide_cursor (mapAgentTask q) = hide_cursor u"
    using task_rows(1) [OF ref, of i] task_rows(2) [OF ref, of i] u by fastforce
  have keep: "\<And>x. tr_id (upd x) = tr_id x" "\<And>x. tr_createdAt (upd x) = tr_createdAt x" by (simp_all add: upd_def)
  have ids: "tk_id u = tr_id q" "tx_taskId (tk_transcript u) = tr_id q"
    using q(2) [THEN arg_cong, of tk_id] q(2) [THEN arg_cong, of "\<lambda>x. tx_taskId (tk_transcript x)"]
    by (simp_all add: hide_cursor_def mapAgentTask_def)
  let ?u = "u\<lparr>tk_transcript := \<lparr>tx_taskId = tk_id u, tx_lastMessageSeq = te_seq e\<rparr>, tk_updatedAt := now\<rparr>"
  have "hide_cursor ?u = (hide_cursor u)\<lparr>tk_updatedAt := now\<rparr>" using ids by (simp add: hide_cursor_def)
  then have hid: "hide_cursor (mapAgentTask (upd q)) = hide_cursor ?u"
    unfolding upd_def hide_cursor_upd(3) q(2) by simp
  have mem: "m' = m\<lparr>st_transcripts := jm_set (st_transcripts m) i (transcript_of m i @ [e]), st_tasks := jm_set (st_tasks m) i ?u\<rparr>"
    using transcript_mem [OF u] by (simp add: m'_def e_def)
  have cursors: "\<forall>r \<in> set (ad_tasks s'). tr_transcriptCursor r = last_seq s' (tr_id r)"
    using db(3) last_seq_snoc [of s' s row] row(1) row(2)
    by (auto simp: s'_def sql_update_def upd_def row_def)
  have tasks: "as_map tr_id (hide_cursor \<circ> mapAgentTask) (ad_tasks s') = map (map_prod id hide_cursor) (st_tasks m')"
    using as_map_update [OF db(1) q(1) keep(1), of "hide_cursor \<circ> mapAgentTask"] refinesD(4) [OF ref] hid
    by (simp add: s'_def mem map_snd_set)
  have "numbered tm_seq seq (ad_taskMessages s @ [row])" using numbered_snoc [OF db(4) row(1)] by (simp add: seq_def)
  moreover have "distinct (map tr_id (ad_tasks s'))" "dated tr_createdAt now (ad_tasks s')"
    using db(1,2) keep by (simp_all add: s'_def map_sql_update dated_update dated_later [OF _ assms(2)])
  ultimately have "db_ok now s'"
    using refinesD(1) [OF ref] cursors assms(2) by (auto simp: db_ok_def s'_def intro: dated_later)
  then have "refines sc now s' m'"
    using refinesD(2,3,5-7) [OF ref] tasks listing
    by (simp add: refines_def) (simp add: s'_def mem SqliteMessageRepository_listByRunId_def InMemoryMessageRepository_listByRunId_def)
  then show ?thesis
    using ex by (simp add: SqliteAgentTaskMessageRepository_append_def Let_def s'_def m'_def row_def upd_def seq_def)
qed

lemma step_enqueue:
  assumes "refines sc t s m" and "t \<le> now" and "op_ok (OpEnqueue i d) m"
  shows "refines sc now (sql_step sc now (OpEnqueue i d) s) (mem_step now (OpEnqueue i d) m)"
proof -
  have fresh: "\<not> list_ex (\<lambda>r. pw_id r = i) (ad_pending s)" and none: "jm_get (st_pending m) i = None"
    and task: "list_ex (\<lambda>r. tr_id r = cp_taskId d) (ad_tasks s)"
    using assms fresh_rows(3,4) by auto
  let ?row = "\<lparr>pw_id = i, pw_taskId = cp_taskId d, pw_role = cp_role d, pw_content = cp_content d,
     pw_createdAt = now, pw_deliveredAt = None\<rparr>"
  have "refines sc now (s\<lparr>ad_pending := ad_pending s @ [?row]\<rparr>) (m\<lparr>st_pending := st_pending m @ [(i, mapPending ?row)]\<rparr>)"
  proof (rule refines_pending [OF assms(1,2)])
    show "distinct (map pw_id (ad_pending s @ [?row]))"
      using distinct_snoc [of pw_id "ad_pending s" ?row] fresh refinesD(1) [OF assms(1)] by (simp add: db_ok_def)
    show "dated pw_createdAt now (ad_pending s @ [?row])"
      using refinesD(1) [OF assms(1)] assms(2) by (intro dated_snoc) (auto simp: db_ok_def)
  qed (use refinesD(5,6) [OF assms(1)] in \<open>simp_all add: as_map_snoc\<close>)
  with fresh task jm_set_fresh [OF none] show ?thesis
    by (simp add: SqliteAgentTaskPendingMessageRepository_enqueue_def
        InMemoryAgentTaskPendingMessageRepository_enqueue_def Let_def mapPending_def)
qed

lemma step_deliver:
  assumes "refines sc t s m" and "t \<le> now" and "now \<noteq> []"
  shows "refines sc now (sql_step sc now (OpDeliver i) s) (mem_step now (OpDeliver i) m)"
proof (cases "find (\<lambda>r. pw_id r = i) (ad_pending s)")
  case None
  then have "jm_get (st_pending m) i = None"
    using refinesD(5) [OF assms(1)] as_map_get [of pw_id mapPending "ad_pending s" i] by simp
  with None refines_clock [OF assms(1,2)] show ?thesis
    by (simp add: SqliteAgentTaskPendingMessageRepository_markDelivered_def
        InMemoryAgentTaskPendingMessageRepository_markDelivered_def)
next
  case (Some r)
  let ?upd = "\<lambda>r. r\<lparr>pw_deliveredAt := Some now\<rparr>"
  have got: "jm_get (st_pending m) i = Some (mapPending r)"
    using refinesD(5) [OF assms(1)] as_map_get [of pw_id mapPending "ad_pending s" i] Some by simp
  have db: "distinct (map pw_id (ad_pending s))" "dated pw_createdAt t (ad_pending s)"
    using refinesD(1) [OF assms(1)] by (simp_all add: db_ok_def)
  have "refines sc now (s\<lparr>ad_pending := sql_update (\<lambda>r. pw_id r = i) ?upd (ad_pending s)\<rparr>)
      (m\<lparr>st_pending := jm_set (st_pending m) i (mapPending (?upd r))\<rparr>)"
  proof (rule refines_pending [OF assms(1,2)])
    show "\<forall>r \<in> set (sql_update (\<lambda>r. pw_id r = i) ?upd (ad_pending s)). pw_deliveredAt r \<noteq> Some []"
      using refinesD(6) [OF assms(1)] assms(3) by (auto simp: sql_update_def)
  qed (use db as_map_update [OF db(1) Some, of ?upd mapPending] refinesD(5) [OF assms(1)] in
      \<open>simp_all add: map_sql_update dated_update dated_later [OF _ assms(2)]\<close>)
  with Some got show ?thesis
    by (simp add: SqliteAgentTaskPendingMessageRepository_markDelivered_def
        InMemoryAgentTaskPendingMessageRepository_markDelivered_def Let_def mapPending_def)
qed

lemma refines_step:
  assumes "refines sc t s m" and "t \<le> now" and "now \<noteq> []" and "schemas_ok sc" and "op_ok op m"
  shows "refines sc now (sql_step sc now op s) (mem_step now op m)"
  using assms
  by (cases op)
    (blast intro: step_create_agent step_delete_agent step_create_run step_run_status step_append step_create_task
      step_task_status step_active_run step_transcript step_enqueue step_deliver)+

section \<open>Properties\<close>

text \<open>
  A history is a list of operations with their times. \<open>history_ok t ops m\<close>: the times never decrease from
  \<open>t\<close> on and each operation is one of the uses the program makes, in the state it meets.
\<close>

fun history_ok :: "timestamp \<Rightarrow> (timestamp \<times> repo_op) list \<Rightarrow> store \<Rightarrow> bool" where
  "history_ok t [] m \<longleftrightarrow> True"
| "history_ok t ((now, op) # ops) m \<longleftrightarrow> t \<le> now \<and> now \<noteq> [] \<and> op_ok op m \<and> history_ok now ops (mem_step now op m)"

definition db_init :: agent_db where
  "db_init = \<lparr>ad_agents = [], ad_runs = [], ad_messages = [], ad_messageSeq = 0, ad_tasks = [],
     ad_taskMessages = [], ad_taskMessageSeq = 0, ad_pending = []\<rparr>"

lemma refines_init: "refines sc [] db_init store_init"
  by (simp add: refines_def db_ok_def db_init_def store_init_def as_map_def numbered_def dated_def sql_lists store_ops)

lemma refines_history:
  assumes "schemas_ok sc"
  shows "refines sc t s m \<Longrightarrow> history_ok t ops m \<Longrightarrow>
    \<exists>t'. refines sc t' (fold (\<lambda>(now, op). sql_step sc now op) ops s) (fold (\<lambda>(now, op). mem_step now op) ops m)"
proof (induction ops arbitrary: t s m)
  case (Cons p ops)
  obtain now op where p: "p = (now, op)" by (cases p)
  with Cons.prems have "refines sc now (sql_step sc now op s) (mem_step now op m)"
    using refines_step [OF _ _ _ assms] by simp
  with Cons.IH Cons.prems p show ?case by simp
qed auto

definition answers_alike :: "storage_schemas \<Rightarrow> agent_db \<Rightarrow> store \<Rightarrow> bool" where
  "answers_alike sc s m \<longleftrightarrow>
     (\<forall>i. SqliteAgentRepository_get sc s i = Inr (InMemoryAgentRepository_get m i))
   \<and> SqliteAgentRepository_list sc s = Inr (InMemoryAgentRepository_list m)
   \<and> (\<forall>i. SqliteRunRepository_get s i = run_get m i)
   \<and> SqliteRunRepository_list s = InMemoryRunRepository_list m
   \<and> (\<forall>i. map_option hide_cursor (SqliteAgentTaskRepository_get s i) = map_option hide_cursor (task_get m i))
   \<and> map hide_cursor (SqliteAgentTaskRepository_list s) = map hide_cursor (InMemoryAgentTaskRepository_list m)
   \<and> (\<forall>i. SqliteAgentTaskPendingMessageRepository_listPendingByTaskId s i = pending_list m i)
   \<and> (\<forall>i. SqliteMessageRepository_listByRunId sc s i = Inr (map norm_message (run_messages m i)))
   \<and> (\<forall>i. map_sum id (map plain_entry) (SqliteAgentTaskMessageRepository_listByTaskId sc s i)
          = Inr (map plain_entry (transcript_of m i)))"

lemma refines_answers:
  assumes ref: "refines sc t s m"
  shows "answers_alike sc s m"
proof -
  have db: "dated rr_createdAt t (ad_runs s)" "dated tr_createdAt t (ad_tasks s)" "dated pw_createdAt t (ad_pending s)"
    using refinesD(1) [OF ref] by (simp_all add: db_ok_def)
  have agents: "SqliteAgentRepository_get sc s i = Inr (InMemoryAgentRepository_get m i)" for i
  proof -
    have "map_option (mapAgent sc) (find (\<lambda>r. agr_id r = i) (ad_agents s)) = map_option Inr (jm_get (st_agents m) i)"
      using as_map_get [of agr_id "mapAgent sc" "ad_agents s" i] refinesD(2) [OF ref] by (simp add: map_snd_get)
    then show ?thesis
      by (cases "jm_get (st_agents m) i")
        (auto simp: SqliteAgentRepository_get_def InMemoryAgentRepository_get_def split: option.splits)
  qed
  have throwing: "map f xs = map Inr ys \<Longrightarrow> map_throwing f xs = Inr ys"
    for f :: "agent_row \<Rightarrow> Agent result" and xs ys
    by (induction xs arbitrary: ys) (auto simp: Cons_eq_map_conv)
  have list: "SqliteAgentRepository_list sc s = Inr (InMemoryAgentRepository_list m)"
    using refinesD(2) [OF ref, THEN arg_cong, of "map snd"]
    by (simp add: SqliteAgentRepository_list_def InMemoryAgentRepository_list_def as_map_values throwing comp_def)
  have runs: "SqliteRunRepository_get s i = run_get m i" "SqliteRunRepository_list s = InMemoryRunRepository_list m" for i
    using refinesD(3) [OF ref, symmetric] dated_sort [OF db(1), of "\<lambda>_. True"]
    by (simp_all add: SqliteRunRepository_get_def InMemoryRunRepository_get_def SqliteRunRepository_list_def
        InMemoryRunRepository_list_def as_map_get as_map_values)
  have tasks: "map_option hide_cursor (SqliteAgentTaskRepository_get s i) = map_option hide_cursor (task_get m i)" for i
    using refinesD(4) [OF ref, THEN arg_cong, of "\<lambda>x. jm_get x i"]
    by (simp add: SqliteAgentTaskRepository_get_def InMemoryAgentTaskRepository_get_def as_map_get map_snd_get
        option.map_comp)
  have tlist: "map hide_cursor (SqliteAgentTaskRepository_list s) = map hide_cursor (InMemoryAgentTaskRepository_list m)"
    using refinesD(4) [OF ref, THEN arg_cong, of "map snd"] dated_sort [OF db(2), of "\<lambda>_. True"]
    by (simp add: SqliteAgentTaskRepository_list_def InMemoryAgentTaskRepository_list_def as_map_values comp_def)
  have pending: "SqliteAgentTaskPendingMessageRepository_listPendingByTaskId s i = pending_list m i" for i
  proof -
    have "filter (\<lambda>p. pn_taskId p = i \<and> \<not> js_truthy (pn_deliveredAt p)) (map mapPending (ad_pending s))
        = map mapPending (filter (\<lambda>r. pw_taskId r = i \<and> pw_deliveredAt r = None) (ad_pending s))"
    proof -
      have "js_truthy (pw_deliveredAt r) \<longleftrightarrow> pw_deliveredAt r \<noteq> None" if "r \<in> set (ad_pending s)" for r
        using refinesD(6) [OF ref] that by (cases "pw_deliveredAt r") auto
      then have "filter (\<lambda>r. pw_taskId r = i \<and> \<not> js_truthy (pw_deliveredAt r)) (ad_pending s)
          = filter (\<lambda>r. pw_taskId r = i \<and> pw_deliveredAt r = None) (ad_pending s)" by (intro filter_cong) auto
      then show ?thesis by (simp add: filter_map comp_def mapPending_def)
    qed
    with refinesD(5) [OF ref, symmetric] dated_sort [OF db(3)] show ?thesis
      by (simp add: SqliteAgentTaskPendingMessageRepository_listPendingByTaskId_def
          InMemoryAgentTaskPendingMessageRepository_listPendingByTaskId_def as_map_values)
  qed
  show ?thesis
    unfolding answers_alike_def using agents list runs tasks tlist pending refinesD(7,8) [OF ref] by simp
qed

text \<open>
  C31. The SQLite repositories implement the in-memory ones. After any history of operations from the empty
  state, every query of agents, runs, run messages, tasks, transcripts and pending messages answers the same
  on both, in the same order, up to the numbering of transcript entries and the presence of an empty
  list of tool calls; nothing that was stored fails to be read back.
\<close>

theorem sqlite_refines_memory:
  assumes "schemas_ok sc" and "history_ok [] ops store_init"
  shows "answers_alike sc (fold (\<lambda>(now, op). sql_step sc now op) ops db_init)
    (fold (\<lambda>(now, op). mem_step now op) ops store_init)"
  using refines_history [OF assms(1) refines_init assms(2)] refines_answers by blast

definition num_arg :: "string \<Rightarrow> json \<Rightarrow> int option" where
  "num_arg k j = (case json_field j k of Some (JNum i) \<Rightarrow> Some i | _ \<Rightarrow> None)"

definition text_arg :: "string \<Rightarrow> json \<Rightarrow> string" where
  "text_arg k j = (case json_field j k of Some (JStr t) \<Rightarrow> t | _ \<Rightarrow> [])"

definition demo_storage_schemas :: storage_schemas where
  "demo_storage_schemas =
     \<lparr>ProviderConfigSchema = (\<lambda>j. Inr \<lparr>pc_provider = text_arg ''provider'' j, pc_model = text_arg ''model'' j,
        pc_temperature = num_arg ''temperature'' j, pc_maxTokens = map_option nat (num_arg ''maxTokens'' j)\<rparr>),
      ToolsSchema = (\<lambda>j. case j of JArr js \<Rightarrow> Inr (map (\<lambda>x. case x of JStr t \<Rightarrow> t | _ \<Rightarrow> []) js) | _ \<Rightarrow> Inl []),
      ToolCallsSchema = (\<lambda>j. case j of
          JArr js \<Rightarrow> Inr (map (\<lambda>x. \<lparr>tc_toolCallId = text_arg ''toolCallId'' x, tc_toolName = text_arg ''toolName'' x,
            tc_args = js_or (json_field x ''args'') JNull\<rparr>) js) | _ \<Rightarrow> Inl [])\<rparr>"

lemma demo_schemas_ok: "schemas_ok demo_storage_schemas"
proof -
  have "ProviderConfigSchema demo_storage_schemas (provider_json p) = Inr p" for p
    by (cases p) (auto simp: demo_storage_schemas_def text_arg_def num_arg_def json_field_def provider_json_def opt_num_def
        split: option.splits)
  moreover have "ToolCallsSchema demo_storage_schemas (JArr (map toolCall_json cs)) = Inr cs" for cs
    by (simp add: demo_storage_schemas_def text_arg_def json_field_def toolCall_json_def comp_def map_idI)
  ultimately show ?thesis
    by (simp add: schemas_ok_def) (simp add: demo_storage_schemas_def comp_def)
qed

definition demo_history :: "(timestamp \<times> repo_op) list" where
  "demo_history =
     [(''1'', OpCreateTask ''t'' \<lparr>ct_selectedAgentId = ''a'', ct_initialInput = ''go'', ct_background = None,
         ct_parentRunId = None, ct_parentTaskId = None, ct_metadata = Some [(''k'', JNum 3)]\<rparr>),
      (''2'', OpCreateTask ''u'' \<lparr>ct_selectedAgentId = ''a'', ct_initialInput = ''go'', ct_background = None,
         ct_parentRunId = None, ct_parentTaskId = None, ct_metadata = None\<rparr>),
      (''3'', OpTranscript ''t'' (UserMessage ''hi'') None),
      (''4'', OpTranscript ''u'' (AssistantMessage (Some ''yes'') (Some [\<lparr>tc_toolCallId = ''c'', tc_toolName = ''echo'',
         tc_args = JObj [(''message'', JStr ''x'')]\<rparr>])) None),
      (''5'', OpTaskStatus ''t'' TaskRunning None)]"

theorem sqlite_refines_memory_witness:
  "answers_alike demo_storage_schemas (fold (\<lambda>(now, op). sql_step demo_storage_schemas now op) demo_history db_init)
    (fold (\<lambda>(now, op). mem_step now op) demo_history store_init)"
proof (rule sqlite_refines_memory [OF demo_schemas_ok])
  show "history_ok [] demo_history store_init" by code_simp
qed

lemma store_ok_step:
  assumes "store_ok m" and "op_ok op m"
  shows "store_ok (mem_step now op m)"
proof (cases op)
  case (OpCreateAgent i d)
  with assms(1) show ?thesis by (simp add: InMemoryAgentRepository_create_def Let_def store_ok_agents)
next
  case (OpDeleteAgent i)
  with assms(1) show ?thesis by (simp add: InMemoryAgentRepository_delete_def store_ok_agents)
qed (use assms in \<open>simp_all add: store_ok_run_create store_ok_run_updateStatus store_ok_run_append store_ok_task_create
      store_ok_task_updateStatus store_ok_task_setActiveRun store_ok_transcript_append store_ok_enqueue store_ok_deliver\<close>)

lemma store_ok_history:
  "store_ok m \<Longrightarrow> history_ok t ops m \<Longrightarrow> store_ok (fold (\<lambda>(now, op). mem_step now op) ops m)"
  by (induction ops arbitrary: t m) (auto simp: store_ok_step)

text \<open>
  The number of a transcript entry is not the same in the two implementations: in memory the entries of
  a task are numbered from 1, and the cursor of a task is the number of its entries; in the database all
  tasks share one counter, so numbers grow strictly but with gaps, and the cursor of a task with few
  entries may be any larger number. In both, the cursor is the number of the task's last entry.
\<close>

theorem transcript_numbers_differ:
  assumes "schemas_ok sc" and "history_ok [] ops store_init"
    and "s = fold (\<lambda>(now, op). sql_step sc now op) ops db_init"
    and "m = fold (\<lambda>(now, op). mem_step now op) ops store_init"
  shows "sorted_wrt (<) (map tm_seq (ad_taskMessages s))
     \<and> (\<forall>i task. SqliteAgentTaskRepository_get s i = Some task \<longrightarrow> tx_lastMessageSeq (tk_transcript task) = last_seq s i)
     \<and> (\<forall>i task. task_get m i = Some task \<longrightarrow>
          tx_lastMessageSeq (tk_transcript task) = length (transcript_of m i)
        \<and> map te_seq (transcript_of m i) = [1..<length (transcript_of m i) + 1])"
proof -
  obtain t where "refines sc t s m" using refines_history [OF assms(1) refines_init assms(2)] assms(3,4) by blast
  then have db: "db_ok t s" by (rule refinesD)
  have ok: "store_ok m" using store_ok_history [OF store_ok_init assms(2)] assms(4) by simp
  have "tx_lastMessageSeq (tk_transcript task) = last_seq s i" if "SqliteAgentTaskRepository_get s i = Some task" for i task
    using db that by (auto simp: SqliteAgentTaskRepository_get_def db_ok_def mapAgentTask_def dest!: find_Some_set)
  moreover have "tx_lastMessageSeq (tk_transcript task) = length (transcript_of m i)
      \<and> map te_seq (transcript_of m i) = [1..<length (transcript_of m i) + 1]" if "task_get m i = Some task" for i task
    using ok that transcript_ok_of [OF ok, of i]
    by (auto simp: store_ok_def InMemoryAgentTaskRepository_get_def transcript_ok_def)
  ultimately show ?thesis using db by (auto simp: db_ok_def numbered_def)
qed

theorem transcript_numbers_differ_witness:
  "let s = fold (\<lambda>(now, op). sql_step demo_storage_schemas now op) demo_history db_init
   in sorted_wrt (<) (map tm_seq (ad_taskMessages s)) \<and> last_seq s ''u'' = 2"
proof -
  have "history_ok [] demo_history store_init" by code_simp
  from transcript_numbers_differ [OF demo_schemas_ok this refl refl]
  have "sorted_wrt (<) (map tm_seq (ad_taskMessages
      (fold (\<lambda>(now, op). sql_step demo_storage_schemas now op) demo_history db_init)))" by blast
  moreover have "last_seq (fold (\<lambda>(now, op). sql_step demo_storage_schemas now op) demo_history db_init) ''u'' = 2"
    by code_simp
  ultimately show ?thesis by (simp add: Let_def)
qed

end
