(* ===== verification/Builtin_Tools.thy ===== *)
theory Builtin_Tools
  imports Permissions Tool_Registry Approvals
begin

text \<open>
  The built-in tools (\<^verbatim>\<open>apps/tool-runner-host/src/builtin-tools.ts\<close>) and the managed shell
  (\<^verbatim>\<open>managed-shell.ts\<close>): five tools registered in the tool registry, three of which touch the file
  system and one of which starts a child process, all of them under the local permission policy.

  The state a tool acts on is a type variable. The functions of \<^verbatim>\<open>node:fs\<close> and
  \<^verbatim>\<open>child_process.spawn\<close> are arguments that take and return that state; \<^verbatim>\<open>spawn\<close> also gives the events
  of the child in the order in which the runtime emits them. The approval callback is an optional
  argument, and the gateway's callback, which puts a request into the approval queue
  (\<^verbatim>\<open>apps/gateway/src/server.ts\<close>), is \<open>gateway_requestApproval\<close>. The input schemas are arguments that
  return the inferred input types.
\<close>

section \<open>Inputs and options\<close>

record WriteTextInput =
  wt_path :: string
  wt_content :: string

record ShellExecInput =
  sx_command :: string
  sx_args :: "string list"
  sx_cwd :: "string option"
  sx_declaredWritePaths :: "string list"
  sx_requiresElevation :: bool

record ManagedShellExecution =
  ms_command :: string
  ms_args :: "string list option"
  ms_cwd :: "string option"
  ms_declaredWritePaths :: "string list option"
  ms_requiresElevation :: "bool option"
  ms_requestedBy :: "string option"

record 'h FileSystemAdapter =
  fsa_readFile :: "'h \<Rightarrow> string \<Rightarrow> string result"
  fsa_writeFile :: "'h \<Rightarrow> string \<Rightarrow> string \<Rightarrow> 'h \<times> unit result"
  fsa_readdir :: "'h \<Rightarrow> string \<Rightarrow> string list result"

text \<open>\<^verbatim>\<open>Partial<FileSystemAdapter>\<close>: every function may be missing.\<close>

record 'h PartialFileSystemAdapter =
  pfs_readFile :: "('h \<Rightarrow> string \<Rightarrow> string result) option"
  pfs_writeFile :: "('h \<Rightarrow> string \<Rightarrow> string \<Rightarrow> 'h \<times> unit result) option"
  pfs_readdir :: "('h \<Rightarrow> string \<Rightarrow> string list result) option"

type_synonym 'h approval_callback = "'h \<Rightarrow> CreateApprovalRequestInput \<Rightarrow> 'h \<times> ident"

record 'h RegisterBuiltinToolsOptions =
  ro_permissions :: "GlobalPermissionsConfig option"
  ro_requestApproval :: "'h approval_callback option"
  ro_fileSystem :: "'h PartialFileSystemAdapter option"

type_synonym 'h outcome_of = "'h \<times> ToolExecutionOutput result"

section \<open>The managed shell\<close>

definition BLOCKED_SHELL_EXECUTABLES :: "string list" where
  "BLOCKED_SHELL_EXECUTABLES = [''cmd'', ''cmd.exe'', ''powershell'', ''powershell.exe'', ''pwsh'', ''pwsh.exe'',
     ''bash'', ''sh'', ''zsh'', ''fish'']"

definition BLOCKED_INLINE_EVAL_FLAGS :: "(string, string list) jsmap" where
  "BLOCKED_INLINE_EVAL_FLAGS =
     [(''node'', [''-e'', ''--eval'']), (''node.exe'', [''-e'', ''--eval'']), (''python'', [''-c'']),
      (''python.exe'', [''-c'']), (''python3'', [''-c'']), (''python3.exe'', [''-c'']), (''ruby'', [''-e'']),
      (''ruby.exe'', [''-e'']), (''perl'', [''-e'']), (''perl.exe'', [''-e''])]"

definition shell_createApprovalResult :: "ident \<Rightarrow> string \<Rightarrow> ToolExecutionOutput" where
  "shell_createApprovalResult i m = OutApproval i m"

definition shell_isAccessDeniedError :: "exn \<Rightarrow> bool" where
  "shell_isAccessDeniedError e \<longleftrightarrow> err_code e = Some ''EPERM'' \<or> err_code e = Some ''EACCES''"

definition normalizeExecutable :: "string \<Rightarrow> string" where
  "normalizeExecutable command = js_toLowerCase (posix_basename command)"

definition validateManagedCommandShape :: "string \<Rightarrow> string list \<Rightarrow> string option" where
  "validateManagedCommandShape command args =
     (let executable = normalizeExecutable command
      in if executable \<in> set BLOCKED_SHELL_EXECUTABLES
         then Some ''Unsupported managed shell command: direct shell interpreters are not allowed.''
         else (case jm_get BLOCKED_INLINE_EVAL_FLAGS executable of
                 None \<Rightarrow> None
               | Some blockedFlags \<Rightarrow>
                   if list_ex (\<lambda>arg. arg \<in> set blockedFlags) args
                   then Some ''Unsupported managed shell command: inline eval flags are not allowed.''
                   else None))"

definition createApprovalTargets :: "ManagedShellExecution \<Rightarrow> string list" where
  "createApprovalTargets i =
     (let declaredTargets = filter (\<lambda>e. js_trim e \<noteq> []) (js_or (ms_declaredWritePaths i) [])
      in if declaredTargets \<noteq> [] then declaredTargets
         else (case ms_cwd i of
                 Some d \<Rightarrow> if d \<noteq> [] \<and> js_trim d \<noteq> [] then [d] else [ms_command i]
               | None \<Rightarrow> [ms_command i]))"

definition requestShellApproval ::
    "'h approval_callback option \<Rightarrow> 'h \<Rightarrow> ManagedShellExecution \<Rightarrow> string \<Rightarrow> 'h outcome_of" where
  "requestShellApproval requestApproval h i why =
     (case requestApproval of
        None \<Rightarrow> (h, Inl (Error why))
      | Some ask \<Rightarrow>
          (let (h', approvalRequestId) = ask h \<lparr>ar_kind = KindShell, ar_action = ''execute'',
                 ar_targetPaths = createApprovalTargets i, ar_reason = why,
                 ar_requestedBy = js_or (ms_requestedBy i) ''tool:shell.exec''\<rparr>
           in (h', Inr (shell_createApprovalResult approvalRequestId why))))"

text \<open>
  The listeners of a child process: its output is collected, and the promise of \<^verbatim>\<open>runCommand\<close> settles
  with the first \<^verbatim>\<open>error\<close> or \<^verbatim>\<open>close\<close> event. A \<^verbatim>\<open>close\<close> event has an exit code or a signal.
\<close>

datatype child_event = ChStdout string | ChStderr string | ChError exn | ChClose "int option" "string option"

record child_run =
  cr_stdout :: string
  cr_stderr :: string
  cr_settled :: "string result option"

definition settle_child :: "string result \<Rightarrow> child_run \<Rightarrow> child_run" where
  "settle_child r s = (if cr_settled s = None then s\<lparr>cr_settled := Some r\<rparr> else s)"

definition code_text :: "int option \<Rightarrow> string" where
  "code_text c = (case c of None \<Rightarrow> ''null'' | Some i \<Rightarrow> show_int i)"

fun child_step :: "child_event \<Rightarrow> child_run \<Rightarrow> child_run" where
  "child_step (ChStdout chunk) s = s\<lparr>cr_stdout := cr_stdout s @ chunk\<rparr>"
| "child_step (ChStderr chunk) s = s\<lparr>cr_stderr := cr_stderr s @ chunk\<rparr>"
| "child_step (ChError e) s = settle_child (Inl e) s"
| "child_step (ChClose code signal) s =
     settle_child
       (if js_truthy signal
        then Inl (Error (''Managed shell command was terminated by signal '' @ js_or signal []))
        else if code \<noteq> Some 0
        then Inl (Error (''Managed shell command exited with code '' @ code_text code
               @ (if js_trim (cr_stderr s) \<noteq> [] then '': '' @ js_trim (cr_stderr s) else [])))
        else Inr (if js_trim (cr_stdout s) \<noteq> [] then js_trim (cr_stdout s) else js_trim (cr_stderr s))) s"

definition child_init :: child_run where
  "child_init = \<lparr>cr_stdout = [], cr_stderr = [], cr_settled = None\<rparr>"

type_synonym 'h spawn_fun = "'h \<Rightarrow> string \<Rightarrow> string list \<Rightarrow> string option \<Rightarrow> 'h \<times> child_event list result"

text \<open>\<^verbatim>\<open>spawn\<close> may throw on an invalid argument, which rejects the promise.\<close>

definition runCommand :: "'h spawn_fun \<Rightarrow> 'h \<Rightarrow> ManagedShellExecution \<Rightarrow> 'h \<times> string result option" where
  "runCommand spawn_child h i =
     (let (h', child) = spawn_child h (ms_command i) (js_or (ms_args i) []) (ms_cwd i)
      in (h', case child of Inl e \<Rightarrow> Some (Inl e) | Inr evs \<Rightarrow> cr_settled (fold child_step evs child_init)))"

text \<open>The second component is \<open>None\<close> when the promise never settles: the child runs for ever.\<close>

definition shell_input :: "GlobalPermissionsConfig \<Rightarrow> ManagedShellExecution \<Rightarrow> EvaluateLocalPermissionInput" where
  "shell_input perms i = \<lparr>permissions = perms, action = ActShell, targetPath = None,
      declaredWritePaths = ms_declaredWritePaths i, requiresElevation = js_or (ms_requiresElevation i) False\<rparr>"

definition shell_decision ::
    "string \<Rightarrow> path_module \<Rightarrow> GlobalPermissionsConfig \<Rightarrow> ManagedShellExecution \<Rightarrow> LocalPermissionDecision" where
  "shell_decision wd w perms i = evaluateLocalPermission wd w (shell_input perms i)"

definition executeManagedShell ::
    "string \<Rightarrow> path_module \<Rightarrow> 'h spawn_fun \<Rightarrow> GlobalPermissionsConfig option \<Rightarrow> 'h approval_callback option
     \<Rightarrow> 'h \<Rightarrow> ManagedShellExecution \<Rightarrow> 'h \<times> ToolExecutionOutput result option" where
  "executeManagedShell wd w spawn_child permissions_opt requestApproval h i =
     (let perms = js_or permissions_opt DEFAULT_GLOBAL_PERMISSIONS
      in if \<not> shell_enabled (shell perms)
         then (h, Some (Inl (Error ''Managed shell execution is disabled in the global permissions config.'')))
         else (case validateManagedCommandShape (ms_command i) (js_or (ms_args i) []) of
                 Some why \<Rightarrow> (h, Some (Inl (Error why)))
               | None \<Rightarrow>
                  (let decision = shell_decision wd w perms i
                   in case outcome decision of
                        Deny \<Rightarrow> (h, Some (Inl (Error (js_or (reason decision)
                           ''Managed shell command violates the local permissions policy.''))))
                      | RequiresApproval \<Rightarrow> map_prod id Some (requestShellApproval requestApproval h i
                           (js_or (reason decision) ''Approval required to execute this managed shell command.''))
                      | Allow \<Rightarrow>
                         (case runCommand spawn_child h i of
                            (h', None) \<Rightarrow> (h', None)
                          | (h', Some (Inr out)) \<Rightarrow> (h', Some (Inr (OutText out)))
                          | (h', Some (Inl e)) \<Rightarrow>
                              if shell_isAccessDeniedError e
                              then map_prod id Some (requestShellApproval requestApproval h' i
                                     ''Approval required to execute this managed shell command.'')
                              else (h', Some (Inl e))))))"

section \<open>The built-in tools\<close>

definition createApprovalResult :: "ident \<Rightarrow> string \<Rightarrow> ToolExecutionOutput" where
  "createApprovalResult i m = OutApproval i m"

definition isAccessDeniedError :: "exn \<Rightarrow> bool" where
  "isAccessDeniedError e \<longleftrightarrow> err_code e = Some ''EPERM'' \<or> err_code e = Some ''EACCES''"

definition requestFilesystemApproval ::
    "'h RegisterBuiltinToolsOptions \<Rightarrow> 'h \<Rightarrow> string \<Rightarrow> string \<Rightarrow> string \<Rightarrow> string \<Rightarrow> 'h outcome_of" where
  "requestFilesystemApproval opts h act target why requestedBy =
     (case ro_requestApproval opts of
        None \<Rightarrow> (h, Inl (Error why))
      | Some ask \<Rightarrow>
          (let (h', approvalRequestId) = ask h \<lparr>ar_kind = KindFilesystem, ar_action = act,
                 ar_targetPaths = [target], ar_reason = why, ar_requestedBy = requestedBy\<rparr>
           in (h', Inr (createApprovalResult approvalRequestId why))))"

definition builtin_fileSystem ::
    "'h FileSystemAdapter \<Rightarrow> 'h RegisterBuiltinToolsOptions \<Rightarrow> 'h FileSystemAdapter" where
  "builtin_fileSystem node opts =
     \<lparr>fsa_readFile = js_or (Option.bind (ro_fileSystem opts) pfs_readFile) (fsa_readFile node),
      fsa_writeFile = js_or (Option.bind (ro_fileSystem opts) pfs_writeFile) (fsa_writeFile node),
      fsa_readdir = js_or (Option.bind (ro_fileSystem opts) pfs_readdir) (fsa_readdir node)\<rparr>"

definition echo_tool :: "'h \<Rightarrow> string \<Rightarrow> 'h outcome_of" where
  "echo_tool h msg = (h, Inr (OutText msg))"

definition read_text_tool ::
    "'h FileSystemAdapter \<Rightarrow> 'h RegisterBuiltinToolsOptions \<Rightarrow> 'h \<Rightarrow> string \<Rightarrow> 'h outcome_of" where
  "read_text_tool fileSystem opts h path =
     (case fsa_readFile fileSystem h path of
        Inr text \<Rightarrow> (h, Inr (OutText text))
      | Inl e \<Rightarrow>
          if isAccessDeniedError e
          then requestFilesystemApproval opts h ''read'' path ''Approval required to access this path.''
                 ''tool:fs.read_text''
          else (h, Inl e))"

definition read_dir_tool ::
    "'h FileSystemAdapter \<Rightarrow> 'h RegisterBuiltinToolsOptions \<Rightarrow> 'h \<Rightarrow> string \<Rightarrow> 'h outcome_of" where
  "read_dir_tool fileSystem opts h path =
     (case fsa_readdir fileSystem h path of
        Inr entries \<Rightarrow> (h, Inr (OutText (json_stringify (JArr (map JStr entries)))))
      | Inl e \<Rightarrow>
          if isAccessDeniedError e
          then requestFilesystemApproval opts h ''read'' path ''Approval required to access this directory.''
                 ''tool:fs.read_dir''
          else (h, Inl e))"

definition write_input :: "GlobalPermissionsConfig \<Rightarrow> string \<Rightarrow> EvaluateLocalPermissionInput" where
  "write_input perms path = \<lparr>permissions = perms, action = ActWrite, targetPath = Some path,
     declaredWritePaths = None, requiresElevation = False\<rparr>"

definition write_text_tool ::
    "string \<Rightarrow> path_module \<Rightarrow> 'h FileSystemAdapter \<Rightarrow> GlobalPermissionsConfig \<Rightarrow> 'h RegisterBuiltinToolsOptions
     \<Rightarrow> 'h \<Rightarrow> WriteTextInput \<Rightarrow> 'h outcome_of" where
  "write_text_tool wd w fileSystem perms opts h args =
     (let decision = evaluateLocalPermission wd w (write_input perms (wt_path args))
      in case outcome decision of
           Deny \<Rightarrow> (h, Inl (Error (js_or (reason decision) ''Target path is outside the configured write allowlist.'')))
         | RequiresApproval \<Rightarrow> requestFilesystemApproval opts h ''write'' (wt_path args)
             (js_or (reason decision) ''Approval required to write to this path.'') ''tool:fs.write_text''
         | Allow \<Rightarrow>
             (case fsa_writeFile fileSystem h (wt_path args) (wt_content args) of
                (h', Inr _) \<Rightarrow> (h', Inr (OutText (''Wrote '' @ wt_path args)))
              | (h', Inl e) \<Rightarrow>
                  if isAccessDeniedError e
                  then requestFilesystemApproval opts h' ''write'' (wt_path args)
                         ''Approval required to access this path.'' ''tool:fs.write_text''
                  else (h', Inl e)))"

definition shell_exec_tool ::
    "string \<Rightarrow> path_module \<Rightarrow> 'h spawn_fun \<Rightarrow> GlobalPermissionsConfig \<Rightarrow> 'h RegisterBuiltinToolsOptions
     \<Rightarrow> 'h \<Rightarrow> ShellExecInput \<Rightarrow> 'h \<times> ToolExecutionOutput result option" where
  "shell_exec_tool wd w spawn_child perms opts h args =
     executeManagedShell wd w spawn_child (Some perms) (ro_requestApproval opts) h
       \<lparr>ms_command = sx_command args, ms_args = Some (sx_args args), ms_cwd = sx_cwd args,
        ms_declaredWritePaths = Some (sx_declaredWritePaths args),
        ms_requiresElevation = Some (sx_requiresElevation args), ms_requestedBy = Some ''tool:shell.exec''\<rparr>"

text \<open>
  Registration. The schemas return the inferred input; the registry hands a handler the JSON value of
  it. A handler runs in the state its call meets, which the call identifier stands for, and settles
  after \<open>dur\<close> milliseconds if it settles.
\<close>

record builtin_schemas =
  EchoInputSchema :: "json \<Rightarrow> issue list + string"
  ReadTextInputSchema :: "json \<Rightarrow> issue list + string"
  ReadDirInputSchema :: "json \<Rightarrow> issue list + string"
  WriteTextInputSchema :: "json \<Rightarrow> issue list + WriteTextInput"
  ShellExecInputSchema :: "json \<Rightarrow> issue list + ShellExecInput"

definition str_arg :: "string \<Rightarrow> json \<Rightarrow> string" where
  "str_arg n j = (case json_field j n of Some (JStr s) \<Rightarrow> s | _ \<Rightarrow> [])"

definition json_str :: "json \<Rightarrow> string" where
  "json_str j = (case j of JStr s \<Rightarrow> s | _ \<Rightarrow> [])"

definition strs_arg :: "string \<Rightarrow> json \<Rightarrow> string list" where
  "strs_arg n j = (case json_field j n of Some (JArr js) \<Rightarrow> map json_str js | _ \<Rightarrow> [])"

definition one_arg :: "string \<Rightarrow> string \<Rightarrow> json" where
  "one_arg n v = JObj [(n, JStr v)]"

definition write_args :: "WriteTextInput \<Rightarrow> json" where
  "write_args a = JObj [(''path'', JStr (wt_path a)), (''content'', JStr (wt_content a))]"

definition write_of :: "json \<Rightarrow> WriteTextInput" where
  "write_of j = \<lparr>wt_path = str_arg ''path'' j, wt_content = str_arg ''content'' j\<rparr>"

definition shell_args :: "ShellExecInput \<Rightarrow> json" where
  "shell_args a = JObj ([(''command'', JStr (sx_command a)), (''args'', JArr (map JStr (sx_args a)))]
     @ (case sx_cwd a of None \<Rightarrow> [] | Some d \<Rightarrow> [(''cwd'', JStr d)])
     @ [(''declaredWritePaths'', JArr (map JStr (sx_declaredWritePaths a))),
        (''requiresElevation'', JBool (sx_requiresElevation a))])"

definition shell_of :: "json \<Rightarrow> ShellExecInput" where
  "shell_of j = \<lparr>sx_command = str_arg ''command'' j, sx_args = strs_arg ''args'' j,
     sx_cwd = (case json_field j ''cwd'' of Some (JStr d) \<Rightarrow> Some d | _ \<Rightarrow> None),
     sx_declaredWritePaths = strs_arg ''declaredWritePaths'' j,
     sx_requiresElevation = (json_field j ''requiresElevation'' = Some (JBool True))\<rparr>"

definition builtin_tool ::
    "string \<Rightarrow> string \<Rightarrow> schema \<Rightarrow> bool \<Rightarrow> (ident \<Rightarrow> json \<Rightarrow> settled) \<Rightarrow> ToolHandler" where
  "builtin_tool n descr sch safe run =
     \<lparr>th_definition = \<lparr>td_name = n, td_description = descr, td_inputSchema = sch, td_sandbox = None,
        td_concurrency = (if safe then Some \<lparr>cc_safe = True, cc_cancelSiblingsOnFailure = None\<rparr> else None)\<rparr>,
      th_execute = run\<rparr>"

definition builtin_tools ::
    "builtin_schemas \<Rightarrow> string \<Rightarrow> path_module \<Rightarrow> 'h FileSystemAdapter \<Rightarrow> 'h spawn_fun
     \<Rightarrow> 'h RegisterBuiltinToolsOptions \<Rightarrow> (ident \<Rightarrow> 'h) \<Rightarrow> (ident \<Rightarrow> nat) \<Rightarrow> ToolHandler list" where
  "builtin_tools sc wd w node spawn_child opts st dur =
     (let perms = js_or (ro_permissions opts) DEFAULT_GLOBAL_PERMISSIONS;
          fileSystem = builtin_fileSystem node opts;
          timed = (\<lambda>cid out. Some (dur cid, out))
      in [builtin_tool ''echo'' ''Returns the input message as-is. Useful for testing.''
            (map_sum id (one_arg ''message'') \<circ> EchoInputSchema sc) True
            (\<lambda>cid a. timed cid (snd (echo_tool (st cid) (str_arg ''message'' a)))),
          builtin_tool ''fs.read_text'' ''Reads a UTF-8 text file from the local filesystem.''
            (map_sum id (one_arg ''path'') \<circ> ReadTextInputSchema sc) True
            (\<lambda>cid a. timed cid (snd (read_text_tool fileSystem opts (st cid) (str_arg ''path'' a)))),
          builtin_tool ''fs.read_dir'' ''Lists entries in a local directory.''
            (map_sum id (one_arg ''path'') \<circ> ReadDirInputSchema sc) True
            (\<lambda>cid a. timed cid (snd (read_dir_tool fileSystem opts (st cid) (str_arg ''path'' a)))),
          builtin_tool ''fs.write_text'' ''Writes a UTF-8 text file to the local filesystem.''
            (map_sum id write_args \<circ> WriteTextInputSchema sc) False
            (\<lambda>cid a. timed cid (snd (write_text_tool wd w fileSystem perms opts (st cid) (write_of a)))),
          builtin_tool ''shell.exec''
            ''Runs a managed local command with read-only defaults and declared write targets.''
            (map_sum id shell_args \<circ> ShellExecInputSchema sc) False
            (\<lambda>cid a. map_option (Pair (dur cid))
                (snd (shell_exec_tool wd w spawn_child perms opts (st cid) (shell_of a))))])"

text \<open>Tools are registered one after the other; the first refusal is thrown and keeps the earlier ones.\<close>

fun register_all :: "ToolRegistry \<Rightarrow> ToolHandler list \<Rightarrow> ToolRegistry \<times> unit result" where
  "register_all reg [] = (reg, Inr ())"
| "register_all reg (h # hs) =
     (case register reg h of Inl e \<Rightarrow> (reg, Inl e) | Inr reg' \<Rightarrow> register_all reg' hs)"

definition registerBuiltinTools ::
    "builtin_schemas \<Rightarrow> string \<Rightarrow> path_module \<Rightarrow> 'h FileSystemAdapter \<Rightarrow> 'h spawn_fun \<Rightarrow> (ident \<Rightarrow> 'h)
     \<Rightarrow> (ident \<Rightarrow> nat) \<Rightarrow> ToolRegistry \<Rightarrow> 'h RegisterBuiltinToolsOptions \<Rightarrow> ToolRegistry \<times> unit result" where
  "registerBuiltinTools sc wd w node spawn_child st dur reg opts =
     register_all reg (builtin_tools sc wd w node spawn_child opts st dur)"

section \<open>The gateway's state\<close>

text \<open>
  The tools of the gateway act on the machine, of which \<open>gh_files\<close> is the part the file functions and
  child processes change, and on the gateway's approval queue.
\<close>

record 'w gateway_host =
  gh_files :: 'w
  gh_queue :: approval_queue

definition gateway_requestApproval :: "ident \<Rightarrow> timestamp \<Rightarrow> ('w gateway_host) approval_callback" where
  "gateway_requestApproval uuid now h r =
     (let (q, created) = ApprovalQueue_create uuid now (gh_queue h) r in (h\<lparr>gh_queue := q\<rparr>, ap_id created))"

definition gateway_options ::
    "GlobalPermissionsConfig \<Rightarrow> ident \<Rightarrow> timestamp \<Rightarrow> ('w gateway_host) RegisterBuiltinToolsOptions" where
  "gateway_options perms uuid now =
     \<lparr>ro_permissions = Some perms, ro_requestApproval = Some (gateway_requestApproval uuid now),
      ro_fileSystem = None\<rparr>"

definition on_machine :: "('w \<Rightarrow> 'w \<times> 'a) \<Rightarrow> 'w gateway_host \<Rightarrow> 'w gateway_host \<times> 'a" where
  "on_machine f h = (let (w', r) = f (gh_files h) in (h\<lparr>gh_files := w'\<rparr>, r))"

definition machine_fs :: "'w FileSystemAdapter \<Rightarrow> ('w gateway_host) FileSystemAdapter" where
  "machine_fs node = \<lparr>fsa_readFile = fsa_readFile node \<circ> gh_files,
     fsa_writeFile = (\<lambda>h p c. on_machine (\<lambda>w. fsa_writeFile node w p c) h),
     fsa_readdir = fsa_readdir node \<circ> gh_files\<rparr>"

definition machine_spawn :: "'w spawn_fun \<Rightarrow> ('w gateway_host) spawn_fun" where
  "machine_spawn sp = (\<lambda>h c as d. on_machine (\<lambda>w. sp w c as d) h)"

section \<open>What the tools rely on of the approval callback\<close>

text \<open>
  A callback that asks for consent changes nothing of the files and processes a tool acts on. Under
  this contract a tool changes them only where the policy allowed it to.
\<close>

definition shell_gate :: "string \<Rightarrow> path_module \<Rightarrow> GlobalPermissionsConfig \<Rightarrow> ManagedShellExecution \<Rightarrow> bool" where
  "shell_gate wd w perms i \<longleftrightarrow> shell_enabled (shell perms)
     \<and> validateManagedCommandShape (ms_command i) (js_or (ms_args i) []) = None
     \<and> outcome (shell_decision wd w perms i) = Allow"

locale approval_host =
  fixes files :: "'h \<Rightarrow> 'w" and ask :: "'h approval_callback"
  assumes ask_files: "files (fst (ask h r)) = files h"
begin

lemma fs_request_files:
  "ro_requestApproval opts = Some ask \<Longrightarrow> files (fst (requestFilesystemApproval opts h a t y b)) = files h"
  using ask_files [of h] by (auto simp: requestFilesystemApproval_def case_prod_unfold Let_def)

lemma shell_request_files: "files (fst (requestShellApproval (Some ask) h i y)) = files h"
  using ask_files [of h] by (auto simp: requestShellApproval_def case_prod_unfold Let_def)

lemma read_keeps_files:
  assumes "ro_requestApproval opts = Some ask"
  shows "files (fst (read_text_tool fs opts h p)) = files h"
    and "files (fst (read_dir_tool fs opts h p)) = files h"
  using fs_request_files [OF assms]
  by (auto simp: read_text_tool_def read_dir_tool_def split: sum.splits)

lemma write_changes:
  assumes "ro_requestApproval opts = Some ask"
  shows "files (fst (write_text_tool wd w fs perms opts h a)) =
    (if outcome (evaluateLocalPermission wd w (write_input perms (wt_path a))) = Allow
     then files (fst (fsa_writeFile fs h (wt_path a) (wt_content a))) else files h)"
  using fs_request_files [OF assms]
  by (auto simp: write_text_tool_def Let_def split: LocalPermissionOutcome.splits sum.splits prod.splits)

lemma shell_changes:
  "files (fst (executeManagedShell wd w sp p (Some ask) h i)) =
    (if shell_gate wd w (js_or p DEFAULT_GLOBAL_PERMISSIONS) i
     then files (fst (sp h (ms_command i) (js_or (ms_args i) []) (ms_cwd i))) else files h)"
  using shell_request_files
  by (auto simp: executeManagedShell_def Let_def shell_gate_def runCommand_def fst_map_prod
      split: LocalPermissionOutcome.splits sum.splits prod.splits option.splits)

end

interpretation gw: approval_host gh_files "gateway_requestApproval uuid now" for uuid now
  by unfold_locales (simp add: gateway_requestApproval_def case_prod_unfold Let_def)

lemma machine_fs_sel [simp]:
  "fsa_readFile (machine_fs node) h = fsa_readFile node (gh_files h)"
  "fst (fsa_writeFile (machine_fs node) h p c) = h\<lparr>gh_files := fst (fsa_writeFile node (gh_files h) p c)\<rparr>"
  "snd (fsa_writeFile (machine_fs node) h p c) = snd (fsa_writeFile node (gh_files h) p c)"
  "fsa_readdir (machine_fs node) h = fsa_readdir node (gh_files h)"
  by (simp_all add: machine_fs_def on_machine_def case_prod_unfold Let_def)

lemma machine_spawn_sel [simp]:
  "fst (machine_spawn sp h c as d) = h\<lparr>gh_files := fst (sp (gh_files h) c as d)\<rparr>"
  "snd (machine_spawn sp h c as d) = snd (sp (gh_files h) c as d)"
  by (simp_all add: machine_spawn_def on_machine_def case_prod_unfold Let_def)

lemma gateway_options_sel [simp]:
  "ro_requestApproval (gateway_options perms uuid now) = Some (gateway_requestApproval uuid now)"
  "ro_permissions (gateway_options perms uuid now) = Some perms"
  "ro_fileSystem (gateway_options perms uuid now) = None"
  by (simp_all add: gateway_options_def)

text \<open>What the gateway's callback does to the queue: one pending request under the fresh identifier.\<close>

lemma gateway_request:
  "gateway_requestApproval uuid now h r =
    (h\<lparr>gh_queue := jm_set (gh_queue h) uuid (snd (ApprovalQueue_create uuid now (gh_queue h) r))\<rparr>, uuid)"
  by (simp add: gateway_requestApproval_def ApprovalQueue_create_def Let_def)

lemma gateway_fs_request:
  "\<exists>r. requestFilesystemApproval (gateway_options perms uuid now) h act p why who
        = (h\<lparr>gh_queue := jm_set (gh_queue h) uuid r\<rparr>, Inr (OutApproval uuid why))
    \<and> ap_status r = ApprovalPending \<and> ap_kind r = KindFilesystem \<and> ap_action r = act
    \<and> ap_targetPaths r = [p] \<and> ap_reason r = why"
  by (simp add: requestFilesystemApproval_def gateway_request createApprovalResult_def ApprovalQueue_create_def Let_def)
    (intro exI conjI, rule refl, simp_all)

lemma gateway_shell_request:
  "\<exists>r. requestShellApproval (Some (gateway_requestApproval uuid now)) h i why
        = (h\<lparr>gh_queue := jm_set (gh_queue h) uuid r\<rparr>, Inr (OutApproval uuid why))
    \<and> ap_status r = ApprovalPending \<and> ap_kind r = KindShell \<and> ap_targetPaths r = createApprovalTargets i
    \<and> ap_reason r = why"
  by (simp add: requestShellApproval_def gateway_request shell_createApprovalResult_def ApprovalQueue_create_def Let_def)
    (intro exI conjI, rule refl, simp_all)

lemma write_never_waits: "outcome (evaluateLocalPermission wd w (write_input perms p)) \<noteq> RequiresApproval"
  by (simp add: evaluateLocalPermission_def write_input_def isMutatingAction_def Let_def)

definition inside_roots :: "string \<Rightarrow> GlobalPermissionsConfig \<Rightarrow> string \<Rightarrow> bool" where
  "inside_roots wd perms p \<longleftrightarrow>
     (\<exists>root \<in> set (writeAllowedPaths (filesystem perms)).
        segments_inside (posix_segments wd root) (posix_segments wd p))"

lemma write_allowed_iff:
  assumes "input_style (write_input perms p) = Posix" and "\<not> allowAllWrites (filesystem perms)" and "p \<noteq> []"
  shows "outcome (evaluateLocalPermission wd w (write_input perms p)) = Allow \<longleftrightarrow> inside_roots wd perms p"
  using assms allow_mutation_iff [of "write_input perms p" wd w] by (simp add: inside_roots_def write_input_def)

definition shell_allowed :: "string \<Rightarrow> GlobalPermissionsConfig \<Rightarrow> ManagedShellExecution \<Rightarrow> bool" where
  "shell_allowed wd perms i \<longleftrightarrow> shell_enabled (shell perms)
     \<and> normalizeExecutable (ms_command i) \<notin> set BLOCKED_SHELL_EXECUTABLES
     \<and> (\<forall>flags. jm_get BLOCKED_INLINE_EVAL_FLAGS (normalizeExecutable (ms_command i)) = Some flags \<longrightarrow>
          set (js_or (ms_args i) []) \<inter> set flags = {})
     \<and> \<not> js_or (ms_requiresElevation i) False
     \<and> (allowAllWrites (filesystem perms) \<or>
          (\<forall>p \<in> set (js_or (ms_declaredWritePaths i) []). inside_roots wd perms p))"

definition gateway_shell ::
    "string \<Rightarrow> path_module \<Rightarrow> 'w spawn_fun \<Rightarrow> GlobalPermissionsConfig \<Rightarrow> ident \<Rightarrow> timestamp \<Rightarrow> 'w gateway_host
     \<Rightarrow> ManagedShellExecution \<Rightarrow> 'w gateway_host \<times> ToolExecutionOutput result option" where
  "gateway_shell wd w sp perms uuid now h i =
     executeManagedShell wd w (machine_spawn sp) (Some perms) (Some (gateway_requestApproval uuid now)) h i"

lemma shell_shape_iff:
  "validateManagedCommandShape c as = None \<longleftrightarrow>
     normalizeExecutable c \<notin> set BLOCKED_SHELL_EXECUTABLES
   \<and> (\<forall>flags. jm_get BLOCKED_INLINE_EVAL_FLAGS (normalizeExecutable c) = Some flags \<longrightarrow> set as \<inter> set flags = {})"
  unfolding validateManagedCommandShape_def Let_def by (auto simp: list_ex_iff split: option.splits)

lemma shell_gate_iff:
  assumes "input_style (shell_input perms i) = Posix"
  shows "shell_gate wd w perms i \<longleftrightarrow> shell_allowed wd perms i"
  using allow_shell_iff [OF _ assms, of wd w]
  unfolding shell_gate_def shell_allowed_def shell_shape_iff shell_decision_def inside_roots_def
  by (auto simp: shell_input_def)

lemma shell_waits_iff:
  "outcome (shell_decision wd w perms i) = RequiresApproval \<longrightarrow> js_or (ms_requiresElevation i) False"
  by (simp add: shell_decision_def shell_input_def evaluateLocalPermission_def Let_def)

lemma shell_refused:
  assumes "\<not> shell_gate wd w perms i"
  shows "gateway_shell wd w sp perms uuid now h i = gateway_shell wd w sp' perms uuid now h i
     \<and> gh_files (fst (gateway_shell wd w sp perms uuid now h i)) = gh_files h
     \<and> ((\<exists>e. gateway_shell wd w sp perms uuid now h i = (h, Some (Inl e)))
        \<or> js_or (ms_requiresElevation i) False
          \<and> (\<exists>r. ap_status r = ApprovalPending \<and> ap_kind r = KindShell
               \<and> ap_targetPaths r = createApprovalTargets i
               \<and> gateway_shell wd w sp perms uuid now h i
                 = (h\<lparr>gh_queue := jm_set (gh_queue h) uuid r\<rparr>, Some (Inr (OutApproval uuid (ap_reason r))))))"
proof -
  let ?d = "shell_decision wd w perms i"
  let ?why = "js_or (reason ?d) ''Approval required to execute this managed shell command.''"
  obtain r where r: "requestShellApproval (Some (gateway_requestApproval uuid now)) h i ?why
        = (h\<lparr>gh_queue := jm_set (gh_queue h) uuid r\<rparr>, Inr (OutApproval uuid ?why))"
      "ap_status r = ApprovalPending" "ap_kind r = KindShell" "ap_targetPaths r = createApprovalTargets i"
      "ap_reason r = ?why"
    using gateway_shell_request by blast
  let ?h = "h\<lparr>gh_queue := jm_set (gh_queue h) uuid r\<rparr>"
  let ?v = "validateManagedCommandShape (ms_command i) (js_or (ms_args i) [])"
  note sh = gateway_shell_def executeManagedShell_def
  consider (disabled) "\<not> shell_enabled (shell perms)"
    | (shape) why where "shell_enabled (shell perms)" "?v = Some why"
    | (deny) "outcome ?d = Deny" "shell_enabled (shell perms)" "?v = None"
    | (waits) "outcome ?d = RequiresApproval" "shell_enabled (shell perms)" "?v = None"
    using assms by (cases "outcome ?d"; cases ?v) (auto simp: shell_gate_def)
  then show ?thesis
  proof cases
    case disabled
    then show ?thesis by (simp add: sh)
  next
    case shape
    then show ?thesis by (simp add: sh)
  next
    case deny
    then show ?thesis by (simp add: sh)
  next
    case waits
    then have "gateway_shell wd w sp perms uuid now h i = (?h, Some (Inr (OutApproval uuid (ap_reason r))))" for sp
      using r(1,5) by (simp add: gateway_shell_def executeManagedShell_def)
    with r(2-4) waits(1) shell_waits_iff [of wd w perms i] show ?thesis by auto
  qed
qed

section \<open>Properties\<close>


definition demo_perms :: GlobalPermissionsConfig where
  "demo_perms = permissions (demo_write [])"

definition demo_node :: "string list FileSystemAdapter" where
  \<comment> \<open>A machine that remembers the paths written to and refuses access to one of them.\<close>
  "demo_node = \<lparr>fsa_readFile = (\<lambda>w p. Inr p),
     fsa_writeFile = (\<lambda>w p c. if p = ''/srv/data/locked'' then (w, Inl ((Error ''EACCES'')\<lparr>err_code := Some ''EACCES''\<rparr>))
        else (p # w, Inr ())),
     fsa_readdir = (\<lambda>w p. Inr w)\<rparr>"


text \<open>
  C4. The managed shell is gated. A process is started, and anything on the machine changed, only when the
  shell is enabled, the executable is no blocked interpreter and carries no blocked inline-evaluation flag,
  elevation was not requested, and every declared write path is inside a configured root (or every write is
  allowed). Otherwise the outcome does not depend on what the process would have done, and it is an error
  or, when elevation was requested, one pending approval request.
\<close>

theorem shell_exec_gated:
  assumes "input_style (shell_input perms i) = Posix"
  shows "if shell_allowed wd perms i
    then gh_files (fst (gateway_shell wd w sp perms uuid now h i))
           = fst (sp (gh_files h) (ms_command i) (js_or (ms_args i) []) (ms_cwd i))
    else gh_files (fst (gateway_shell wd w sp perms uuid now h i)) = gh_files h
       \<and> gateway_shell wd w sp perms uuid now h i = gateway_shell wd w sp' perms uuid now h i
       \<and> ((\<exists>e. gateway_shell wd w sp perms uuid now h i = (h, Some (Inl e)))
          \<or> js_or (ms_requiresElevation i) False
            \<and> (\<exists>r. ap_status r = ApprovalPending \<and> ap_kind r = KindShell
                 \<and> ap_targetPaths r = createApprovalTargets i
                 \<and> gateway_shell wd w sp perms uuid now h i
                   = (h\<lparr>gh_queue := jm_set (gh_queue h) uuid r\<rparr>, Some (Inr (OutApproval uuid (ap_reason r))))))"
proof (cases "shell_allowed wd perms i")
  case True
  with shell_gate_iff [OF assms] gw.shell_changes [of wd w "machine_spawn sp" "Some perms" uuid now h i]
  show ?thesis by (simp add: gateway_shell_def)
next
  case False
  then have "\<not> shell_gate wd w perms i" using shell_gate_iff [OF assms] by simp
  from shell_refused [OF this, of sp uuid now h sp'] show ?thesis
    unfolding if_not_P [OF False] by (elim conjE) (intro conjI)
qed

definition demo_exec :: "string \<Rightarrow> string list \<Rightarrow> ManagedShellExecution" where
  "demo_exec c as = \<lparr>ms_command = c, ms_args = Some as, ms_cwd = None, ms_declaredWritePaths = Some [''/srv/data/out''],
     ms_requiresElevation = Some False, ms_requestedBy = None\<rparr>"

definition demo_child :: "string list spawn_fun" where
  "demo_child w c as d = (c # w, Inr [ChStderr ''warn'', ChStdout ''done '', ChClose (Some 0) None])"

theorem shell_exec_gated_witness:
  "gh_files (fst (gateway_shell ''home'' (posix_module ''/'') demo_child demo_perms ''u'' ''now''
      \<lparr>gh_files = [], gh_queue = []\<rparr> (demo_exec ''git'' [''status'']))) = [''git'']
   \<and> gh_files (fst (gateway_shell ''home'' (posix_module ''/'') demo_child demo_perms ''u'' ''now''
      \<lparr>gh_files = [], gh_queue = []\<rparr> (demo_exec ''/usr/bin/Python3'' [''-c'', ''1'']))) = []"
proof -
  have style: "input_style (shell_input demo_perms (demo_exec c as)) = Posix" for c as
    by (simp add: input_style_def shell_input_def demo_perms_def demo_write_def demo_exec_def selectPathModule_def
        isWindowsStylePath_def is_letter_def Let_def)
  have "shell_gate ''home'' (posix_module ''/'') demo_perms (demo_exec ''git'' [''status''])"
    and "\<not> shell_gate ''home'' (posix_module ''/'') demo_perms (demo_exec ''/usr/bin/Python3'' [''-c'', ''1''])"
    by code_simp+
  then have "shell_allowed ''home'' demo_perms (demo_exec ''git'' [''status''])"
    and "\<not> shell_allowed ''home'' demo_perms (demo_exec ''/usr/bin/Python3'' [''-c'', ''1''])"
    using shell_gate_iff [OF style] by blast+
  moreover note all = shell_exec_gated [where w = "posix_module ''/''" and sp = demo_child and sp' = demo_child
      and uuid = "''u''" and now = "''now''" and h = "\<lparr>gh_files = [], gh_queue = []\<rparr>" and wd = "''home''"]
  note all [OF style [of "''git''" "[''status'']"]] all [OF style [of "''/usr/bin/Python3''" "[''-c'', ''1'']"]]
  ultimately show ?thesis by (simp add: demo_child_def) (simp add: demo_exec_def)
qed

definition chunks_out :: "child_event list \<Rightarrow> string" where
  "chunks_out evs = concat (map (\<lambda>e. case e of ChStdout c \<Rightarrow> c | _ \<Rightarrow> []) evs)"

definition chunks_err :: "child_event list \<Rightarrow> string" where
  "chunks_err evs = concat (map (\<lambda>e. case e of ChStderr c \<Rightarrow> c | _ \<Rightarrow> []) evs)"

definition settles_child :: "child_event \<Rightarrow> bool" where
  "settles_child e = (case e of ChError _ \<Rightarrow> True | ChClose _ _ \<Rightarrow> True | _ \<Rightarrow> False)"

lemma child_steps_settled:
  "cr_settled s = Some r \<Longrightarrow> cr_settled (fold child_step evs s) = Some r"
proof (induction evs arbitrary: s)
  case (Cons e evs)
  have "cr_settled (child_step e s) = Some r" using Cons.prems by (cases e) (auto simp: settle_child_def)
  from Cons.IH [OF this] show ?case by simp
qed simp

lemma child_steps_open:
  "\<forall>e \<in> set evs. \<not> settles_child e \<Longrightarrow>
   fold child_step evs s = s\<lparr>cr_stdout := cr_stdout s @ chunks_out evs, cr_stderr := cr_stderr s @ chunks_err evs\<rparr>"
proof (induction evs arbitrary: s)
  case (Cons e evs)
  then show ?case by (cases e) (auto simp: settles_child_def chunks_out_def chunks_err_def)
qed (simp add: chunks_out_def chunks_err_def)

text \<open>
  C20. The promise of a managed command settles exactly when its child reports an error or closes, once,
  with the outcome of the first such event: an error is passed on; a signal or a non-zero exit code
  rejects with the trimmed error output; otherwise the result is the trimmed output collected before the
  event, or the trimmed error output when that is empty. Later events change nothing.
\<close>

theorem runCommand_settles:
  assumes "spawn_child h (ms_command i) (js_or (ms_args i) []) (ms_cwd i) = (h', Inr evs)"
  shows "snd (runCommand spawn_child h i) =
    (let before = takeWhile (\<lambda>e. \<not> settles_child e) evs; err = js_trim (chunks_err before)
     in case dropWhile (\<lambda>e. \<not> settles_child e) evs of
          ChError e # _ \<Rightarrow> Some (Inl e)
        | ChClose code signal # _ \<Rightarrow> Some
            (if js_truthy signal
             then Inl (Error (''Managed shell command was terminated by signal '' @ the signal))
             else if code = Some 0
             then Inr (if js_trim (chunks_out before) = [] then err else js_trim (chunks_out before))
             else Inl (Error (''Managed shell command exited with code '' @ code_text code
               @ (if err = [] then [] else '': '' @ err))))
        | _ \<Rightarrow> None)"
proof -
  let ?P = "\<lambda>e. \<not> settles_child e"
  let ?s = "\<lparr>cr_stdout = chunks_out (takeWhile ?P evs), cr_stderr = chunks_err (takeWhile ?P evs), cr_settled = None\<rparr>"
  have open_part: "fold child_step (takeWhile ?P evs) child_init = ?s"
    using child_steps_open [of "takeWhile ?P evs" child_init]
    by (simp add: child_init_def) (metis set_takeWhileD)
  have "fold child_step evs child_init = fold child_step (dropWhile ?P evs) ?s"
    by (metis open_part fold_append comp_apply takeWhile_dropWhile_id)
  then have run: "snd (runCommand spawn_child h i) = cr_settled (fold child_step (dropWhile ?P evs) ?s)"
    using assms by (simp add: runCommand_def)
  show ?thesis
  proof (cases "dropWhile ?P evs")
    case (Cons e rest)
    then have e: "settles_child e" by (metis dropWhile_eq_Cons_conv)
    have "cr_settled (child_step e ?s) = Some r \<Longrightarrow> snd (runCommand spawn_child h i) = Some r" for r
      using run Cons child_steps_settled [of "child_step e ?s"] by simp
    with e Cons show ?thesis
      by (cases e) (auto simp: settles_child_def settle_child_def js_truthy_def Let_def
          split: option.splits list.splits)
  next
    case Nil
    then show ?thesis unfolding run Nil by simp
  qed
qed

theorem runCommand_settles_witness:
  "snd (runCommand demo_child [] (demo_exec ''git'' [])) = Some (Inr ''done'')"
proof -
  have "demo_child [] ''git'' [] None = ([''git''], Inr [ChStderr ''warn'', ChStdout ''done '', ChClose (Some 0) None])"
    by (simp add: demo_child_def)
  with runCommand_settles [of demo_child "[]" "demo_exec ''git'' []"] show ?thesis
    by (simp add: demo_exec_def settles_child_def chunks_out_def chunks_err_def js_trim_def js_space_def)
qed

definition same_effect :: "'w gateway_host \<times> 'a \<Rightarrow> 'w gateway_host \<times> 'a \<Rightarrow> bool" where
  "same_effect a b \<longleftrightarrow> gh_files (fst a) = gh_files (fst b) \<and> snd a = snd b"

lemma request_effects:
  "gh_files (fst (requestFilesystemApproval (gateway_options perms uuid now) h a p y b)) = gh_files h"
  "snd (requestFilesystemApproval (gateway_options perms uuid now) h a p y b) = Inr (OutApproval uuid y)"
  "gh_files (fst (requestShellApproval (Some (gateway_requestApproval uuid now)) h i y)) = gh_files h"
  "snd (requestShellApproval (Some (gateway_requestApproval uuid now)) h i y) = Inr (OutApproval uuid y)"
  by (simp_all add: requestFilesystemApproval_def requestShellApproval_def gateway_request createApprovalResult_def
      shell_createApprovalResult_def)

text \<open>
  A decision of the approval queue has no effect on the tools: whatever the queue holds, in particular
  an approved request for the very same action, a call of the writing tool or of the managed shell decides
  the same, changes the machine in the same way and asks again.
\<close>

theorem approvals_never_consulted:
  "same_effect (write_text_tool wd w (machine_fs node) perms (gateway_options perms uuid now) (h\<lparr>gh_queue := q\<rparr>) args)
      (write_text_tool wd w (machine_fs node) perms (gateway_options perms uuid now) h args)
   \<and> same_effect (gateway_shell wd w sp perms uuid now (h\<lparr>gh_queue := q\<rparr>) i) (gateway_shell wd w sp perms uuid now h i)"
proof
  let ?h = "h\<lparr>gh_queue := q\<rparr>"
  obtain w1 r where node: "fsa_writeFile node (gh_files h) (wt_path args) (wt_content args) = (w1, r)" by fastforce
  show "same_effect (write_text_tool wd w (machine_fs node) perms (gateway_options perms uuid now) ?h args)
      (write_text_tool wd w (machine_fs node) perms (gateway_options perms uuid now) h args)"
    using node
    by (auto simp: request_effects write_text_tool_def machine_fs_def on_machine_def Let_def same_effect_def
        split: LocalPermissionOutcome.splits sum.splits)
  obtain w2 c where child: "sp (gh_files h) (ms_command i) (js_or (ms_args i) []) (ms_cwd i) = (w2, c)" by fastforce
  show "same_effect (gateway_shell wd w sp perms uuid now ?h i) (gateway_shell wd w sp perms uuid now h i)"
    using child
    by (auto simp: request_effects gateway_shell_def executeManagedShell_def runCommand_def machine_spawn_def on_machine_def Let_def
        same_effect_def split: LocalPermissionOutcome.splits sum.splits option.splits)
qed

text \<open>
  Registering the built-in tools on an empty registry succeeds with exactly the five tools, and a second
  registration is refused and leaves the registry as it is. A call of a registered tool runs that tool on
  the validated input, which survives the passage through JSON unchanged: the result of a write call is the
  outcome of the writing tool in the state the call meets.
\<close>

lemma write_of_args [simp]: "write_of (write_args a) = a"
  by (cases a) (simp add: write_of_def write_args_def str_arg_def json_field_def)

lemma map_json_str [simp]: "map (json_str \<circ> JStr) xs = xs"
  by (induction xs) (simp_all add: json_str_def)

lemma shell_of_args [simp]: "shell_of (shell_args a) = a"
  by (cases a)
    (auto simp: shell_of_def shell_args_def str_arg_def strs_arg_def json_field_def split: option.splits)

lemma builtin_tool_sel [simp]:
  "td_name (th_definition (builtin_tool n d s c f)) = n"
  "td_inputSchema (th_definition (builtin_tool n d s c f)) = s"
  "td_sandbox (th_definition (builtin_tool n d s c f)) = None"
  "th_execute (builtin_tool n d s c f) = f"
  by (simp_all add: builtin_tool_def)

lemma register_all_fresh:
  "distinct (map (td_name \<circ> th_definition) hs) \<Longrightarrow>
   \<forall>h \<in> set hs. jm_get (tools reg) (td_name (th_definition h)) = None \<Longrightarrow>
   register_all reg hs =
     (reg\<lparr>tools := tools reg @ map (\<lambda>h. (td_name (th_definition h), h)) hs\<rparr>, Inr ())"
proof (induction hs arbitrary: reg)
  case (Cons h hs)
  let ?reg = "reg\<lparr>tools := tools reg @ [(td_name (th_definition h), h)]\<rparr>"
  have "register reg h = Inr ?reg" using Cons.prems by (simp add: register_cases)
  moreover have "\<forall>k \<in> set hs. jm_get (tools ?reg) (td_name (th_definition k)) = None"
    using Cons.prems by (auto simp: map_add_def image_iff dest: sym)
  ultimately show ?case using Cons.IH [of ?reg] Cons.prems by simp
qed simp

theorem builtin_registration:
  assumes "tools reg = []" and "WriteTextInputSchema sc j = Inr a" and "dur cid \<le> timeoutMs reg"
    and "registerBuiltinTools sc wd w node sp st dur reg opts = (reg', r)"
  shows "r = Inr () \<and> registry_ok reg'
    \<and> map td_name (listTools reg') = [''echo'', ''fs.read_text'', ''fs.read_dir'', ''fs.write_text'', ''shell.exec'']
    \<and> fst (registerBuiltinTools sc wd w node sp st dur reg' opts) = reg'
    \<and> (\<exists>e. snd (registerBuiltinTools sc wd w node sp st dur reg' opts) = Inl e)
    \<and> (let out = snd (write_text_tool wd w (builtin_fileSystem node opts)
             (js_or (ro_permissions opts) DEFAULT_GLOBAL_PERMISSIONS) opts (st cid) a);
           res = executeTool reg' cid ''fs.write_text'' j
       in tr_content res = (case out of Inr (OutText t) \<Rightarrow> Some t | _ \<Rightarrow> None)
        \<and> tr_approvalRequestId res = (case out of Inr (OutApproval i _) \<Rightarrow> Some i | _ \<Rightarrow> None)
        \<and> tr_error res = (case out of Inr (OutText _) \<Rightarrow> None | Inr (OutApproval _ m) \<Rightarrow> Some m
             | Inl e \<Rightarrow> Some (message e)))"
proof -
  define ts where "ts = builtin_tools sc wd w node sp opts st dur"
  have names: "map (td_name \<circ> th_definition) ts
      = [''echo'', ''fs.read_text'', ''fs.read_dir'', ''fs.write_text'', ''shell.exec'']"
    by (simp add: ts_def builtin_tools_def Let_def)
  have "register_all reg ts = (reg\<lparr>tools := map (\<lambda>h. (td_name (th_definition h), h)) ts\<rparr>, Inr ())"
    using register_all_fresh [of ts reg] names assms(1) by simp
  then have reg': "reg' = reg\<lparr>tools := map (\<lambda>h. (td_name (th_definition h), h)) ts\<rparr>" "r = Inr ()"
    using assms(4) by (simp_all add: registerBuiltinTools_def ts_def)
  have ok: "registry_ok reg'"
    using reg'(1) names by (auto simp: registry_ok_def jm_ok_def comp_def)
  have listed: "map td_name (listTools reg') = map (td_name \<circ> th_definition) ts"
    using reg'(1) by (simp add: listTools_def)
  have again: "fst (register_all reg' ts) = reg' \<and> (\<exists>e. snd (register_all reg' ts) = Inl e)"
    by (simp add: reg'(1) ts_def builtin_tools_def Let_def register_def)
  let ?out = "snd (write_text_tool wd w (builtin_fileSystem node opts)
             (js_or (ro_permissions opts) DEFAULT_GLOBAL_PERMISSIONS) opts (st cid) a)"
  have call: "executeTool reg' cid ''fs.write_text'' j = (case ?out of
       Inl e \<Rightarrow> failed_result cid (message e)
     | Inr (OutApproval i m) \<Rightarrow> (failed_result cid m)\<lparr>tr_approvalRequired := Some True, tr_approvalRequestId := Some i\<rparr>
     | Inr (OutText t) \<Rightarrow> \<lparr>tr_toolCallId = cid, tr_success = True, tr_content = Some t, tr_error = None,
         tr_approvalRequired = None, tr_approvalRequestId = None\<rparr>)"
    using assms(2,3)
    by (simp add: executeTool_def executeToolInternal_def reg'(1) ts_def builtin_tools_def Let_def invokeHandler_def
        race_timeout_def)
  then show ?thesis
    using reg'(2) ok listed names again
    by (simp add: registerBuiltinTools_def ts_def [symmetric] Let_def failed_result_def split: sum.split ToolExecutionOutput.split)
qed

definition demo_schemas :: builtin_schemas where
  "demo_schemas = \<lparr>EchoInputSchema = (\<lambda>j. Inr (str_arg ''message'' j)), ReadTextInputSchema = (\<lambda>j. Inr (str_arg ''path'' j)),
     ReadDirInputSchema = (\<lambda>j. Inr (str_arg ''path'' j)), WriteTextInputSchema = (\<lambda>j. Inr (write_of j)),
     ShellExecInputSchema = (\<lambda>j. Inr (shell_of j))\<rparr>"

theorem builtin_registration_witness:
  "\<exists>reg'. registerBuiltinTools demo_schemas ''home'' (posix_module ''/'') (machine_fs demo_node)
        (machine_spawn demo_child) (\<lambda>c. \<lparr>gh_files = [], gh_queue = []\<rparr>) (\<lambda>c. 1) (demo_registry\<lparr>tools := []\<rparr>)
        (gateway_options demo_perms ''u'' ''now'') = (reg', Inr ())
     \<and> tr_approvalRequestId (executeTool reg' ''c'' ''fs.write_text''
          (write_args \<lparr>wt_path = ''/srv/data/locked'', wt_content = ''hi''\<rparr>)) = Some ''u''"
proof -
  let ?a = "\<lparr>wt_path = ''/srv/data/locked'', wt_content = ''hi''\<rparr>" and ?o = "gateway_options demo_perms ''u'' ''now''"
  let ?go = "registerBuiltinTools demo_schemas ''home'' (posix_module ''/'') (machine_fs demo_node)
        (machine_spawn demo_child) (\<lambda>c. \<lparr>gh_files = [], gh_queue = []\<rparr>) (\<lambda>c. 1) (demo_registry\<lparr>tools := []\<rparr>) ?o"
  have sch: "WriteTextInputSchema demo_schemas (write_args ?a) = Inr ?a" by (simp add: demo_schemas_def)
  have "(case snd (write_text_tool ''home'' (posix_module ''/'') (builtin_fileSystem (machine_fs demo_node) ?o)
      (js_or (ro_permissions ?o) DEFAULT_GLOBAL_PERMISSIONS) ?o \<lparr>gh_files = [], gh_queue = []\<rparr> ?a) of
        Inr (OutApproval i _) \<Rightarrow> Some i | _ \<Rightarrow> None) = Some ''u''"
    by code_simp
  with builtin_registration [OF _ sch, where cid = "''c''" and reg = "demo_registry\<lparr>tools := []\<rparr>" and dur = "\<lambda>c. 1"
      and st = "\<lambda>c. \<lparr>gh_files = [], gh_queue = []\<rparr>" and opts = ?o and wd = "''home''" and w = "posix_module ''/''"
      and node = "machine_fs demo_node" and sp = "machine_spawn demo_child" and reg' = "fst ?go" and r = "snd ?go"]
  show ?thesis by (intro exI [of _ "fst ?go"]) (simp add: Let_def demo_registry_def prod_eq_iff)
qed

end
