(* ===== verification/Configuration.thy ===== *)
theory Configuration
  imports Builtin_Tools Json_Text
begin

text \<open>
  Configuration (\<^verbatim>\<open>packages/config/src/index.ts\<close>) and the local runtime's files, settings and default
  agent (\<^verbatim>\<open>local-runtime.ts\<close>): environment values, agent definitions merged from three places, the
  global permissions file and the runtime settings file.

  The environment is a map; a file system is a map from resolved paths to contents. \<^verbatim>\<open>readFileSync\<close> may
  fail although the file exists, which the argument \<open>readable\<close> of the reading functions says. The schemas
  are arguments that return the inferred type; what a theorem relies on of them is a hypothesis.
  \<^verbatim>\<open>resolve\<close> is that of the POSIX path module. The sampling rate of the log, a fraction, is left out. The Chinese texts of the start-up banner lie outside the
  characters of the model and are an argument.
\<close>

section \<open>Values of the environment\<close>

definition normalize_text :: "string \<Rightarrow> string option" where
  "normalize_text v =
     (let normalized = js_trim v
      in if normalized = [] \<or> js_toLowerCase normalized = ''undefined'' \<or> js_toLowerCase normalized = ''null''
         then None else Some normalized)"

text \<open>A value of unknown type: \<open>None\<close> is \<^verbatim>\<open>undefined\<close>.\<close>

definition normalizeOptionalString :: "json option \<Rightarrow> json option" where
  "normalizeOptionalString value =
     (case value of Some (JStr v) \<Rightarrow> map_option JStr (normalize_text v) | _ \<Rightarrow> value)"

definition normalizeStringList :: "json option \<Rightarrow> json" where
  "normalizeStringList value =
     (case normalizeOptionalString value of
        None \<Rightarrow> JArr []
      | Some (JStr v) \<Rightarrow> JArr (map JStr (filter (\<lambda>e. e \<noteq> []) (map js_trim (js_split CHR '','' v))))
      | Some j \<Rightarrow> j)"

definition boolean_env :: "bool \<Rightarrow> json option \<Rightarrow> json" where
  "boolean_env defaultValue value =
     (case value of
        None \<Rightarrow> JBool defaultValue
      | Some (JStr v) \<Rightarrow>
          (let normalized = js_toLowerCase (js_trim v)
           in if normalized \<in> set [''1'', ''true'', ''yes'', ''on''] then JBool True
              else if normalized \<in> set [''0'', ''false'', ''no'', ''off''] then JBool False
              else JStr v)
      | Some j \<Rightarrow> j)"

section \<open>Agent definitions\<close>

record AgentDefinition =
  df_name :: string
  df_systemPrompt :: string
  df_provider :: ProviderConfig
  df_tools :: "string list"
  df_effort :: AgentEffort
  df_isolation :: AgentIsolation
  df_permissionMode :: string
  df_mode :: "AgentMode option"
  df_maxTurns :: "nat option"
  df_background :: bool

type_synonym file_system = "(string, string) jsmap"

text \<open>
  \<^verbatim>\<open>resolve\<close> with several arguments: each is resolved against the ones before it. The working
  directory is \<open>/\<close> followed by \<open>wd\<close>.
\<close>

definition resolve_all :: "string \<Rightarrow> string list \<Rightarrow> string" where
  "resolve_all wd ps = foldl posix_resolve (CHR ''/'' # wd) ps"

record 'a parser_of =
  po_schema :: "json \<Rightarrow> issue list + 'a"
  po_syntaxError :: exn
  po_schemaError :: "issue list \<Rightarrow> exn"

definition resolveUserAgentDefinitionsFile :: "string \<Rightarrow> string \<Rightarrow> string" where
  "resolveUserAgentDefinitionsFile wd home = resolve_all wd [home, ''.senclaw'', ''agents.json'']"

definition resolveProjectAgentDefinitionsFile :: "string \<Rightarrow> string option \<Rightarrow> string" where
  "resolveProjectAgentDefinitionsFile wd workspaceRoot =
     resolve_all wd [js_or workspaceRoot (CHR ''/'' # wd), ''.senclaw'', ''agents.json'']"

definition read_json :: "(string \<Rightarrow> unit result) \<Rightarrow> file_system \<Rightarrow> exn \<Rightarrow> string \<Rightarrow> json result" where
  "read_json readable fs syntaxError path =
     (case readable path of
        Inl e \<Rightarrow> Inl e
      | Inr _ \<Rightarrow> (case json_parse (js_or (jm_get fs path) []) of None \<Rightarrow> Inl syntaxError | Some j \<Rightarrow> Inr j))"

definition readAgentDefinitionFile ::
    "(AgentDefinition list) parser_of \<Rightarrow> (string \<Rightarrow> unit result) \<Rightarrow> file_system \<Rightarrow> string
     \<Rightarrow> AgentDefinition list result" where
  "readAgentDefinitionFile ps readable fs path =
     (if jm_get fs path = None then Inr []
      else (case read_json readable fs (po_syntaxError ps) path of
              Inl e \<Rightarrow> Inl e
            | Inr raw \<Rightarrow> (case po_schema ps raw of Inl is \<Rightarrow> Inl (po_schemaError ps is) | Inr as \<Rightarrow> Inr as)))"

definition mergeAgentDefinitions :: "AgentDefinition list \<Rightarrow> AgentDefinition list \<Rightarrow> AgentDefinition list" where
  "mergeAgentDefinitions base overrides =
     (let merged = foldl (\<lambda>m a. jm_set m (df_name a) a) [] base
      in jm_values (foldl (\<lambda>m a. jm_set m (df_name a) a) merged overrides))"

record LoadAgentDefinitionsOptions =
  lo_workspaceRoot :: "string option"
  lo_builtInAgents :: "AgentDefinition list option"
  lo_userConfigFile :: "string option"
  lo_projectConfigFile :: "string option"

definition loadAgentDefinitions ::
    "string \<Rightarrow> string \<Rightarrow> (AgentDefinition list) parser_of \<Rightarrow> (string \<Rightarrow> unit result) \<Rightarrow> file_system
     \<Rightarrow> LoadAgentDefinitionsOptions \<Rightarrow> AgentDefinition list result" where
  "loadAgentDefinitions wd home ps readable fs o' =
     (let userFile = js_or (lo_userConfigFile o') (resolveUserAgentDefinitionsFile wd home);
          projectFile = js_or (lo_projectConfigFile o') (resolveProjectAgentDefinitionsFile wd (lo_workspaceRoot o'));
          builtIn = js_or (lo_builtInAgents o') []
      in case readAgentDefinitionFile ps readable fs userFile of
           Inl e \<Rightarrow> Inl e
         | Inr userAgents \<Rightarrow>
             (case readAgentDefinitionFile ps readable fs projectFile of
                Inl e \<Rightarrow> Inl e
              | Inr projectAgents \<Rightarrow>
                  Inr (mergeAgentDefinitions (mergeAgentDefinitions builtIn userAgents) projectAgents)))"

section \<open>The configuration of the processes\<close>

record SenclawConfig =
  cf_logLevel :: string
  cf_gatewayPort :: nat
  cf_agentRunnerPort :: nat
  cf_toolRunnerPort :: nat
  cf_maxTurns :: nat
  cf_llmTimeoutMs :: nat
  cf_toolTimeoutMs :: nat
  cf_dbUrl :: "string option"
  cf_rateLimitAdmin :: nat
  cf_rateLimitUser :: nat
  cf_rateLimitReadonly :: nat
  cf_auditLogRetentionDays :: nat
  cf_schedulerTickIntervalMs :: nat
  cf_metricsEnabled :: bool
  cf_tracingEnabled :: bool
  cf_tracingEndpoint :: "string option"
  cf_logDebugEndpoints :: "string list"
  cf_logDebugUsers :: "string list"

definition ENV_KEY_MAP :: "(string, string) jsmap" where
  "ENV_KEY_MAP =
     [(''logLevel'', ''SENCLAW_LOG_LEVEL''), (''gatewayPort'', ''SENCLAW_GATEWAY_PORT''),
      (''agentRunnerPort'', ''SENCLAW_AGENT_RUNNER_PORT''), (''toolRunnerPort'', ''SENCLAW_TOOL_RUNNER_PORT''),
      (''maxTurns'', ''SENCLAW_MAX_TURNS''), (''llmTimeoutMs'', ''SENCLAW_LLM_TIMEOUT_MS''),
      (''toolTimeoutMs'', ''SENCLAW_TOOL_TIMEOUT_MS''), (''dbUrl'', ''SENCLAW_DB_URL''),
      (''rateLimitAdmin'', ''SENCLAW_RATE_LIMIT_ADMIN''), (''rateLimitUser'', ''SENCLAW_RATE_LIMIT_USER''),
      (''rateLimitReadonly'', ''SENCLAW_RATE_LIMIT_READONLY''),
      (''auditLogRetentionDays'', ''SENCLAW_AUDIT_LOG_RETENTION_DAYS''),
      (''schedulerTickIntervalMs'', ''SENCLAW_SCHEDULER_TICK_INTERVAL_MS''),
      (''metricsEnabled'', ''SENCLAW_METRICS_ENABLED''), (''tracingEnabled'', ''SENCLAW_TRACING_ENABLED''),
      (''tracingEndpoint'', ''SENCLAW_TRACING_ENDPOINT''), (''logSamplingRate'', ''SENCLAW_LOG_SAMPLING_RATE''),
      (''logDebugEndpoints'', ''SENCLAW_LOG_DEBUG_ENDPOINTS''), (''logDebugUsers'', ''SENCLAW_LOG_DEBUG_USERS'')]"

definition readEnvValues :: "(string, string) jsmap \<Rightarrow> (string, json) jsmap" where
  "readEnvValues env =
     foldl (\<lambda>raw (key, envName). case jm_get env envName of None \<Rightarrow> raw | Some v \<Rightarrow> jm_set raw key (JStr v))
       [] ENV_KEY_MAP"

definition config_issues :: "(string, string) jsmap \<Rightarrow> issue list \<Rightarrow> string" where
  "config_issues keys is =
     js_join [CHR 0x0A]
       (map (\<lambda>i. let field = js_join ''.'' (is_path i) in ''  '' @ js_or (jm_get keys field) field @ '': '' @ is_message i) is)"

text \<open>
  \<^verbatim>\<open>dotenv\<close> loads the variables of the file \<^verbatim>\<open>.env\<close> into the environment; what it makes of them is the
  argument \<open>dotenv\<close>.
\<close>

definition loadConfig ::
    "string \<Rightarrow> ((string, string) jsmap \<Rightarrow> string \<Rightarrow> (string, string) jsmap)
     \<Rightarrow> ((string, json) jsmap \<Rightarrow> issue list + SenclawConfig) \<Rightarrow> file_system \<Rightarrow> (string, string) jsmap
     \<Rightarrow> string option \<Rightarrow> SenclawConfig result" where
  "loadConfig wd dotenv schema fs env workspaceRoot =
     (let root = js_or workspaceRoot (CHR ''/'' # wd);
          envPath = resolve_all wd [root, ''.env''];
          env' = (case jm_get fs envPath of None \<Rightarrow> env | Some text \<Rightarrow> dotenv env text)
      in case schema (readEnvValues env') of
           Inl is \<Rightarrow> Inl (Error (''Invalid configuration:'' @ [CHR 0x0A] @ config_issues ENV_KEY_MAP is))
         | Inr c \<Rightarrow> Inr c)"

record ProviderSmokeConfig =
  sk_apiKey :: string
  sk_baseURL :: string
  sk_model :: string
  sk_prompt :: string
  sk_timeoutMs :: nat

definition PROVIDER_SMOKE_ENV_KEY_MAP :: "(string, string) jsmap" where
  "PROVIDER_SMOKE_ENV_KEY_MAP =
     [(''apiKey'', ''SENCLAW_OPENAI_API_KEY''), (''baseURL'', ''SENCLAW_OPENAI_BASE_URL''),
      (''model'', ''SENCLAW_OPENAI_MODEL''), (''prompt'', ''SENCLAW_SMOKE_PROMPT''),
      (''timeoutMs'', ''SENCLAW_SMOKE_TIMEOUT_MS'')]"

definition loadProviderSmokeConfig ::
    "((string, string option) jsmap \<Rightarrow> issue list + ProviderSmokeConfig) \<Rightarrow> (string, string) jsmap
     \<Rightarrow> ProviderSmokeConfig result" where
  "loadProviderSmokeConfig schema env =
     (let norm = (\<lambda>k. Option.bind (jm_get env k) normalize_text);
          raw = [(''apiKey'', norm ''SENCLAW_OPENAI_API_KEY''), (''baseURL'', norm ''SENCLAW_OPENAI_BASE_URL''),
                 (''model'', norm ''SENCLAW_OPENAI_MODEL''), (''prompt'', norm ''SENCLAW_SMOKE_PROMPT''),
                 (''timeoutMs'', jm_get env ''SENCLAW_SMOKE_TIMEOUT_MS'')]
      in case schema raw of
           Inl is \<Rightarrow> Inl (Error (''Invalid provider smoke configuration:'' @ [CHR 0x0A]
                        @ config_issues PROVIDER_SMOKE_ENV_KEY_MAP is))
         | Inr c \<Rightarrow> Inr c)"

section \<open>The global permissions file\<close>

definition GLOBAL_CONFIG_FILE :: "string \<Rightarrow> string \<Rightarrow> string" where
  "GLOBAL_CONFIG_FILE wd home = resolve_all wd [home, ''.senclawrc'']"

definition loadGlobalPermissionsConfig ::
    "(json \<Rightarrow> issue list + GlobalPermissionsConfig option) \<Rightarrow> (string \<Rightarrow> unit result) \<Rightarrow> file_system
     \<Rightarrow> string \<Rightarrow> GlobalPermissionsConfig" where
  "loadGlobalPermissionsConfig schema readable fs configFile =
     (if jm_get fs configFile = None then DEFAULT_GLOBAL_PERMISSIONS
      else (case read_json readable fs (Error ''SyntaxError'') configFile of
              Inl _ \<Rightarrow> DEFAULT_GLOBAL_PERMISSIONS
            | Inr raw \<Rightarrow>
                (case schema raw of
                   Inl _ \<Rightarrow> DEFAULT_GLOBAL_PERMISSIONS
                 | Inr p \<Rightarrow> js_or p DEFAULT_GLOBAL_PERMISSIONS)))"

section \<open>The local runtime\<close>

datatype ConsoleLocale = LocaleEn | LocaleZhCN

definition DEFAULT_CONSOLE_LOCALE :: ConsoleLocale where "DEFAULT_CONSOLE_LOCALE = LocaleEn"

definition locale_text :: "ConsoleLocale \<Rightarrow> string" where
  "locale_text l = (case l of LocaleEn \<Rightarrow> ''en'' | LocaleZhCN \<Rightarrow> ''zh-CN'')"

definition LOCAL_RUNTIME_AGENT_NAME :: string where "LOCAL_RUNTIME_AGENT_NAME = ''SenClaw Assistant''"

definition LOCAL_RUNTIME_AGENT_TOOLS :: "string list" where
  "LOCAL_RUNTIME_AGENT_TOOLS = [''echo'', ''fs.read_text'', ''fs.read_dir'', ''fs.write_text'', ''shell.exec'']"

definition DEFAULT_LOCAL_RUNTIME_SYSTEM_PROMPT :: string where
  "DEFAULT_LOCAL_RUNTIME_SYSTEM_PROMPT =
     ''You are SenClaw, a pragmatic local AI assistant. Use local filesystem and managed shell tools when they help, respect approval prompts, and explain clearly what you are doing.''"

text \<open>The enumeration schema of locales: a string that is one of its members.\<close>

definition normalizeConsoleLocale :: "(json option \<Rightarrow> issue list + ConsoleLocale) \<Rightarrow> json option \<Rightarrow> ConsoleLocale" where
  "normalizeConsoleLocale schema value =
     (case schema value of Inr l \<Rightarrow> l | Inl _ \<Rightarrow> DEFAULT_CONSOLE_LOCALE)"

record ExistingLocalAgent =
  xa_systemPrompt :: "string option"
  xa_tools :: "string list option"
  xa_effort :: "AgentEffort option"
  xa_isolation :: "AgentIsolation option"
  xa_permissionMode :: "string option"
  xa_maxTurns :: "nat option"
  xa_background :: "bool option"

text \<open>Keeping the elements whose first index is their own.\<close>

fun first_occurrences :: "string list \<Rightarrow> string list \<Rightarrow> string list" where
  "first_occurrences seen [] = []"
| "first_occurrences seen (x # xs) =
     (if x \<in> set seen then first_occurrences seen xs else x # first_occurrences (x # seen) xs)"

definition createDefaultLocalRuntimeAgent :: "ProviderConfig \<Rightarrow> ExistingLocalAgent option \<Rightarrow> AgentDefinition" where
  "createDefaultLocalRuntimeAgent p existing =
     (let prompt = js_trim (js_or (Option.bind existing xa_systemPrompt) [])
      in \<lparr>df_name = LOCAL_RUNTIME_AGENT_NAME,
          df_systemPrompt = (if prompt = [] then DEFAULT_LOCAL_RUNTIME_SYSTEM_PROMPT else prompt),
          df_provider = p,
          df_tools = first_occurrences [] (js_or (Option.bind existing xa_tools) [] @ LOCAL_RUNTIME_AGENT_TOOLS),
          df_effort = js_or (Option.bind existing xa_effort) EffortMedium,
          df_isolation = js_or (Option.bind existing xa_isolation) IsoShared,
          df_permissionMode = js_or (Option.bind existing xa_permissionMode) ''default'',
          df_mode = None, df_maxTurns = Option.bind existing xa_maxTurns,
          df_background = js_or (Option.bind existing xa_background) True\<rparr>)"

record LocalRuntimeFiles =
  rf_runtimeDir :: string
  rf_settingsFile :: string
  rf_adminKeyFile :: string
  rf_gatewayPidFile :: string
  rf_webPidFile :: string
  rf_gatewayOutLog :: string
  rf_gatewayErrLog :: string
  rf_webOutLog :: string
  rf_webErrLog :: string
  rf_databaseFile :: string

definition resolveLocalRuntimeFiles :: "string \<Rightarrow> string option \<Rightarrow> LocalRuntimeFiles" where
  "resolveLocalRuntimeFiles wd workspaceRoot =
     (let runtimeDir = resolve_all wd [js_or workspaceRoot (CHR ''/'' # wd), ''.tmp'', ''live-run'']
      in \<lparr>rf_runtimeDir = runtimeDir,
          rf_settingsFile = resolve_all wd [runtimeDir, ''runtime-settings.json''],
          rf_adminKeyFile = resolve_all wd [runtimeDir, ''admin-key.txt''],
          rf_gatewayPidFile = resolve_all wd [runtimeDir, ''gateway.pid''],
          rf_webPidFile = resolve_all wd [runtimeDir, ''web.pid''],
          rf_gatewayOutLog = resolve_all wd [runtimeDir, ''gateway.out.log''],
          rf_gatewayErrLog = resolve_all wd [runtimeDir, ''gateway.err.log''],
          rf_webOutLog = resolve_all wd [runtimeDir, ''web.out.log''],
          rf_webErrLog = resolve_all wd [runtimeDir, ''web.err.log''],
          rf_databaseFile = resolve_all wd [runtimeDir, ''senclaw-live.db'']\<rparr>)"

record RuntimeSettings =
  rs_locale :: ConsoleLocale

definition readRuntimeSettings ::
    "(json \<Rightarrow> issue list + RuntimeSettings) \<Rightarrow> (string \<Rightarrow> unit result) \<Rightarrow> file_system \<Rightarrow> string \<Rightarrow> RuntimeSettings" where
  "readRuntimeSettings schema readable fs settingsFile =
     (if jm_get fs settingsFile = None then \<lparr>rs_locale = DEFAULT_CONSOLE_LOCALE\<rparr>
      else (case read_json readable fs (Error ''SyntaxError'') settingsFile of
              Inl _ \<Rightarrow> \<lparr>rs_locale = DEFAULT_CONSOLE_LOCALE\<rparr>
            | Inr raw \<Rightarrow> (case schema raw of Inr s \<Rightarrow> s | Inl _ \<Rightarrow> \<lparr>rs_locale = DEFAULT_CONSOLE_LOCALE\<rparr>)))"

definition settings_json :: "RuntimeSettings \<Rightarrow> json" where
  "settings_json s = JObj [(''locale'', JStr (locale_text (rs_locale s)))]"

definition settings_text :: "RuntimeSettings \<Rightarrow> string" where
  "settings_text s = json_pretty (settings_json s) @ [CHR 0x0A]"

text \<open>
  The merged settings are parsed again before they are written; a failure of the schema or of the write is
  thrown. \<open>writable\<close> says whether creating the directory and writing the file succeed.
\<close>

definition writeRuntimeSettings ::
    "(json \<Rightarrow> issue list + RuntimeSettings) \<Rightarrow> (issue list \<Rightarrow> exn) \<Rightarrow> (string \<Rightarrow> unit result)
     \<Rightarrow> (string \<Rightarrow> unit result) \<Rightarrow> file_system \<Rightarrow> string \<Rightarrow> ConsoleLocale option \<Rightarrow> file_system \<times> RuntimeSettings result" where
  "writeRuntimeSettings schema schemaError readable writable fs settingsFile localeOpt =
     (let old = readRuntimeSettings schema readable fs settingsFile;
          merged = (case localeOpt of None \<Rightarrow> old | Some l \<Rightarrow> old\<lparr>rs_locale := l\<rparr>)
      in case schema (settings_json merged) of
           Inl is \<Rightarrow> (fs, Inl (schemaError is))
         | Inr s \<Rightarrow>
             (case writable settingsFile of
                Inl e \<Rightarrow> (fs, Inl e)
              | Inr _ \<Rightarrow> (jm_set fs settingsFile (settings_text s), Inr s)))"

section \<open>The start-up banner\<close>

record PendingApprovalSummary =
  pa_id :: ident
  pa_kind :: ApprovalKind
  pa_action :: string
  pa_targetPaths :: "string list"
  pa_reason :: string
  pa_requestedBy :: string

record StartupBannerInput =
  sbi_locale :: ConsoleLocale
  sbi_model :: string
  sbi_adminKey :: string
  sbi_gatewayUrl :: string
  sbi_webUrl :: string
  sbi_autoLoginUrl :: string
  sbi_logDir :: string
  sbi_pendingApprovals :: "PendingApprovalSummary list option"

record banner_texts =
  bt_pending :: string
  bt_reason :: string
  bt_approve :: string
  bt_reject :: string
  bt_ready :: string
  bt_model :: string
  bt_adminKey :: string
  bt_web :: string
  bt_gateway :: string
  bt_logs :: string

definition english_texts :: banner_texts where
  "english_texts = \<lparr>bt_pending = ''Pending approvals:'', bt_reason = ''Reason'', bt_approve = ''Approve'',
     bt_reject = ''Reject'', bt_ready = ''SenClaw is ready'', bt_model = ''Model ID'', bt_adminKey = ''Admin Key'',
     bt_web = ''Web Console'', bt_gateway = ''Gateway URL'', bt_logs = ''Log Directory''\<rparr>"

definition locale_texts :: "banner_texts \<Rightarrow> ConsoleLocale \<Rightarrow> banner_texts" where
  "locale_texts zh l = (if l = LocaleZhCN then zh else english_texts)"

definition renderPendingApprovalLines ::
    "banner_texts \<Rightarrow> ConsoleLocale \<Rightarrow> PendingApprovalSummary list \<Rightarrow> string list" where
  "renderPendingApprovalLines zh l approvals =
     (let t = locale_texts zh l
      in if approvals = [] then []
         else bt_pending t # concat (map (\<lambda>a.
           let joined = js_join '', '' (pa_targetPaths a);
               targets = (if joined = [] then pa_requestedBy a else joined)
           in [''- ['' @ pa_id a @ ''] '' @ kind_text (pa_kind a) @ ''/'' @ pa_action a @ '' -> '' @ targets,
               ''  '' @ bt_reason t @ '': '' @ pa_reason a,
               ''  '' @ bt_approve t @ '': POST /api/runtime/approvals/'' @ pa_id a @ ''/approve'',
               ''  '' @ bt_reject t @ '': POST /api/runtime/approvals/'' @ pa_id a @ ''/reject'']) approvals))"

definition createStartupBanner :: "banner_texts \<Rightarrow> StartupBannerInput \<Rightarrow> string" where
  "createStartupBanner zh i =
     (let t = locale_texts zh (sbi_locale i);
          divider = replicate 60 (CHR ''='')
      in js_join [CHR 0x0A]
        ([divider, bt_ready t, bt_model t @ '': '' @ sbi_model i, bt_adminKey t @ '': '' @ sbi_adminKey i,
          bt_web t @ '': '' @ sbi_webUrl i, ''Admin API: '' @ sbi_autoLoginUrl i,
          bt_gateway t @ '': '' @ sbi_gatewayUrl i, bt_logs t @ '': '' @ sbi_logDir i]
         @ renderPendingApprovalLines zh (sbi_locale i) (js_or (sbi_pendingApprovals i) []) @ [divider]))"

section \<open>Properties\<close>

lemma jm_get_foldl:
  "jm_get (foldl (\<lambda>m a. jm_set m (f a) a) m xs) n =
   (case map_of (rev (map (\<lambda>a. (f a, a)) xs)) n of None \<Rightarrow> jm_get m n | Some a \<Rightarrow> Some a)"
  by (induction xs arbitrary: m) (auto simp: jm_get_set map_add_def split: option.splits)

lemma jm_foldl_keyed:
  "jm_ok m \<Longrightarrow> \<forall>(k, v) \<in> set m. f v = k \<Longrightarrow>
   jm_ok (foldl (\<lambda>m a. jm_set m (f a) a) m xs) \<and> (\<forall>(k, v) \<in> set (foldl (\<lambda>m a. jm_set m (f a) a) m xs). f v = k)"
proof (induction xs arbitrary: m)
  case (Cons x xs)
  have "jm_ok (jm_set m (f x) x)" using Cons.prems by simp
  moreover have "\<forall>(k, v) \<in> set (jm_set m (f x) x). f v = k" using Cons.prems by (auto dest: jm_set_mem)
  ultimately show ?case using Cons.IH by simp
qed simp

definition definition_of :: "AgentDefinition list \<Rightarrow> string \<Rightarrow> AgentDefinition option" where
  \<comment> \<open>The last definition with a name.\<close>
  "definition_of ds n = map_of (rev (map (\<lambda>a. (df_name a, a)) ds)) n"

lemma keyed_values:
  assumes "\<forall>(k, v) \<in> set m. f v = k"
  shows "map (\<lambda>a. (f a, a)) (jm_values m) = m"
  using assms by (induction m) auto

lemma definition_of_values:
  assumes "jm_ok m" and "\<forall>(k, v) \<in> set m. df_name v = k"
  shows "definition_of (jm_values m) n = jm_get m n" and "distinct (map df_name (jm_values m))"
proof -
  have m: "map (\<lambda>a. (df_name a, a)) (jm_values m) = m" using keyed_values [OF assms(2)] .
  from assms(1) have "map_of (rev m) = map_of m" by (simp add: jm_ok_def map_of_inject_set rev_map [symmetric])
  with m show "definition_of (jm_values m) n = jm_get m n" by (simp add: definition_of_def rev_map [symmetric])
  from m have "map fst m = map df_name (jm_values m)" by (metis (no_types, lifting) comp_apply fst_conv map_eq_conv map_map)
  with assms(1) show "distinct (map df_name (jm_values m))" by (simp add: jm_ok_def)
qed

lemma merge_definitions:
  "definition_of (mergeAgentDefinitions base overrides) n = definition_of (base @ overrides) n"
  "distinct (map df_name (mergeAgentDefinitions base overrides))"
proof -
  let ?m = "foldl (\<lambda>m a. jm_set m (df_name a) a) [] base"
  let ?r = "foldl (\<lambda>m a. jm_set m (df_name a) a) ?m overrides"
  have m: "jm_ok ?m \<and> (\<forall>(k, v) \<in> set ?m. df_name v = k)" by (rule jm_foldl_keyed) auto
  have r: "jm_ok ?r \<and> (\<forall>(k, v) \<in> set ?r. df_name v = k)" by (rule jm_foldl_keyed) (use m in auto)
  show "definition_of (mergeAgentDefinitions base overrides) n = definition_of (base @ overrides) n"
    using definition_of_values(1) [of ?r n] r
    by (simp add: mergeAgentDefinitions_def jm_get_foldl definition_of_def map_add_def split: option.splits)
  show "distinct (map df_name (mergeAgentDefinitions base overrides))"
    using definition_of_values(2) [of ?r] r by (simp add: mergeAgentDefinitions_def)
qed

text \<open>
  Agent definitions are merged with a fixed precedence: when loading succeeds every name occurs once, and
  its definition is the last one of the project file, else the last one of the user file, else the last
  built-in one; no other agent is loaded.
\<close>

theorem definition_precedence:
  assumes "loadAgentDefinitions wd home ps readable fs o' = Inr ds"
  shows "\<exists>user project.
      readAgentDefinitionFile ps readable fs (js_or (lo_userConfigFile o') (resolveUserAgentDefinitionsFile wd home)) = Inr user
    \<and> readAgentDefinitionFile ps readable fs
        (js_or (lo_projectConfigFile o') (resolveProjectAgentDefinitionsFile wd (lo_workspaceRoot o'))) = Inr project
    \<and> distinct (map df_name ds)
    \<and> (\<forall>n. definition_of ds n =
         (case definition_of project n of Some a \<Rightarrow> Some a
          | None \<Rightarrow> (case definition_of user n of Some a \<Rightarrow> Some a
             | None \<Rightarrow> definition_of (js_or (lo_builtInAgents o') []) n)))"
proof -
  from assms obtain user project where
    "readAgentDefinitionFile ps readable fs (js_or (lo_userConfigFile o') (resolveUserAgentDefinitionsFile wd home)) = Inr user"
    "readAgentDefinitionFile ps readable fs
        (js_or (lo_projectConfigFile o') (resolveProjectAgentDefinitionsFile wd (lo_workspaceRoot o'))) = Inr project"
    and ds: "ds = mergeAgentDefinitions (mergeAgentDefinitions (js_or (lo_builtInAgents o') []) user) project"
    by (auto simp: loadAgentDefinitions_def Let_def split: sum.splits)
  moreover have append: "definition_of (xs @ ys) n =
      (case definition_of ys n of Some a \<Rightarrow> Some a | None \<Rightarrow> definition_of xs n)" for xs ys n
    by (simp add: definition_of_def map_add_def split: option.splits)
  ultimately show ?thesis
    by (simp add: merge_definitions append cong: option.case_cong)
qed

definition demo_definition :: "string \<Rightarrow> AgentDefinition" where
  "demo_definition p = \<lparr>df_name = ''a'', df_systemPrompt = p, df_provider = \<lparr>pc_provider = ''x'', pc_model = ''y'',
     pc_temperature = None, pc_maxTokens = None\<rparr>, df_tools = [], df_effort = EffortMedium, df_isolation = IsoShared,
     df_permissionMode = ''default'', df_mode = None, df_maxTurns = None, df_background = False\<rparr>"

theorem definition_precedence_witness:
  "\<exists>ds. loadAgentDefinitions ''w'' ''/h'' \<lparr>po_schema = (\<lambda>j. case j of JStr t \<Rightarrow> Inr [demo_definition t] | _ \<Rightarrow> Inr []),
       po_syntaxError = Error ''s'', po_schemaError = (\<lambda>is. Error ''z'')\<rparr> (\<lambda>f. Inr ())
       [(''/h/.senclaw/agents.json'', json_quote ''user''), (''/w/.senclaw/agents.json'', json_quote ''project'')]
       \<lparr>lo_workspaceRoot = None, lo_builtInAgents = Some [demo_definition ''builtin''], lo_userConfigFile = None,
        lo_projectConfigFile = None\<rparr> = Inr ds
     \<and> distinct (map df_name ds) \<and> definition_of ds ''a'' = Some (demo_definition ''project'')"
proof -
  let ?go = "loadAgentDefinitions ''w'' ''/h'' \<lparr>po_schema = (\<lambda>j. case j of JStr t \<Rightarrow> Inr [demo_definition t] | _ \<Rightarrow> Inr []),
       po_syntaxError = Error ''s'', po_schemaError = (\<lambda>is. Error ''z'')\<rparr> (\<lambda>f. Inr ())
       [(''/h/.senclaw/agents.json'', json_quote ''user''), (''/w/.senclaw/agents.json'', json_quote ''project'')]
       \<lparr>lo_workspaceRoot = None, lo_builtInAgents = Some [demo_definition ''builtin''], lo_userConfigFile = None,
        lo_projectConfigFile = None\<rparr>"
  have go: "?go = Inr [demo_definition ''project'']" by code_simp
  from definition_precedence [OF go] have "distinct (map df_name [demo_definition ''project''])" by blast
  moreover have "definition_of [demo_definition ''project''] ''a'' = Some (demo_definition ''project'')" by code_simp
  ultimately show ?thesis using go by blast
qed

text \<open>
  C6. The permissions file fails closed. Its permissions are used exactly when the file exists, can be read,
  is JSON and passes the schema with a permissions section; in every other case the defaults apply, loading
  never throws, and under the defaults the writing tool refuses every path without touching anything.
\<close>

theorem permissions_fail_closed:
  "let p = loadGlobalPermissionsConfig schema readable fs f;
       usable = (\<lambda>q. \<exists>text j. jm_get fs f = Some text \<and> readable f = Inr () \<and> json_parse text = Some j
                      \<and> schema j = Inr (Some q))
   in (\<exists>q. usable q \<and> p = q)
    \<or> (\<nexists>q. usable q) \<and> p = DEFAULT_GLOBAL_PERMISSIONS
      \<and> (\<exists>e. write_text_tool wd w node p opts h args = (h, Inl e))"
proof -
  have "outcome (evaluateLocalPermission wd w (write_input DEFAULT_GLOBAL_PERMISSIONS path)) = Deny" for path
    by (simp add: evaluateLocalPermission_def write_input_def isMutatingAction_def DEFAULT_GLOBAL_PERMISSIONS_def Let_def)
  then have deny: "\<exists>e. write_text_tool wd w node DEFAULT_GLOBAL_PERMISSIONS opts h args = (h, Inl e)"
    by (simp add: write_text_tool_def Let_def)
  show ?thesis
    unfolding Let_def loadGlobalPermissionsConfig_def read_json_def
    using deny by (auto simp: js_or_def split: option.splits sum.splits)
qed

lemma settings_parse: "json_parse (settings_text s) = Some (settings_json s)"
  unfolding settings_text_def by (rule json_parse_pretty) (simp add: settings_json_def)

text \<open>
  Runtime settings survive a round trip through their file: after a successful update a read returns
  the settings the update returned, with the new locale if one was given and the old one otherwise, and no
  other file has changed.
\<close>

theorem settings_roundtrip:
  assumes "\<forall>s. schema (settings_json s) = Inr s" and "readable f = Inr ()"
    and "writeRuntimeSettings schema err readable writable fs f l = (fs', Inr s)"
  shows "readRuntimeSettings schema readable fs' f = s
    \<and> rs_locale s = js_or l (rs_locale (readRuntimeSettings schema readable fs f))
    \<and> (\<forall>g. g \<noteq> f \<longrightarrow> jm_get fs' g = jm_get fs g)"
proof -
  let ?old = "readRuntimeSettings schema readable fs f"
  from assms(1,3) have s: "s = (case l of None \<Rightarrow> ?old | Some x \<Rightarrow> ?old\<lparr>rs_locale := x\<rparr>)"
    and fs': "fs' = jm_set fs f (settings_text s)"
    by (auto simp: writeRuntimeSettings_def Let_def split: sum.splits)
  have "readRuntimeSettings schema readable fs' f = s"
    using assms(1,2) fs' by (simp add: readRuntimeSettings_def read_json_def jm_get_set settings_parse)
  then show ?thesis using s fs' by (auto simp: jm_get_set split: option.splits)
qed

definition demo_settings_schema :: "json \<Rightarrow> issue list + RuntimeSettings" where
  "demo_settings_schema j = (if json_field j ''locale'' = Some (JStr ''zh-CN'') then Inr \<lparr>rs_locale = LocaleZhCN\<rparr>
     else Inr \<lparr>rs_locale = LocaleEn\<rparr>)"

theorem settings_roundtrip_witness:
  "readRuntimeSettings demo_settings_schema (\<lambda>f. Inr ())
     (fst (writeRuntimeSettings demo_settings_schema (\<lambda>is. Error ''bad'') (\<lambda>f. Inr ()) (\<lambda>f. Inr ()) [] ''s.json''
        (Some LocaleZhCN))) ''s.json'' = \<lparr>rs_locale = LocaleZhCN\<rparr>"
proof -
  let ?go = "writeRuntimeSettings demo_settings_schema (\<lambda>is. Error ''bad'') (\<lambda>f. Inr ()) (\<lambda>f. Inr ()) [] ''s.json''
        (Some LocaleZhCN)"
  have sch: "\<forall>s. demo_settings_schema (settings_json s) = Inr s"
  proof
    fix s :: RuntimeSettings
    show "demo_settings_schema (settings_json s) = Inr s"
      by (cases "rs_locale s")
        (simp_all add: demo_settings_schema_def settings_json_def json_field_def locale_text_def)
  qed
  have "?go = (fst ?go, Inr \<lparr>rs_locale = LocaleZhCN\<rparr>)" by code_simp
  from settings_roundtrip [OF sch _ this] show ?thesis by simp
qed

end
