(* ===== verification/Gateway_Routes.thy ===== *)
theory Gateway_Routes
  imports Agent_Service Configuration
begin

text \<open>
  The agent, task, run, settings and health routes of the gateway (\<^verbatim>\<open>apps/gateway/src/routes\<close>) over the
  agent service, and the orchestration tools through which agents use the same operations
  (\<^verbatim>\<open>orchestration-tools.ts\<close>).

  A route handler takes the state of the service and a request that passed authentication, and returns
  the new state and the reply. Random identifiers and the time are arguments (\<open>draws\<close>). A handler is
  uninterrupted: where it waits for several repository calls, no other segment of the service runs in
  between; \<open>routes_are_service_steps\<close> relates this to the interleaved steps of \<open>Agent_Service\<close>. Schemas
  of request bodies are arguments.
\<close>

section \<open>Bodies\<close>

definition text_field :: "string \<Rightarrow> string option \<Rightarrow> (string \<times> json) list" where
  "text_field k v = (case v of None \<Rightarrow> [] | Some s \<Rightarrow> [(k, JStr s)])"

definition nat_field :: "string \<Rightarrow> nat option \<Rightarrow> (string \<times> json) list" where
  "nat_field k v = (case v of None \<Rightarrow> [] | Some n \<Rightarrow> [(k, JNum (int n))])"

definition provider_body :: "ProviderConfig \<Rightarrow> json" where
  "provider_body p = JObj ([(''provider'', JStr (pc_provider p)), (''model'', JStr (pc_model p))]
     @ (case pc_temperature p of None \<Rightarrow> [] | Some t \<Rightarrow> [(''temperature'', JNum t)])
     @ nat_field ''maxTokens'' (pc_maxTokens p))"

definition effort_text :: "AgentEffort \<Rightarrow> string" where
  "effort_text e = (case e of EffortLow \<Rightarrow> ''low'' | EffortMedium \<Rightarrow> ''medium'' | EffortHigh \<Rightarrow> ''high'')"

definition agent_body :: "Agent \<Rightarrow> json" where
  "agent_body a = JObj ([(''id'', JStr (ag_id a)), (''name'', JStr (ag_name a)),
     (''systemPrompt'', JStr (ag_systemPrompt a)), (''provider'', provider_body (ag_provider a)),
     (''tools'', JArr (map JStr (ag_tools a))), (''effort'', JStr (effort_text (ag_effort a))),
     (''isolation'', JStr (case ag_isolation a of IsoShared \<Rightarrow> ''shared'' | IsoIsolated \<Rightarrow> ''isolated'')),
     (''permissionMode'', JStr (ag_permissionMode a)),
     (''mode'', JStr (case ag_mode a of ModeStandard \<Rightarrow> ''standard'' | ModeCoordinator \<Rightarrow> ''coordinator''))]
     @ nat_field ''maxTurns'' (ag_maxTurns a) @ [(''background'', JBool (ag_background a))])"

definition run_status_text :: "RunStatus \<Rightarrow> string" where
  "run_status_text s = (case s of RunPending \<Rightarrow> ''pending'' | RunRunning \<Rightarrow> ''running''
     | RunCompleted \<Rightarrow> ''completed'' | RunFailed \<Rightarrow> ''failed'')"

definition run_body :: "Run \<Rightarrow> json" where
  "run_body r = JObj ([(''id'', JStr (rn_id r)), (''agentId'', JStr (rn_agentId r)), (''input'', JStr (rn_input r)),
     (''status'', JStr (run_status_text (rn_status r)))] @ text_field ''parentRunId'' (rn_parentRunId r)
     @ text_field ''agentTaskId'' (rn_agentTaskId r) @ [(''createdAt'', JStr (rn_createdAt r)),
     (''updatedAt'', JStr (rn_updatedAt r))] @ text_field ''error'' (rn_error r))"

definition task_status_text :: "AgentTaskStatus \<Rightarrow> string" where
  "task_status_text s = (case s of TaskPending \<Rightarrow> ''pending'' | TaskRunning \<Rightarrow> ''running'' | TaskPaused \<Rightarrow> ''paused''
     | TaskCompleted \<Rightarrow> ''completed'' | TaskFailed \<Rightarrow> ''failed'' | TaskKilled \<Rightarrow> ''killed'')"

definition task_body :: "AgentTask \<Rightarrow> json" where
  "task_body t = JObj ([(''id'', JStr (tk_id t)), (''selectedAgentId'', JStr (tk_selectedAgentId t)),
     (''status'', JStr (task_status_text (tk_status t))), (''initialInput'', JStr (tk_initialInput t)),
     (''background'', JBool (tk_background t))] @ text_field ''parentRunId'' (tk_parentRunId t)
     @ text_field ''parentTaskId'' (tk_parentTaskId t) @ text_field ''activeRunId'' (tk_activeRunId t)
     @ [(''transcript'', JObj [(''taskId'', JStr (tx_taskId (tk_transcript t))),
          (''lastMessageSeq'', JNum (int (tx_lastMessageSeq (tk_transcript t))))]),
        (''metadata'', JObj (tk_metadata t)), (''createdAt'', JStr (tk_createdAt t)),
        (''updatedAt'', JStr (tk_updatedAt t))] @ text_field ''error'' (tk_error t))"

definition role_name :: "PendingRole \<Rightarrow> string" where
  "role_name r = (case r of RoleUser \<Rightarrow> ''user'' | RoleSystem \<Rightarrow> ''system'')"

definition pending_body :: "AgentTaskPendingMessage \<Rightarrow> json" where
  "pending_body p = JObj ([(''id'', JStr (pn_id p)), (''taskId'', JStr (pn_taskId p)), (''role'', JStr (role_name (pn_role p))),
     (''content'', JStr (pn_content p)), (''createdAt'', JStr (pn_createdAt p))] @ text_field ''deliveredAt'' (pn_deliveredAt p))"

definition call_body :: "ToolCall \<Rightarrow> json" where
  "call_body c = JObj [(''toolCallId'', JStr (tc_toolCallId c)), (''toolName'', JStr (tc_toolName c)), (''args'', tc_args c)]"

definition message_body :: "Message \<Rightarrow> json" where
  "message_body m = JObj (case m of
       SystemMessage c \<Rightarrow> [(''role'', JStr ''system''), (''content'', JStr c)]
     | UserMessage c \<Rightarrow> [(''role'', JStr ''user''), (''content'', JStr c)]
     | AssistantMessage c cs \<Rightarrow> [(''role'', JStr ''assistant'')] @ text_field ''content'' c
         @ (case cs of None \<Rightarrow> [] | Some l \<Rightarrow> [(''toolCalls'', JArr (map call_body l))])
     | ToolMessage i c \<Rightarrow> [(''role'', JStr ''tool''), (''toolCallId'', JStr i), (''content'', JStr c)])"

definition ok_reply :: "int \<Rightarrow> json \<Rightarrow> reply" where
  "ok_reply st b = \<lparr>rp_status = st, rp_body = b\<rparr>"

section \<open>The agent service without interruption\<close>

text \<open>
  \<^verbatim>\<open>resumeAgentTask\<close> from its reads to its return value. Its reads yield a \<open>TStart\<close> when the task
  is to be started, so the last case does not occur.
\<close>

definition resume_now ::
    "environment \<Rightarrow> ident \<Rightarrow> timestamp \<Rightarrow> service \<Rightarrow> ident \<Rightarrow> service \<times> AgentTask result" where
  "resume_now ev uuid now sv taskId =
     (case resumeAgentTask sv taskId of
        Inl e \<Rightarrow> (sv, Inl e)
      | Inr (Inl task) \<Rightarrow> (sv, Inr task)
      | Inr (Inr (TStart task a input hist ids)) \<Rightarrow>
          (let (sv1, started) = startAgentTaskExecution ev uuid now sv task a input hist
           in (sv1\<lparr>sv_store := fold (\<lambda>p s. fst (pending_deliver now s p)) ids (sv_store sv1)\<rparr>, Inr started))
      | Inr (Inr _) \<Rightarrow> (sv, Inl (task_not_found taskId)))"

section \<open>Routes\<close>

record BackgroundTaskInput =
  bg_agentId :: ident
  bg_input :: string
  bg_parentRunId :: "ident option"
  bg_parentTaskId :: "ident option"
  bg_metadata :: "(string \<times> json) list option"

record TaskMessageInput =
  tmi_content :: string
  tmi_role :: PendingRole

record route_schemas =
  CreateAgentSchema :: "json option \<Rightarrow> issue list + CreateAgent"
  TaskSchema :: "json option \<Rightarrow> issue list + ident \<times> string"
  CreateBackgroundAgentTaskSchema :: "json option \<Rightarrow> issue list + BackgroundTaskInput"
  AgentTaskMessageSchema :: "json option \<Rightarrow> issue list + TaskMessageInput"

record draws =
  dr_uuid :: ident
  dr_uuid2 :: ident
  dr_now :: timestamp

definition background_options :: "BackgroundTaskInput \<Rightarrow> CreateBackgroundTaskOptions" where
  "background_options b = \<lparr>bo_background = None, bo_parentRunId = bg_parentRunId b,
     bo_parentTaskId = bg_parentTaskId b, bo_metadata = bg_metadata b\<rparr>"

definition not_found_or_throw :: "exn \<Rightarrow> reply" where
  "not_found_or_throw e =
     (if js_includes (message e) ''not found'' then error_reply 404 ''NOT_FOUND'' (message e)
      else errorHandler 0 (Thrown e))"

definition post_agent :: "route_schemas \<Rightarrow> draws \<Rightarrow> service \<Rightarrow> request \<Rightarrow> service \<times> reply" where
  "post_agent sc dr sv req =
     (case CreateAgentSchema sc (rq_body req) of
        Inl is \<Rightarrow> (sv, validation_reply ''Invalid agent definition'' is)
      | Inr d \<Rightarrow>
          (let (s, a) = InMemoryAgentRepository_create (dr_uuid dr) (sv_store sv) d
           in (sv\<lparr>sv_store := s\<rparr>, ok_reply 201 (agent_body a))))"

definition get_agents :: "service \<Rightarrow> reply" where
  "get_agents sv = ok_reply 200 (JArr (map agent_body (InMemoryAgentRepository_list (sv_store sv))))"

definition get_agent :: "service \<Rightarrow> request \<Rightarrow> reply" where
  "get_agent sv req =
     (case InMemoryAgentRepository_get (sv_store sv) (rq_id req) of
        None \<Rightarrow> error_reply 404 ''NOT_FOUND'' (quoted_not_found ''Agent'' (rq_id req))
      | Some a \<Rightarrow> ok_reply 200 (agent_body a))"

definition delete_agent :: "service \<Rightarrow> request \<Rightarrow> service \<times> reply" where
  "delete_agent sv req =
     (let (s, deleted) = InMemoryAgentRepository_delete (sv_store sv) (rq_id req)
      in (sv\<lparr>sv_store := s\<rparr>,
          if deleted then ok_reply 204 JNull
          else error_reply 404 ''NOT_FOUND'' (quoted_not_found ''Agent'' (rq_id req))))"

definition post_task :: "route_schemas \<Rightarrow> environment \<Rightarrow> draws \<Rightarrow> service \<Rightarrow> request \<Rightarrow> service \<times> reply" where
  "post_task sc ev dr sv req =
     (case TaskSchema sc (rq_body req) of
        Inl is \<Rightarrow> (sv, validation_reply ''Invalid task submission'' is)
      | Inr (agentId, input) \<Rightarrow>
          (case submitTask ev (dr_uuid dr) (dr_now dr) sv agentId input of
             (sv', Inr run) \<Rightarrow> (sv', ok_reply 201 (run_body run))
           | (sv', Inl e) \<Rightarrow> (sv', not_found_or_throw e)))"

definition get_runs :: "service \<Rightarrow> reply" where
  "get_runs sv = ok_reply 200 (JArr (map run_body (InMemoryRunRepository_list (sv_store sv))))"

definition get_run :: "service \<Rightarrow> request \<Rightarrow> reply" where
  "get_run sv req =
     (case run_get (sv_store sv) (rq_id req) of
        None \<Rightarrow> error_reply 404 ''NOT_FOUND'' (quoted_not_found ''Run'' (rq_id req))
      | Some r \<Rightarrow> ok_reply 200 (run_body r))"

definition get_run_messages :: "service \<Rightarrow> request \<Rightarrow> reply" where
  "get_run_messages sv req =
     (case run_get (sv_store sv) (rq_id req) of
        None \<Rightarrow> error_reply 404 ''NOT_FOUND'' (quoted_not_found ''Run'' (rq_id req))
      | Some r \<Rightarrow> ok_reply 200 (JArr (map message_body (run_messages (sv_store sv) (rq_id req)))))"

definition post_background :: "route_schemas \<Rightarrow> environment \<Rightarrow> draws \<Rightarrow> service \<Rightarrow> request \<Rightarrow> service \<times> reply" where
  "post_background sc ev dr sv req =
     (case CreateBackgroundAgentTaskSchema sc (rq_body req) of
        Inl is \<Rightarrow> (sv, validation_reply ''Invalid background agent task request'' is)
      | Inr b \<Rightarrow>
          (case createBackgroundTask ev (dr_uuid dr) (dr_uuid2 dr) (dr_now dr) sv (bg_agentId b) (bg_input b)
                  (background_options b) of
             (sv', Inr task) \<Rightarrow> (sv', ok_reply 201 (task_body task))
           | (sv', Inl e) \<Rightarrow> (sv', not_found_or_throw e)))"

definition get_tasks :: "service \<Rightarrow> reply" where
  "get_tasks sv = ok_reply 200 (JArr (map task_body (InMemoryAgentTaskRepository_list (sv_store sv))))"

definition get_task :: "service \<Rightarrow> request \<Rightarrow> reply" where
  "get_task sv req =
     (case task_get (sv_store sv) (rq_id req) of
        None \<Rightarrow> error_reply 404 ''NOT_FOUND'' (quoted_not_found ''Agent task'' (rq_id req))
      | Some t \<Rightarrow> ok_reply 200 (task_body t))"

definition get_task_messages :: "service \<Rightarrow> request \<Rightarrow> reply" where
  "get_task_messages sv req =
     (case task_get (sv_store sv) (rq_id req) of
        None \<Rightarrow> error_reply 404 ''NOT_FOUND'' (quoted_not_found ''Agent task'' (rq_id req))
      | Some t \<Rightarrow> ok_reply 200 (JArr (map message_body (getAgentTaskMessages sv (rq_id req)))))"

definition post_task_message :: "route_schemas \<Rightarrow> draws \<Rightarrow> service \<Rightarrow> request \<Rightarrow> service \<times> reply" where
  "post_task_message sc dr sv req =
     (case AgentTaskMessageSchema sc (rq_body req) of
        Inl is \<Rightarrow> (sv, validation_reply ''Invalid agent task message'' is)
      | Inr m \<Rightarrow>
          (case sendMessageToAgentTask (dr_uuid dr) (dr_now dr) sv (rq_id req) (tmi_content m) (tmi_role m) of
             (sv', Inr p) \<Rightarrow> (sv', ok_reply 202 (pending_body p))
           | (sv', Inl e) \<Rightarrow> (sv', not_found_or_throw e)))"

definition post_resume :: "environment \<Rightarrow> draws \<Rightarrow> service \<Rightarrow> request \<Rightarrow> service \<times> reply" where
  "post_resume ev dr sv req =
     (case resume_now ev (dr_uuid dr) (dr_now dr) sv (rq_id req) of
        (sv', Inr task) \<Rightarrow> (sv', ok_reply 202 (task_body task))
      | (sv', Inl e) \<Rightarrow> (sv', not_found_or_throw e))"

text \<open>The fourteen routes with the roles they require.\<close>

datatype agent_call =
  PostAgent | GetAgents | GetAgent | DeleteAgent | PostTask | GetRuns | GetRun | GetRunMessages
| PostBackground | GetTasks | GetTask | GetTaskMessages | PostTaskMessage | PostResume

definition call_roles :: "agent_call \<Rightarrow> ApiKeyRole list" where
  "call_roles c =
     (if c \<in> {PostAgent, DeleteAgent, PostTask, PostBackground, PostTaskMessage, PostResume} then writeRoles
      else readRoles)"

fun agent_handler ::
    "route_schemas \<Rightarrow> environment \<Rightarrow> draws \<Rightarrow> agent_call \<Rightarrow> service \<Rightarrow> request \<Rightarrow> service \<times> reply" where
  "agent_handler sc ev dr PostAgent sv req = post_agent sc dr sv req"
| "agent_handler sc ev dr GetAgents sv req = (sv, get_agents sv)"
| "agent_handler sc ev dr GetAgent sv req = (sv, get_agent sv req)"
| "agent_handler sc ev dr DeleteAgent sv req = delete_agent sv req"
| "agent_handler sc ev dr PostTask sv req = post_task sc ev dr sv req"
| "agent_handler sc ev dr GetRuns sv req = (sv, get_runs sv)"
| "agent_handler sc ev dr GetRun sv req = (sv, get_run sv req)"
| "agent_handler sc ev dr GetRunMessages sv req = (sv, get_run_messages sv req)"
| "agent_handler sc ev dr PostBackground sv req = post_background sc ev dr sv req"
| "agent_handler sc ev dr GetTasks sv req = (sv, get_tasks sv)"
| "agent_handler sc ev dr GetTask sv req = (sv, get_task sv req)"
| "agent_handler sc ev dr GetTaskMessages sv req = (sv, get_task_messages sv req)"
| "agent_handler sc ev dr PostTaskMessage sv req = post_task_message sc dr sv req"
| "agent_handler sc ev dr PostResume sv req = post_resume ev dr sv req"

definition agent_route ::
    "route_schemas \<Rightarrow> environment \<Rightarrow> draws \<Rightarrow> agent_call \<Rightarrow> service \<Rightarrow> request \<Rightarrow> service \<times> reply" where
  "agent_route sc ev dr c sv req =
     (case requireRoles (call_roles c) req of
        Some rep \<Rightarrow> (sv, rep)
      | None \<Rightarrow> agent_handler sc ev dr c sv req)"

section \<open>Settings and health\<close>

definition settings_body :: "RuntimeSettings \<Rightarrow> json" where
  "settings_body s = JObj [(''locale'', JStr (locale_text (rs_locale s)))]"

record settings_store =
  ss_schema :: "json \<Rightarrow> issue list + RuntimeSettings"
  ss_schemaError :: "issue list \<Rightarrow> exn"
  ss_readable :: "string \<Rightarrow> unit result"
  ss_writable :: "string \<Rightarrow> unit result"
  ss_file :: string

definition settings_get :: "settings_store \<Rightarrow> file_system \<Rightarrow> RuntimeSettings" where
  "settings_get st fs = readRuntimeSettings (ss_schema st) (ss_readable st) fs (ss_file st)"

definition settings_update ::
    "settings_store \<Rightarrow> file_system \<Rightarrow> ConsoleLocale option \<Rightarrow> file_system \<times> RuntimeSettings result" where
  "settings_update st fs next_locale =
     writeRuntimeSettings (ss_schema st) (ss_schemaError st) (ss_readable st) (ss_writable st) fs (ss_file st) next_locale"

definition get_settings :: "settings_store \<Rightarrow> file_system \<Rightarrow> reply" where
  "get_settings st fs = ok_reply 200 (settings_body (settings_get st fs))"

definition put_settings ::
    "(json option \<Rightarrow> issue list + ConsoleLocale) \<Rightarrow> settings_store \<Rightarrow> file_system \<Rightarrow> request \<Rightarrow> file_system \<times> reply" where
  "put_settings localeSchema st fs req =
     (case localeSchema (Option.bind (rq_body req) (\<lambda>b. json_field b ''locale'')) of
        Inl is \<Rightarrow> (fs, validation_reply ''Invalid runtime settings'' is)
      | Inr l \<Rightarrow>
          (case settings_update st fs (Some l) of
             (fs', Inr s) \<Rightarrow> (fs', ok_reply 200 (settings_body s))
           | (fs', Inl e) \<Rightarrow> (fs', errorHandler 0 (Thrown e))))"

datatype HealthStatus = Healthy | Degraded | Unhealthy

record HealthCheckResult =
  hc_status :: HealthStatus
  hc_detail :: "string option"

definition health_text :: "HealthStatus \<Rightarrow> string" where
  "health_text h = (case h of Healthy \<Rightarrow> ''healthy'' | Degraded \<Rightarrow> ''degraded'' | Unhealthy \<Rightarrow> ''unhealthy'')"

definition health_result_body :: "HealthCheckResult \<Rightarrow> json" where
  "health_result_body r = JObj ([(''status'', JStr (health_text (hc_status r)))] @ text_field ''detail'' (hc_detail r))"

text \<open>A database check runs a query; a thrown error makes the database unhealthy.\<close>

definition DatabaseHealthCheck_check :: "unit result \<Rightarrow> HealthCheckResult" where
  "DatabaseHealthCheck_check q =
     (case q of Inr _ \<Rightarrow> \<lparr>hc_status = Healthy, hc_detail = None\<rparr>
      | Inl e \<Rightarrow> \<lparr>hc_status = Unhealthy, hc_detail = Some (message e)\<rparr>)"

text \<open>A check may throw; then the handler throws and the error handler replies.\<close>

fun health_loop ::
    "(string \<times> HealthCheckResult result) list \<Rightarrow> (string, HealthCheckResult) jsmap \<Rightarrow> HealthStatus
     \<Rightarrow> ((string, HealthCheckResult) jsmap \<times> HealthStatus) result" where
  "health_loop [] results overall = Inr (results, overall)"
| "health_loop ((name, r) # checks) results overall =
     (case r of
        Inl e \<Rightarrow> Inl e
      | Inr x \<Rightarrow>
          health_loop checks (jm_set results name x)
            (if hc_status x = Unhealthy then Unhealthy
             else if hc_status x = Degraded \<and> overall = Healthy then Degraded else overall))"

definition get_health :: "(string \<times> HealthCheckResult result) list \<Rightarrow> reply" where
  "get_health checks =
     (case health_loop checks [] Healthy of
        Inl e \<Rightarrow> errorHandler 0 (Thrown e)
      | Inr (results, overall) \<Rightarrow>
          ok_reply (if overall = Unhealthy then 503 else 200)
            (JObj ([(''status'', JStr (health_text overall))]
               @ (if results \<noteq> [] then [(''details'', JObj (map (map_prod id health_result_body) results))] else []))))"

section \<open>Orchestration tools\<close>

record SendMessageInput =
  sm_taskId :: ident
  sm_content :: string
  sm_role :: PendingRole

definition text_outcome :: "('a \<Rightarrow> json) \<Rightarrow> 'a result \<Rightarrow> ToolExecutionOutput result" where
  "text_outcome body r = (case r of Inl e \<Rightarrow> Inl e | Inr x \<Rightarrow> Inr (OutText (json_stringify (body x))))"

definition spawn_tool ::
    "environment \<Rightarrow> draws \<Rightarrow> service \<Rightarrow> BackgroundTaskInput \<Rightarrow> service \<times> ToolExecutionOutput result" where
  "spawn_tool ev dr sv b =
     map_prod id (text_outcome task_body)
       (createBackgroundTask ev (dr_uuid dr) (dr_uuid2 dr) (dr_now dr) sv (bg_agentId b) (bg_input b) (background_options b))"

definition list_tool :: "service \<Rightarrow> ToolExecutionOutput result" where
  "list_tool sv = Inr (OutText (json_stringify (JArr (map task_body (InMemoryAgentTaskRepository_list (sv_store sv))))))"

definition get_tool :: "service \<Rightarrow> ident \<Rightarrow> ToolExecutionOutput result" where
  "get_tool sv taskId =
     Inr (OutText (json_stringify (JObj
       ((case task_get (sv_store sv) taskId of None \<Rightarrow> [] | Some t \<Rightarrow> [(''task'', task_body t)])
        @ [(''messages'', JArr (map message_body (getAgentTaskMessages sv taskId)))]))))"

definition resume_tool :: "environment \<Rightarrow> draws \<Rightarrow> service \<Rightarrow> ident \<Rightarrow> service \<times> ToolExecutionOutput result" where
  "resume_tool ev dr sv taskId = map_prod id (text_outcome task_body) (resume_now ev (dr_uuid dr) (dr_now dr) sv taskId)"

definition send_message_tool :: "draws \<Rightarrow> service \<Rightarrow> SendMessageInput \<Rightarrow> service \<times> ToolExecutionOutput result" where
  "send_message_tool dr sv i =
     map_prod id (text_outcome pending_body)
       (sendMessageToAgentTask (dr_uuid dr) (dr_now dr) sv (sm_taskId i) (sm_content i) (sm_role i))"

text \<open>
  The schemas of the tools, with the typed view of the values they return; the state a call meets and
  the identifiers it draws are given by its call identifier.
\<close>

record orchestration_schemas =
  SpawnAgentTaskInputSchema :: schema
  spawn_input :: "json \<Rightarrow> BackgroundTaskInput"
  ListAgentTasksInputSchema :: schema
  InspectAgentTaskInputSchema :: schema
  ResumeAgentTaskInputSchema :: schema
  SendMessageToAgentTaskInputSchema :: schema
  send_input :: "json \<Rightarrow> SendMessageInput"

definition orchestration_tool ::
    "string \<Rightarrow> string \<Rightarrow> schema \<Rightarrow> bool \<Rightarrow> (ident \<Rightarrow> json \<Rightarrow> settled) \<Rightarrow> ToolHandler" where
  "orchestration_tool n descr sch safe run =
     \<lparr>th_definition = \<lparr>td_name = n, td_description = descr, td_inputSchema = sch, td_sandbox = None,
        td_concurrency = Some \<lparr>cc_safe = safe, cc_cancelSiblingsOnFailure = None\<rparr>\<rparr>,
      th_execute = run\<rparr>"

definition orchestration_tools ::
    "orchestration_schemas \<Rightarrow> environment \<Rightarrow> (ident \<Rightarrow> draws) \<Rightarrow> (ident \<Rightarrow> service) \<Rightarrow> (ident \<Rightarrow> nat) \<Rightarrow> ToolHandler list" where
  "orchestration_tools sc ev dr st dur =
     (let timed = (\<lambda>cid out. Some (dur cid, out))
      in [orchestration_tool ''agent_tasks.spawn'' ''Creates a background agent task for another agent definition.''
            (SpawnAgentTaskInputSchema sc) False
            (\<lambda>cid a. timed cid (snd (spawn_tool ev (dr cid) (st cid) (spawn_input sc a)))),
          orchestration_tool ''agent_tasks.list'' ''Lists background agent tasks and their current execution state.''
            (ListAgentTasksInputSchema sc) True (\<lambda>cid a. timed cid (list_tool (st cid))),
          orchestration_tool ''agent_tasks.get''
            ''Returns the current state and transcript summary for one background agent task.''
            (InspectAgentTaskInputSchema sc) True (\<lambda>cid a. timed cid (get_tool (st cid) (str_arg ''taskId'' a))),
          orchestration_tool ''agent_tasks.resume'' ''Resumes a stopped background agent task.''
            (ResumeAgentTaskInputSchema sc) False
            (\<lambda>cid a. timed cid (snd (resume_tool ev (dr cid) (st cid) (str_arg ''taskId'' a)))),
          orchestration_tool ''agent_tasks.send_message''
            ''Sends a follow-up message to a background agent task and resumes it when necessary.''
            (SendMessageToAgentTaskInputSchema sc) False
            (\<lambda>cid a. timed cid (snd (send_message_tool (dr cid) (st cid) (send_input sc a))))])"

definition registerAgentTaskOrchestrationTools ::
    "orchestration_schemas \<Rightarrow> environment \<Rightarrow> (ident \<Rightarrow> draws) \<Rightarrow> (ident \<Rightarrow> service) \<Rightarrow> (ident \<Rightarrow> nat)
     \<Rightarrow> ToolRegistry \<Rightarrow> ToolRegistry \<times> unit result" where
  "registerAgentTaskOrchestrationTools sc ev dr st dur reg = register_all reg (orchestration_tools sc ev dr st dur)"

section \<open>Routes as steps of the service\<close>

lemma command_steps: "enabled c sv \<Longrightarrow> service_step\<^sup>*\<^sup>* sv (command_step ev c sv)"
  using service_step.step by blast

lemma fresh_run: "\<exists>u. run_get s u = None"
proof -
  have "finite (dom (map_of (st_runs s)))" by (rule finite_dom_map_of)
  then obtain u where "u \<notin> dom (map_of (st_runs s))"
    using ex_new_if_finite [OF infinite_UNIV_listI] by blast
  then show ?thesis by (auto simp: InMemoryRunRepository_get_def domIff)
qed

text \<open>Running the thread at one position: the threads before and after it stay.\<close>

lemma advance_listed:
  assumes "sv_threads sv = xs @ th # ys" and "thread_step ev uuid now sv th = (sv', ts)"
    and "sv_threads sv' = xs @ th # ys @ zs"
  shows "advance ev uuid now (length xs) sv = sv'\<lparr>sv_threads := xs @ ts @ ys @ zs\<rparr>"
  using assms by (simp add: advance_def)

lemma advance_steps:
  assumes "sv_threads sv = xs @ th # ys" and "thread_step ev uuid now sv th = (sv', ts)"
    and "sv_threads sv' = xs @ th # ys @ zs" and "run_get (sv_store sv) uuid = None"
  shows "service_step\<^sup>*\<^sup>* sv (sv'\<lparr>sv_threads := xs @ ts @ ys @ zs\<rparr>)"
  using command_steps [of "AdvanceCmd uuid now (length xs)" sv ev] advance_listed [OF assms(1-3)] assms(1,4) by simp

lemma deliver_steps:
  "sv_threads sv = xs @ TDeliver ids # ys \<Longrightarrow>
   service_step\<^sup>*\<^sup>* sv (sv\<lparr>sv_store := fold (\<lambda>p s. fst (pending_deliver now s p)) ids (sv_store sv), sv_threads := xs @ ys\<rparr>)"
proof (induction ids arbitrary: sv)
  case Nil
  obtain u where "run_get (sv_store sv) u = None" using fresh_run by blast
  with advance_steps [OF Nil, of undefined u now sv "[]" "[]"] Nil show ?case by simp
next
  case (Cons p ids)
  obtain u where u: "run_get (sv_store sv) u = None" using fresh_run by blast
  let ?sv = "sv\<lparr>sv_store := fst (pending_deliver now (sv_store sv) p)\<rparr>"
  have "service_step\<^sup>*\<^sup>* sv (?sv\<lparr>sv_threads := xs @ [TDeliver ids] @ ys @ []\<rparr>)"
    by (rule advance_steps [OF Cons.prems _ _ u, of undefined now]) (use Cons.prems in simp_all)
  moreover have "service_step\<^sup>*\<^sup>* (?sv\<lparr>sv_threads := xs @ TDeliver ids # ys\<rparr>)
      (?sv\<lparr>sv_store := fold (\<lambda>p s. fst (pending_deliver now s p)) ids (sv_store ?sv), sv_threads := xs @ ys\<rparr>)"
    using Cons.IH [of "?sv\<lparr>sv_threads := xs @ TDeliver ids # ys\<rparr>"] by simp
  ultimately show ?case by simp
qed

lemma start_threads:
  "\<exists>zs. sv_threads (fst (startAgentTaskExecution ev uuid now sv task a input hist)) = sv_threads sv @ zs"
  using start_cases [of ev uuid now sv task a input hist] by auto

lemma start_ignores_threads:
  "startAgentTaskExecution ev uuid now (sv\<lparr>sv_threads := sv_threads sv @ ys\<rparr>) task a input hist =
   (let (sv', t) = startAgentTaskExecution ev uuid now sv task a input hist
    in (sv'\<lparr>sv_threads := sv_threads sv @ ys @ drop (length (sv_threads sv)) (sv_threads sv')\<rparr>, t))"
  by (simp add: startAgentTaskExecution_def case_prod_unfold Let_def spawn_def)

lemma resume_ignores_threads: "resumeAgentTask (sv\<lparr>sv_threads := ts\<rparr>) taskId = resumeAgentTask sv taskId"
  by (auto simp: resumeAgentTask_def split: option.splits)

lemma resume_now_steps:
  assumes "run_get (sv_store sv) uuid = None"
  shows "service_step\<^sup>*\<^sup>* sv (fst (resume_now ev uuid now sv taskId))"
proof (cases "\<exists>task a input hist ids. resumeAgentTask sv taskId = Inr (Inr (TStart task a input hist ids))")
  case True
  then obtain task a input hist ids where r: "resumeAgentTask sv taskId = Inr (Inr (TStart task a input hist ids))" by blast
  let ?T = "sv_threads sv"
  let ?sv1 = "sv\<lparr>sv_threads := ?T @ [TResume taskId]\<rparr>" and ?sv2 = "sv\<lparr>sv_threads := ?T @ [TStart task a input hist ids]\<rparr>"
  obtain sv3 started where s: "startAgentTaskExecution ev uuid now sv task a input hist = (sv3, started)" by fastforce
  obtain zs where zs: "sv_threads sv3 = ?T @ zs" using start_threads [of ev uuid now sv task a input hist] s by auto
  let ?sv4 = "sv3\<lparr>sv_threads := ?T @ [TDeliver ids] @ zs\<rparr>"
  have "service_step\<^sup>*\<^sup>* sv ?sv1" using command_steps [of "ResumeCmd taskId" sv ev] by (simp add: spawn_def)
  also have "service_step\<^sup>*\<^sup>* ?sv1 ?sv2"
    using advance_steps [of ?sv1 ?T "TResume taskId" "[]" ev uuid now ?sv1 "[TStart task a input hist ids]" "[]"] assms r
    by (simp add: resume_ignores_threads)
  also have "service_step\<^sup>*\<^sup>* ?sv2 ?sv4"
    using advance_steps [of ?sv2 ?T "TStart task a input hist ids" "[]" ev uuid now
        "sv3\<lparr>sv_threads := ?T @ [TStart task a input hist ids] @ zs\<rparr>" "[TDeliver ids]" zs] assms s zs
    by (simp add: start_ignores_threads)
  also have "service_step\<^sup>*\<^sup>* ?sv4
      (sv3\<lparr>sv_store := fold (\<lambda>p s. fst (pending_deliver now s p)) ids (sv_store sv3), sv_threads := ?T @ zs\<rparr>)"
    using deliver_steps [of ?sv4 ?T ids zs now] by simp
  finally show ?thesis using r s zs
    by (simp add: resume_now_def) (metis service.surjective service.update_convs(1,3))
next
  case False
  then have "fst (resume_now ev uuid now sv taskId) = sv"
    by (auto simp: resume_now_def split: sum.splits thread.splits)
  then show ?thesis by simp
qed

definition fresh_draws :: "draws \<Rightarrow> service \<Rightarrow> bool" where
  "fresh_draws dr sv \<longleftrightarrow> run_get (sv_store sv) (dr_uuid dr) = None \<and> run_get (sv_store sv) (dr_uuid2 dr) = None
     \<and> task_get (sv_store sv) (dr_uuid dr) = None \<and> transcript_of (sv_store sv) (dr_uuid dr) = []
     \<and> jm_get (st_pending (sv_store sv)) (dr_uuid dr) = None"

lemma handler_steps:
  assumes "fresh_draws dr sv"
  shows "service_step\<^sup>*\<^sup>* sv (fst (agent_handler sc ev dr c sv req))"
proof (cases c)
  case PostAgent
  have "service_step\<^sup>*\<^sup>* sv (sv\<lparr>sv_store := fst (InMemoryAgentRepository_create (dr_uuid dr) (sv_store sv) d)\<rparr>)" for d
    using command_steps [of "CreateAgentCmd (dr_uuid dr) d" sv] by simp
  with PostAgent show ?thesis by (auto simp: post_agent_def case_prod_unfold Let_def split: sum.splits)
next
  case DeleteAgent
  have "service_step\<^sup>*\<^sup>* sv (sv\<lparr>sv_store := fst (InMemoryAgentRepository_delete (sv_store sv) (rq_id req))\<rparr>)"
    using command_steps [of "DeleteAgentCmd (rq_id req)" sv] by simp
  with DeleteAgent show ?thesis by (simp add: delete_agent_def case_prod_unfold Let_def)
next
  case PostTask
  have "service_step\<^sup>*\<^sup>* sv (fst (submitTask ev (dr_uuid dr) (dr_now dr) sv a input))" for a input
    using command_steps [of "SubmitCmd (dr_uuid dr) (dr_now dr) a input" sv ev] assms by (simp add: fresh_draws_def)
  with PostTask show ?thesis by (auto simp: post_task_def split: sum.splits prod.splits) (metis fst_conv)+
next
  case PostBackground
  have "service_step\<^sup>*\<^sup>* sv (fst (createBackgroundTask ev (dr_uuid dr) (dr_uuid2 dr) (dr_now dr) sv a input opts))" for a input opts
    using command_steps [of "BackgroundCmd (dr_uuid dr) (dr_uuid2 dr) (dr_now dr) a input opts" sv ev] assms
    by (simp add: fresh_draws_def)
  with PostBackground show ?thesis by (auto simp: post_background_def split: sum.splits prod.splits) (metis fst_conv)+
next
  case PostTaskMessage
  have "service_step\<^sup>*\<^sup>* sv (fst (sendMessageToAgentTask (dr_uuid dr) (dr_now dr) sv t m r))" for t m r
    using command_steps [of "SendCmd (dr_uuid dr) (dr_now dr) t m r" sv] assms by (simp add: fresh_draws_def)
  with PostTaskMessage show ?thesis by (auto simp: post_task_message_def split: sum.splits prod.splits) (metis fst_conv)+
next
  case PostResume
  have "service_step\<^sup>*\<^sup>* sv (fst (resume_now ev (dr_uuid dr) (dr_now dr) sv (rq_id req)))"
    using resume_now_steps assms by (simp add: fresh_draws_def)
  with PostResume show ?thesis by (auto simp: post_resume_def split: sum.splits prod.splits)
qed simp_all

lemma reachable_steps: "service_step\<^sup>*\<^sup>* sv sv' \<Longrightarrow> reachable sv \<Longrightarrow> reachable sv'"
  by (induction rule: rtranclp_induct) (auto intro: reachable.step)

text \<open>A submission, written out over the agent repository.\<close>

lemma post_task_exact:
  "post_task sc ev dr sv req = (case TaskSchema sc (rq_body req) of
      Inl is \<Rightarrow> (sv, validation_reply ''Invalid task submission'' is)
    | Inr (agentId, input) \<Rightarrow>
        (case InMemoryAgentRepository_get (sv_store sv) agentId of
           None \<Rightarrow> (sv, error_reply 404 ''NOT_FOUND'' (message (agent_not_found agentId)))
         | Some a \<Rightarrow> (fst (submitTask ev (dr_uuid dr) (dr_now dr) sv agentId input),
             ok_reply 201 (run_body (new_run (dr_uuid dr) (dr_now dr) agentId input None)))))"
proof -
  have found: "js_includes (message (agent_not_found i)) ''not found''" for i
  proof -
    have "message (agent_not_found i) = (''Agent '' @ [CHR 0x22] @ i @ [CHR 0x22] @ '' '') @ ''not found''"
      by (simp add: agent_not_found_def)
    then show ?thesis by (metis js_includes_middle)
  qed
  then show ?thesis
    by (auto simp: post_task_def submitTask_def not_found_or_throw_def Let_def store_ops
        split: sum.splits option.splits prod.splits)
qed

lemma submitTask_stores:
  assumes "InMemoryAgentRepository_get (sv_store sv) agentId = Some a"
  shows "run_get (sv_store (fst (submitTask ev uuid now sv agentId input))) uuid = Some (new_run uuid now agentId input None)"
    and "sv_threads (fst (submitTask ev uuid now sv agentId input)) = sv_threads sv @ [TExec uuid None (effects_of ev a input [])]"
  using assms by (auto simp: submitTask_def Let_def store_ops jm_get_set new_run_def split: prod.splits)

section \<open>Properties\<close>

text \<open>
  The agent routes need the right role. Without an API key every call is answered 401, with a key whose
  role is not allowed 403, and neither changes anything; reading calls change nothing at all, so a
  read-only key can never change agents, tasks, runs or messages.
\<close>

theorem agent_routes_authorised:
  "(case rq_apiKey req of
      None \<Rightarrow> fst (agent_route sc ev dr c sv req) = sv \<and> rp_status (snd (agent_route sc ev dr c sv req)) = 401
    | Some k \<Rightarrow>
        (if au_role k = RoleReadonly \<and> c \<in> {PostAgent, DeleteAgent, PostTask, PostBackground, PostTaskMessage, PostResume}
         then fst (agent_route sc ev dr c sv req) = sv \<and> rp_status (snd (agent_route sc ev dr c sv req)) = 403
         else agent_route sc ev dr c sv req = agent_handler sc ev dr c sv req))
   \<and> (c \<in> {PostAgent, DeleteAgent, PostTask, PostBackground, PostTaskMessage, PostResume}
        \<or> fst (agent_route sc ev dr c sv req) = sv)"
proof -
  have reading: "fst (agent_handler sc ev dr c sv req) = sv"
    if "c \<notin> {PostAgent, DeleteAgent, PostTask, PostBackground, PostTaskMessage, PostResume}"
    using that by (cases c) auto
  have roles: "requireRoles (call_roles c) req = None \<longleftrightarrow>
      (\<exists>k. rq_apiKey req = Some k \<and> \<not> (au_role k = RoleReadonly \<and>
         c \<in> {PostAgent, DeleteAgent, PostTask, PostBackground, PostTaskMessage, PostResume}))"
  proof (cases "rq_apiKey req")
    case (Some k)
    then show ?thesis
      by (cases "au_role k") (auto simp: requireRoles_def call_roles_def readRoles_def writeRoles_def)
  qed (simp add: requireRoles_def)
  have refused: "rp_status r = (case rq_apiKey req of None \<Rightarrow> 401 | Some _ \<Rightarrow> 403)"
    if "requireRoles (call_roles c) req = Some r" for r
    using that by (auto simp: requireRoles_def error_reply_def split: option.splits if_splits)
  show ?thesis
  proof (cases "requireRoles (call_roles c) req")
    case None
    with roles reading show ?thesis by (auto simp: agent_route_def split: option.splits)
  next
    case (Some r)
    with roles reading refused [OF Some] show ?thesis by (auto simp: agent_route_def split: option.splits)
  qed
qed

text \<open>
  Every route call is a sequence of steps of the agent service, whatever the request: with fresh
  identifiers the state after a call is reachable when the state before was, so at most one execution of a
  background task is under way and transcripts stay free of gaps, however clients use the routes.
\<close>

theorem routes_are_service_steps:
  assumes "reachable sv" and "fresh_draws dr sv"
  shows "service_step\<^sup>*\<^sup>* sv (fst (agent_route sc ev dr c sv req))
    \<and> reachable (fst (agent_route sc ev dr c sv req)) \<and> service_ok (fst (agent_route sc ev dr c sv req))"
proof -
  have steps: "service_step\<^sup>*\<^sup>* sv (fst (agent_route sc ev dr c sv req))"
    using handler_steps [OF assms(2)] by (simp add: agent_route_def split: option.splits)
  with reachable_steps assms(1) have "reachable (fst (agent_route sc ev dr c sv req))" by blast
  with steps reachable_ok show ?thesis by blast
qed

definition demo_draws :: draws where
  "demo_draws = \<lparr>dr_uuid = ''u1'', dr_uuid2 = ''u2'', dr_now = ''2026''\<rparr>"

definition demo_create :: CreateAgent where
  "demo_create = \<lparr>ca_name = ''n'', ca_systemPrompt = ''s'', ca_provider = \<lparr>pc_provider = ''p'', pc_model = ''m'',
     pc_temperature = None, pc_maxTokens = None\<rparr>, ca_tools = None, ca_effort = None, ca_isolation = None,
     ca_permissionMode = None, ca_mode = None, ca_maxTurns = None, ca_background = None\<rparr>"

definition demo_route_schemas :: route_schemas where
  "demo_route_schemas = \<lparr>CreateAgentSchema = (\<lambda>b. Inr demo_create), TaskSchema = (\<lambda>b. Inr (''a'', ''go'')),
     CreateBackgroundAgentTaskSchema = (\<lambda>b. Inr \<lparr>bg_agentId = ''a'', bg_input = ''go'', bg_parentRunId = None,
        bg_parentTaskId = None, bg_metadata = None\<rparr>),
     AgentTaskMessageSchema = (\<lambda>b. Inl [])\<rparr>"

definition demo_key_request :: request where
  "demo_key_request = demo_request\<lparr>rq_apiKey := Some (sanitizeApiKey (hd demo_rows))\<rparr>"

theorem routes_are_service_steps_witness:
  "reachable (fst (agent_route demo_route_schemas demo_env demo_draws PostAgent service_init demo_key_request))"
proof -
  have "fresh_draws demo_draws service_init"
    by (simp add: fresh_draws_def demo_draws_def service_init_def store_init_def store_ops)
  from routes_are_service_steps [OF reachable.init this] show ?thesis by blast
qed

text \<open>
  Submitting a task over HTTP: a body that fails its schema is answered 400, a task for an unknown agent
  404, and nothing changes; otherwise the reply is 201 with the new run, which is stored as pending under the
  drawn identifier, and exactly one execution, that of this run, is started.
\<close>

theorem submission_route_exact:
  assumes "rq_apiKey req = Some k" and "au_role k \<noteq> RoleReadonly"
    and "agent_route sc ev dr PostTask sv req = (sv', rep)"
  shows "case TaskSchema sc (rq_body req) of
      Inl is \<Rightarrow> rp_status rep = 400 \<and> sv' = sv
    | Inr (agentId, input) \<Rightarrow>
        (case InMemoryAgentRepository_get (sv_store sv) agentId of
           None \<Rightarrow> rp_status rep = 404 \<and> sv' = sv
         | Some a \<Rightarrow>
             (let run = new_run (dr_uuid dr) (dr_now dr) agentId input None
              in rep = ok_reply 201 (run_body run)
               \<and> run_get (sv_store sv') (dr_uuid dr) = Some run \<and> rn_status run = RunPending
               \<and> sv_threads sv' = sv_threads sv @ [TExec (dr_uuid dr) None (effects_of ev a input [])]))"
proof -
  have role: "requireRoles (call_roles PostTask) req = None"
    using assms(1,2) by (cases "au_role k") (simp_all add: requireRoles_def call_roles_def writeRoles_def)
  have "(sv', rep) = post_task sc ev dr sv req" using assms(3) role by (simp add: agent_route_def)
  then show ?thesis
    by (auto simp: post_task_exact validation_reply_def error_reply_def submitTask_stores new_run_def Let_def
        split: sum.splits option.splits)
qed

theorem submission_route_exact_witness:
  "rp_status (snd (agent_route demo_route_schemas demo_env demo_draws PostTask service_init demo_key_request)) = 404"
proof -
  let ?go = "agent_route demo_route_schemas demo_env demo_draws PostTask service_init demo_key_request"
  have key: "rq_apiKey demo_key_request = Some (sanitizeApiKey (hd demo_rows))" by (simp add: demo_key_request_def)
  have role: "au_role (sanitizeApiKey (hd demo_rows)) \<noteq> RoleReadonly" by code_simp
  have run: "?go = (fst ?go, snd ?go)" by simp
  from submission_route_exact [OF key role run] show ?thesis
    by (simp add: demo_route_schemas_def service_init_def store_init_def store_ops)
qed

text \<open>
  A background task for an agent that does not allow background execution is answered with an internal
  server error although the request is at fault: the route only recognises errors whose text contains
  \<^verbatim>\<open>not found\<close>.
\<close>

theorem background_refusal_is_500:
  assumes "rq_apiKey req = Some k" and "au_role k \<noteq> RoleReadonly"
    and "CreateBackgroundAgentTaskSchema sc (rq_body req) = Inr b"
    and "InMemoryAgentRepository_get (sv_store sv) (bg_agentId b) = Some a" and "\<not> ag_background a"
    and "\<not> js_includes (bg_agentId b @ [CHR 0x22] @ '' does not allow background execution'') ''not found''"
  shows "agent_route sc ev dr PostBackground sv req = (sv, error_reply 500 ''INTERNAL_ERROR'' ''Internal server error'')"
proof -
  have role: "requireRoles (call_roles PostBackground) req = None"
    using assms(1,2) by (cases "au_role k") (simp_all add: requireRoles_def call_roles_def writeRoles_def)
  let ?m = "''Agent '' @ [CHR 0x22] @ bg_agentId b @ [CHR 0x22] @ '' does not allow background execution''"
  have "\<not> js_includes ?m ''not found''" using assms(6) by simp
  with role assms(3-5) show ?thesis
    by (simp add: agent_route_def post_background_def createBackgroundTask_def not_found_or_throw_def errorHandler_def
        Let_def)
qed

definition demo_shy_service :: service where
  "demo_shy_service = service_init\<lparr>sv_store := fst (InMemoryAgentRepository_create ''a'' store_init demo_create)\<rparr>"

theorem background_refusal_is_500_witness:
  "rp_status (snd (agent_route demo_route_schemas demo_env demo_draws PostBackground demo_shy_service demo_key_request)) = 500"
proof -
  have key: "rq_apiKey demo_key_request = Some (sanitizeApiKey (hd demo_rows))" by (simp add: demo_key_request_def)
  have role: "au_role (sanitizeApiKey (hd demo_rows)) \<noteq> RoleReadonly" by code_simp
  have body: "CreateBackgroundAgentTaskSchema demo_route_schemas (rq_body demo_key_request) = Inr \<lparr>bg_agentId = ''a'',
      bg_input = ''go'', bg_parentRunId = None, bg_parentTaskId = None, bg_metadata = None\<rparr>"
    by (simp add: demo_route_schemas_def)
  have agent: "InMemoryAgentRepository_get (sv_store demo_shy_service) ''a'' = Some (new_agent ''a'' demo_create)"
    by (simp add: demo_shy_service_def store_init_def store_ops Let_def new_agent_def)
  from background_refusal_is_500 [OF key role body] agent show ?thesis
    by (simp add: error_reply_def new_agent_def demo_create_def)
qed

text \<open>
  The health reply aggregates exactly: when no check throws and checks have distinct names, it is
  unhealthy with status 503 if some check is unhealthy, otherwise 200 and degraded if some check is
  degraded, otherwise 200 and healthy; the details list every result, in the order of the checks.
\<close>

lemma health_loop_result:
  "distinct (map fst rs @ map fst checks) \<Longrightarrow>
   health_loop (map (map_prod id Inr) checks) rs overall =
     Inr (rs @ checks,
       if overall = Unhealthy \<or> (\<exists>(n, r) \<in> set checks. hc_status r = Unhealthy) then Unhealthy
       else if overall = Degraded \<or> (\<exists>(n, r) \<in> set checks. hc_status r = Degraded) then Degraded else Healthy)"
proof (induction checks arbitrary: rs overall)
  case (Cons c checks)
  obtain n r where c: "c = (n, r)" by (cases c)
  with Cons.prems have "jm_get rs n = None" by (auto simp: map_of_eq_None_iff)
  with Cons.IH [of "rs @ [(n, r)]"] Cons.prems c show ?case
    by (cases "hc_status r"; cases overall) (simp_all add: jm_set_fresh)
next
  case Nil
  then show ?case by (cases overall) simp_all
qed

theorem health_reply_exact:
  assumes "distinct (map fst checks)"
  shows "get_health (map (map_prod id Inr) checks) =
    (let overall = (if \<exists>(n, r) \<in> set checks. hc_status r = Unhealthy then Unhealthy
                    else if \<exists>(n, r) \<in> set checks. hc_status r = Degraded then Degraded else Healthy)
     in ok_reply (if overall = Unhealthy then 503 else 200)
          (JObj ((''status'', JStr (health_text overall))
             # (if checks = [] then [] else [(''details'', JObj (map (map_prod id health_result_body) checks))]))))"
  using health_loop_result [of "[]" checks Healthy] assms by (simp add: get_health_def Let_def)

theorem health_reply_exact_witness:
  "rp_status (get_health [(''db'', Inr \<lparr>hc_status = Degraded, hc_detail = None\<rparr>), (''q'', Inr \<lparr>hc_status = Unhealthy, hc_detail = None\<rparr>)]) = 503"
  using health_reply_exact [of "[(''db'', \<lparr>hc_status = Degraded, hc_detail = None\<rparr>), (''q'', \<lparr>hc_status = Unhealthy, hc_detail = None\<rparr>)]"]
  by (simp add: ok_reply_def Let_def)

end
