(* ===== verification/Connectors.thy ===== *)
theory Connectors
  imports Scheduler
begin

text \<open>
  Connectors turn outside events into tasks: the event processor with its filters, transformation and
  retries (\<^verbatim>\<open>packages/connector-worker/src/event-processor.ts\<close>), the webhook, polling and queue connectors
  (\<^verbatim>\<open>webhook-connector.ts\<close>, \<^verbatim>\<open>polling-connector.ts\<close>, \<^verbatim>\<open>queue-connector.ts\<close>), the SQLite repositories
  (\<^verbatim>\<open>connector-repository.ts\<close> and \<^verbatim>\<open>connector-event-repository.ts\<close> of \<^verbatim>\<open>packages/storage\<close>), the routes
  (\<^verbatim>\<open>routes/connectors.ts\<close>, \<^verbatim>\<open>routes/webhooks.ts\<close>) and the life cycle (\<^verbatim>\<open>assembly/connectors.ts\<close>).

  JSONPath (\<open>jp\<close>: the first match, if any), Handlebars (\<open>hb\<close>), regular expressions (\<open>re\<close>), HMAC and SHA-256
  and \<^verbatim>\<open>JSON.parse\<close> are arguments; those that can throw return a result. A status an error carries under
  either name is its \<open>err_status\<close>. The agent service is the argument \<open>submit\<close>, which also takes the number
  of the attempt.
\<close>

section \<open>Data\<close>

datatype ConnectorType = TypeWebhook | TypeQueue | TypePolling

record WebhookConfig =
  wc_secret :: string
  wc_signatureHeader :: "string option"
  wc_signatureAlgorithm :: "string option"
  wc_allowedIPs :: "string list option"

record RabbitMqQueueConfig =
  rb_url :: string
  rb_queue :: string
  rb_exchange :: "string option"
  rb_exchangeType :: "string option"
  rb_routingKey :: "string option"
  rb_prefetch :: "nat option"
  rb_durable :: "bool option"
  rb_requeueOnFailure :: "bool option"
  rb_deadLetterExchange :: "string option"
  rb_deadLetterRoutingKey :: "string option"

record RedisQueueConfig =
  rd_url :: string
  rd_stream :: string
  rd_consumerGroup :: string
  rd_consumerName :: "string option"
  rd_batchSize :: "nat option"
  rd_blockMs :: "nat option"
  rd_requeueOnFailure :: "bool option"
  rd_deadLetterStream :: "string option"

datatype change_detection = DetectEtag | DetectContentHash | DetectLastModified

record PollingConfig =
  pg_url :: string
  pg_method :: "string option"
  pg_headers :: "(string \<times> string) list option"
  pg_interval :: nat
  pg_changeDetection :: "change_detection option"

datatype ConnectorConfig =
  CfgWebhook WebhookConfig
| CfgRabbit RabbitMqQueueConfig
| CfgRedis RedisQueueConfig
| CfgPolling PollingConfig

datatype filter_operator =
  OpEquals | OpNotEquals | OpContains | OpNotContains | OpStartsWith | OpEndsWith | OpGreaterThan | OpLessThan | OpRegex

text \<open>The value of a filter is a string, a number or a Boolean.\<close>

record TransformationFilter =
  tf_field :: string
  tf_operator :: filter_operator
  tf_value :: json

record Transformation =
  tn_inputTemplate :: "string option"
  tn_jsonPath :: "string option"
  tn_staticPrefix :: "string option"
  tn_staticSuffix :: "string option"
  tn_fallback :: "string option"
  tn_filters :: "TransformationFilter list option"

record Connector =
  cn_id :: ident
  cn_name :: string
  cn_type :: ConnectorType
  cn_agentId :: ident
  cn_config :: ConnectorConfig
  cn_transformation :: Transformation
  cn_enabled :: bool
  cn_createdAt :: timestamp
  cn_updatedAt :: timestamp
  cn_lastEventAt :: "timestamp option"

record CreateConnector =
  cc_name :: string
  cc_type :: ConnectorType
  cc_agentId :: ident
  cc_config :: ConnectorConfig
  cc_transformation :: Transformation

record UpdateConnector =
  uc_name :: "string option"
  uc_config :: "ConnectorConfig option"
  uc_transformation :: "Transformation option"
  uc_enabled :: "bool option"

datatype ConnectorEventStatus = EvPending | EvSubmitted | EvFailed | EvFiltered

record ConnectorEvent =
  ce_id :: ident
  ce_connectorId :: ident
  ce_payload :: string
  ce_transformedInput :: "string option"
  ce_status :: ConnectorEventStatus
  ce_runId :: "ident option"
  ce_error :: "string option"
  ce_receivedAt :: timestamp
  ce_processedAt :: "timestamp option"

text \<open>The fields an update of an event may carry.\<close>

record event_update =
  eu_transformedInput :: "string option"
  eu_status :: "ConnectorEventStatus option"
  eu_runId :: "ident option"
  eu_error :: "string option"
  eu_processedAt :: "timestamp option"

section \<open>The repositories over SQLite\<close>

text \<open>The connector and event tables and the keys they refer to.\<close>

record conn_db =
  cd_agents :: "ident list"
  cd_runs :: "ident list"
  cd_connectors :: "Connector list"
  cd_events :: "ConnectorEvent list"

definition new_connector :: "ident \<Rightarrow> timestamp \<Rightarrow> CreateConnector \<Rightarrow> Connector" where
  "new_connector uuid now d =
     \<lparr>cn_id = uuid, cn_name = cc_name d, cn_type = cc_type d, cn_agentId = cc_agentId d, cn_config = cc_config d,
      cn_transformation = cc_transformation d, cn_enabled = True, cn_createdAt = now, cn_updatedAt = now,
      cn_lastEventAt = None\<rparr>"

definition SqliteConnectorRepository_create ::
    "ident \<Rightarrow> timestamp \<Rightarrow> conn_db \<Rightarrow> CreateConnector \<Rightarrow> (conn_db \<times> Connector) result" where
  "SqliteConnectorRepository_create uuid now s d =
     (if list_ex (\<lambda>c. cn_id c = uuid) (cd_connectors s) then Inl unique_violation
      else if cc_agentId d \<notin> set (cd_agents s) then Inl foreign_key_violation
      else (let c = new_connector uuid now d in Inr (s\<lparr>cd_connectors := cd_connectors s @ [c]\<rparr>, c)))"

definition SqliteConnectorRepository_get :: "conn_db \<Rightarrow> ident \<Rightarrow> Connector option" where
  "SqliteConnectorRepository_get s i = find (\<lambda>c. cn_id c = i) (cd_connectors s)"

definition SqliteConnectorRepository_list ::
    "conn_db \<Rightarrow> ConnectorType option \<Rightarrow> bool option \<Rightarrow> ident option \<Rightarrow> Connector list" where
  "SqliteConnectorRepository_list s type enabled agentId =
     (let conditions = (case type of None \<Rightarrow> [] | Some t \<Rightarrow> [\<lambda>c. cn_type c = t])
        @ (case enabled of None \<Rightarrow> [] | Some b \<Rightarrow> [\<lambda>c. cn_enabled c = b])
        @ (if js_truthy agentId then [\<lambda>c. cn_agentId c = the agentId] else [])
      in filter (\<lambda>c. list_all (\<lambda>p. p c) conditions) (cd_connectors s))"

definition updated_connector :: "timestamp \<Rightarrow> UpdateConnector \<Rightarrow> Connector \<Rightarrow> Connector" where
  "updated_connector now d c =
     c\<lparr>cn_updatedAt := now, cn_name := js_or (uc_name d) (cn_name c), cn_config := js_or (uc_config d) (cn_config c),
       cn_transformation := js_or (uc_transformation d) (cn_transformation c),
       cn_enabled := js_or (uc_enabled d) (cn_enabled c)\<rparr>"

definition SqliteConnectorRepository_update ::
    "timestamp \<Rightarrow> conn_db \<Rightarrow> ident \<Rightarrow> UpdateConnector \<Rightarrow> conn_db \<times> Connector option" where
  "SqliteConnectorRepository_update now s i d =
     (case SqliteConnectorRepository_get s i of
        None \<Rightarrow> (s, None)
      | Some _ \<Rightarrow>
          (let s' = s\<lparr>cd_connectors := sql_update (\<lambda>c. cn_id c = i) (updated_connector now d) (cd_connectors s)\<rparr>
           in (s', SqliteConnectorRepository_get s' i)))"

definition SqliteConnectorRepository_delete :: "conn_db \<Rightarrow> ident \<Rightarrow> conn_db \<times> bool" where
  "SqliteConnectorRepository_delete s i =
     (s\<lparr>cd_connectors := filter (\<lambda>c. cn_id c \<noteq> i) (cd_connectors s),
        cd_events := filter (\<lambda>e. ce_connectorId e \<noteq> i) (cd_events s)\<rparr>,
      list_ex (\<lambda>c. cn_id c = i) (cd_connectors s))"

definition SqliteConnectorRepository_updateLastEventAt :: "timestamp \<Rightarrow> conn_db \<Rightarrow> ident \<Rightarrow> timestamp \<Rightarrow> conn_db" where
  "SqliteConnectorRepository_updateLastEventAt now s i t =
     s\<lparr>cd_connectors := sql_update (\<lambda>c. cn_id c = i) (\<lambda>c. c\<lparr>cn_lastEventAt := Some t, cn_updatedAt := now\<rparr>) (cd_connectors s)\<rparr>"

definition not_null_violation :: exn where
  "not_null_violation = Error ''NOT NULL constraint failed: connector_events.payload''"

definition new_event :: "ident \<Rightarrow> ident \<Rightarrow> string \<Rightarrow> ConnectorEventStatus \<Rightarrow> timestamp \<Rightarrow> ConnectorEvent" where
  "new_event i connectorId payload st now =
     \<lparr>ce_id = i, ce_connectorId = connectorId, ce_payload = payload, ce_transformedInput = None, ce_status = st,
      ce_runId = None, ce_error = None, ce_receivedAt = now, ce_processedAt = None\<rparr>"

text \<open>The text of a payload is \<^verbatim>\<open>undefined\<close> when the payload is.\<close>

definition SqliteConnectorEventRepository_create ::
    "conn_db \<Rightarrow> ident \<Rightarrow> ident \<Rightarrow> string option \<Rightarrow> ConnectorEventStatus \<Rightarrow> timestamp \<Rightarrow> conn_db result" where
  "SqliteConnectorEventRepository_create s i connectorId payload st now =
     (case payload of
        None \<Rightarrow> Inl not_null_violation
      | Some p \<Rightarrow>
          if list_ex (\<lambda>e. ce_id e = i) (cd_events s) then Inl unique_violation
          else if \<not> list_ex (\<lambda>c. cn_id c = connectorId) (cd_connectors s) then Inl foreign_key_violation
          else Inr (s\<lparr>cd_events := cd_events s @ [new_event i connectorId p st now]\<rparr>))"

definition SqliteConnectorEventRepository_get :: "conn_db \<Rightarrow> ident \<Rightarrow> ConnectorEvent option" where
  "SqliteConnectorEventRepository_get s i = find (\<lambda>e. ce_id e = i) (cd_events s)"

text \<open>A limit or offset of zero is not applied.\<close>

definition SqliteConnectorEventRepository_listByConnectorId ::
    "conn_db \<Rightarrow> ident \<Rightarrow> ConnectorEventStatus option \<Rightarrow> nat option \<Rightarrow> nat option \<Rightarrow> ConnectorEvent list" where
  "SqliteConnectorEventRepository_listByConnectorId s i st limit offset =
     (let rows = rev (sort_key ce_receivedAt (rev (filter (\<lambda>e. ce_connectorId e = i \<and> (st = None \<or> Some (ce_status e) = st)) (cd_events s))));
          skipped = drop (js_or offset 0) rows
      in (case limit of None \<Rightarrow> skipped | Some 0 \<Rightarrow> skipped | Some n \<Rightarrow> take n skipped))"

definition updated_event :: "event_update \<Rightarrow> ConnectorEvent \<Rightarrow> ConnectorEvent" where
  "updated_event d e =
     e\<lparr>ce_transformedInput := js_or_opt (eu_transformedInput d) (ce_transformedInput e),
       ce_status := js_or (eu_status d) (ce_status e), ce_runId := js_or_opt (eu_runId d) (ce_runId e),
       ce_error := js_or_opt (eu_error d) (ce_error e), ce_processedAt := js_or_opt (eu_processedAt d) (ce_processedAt e)\<rparr>"

definition SqliteConnectorEventRepository_update :: "conn_db \<Rightarrow> ident \<Rightarrow> event_update \<Rightarrow> conn_db result" where
  "SqliteConnectorEventRepository_update s i d =
     (if list_ex (\<lambda>e. ce_id e = i) (cd_events s)
         \<and> (case eu_runId d of None \<Rightarrow> False | Some r \<Rightarrow> r \<notin> set (cd_runs s))
      then Inl foreign_key_violation
      else Inr (s\<lparr>cd_events := sql_update (\<lambda>e. ce_id e = i) (updated_event d) (cd_events s)\<rparr>))"

section \<open>The event processor\<close>

record RetryPolicy =
  ry_maxRetries :: nat
  ry_initialDelayMs :: nat
  ry_maxDelayMs :: nat
  ry_backoffMultiplier :: nat

definition default_retry_policy :: RetryPolicy where
  "default_retry_policy = \<lparr>ry_maxRetries = 3, ry_initialDelayMs = 1000, ry_maxDelayMs = 30000, ry_backoffMultiplier = 2\<rparr>"

definition RETRYABLE_ERROR_CODES :: "string list" where
  "RETRYABLE_ERROR_CODES = [''ECONNABORTED'', ''ECONNREFUSED'', ''ECONNRESET'', ''EAI_AGAIN'', ''ENETDOWN'',
     ''ENETUNREACH'', ''ENOTFOUND'', ''ETIMEDOUT'']"

definition shouldRetry :: "exn \<Rightarrow> bool" where
  "shouldRetry e =
     (let by_code = (js_truthy (err_code e) \<and> the (err_code e) \<in> set RETRYABLE_ERROR_CODES)
      in (case err_status e of
            None \<Rightarrow> by_code
          | Some st \<Rightarrow> if st = 429 \<or> 500 \<le> st then True else if 400 \<le> st then False else by_code))"

definition computeRetryDelay :: "RetryPolicy \<Rightarrow> nat \<Rightarrow> nat" where
  "computeRetryDelay rp attempt = min (ry_initialDelayMs rp * ry_backoffMultiplier rp ^ (attempt - 1)) (ry_maxDelayMs rp)"

record libs =
  lb_jsonPath :: "string \<Rightarrow> json \<Rightarrow> json option"
  lb_handlebars :: "string \<Rightarrow> json \<Rightarrow> string result"
  lb_regex :: "string \<Rightarrow> string \<Rightarrow> bool result"

definition evaluateFilter :: "libs \<Rightarrow> json option \<Rightarrow> filter_operator \<Rightarrow> json \<Rightarrow> bool result" where
  "evaluateFilter lb actual oper expected =
     (let strings = (\<lambda>f. case (actual, expected) of (Some (JStr a), JStr b) \<Rightarrow> f a b | _ \<Rightarrow> Inr False);
          numbers = (\<lambda>f. case (actual, expected) of (Some (JNum a), JNum b) \<Rightarrow> Inr (f a b) | _ \<Rightarrow> Inr False)
      in (case oper of
            OpEquals \<Rightarrow> Inr (actual = Some expected)
          | OpNotEquals \<Rightarrow> Inr (actual \<noteq> Some expected)
          | OpContains \<Rightarrow> strings (\<lambda>a b. Inr (js_includes a b))
          | OpNotContains \<Rightarrow> strings (\<lambda>a b. Inr (\<not> js_includes a b))
          | OpStartsWith \<Rightarrow> strings (\<lambda>a b. Inr (js_startsWith a b))
          | OpEndsWith \<Rightarrow> strings (\<lambda>a b. Inr (js_endsWith a b))
          | OpGreaterThan \<Rightarrow> numbers (\<lambda>a b. a > b)
          | OpLessThan \<Rightarrow> numbers (\<lambda>a b. a < b)
          | OpRegex \<Rightarrow> strings (\<lambda>a b. lb_regex lb b a)))"

fun passesFilters :: "libs \<Rightarrow> json \<Rightarrow> TransformationFilter list \<Rightarrow> bool result" where
  "passesFilters lb payload [] = Inr True"
| "passesFilters lb payload (f # fs) =
     (case evaluateFilter lb (lb_jsonPath lb (tf_field f) payload) (tf_operator f) (tf_value f) of
        Inl e \<Rightarrow> Inl e
      | Inr False \<Rightarrow> Inr False
      | Inr True \<Rightarrow> passesFilters lb payload fs)"

definition extracted_text :: "libs \<Rightarrow> json \<Rightarrow> Transformation \<Rightarrow> string" where
  "extracted_text lb payload t =
     (case lb_jsonPath lb (the (tn_jsonPath t)) payload of
        Some (JStr s) \<Rightarrow> s
      | Some j \<Rightarrow> json_stringify j
      | None \<Rightarrow> js_or (tn_fallback t) [])"

definition transformPayload :: "libs \<Rightarrow> json \<Rightarrow> Transformation \<Rightarrow> string result" where
  "transformPayload lb payload t =
     (let extracted = (if js_truthy (tn_jsonPath t) then extracted_text lb payload t else []);
          base = (if js_truthy (tn_inputTemplate t) then lb_handlebars lb (the (tn_inputTemplate t)) payload
                  else if js_truthy (tn_jsonPath t) then Inr extracted
                  else Inr (js_or (tn_fallback t) (case payload of JStr s \<Rightarrow> s | j \<Rightarrow> json_stringify j)))
      in (case base of
            Inl e \<Rightarrow> Inl e
          | Inr r \<Rightarrow> Inr ((if js_truthy (tn_staticPrefix t) then the (tn_staticPrefix t) else []) @ r
                         @ (if js_truthy (tn_staticSuffix t) then the (tn_staticSuffix t) else []))))"

type_synonym conn_submit = "nat \<Rightarrow> conn_db \<Rightarrow> ident \<Rightarrow> string \<Rightarrow> conn_db \<times> ident result"

abbreviation no_update :: event_update where
  "no_update \<equiv> \<lparr>eu_transformedInput = None, eu_status = None, eu_runId = None, eu_error = None, eu_processedAt = None\<rparr>"

text \<open>The rest of the \<^verbatim>\<open>try\<close> block once the event is stored.\<close>

definition event_body ::
    "libs \<Rightarrow> conn_submit \<Rightarrow> nat \<Rightarrow> ident \<Rightarrow> timestamp \<Rightarrow> conn_db \<Rightarrow> Connector \<Rightarrow> json \<Rightarrow> conn_db \<times> exn option" where
  "event_body lb submit attempt eventId now s c payload =
     (case passesFilters lb payload (js_or (tn_filters (cn_transformation c)) []) of
        Inl e \<Rightarrow> (s, Some e)
      | Inr False \<Rightarrow>
          (case SqliteConnectorEventRepository_update s eventId (no_update\<lparr>eu_status := Some EvFiltered, eu_processedAt := Some now\<rparr>) of
             Inl e \<Rightarrow> (s, Some e) | Inr s1 \<Rightarrow> (s1, None))
      | Inr True \<Rightarrow>
          (case transformPayload lb payload (cn_transformation c) of
             Inl e \<Rightarrow> (s, Some e)
           | Inr taskInput \<Rightarrow>
               (case SqliteConnectorEventRepository_update s eventId (no_update\<lparr>eu_transformedInput := Some taskInput\<rparr>) of
                  Inl e \<Rightarrow> (s, Some e)
                | Inr s1 \<Rightarrow>
                    (case submit attempt s1 (cn_agentId c) taskInput of
                       (s2, Inl e) \<Rightarrow> (s2, Some e)
                     | (s2, Inr runId) \<Rightarrow>
                         (case SqliteConnectorEventRepository_update s2 eventId
                                 (no_update\<lparr>eu_status := Some EvSubmitted, eu_runId := Some runId, eu_processedAt := Some now\<rparr>) of
                            Inl e \<Rightarrow> (s2, Some e)
                          | Inr s3 \<Rightarrow> (s3, None))))))"

definition event_try ::
    "libs \<Rightarrow> conn_submit \<Rightarrow> nat \<Rightarrow> ident \<Rightarrow> timestamp \<Rightarrow> conn_db \<Rightarrow> Connector \<Rightarrow> json option \<Rightarrow> conn_db \<times> exn option" where
  "event_try lb submit attempt eventId now s c payload =
     (case SqliteConnectorEventRepository_create s eventId (cn_id c) (map_option json_stringify payload) EvPending now of
        Inl e \<Rightarrow> (s, Some e)
      | Inr s1 \<Rightarrow> event_body lb submit attempt eventId now s1 c (the payload))"

text \<open>
  An attempt with what follows it: the state, the error it ends with and the delays it waited. The \<open>k\<close>-th
  attempt draws the identifier \<open>us k\<close> and happens at \<open>clks k\<close>.
\<close>

function processEventAttempt ::
    "libs \<Rightarrow> RetryPolicy \<Rightarrow> conn_submit \<Rightarrow> (nat \<Rightarrow> ident) \<Rightarrow> (nat \<Rightarrow> timestamp) \<Rightarrow> conn_db \<Rightarrow> Connector \<Rightarrow> json option \<Rightarrow> nat
     \<Rightarrow> conn_db \<times> exn option \<times> nat list" where
  "processEventAttempt lb rp submit us clks s c payload attempt =
     (case event_try lb submit attempt (us attempt) (clks attempt) s c payload of
        (s1, None) \<Rightarrow> (s1, None, [])
      | (s1, Some e) \<Rightarrow>
          (case SqliteConnectorEventRepository_update s1 (us attempt)
                  (no_update\<lparr>eu_status := Some EvFailed, eu_error := Some (message e), eu_processedAt := Some (clks attempt)\<rparr>) of
             Inl e' \<Rightarrow> (s1, Some e', [])
           | Inr s2 \<Rightarrow>
               if shouldRetry e \<and> attempt \<le> ry_maxRetries rp
               then (let (s3, res, ds) = processEventAttempt lb rp submit us clks s2 c payload (attempt + 1)
                     in (s3, res, computeRetryDelay rp attempt # ds))
               else (s2, Some e, [])))"
  by pat_completeness auto
termination
  by (relation "measure (\<lambda>(lb, rp, submit, us, clks, s, c, payload, attempt). Suc (ry_maxRetries rp) - attempt)") auto

definition processEvent ::
    "libs \<Rightarrow> RetryPolicy \<Rightarrow> conn_submit \<Rightarrow> (nat \<Rightarrow> ident) \<Rightarrow> (nat \<Rightarrow> timestamp) \<Rightarrow> conn_db \<Rightarrow> Connector \<Rightarrow> json option
     \<Rightarrow> conn_db \<times> exn option \<times> nat list" where
  "processEvent lb rp submit us clks s c payload = processEventAttempt lb rp submit us clks s c payload 1"

section \<open>The webhook connector\<close>

text \<open>The cast of the configuration: a configuration of another kind has no secret, algorithm or header.\<close>

definition webhook_secret :: "ConnectorConfig \<Rightarrow> string option" where
  "webhook_secret cfg = (case cfg of CfgWebhook w \<Rightarrow> Some (wc_secret w) | _ \<Rightarrow> None)"

definition webhook_algorithm :: "ConnectorConfig \<Rightarrow> string option" where
  "webhook_algorithm cfg = (case cfg of CfgWebhook w \<Rightarrow> wc_signatureAlgorithm w | _ \<Rightarrow> None)"

definition webhook_header :: "ConnectorConfig \<Rightarrow> string option" where
  "webhook_header cfg = (case cfg of CfgWebhook w \<Rightarrow> wc_signatureHeader w | _ \<Rightarrow> None)"

text \<open>
  \<open>hmac algorithm secret text\<close> is the hexadecimal digest, or \<open>None\<close> where the algorithm is unknown; the
  comparison in constant time throws on texts of different length, so that it is equality.
\<close>

definition validateSignature :: "(string \<Rightarrow> string \<Rightarrow> string \<Rightarrow> string option) \<Rightarrow> string \<Rightarrow> string \<Rightarrow> string \<Rightarrow> string \<Rightarrow> bool" where
  "validateSignature hmac payload signature secret algorithm =
     (case hmac algorithm secret payload of None \<Rightarrow> False | Some d \<Rightarrow> signature = algorithm @ ''='' @ d)"

definition validateWebhook ::
    "(string \<Rightarrow> string \<Rightarrow> string \<Rightarrow> string option) \<Rightarrow> Connector \<Rightarrow> string option \<Rightarrow> string option \<Rightarrow> unit result" where
  "validateWebhook hmac c signature rawBody =
     (if \<not> js_truthy (webhook_secret (cn_config c)) then Inr ()
      else if \<not> js_truthy signature \<or> \<not> js_truthy rawBody then Inl (Error ''Missing webhook signature'')
      else if validateSignature hmac (the rawBody) (the signature) (the (webhook_secret (cn_config c)))
                (let al = webhook_algorithm (cn_config c) in if js_truthy al then the al else ''sha256'')
      then Inr () else Inl (Error ''Invalid webhook signature''))"

text \<open>
  The route. The request carries the parameter, the headers and the body; the reply comes with the event
  that is then processed in the background, if any. \<open>valid_uuid\<close> is the schema of the parameter.
\<close>

definition post_webhook ::
    "(string \<Rightarrow> string \<Rightarrow> string \<Rightarrow> string option) \<Rightarrow> (string \<Rightarrow> bool) \<Rightarrow> bool \<Rightarrow> conn_db \<Rightarrow> ident \<Rightarrow> (string, string) jsmap
     \<Rightarrow> json option \<Rightarrow> reply \<times> (Connector \<times> json option) option" where
  "post_webhook hmac valid_uuid available s connectorId headers body =
     (if \<not> valid_uuid connectorId then (error_reply 400 ''VALIDATION_ERROR'' ''Invalid connector ID'', None)
      else (case SqliteConnectorRepository_get s connectorId of
        None \<Rightarrow> (error_reply 404 ''NOT_FOUND'' ''Connector not found'', None)
      | Some c \<Rightarrow>
          if cn_type c \<noteq> TypeWebhook
          then (error_reply 400 ''INVALID_CONNECTOR_TYPE'' ''Connector is not a webhook type'', None)
          else if \<not> cn_enabled c then (error_reply 403 ''CONNECTOR_DISABLED'' ''Connector is disabled'', None)
          else if \<not> available
          then (error_reply 503 ''CONNECTOR_FEATURES_DISABLED'' ''Webhook processing is not available'', None)
          else
            (let header = (let h = webhook_header (cn_config c) in if js_truthy h then the h else ''X-Hub-Signature-256'');
                 signature = jm_get headers (js_toLowerCase header);
                 rawBody = (case body of None \<Rightarrow> None | Some (JStr t) \<Rightarrow> Some t | Some j \<Rightarrow> Some (json_stringify j))
             in (case validateWebhook hmac c signature rawBody of
                   Inl e \<Rightarrow> (error_reply 401 ''INVALID_SIGNATURE'' (message e), None)
                 | Inr _ \<Rightarrow> (\<lparr>rp_status = 202, rp_body = JObj [(''message'', JStr ''Webhook received and queued for processing'')]\<rparr>,
                            Some (c, body))))))"

section \<open>The polling connector\<close>

record PollingState =
  pl_etag :: "string option"
  pl_lastModified :: "string option"
  pl_contentHash :: string

record PollingResponse =
  pr_ok :: bool
  pr_status :: nat
  pr_headers :: "(string, string) jsmap"
  pr_text :: string

definition parseBody :: "(string \<Rightarrow> json option) \<Rightarrow> string \<Rightarrow> string option \<Rightarrow> json" where
  "parseBody parse body contentType =
     (let trimmed = js_trim body;
          shouldParseJson = ((case contentType of None \<Rightarrow> False | Some t \<Rightarrow> js_includes t ''json'')
            \<or> js_startsWith trimmed ''{'' \<or> js_startsWith trimmed ''['')
      in if \<not> shouldParseJson then JStr body
         else (case parse body of Some j \<Rightarrow> j | None \<Rightarrow> JStr body))"

definition buildState :: "(string \<Rightarrow> string) \<Rightarrow> PollingResponse \<Rightarrow> PollingState" where
  "buildState sha r = \<lparr>pl_etag = jm_get (pr_headers r) ''etag'', pl_lastModified = jm_get (pr_headers r) ''last-modified'',
     pl_contentHash = sha (pr_text r)\<rparr>"

definition isUnchanged :: "change_detection \<Rightarrow> PollingState option \<Rightarrow> PollingState \<Rightarrow> bool" where
  "isUnchanged strategy prev st =
     (case prev of
        None \<Rightarrow> False
      | Some p \<Rightarrow>
          if strategy = DetectEtag \<and> js_truthy (pl_etag st) then pl_etag p = pl_etag st
          else if strategy = DetectLastModified \<and> js_truthy (pl_lastModified st) then pl_lastModified p = pl_lastModified st
          else pl_contentHash p = pl_contentHash st)"

text \<open>The request of a poll: what the cast of the configuration reads as address, method, headers and strategy.\<close>

definition polling_url :: "ConnectorConfig \<Rightarrow> string option" where
  "polling_url cfg = (case cfg of CfgPolling g \<Rightarrow> Some (pg_url g) | CfgRabbit q \<Rightarrow> Some (rb_url q) | CfgRedis q \<Rightarrow> Some (rd_url q)
     | CfgWebhook _ \<Rightarrow> None)"

definition polling_method :: "ConnectorConfig \<Rightarrow> string" where
  "polling_method cfg = (case cfg of CfgPolling g \<Rightarrow> js_or (pg_method g) ''GET'' | _ \<Rightarrow> ''GET'')"

definition polling_headers :: "ConnectorConfig \<Rightarrow> (string \<times> string) list option" where
  "polling_headers cfg = (case cfg of CfgPolling g \<Rightarrow> pg_headers g | _ \<Rightarrow> None)"

definition polling_strategy :: "ConnectorConfig \<Rightarrow> change_detection" where
  "polling_strategy cfg = (case cfg of CfgPolling g \<Rightarrow> js_or (pg_changeDetection g) DetectContentHash | _ \<Rightarrow> DetectContentHash)"

type_synonym fetcher = "string option \<Rightarrow> string \<Rightarrow> (string \<times> string) list option \<Rightarrow> PollingResponse result"

text \<open>
  One poll on the states of the connectors and the world \<open>w\<close>. \<open>fetch\<close> gives the response or throws, and
  \<open>process\<close> is the event processor.
\<close>

definition poll ::
    "(string \<Rightarrow> string) \<Rightarrow> (string \<Rightarrow> json option) \<Rightarrow> fetcher
     \<Rightarrow> ('w \<Rightarrow> Connector \<Rightarrow> json \<Rightarrow> 'w \<times> exn option) \<Rightarrow> (ident, PollingState) jsmap \<Rightarrow> 'w \<Rightarrow> Connector
     \<Rightarrow> (ident, PollingState) jsmap \<times> 'w \<times> bool result" where
  "poll sha parse fetch process states w c =
     (if cn_type c \<noteq> TypePolling then (states, w, Inl (Error ''PollingConnector only supports polling connectors''))
      else (case fetch (polling_url (cn_config c)) (polling_method (cn_config c)) (polling_headers (cn_config c)) of
        Inl e \<Rightarrow> (states, w, Inl e)
      | Inr r \<Rightarrow>
          if \<not> pr_ok r then (states, w, Inl (Error (''Polling request failed with status '' @ show_nat (pr_status r))))
          else
            (let st = buildState sha r
             in if isUnchanged (polling_strategy (cn_config c)) (jm_get states (cn_id c)) st
                then (states, w, Inr False)
                else (case process w c (parseBody parse (pr_text r) (jm_get (pr_headers r) ''content-type'')) of
                        (w1, Some e) \<Rightarrow> (states, w1, Inl e)
                      | (w1, None) \<Rightarrow> (jm_set states (cn_id c) st, w1, Inr True)))))"

section \<open>Queue connectors and the life cycle\<close>

text \<open>What becomes of a message: acknowledged, or rejected with or without a return to the queue.\<close>

datatype delivery = Ack | Nack bool

definition requeueOnFailure :: "ConnectorConfig \<Rightarrow> bool" where
  "requeueOnFailure cfg = (case cfg of CfgRabbit q \<Rightarrow> rb_requeueOnFailure q = Some True
     | CfgRedis q \<Rightarrow> rd_requeueOnFailure q = Some True | _ \<Rightarrow> False)"

definition on_message ::
    "('w \<Rightarrow> Connector \<Rightarrow> json \<Rightarrow> 'w \<times> exn option) \<Rightarrow> 'w \<Rightarrow> Connector \<Rightarrow> json \<Rightarrow> 'w \<times> delivery" where
  "on_message process w c payload =
     (case process w c payload of
        (w1, None) \<Rightarrow> (w1, Ack)
      | (w1, Some e) \<Rightarrow> (w1, Nack (requeueOnFailure (cn_config c))))"

definition is_queue_config :: "ConnectorConfig \<Rightarrow> bool" where
  "is_queue_config cfg = (case cfg of CfgRabbit _ \<Rightarrow> True | CfgRedis _ \<Rightarrow> True | _ \<Rightarrow> False)"

text \<open>
  The runtime state: the open subscriptions of the drivers, those the queue connector knows, and the
  running timers. A subscription is identified by the number it was opened with; \<open>refuse\<close> is the error a
  driver throws, if any. Closing a subscription does not throw.
\<close>

record conn_runtime =
  rt_open :: "(nat \<times> ident) list"
  rt_subscriptions :: "(ident, nat) jsmap"
  rt_timers :: "ident list"
  rt_next :: nat

definition QueueConnector_start :: "exn option \<Rightarrow> conn_runtime \<Rightarrow> Connector \<Rightarrow> conn_runtime result" where
  "QueueConnector_start refuse rt c =
     (if cn_type c \<noteq> TypeQueue \<or> \<not> is_queue_config (cn_config c)
      then Inl (Error ''QueueConnector only supports queue connectors'')
      else (case refuse of
              Some e \<Rightarrow> Inl e
            | None \<Rightarrow> Inr (rt\<lparr>rt_open := (rt_next rt, cn_id c) # rt_open rt,
                rt_subscriptions := jm_set (rt_subscriptions rt) (cn_id c) (rt_next rt), rt_next := Suc (rt_next rt)\<rparr>)))"

definition QueueConnector_stop :: "conn_runtime \<Rightarrow> ident \<Rightarrow> conn_runtime" where
  "QueueConnector_stop rt i =
     (case jm_get (rt_subscriptions rt) i of
        None \<Rightarrow> rt
      | Some n \<Rightarrow> rt\<lparr>rt_open := filter (\<lambda>s. fst s \<noteq> n) (rt_open rt), rt_subscriptions := jm_delete (rt_subscriptions rt) i\<rparr>)"

definition PollingConnector_start :: "conn_runtime \<Rightarrow> Connector \<Rightarrow> conn_runtime result" where
  "PollingConnector_start rt c =
     (if cn_type c \<noteq> TypePolling then Inl (Error ''PollingConnector only supports polling connectors'')
      else Inr (if cn_id c \<in> set (rt_timers rt) then rt else rt\<lparr>rt_timers := rt_timers rt @ [cn_id c]\<rparr>))"

definition PollingConnector_stop :: "conn_runtime \<Rightarrow> ident \<Rightarrow> conn_runtime" where
  "PollingConnector_stop rt i = rt\<lparr>rt_timers := filter (\<lambda>j. j \<noteq> i) (rt_timers rt)\<rparr>"

text \<open>The two \<^verbatim>\<open>stop\<close> operations without an identifier.\<close>

definition QueueConnector_stopAll :: "conn_runtime \<Rightarrow> conn_runtime" where
  "QueueConnector_stopAll rt = foldl QueueConnector_stop rt (jm_keys (rt_subscriptions rt))"

definition PollingConnector_stopAll :: "conn_runtime \<Rightarrow> conn_runtime" where
  "PollingConnector_stopAll rt = rt\<lparr>rt_timers := []\<rparr>"

definition runtime_close :: "conn_runtime \<Rightarrow> conn_runtime" where
  "runtime_close rt = PollingConnector_stopAll (QueueConnector_stopAll rt)"

definition lifecycle_stop :: "conn_runtime \<Rightarrow> ident \<Rightarrow> conn_runtime" where
  "lifecycle_stop rt i = PollingConnector_stop (QueueConnector_stop rt i) i"

definition lifecycle_sync :: "exn option \<Rightarrow> conn_runtime \<Rightarrow> Connector \<Rightarrow> conn_runtime \<times> exn option" where
  "lifecycle_sync refuse rt c =
     (let rt1 = PollingConnector_stop (QueueConnector_stop rt (cn_id c)) (cn_id c);
          started = (\<lambda>r. case r of Inl e \<Rightarrow> (rt1, Some e) | Inr rt2 \<Rightarrow> (rt2, None))
      in if \<not> cn_enabled c then (rt1, None)
         else (case cn_type c of
                 TypeQueue \<Rightarrow> started (QueueConnector_start refuse rt1 c)
               | TypePolling \<Rightarrow> started (PollingConnector_start rt1 c)
               | TypeWebhook \<Rightarrow> (rt1, None)))"

section \<open>The connector routes\<close>

text \<open>
  Replies carry the records themselves; a created webhook connector comes with its address. Body and
  parameter schemas are arguments. An error the life cycle throws reaches the error handler.
\<close>

datatype conn_reply =
  ReplyError reply
| ReplyConnector int Connector "string option"
| ReplyConnectors "Connector list"
| ReplyEvents "ConnectorEvent list"
| ReplyNoContent

definition post_connector ::
    "exn option \<Rightarrow> string \<Rightarrow> string \<Rightarrow> ident \<Rightarrow> timestamp \<Rightarrow> (json option \<Rightarrow> issue list + CreateConnector) \<Rightarrow> conn_db \<Rightarrow> conn_runtime
     \<Rightarrow> json option \<Rightarrow> conn_db \<times> conn_runtime \<times> conn_reply" where
  "post_connector refuse protocol hostname uuid now parse s rt body =
     (case parse body of
        Inl is \<Rightarrow> (s, rt, ReplyError (validation_reply ''Invalid connector definition'' is))
      | Inr d \<Rightarrow>
          (case SqliteConnectorRepository_create uuid now s d of
             Inl e \<Rightarrow> (s, rt, ReplyError (errorHandler 0 (Thrown e)))
           | Inr (s1, c) \<Rightarrow>
               (case lifecycle_sync refuse rt c of
                  (rt1, Some e) \<Rightarrow> (s1, rt1, ReplyError (errorHandler 0 (Thrown e)))
                | (rt1, None) \<Rightarrow>
                    (s1, rt1, ReplyConnector 201 c
                      (if cn_type c = TypeWebhook then Some (protocol @ ''://'' @ hostname @ ''/webhooks/'' @ cn_id c) else None)))))"

definition get_connectors ::
    "(request \<Rightarrow> (ConnectorType option \<times> bool option \<times> ident option) option) \<Rightarrow> conn_db \<Rightarrow> request \<Rightarrow> conn_reply" where
  "get_connectors parseQuery s req =
     (case parseQuery req of
        None \<Rightarrow> ReplyError (error_reply 400 ''VALIDATION_ERROR'' ''Invalid query parameters'')
      | Some (type, enabled, agentId) \<Rightarrow> ReplyConnectors (SqliteConnectorRepository_list s type enabled agentId))"

definition connector_not_found :: conn_reply where
  "connector_not_found = ReplyError (error_reply 404 ''NOT_FOUND'' ''Connector not found'')"

definition get_connector :: "(string \<Rightarrow> bool) \<Rightarrow> conn_db \<Rightarrow> request \<Rightarrow> conn_reply" where
  "get_connector valid_uuid s req =
     (if \<not> valid_uuid (rq_id req) then ReplyError (error_reply 400 ''VALIDATION_ERROR'' ''Invalid connector ID'')
      else (case SqliteConnectorRepository_get s (rq_id req) of
              None \<Rightarrow> connector_not_found | Some c \<Rightarrow> ReplyConnector 200 c None))"

definition patch_connector ::
    "exn option \<Rightarrow> (string \<Rightarrow> bool) \<Rightarrow> timestamp \<Rightarrow> (json option \<Rightarrow> UpdateConnector option) \<Rightarrow> conn_db \<Rightarrow> conn_runtime \<Rightarrow> request
     \<Rightarrow> conn_db \<times> conn_runtime \<times> conn_reply" where
  "patch_connector refuse valid_uuid now parse s rt req =
     (case (valid_uuid (rq_id req), parse (rq_body req)) of
        (True, Some d) \<Rightarrow>
          (case SqliteConnectorRepository_update now s (rq_id req) d of
             (s1, None) \<Rightarrow> (s1, rt, connector_not_found)
           | (s1, Some c) \<Rightarrow>
               (case lifecycle_sync refuse rt c of
                  (rt1, Some e) \<Rightarrow> (s1, rt1, ReplyError (errorHandler 0 (Thrown e)))
                | (rt1, None) \<Rightarrow> (s1, rt1, ReplyConnector 200 c None)))
      | _ \<Rightarrow> (s, rt, ReplyError (error_reply 400 ''VALIDATION_ERROR'' ''Invalid request'')))"

definition delete_connector ::
    "(string \<Rightarrow> bool) \<Rightarrow> conn_db \<Rightarrow> conn_runtime \<Rightarrow> request \<Rightarrow> conn_db \<times> conn_runtime \<times> conn_reply" where
  "delete_connector valid_uuid s rt req =
     (if \<not> valid_uuid (rq_id req)
      then (s, rt, ReplyError (error_reply 400 ''VALIDATION_ERROR'' ''Invalid connector ID''))
      else
        (let existing = SqliteConnectorRepository_get s (rq_id req);
             (s1, deleted) = SqliteConnectorRepository_delete s (rq_id req)
         in (case existing of
               Some c \<Rightarrow> if deleted then (s1, lifecycle_stop rt (cn_id c), ReplyNoContent) else (s1, rt, connector_not_found)
             | None \<Rightarrow> (s1, rt, connector_not_found))))"

definition get_connector_events ::
    "(string \<Rightarrow> bool) \<Rightarrow> (request \<Rightarrow> (ConnectorEventStatus option \<times> nat \<times> nat) option) \<Rightarrow> conn_db \<Rightarrow> request \<Rightarrow> conn_reply" where
  "get_connector_events valid_uuid parseQuery s req =
     (case (valid_uuid (rq_id req), parseQuery req) of
        (True, Some (st, limit, offset)) \<Rightarrow>
          ReplyEvents (SqliteConnectorEventRepository_listByConnectorId s (rq_id req) st (Some limit) (Some offset))
      | _ \<Rightarrow> ReplyError (error_reply 400 ''VALIDATION_ERROR'' ''Invalid request''))"

section \<open>Attempts and their events\<close>

text \<open>The agent service keeps connectors and events, and a run it names is stored.\<close>

definition conn_submit_ok :: "conn_submit \<Rightarrow> bool" where
  "conn_submit_ok submit \<longleftrightarrow> (\<forall>k s a x. cd_connectors (fst (submit k s a x)) = cd_connectors s
     \<and> cd_events (fst (submit k s a x)) = cd_events s
     \<and> (\<forall>r. snd (submit k s a x) = Inr r \<longrightarrow> r \<in> set (cd_runs (fst (submit k s a x)))))"

lemma update_last:
  assumes "i \<notin> ce_id ` set es" and "ce_id e = i"
  shows "sql_update (\<lambda>x. ce_id x = i) f (es @ [e]) = es @ [f e]"
proof -
  have "map (\<lambda>x. if ce_id x = i then f x else x) es = es" using assms(1) by (auto intro!: map_idI)
  with assms(2) show ?thesis by (simp add: sql_update_def)
qed

lemma updated_event_ids [simp]: "ce_id (updated_event d e) = ce_id e" "ce_connectorId (updated_event d e) = ce_connectorId e"
  by (simp_all add: updated_event_def)

lemma event_update_last:
  assumes "cd_events s = es @ [e]" and "ce_id e = i" and "i \<notin> ce_id ` set es"
    and "\<forall>r. eu_runId d = Some r \<longrightarrow> r \<in> set (cd_runs s)"
  shows "SqliteConnectorEventRepository_update s i d = Inr (s\<lparr>cd_events := es @ [updated_event d e]\<rparr>)"
  using assms by (auto simp: SqliteConnectorEventRepository_update_def update_last split: option.splits)

text \<open>An attempt on a stored event changes that event only, and ends it submitted or filtered if it does not throw.\<close>

lemma event_body_row:
  assumes ev: "cd_events s = es @ [e]" "ce_id e = i" "i \<notin> ce_id ` set es" and ok: "conn_submit_ok submit"
  shows "\<exists>s' e' res. event_body lb submit k i now s c p = (s', res) \<and> cd_events s' = es @ [e'] \<and> ce_id e' = i
    \<and> ce_connectorId e' = ce_connectorId e \<and> cd_connectors s' = cd_connectors s
    \<and> (res = None \<longrightarrow> ce_status e' = EvSubmitted \<or> ce_status e' = EvFiltered)"
proof (cases "passesFilters lb p (js_or (tn_filters (cn_transformation c)) [])")
  case (Inl x)
  with ev show ?thesis by (simp add: event_body_def)
next
  case pass: (Inr b)
  show ?thesis
  proof (cases b)
    case False
    with pass event_update_last [OF ev] ev show ?thesis by (simp add: event_body_def updated_event_def)
  next
    case True
    show ?thesis
    proof (cases "transformPayload lb p (cn_transformation c)")
      case (Inl x)
      with pass True ev show ?thesis by (simp add: event_body_def)
    next
      case (Inr t)
      let ?e1 = "updated_event (no_update\<lparr>eu_transformedInput := Some t\<rparr>) e"
      let ?s1 = "s\<lparr>cd_events := es @ [?e1]\<rparr>"
      obtain s2 r where sub: "submit k ?s1 (cn_agentId c) t = (s2, r)" by fastforce
      then have s2: "cd_events s2 = es @ [?e1]" "cd_connectors s2 = cd_connectors s" "\<And>x. r = Inr x \<Longrightarrow> x \<in> set (cd_runs s2)"
        using ok [unfolded conn_submit_ok_def, rule_format, of k ?s1 "cn_agentId c" t] by auto
      have "SqliteConnectorEventRepository_update s2 i
          (no_update\<lparr>eu_status := Some EvSubmitted, eu_runId := Some x, eu_processedAt := Some now\<rparr>) =
          Inr (s2\<lparr>cd_events := es @ [updated_event (no_update\<lparr>eu_status := Some EvSubmitted, eu_runId := Some x,
            eu_processedAt := Some now\<rparr>) ?e1]\<rparr>)" if "r = Inr x" for x
        using event_update_last [OF s2(1)] ev(2,3) s2(3) [OF that] by simp
      with pass True Inr event_update_last [OF ev] sub s2 ev show ?thesis
        by (cases r) (simp_all add: event_body_def updated_event_def)
    qed
  qed
qed

text \<open>One attempt with the recording of its failure.\<close>

lemma event_attempt_row:
  assumes "i \<notin> ce_id ` set (cd_events s)" and "cn_id c \<in> cn_id ` set (cd_connectors s)" and ok: "conn_submit_ok submit"
  obtains s1 res e where "event_try lb submit k i now s c (Some p) = (s1, res)" and "cd_connectors s1 = cd_connectors s"
    and "cd_events s1 = cd_events s @ [e]" and "ce_id e = i" and "ce_connectorId e = cn_id c"
    and "res = None \<Longrightarrow> ce_status e = EvSubmitted \<or> ce_status e = EvFiltered"
    and "\<And>t m. SqliteConnectorEventRepository_update s1 i (no_update\<lparr>eu_status := Some EvFailed, eu_error := Some m, eu_processedAt := Some t\<rparr>)
      = Inr (s1\<lparr>cd_events := cd_events s @ [updated_event (no_update\<lparr>eu_status := Some EvFailed, eu_error := Some m, eu_processedAt := Some t\<rparr>) e]\<rparr>)"
proof -
  let ?s1 = "s\<lparr>cd_events := cd_events s @ [new_event i (cn_id c) (json_stringify p) EvPending now]\<rparr>"
  have create: "SqliteConnectorEventRepository_create s i (cn_id c) (Some (json_stringify p)) EvPending now = Inr ?s1"
    using assms(1,2) by (auto simp: SqliteConnectorEventRepository_create_def list_ex_iff)
  obtain s' e' res where body: "event_body lb submit k i now ?s1 c p = (s', res)" "cd_events s' = cd_events s @ [e']"
      "ce_id e' = i" "ce_connectorId e' = cn_id c" "cd_connectors s' = cd_connectors s"
      "res = None \<longrightarrow> ce_status e' = EvSubmitted \<or> ce_status e' = EvFiltered"
    using event_body_row [of ?s1 "cd_events s" "new_event i (cn_id c) (json_stringify p) EvPending now" i submit lb k now c p]
      assms(1) ok by (auto simp: new_event_def)
  show thesis
    by (rule that [of s' res e']) (use body create assms(1) event_update_last [OF body(2,3)] in \<open>auto simp: event_try_def\<close>)
qed

declare processEventAttempt.simps [simp del]

text \<open>What a list of events and an outcome say about the attempts that made them.\<close>

definition attempts_ok :: "ident \<Rightarrow> exn option \<Rightarrow> ConnectorEvent list \<Rightarrow> bool" where
  "attempts_ok i res rows \<longleftrightarrow> rows \<noteq> [] \<and> list_all (\<lambda>e. ce_connectorId e = i) rows
     \<and> list_all (\<lambda>e. ce_status e = EvFailed) (butlast rows)
     \<and> (case res of None \<Rightarrow> ce_status (last rows) = EvSubmitted \<or> ce_status (last rows) = EvFiltered
        | Some e \<Rightarrow> ce_status (last rows) = EvFailed \<and> ce_error (last rows) = Some (message e))"

lemma attempts_ok_Cons:
  "attempts_ok i res rows \<Longrightarrow> ce_status e = EvFailed \<Longrightarrow> ce_connectorId e = i \<Longrightarrow> attempts_ok i res (e # rows)"
  by (auto simp: attempts_ok_def split: option.splits)

lemma processEventAttempt_rows:
  assumes "conn_submit_ok submit" and "cn_id c \<in> cn_id ` set (cd_connectors s)"
    and "\<forall>k \<ge> attempt. us k \<notin> ce_id ` set (cd_events s)" and "inj us"
  shows "\<exists>s' res rows. processEventAttempt lb rp submit us clks s c (Some p) attempt
      = (s', res, map (computeRetryDelay rp) [attempt..<attempt + length rows - 1])
    \<and> cd_events s' = cd_events s @ rows \<and> length rows \<le> Suc (Suc (ry_maxRetries rp) - attempt) \<and> attempts_ok (cn_id c) res rows"
  using assms(2,3)
proof (induction "Suc (ry_maxRetries rp) - attempt" arbitrary: attempt s rule: less_induct)
  case less
  obtain s1 res e where att: "event_try lb submit attempt (us attempt) (clks attempt) s c (Some p) = (s1, res)"
      "cd_connectors s1 = cd_connectors s" "cd_events s1 = cd_events s @ [e]" "ce_id e = us attempt" "ce_connectorId e = cn_id c"
      "res = None \<Longrightarrow> ce_status e = EvSubmitted \<or> ce_status e = EvFiltered"
    and upd: "\<And>t m. SqliteConnectorEventRepository_update s1 (us attempt)
        (no_update\<lparr>eu_status := Some EvFailed, eu_error := Some m, eu_processedAt := Some t\<rparr>)
      = Inr (s1\<lparr>cd_events := cd_events s @ [updated_event (no_update\<lparr>eu_status := Some EvFailed, eu_error := Some m, eu_processedAt := Some t\<rparr>) e]\<rparr>)"
    using event_attempt_row [of "us attempt" s c submit lb attempt "clks attempt" p] less.prems assms(1) by blast
  show ?case
  proof (cases res)
    case None
    with att show ?thesis
      by (subst processEventAttempt.simps) (auto simp: attempts_ok_def intro!: exI [of _ "[e]"])
  next
    case (Some x)
    let ?e = "updated_event (no_update\<lparr>eu_status := Some EvFailed, eu_error := Some (message x), eu_processedAt := Some (clks attempt)\<rparr>) e"
    let ?s2 = "s1\<lparr>cd_events := cd_events s @ [?e]\<rparr>"
    have e: "ce_status ?e = EvFailed" "ce_error ?e = Some (message x)" "ce_connectorId ?e = cn_id c" "ce_id ?e = us attempt"
      using att by (simp_all add: updated_event_def)
    show ?thesis
    proof (cases "shouldRetry x \<and> attempt \<le> ry_maxRetries rp")
      case False
      with Some att(1) upd e show ?thesis
        by (subst processEventAttempt.simps) (auto simp: attempts_ok_def intro!: exI [of _ "[?e]"])
    next
      case True
      have fresh: "\<forall>k \<ge> attempt + 1. us k \<notin> ce_id ` set (cd_events ?s2)"
        using less.prems(2) e(4) assms(4) by (auto dest: injD)
      have dec: "Suc (ry_maxRetries rp) - (attempt + 1) < Suc (ry_maxRetries rp) - attempt" using True by (simp add: Suc_diff_le)
      have pres: "cn_id c \<in> cn_id ` set (cd_connectors ?s2)" using less.prems(1) att(2) by simp
      obtain s' res' rows where IH: "processEventAttempt lb rp submit us clks ?s2 c (Some p) (attempt + 1)
          = (s', res', map (computeRetryDelay rp) [attempt + 1..<attempt + 1 + length rows - 1])"
        "cd_events s' = cd_events ?s2 @ rows" "length rows \<le> Suc (Suc (ry_maxRetries rp) - (attempt + 1))" "attempts_ok (cn_id c) res' rows"
        using less.hyps [OF dec pres fresh] by (elim exE conjE)
      have len: "length rows \<ge> 1" using IH(4) by (cases rows) (auto simp: attempts_ok_def)
      then have span: "[attempt..<attempt + length rows] = attempt # [Suc attempt..<attempt + length rows]"
        by (intro upt_conv_Cons) auto
      have "processEventAttempt lb rp submit us clks s c (Some p) attempt
          = (s', res', map (computeRetryDelay rp) [attempt..<attempt + length (?e # rows) - 1])"
        using Some att(1) upd True IH(1) span
        by (subst processEventAttempt.simps) simp
      moreover have "attempts_ok (cn_id c) res' (?e # rows)" using attempts_ok_Cons [OF IH(4) e(1,3)] .
      ultimately show ?thesis using IH(2,3) True by (intro exI [of _ s'] exI [of _ res'] exI [of _ "?e # rows"]) (simp add: Suc_diff_le)
    qed
  qed
qed

section \<open>The runtime invariant\<close>

text \<open>Every open subscription is known, and a connector has at most one; timers are not doubled.\<close>

definition runtime_ok :: "conn_runtime \<Rightarrow> bool" where
  "runtime_ok rt \<longleftrightarrow> jm_ok (rt_subscriptions rt) \<and> distinct (map fst (rt_open rt)) \<and> distinct (rt_timers rt)
     \<and> (\<forall>n i. (n, i) \<in> set (rt_open rt) \<longleftrightarrow> jm_get (rt_subscriptions rt) i = Some n)
     \<and> (\<forall>n \<in> fst ` set (rt_open rt). n < rt_next rt)"

definition runtime_init :: conn_runtime where
  "runtime_init = \<lparr>rt_open = [], rt_subscriptions = [], rt_timers = [], rt_next = 0\<rparr>"

lemma runtime_ok_init: "runtime_ok runtime_init"
  by (simp add: runtime_ok_def runtime_init_def)

lemma queue_stop_ok:
  assumes "runtime_ok rt"
  shows "runtime_ok (QueueConnector_stop rt i) \<and> jm_get (rt_subscriptions (QueueConnector_stop rt i)) i = None
    \<and> rt_timers (QueueConnector_stop rt i) = rt_timers rt
    \<and> (\<forall>j. j \<noteq> i \<longrightarrow> jm_get (rt_subscriptions (QueueConnector_stop rt i)) j = jm_get (rt_subscriptions rt) j)"
proof (cases "jm_get (rt_subscriptions rt) i")
  case None
  with assms show ?thesis by (simp add: QueueConnector_stop_def)
next
  case (Some n)
  have n: "(n, i) \<in> set (rt_open rt)" using assms Some by (simp add: runtime_ok_def)
  have only: "m \<noteq> n" if "(m, j) \<in> set (rt_open rt)" "j \<noteq> i" for m j
    using assms that n eq_key_imp_eq_value [of "rt_open rt" n i j] by (auto simp: runtime_ok_def)
  have "\<forall>m j. (m, j) \<in> set (filter (\<lambda>s. fst s \<noteq> n) (rt_open rt)) \<longleftrightarrow>
      jm_get (jm_delete (rt_subscriptions rt) i) j = Some m"
    using assms only Some by (auto simp: runtime_ok_def jm_get_delete)
  with Some assms show ?thesis
    by (auto simp: QueueConnector_stop_def runtime_ok_def jm_get_delete distinct_map_filter)
qed

lemma polling_stop_ok: "runtime_ok rt \<Longrightarrow> runtime_ok (PollingConnector_stop rt i)"
  by (simp add: runtime_ok_def PollingConnector_stop_def)

lemma queue_start_ok:
  assumes "runtime_ok rt" and "jm_get (rt_subscriptions rt) (cn_id c) = None" and "QueueConnector_start refuse rt c = Inr rt'"
  shows "runtime_ok rt'"
proof -
  have rt': "rt' = rt\<lparr>rt_open := (rt_next rt, cn_id c) # rt_open rt,
      rt_subscriptions := jm_set (rt_subscriptions rt) (cn_id c) (rt_next rt), rt_next := Suc (rt_next rt)\<rparr>"
    using assms(3) by (auto simp: QueueConnector_start_def split: if_splits option.splits)
  have new: "rt_next rt \<notin> fst ` set (rt_open rt)" using assms(1) by (auto simp: runtime_ok_def)
  have "\<forall>n i. (n, i) \<in> set (rt_open rt') \<longleftrightarrow> jm_get (rt_subscriptions rt') i = Some n"
    using assms(1,2) by (auto simp: rt' runtime_ok_def jm_get_set)
  moreover have "\<forall>n \<in> fst ` set (rt_open rt'). n < rt_next rt'" using assms(1) by (auto simp: rt' runtime_ok_def less_Suc_eq)
  ultimately show ?thesis using assms(1) new by (simp add: rt' runtime_ok_def)
qed

lemma polling_start_ok: "runtime_ok rt \<Longrightarrow> PollingConnector_start rt c = Inr rt' \<Longrightarrow> runtime_ok rt'"
  by (auto simp: PollingConnector_start_def split: if_splits) (simp add: runtime_ok_def)

lemma lifecycle_stop_ok: "runtime_ok rt \<Longrightarrow> runtime_ok (lifecycle_stop rt i)"
  by (simp add: lifecycle_stop_def polling_stop_ok queue_stop_ok)

lemma lifecycle_sync_ok:
  assumes "runtime_ok rt"
  shows "runtime_ok (fst (lifecycle_sync refuse rt c))"
proof -
  let ?rt = "PollingConnector_stop (QueueConnector_stop rt (cn_id c)) (cn_id c)"
  have ok: "runtime_ok ?rt" using assms queue_stop_ok polling_stop_ok by blast
  have none: "jm_get (rt_subscriptions ?rt) (cn_id c) = None"
    using queue_stop_ok [OF assms, of "cn_id c"] by (simp add: PollingConnector_stop_def)
  show ?thesis
    using ok polling_start_ok [OF ok] queue_start_ok [OF ok none]
    by (auto simp: lifecycle_sync_def Let_def split: ConnectorType.splits sum.splits)
qed

section \<open>Properties\<close>

text \<open>
  C29. Processing an event of a stored connector always ends, after at most one attempt more than the
  retries of the policy. Every attempt leaves one event, all but the last failed; the last is submitted
  or filtered if processing returns, and failed with its message if it throws. The delays waited are those
  of the backoff.
\<close>

theorem event_attempts_recorded:
  assumes "conn_submit_ok submit" and "cn_id c \<in> cn_id ` set (cd_connectors s)"
    and "\<forall>k. us k \<notin> ce_id ` set (cd_events s)" and "inj us"
  shows "\<exists>s' res rows. processEvent lb rp submit us clks s c (Some p)
      = (s', res, map (\<lambda>k. min (ry_initialDelayMs rp * ry_backoffMultiplier rp ^ (k - 1)) (ry_maxDelayMs rp)) [1..<length rows])
    \<and> cd_events s' = cd_events s @ rows \<and> rows \<noteq> [] \<and> length rows \<le> ry_maxRetries rp + 1
    \<and> (\<forall>e \<in> set rows. ce_connectorId e = cn_id c) \<and> (\<forall>e \<in> set (butlast rows). ce_status e = EvFailed)
    \<and> (case res of None \<Rightarrow> ce_status (last rows) \<in> {EvSubmitted, EvFiltered}
       | Some e \<Rightarrow> ce_status (last rows) = EvFailed \<and> ce_error (last rows) = Some (message e))"
proof -
  obtain s' res rows where r: "processEventAttempt lb rp submit us clks s c (Some p) 1
      = (s', res, map (computeRetryDelay rp) [1..<1 + length rows - 1])"
    "cd_events s' = cd_events s @ rows" "length rows \<le> Suc (Suc (ry_maxRetries rp) - 1)" "attempts_ok (cn_id c) res rows"
    using processEventAttempt_rows [OF assms(1,2) _ assms(4), of 1] assms(3) by blast
  then show ?thesis
    by (intro exI [of _ s'] exI [of _ res] exI [of _ rows])
      (auto simp: processEvent_def attempts_ok_def list_all_iff computeRetryDelay_def [abs_def] split: option.splits)
qed

abbreviation webhook_alg :: "WebhookConfig \<Rightarrow> string" where
  "webhook_alg w \<equiv> (if js_truthy (wc_signatureAlgorithm w) then the (wc_signatureAlgorithm w) else ''sha256'')"

lemma validateWebhook_ok:
  "validateWebhook hmac c sig raw = Inr () \<longleftrightarrow>
   (case cn_config c of
      CfgWebhook w \<Rightarrow> wc_secret w = [] \<or>
        (\<exists>t d. raw = Some t \<and> t \<noteq> [] \<and> hmac (webhook_alg w) (wc_secret w) t = Some d \<and> sig = Some (webhook_alg w @ ''='' @ d))
    | _ \<Rightarrow> True)"
proof (cases "cn_config c")
  case (CfgWebhook w)
  then show ?thesis
    by (cases raw; cases sig)
      (auto simp: validateWebhook_def webhook_secret_def webhook_algorithm_def validateSignature_def Let_def split: option.splits if_splits)
qed (simp_all add: validateWebhook_def webhook_secret_def)

text \<open>
  C15. A webhook is accepted exactly when its connector exists, is an enabled webhook connector, the
  worker is available, and either the configuration has no secret or the signature header carries the
  keyed digest of the body under that secret. A webhook connector whose configuration is of another kind
  therefore accepts unsigned requests.
\<close>

theorem webhook_accepted_iff:
  "rp_status (fst (post_webhook hmac valid_uuid available s i headers body)) = 202 \<longleftrightarrow>
   valid_uuid i \<and> available \<and>
   (\<exists>c. SqliteConnectorRepository_get s i = Some c \<and> cn_type c = TypeWebhook \<and> cn_enabled c \<and>
     (case cn_config c of
        CfgWebhook w \<Rightarrow> wc_secret w = [] \<or>
          (\<exists>j t d. body = Some j \<and> t = (case j of JStr u \<Rightarrow> u | _ \<Rightarrow> json_stringify j) \<and> t \<noteq> []
             \<and> hmac (webhook_alg w) (wc_secret w) t = Some d
             \<and> jm_get headers (js_toLowerCase (if js_truthy (wc_signatureHeader w) then the (wc_signatureHeader w) else ''X-Hub-Signature-256''))
               = Some (webhook_alg w @ ''='' @ d))
      | _ \<Rightarrow> True))"
proof (cases "SqliteConnectorRepository_get s i")
  case (Some c)
  let ?header = "let h = webhook_header (cn_config c) in if js_truthy h then the h else ''X-Hub-Signature-256''"
  let ?raw = "case body of None \<Rightarrow> None | Some (JStr t) \<Rightarrow> Some t | Some j \<Rightarrow> Some (json_stringify j)"
  have raw: "?raw = map_option (\<lambda>j. case j of JStr u \<Rightarrow> u | _ \<Rightarrow> json_stringify j) body"
    by (auto split: option.splits json.splits)
  have "rp_status (fst (post_webhook hmac valid_uuid available s i headers body)) = 202 \<longleftrightarrow>
      valid_uuid i \<and> cn_type c = TypeWebhook \<and> cn_enabled c \<and> available
      \<and> validateWebhook hmac c (jm_get headers (js_toLowerCase ?header)) ?raw = Inr ()"
    using Some by (simp add: post_webhook_def Let_def split: sum.splits)
  then show ?thesis
    unfolding raw validateWebhook_ok using Some
    by (cases "cn_config c") (auto simp: webhook_header_def)
qed (simp add: post_webhook_def)

text \<open>
  Polling reports every change once. A poll that returns true has processed the response, and a
  poll of the same response afterwards returns false and processes nothing. A poll that throws leaves the
  remembered state as it was, so that the change is processed again.
\<close>

theorem poll_reports_change_once:
  "case poll sha parse fetch process states w c of
     (states', w', Inr True) \<Rightarrow> poll sha parse fetch process states' w' c = (states', w', Inr False)
   | (states', w', Inr False) \<Rightarrow> states' = states \<and> w' = w
   | (states', w', Inl e) \<Rightarrow> states' = states"
proof (cases "cn_type c = TypePolling")
  case True
  have same: "isUnchanged strategy (Some st) st" for strategy st by (simp add: isUnchanged_def)
  show ?thesis
  proof (cases "fetch (polling_url (cn_config c)) (polling_method (cn_config c)) (polling_headers (cn_config c))")
    case (Inr r)
    with True same show ?thesis
      by (auto simp: poll_def Let_def jm_get_set split: if_splits option.splits prod.splits bool.splits)
  qed (use True in \<open>simp add: poll_def\<close>)
qed (simp add: poll_def)

text \<open>
  Every life cycle call keeps the runtime invariant, which holds at the start: at most one open
  subscription per connector, all of them known to the queue connector, and no timer twice. After a connector is
  synchronised or stopped it has a subscription exactly if it is an enabled queue connector that could be
  subscribed, and a timer exactly if it is an enabled polling connector.
\<close>

theorem connector_lifecycle_exact:
  assumes "runtime_ok rt"
  shows "runtime_ok (fst (lifecycle_sync refuse rt c)) \<and> runtime_ok (lifecycle_stop rt (cn_id c))
    \<and> ((\<exists>n. (n, cn_id c) \<in> set (rt_open (fst (lifecycle_sync refuse rt c)))) \<longleftrightarrow>
        cn_enabled c \<and> cn_type c = TypeQueue \<and> is_queue_config (cn_config c) \<and> refuse = None)
    \<and> (cn_id c \<in> set (rt_timers (fst (lifecycle_sync refuse rt c))) \<longleftrightarrow> cn_enabled c \<and> cn_type c = TypePolling)
    \<and> (\<forall>n. (n, cn_id c) \<notin> set (rt_open (lifecycle_stop rt (cn_id c)))) \<and> cn_id c \<notin> set (rt_timers (lifecycle_stop rt (cn_id c)))"
proof -
  let ?rt = "PollingConnector_stop (QueueConnector_stop rt (cn_id c)) (cn_id c)"
  have stopped: "jm_get (rt_subscriptions ?rt) (cn_id c) = None" "cn_id c \<notin> set (rt_timers ?rt)"
    using queue_stop_ok [OF assms, of "cn_id c"] by (simp_all add: PollingConnector_stop_def)
  have sync: "runtime_ok (fst (lifecycle_sync refuse rt c))" and stop: "runtime_ok (lifecycle_stop rt (cn_id c))"
    using assms lifecycle_sync_ok lifecycle_stop_ok by blast+
  have subs: "jm_get (rt_subscriptions (fst (lifecycle_sync refuse rt c))) (cn_id c) \<noteq> None \<longleftrightarrow>
      cn_enabled c \<and> cn_type c = TypeQueue \<and> is_queue_config (cn_config c) \<and> refuse = None"
    using stopped by (cases refuse)
      (auto simp: lifecycle_sync_def Let_def QueueConnector_start_def PollingConnector_start_def jm_get_set split: ConnectorType.splits)
  have timers: "cn_id c \<in> set (rt_timers (fst (lifecycle_sync refuse rt c))) \<longleftrightarrow> cn_enabled c \<and> cn_type c = TypePolling"
    using stopped by (cases refuse)
      (auto simp: lifecycle_sync_def Let_def QueueConnector_start_def PollingConnector_start_def split: ConnectorType.splits)
  have known: "(\<exists>n. (n, i) \<in> set (rt_open r)) \<longleftrightarrow> jm_get (rt_subscriptions r) i \<noteq> None" if "runtime_ok r" for r i
    using that by (auto simp: runtime_ok_def)
  show ?thesis
    using sync stop subs timers stopped known [OF sync, of "cn_id c"] known [OF stop, of "cn_id c"]
    by (simp add: lifecycle_stop_def)
qed

section \<open>Witnesses\<close>

definition demo_transformation :: Transformation where
  "demo_transformation = \<lparr>tn_inputTemplate = None, tn_jsonPath = None, tn_staticPrefix = Some ''>'', tn_staticSuffix = None,
     tn_fallback = None, tn_filters = None\<rparr>"

definition demo_connector :: Connector where
  "demo_connector = \<lparr>cn_id = ''c1'', cn_name = ''n'', cn_type = TypeQueue, cn_agentId = ''a1'',
     cn_config = CfgRedis \<lparr>rd_url = ''u'', rd_stream = ''s'', rd_consumerGroup = ''g'', rd_consumerName = None, rd_batchSize = None,
       rd_blockMs = None, rd_requeueOnFailure = None, rd_deadLetterStream = None\<rparr>,
     cn_transformation = demo_transformation, cn_enabled = True, cn_createdAt = ''1'', cn_updatedAt = ''1'', cn_lastEventAt = None\<rparr>"

definition demo_conn_db :: conn_db where
  "demo_conn_db = \<lparr>cd_agents = [''a1''], cd_runs = [], cd_connectors = [demo_connector], cd_events = []\<rparr>"

definition demo_libs :: libs where
  "demo_libs = \<lparr>lb_jsonPath = (\<lambda>p j. None), lb_handlebars = (\<lambda>t j. Inr t), lb_regex = (\<lambda>p t. Inr False)\<rparr>"

text \<open>The first attempt meets an overloaded service, the second succeeds.\<close>

definition demo_conn_submit :: conn_submit where
  "demo_conn_submit k s a x = (if k = 1 then (s, Inl \<lparr>message = ''busy'', err_code = None, err_status = Some 503\<rparr>)
     else (s\<lparr>cd_runs := ''r1'' # cd_runs s\<rparr>, Inr ''r1''))"

theorem event_attempts_recorded_witness:
  "\<exists>s' res rows. processEvent demo_libs default_retry_policy demo_conn_submit (\<lambda>k. replicate k CHR ''x'') (\<lambda>k. ''5'')
      demo_conn_db demo_connector (Some (JStr ''hi'')) = (s', res, map (\<lambda>k. min (1000 * 2 ^ (k - 1)) 30000) [1..<length rows])
    \<and> cd_events s' = rows \<and> rows \<noteq> [] \<and> length rows \<le> 4"
proof -
  have ok: "conn_submit_ok demo_conn_submit" by (simp add: conn_submit_ok_def demo_conn_submit_def)
  have pres: "cn_id demo_connector \<in> cn_id ` set (cd_connectors demo_conn_db)" by (simp add: demo_conn_db_def)
  have fresh: "\<forall>k. replicate k CHR ''x'' \<notin> ce_id ` set (cd_events demo_conn_db)" by (simp add: demo_conn_db_def)
  have inj: "inj (\<lambda>k. replicate k CHR ''x'')" by (rule injI) (metis length_replicate)
  have rp: "ry_initialDelayMs default_retry_policy = 1000" "ry_backoffMultiplier default_retry_policy = 2"
    "ry_maxDelayMs default_retry_policy = 30000" "ry_maxRetries default_retry_policy = 3"
    by (simp_all add: default_retry_policy_def)
  have "cd_events demo_conn_db = []" by (simp add: demo_conn_db_def)
  with event_attempts_recorded [OF ok pres fresh inj, of demo_libs default_retry_policy "\<lambda>k. ''5''" "JStr ''hi''"]
  show ?thesis unfolding rp by (elim exE conjE) (intro exI conjI, assumption, simp_all)
qed

theorem connector_lifecycle_exact_witness:
  "\<exists>n. (n, ''c1'') \<in> set (rt_open (fst (lifecycle_sync None runtime_init demo_connector)))"
  using connector_lifecycle_exact [OF runtime_ok_init, of None demo_connector]
  by (simp add: demo_connector_def is_queue_config_def)

end
