(* ===== verification/Queue_Drivers.thy ===== *)
theory Queue_Drivers
  imports Connectors Json_Text
begin

text \<open>
  The queue drivers behind the queue connector: \<^verbatim>\<open>packages/connector-worker/src/redis-queue-driver.ts\<close>,
  \<^verbatim>\<open>rabbitmq-queue-driver.ts\<close> and \<^verbatim>\<open>broker-queue-driver.ts\<close>, with the message callback of
  \<^verbatim>\<open>queue-connector.ts\<close> they run.

  The clients of the two brokers (\<^verbatim>\<open>ioredis\<close>, \<^verbatim>\<open>amqplib\<close>) and the event processor are an argument: what
  they answer to an action after the actions before it. What a driver does with one message is then a
  trace of actions with their outcomes. The life of a subscription, from opening over lost connections
  and reconnections to closing, is a state machine whose events are the points where an awaited call
  answers, a timer fires or the client library reports a closed connection; several reconnections may
  be under way at once. Reconnections are scheduled by the default scheduler of the drivers: a timer
  that is not awaited, so the flag \<^verbatim>\<open>recovering\<close> is reset before the timer fires.
\<close>

section \<open>The message callback of the queue connector\<close>

text \<open>An asynchronous call: it moves the trace on and may throw.\<close>

type_synonym 't call = "'t \<Rightarrow> 't \<times> exn option"

definition queue_callback :: "'t call \<Rightarrow> 't call \<Rightarrow> (bool \<Rightarrow> 't call) \<Rightarrow> bool \<Rightarrow> 't call" where
  "queue_callback process ack nack requeue t =
     (case process t of
        (t1, Some e) \<Rightarrow> nack requeue t1
      | (t1, None) \<Rightarrow>
          (case ack t1 of
             (t2, Some e) \<Rightarrow> nack requeue t2
           | (t2, None) \<Rightarrow> (t2, None)))"

section \<open>Redis streams\<close>

record RedisStreamEntry =
  se_id :: ident
  se_values :: "(string, string) jsmap"

record RedisReadGroupOptions =
  ro_stream :: string
  ro_consumerGroup :: string
  ro_consumerName :: string
  ro_batchSize :: nat
  ro_blockMs :: nat

fun stream_fields :: "json list \<Rightarrow> (string, string) jsmap \<Rightarrow> (string, string) jsmap" where
  "stream_fields (k # v # rest) acc =
     stream_fields rest (case (k, v) of (JStr a, JStr b) \<Rightarrow> jm_set acc a b | _ \<Rightarrow> acc)"
| "stream_fields _ acc = acc"

definition stream_message :: "json \<Rightarrow> RedisStreamEntry list" where
  "stream_message msg =
     (case msg of
        JArr (JStr i # JArr kvs # _) \<Rightarrow> [\<lparr>se_id = i, se_values = stream_fields kvs []\<rparr>]
      | _ \<Rightarrow> [])"

definition stream_entries :: "json \<Rightarrow> RedisStreamEntry list" where
  "stream_entries streamEntry =
     (case streamEntry of
        JArr (_ # JArr messages # _) \<Rightarrow> concat (map stream_message messages)
      | _ \<Rightarrow> [])"

definition parseReadGroupResponse :: "json \<Rightarrow> RedisStreamEntry list" where
  "parseReadGroupResponse response =
     (case response of JArr streams \<Rightarrow> concat (map stream_entries streams) | _ \<Rightarrow> [])"

text \<open>Creating the group: the error that it exists already is not an error.\<close>

definition ensureConsumerGroup :: "exn option \<Rightarrow> (exn \<Rightarrow> string) \<Rightarrow> exn option" where
  "ensureConsumerGroup xgroup_error to_text =
     (case xgroup_error of
        Some e \<Rightarrow> if js_includes (to_text e) ''BUSYGROUP'' then None else Some e
      | None \<Rightarrow> None)"

definition getRedisConfig :: "Connector \<Rightarrow> RedisQueueConfig result" where
  "getRedisConfig c =
     (case cn_config c of
        CfgRedis q \<Rightarrow> if cn_type c = TypeQueue then Inr q
          else Inl (Error ''RedisQueueDriver only supports Redis queue connectors'')
      | _ \<Rightarrow> Inl (Error ''RedisQueueDriver only supports Redis queue connectors''))"

definition redis_read_options :: "Connector \<Rightarrow> RedisQueueConfig \<Rightarrow> RedisReadGroupOptions" where
  "redis_read_options c q =
     \<lparr>ro_stream = rd_stream q, ro_consumerGroup = rd_consumerGroup q,
      ro_consumerName = js_or (rd_consumerName q) (''senclaw-'' @ take 8 (cn_id c)),
      ro_batchSize = js_or (rd_batchSize q) 1, ro_blockMs = js_or (rd_blockMs q) 1000\<rparr>"

definition parsePayload :: "(string, string) jsmap \<Rightarrow> json result" where
  "parsePayload values =
     (case jm_get values ''payload'' of
        Some text \<Rightarrow> (case json_parse text of Some j \<Rightarrow> Inr j | None \<Rightarrow> Inl (Error ''SyntaxError''))
      | None \<Rightarrow> Inr (JObj (map (map_prod id JStr) values)))"

text \<open>The actions of a driver on one message; the last of them is the work of the event processor.\<close>

datatype redis_action =
  XAck string string ident | XDel string ident | XAdd string json | RdProcess json

type_synonym 'a trace = "('a \<times> exn option) list"
type_synonym 'a world = "'a trace \<Rightarrow> 'a \<Rightarrow> exn option"

definition act :: "'a world \<Rightarrow> 'a \<Rightarrow> ('a trace) call" where
  "act world a t = (t @ [(a, world t a)], world t a)"

definition and_then :: "'t call \<Rightarrow> 't call \<Rightarrow> 't call" where
  "and_then f g t = (case f t of (t1, Some e) \<Rightarrow> (t1, Some e) | (t1, None) \<Rightarrow> g t1)"

definition acknowledgeAndDelete :: "redis_action world \<Rightarrow> RedisQueueConfig \<Rightarrow> ident \<Rightarrow> (redis_action trace) call" where
  "acknowledgeAndDelete world q i =
     and_then (act world (XAck (rd_stream q) (rd_consumerGroup q) i)) (act world (XDel (rd_stream q) i))"

definition redis_nack ::
    "redis_action world \<Rightarrow> RedisQueueConfig \<Rightarrow> ident \<Rightarrow> json \<Rightarrow> bool \<Rightarrow> (redis_action trace) call" where
  "redis_nack world q i payload requeue =
     (if requeue then and_then (act world (XAdd (rd_stream q) payload)) (acknowledgeAndDelete world q i)
      else if js_truthy (rd_deadLetterStream q)
      then and_then (act world (XAdd (the (rd_deadLetterStream q)) payload)) (acknowledgeAndDelete world q i)
      else acknowledgeAndDelete world q i)"

definition redis_requeues :: "RedisQueueConfig \<Rightarrow> bool" where
  "redis_requeues q \<longleftrightarrow> rd_requeueOnFailure q = Some True"

definition redis_entry :: "redis_action world \<Rightarrow> RedisQueueConfig \<Rightarrow> RedisStreamEntry \<Rightarrow> (redis_action trace) call" where
  "redis_entry world q entry t =
     (case parsePayload (se_values entry) of
        Inl e \<Rightarrow> (t, Some e)
      | Inr payload \<Rightarrow>
          (case queue_callback (act world (RdProcess payload)) (acknowledgeAndDelete world q (se_id entry))
                  (redis_nack world q (se_id entry) payload) (redis_requeues q) t of
             (t1, None) \<Rightarrow> (t1, None)
           | (t1, Some e) \<Rightarrow> redis_nack world q (se_id entry) payload (redis_requeues q) t1))"

fun redis_batch :: "redis_action world \<Rightarrow> RedisQueueConfig \<Rightarrow> RedisStreamEntry list \<Rightarrow> (redis_action trace) call" where
  "redis_batch world q [] t = (t, None)"
| "redis_batch world q (e # es) t = and_then (redis_entry world q e) (redis_batch world q es) t"

text \<open>One iteration of the consuming loop: the answer of the read, then its entries.\<close>

definition redis_iteration ::
    "redis_action world \<Rightarrow> RedisQueueConfig \<Rightarrow> json result \<Rightarrow> (redis_action trace) call" where
  "redis_iteration world q answer t =
     (case answer of
        Inl e \<Rightarrow> (t, Some e)
      | Inr response \<Rightarrow> redis_batch world q (parseReadGroupResponse response) t)"

section \<open>The subscription of the Redis driver\<close>

text \<open>
  The variables \<^verbatim>\<open>closed\<close>, \<^verbatim>\<open>recovering\<close>, \<^verbatim>\<open>client\<close> and \<^verbatim>\<open>closeHandler\<close> of a subscription, and what is
  under way: consuming loops, clients on which a close handler is registered, clients not closed by the
  driver, timers, attempts that await the client and attempts that await the consumer group. A client
  is the number it was created with, a close handler is named by its client. The last field counts the
  attempts that failed; no operation reads it.
\<close>

record redis_sub =
  ru_closed :: bool
  ru_recovering :: bool
  ru_client :: "nat option"
  ru_handler :: "nat option"
  ru_loops :: "nat list"
  ru_listening :: "nat list"
  ru_open :: "nat list"
  ru_timers :: nat
  ru_creating :: nat
  ru_grouping :: "nat list"
  ru_next :: nat
  ru_failed :: nat

definition redis_subscribe :: redis_sub where
  "redis_subscribe = \<lparr>ru_closed = False, ru_recovering = False, ru_client = None, ru_handler = None, ru_loops = [],
     ru_listening = [], ru_open = [], ru_timers = 0, ru_creating = 1, ru_grouping = [], ru_next = 0, ru_failed = 0\<rparr>"

definition redis_recover :: "redis_sub \<Rightarrow> redis_sub" where
  "redis_recover s =
     (if ru_closed s \<or> ru_recovering s then s
      else s\<lparr>ru_recovering := True, ru_timers := Suc (ru_timers s)\<rparr>)"

text \<open>The end of \<^verbatim>\<open>openSubscription\<close>, after the consumer group has been ensured.\<close>

definition redis_opened :: "nat \<Rightarrow> redis_sub \<Rightarrow> redis_sub" where
  "redis_opened c s =
     s\<lparr>ru_client := Some c, ru_handler := Some c, ru_listening := ru_listening s @ [c],
       ru_loops := (if ru_closed s then ru_loops s else ru_loops s @ [c])\<rparr>"

definition redis_close_handler :: "nat \<Rightarrow> redis_sub \<Rightarrow> redis_sub" where
  "redis_close_handler c s =
     (if ru_closed s then s
      else redis_recover (if ru_client s = Some c then s\<lparr>ru_client := None, ru_handler := None\<rparr> else s))"

definition redis_loop_step :: "nat \<Rightarrow> exn option \<Rightarrow> redis_sub \<Rightarrow> redis_sub" where
  "redis_loop_step c outcome s =
     (if ru_closed s \<or> ru_client s \<noteq> Some c then s\<lparr>ru_loops := remove1 c (ru_loops s)\<rparr>
      else (case outcome of
              None \<Rightarrow> s
            | Some e \<Rightarrow> redis_recover (s\<lparr>ru_client := None, ru_handler := None, ru_loops := remove1 c (ru_loops s)\<rparr>)))"

definition redis_cleanup :: "redis_sub \<Rightarrow> redis_sub" where
  "redis_cleanup s =
     s\<lparr>ru_client := None, ru_handler := None,
       ru_listening := (case (ru_client s, ru_handler s) of
           (Some c, Some h) \<Rightarrow> if h = c then remove1 c (ru_listening s) else ru_listening s
         | _ \<Rightarrow> ru_listening s),
       ru_open := (case ru_client s of Some c \<Rightarrow> remove1 c (ru_open s) | None \<Rightarrow> ru_open s)\<rparr>"

datatype redis_event =
  RdBatch nat "exn option"   \<comment> \<open>an iteration of the loop of a client ends, perhaps by an exception\<close>
| RdLost nat                 \<comment> \<open>the library reports that the connection of a client closed\<close>
| RdSettled                  \<comment> \<open>the scheduler has returned to \<^verbatim>\<open>recover\<close>\<close>
| RdTimer                    \<comment> \<open>the timer of a reconnection fires\<close>
| RdCreated "exn option"     \<comment> \<open>\<^verbatim>\<open>createClient\<close> answers\<close>
| RdGrouped nat "exn option" \<comment> \<open>\<^verbatim>\<open>ensureConsumerGroup\<close> of a client answers\<close>
| RdClose                    \<comment> \<open>\<^verbatim>\<open>close\<close> is called\<close>

fun redis_step :: "redis_event \<Rightarrow> redis_sub \<Rightarrow> redis_sub option" where
  "redis_step (RdBatch c r) s = (if c \<in> set (ru_loops s) then Some (redis_loop_step c r s) else None)"
| "redis_step (RdLost c) s = (if c \<in> set (ru_listening s) then Some (redis_close_handler c s) else None)"
| "redis_step RdSettled s = (if ru_recovering s then Some (s\<lparr>ru_recovering := False\<rparr>) else None)"
| "redis_step RdTimer s =
     (if ru_recovering s \<or> ru_timers s = 0 then None
      else Some (s\<lparr>ru_timers := ru_timers s - 1,
        ru_creating := (if ru_closed s then ru_creating s else Suc (ru_creating s))\<rparr>))"
| "redis_step (RdCreated r) s =
     (if ru_creating s = 0 then None
      else (let s1 = s\<lparr>ru_creating := ru_creating s - 1\<rparr>
            in Some (case r of
                 Some e \<Rightarrow> s1\<lparr>ru_failed := Suc (ru_failed s)\<rparr>
               | None \<Rightarrow> s1\<lparr>ru_next := Suc (ru_next s), ru_open := ru_open s @ [ru_next s],
                   ru_grouping := ru_grouping s @ [ru_next s]\<rparr>)))"
| "redis_step (RdGrouped c r) s =
     (if c \<notin> set (ru_grouping s) then None
      else (let s1 = s\<lparr>ru_grouping := remove1 c (ru_grouping s)\<rparr>
            in Some (case r of Some e \<Rightarrow> s1\<lparr>ru_failed := Suc (ru_failed s)\<rparr> | None \<Rightarrow> redis_opened c s1)))"
| "redis_step RdClose s = Some (redis_cleanup (s\<lparr>ru_closed := True\<rparr>))"

section \<open>RabbitMQ\<close>

definition getRabbitMqConfig :: "Connector \<Rightarrow> RabbitMqQueueConfig result" where
  "getRabbitMqConfig c =
     (case cn_config c of
        CfgRabbit q \<Rightarrow> if cn_type c = TypeQueue then Inr q
          else Inl (Error ''RabbitMqQueueDriver only supports RabbitMQ queue connectors'')
      | _ \<Rightarrow> Inl (Error ''RabbitMqQueueDriver only supports RabbitMQ queue connectors''))"

datatype rabbit_action = ChAck | ChNack bool | RmProcess json

definition rabbit_requeues :: "RabbitMqQueueConfig \<Rightarrow> bool" where
  "rabbit_requeues q \<longleftrightarrow> rb_requeueOnFailure q = Some True"

text \<open>The consumer: no message is passed when the broker has cancelled the consumer.\<close>

definition rabbit_consumer ::
    "rabbit_action world \<Rightarrow> RabbitMqQueueConfig \<Rightarrow> string option \<Rightarrow> (rabbit_action trace) call" where
  "rabbit_consumer world q content t =
     (case content of
        None \<Rightarrow> (t, None)
      | Some text \<Rightarrow>
          (case (case json_parse text of
                   None \<Rightarrow> (t, Some (Error ''SyntaxError''))
                 | Some payload \<Rightarrow>
                     queue_callback (act world (RmProcess payload)) (act world ChAck) (\<lambda>requeue. act world (ChNack requeue))
                       (rabbit_requeues q) t) of
             (t1, None) \<Rightarrow> (t1, None)
           | (t1, Some e) \<Rightarrow> act world (ChNack False) t1))"

text \<open>The calls \<^verbatim>\<open>openSubscription\<close> awaits, in order.\<close>

datatype rabbit_call =
  RmConnect string | RmCreateChannel | RmAssertExchange string string bool
| RmAssertQueue string bool "(string \<times> string) list option" | RmBindQueue string string string
| RmPrefetch nat | RmConsume string

definition queueArguments :: "RabbitMqQueueConfig \<Rightarrow> (string \<times> string) list" where
  "queueArguments q =
     (if js_truthy (rb_deadLetterExchange q) then [(''x-dead-letter-exchange'', the (rb_deadLetterExchange q))] else [])
   @ (if js_truthy (rb_deadLetterRoutingKey q)
      then [(''x-dead-letter-routing-key'', the (rb_deadLetterRoutingKey q))] else [])"

definition rabbit_plan :: "RabbitMqQueueConfig \<Rightarrow> rabbit_call list" where
  "rabbit_plan q =
     (let durable = js_or (rb_durable q) True
      in [RmConnect (rb_url q), RmCreateChannel]
       @ (if js_truthy (rb_exchange q)
          then [RmAssertExchange (the (rb_exchange q)) (js_or (rb_exchangeType q) ''direct'') durable] else [])
       @ [RmAssertQueue (rb_queue q) durable (if queueArguments q \<noteq> [] then Some (queueArguments q) else None)]
       @ (if js_truthy (rb_exchange q)
          then [RmBindQueue (rb_queue q) (the (rb_exchange q)) (js_or (rb_routingKey q) [])] else [])
       @ (case rb_prefetch q of Some n \<Rightarrow> if n \<noteq> 0 then [RmPrefetch n] else [] | None \<Rightarrow> [])
       @ [RmConsume (rb_queue q)])"

text \<open>
  The subscription. An attempt under way is the list of the calls it has not got an answer to, the first of
  them awaited; the close handler is named by the connection it was made for, which is absent when the
  connection had been dropped before. The last field counts the attempts that failed before the close
  handler was registered; no operation reads it.
\<close>

record rabbit_sub =
  rm_closed :: bool
  rm_recovering :: bool
  rm_connection :: "nat option"
  rm_channel :: "nat option"
  rm_handler :: "nat option option"
  rm_listening :: "nat list"
  rm_open :: "nat list"
  rm_timers :: nat
  rm_attempts :: "rabbit_call list list"
  rm_next :: nat
  rm_failed :: nat

definition rabbit_subscribe :: "RabbitMqQueueConfig \<Rightarrow> rabbit_sub" where
  "rabbit_subscribe q = \<lparr>rm_closed = False, rm_recovering = False, rm_connection = None, rm_channel = None,
     rm_handler = None, rm_listening = [], rm_open = [], rm_timers = 0, rm_attempts = [rabbit_plan q], rm_next = 0,
     rm_failed = 0\<rparr>"

definition rabbit_recover :: "rabbit_sub \<Rightarrow> rabbit_sub" where
  "rabbit_recover s =
     (if rm_closed s \<or> rm_recovering s then s
      else s\<lparr>rm_recovering := True, rm_timers := Suc (rm_timers s)\<rparr>)"

definition rabbit_fail :: "rabbit_sub \<Rightarrow> rabbit_sub" where
  "rabbit_fail s = s\<lparr>rm_failed := Suc (rm_failed s)\<rparr>"

text \<open>
  What follows a successful call: the next call on the channel, which throws when the channel has been
  dropped meanwhile; before the last call the close handler is registered on the connection.
\<close>

definition rabbit_proceed :: "rabbit_call list \<Rightarrow> rabbit_sub \<Rightarrow> rabbit_sub" where
  "rabbit_proceed rest s =
     (case rest of
        [] \<Rightarrow> s
      | RmConsume q # _ \<Rightarrow>
          (let s1 = s\<lparr>rm_handler := Some (rm_connection s)\<rparr>
           in case rm_connection s of
                None \<Rightarrow> rabbit_fail s1
              | Some c \<Rightarrow>
                  (let s2 = s1\<lparr>rm_listening := rm_listening s @ [c]\<rparr>
                   in case rm_channel s of
                        None \<Rightarrow> s2
                      | Some _ \<Rightarrow> s2\<lparr>rm_attempts := rm_attempts s @ [rest]\<rparr>))
      | _ \<Rightarrow>
          (case rm_channel s of
             None \<Rightarrow> rabbit_fail s
           | Some _ \<Rightarrow> s\<lparr>rm_attempts := rm_attempts s @ [rest]\<rparr>))"

definition rabbit_answer :: "rabbit_call \<Rightarrow> rabbit_call list \<Rightarrow> rabbit_sub \<Rightarrow> rabbit_sub" where
  "rabbit_answer call rest s =
     (case call of
        RmConnect url \<Rightarrow>
          s\<lparr>rm_connection := Some (rm_next s), rm_open := rm_open s @ [rm_next s], rm_next := Suc (rm_next s),
            rm_attempts := rm_attempts s @ [rest]\<rparr>
      | RmCreateChannel \<Rightarrow> rabbit_proceed rest (s\<lparr>rm_channel := Some (rm_next s), rm_next := Suc (rm_next s)\<rparr>)
      | RmConsume q \<Rightarrow> s
      | _ \<Rightarrow> rabbit_proceed rest s)"

definition rabbit_close_handler :: "nat \<Rightarrow> rabbit_sub \<Rightarrow> rabbit_sub" where
  "rabbit_close_handler c s =
     (if rm_closed s then s
      else rabbit_recover (s\<lparr>rm_connection := None, rm_channel := None, rm_handler := None,
        rm_listening := (if rm_handler s = Some (Some c) then remove1 c (rm_listening s) else rm_listening s)\<rparr>))"

text \<open>Closing the connection is not reached when closing the channel throws.\<close>

definition rabbit_cleanup :: "exn option \<Rightarrow> rabbit_sub \<Rightarrow> rabbit_sub" where
  "rabbit_cleanup channel_error s =
     s\<lparr>rm_connection := None, rm_channel := None, rm_handler := None,
       rm_listening := (case (rm_connection s, rm_handler s) of
           (Some c, Some h) \<Rightarrow> if h = Some c then remove1 c (rm_listening s) else rm_listening s
         | _ \<Rightarrow> rm_listening s),
       rm_open := (case rm_connection s of
           Some c \<Rightarrow> if rm_channel s \<noteq> None \<and> channel_error \<noteq> None then rm_open s else remove1 c (rm_open s)
         | None \<Rightarrow> rm_open s)\<rparr>"

datatype rabbit_event =
  RmAnswer nat "exn option"   \<comment> \<open>the call awaited by an attempt answers\<close>
| RmLost nat                  \<comment> \<open>the library reports that a connection closed\<close>
| RmSettled                   \<comment> \<open>the scheduler has returned to \<^verbatim>\<open>recover\<close>\<close>
| RmTimer                     \<comment> \<open>the timer of a reconnection fires\<close>
| RmClose "exn option"        \<comment> \<open>\<^verbatim>\<open>close\<close> is called\<close>

definition before_consume :: "rabbit_call list \<Rightarrow> bool" where
  "before_consume calls \<longleftrightarrow> 1 < length calls"

fun rabbit_step :: "RabbitMqQueueConfig \<Rightarrow> rabbit_event \<Rightarrow> rabbit_sub \<Rightarrow> rabbit_sub option" where
  "rabbit_step q (RmAnswer i r) s =
     (if length (rm_attempts s) \<le> i then None
      else (let s1 = s\<lparr>rm_attempts := take i (rm_attempts s) @ drop (Suc i) (rm_attempts s)\<rparr>
            in case rm_attempts s ! i of
                 [] \<Rightarrow> Some s1
               | call # rest \<Rightarrow>
                   Some (case r of
                     Some e \<Rightarrow> if before_consume (call # rest) then rabbit_fail s1 else s1
                   | None \<Rightarrow> rabbit_answer call rest s1)))"
| "rabbit_step q (RmLost c) s = (if c \<in> set (rm_listening s) then Some (rabbit_close_handler c s) else None)"
| "rabbit_step q RmSettled s = (if rm_recovering s then Some (s\<lparr>rm_recovering := False\<rparr>) else None)"
| "rabbit_step q RmTimer s =
     (if rm_recovering s \<or> rm_timers s = 0 then None
      else Some (s\<lparr>rm_timers := rm_timers s - 1,
        rm_attempts := (if rm_closed s then rm_attempts s else rm_attempts s @ [rabbit_plan q])\<rparr>))"
| "rabbit_step q (RmClose r) s = Some (rabbit_cleanup r (s\<lparr>rm_closed := True\<rparr>))"

section \<open>The broker driver\<close>

definition BrokerQueueDriver_subscribe ::
    "(Connector \<Rightarrow> 's result) \<Rightarrow> (Connector \<Rightarrow> 's result) \<Rightarrow> Connector \<Rightarrow> 's result" where
  "BrokerQueueDriver_subscribe rabbitmq redis c =
     (if cn_type c \<noteq> TypeQueue \<or> \<not> is_queue_config (cn_config c)
      then Inl (Error ''BrokerQueueDriver only supports queue connectors'')
      else (case cn_config c of
              CfgRabbit _ \<Rightarrow> rabbitmq c
            | CfgRedis _ \<Rightarrow> redis c
            | _ \<Rightarrow> Inl (Error ''Unsupported queue provider'')))"

section \<open>The Redis subscription\<close>

definition redis_ok :: "redis_sub \<Rightarrow> bool" where
  "redis_ok s \<longleftrightarrow>
     ru_handler s = ru_client s
   \<and> (\<forall>c. ru_client s = Some c \<longrightarrow> c \<in> set (ru_listening s) \<and> c \<in> set (ru_open s)
        \<and> (\<not> ru_closed s \<longrightarrow> c \<in> set (ru_loops s)))
   \<and> (ru_recovering s \<longrightarrow> 0 < ru_timers s)
   \<and> (\<not> ru_closed s \<and> ru_client s = None
        \<longrightarrow> 0 < ru_timers s + ru_creating s + length (ru_grouping s) + ru_failed s)
   \<and> distinct (ru_grouping s) \<and> set (ru_grouping s) \<subseteq> set (ru_open s)
   \<and> set (ru_grouping s) \<inter> set (ru_listening s) = {}
   \<and> (\<forall>c \<in> set (ru_loops s) \<union> set (ru_listening s) \<union> set (ru_open s). c < ru_next s)"

lemma redis_recover_ok:
  assumes "redis_ok s \<or> redis_ok (s\<lparr>ru_failed := Suc (ru_failed s)\<rparr>)"
  shows "redis_ok (redis_recover s)"
  using assms by (auto simp: redis_recover_def redis_ok_def)

lemma in_remove1: "x \<in> set xs \<Longrightarrow> x \<noteq> y \<Longrightarrow> x \<in> set (remove1 y xs)"
  by (induction xs) auto

lemma in_remove1D: "x \<in> set (remove1 y xs) \<Longrightarrow> x \<in> set xs"
  by (rule subsetD [OF set_remove1_subset])

lemma redis_step_ok:
  assumes ok: "redis_ok s" and st: "redis_step e s = Some s'"
  shows "redis_ok s'"
proof (cases e)
  case (RdBatch c r)
  have "redis_ok (s\<lparr>ru_client := None, ru_handler := None, ru_loops := remove1 c (ru_loops s),
      ru_failed := Suc (ru_failed s)\<rparr>)"
    using ok by (auto simp: redis_ok_def dest: in_remove1D)
  then have "redis_ok (redis_recover (s\<lparr>ru_client := None, ru_handler := None, ru_loops := remove1 c (ru_loops s)\<rparr>))"
    by (intro redis_recover_ok) simp
  moreover have "ru_closed s \<or> ru_client s \<noteq> Some c \<Longrightarrow> redis_ok (s\<lparr>ru_loops := remove1 c (ru_loops s)\<rparr>)"
    using ok by (auto simp: redis_ok_def intro: in_remove1 dest: in_remove1D)
  ultimately show ?thesis
    using ok st RdBatch by (auto simp: redis_loop_step_def split: if_splits option.splits)
next
  case (RdLost c)
  have "redis_ok (s\<lparr>ru_client := None, ru_handler := None, ru_failed := Suc (ru_failed s)\<rparr>)"
    using ok by (auto simp: redis_ok_def)
  then have "redis_ok (redis_recover (s\<lparr>ru_client := None, ru_handler := None\<rparr>))"
    by (intro redis_recover_ok) simp
  moreover have "redis_ok (redis_recover s)" using ok by (intro redis_recover_ok) simp
  ultimately show ?thesis
    using ok st RdLost by (auto simp: redis_close_handler_def split: if_splits)
next
  case RdSettled
  then show ?thesis using ok st by (auto simp: redis_ok_def split: if_splits)
next
  case RdTimer
  then show ?thesis using ok st by (auto simp: redis_ok_def split: if_splits)
next
  case (RdCreated r)
  then show ?thesis using ok st
    by (auto simp: redis_ok_def Let_def less_Suc_eq split: if_splits option.splits)
next
  case (RdGrouped c r)
  with st have c: "c \<in> set (ru_grouping s)" by (simp split: if_splits)
  let ?s = "s\<lparr>ru_grouping := remove1 c (ru_grouping s)\<rparr>"
  have g: "set (remove1 c (ru_grouping s)) = set (ru_grouping s) - {c}" "distinct (remove1 c (ru_grouping s))"
    using ok by (simp_all add: redis_ok_def)
  have "redis_ok (?s\<lparr>ru_failed := Suc (ru_failed s)\<rparr>)"
    using ok g unfolding redis_ok_def by (intro conjI) (simp_all, blast+)
  moreover have "redis_ok (redis_opened c ?s)"
    using ok g c unfolding redis_ok_def redis_opened_def by (intro conjI) (simp_all, blast+)
  ultimately show ?thesis using RdGrouped st c by (auto simp: Let_def split: option.splits)
next
  case RdClose
  show ?thesis
  proof (cases "ru_client s")
    case None
    then show ?thesis using ok st RdClose by (auto simp: redis_ok_def redis_cleanup_def)
  next
    case (Some c)
    with ok have c: "c \<notin> set (ru_grouping s)" "ru_handler s = Some c" by (auto simp: redis_ok_def)
    from ok have o: "set (ru_grouping s) \<subseteq> set (ru_open s)" "set (ru_grouping s) \<inter> set (ru_listening s) = {}"
        "\<forall>d \<in> set (ru_loops s) \<union> set (ru_listening s) \<union> set (ru_open s). d < ru_next s"
      by (simp_all add: redis_ok_def)
    have "set (ru_grouping s) \<subseteq> set (remove1 c (ru_open s))"
      using o(1) c(1) by (blast intro: in_remove1)
    moreover have "set (ru_grouping s) \<inter> set (remove1 c (ru_listening s)) = {}"
      using o(2) by (blast dest: in_remove1D)
    moreover have "\<forall>d \<in> set (ru_loops s) \<union> set (remove1 c (ru_listening s)) \<union> set (remove1 c (ru_open s)). d < ru_next s"
      using o(3) by (blast dest: in_remove1D)
    ultimately show ?thesis using ok st RdClose Some c(2) by (auto simp: redis_ok_def redis_cleanup_def)
  qed
qed

interpretation redis: event_machine redis_step redis_subscribe redis_ok
proof
  show "redis_ok redis_subscribe" by (simp add: redis_ok_def redis_subscribe_def)
  show "redis_ok s \<Longrightarrow> redis_step e s = Some s' \<Longrightarrow> redis_ok s'" for s e s' by (rule redis_step_ok)
qed

text \<open>Once closed with no attempt under way, a subscription opens nothing any more.\<close>

definition redis_quiet :: "nat list \<Rightarrow> redis_sub \<Rightarrow> bool" where
  "redis_quiet opened s \<longleftrightarrow> ru_closed s \<and> ru_creating s = 0 \<and> ru_grouping s = [] \<and> set (ru_open s) \<subseteq> set opened"

lemma redis_quiet_step:
  assumes "redis_quiet opened s" and "redis_step e s = Some s'"
  shows "redis_quiet opened s'"
proof -
  have less: "x \<in> set opened" if "x \<in> set (remove1 c (ru_open s))" for c x
    using that assms(1) set_remove1_subset [of c "ru_open s"] by (auto simp: redis_quiet_def)
  from assms show ?thesis
    by (cases e)
      (auto simp: redis_quiet_def redis_loop_step_def redis_recover_def redis_close_handler_def redis_cleanup_def
        dest: less split: if_splits option.splits)
qed

section \<open>The RabbitMQ subscription\<close>

text \<open>Calls between the creation of the channel and the registration of the consumer.\<close>

definition setup_call :: "rabbit_call \<Rightarrow> bool" where
  "setup_call x \<longleftrightarrow>
     (case x of RmConnect _ \<Rightarrow> False | RmCreateChannel \<Rightarrow> False | RmConsume _ \<Rightarrow> False | _ \<Rightarrow> True)"

definition setup_tail :: "rabbit_call list \<Rightarrow> bool" where
  "setup_tail a \<longleftrightarrow> (\<exists>m x. a = m @ [RmConsume x] \<and> list_all setup_call m)"

lemma setup_tail_Nil [simp]: "\<not> setup_tail []"
  by (simp add: setup_tail_def)

lemma setup_tail_Cons: "setup_tail (x # xs) \<longleftrightarrow> (\<exists>q. x = RmConsume q) \<and> xs = [] \<or> setup_call x \<and> setup_tail xs"
proof -
  have "setup_call (RmConsume q) = False" for q by (simp add: setup_call_def)
  then show ?thesis by (auto simp: setup_tail_def Cons_eq_append_conv)
qed

definition attempt_ok :: "rabbit_sub \<Rightarrow> rabbit_call list \<Rightarrow> bool" where
  "attempt_ok s a \<longleftrightarrow>
     (case a of
        RmConnect _ # RmCreateChannel # r \<Rightarrow> setup_tail r
      | RmCreateChannel # r \<Rightarrow> setup_tail r \<and> (\<not> rm_closed s \<longrightarrow> rm_connection s \<noteq> None)
      | _ \<Rightarrow> setup_tail a
          \<and> (before_consume a \<and> \<not> rm_closed s \<longrightarrow> rm_connection s \<noteq> None \<and> rm_channel s \<noteq> None))"

lemma plan_ok: "attempt_ok s (rabbit_plan q)" "before_consume (rabbit_plan q)"
proof -
  have "list_all setup_call m \<Longrightarrow> setup_tail (m @ [RmConsume x])" for m x by (auto simp: setup_tail_def)
  note tail = this [of "_ @ _ # _", simplified] this [of "_ # _", simplified]
  show "attempt_ok s (rabbit_plan q)"
    by (simp add: attempt_ok_def rabbit_plan_def Let_def setup_tail_Cons setup_call_def split: option.splits)
  show "before_consume (rabbit_plan q)"
    by (simp add: before_consume_def rabbit_plan_def Let_def)
qed

text \<open>An attempt that only awaits its consumer does not depend on the state.\<close>

lemma attempt_ok_consume:
  assumes "attempt_ok s a" and "\<not> before_consume a"
  shows "attempt_ok s' a"
proof -
  have "length a \<le> 1" using assms(2) by (simp add: before_consume_def)
  then show ?thesis using assms
    by (cases a) (auto simp: attempt_ok_def setup_tail_Cons split: rabbit_call.splits)
qed

definition rabbit_tokens :: "rabbit_sub \<Rightarrow> nat" where
  "rabbit_tokens s =
     length (rm_listening s) + rm_timers s + length (filter before_consume (rm_attempts s)) + rm_failed s"

definition rabbit_ok :: "rabbit_sub \<Rightarrow> bool" where
  "rabbit_ok s \<longleftrightarrow>
     rabbit_tokens s \<le> 1
   \<and> (\<forall>a \<in> set (rm_attempts s). attempt_ok s a)
   \<and> (rm_recovering s \<longrightarrow> rm_timers s = 1 \<or> rm_closed s)
   \<and> (\<not> rm_closed s \<longrightarrow> rabbit_tokens s = 1
        \<and> (case rm_listening s of
             [] \<Rightarrow> rm_handler s = None
           | c # _ \<Rightarrow> rm_connection s = Some c \<and> rm_channel s \<noteq> None \<and> rm_handler s = Some (Some c)))"

lemma rabbit_start_ok: "rabbit_ok (rabbit_subscribe q)"
  by (simp add: rabbit_ok_def rabbit_subscribe_def rabbit_tokens_def plan_ok)


lemma rabbit_tokens_one:
  assumes "rabbit_ok s" and "a \<in> set (rm_attempts s)" and "before_consume a"
  shows "rm_listening s = []" and "rm_timers s = 0" and "rm_failed s = 0"
proof -
  have "0 < length (filter before_consume (rm_attempts s))"
    using assms(2,3) by (auto simp: filter_empty_conv)
  moreover have "rabbit_tokens s \<le> 1" using assms(1) by (simp add: rabbit_ok_def)
  ultimately have "length (rm_listening s) = 0 \<and> rm_timers s = 0 \<and> rm_failed s = 0"
    unfolding rabbit_tokens_def by linarith
  then show "rm_listening s = []" "rm_timers s = 0" "rm_failed s = 0" by simp_all
qed

lemma rabbit_recover_ok:
  assumes "\<not> rm_closed s" and "rm_timers s = 0" and "rm_failed s = 0" and "rm_listening s = []" and "\<not> rm_recovering s"
    and "\<forall>a \<in> set (rm_attempts s). attempt_ok s a \<and> \<not> before_consume a" and "rm_handler s = None"
  shows "rabbit_ok (rabbit_recover s)"
proof -
  have "filter before_consume (rm_attempts s) = []" using assms(6) by (simp add: filter_empty_conv)
  moreover have "attempt_ok (rabbit_recover s) a" if "a \<in> set (rm_attempts s)" for a
    using that assms(6) attempt_ok_consume by blast
  ultimately show ?thesis using assms by (simp add: rabbit_ok_def rabbit_tokens_def rabbit_recover_def)
qed

lemma rabbit_lost_ok:
  assumes ok: "rabbit_ok s" and c: "c \<in> set (rm_listening s)"
  shows "rabbit_ok (rabbit_close_handler c s)"
proof (cases "rm_closed s")
  case True
  with ok show ?thesis by (simp add: rabbit_close_handler_def)
next
  case False
  from ok have "length (rm_listening s) \<le> 1" by (simp add: rabbit_ok_def rabbit_tokens_def)
  with c have l: "rm_listening s = [c]" by (cases "rm_listening s") (auto simp: le_Suc_eq)
  with ok False have one: "rm_timers s = 0" "rm_failed s = 0" "filter before_consume (rm_attempts s) = []"
      "rm_handler s = Some (Some c)" "\<not> rm_recovering s"
    by (auto simp: rabbit_ok_def rabbit_tokens_def)
  let ?s = "s\<lparr>rm_connection := None, rm_channel := None, rm_handler := None, rm_listening := []\<rparr>"
  have "attempt_ok ?s a \<and> \<not> before_consume a" if "a \<in> set (rm_attempts s)" for a
    using that ok one(3) attempt_ok_consume by (auto simp: rabbit_ok_def filter_empty_conv)
  then have "rabbit_ok (rabbit_recover ?s)"
    using one False by (intro rabbit_recover_ok) auto
  with False l one show ?thesis by (simp add: rabbit_close_handler_def)
qed


text \<open>A state in which the only attempt before its consumer is the one being answered.\<close>

definition rabbit_idle :: "rabbit_sub \<Rightarrow> bool" where
  "rabbit_idle s \<longleftrightarrow>
     rm_listening s = [] \<and> rm_timers s = 0 \<and> rm_failed s = 0 \<and> (rm_recovering s \<longrightarrow> rm_closed s)
   \<and> (\<forall>a \<in> set (rm_attempts s). attempt_ok s a \<and> \<not> before_consume a)
   \<and> (\<not> rm_closed s \<longrightarrow> rm_handler s = None)"

lemma rabbit_idle_attempts:
  assumes "rabbit_idle s" and "a \<in> set (rm_attempts s)"
  shows "attempt_ok t a \<and> \<not> before_consume a"
  using assms attempt_ok_consume by (auto simp: rabbit_idle_def)

lemma rabbit_idle_filter: "rabbit_idle s \<Longrightarrow> filter before_consume (rm_attempts s) = []"
  by (auto simp: rabbit_idle_def filter_empty_conv)

lemma rabbit_idle_update:
  assumes "rabbit_idle s"
  shows "rabbit_idle (s\<lparr>rm_connection := c, rm_open := os, rm_next := n\<rparr>)"
    and "rabbit_idle (s\<lparr>rm_channel := ch, rm_next := n\<rparr>)"
  using assms rabbit_idle_attempts [OF assms] by (simp_all add: rabbit_idle_def)

lemma rabbit_fail_ok:
  assumes "rabbit_idle s"
  shows "rabbit_ok (rabbit_fail s)"
proof -
  have "\<forall>a \<in> set (rm_attempts s). attempt_ok (rabbit_fail s) a" using rabbit_idle_attempts [OF assms] by blast
  with rabbit_idle_filter [OF assms] assms show ?thesis
    by (simp add: rabbit_ok_def rabbit_tokens_def rabbit_fail_def rabbit_idle_def)
qed

lemma rabbit_push_ok:
  assumes "rabbit_idle s" and "before_consume a" and "attempt_ok s a"
  shows "rabbit_ok (s\<lparr>rm_attempts := rm_attempts s @ [a]\<rparr>)"
proof -
  have "attempt_ok (s\<lparr>rm_attempts := xs\<rparr>) b = attempt_ok s b" for xs b
    by (simp add: attempt_ok_def split: list.splits rabbit_call.splits)
  with assms rabbit_idle_filter [OF assms(1)] show ?thesis
    by (auto simp: rabbit_ok_def rabbit_tokens_def rabbit_idle_def)
qed

lemma rabbit_proceed_ok:
  assumes idle: "rabbit_idle s" and tail: "setup_tail rest"
    and alive: "\<not> rm_closed s \<longrightarrow> rm_connection s \<noteq> None \<and> rm_channel s \<noteq> None"
  shows "rabbit_ok (rabbit_proceed rest s)"
proof (cases rest)
  case Nil
  with tail show ?thesis by simp
next
  case (Cons x xs)
  show ?thesis
  proof (cases "\<exists>q. x = RmConsume q")
    case True
    with Cons tail have rest: "xs = []" "\<not> before_consume rest"
      by (auto simp: setup_tail_Cons setup_call_def before_consume_def)
    from True Cons tail have ok: "attempt_ok t rest" for t
      by (auto simp: attempt_ok_def before_consume_def rest setup_tail_Cons)
    have f: "filter before_consume (rm_attempts s @ [rest]) = []"
      using rabbit_idle_filter [OF idle] rest by simp
    show ?thesis
      using True Cons idle alive rabbit_idle_filter [OF idle] rest(2) ok rabbit_idle_attempts [OF idle]
      by (auto simp: rabbit_proceed_def rabbit_ok_def rabbit_tokens_def rabbit_idle_def rabbit_fail_def Let_def
          split: option.splits)
  next
    case False
    with Cons tail have x: "setup_call x" "setup_tail xs" by (auto simp: setup_tail_Cons)
    then have b: "before_consume rest" using Cons by (cases xs) (auto simp: before_consume_def)
    have p: "rabbit_proceed rest s = (if rm_channel s = None then rabbit_fail s else s\<lparr>rm_attempts := rm_attempts s @ [rest]\<rparr>)"
      using Cons False by (auto simp: rabbit_proceed_def split: rabbit_call.splits option.splits)
    have "attempt_ok s rest"
      using Cons x alive tail b by (auto simp: attempt_ok_def setup_call_def split: rabbit_call.splits)
    then show ?thesis using p b rabbit_fail_ok [OF idle] rabbit_push_ok [OF idle b] by simp
  qed
qed


lemma rabbit_answered_ok:
  assumes ok: "rabbit_ok s" and i: "i < length (rm_attempts s)" and a: "rm_attempts s ! i = call # rest"
    and s1: "s1 = s\<lparr>rm_attempts := take i (rm_attempts s) @ drop (Suc i) (rm_attempts s)\<rparr>"
  shows "rabbit_ok (case r of Some e \<Rightarrow> if before_consume (call # rest) then rabbit_fail s1 else s1
           | None \<Rightarrow> rabbit_answer call rest s1)"
proof -
  have split: "rm_attempts s = take i (rm_attempts s) @ (call # rest) # drop (Suc i) (rm_attempts s)"
    using id_take_nth_drop [OF i] a by simp
  have mem: "set (rm_attempts s) = insert (call # rest) (set (rm_attempts s1))"
    by (subst split) (auto simp: s1)
  have count: "length (filter before_consume (rm_attempts s))
      = length (filter before_consume (rm_attempts s1)) + (if before_consume (call # rest) then 1 else 0)"
    by (subst split) (simp add: s1)
  have cong: "attempt_ok s1 b = attempt_ok s b" for b
    by (simp add: s1 attempt_ok_def split: list.splits rabbit_call.splits)
  have same: "rm_listening s1 = rm_listening s" "rm_timers s1 = rm_timers s" "rm_failed s1 = rm_failed s"
      "rm_recovering s1 = rm_recovering s" "rm_closed s1 = rm_closed s" "rm_handler s1 = rm_handler s"
      "rm_connection s1 = rm_connection s" "rm_channel s1 = rm_channel s"
    by (simp_all add: s1)
  have here: "attempt_ok s (call # rest)" using ok mem by (simp add: rabbit_ok_def)
  show ?thesis
  proof (cases "before_consume (call # rest)")
    case False
    then have "\<exists>q. call = RmConsume q"
      using here by (auto simp: attempt_ok_def before_consume_def setup_tail_Cons split: rabbit_call.splits)
    then have "rabbit_answer call rest s1 = s1" by (auto simp: rabbit_answer_def)
    moreover have "rabbit_ok s1"
      using ok count False mem cong same by (simp add: rabbit_ok_def rabbit_tokens_def cong: list.case_cong)
    ultimately show ?thesis using False by (cases r) auto
  next
    case True
    note one = rabbit_tokens_one [OF ok _ True] mem
    have none: "filter before_consume (rm_attempts s1) = []"
      using ok count True by (simp add: rabbit_ok_def rabbit_tokens_def)
    have idle: "rabbit_idle s1"
      using ok one none cong same by (auto simp: rabbit_idle_def rabbit_ok_def filter_empty_conv)
    have "rabbit_ok (rabbit_answer call rest s1)"
    proof (cases "\<exists>u. call = RmConnect u")
      case connect: True
      let ?s = "s1\<lparr>rm_connection := Some (rm_next s1), rm_open := rm_open s1 @ [rm_next s1], rm_next := Suc (rm_next s1)\<rparr>"
      from connect here have rest: "\<exists>r. rest = RmCreateChannel # r \<and> setup_tail r"
        by (auto simp: attempt_ok_def setup_tail_Cons setup_call_def split: list.splits rabbit_call.splits)
      then have "before_consume rest" "attempt_ok ?s rest"
        by (auto simp: before_consume_def attempt_ok_def)
      from rabbit_push_ok [OF rabbit_idle_update(1) [OF idle] this] connect show ?thesis by (auto simp: rabbit_answer_def)
    next
      case no_connect: False
      show ?thesis
      proof (cases "call = RmCreateChannel")
        case True
        with here have "setup_tail rest" "\<not> rm_closed s \<longrightarrow> rm_connection s \<noteq> None" by (simp_all add: attempt_ok_def)
        with rabbit_proceed_ok [OF rabbit_idle_update(2) [OF idle]] True same show ?thesis
          by (simp add: rabbit_answer_def)
      next
        case False
        with no_connect here \<open>before_consume (call # rest)\<close>
        have "setup_call call" "setup_tail rest" "\<not> rm_closed s \<longrightarrow> rm_connection s \<noteq> None \<and> rm_channel s \<noteq> None"
          by (auto simp: attempt_ok_def setup_tail_Cons before_consume_def split: rabbit_call.splits)
        with rabbit_proceed_ok [OF idle] same show ?thesis
          by (auto simp: rabbit_answer_def setup_call_def split: rabbit_call.splits)
      qed
    qed
    then show ?thesis using True rabbit_fail_ok [OF idle] by (cases r) auto
  qed
qed

lemma rabbit_step_ok:
  assumes ok: "rabbit_ok s" and st: "rabbit_step q e s = Some s'"
  shows "rabbit_ok s'"
proof (cases e)
  case (RmAnswer i r)
  with st have i: "i < length (rm_attempts s)" by (simp split: if_splits)
  have "rm_attempts s ! i \<noteq> []" using ok nth_mem [OF i] by (auto simp: rabbit_ok_def attempt_ok_def)
  then obtain call rest where a: "rm_attempts s ! i = call # rest" by (cases "rm_attempts s ! i") auto
  from rabbit_answered_ok [OF ok i a refl, of r] show ?thesis
    using st RmAnswer i a by (simp add: Let_def)
next
  case (RmLost c)
  with st rabbit_lost_ok [OF ok, of c] show ?thesis by (auto split: if_splits)
next
  case RmSettled
  with st have s': "s' = s\<lparr>rm_recovering := False\<rparr>" by (simp split: if_splits)
  have "attempt_ok s' b = attempt_ok s b" for b
    by (simp add: s' attempt_ok_def split: list.splits rabbit_call.splits)
  with ok show ?thesis by (simp add: s' rabbit_ok_def rabbit_tokens_def cong: list.case_cong)
next
  case RmTimer
  with st have s': "s' = s\<lparr>rm_timers := rm_timers s - 1,
        rm_attempts := (if rm_closed s then rm_attempts s else rm_attempts s @ [rabbit_plan q])\<rparr>"
    and t: "rm_timers s \<noteq> 0" "\<not> rm_recovering s" by (simp_all split: if_splits)
  have same: "attempt_ok s' b = attempt_ok s b" for b
    by (simp add: s' attempt_ok_def split: list.splits rabbit_call.splits)
  have "rabbit_tokens s \<le> 1" using ok by (simp add: rabbit_ok_def)
  with t(1) have "rm_timers s = 1 \<and> length (rm_listening s) = 0 \<and> rm_failed s = 0
      \<and> length (filter before_consume (rm_attempts s)) = 0"
    unfolding rabbit_tokens_def by linarith
  then have "rm_timers s = 1" "rm_listening s = []" "rm_failed s = 0" "filter before_consume (rm_attempts s) = []"
    by (simp_all only: length_0_conv)
  moreover have "\<forall>b \<in> set (rm_attempts s). attempt_ok s' b" using ok same by (simp add: rabbit_ok_def)
  moreover have "rabbit_tokens s' \<le> 1" "\<not> rm_closed s \<longrightarrow> rabbit_tokens s' = 1"
    using calculation plan_ok(2) by (simp_all add: s' rabbit_tokens_def)
  ultimately show ?thesis using ok t(2) plan_ok(1) unfolding rabbit_ok_def by (auto simp: s')
next
  case (RmClose r)
  have "length (rm_listening (rabbit_cleanup r (s\<lparr>rm_closed := True\<rparr>))) \<le> length (rm_listening s)"
    by (auto simp: rabbit_cleanup_def length_remove1 split: option.splits)
  moreover have "attempt_ok (rabbit_cleanup r (s\<lparr>rm_closed := True\<rparr>)) b" if "attempt_ok s b" for b
    using that by (auto simp: rabbit_cleanup_def attempt_ok_def split: list.splits rabbit_call.splits)
  ultimately show ?thesis using ok st RmClose
    by (auto simp: rabbit_ok_def rabbit_tokens_def rabbit_cleanup_def)
qed

interpretation rabbit: event_machine "rabbit_step q" "rabbit_subscribe q" rabbit_ok for q
  by unfold_locales (auto intro: rabbit_start_ok rabbit_step_ok)


lemma rabbit_failed_mono: "rabbit_step q e s = Some s' \<Longrightarrow> rm_failed s \<le> rm_failed s'"
  by (cases e)
    (auto simp: Let_def rabbit_fail_def rabbit_answer_def rabbit_proceed_def rabbit_close_handler_def rabbit_recover_def
      rabbit_cleanup_def split: if_splits option.splits list.splits rabbit_call.splits)

section \<open>What happens to a message\<close>

lemmas call_defs = act_def and_then_def queue_callback_def

lemma trace_grows:
  "\<exists>new. fst (acknowledgeAndDelete world q i t) = t @ new"
  "\<exists>new. fst (redis_nack world q i payload b t) = t @ new"
  by (auto simp: acknowledgeAndDelete_def redis_nack_def call_defs split: option.splits)

text \<open>
  A trace in which an entry is acknowledged only after its payload has been handled, \<open>safe\<close> telling
  whether it has been before the trace.
\<close>

fun handled_first :: "(redis_action \<times> exn option \<Rightarrow> bool) \<Rightarrow> bool \<Rightarrow> redis_action trace \<Rightarrow> bool" where
  "handled_first handles safe [] \<longleftrightarrow> True"
| "handled_first handles safe (x # xs) \<longleftrightarrow>
     (case fst x of XAck _ _ _ \<Rightarrow> safe | _ \<Rightarrow> True) \<and> handled_first handles (safe \<or> handles x) xs"

lemma handled_first_before:
  "handled_first handles safe (pre @ (XAck s g i, r) # post) \<Longrightarrow> safe \<or> list_ex handles pre"
  by (induction pre arbitrary: safe) auto

text \<open>What handling a payload means: it was processed, or a copy of it was published.\<close>

definition handles :: "json \<Rightarrow> redis_action \<times> exn option \<Rightarrow> bool" where
  "handles payload x \<longleftrightarrow> snd x = None \<and> (fst x = RdProcess payload \<or> (\<exists>st. fst x = XAdd st payload))"

definition redis_drops :: "RedisQueueConfig \<Rightarrow> bool" where
  "redis_drops q \<longleftrightarrow> \<not> redis_requeues q \<and> \<not> js_truthy (rd_deadLetterStream q)"

lemma ack_and_delete_trace:
  obtains r where "acknowledgeAndDelete world q i t = (t @ [(XAck (rd_stream q) (rd_consumerGroup q) i, Some r)], Some r)"
  | r where "acknowledgeAndDelete world q i t =
      (t @ [(XAck (rd_stream q) (rd_consumerGroup q) i, None), (XDel (rd_stream q) i, r)], r)"
  by (cases "world t (XAck (rd_stream q) (rd_consumerGroup q) i)")
    (auto simp: acknowledgeAndDelete_def call_defs split: option.splits)

lemma handled_first_append:
  "handled_first h safe (xs @ ys) \<longleftrightarrow> handled_first h safe xs \<and> handled_first h (safe \<or> list_ex h xs) ys"
  by (induction xs arbitrary: safe) auto

text \<open>A call that keeps to the rule: its part of the trace, and what it has done when it does not throw.\<close>

definition keeps_rule :: "json \<Rightarrow> bool \<Rightarrow> redis_action \<Rightarrow> (redis_action trace) call \<Rightarrow> bool" where
  "keeps_rule payload safe final f \<longleftrightarrow>
     (\<forall>t. \<exists>new. fst (f t) = t @ new \<and> handled_first (handles payload) safe new
        \<and> (snd (f t) = None \<longrightarrow> (final, None) \<in> set new))"

lemma keeps_ruleD:
  assumes "keeps_rule payload safe final f" and "f t = (t', r)"
  shows "\<exists>new. t' = t @ new \<and> handled_first (handles payload) safe new \<and> (r = None \<longrightarrow> (final, None) \<in> set new)"
  using assms unfolding keeps_rule_def by (metis fst_conv snd_conv)

lemma keeps_ack:
  "keeps_rule payload True (XDel (rd_stream q) i) (acknowledgeAndDelete world q i)"
  unfolding keeps_rule_def
proof
  fix t
  show "\<exists>new. fst (acknowledgeAndDelete world q i t) = t @ new \<and> handled_first (handles payload) True new
      \<and> (snd (acknowledgeAndDelete world q i t) = None \<longrightarrow> (XDel (rd_stream q) i, None) \<in> set new)"
    by (rule ack_and_delete_trace [of world q i t]) auto
qed

lemma handled_first_mono: "handled_first h a xs \<Longrightarrow> (a \<Longrightarrow> b) \<Longrightarrow> handled_first h b xs"
proof (induction xs arbitrary: a b)
  case (Cons x xs)
  from Cons.IH [of "a \<or> h x" "b \<or> h x"] Cons.prems show ?case by (auto split: redis_action.splits)
qed simp

lemma keeps_weaken: "keeps_rule payload a final f \<Longrightarrow> (a \<Longrightarrow> b) \<Longrightarrow> keeps_rule payload b final f"
  unfolding keeps_rule_def by (meson handled_first_mono)

text \<open>Catching an exception with a second call.\<close>

definition or_else :: "'t call \<Rightarrow> 't call \<Rightarrow> 't call" where
  "or_else f g t = (case f t of (t1, Some e) \<Rightarrow> g t1 | (t1, None) \<Rightarrow> (t1, None))"

lemma keeps_or_else:
  assumes "keeps_rule payload safe final f" and "keeps_rule payload safe final g"
  shows "keeps_rule payload safe final (or_else f g)"
  unfolding keeps_rule_def
proof
  fix t
  obtain new where f: "fst (f t) = t @ new" "handled_first (handles payload) safe new"
    "snd (f t) = None \<longrightarrow> (final, None) \<in> set new"
    using assms(1) unfolding keeps_rule_def by blast
  obtain new' where g: "fst (g (t @ new)) = (t @ new) @ new'" "handled_first (handles payload) safe new'"
    "snd (g (t @ new)) = None \<longrightarrow> (final, None) \<in> set new'"
    using assms(2) unfolding keeps_rule_def by blast
  show "\<exists>new. fst (or_else f g t) = t @ new \<and> handled_first (handles payload) safe new
      \<and> (snd (or_else f g t) = None \<longrightarrow> (final, None) \<in> set new)"
  proof (cases "snd (f t)")
    case None
    with f show ?thesis by (auto simp: or_else_def split: prod.splits)
  next
    case (Some e)
    have "handled_first (handles payload) (safe \<or> list_ex (handles payload) new) new'"
      using g(2) by (rule handled_first_mono) simp
    with Some f g show ?thesis
      by (intro exI [of _ "new @ new'"]) (auto simp: or_else_def handled_first_append split: prod.splits)
  qed
qed

lemma keeps_publish:
  assumes "keeps_rule payload True final f"
  shows "keeps_rule payload False final (and_then (act world (XAdd st payload)) f)"
  unfolding keeps_rule_def
proof
  fix t
  show "\<exists>new. fst (and_then (act world (XAdd st payload)) f t) = t @ new \<and> handled_first (handles payload) False new
      \<and> (snd (and_then (act world (XAdd st payload)) f t) = None \<longrightarrow> (final, None) \<in> set new)"
  proof (cases "world t (XAdd st payload)")
    case None
    obtain new where "fst (f (t @ [(XAdd st payload, None)])) = (t @ [(XAdd st payload, None)]) @ new"
      "handled_first (handles payload) True new"
      "snd (f (t @ [(XAdd st payload, None)])) = None \<longrightarrow> (final, None) \<in> set new"
      using assms unfolding keeps_rule_def by blast
    with None show ?thesis
      by (intro exI [of _ "(XAdd st payload, None) # new"]) (auto simp: call_defs handles_def)
  qed (auto simp: call_defs)
qed

lemma keeps_nack:
  "keeps_rule payload (redis_drops q) (XDel (rd_stream q) i) (redis_nack world q i payload (redis_requeues q))"
proof (cases "redis_drops q")
  case True
  then have "redis_nack world q i payload (redis_requeues q) = acknowledgeAndDelete world q i"
    by (simp add: redis_nack_def redis_drops_def)
  with True keeps_ack show ?thesis by simp
next
  case False
  then have "redis_nack world q i payload (redis_requeues q)
      = and_then (act world (XAdd (if redis_requeues q then rd_stream q else the (rd_deadLetterStream q)) payload))
          (acknowledgeAndDelete world q i)"
    by (auto simp: redis_nack_def redis_drops_def)
  then show ?thesis using keeps_weaken [OF keeps_publish [OF keeps_ack]] False by simp
qed

lemma redis_entry_calls:
  assumes "parsePayload (se_values e) = Inr payload"
  shows "redis_entry world q e t =
    (case world t (RdProcess payload) of
       None \<Rightarrow> or_else (or_else (acknowledgeAndDelete world q (se_id e)) (redis_nack world q (se_id e) payload (redis_requeues q)))
                 (redis_nack world q (se_id e) payload (redis_requeues q)) (t @ [(RdProcess payload, None)])
     | Some x \<Rightarrow> or_else (redis_nack world q (se_id e) payload (redis_requeues q))
                 (redis_nack world q (se_id e) payload (redis_requeues q)) (t @ [(RdProcess payload, Some x)]))"
  using assms by (auto simp: redis_entry_def queue_callback_def or_else_def act_def split: option.splits prod.splits)

section \<open>Properties\<close>

text \<open>
  C33. A Redis entry is never lost while it is handled, whatever the broker, the processor and the order of
  their failures: before every attempt to acknowledge the entry its event has been processed, or a copy has
  been published to the stream or to the dead letter stream, unless the configuration asks for neither;
  and when handling the entry throws nothing, the entry has been removed from the stream. With a broker that
  does not fail the actions are exactly these: processing, a copy in case of failure, acknowledgement, removal.
\<close>

theorem redis_entry_not_lost:
  assumes "parsePayload (se_values e) = Inr payload" and "redis_entry world q e t = (t', r)"
  shows "\<exists>new. t' = t @ new
    \<and> (\<forall>pre s g i x post. new = pre @ (XAck s g i, x) # post \<longrightarrow>
         (RdProcess payload, None) \<in> set pre \<or> (\<exists>st. (XAdd st payload, None) \<in> set pre)
       \<or> \<not> redis_requeues q \<and> \<not> js_truthy (rd_deadLetterStream q))
    \<and> (r = None \<longrightarrow> (XDel (rd_stream q) (se_id e), None) \<in> set new)
    \<and> ((\<forall>u a. (\<forall>p. a \<noteq> RdProcess p) \<longrightarrow> world u a = None) \<longrightarrow>
         new = (RdProcess payload, world t (RdProcess payload))
             # (if world t (RdProcess payload) = None then []
                else if redis_requeues q then [(XAdd (rd_stream q) payload, None)]
                else if js_truthy (rd_deadLetterStream q) then [(XAdd (the (rd_deadLetterStream q)) payload, None)]
                else [])
             @ [(XAck (rd_stream q) (rd_consumerGroup q) (se_id e), None), (XDel (rd_stream q) (se_id e), None)])"
proof -
  let ?x = "world t (RdProcess payload)" and ?i = "se_id e" and ?del = "XDel (rd_stream q) (se_id e)"
  let ?nack = "redis_nack world q ?i payload (redis_requeues q)" and ?ack = "acknowledgeAndDelete world q ?i"
  have nack: "keeps_rule payload (redis_drops q) ?del ?nack" by (rule keeps_nack)
  then have nackT: "keeps_rule payload True ?del ?nack" by (rule keeps_weaken) simp
  have ok: "keeps_rule payload True ?del (or_else (or_else ?ack ?nack) ?nack)"
    by (intro keeps_or_else keeps_ack nackT)
  have bad: "keeps_rule payload (redis_drops q) ?del (or_else ?nack ?nack)" by (intro keeps_or_else nack)
  let ?t = "t @ [(RdProcess payload, ?x)]"
  have "\<exists>new. t' = ?t @ new
      \<and> handled_first (handles payload) (redis_drops q \<or> ?x = None) new \<and> (r = None \<longrightarrow> (?del, None) \<in> set new)"
  proof (cases ?x)
    case None
    with redis_entry_calls [OF assms(1), of world q t] assms(2)
    have "or_else (or_else ?ack ?nack) ?nack ?t = (t', r)" by simp
    from keeps_ruleD [OF ok this] None show ?thesis by simp
  next
    case (Some y)
    with redis_entry_calls [OF assms(1), of world q t] assms(2) have "or_else ?nack ?nack ?t = (t', r)" by simp
    from keeps_ruleD [OF bad this] Some show ?thesis by simp
  qed
  then obtain new where new: "t' = (t @ [(RdProcess payload, ?x)]) @ new"
    "handled_first (handles payload) (redis_drops q \<or> ?x = None) new" "r = None \<longrightarrow> (?del, None) \<in> set new" by blast
  let ?new = "(RdProcess payload, ?x) # new"
  have "handled_first (handles payload) (redis_drops q) ?new"
    using new(2) by (auto simp: handles_def)
  then have "redis_drops q \<or> list_ex (handles payload) pre" if "?new = pre @ (XAck s g i, x) # post" for pre s g i x post
    using that handled_first_before by metis
  then have "\<forall>pre s g i x post. ?new = pre @ (XAck s g i, x) # post \<longrightarrow>
      (RdProcess payload, None) \<in> set pre \<or> (\<exists>st. (XAdd st payload, None) \<in> set pre)
    \<or> \<not> redis_requeues q \<and> \<not> js_truthy (rd_deadLetterStream q)"
    by (fastforce simp: redis_drops_def list_ex_iff handles_def)
  moreover have "?new = (RdProcess payload, ?x)
      # (if ?x = None then [] else if redis_requeues q then [(XAdd (rd_stream q) payload, None)]
         else if js_truthy (rd_deadLetterStream q) then [(XAdd (the (rd_deadLetterStream q)) payload, None)] else [])
      @ [(XAck (rd_stream q) (rd_consumerGroup q) ?i, None), (?del, None)]"
    if "\<forall>u a. (\<forall>p. a \<noteq> RdProcess p) \<longrightarrow> world u a = None"
    using that new(1) assms(2) redis_entry_calls [OF assms(1), of world q t]
    by (cases ?x) (auto simp: or_else_def redis_nack_def acknowledgeAndDelete_def call_defs split: if_splits)
  ultimately show ?thesis using new by (intro exI [of _ ?new]) auto
qed


definition demo_redis :: RedisQueueConfig where
  "demo_redis = \<lparr>rd_url = ''u'', rd_stream = ''s'', rd_consumerGroup = ''g'', rd_consumerName = None, rd_batchSize = None,
       rd_blockMs = None, rd_requeueOnFailure = Some True, rd_deadLetterStream = None\<rparr>"

theorem redis_entry_not_lost_witness:
  "\<exists>t'. redis_entry (\<lambda>u a. if a = XDel ''s'' ''1-0'' then Some (Error ''gone'') else None)
      demo_redis
      \<lparr>se_id = ''1-0'', se_values = [(''k'', ''v'')]\<rparr> [] = (t', Some (Error ''gone''))
     \<and> (\<forall>pre s g i x post. t' = pre @ (XAck s g i, x) # post \<longrightarrow>
          (RdProcess (JObj [(''k'', JStr ''v'')]), None) \<in> set pre \<or> (\<exists>st. (XAdd st (JObj [(''k'', JStr ''v'')]), None) \<in> set pre))"
proof -
  let ?w = "\<lambda>u a. if a = XDel ''s'' ''1-0'' then Some (Error ''gone'') else None"
  let ?q = demo_redis
  let ?e = "\<lparr>se_id = ''1-0'', se_values = [(''k'', ''v'')]\<rparr>"
  have p: "parsePayload (se_values ?e) = Inr (JObj [(''k'', JStr ''v'')])" by (simp add: parsePayload_def)
  have q: "redis_requeues ?q" by (simp add: redis_requeues_def demo_redis_def)
  have go: "redis_entry ?w ?q ?e [] = (fst (redis_entry ?w ?q ?e []), Some (Error ''gone''))"
    using redis_entry_calls [OF p, of ?w ?q "[]"]
    by (simp add: or_else_def redis_nack_def acknowledgeAndDelete_def call_defs q) (simp add: demo_redis_def)?
  from redis_entry_not_lost [OF p go] q go show ?thesis by auto
qed

text \<open>
  An entry that cannot be parsed stops the consumption of its batch: neither it nor any entry after it is
  processed, copied, acknowledged or removed. The subscription then drops its client without closing it and
  schedules a reconnection, after which only new entries are read.
\<close>

theorem redis_malformed_entry:
  assumes "parsePayload (se_values e) = Inl err" and "redis_batch world q es t = (t1, None)"
    and "\<not> ru_closed s" and "\<not> ru_recovering s" and "ru_client s = Some c"
  shows "redis_batch world q (es @ e # rest) t = (t1, Some err)
    \<and> ru_client (redis_loop_step c (Some err) s) = None
    \<and> ru_open (redis_loop_step c (Some err) s) = ru_open s
    \<and> ru_timers (redis_loop_step c (Some err) s) = Suc (ru_timers s)"
proof -
  have "redis_batch world q (es @ e # rest) t = (t1, Some err)"
    using assms(2)
  proof (induction es arbitrary: t)
    case Nil
    with assms(1) show ?case by (simp add: and_then_def redis_entry_def)
  next
    case (Cons x es)
    then show ?case by (auto simp: and_then_def split: prod.splits option.splits)
  qed
  with assms(3-5) show ?thesis by (simp add: redis_loop_step_def redis_recover_def)
qed

theorem redis_malformed_entry_witness:
  "ru_client (redis_loop_step 0 (Some (Error ''SyntaxError''))
     (redis_subscribe\<lparr>ru_client := Some 0, ru_handler := Some 0\<rparr>)) = None"
proof -
  have p: "parsePayload (se_values \<lparr>se_id = ''1-0'', se_values = [(''payload'', ''{'')]\<rparr>) = Inl (Error ''SyntaxError'')"
    by code_simp
  have b: "redis_batch (\<lambda>u a. None) demo_redis [] [] = ([], None)" by simp
  from redis_malformed_entry [OF p b, of "redis_subscribe\<lparr>ru_client := Some 0, ru_handler := Some 0\<rparr>" 0] show ?thesis
    by (simp add: redis_subscribe_def)
qed

text \<open>
  The entries read from a stream are exactly the ones the server sent: the answer of a group read, a list of
  streams with their messages and these with a flat list of fields and values, is decoded to the messages in
  order, with every field.
\<close>

lemma stream_fields_flat:
  "distinct (map fst acc @ map fst kvs) \<Longrightarrow>
   stream_fields (concat (map (\<lambda>(k, v). [JStr k, JStr v]) kvs)) acc = acc @ kvs"
proof (induction kvs arbitrary: acc)
  case (Cons x kvs)
  obtain k v where x: "x = (k, v)" by (cases x)
  have "jm_get acc k = None" using Cons.prems x by (auto simp: map_of_eq_None_iff)
  with Cons.IH [of "acc @ [(k, v)]"] Cons.prems x show ?case by (simp add: jm_set_fresh)
qed simp

definition stream_reply :: "(string \<times> RedisStreamEntry list) list \<Rightarrow> json" where
  "stream_reply streams = JArr (map (\<lambda>(name, es). JArr [JStr name, JArr (map (\<lambda>e. JArr [JStr (se_id e),
     JArr (concat (map (\<lambda>(k, v). [JStr k, JStr v]) (se_values e)))]) es)]) streams)"

theorem readgroup_roundtrip:
  assumes "\<forall>(name, es) \<in> set streams. \<forall>e \<in> set es. jm_ok (se_values e)"
  shows "parseReadGroupResponse (stream_reply streams) = concat (map snd streams)"
proof -
  have entry: "stream_message (JArr [JStr (se_id e), JArr (concat (map (\<lambda>(k, v). [JStr k, JStr v]) (se_values e)))]) = [e]"
    if "jm_ok (se_values e)" for e
    using that stream_fields_flat [of "[]" "se_values e"] by (simp add: stream_message_def jm_ok_def)
  have "concat (map (\<lambda>e. stream_message (JArr [JStr (se_id e),
      JArr (concat (map (\<lambda>(k, v). [JStr k, JStr v]) (se_values e)))])) es) = es" if "\<forall>e \<in> set es. jm_ok (se_values e)" for es
    using that by (induction es) (simp_all add: entry)
  then show ?thesis using assms
    by (induction streams) (auto simp: parseReadGroupResponse_def stream_reply_def stream_entries_def comp_def)
qed

theorem readgroup_roundtrip_witness:
  "parseReadGroupResponse (stream_reply [(''s'', [\<lparr>se_id = ''1-0'', se_values = [(''a'', ''1''), (''b'', ''2'')]\<rparr>])])
   = [\<lparr>se_id = ''1-0'', se_values = [(''a'', ''1''), (''b'', ''2'')]\<rparr>]"
  using readgroup_roundtrip [of "[(''s'', [\<lparr>se_id = ''1-0'', se_values = [(''a'', ''1''), (''b'', ''2'')]\<rparr>])]"]
  by (simp add: jm_ok_def)

text \<open>
  C35. A Redis subscription recovers. In every state its events can lead to, an open subscription is consuming,
  that is, it has a client that is connected, watched for closing and read by a loop, or a reconnection is
  scheduled or under way, or a reconnection has failed. A closed subscription without an attempt under way
  never opens a connection again, and every loop of a closed subscription ends at its next step.
\<close>

theorem redis_subscription_recovers:
  assumes "run_events redis_step es redis_subscribe = Some s"
  shows "if ru_closed s
    then (ru_creating s = 0 \<and> ru_grouping s = [] \<longrightarrow>
            (\<forall>es' s'. run_events redis_step es' s = Some s' \<longrightarrow> ru_closed s' \<and> set (ru_open s') \<subseteq> set (ru_open s)))
       \<and> (\<forall>c r s'. redis_step (RdBatch c r) s = Some s' \<longrightarrow> length (ru_loops s') < length (ru_loops s))
    else (\<exists>c. ru_client s = Some c \<and> c \<in> set (ru_open s) \<and> c \<in> set (ru_listening s) \<and> c \<in> set (ru_loops s))
       \<or> 0 < ru_timers s + ru_creating s + length (ru_grouping s) \<or> 0 < ru_failed s"
proof -
  have ok: "redis_ok s" using assms by (rule redis.run_inv)
  have quiet: "redis_quiet (ru_open s) s'"
    if "redis_quiet (ru_open s) s" "run_events redis_step es' s = Some s'" for es' s'
    using redis.run_from [of "redis_quiet (ru_open s)" s es' s'] redis_quiet_step ok that by blast
  have loops: "length (remove1 c (ru_loops s)) < length (ru_loops s)" if "c \<in> set (ru_loops s)" for c
    using that length_pos_if_in_set [OF that] by (simp add: length_remove1)
  show ?thesis
  proof (cases "ru_closed s")
    case True
    have "length (ru_loops s') < length (ru_loops s)" if "redis_step (RdBatch c r) s = Some s'" for c r s'
      using that True loops by (auto simp: redis_loop_step_def split: if_splits)
    moreover have "ru_closed s' \<and> set (ru_open s') \<subseteq> set (ru_open s)"
      if "ru_creating s = 0" "ru_grouping s = []" "run_events redis_step es' s = Some s'" for es' s'
      using quiet [of es' s'] that True by (simp add: redis_quiet_def)
    ultimately show ?thesis using True by auto
  next
    case False
    then show ?thesis using ok unfolding redis_ok_def by (cases "ru_client s") auto
  qed
qed

theorem redis_subscription_recovers_witness:
  "\<exists>s. run_events redis_step [RdCreated None, RdGrouped 0 None, RdLost 0, RdSettled] redis_subscribe = Some s
     \<and> (0 < ru_timers s + ru_creating s + length (ru_grouping s) \<or> 0 < ru_failed s)"
proof -
  let ?s = "\<lparr>ru_closed = False, ru_recovering = False, ru_client = None, ru_handler = None, ru_loops = [0],
    ru_listening = [0], ru_open = [0], ru_timers = 1, ru_creating = 0, ru_grouping = [], ru_next = 1, ru_failed = 0\<rparr>"
  have run: "run_events redis_step [RdCreated None, RdGrouped 0 None, RdLost 0, RdSettled] redis_subscribe = Some ?s"
    by (simp add: redis_subscribe_def redis_opened_def redis_close_handler_def redis_recover_def Let_def)
  from redis_subscription_recovers [OF run] have "0 < ru_timers ?s + ru_creating ?s + length (ru_grouping ?s) \<or> 0 < ru_failed ?s"
    by simp
  with run show ?thesis by blast
qed

text \<open>
  Connections to Redis can be left behind. When the subscription is closed while a reconnection is under
  way, the new client is connected, watched and kept although the subscription is closed, and no loop reads
  from it; and when a read fails before the connection is reported as closed, the subscription connects twice
  and forgets two connected clients.
\<close>

theorem redis_connections_leak:
  "(\<exists>es s. run_events redis_step es redis_subscribe = Some s \<and> ru_closed s \<and> ru_timers s = 0 \<and> ru_creating s = 0
      \<and> ru_grouping s = [] \<and> ru_loops s = [] \<and> ru_client s = Some 1 \<and> 1 \<in> set (ru_open s) \<and> 1 \<in> set (ru_listening s))
 \<and> (\<exists>es s. run_events redis_step es redis_subscribe = Some s \<and> \<not> ru_closed s \<and> ru_failed s = 0
      \<and> ru_client s = Some 2 \<and> ru_open s = [0, 1, 2])"
proof (rule conjI)
  let ?es = "[RdCreated None, RdGrouped 0 None, RdBatch 0 (Some (Error ''read'')), RdSettled, RdTimer, RdClose,
    RdCreated None, RdGrouped 1 None]"
  have "case run_events redis_step ?es redis_subscribe of None \<Rightarrow> False | Some s \<Rightarrow>
      ru_closed s \<and> ru_timers s = 0 \<and> ru_creating s = 0
      \<and> ru_grouping s = [] \<and> ru_loops s = [] \<and> ru_client s = Some 1 \<and> 1 \<in> set (ru_open s) \<and> 1 \<in> set (ru_listening s)"
    by code_simp
  then show "\<exists>es s. run_events redis_step es redis_subscribe = Some s \<and> ru_closed s \<and> ru_timers s = 0 \<and> ru_creating s = 0
      \<and> ru_grouping s = [] \<and> ru_loops s = [] \<and> ru_client s = Some 1 \<and> 1 \<in> set (ru_open s) \<and> 1 \<in> set (ru_listening s)"
    by (rule run_exists)
next
  let ?es = "[RdCreated None, RdGrouped 0 None, RdBatch 0 (Some (Error ''read'')), RdSettled, RdLost 0, RdSettled,
    RdTimer, RdTimer, RdCreated None, RdCreated None, RdGrouped 1 None, RdGrouped 2 None]"
  have "case run_events redis_step ?es redis_subscribe of None \<Rightarrow> False | Some s \<Rightarrow>
      \<not> ru_closed s \<and> ru_failed s = 0 \<and> ru_client s = Some 2 \<and> ru_open s = [0, 1, 2]"
    by code_simp
  then show "\<exists>es s. run_events redis_step es redis_subscribe = Some s \<and> \<not> ru_closed s \<and> ru_failed s = 0
      \<and> ru_client s = Some 2 \<and> ru_open s = [0, 1, 2]"
    by (rule run_exists)
qed

text \<open>
  A RabbitMQ subscription is always in exactly one of four situations while it is open: one watched
  connection with its channel, one scheduled reconnection, one attempt to connect, or one failed attempt. So
  there are never two consumers of one subscription, and a lost connection is always followed by an attempt;
  but after an attempt has failed there will never be another one, however long the process runs.
\<close>

theorem rabbit_single_recovery:
  assumes "run_events (rabbit_step q) es (rabbit_subscribe q) = Some s"
  shows "(rm_closed s \<or>
      length (rm_listening s) + rm_timers s + length (filter before_consume (rm_attempts s)) + rm_failed s = 1
    \<and> (\<forall>c \<in> set (rm_listening s). rm_connection s = Some c \<and> rm_channel s \<noteq> None \<and> rm_handler s = Some (Some c)))
   \<and> (rm_failed s = 0 \<or>
      (\<forall>es' s'. run_events (rabbit_step q) es' s = Some s' \<longrightarrow>
         rm_listening s' = [] \<and> rm_timers s' = 0 \<and> filter before_consume (rm_attempts s') = []))"
proof -
  have ok: "rabbit_ok s" using assms by (rule rabbit.run_inv)
  have "rm_connection s = Some c \<and> rm_channel s \<noteq> None \<and> rm_handler s = Some (Some c)"
    if "\<not> rm_closed s" "c \<in> set (rm_listening s)" for c
  proof -
    from ok have "length (rm_listening s) \<le> 1" by (simp add: rabbit_ok_def rabbit_tokens_def)
    with that(2) have "rm_listening s = [c]" by (cases "rm_listening s") (auto simp: le_Suc_eq)
    with ok that(1) show ?thesis by (simp add: rabbit_ok_def)
  qed
  moreover have "rm_listening s' = [] \<and> rm_timers s' = 0 \<and> filter before_consume (rm_attempts s') = []"
    if failed: "rm_failed s \<noteq> 0" and run: "run_events (rabbit_step q) es' s = Some s'" for es' s'
  proof -
    have "rabbit_ok s' \<and> 0 < rm_failed s'"
    proof (rule rabbit.run_from [OF _ ok _ run])
      show "0 < rm_failed s2" if "0 < rm_failed s1" "rabbit_step q e s1 = Some s2" for s1 e s2
        using that rabbit_failed_mono [of q e s1 s2] by simp
    qed (use failed in simp)
    then have "length (rm_listening s') = 0 \<and> rm_timers s' = 0 \<and> length (filter before_consume (rm_attempts s')) = 0"
      unfolding rabbit_ok_def rabbit_tokens_def by linarith
    then show ?thesis by simp
  qed
  ultimately show ?thesis using ok by (auto simp: rabbit_ok_def rabbit_tokens_def)
qed

definition demo_rabbit :: RabbitMqQueueConfig where
  "demo_rabbit = \<lparr>rb_url = ''amqp://h'', rb_queue = ''jobs'', rb_exchange = None, rb_exchangeType = None, rb_routingKey = None,
     rb_prefetch = None, rb_durable = None, rb_requeueOnFailure = None, rb_deadLetterExchange = None,
     rb_deadLetterRoutingKey = None\<rparr>"

theorem rabbit_single_recovery_witness:
  "\<exists>s. run_events (rabbit_step demo_rabbit) [RmAnswer 0 None, RmAnswer 0 None, RmAnswer 0 None, RmAnswer 0 None,
        RmLost 0, RmSettled, RmTimer, RmAnswer 0 (Some (Error ''refused''))] (rabbit_subscribe demo_rabbit) = Some s
     \<and> \<not> rm_closed s
     \<and> (\<forall>es' s'. run_events (rabbit_step demo_rabbit) es' s = Some s' \<longrightarrow> rm_listening s' = [] \<and> rm_timers s' = 0)"
proof -
  let ?go = "run_events (rabbit_step demo_rabbit) [RmAnswer 0 None, RmAnswer 0 None, RmAnswer 0 None, RmAnswer 0 None,
        RmLost 0, RmSettled, RmTimer, RmAnswer 0 (Some (Error ''refused''))] (rabbit_subscribe demo_rabbit)"
  have "case ?go of None \<Rightarrow> False | Some s \<Rightarrow> \<not> rm_closed s \<and> rm_failed s = 1" by code_simp
  then obtain s where s: "?go = Some s" "\<not> rm_closed s" "rm_failed s = 1" by (auto split: option.splits)
  from rabbit_single_recovery [OF s(1)] s(3)
  have "\<forall>es' s'. run_events (rabbit_step demo_rabbit) es' s = Some s' \<longrightarrow> rm_listening s' = [] \<and> rm_timers s' = 0" by auto
  with s show ?thesis by blast
qed

text \<open>
  Every RabbitMQ message is settled exactly once when the channel calls succeed: a message that is not
  JSON is rejected without requeueing and never processed; any other is processed once and then acknowledged,
  or rejected in case of failure, with requeueing exactly as configured.
\<close>

theorem rabbit_settles_once:
  assumes "\<forall>u a. (\<forall>p. a \<noteq> RmProcess p) \<longrightarrow> world u a = None"
  shows "rabbit_consumer world q (Some text) t =
    (case json_parse text of
       None \<Rightarrow> (t @ [(ChNack False, None)], None)
     | Some p \<Rightarrow>
         (t @ [(RmProcess p, world t (RmProcess p)),
               (if world t (RmProcess p) = None then ChAck else ChNack (rb_requeueOnFailure q = Some True), None)], None))"
  using assms by (auto simp: rabbit_consumer_def call_defs rabbit_requeues_def split: option.splits)

theorem rabbit_settles_once_witness:
  "rabbit_consumer (\<lambda>u a. case a of RmProcess p \<Rightarrow> Some (Error ''down'') | _ \<Rightarrow> None) demo_rabbit (Some ''null'') []
   = ([(RmProcess JNull, Some (Error ''down'')), (ChNack False, None)], None)"
proof -
  have j: "json_parse ''null'' = Some JNull" by code_simp
  have "\<forall>u a. (\<forall>p. a \<noteq> RmProcess p) \<longrightarrow> (case a of RmProcess p \<Rightarrow> Some (Error ''down'') | _ \<Rightarrow> None) = None"
    by (auto split: rabbit_action.splits)
  from rabbit_settles_once [where world = "\<lambda>u a. case a of RmProcess p \<Rightarrow> Some (Error ''down'') | _ \<Rightarrow> None", OF this,
      of demo_rabbit "''null''" "[]"]
  show ?thesis by (simp add: j demo_rabbit_def)
qed

text \<open>The driver the broker picks accepts the connector it is given.\<close>

lemma broker_dispatch:
  "BrokerQueueDriver_subscribe (\<lambda>c. map_sum id Inl (getRabbitMqConfig c)) (\<lambda>c. map_sum id Inr (getRedisConfig c)) c =
   (if cn_type c \<noteq> TypeQueue then Inl (Error ''BrokerQueueDriver only supports queue connectors'')
    else (case cn_config c of
            CfgRabbit q \<Rightarrow> Inr (Inl q) | CfgRedis q \<Rightarrow> Inr (Inr q)
          | _ \<Rightarrow> Inl (Error ''BrokerQueueDriver only supports queue connectors'')))"
  by (auto simp: BrokerQueueDriver_subscribe_def is_queue_config_def getRabbitMqConfig_def getRedisConfig_def
      split: ConnectorConfig.splits)

end
