(* ===== verification/Gateway_Assembly.thy ===== *)
theory Gateway_Assembly
  imports Gateway_Routes Connectors
begin

text \<open>
  The gateway as a whole: the route table of \<^verbatim>\<open>apps/gateway/src/assembly/routes.ts\<close> over the handlers of the
  other theories, with the hooks of the authentication plugin (\<^verbatim>\<open>plugins/auth.ts\<close>) around them: key check, role
  check of the route, rate limit, handler, audit entry. The remaining key route, the audit log of a key
  (\<^verbatim>\<open>routes/keys.ts\<close>), is here too, since it needs the audit repository.

  A request is matched against the registered method and path patterns; a request that matches none is
  answered by the framework and is not a request of the model, nor are the \<^verbatim>\<open>HEAD\<close> routes the framework adds.
  The rate limiter is a third-party plugin: whether it refuses a request is an argument.
\<close>

section \<open>The state and its environment\<close>

record ('s, 'j) gateway =
  gw_keys :: 's
  gw_audit :: "AuditLog list"
  gw_service :: service
  gw_jobs :: 'j
  gw_connectors :: conn_db
  gw_runtime :: conn_runtime
  gw_files :: file_system
  gw_approvals :: approval_queue

text \<open>
  What a request draws and what third-party code answers: the clock and identifiers, the hash functions, the
  schemas and query readings, the cron parser, the decision of the rate limiter, the health checks.
\<close>

record ('s, 'j) gateway_env =
  ge_keyRepo :: "'s ApiKeyRepository"
  ge_sha :: "string \<Rightarrow> string"
  ge_bcompare :: "string \<Rightarrow> string \<Rightarrow> bool"
  ge_bhash :: "string \<Rightarrow> string \<Rightarrow> string"
  ge_rnd :: "8 word list"
  ge_salt :: string
  ge_now :: timestamp
  ge_uuid :: ident
  ge_elapsed :: nat
  ge_number :: "string \<Rightarrow> int option"
  ge_limited :: "request \<Rightarrow> nat option"
  ge_draws :: draws
  ge_environment :: environment
  ge_schemas :: route_schemas
  ge_jobRepo :: "'j sched_repos"
  ge_cron :: cron_parser
  ge_validCron :: "string \<Rightarrow> bool"
  ge_validTz :: "string \<Rightarrow> bool"
  ge_createJob :: "json option \<Rightarrow> issue list + CreateScheduledJob"
  ge_updateJob :: "json option \<Rightarrow> issue list + UpdateScheduledJob"
  ge_jobPage :: "request \<Rightarrow> nat option \<times> nat option"
  ge_createKey :: "json option \<Rightarrow> issue list + CreateApiKeyRequest"
  ge_revokeKey :: "json \<Rightarrow> issue list + string"
  ge_rejection :: "json \<Rightarrow> issue list + string option"
  ge_validUuid :: "string \<Rightarrow> bool"
  ge_createConnector :: "json option \<Rightarrow> issue list + CreateConnector"
  ge_updateConnector :: "json option \<Rightarrow> UpdateConnector option"
  ge_connectorQuery :: "request \<Rightarrow> (ConnectorType option \<times> bool option \<times> ident option) option"
  ge_eventQuery :: "request \<Rightarrow> (ConnectorEventStatus option \<times> nat \<times> nat) option"
  ge_refuse :: "exn option"
  ge_protocol :: string
  ge_hostname :: string
  ge_hmac :: "string \<Rightarrow> string \<Rightarrow> string \<Rightarrow> string option"
  ge_webhooks :: bool
  ge_locale :: "json option \<Rightarrow> issue list + ConsoleLocale"
  ge_settings :: settings_store
  ge_checks :: "(string \<times> HealthCheckResult result) list"

section \<open>The audit log of a key\<close>

datatype gateway_reply =
  Plain reply
| ConnReply conn_reply
| ExecReply "JobExecution list"
| AuditReply "AuditLog list" nat nat nat

definition page_value :: "(string \<Rightarrow> int option) \<Rightarrow> string option \<Rightarrow> int \<Rightarrow> nat \<Rightarrow> nat" where
  "page_value number q least dflt =
     (case q of
        None \<Rightarrow> dflt
      | Some t \<Rightarrow> (case number t of Some n \<Rightarrow> if least \<le> n then nat n else dflt | None \<Rightarrow> dflt))"

definition get_key_audit ::
    "'s ApiKeyRepository \<Rightarrow> (string \<Rightarrow> int option) \<Rightarrow> 's \<Rightarrow> AuditLog list \<Rightarrow> request \<Rightarrow> gateway_reply" where
  "get_key_audit R number s logs req =
     (case getApiKey R s (rq_id req) of
        None \<Rightarrow> Plain (error_reply 404 ''NOT_FOUND'' (quoted_not_found ''API key'' (rq_id req)))
      | Some _ \<Rightarrow>
          (let limit = page_value number (jm_get (rq_query req) ''limit'') 1 100;
               offset = page_value number (jm_get (rq_query req) ''offset'') 0 0
           in AuditReply (SqliteAuditLog_listByKeyId logs (rq_id req) limit offset)
                (InMemoryAuditLog_countByKeyId logs (rq_id req)) limit offset))"

section \<open>The route table\<close>

datatype job_call = PostJob | GetJobs | GetJob | PatchJob | DeleteJob | GetJobExecutions
datatype connector_call =
  PostConnector | GetConnectors | GetConnector | PatchConnector | DeleteConnector | GetConnectorEvents
datatype approval_call = GetApprovals | PostApprove | PostReject
datatype key_call = PostKey | GetKeys | DeleteKey | GetKeyAudit

datatype gateway_route =
  AgentRoute agent_call | JobRoute job_call | ConnectorRoute connector_call | WebhookRoute | GetSettings | PutSettings
| ApprovalRoute approval_call | KeyRoute key_call | HealthRoute

datatype segment = Lit string | Param

text \<open>A route at the root of a plugin answers with and without a trailing slash.\<close>

definition at_root :: "string \<Rightarrow> 'r \<Rightarrow> (string \<times> segment list \<times> 'r) list" where
  "at_root m r = [(m, [], r), (m, [Lit []], r)]"

definition plugin :: "string list \<Rightarrow> (string \<times> segment list \<times> 'r) list \<Rightarrow> (string \<times> segment list \<times> 'r) list" where
  "plugin prefix' routes = map (\<lambda>(m, segs, r). (m, map Lit prefix' @ segs, r)) routes"

definition route_table :: "(string \<times> segment list \<times> gateway_route) list" where
  "route_table =
     plugin [''api'', ''v1'', ''agents'']
       (at_root ''POST'' (AgentRoute PostAgent) @ at_root ''GET'' (AgentRoute GetAgents)
        @ [(''GET'', [Param], AgentRoute GetAgent), (''DELETE'', [Param], AgentRoute DeleteAgent)])
   @ plugin [''api'', ''v1'', ''tasks''] (at_root ''POST'' (AgentRoute PostTask))
   @ plugin [''api'', ''v1'', ''agent-tasks'']
       ([(''POST'', [Lit ''background''], AgentRoute PostBackground)] @ at_root ''GET'' (AgentRoute GetTasks)
        @ [(''GET'', [Param], AgentRoute GetTask), (''GET'', [Param, Lit ''messages''], AgentRoute GetTaskMessages),
           (''POST'', [Param, Lit ''messages''], AgentRoute PostTaskMessage), (''POST'', [Param, Lit ''resume''], AgentRoute PostResume)])
   @ plugin [''api'', ''v1'', ''runs'']
       (at_root ''GET'' (AgentRoute GetRuns)
        @ [(''GET'', [Param], AgentRoute GetRun), (''GET'', [Param, Lit ''messages''], AgentRoute GetRunMessages)])
   @ plugin [''api'', ''v1'', ''jobs'']
       (at_root ''POST'' (JobRoute PostJob) @ at_root ''GET'' (JobRoute GetJobs)
        @ [(''GET'', [Param], JobRoute GetJob), (''PATCH'', [Param], JobRoute PatchJob), (''DELETE'', [Param], JobRoute DeleteJob),
           (''GET'', [Param, Lit ''executions''], JobRoute GetJobExecutions)])
   @ plugin [''api'', ''v1'', ''connectors'']
       (at_root ''POST'' (ConnectorRoute PostConnector) @ at_root ''GET'' (ConnectorRoute GetConnectors)
        @ [(''GET'', [Param], ConnectorRoute GetConnector), (''PATCH'', [Param], ConnectorRoute PatchConnector),
           (''DELETE'', [Param], ConnectorRoute DeleteConnector), (''GET'', [Param, Lit ''events''], ConnectorRoute GetConnectorEvents)])
   @ plugin [''webhooks''] [(''POST'', [Param], WebhookRoute)]
   @ plugin [''api'', ''runtime'', ''settings''] (at_root ''GET'' GetSettings @ at_root ''PUT'' PutSettings)
   @ plugin [''api'', ''runtime'', ''approvals'']
       (at_root ''GET'' (ApprovalRoute GetApprovals)
        @ [(''POST'', [Param, Lit ''approve''], ApprovalRoute PostApprove), (''POST'', [Param, Lit ''reject''], ApprovalRoute PostReject)])
   @ plugin [''api'', ''v1'', ''keys'']
       (at_root ''POST'' (KeyRoute PostKey) @ at_root ''GET'' (KeyRoute GetKeys)
        @ [(''DELETE'', [Param], KeyRoute DeleteKey), (''GET'', [Param, Lit ''audit''], KeyRoute GetKeyAudit)])
   @ plugin [''health''] (at_root ''GET'' HealthRoute)
   @ plugin [''api'', ''runtime'', ''health''] (at_root ''GET'' HealthRoute)"

text \<open>A pattern matches segment by segment; the parameter, if any, is a segment that is not empty.\<close>

fun match_segments :: "segment list \<Rightarrow> string list \<Rightarrow> ident \<Rightarrow> ident option" where
  "match_segments [] [] i = Some i"
| "match_segments (Lit l # ps) (s # ss) i = (if s = l then match_segments ps ss i else None)"
| "match_segments (Param # ps) (s # ss) i = (if s = [] then None else match_segments ps ss s)"
| "match_segments _ _ i = None"

fun first_match ::
    "(string \<times> segment list \<times> 'r) list \<Rightarrow> string \<Rightarrow> string list \<Rightarrow> ('r \<times> ident) option" where
  "first_match [] m ss = None"
| "first_match ((m', ps, r) # rs) m ss =
     (if m' = m
      then (case match_segments ps ss [] of Some i \<Rightarrow> Some (r, i) | None \<Rightarrow> first_match rs m ss)
      else first_match rs m ss)"

definition request_path :: "request \<Rightarrow> string" where
  "request_path req = hd (js_split CHR ''?'' (rq_url req))"

definition find_route :: "request \<Rightarrow> (gateway_route \<times> ident) option" where
  "find_route req =
     (case js_split CHR ''/'' (request_path req) of
        [] # ss \<Rightarrow> first_match route_table (rq_method req) ss
      | _ \<Rightarrow> None)"

section \<open>Handling a request\<close>

text \<open>The roles a route asks for; some routes ask for none.\<close>

definition route_roles :: "gateway_route \<Rightarrow> ApiKeyRole list option" where
  "route_roles r =
     (case r of
        AgentRoute c \<Rightarrow> Some (call_roles c)
      | JobRoute c \<Rightarrow> Some (if c \<in> {PostJob, PatchJob, DeleteJob} then writeRoles else readRoles)
      | ApprovalRoute _ \<Rightarrow> Some [RoleAdmin]
      | KeyRoute _ \<Rightarrow> Some [RoleAdmin]
      | _ \<Rightarrow> None)"

definition rate_limit_error :: "nat \<Rightarrow> reply" where
  "rate_limit_error ttl =
     (let seconds = (ttl + 999) div 1000
      in rate_limit_reply (''Rate limit exceeded. Try again in '' @ show_nat seconds @ '' seconds.'') seconds)"

fun reply_status :: "gateway_reply \<Rightarrow> int" where
  "reply_status (Plain r) = rp_status r"
| "reply_status (ConnReply (ReplyError r)) = rp_status r"
| "reply_status (ConnReply (ReplyConnector st c w)) = st"
| "reply_status (ConnReply ReplyNoContent) = 204"
| "reply_status _ = 200"

text \<open>
  A handler returns the new state, the reply and the event it leaves to be processed in the background, if
  any (an accepted webhook).
\<close>

type_synonym ('s, 'j) outcome = "('s, 'j) gateway \<times> gateway_reply \<times> (Connector \<times> json option) option"

definition job_handler :: "('s, 'j) gateway_env \<Rightarrow> job_call \<Rightarrow> ('s, 'j) gateway \<Rightarrow> request \<Rightarrow> ('s, 'j) outcome" where
  "job_handler ge c g req =
     (let R = ge_jobRepo ge;
          agents = Some (\<lambda>_ i. InMemoryAgentRepository_get (sv_store (gw_service g)) i \<noteq> None);
          done' = (\<lambda>(j, rep). (g\<lparr>gw_jobs := j\<rparr>, Plain rep, None))
      in case c of
           PostJob \<Rightarrow> done' (post_job R (ge_cron ge) (ge_validCron ge) (ge_validTz ge) agents (ge_uuid ge) (ge_now ge)
                            (ge_createJob ge) (gw_jobs g) req)
         | PatchJob \<Rightarrow> done' (patch_job R (ge_cron ge) (ge_validCron ge) (ge_validTz ge) (ge_now ge) (ge_updateJob ge)
                            (gw_jobs g) req)
         | DeleteJob \<Rightarrow> done' (delete_job R (gw_jobs g) req)
         | GetJobs \<Rightarrow> (g, Plain (get_jobs R (gw_jobs g) req), None)
         | GetJob \<Rightarrow> (g, Plain (get_job R (gw_jobs g) req), None)
         | GetJobExecutions \<Rightarrow>
             (let (limit, offset) = ge_jobPage ge req
              in (g, ExecReply (get_job_executions R limit offset (gw_jobs g) req), None)))"

definition connector_handler ::
    "('s, 'j) gateway_env \<Rightarrow> connector_call \<Rightarrow> ('s, 'j) gateway \<Rightarrow> request \<Rightarrow> ('s, 'j) outcome" where
  "connector_handler ge c g req =
     (let s = gw_connectors g; rt = gw_runtime g;
          done' = (\<lambda>(s', rt', rep). (g\<lparr>gw_connectors := s', gw_runtime := rt'\<rparr>, ConnReply rep, None))
      in case c of
           PostConnector \<Rightarrow> done' (post_connector (ge_refuse ge) (ge_protocol ge) (ge_hostname ge) (ge_uuid ge) (ge_now ge)
                                  (ge_createConnector ge) s rt (rq_body req))
         | PatchConnector \<Rightarrow> done' (patch_connector (ge_refuse ge) (ge_validUuid ge) (ge_now ge) (ge_updateConnector ge) s rt req)
         | DeleteConnector \<Rightarrow> done' (delete_connector (ge_validUuid ge) s rt req)
         | GetConnectors \<Rightarrow> (g, ConnReply (get_connectors (ge_connectorQuery ge) s req), None)
         | GetConnector \<Rightarrow> (g, ConnReply (get_connector (ge_validUuid ge) s req), None)
         | GetConnectorEvents \<Rightarrow> (g, ConnReply (get_connector_events (ge_validUuid ge) (ge_eventQuery ge) s req), None))"

definition key_handler :: "('s, 'j) gateway_env \<Rightarrow> key_call \<Rightarrow> ('s, 'j) gateway \<Rightarrow> request \<Rightarrow> ('s, 'j) outcome" where
  "key_handler ge c g req =
     (let R = ge_keyRepo ge; done' = (\<lambda>(s, rep). (g\<lparr>gw_keys := s\<rparr>, Plain rep, None))
      in case c of
           PostKey \<Rightarrow> done' (post_key R (ge_sha ge) (ge_bhash ge) (ge_rnd ge) (ge_uuid ge) (ge_salt ge) (ge_now ge)
                            (ge_createKey ge) (gw_keys g) req)
         | DeleteKey \<Rightarrow> done' (delete_key R (ge_now ge) (ge_revokeKey ge) (gw_keys g) req)
         | GetKeys \<Rightarrow> (g, Plain (get_keys R (ge_now ge) (gw_keys g) req), None)
         | GetKeyAudit \<Rightarrow> (g, get_key_audit R (ge_number ge) (gw_keys g) (gw_audit g) req, None))"

definition approval_handler ::
    "('s, 'j) gateway_env \<Rightarrow> approval_call \<Rightarrow> ('s, 'j) gateway \<Rightarrow> request \<Rightarrow> ('s, 'j) outcome" where
  "approval_handler ge c g req =
     (let done' = (\<lambda>(q, rep). (g\<lparr>gw_approvals := q\<rparr>, Plain rep, None))
      in case c of
           GetApprovals \<Rightarrow> (g, Plain (get_approvals (gw_approvals g)), None)
         | PostApprove \<Rightarrow> done' (post_approve (ge_now ge) (gw_approvals g) req)
         | PostReject \<Rightarrow> done' (post_reject (ge_now ge) (ge_rejection ge) (gw_approvals g) req))"

definition route_handler ::
    "('s, 'j) gateway_env \<Rightarrow> (string, string) jsmap \<Rightarrow> gateway_route \<Rightarrow> ('s, 'j) gateway \<Rightarrow> request \<Rightarrow> ('s, 'j) outcome" where
  "route_handler ge headers r g req =
     (case r of
        AgentRoute c \<Rightarrow>
          (let (sv, rep) = agent_handler (ge_schemas ge) (ge_environment ge) (ge_draws ge) c (gw_service g) req
           in (g\<lparr>gw_service := sv\<rparr>, Plain rep, None))
      | JobRoute c \<Rightarrow> job_handler ge c g req
      | ConnectorRoute c \<Rightarrow> connector_handler ge c g req
      | WebhookRoute \<Rightarrow>
          (let (rep, event) = post_webhook (ge_hmac ge) (ge_validUuid ge) (ge_webhooks ge) (gw_connectors g) (rq_id req) headers
                                (rq_body req)
           in (g, Plain rep, event))
      | GetSettings \<Rightarrow> (g, Plain (get_settings (ge_settings ge) (gw_files g)), None)
      | PutSettings \<Rightarrow>
          (let (fs, rep) = put_settings (ge_locale ge) (ge_settings ge) (gw_files g) req
           in (g\<lparr>gw_files := fs\<rparr>, Plain rep, None))
      | ApprovalRoute c \<Rightarrow> approval_handler ge c g req
      | KeyRoute c \<Rightarrow> key_handler ge c g req
      | HealthRoute \<Rightarrow> (g, Plain (get_health (ge_checks ge)), None))"

text \<open>
  The hooks before the handler, in order, and the audit entry after the reply. The rate limiter appends its
  hook to those of the route, so that it runs after the role check.
\<close>

definition guarded_handler ::
    "('s, 'j) gateway_env \<Rightarrow> (string, string) jsmap \<Rightarrow> gateway_route \<Rightarrow> ('s, 'j) gateway \<Rightarrow> request \<Rightarrow> ('s, 'j) outcome" where
  "guarded_handler ge headers r g req =
     (case (case route_roles r of Some roles \<Rightarrow> requireRoles roles req | None \<Rightarrow> None) of
        Some rep \<Rightarrow> (g, Plain rep, None)
      | None \<Rightarrow>
          (case (if isPublicRoute (rq_url req) \<or> r = HealthRoute then None else ge_limited ge req) of
             Some ttl \<Rightarrow> (g, Plain (rate_limit_error ttl), None)
           | None \<Rightarrow> route_handler ge headers r g req))"

definition gateway_request ::
    "('s, 'j) gateway_env \<Rightarrow> (string, string) jsmap \<Rightarrow> ('s, 'j) gateway \<Rightarrow> request \<Rightarrow> ('s, 'j) outcome option" where
  "gateway_request ge headers g req =
     (case find_route req of
        None \<Rightarrow> None
      | Some (r, i) \<Rightarrow>
          Some (case authPreHandler (ge_keyRepo ge) (ge_sha ge) (ge_bcompare ge) (ge_now ge) (gw_keys g)
                       (req\<lparr>rq_id := i, rq_apiKey := None\<rparr>) of
                  Inl rep \<Rightarrow> (g, Plain rep, None)
                | Inr (s, req1) \<Rightarrow>
                    (let (g1, rep, event) = guarded_handler ge headers r (g\<lparr>gw_keys := s\<rparr>) req1
                     in (g1\<lparr>gw_audit := gw_audit g1
                             @ (case authOnResponse (ge_uuid ge) (ge_now ge) (reply_status rep) (ge_elapsed ge) req1 of
                                  Some e \<Rightarrow> [e] | None \<Rightarrow> [])\<rparr>, rep, event))))"

section \<open>Lemmas\<close>

text \<open>Only the plugins whose prefix begins the path matter.\<close>

lemma first_match_append:
  "first_match (xs @ ys) m ss = (case first_match xs m ss of None \<Rightarrow> first_match ys m ss | Some x \<Rightarrow> Some x)"
  by (induction xs m ss rule: first_match.induct) (simp_all split: option.splits)

lemma match_literals: "\<not> prefix p ss \<Longrightarrow> match_segments (map Lit p @ ps) ss i = None"
proof (induction p arbitrary: ss)
  case (Cons a p)
  then show ?case by (cases ss) auto
qed simp

lemma first_match_other: "\<not> prefix p ss \<Longrightarrow> first_match (plugin p rs) m ss = None"
  by (induction rs) (auto simp: plugin_def match_literals)

lemma match_webhook_path:
  assumes "first_match route_table m (''webhooks'' # ss) = Some (r, i)"
  shows "r = WebhookRoute"
proof -
  have "first_match route_table m (''webhooks'' # ss) = first_match (plugin [''webhooks''] [(''POST'', [Param], WebhookRoute)]) m (''webhooks'' # ss)"
    by (simp add: route_table_def first_match_append first_match_other split: option.splits)
  with assms show ?thesis by (auto simp: plugin_def split: if_splits option.splits)
qed

lemma match_public_paths:
  "first_match route_table m [''health''] = (if m = ''GET'' then Some (HealthRoute, []) else None)"
  "first_match route_table m [''metrics''] = None"
  "first_match route_table m [''api'', ''runtime'', ''health''] = (if m = ''GET'' then Some (HealthRoute, []) else None)"
  "first_match route_table m [''api'', ''runtime'', ''settings''] =
     (if m = ''GET'' then Some (GetSettings, []) else if m = ''PUT'' then Some (PutSettings, []) else None)"
  by (simp_all add: route_table_def first_match_append first_match_other) (simp_all add: plugin_def at_root_def)

text \<open>A public address leads to no other than the health, settings and webhook routes.\<close>

lemma public_routes:
  assumes "isPublicRoute (rq_url req)" and "find_route req = Some (r, i)"
  shows "r \<in> {HealthRoute, GetSettings, PutSettings, WebhookRoute}"
proof -
  have path: "request_path req = ''/health'' \<or> request_path req = ''/api/runtime/health'' \<or> request_path req = ''/metrics''
      \<or> request_path req = ''/api/runtime/settings'' \<or> js_startsWith (request_path req) ''/webhooks/''"
    using assms(1) by (auto simp: isPublicRoute_def request_path_def Let_def)
  have slash: "CHR ''/'' \<notin> set ''webhooks''" by simp
  have hook: ?thesis if "js_startsWith (request_path req) ''/webhooks/''"
  proof -
    from that obtain t where "request_path req = CHR ''/'' # ''webhooks'' @ CHR ''/'' # t"
      by (auto simp: js_startsWith_prefix prefix_def)
    then have "js_split CHR ''/'' (request_path req) = [] # ''webhooks'' # js_split CHR ''/'' t"
      using js_split_append [of "CHR ''/''" "[]" "''webhooks'' @ CHR ''/'' # t"] js_split_append [OF slash, of t] by simp
    then show ?thesis using assms(2) match_webhook_path by (auto simp: find_route_def)
  qed
  have fixed: "js_split CHR ''/'' ''/health'' = [[], ''health'']" "js_split CHR ''/'' ''/metrics'' = [[], ''metrics'']"
    "js_split CHR ''/'' ''/api/runtime/health'' = [[], ''api'', ''runtime'', ''health'']"
    "js_split CHR ''/'' ''/api/runtime/settings'' = [[], ''api'', ''runtime'', ''settings'']"
    by code_simp+
  have "?thesis" if "request_path req \<in> {''/health'', ''/api/runtime/health'', ''/metrics'', ''/api/runtime/settings''}"
  proof -
    have "r \<in> {HealthRoute, GetSettings, PutSettings}"
      if "js_split CHR ''/'' (request_path req) \<in> {[[], ''health''], [[], ''metrics''], [[], ''api'', ''runtime'', ''health''],
        [[], ''api'', ''runtime'', ''settings'']}"
      using that assms(2) unfolding find_route_def
      by (elim insertE emptyE) (simp_all add: match_public_paths split: if_splits)
    moreover have "js_split CHR ''/'' (request_path req) \<in> {[[], ''health''], [[], ''metrics''], [[], ''api'', ''runtime'', ''health''],
        [[], ''api'', ''runtime'', ''settings'']}"
      using that fixed by (elim insertE emptyE) simp_all
    ultimately show ?thesis by blast
  qed
  then show ?thesis using path hook by blast
qed

text \<open>What each handler leaves alone.\<close>

lemma handler_frames:
  assumes "route_handler ge hs r g req = (g', rep, event)"
  shows "gw_audit g' = gw_audit g"
    and "(\<exists>c. r = AgentRoute c \<and> call_roles c = writeRoles) \<or> gw_service g' = gw_service g"
    and "(\<exists>c. r = JobRoute c \<and> c \<in> {PostJob, PatchJob, DeleteJob}) \<or> gw_jobs g' = gw_jobs g"
    and "(\<exists>c. r = ConnectorRoute c) \<or> gw_connectors g' = gw_connectors g \<and> gw_runtime g' = gw_runtime g"
    and "r = PutSettings \<or> gw_files g' = gw_files g"
    and "(\<exists>c. r = ApprovalRoute c) \<or> gw_approvals g' = gw_approvals g"
    and "(\<exists>c. r = KeyRoute c) \<or> gw_keys g' = gw_keys g"
    and "r = WebhookRoute \<or> event = None"
proof -
  have agent: "call_roles c = writeRoles \<or> fst (agent_handler sc ev dr c sv rq) = sv" for sc ev dr c sv rq
    by (cases c) (simp_all add: call_roles_def)
  note defs = route_handler_def job_handler_def connector_handler_def approval_handler_def key_handler_def
  show "gw_audit g' = gw_audit g"
    using assms by (cases r) (auto simp: defs Let_def split: prod.splits job_call.splits connector_call.splits
        approval_call.splits key_call.splits)
  show "(\<exists>c. r = AgentRoute c \<and> call_roles c = writeRoles) \<or> gw_service g' = gw_service g"
    using assms agent by (cases r) (auto simp: defs Let_def split: prod.splits job_call.splits connector_call.splits
        approval_call.splits key_call.splits, metis fst_conv)
  show "(\<exists>c. r = JobRoute c \<and> c \<in> {PostJob, PatchJob, DeleteJob}) \<or> gw_jobs g' = gw_jobs g"
    using assms by (cases r) (auto simp: defs Let_def split: prod.splits job_call.splits connector_call.splits
        approval_call.splits key_call.splits)
  show "(\<exists>c. r = ConnectorRoute c) \<or> gw_connectors g' = gw_connectors g \<and> gw_runtime g' = gw_runtime g"
    using assms by (cases r) (auto simp: defs Let_def split: prod.splits job_call.splits
        approval_call.splits key_call.splits)
  show "r = PutSettings \<or> gw_files g' = gw_files g"
    using assms by (cases r) (auto simp: defs Let_def split: prod.splits job_call.splits connector_call.splits
        approval_call.splits key_call.splits)
  show "(\<exists>c. r = ApprovalRoute c) \<or> gw_approvals g' = gw_approvals g"
    using assms by (cases r) (auto simp: defs Let_def split: prod.splits job_call.splits connector_call.splits
        key_call.splits)
  show "(\<exists>c. r = KeyRoute c) \<or> gw_keys g' = gw_keys g"
    using assms by (cases r) (auto simp: defs Let_def split: prod.splits job_call.splits connector_call.splits
        approval_call.splits)
  show "r = WebhookRoute \<or> event = None"
    using assms by (cases r) (auto simp: defs Let_def split: prod.splits job_call.splits connector_call.splits
        approval_call.splits key_call.splits)
qed

lemma requireRoles_None: "requireRoles roles req = None \<longleftrightarrow> (\<exists>k. rq_apiKey req = Some k \<and> au_role k \<in> set roles)"
  by (auto simp: requireRoles_def split: option.splits)

lemma guarded_frames:
  assumes "guarded_handler ge hs r g req = (g', rep, event)"
  shows "gw_audit g' = gw_audit g"
    and "gw_service g' = gw_service g \<and> gw_jobs g' = gw_jobs g
      \<or> (\<exists>k. rq_apiKey req = Some k \<and> au_role k \<in> {RoleAdmin, RoleUserKey})"
    and "gw_approvals g' = gw_approvals g \<and> gw_keys g' = gw_keys g
      \<or> (\<exists>k. rq_apiKey req = Some k \<and> au_role k = RoleAdmin)"
    and "(\<exists>c. r = ConnectorRoute c) \<or> gw_connectors g' = gw_connectors g \<and> gw_runtime g' = gw_runtime g"
    and "r = PutSettings \<or> gw_files g' = gw_files g"
    and "r = WebhookRoute \<or> event = None"
proof -
  have "g' = g \<and> event = None \<or> route_handler ge hs r g req = (g', rep, event)
      \<and> (\<forall>roles. route_roles r = Some roles \<longrightarrow> (\<exists>k. rq_apiKey req = Some k \<and> au_role k \<in> set roles))"
    using assms requireRoles_None [of _ req] by (fastforce simp: guarded_handler_def split: option.splits if_splits)
  then consider (same) "g' = g" "event = None"
    | (run) "route_handler ge hs r g req = (g', rep, event)"
        "\<And>roles. route_roles r = Some roles \<Longrightarrow> \<exists>k. rq_apiKey req = Some k \<and> au_role k \<in> set roles"
    by blast
  then have "gw_audit g' = gw_audit g
    \<and> (gw_service g' = gw_service g \<and> gw_jobs g' = gw_jobs g
      \<or> (\<exists>k. rq_apiKey req = Some k \<and> au_role k \<in> {RoleAdmin, RoleUserKey}))
    \<and> (gw_approvals g' = gw_approvals g \<and> gw_keys g' = gw_keys g
      \<or> (\<exists>k. rq_apiKey req = Some k \<and> au_role k = RoleAdmin))
    \<and> ((\<exists>c. r = ConnectorRoute c) \<or> gw_connectors g' = gw_connectors g \<and> gw_runtime g' = gw_runtime g)
    \<and> (r = PutSettings \<or> gw_files g' = gw_files g) \<and> (r = WebhookRoute \<or> event = None)"
  proof cases
    case same
    then show ?thesis by simp
  next
    case run
    note f = handler_frames [OF run(1)]
    have "\<exists>k. rq_apiKey req = Some k \<and> au_role k \<in> {RoleAdmin, RoleUserKey}"
      if "gw_service g' \<noteq> gw_service g \<or> gw_jobs g' \<noteq> gw_jobs g"
    proof -
      from that f(2,3) have "route_roles r = Some writeRoles" by (auto simp: route_roles_def)
      from run(2) [OF this] show ?thesis by (auto simp: writeRoles_def)
    qed
    moreover have "\<exists>k. rq_apiKey req = Some k \<and> au_role k = RoleAdmin"
      if "gw_approvals g' \<noteq> gw_approvals g \<or> gw_keys g' \<noteq> gw_keys g"
    proof -
      from that f(6,7) have "route_roles r = Some [RoleAdmin]" by (auto simp: route_roles_def)
      from run(2) [OF this] show ?thesis by simp
    qed
    ultimately show ?thesis using f(1,4,5,8) by blast
  qed
  then show "gw_audit g' = gw_audit g"
    and "gw_service g' = gw_service g \<and> gw_jobs g' = gw_jobs g
      \<or> (\<exists>k. rq_apiKey req = Some k \<and> au_role k \<in> {RoleAdmin, RoleUserKey})"
    and "gw_approvals g' = gw_approvals g \<and> gw_keys g' = gw_keys g
      \<or> (\<exists>k. rq_apiKey req = Some k \<and> au_role k = RoleAdmin)"
    and "(\<exists>c. r = ConnectorRoute c) \<or> gw_connectors g' = gw_connectors g \<and> gw_runtime g' = gw_runtime g"
    and "r = PutSettings \<or> gw_files g' = gw_files g"
    and "r = WebhookRoute \<or> event = None"
    by blast+
qed

text \<open>The key behind a request: none on public addresses and when authentication fails.\<close>

definition caller :: "('s, 'j) gateway_env \<Rightarrow> ('s, 'j) gateway \<Rightarrow> request \<Rightarrow> AuthenticatedApiKey option" where
  "caller ge g req =
     (if isPublicRoute (rq_url req) \<or> \<not> js_truthy (resolveApiKey req) then None
      else (case authenticateApiKey (ge_keyRepo ge) (ge_sha ge) (ge_bcompare ge) (ge_now ge) (gw_keys g)
                   (the (resolveApiKey req)) of Inr k \<Rightarrow> Some k | Inl _ \<Rightarrow> None))"

lemma gateway_request_cases:
  assumes "gateway_request ge hs g req = Some (g', rep, event)" and "find_route req = Some (r, i)"
  obtains (refused) "\<not> isPublicRoute (rq_url req)" "caller ge g req = None" "g' = g" "event = None"
      "rp_status (case rep of Plain x \<Rightarrow> x) = 401" "\<exists>x. rep = Plain x"
  | (public) g1 where "isPublicRoute (rq_url req)" "caller ge g req = None"
      "guarded_handler ge hs r g (req\<lparr>rq_id := i, rq_apiKey := None\<rparr>) = (g1, rep, event)" "g' = g1"
  | (known) k g1 where "\<not> isPublicRoute (rq_url req)" "caller ge g req = Some k"
      "guarded_handler ge hs r (g\<lparr>gw_keys := kr_updateLastUsed (ge_keyRepo ge) (ge_now ge) (gw_keys g) (au_id k)\<rparr>)
         (req\<lparr>rq_id := i, rq_apiKey := Some k\<rparr>) = (g1, rep, event)"
      "g' = g1\<lparr>gw_audit := gw_audit g1 @ [audit_entry (ge_uuid ge) (ge_now ge) (reply_status rep) (ge_elapsed ge) req k]\<rparr>"
proof -
  let ?req = "req\<lparr>rq_id := i, rq_apiKey := None\<rparr>"
  have key: "resolveApiKey ?req = resolveApiKey req" by (simp add: resolveApiKey_def split: option.split)
  have entry: "audit_entry u n st el (req\<lparr>rq_id := i, rq_apiKey := a\<rparr>) k = audit_entry u n st el req k" for u n st el a k
    by (simp add: audit_entry_def)
  show thesis
  proof (cases "isPublicRoute (rq_url req)")
    case True
    then have "caller ge g req = None" "authPreHandler (ge_keyRepo ge) (ge_sha ge) (ge_bcompare ge) (ge_now ge) (gw_keys g) ?req
        = Inr (gw_keys g, ?req)"
      by (simp_all add: caller_def authPreHandler_def)
    with assms True public show thesis
      by (auto simp: gateway_request_def authOnResponse_def split: prod.splits)
  next
    case False
    show thesis
    proof (cases "caller ge g req")
      case None
      have "\<exists>x. authPreHandler (ge_keyRepo ge) (ge_sha ge) (ge_bcompare ge) (ge_now ge) (gw_keys g) ?req = Inl x"
      proof (cases "js_truthy (resolveApiKey req)")
        case given: True
        with None False obtain f where "authenticateApiKey (ge_keyRepo ge) (ge_sha ge) (ge_bcompare ge) (ge_now ge) (gw_keys g)
            (the (resolveApiKey req)) = Inl f"
          by (auto simp: caller_def split: sum.splits)
        with given False key show ?thesis by (simp add: authPreHandler_def)
      next
        case missing: False
        with False key show ?thesis by (simp add: authPreHandler_def)
      qed
      then obtain x where x: "authPreHandler (ge_keyRepo ge) (ge_sha ge) (ge_bcompare ge) (ge_now ge) (gw_keys g) ?req = Inl x" by blast
      from assms x have "g' = g" "rep = Plain x" "event = None" by (simp_all add: gateway_request_def)
      then show thesis using False None authPreHandler_401 [OF x] by (intro refused) simp_all
    next
      case (Some k)
      then have "authPreHandler (ge_keyRepo ge) (ge_sha ge) (ge_bcompare ge) (ge_now ge) (gw_keys g) ?req
          = Inr (kr_updateLastUsed (ge_keyRepo ge) (ge_now ge) (gw_keys g) (au_id k), req\<lparr>rq_id := i, rq_apiKey := Some k\<rparr>)"
        using False key by (auto simp: caller_def authPreHandler_def split: sum.splits if_splits)
      with assms False Some known show thesis
        by (auto simp: gateway_request_def authOnResponse_def entry split: prod.splits)
    qed
  qed
qed

section \<open>Properties\<close>

text \<open>
  C9. Who can change what. Of everything the gateway keeps, agents, tasks, runs and jobs change only for a
  caller with an administrator or user key, approvals and keys only for an administrator (apart from the
  time a key was last used), connectors only for a caller with a key, the settings file only by the
  settings route, and events are accepted only by the webhook route. A request without a valid key to
  an address that is not public changes nothing and is answered 401.
\<close>

theorem gateway_change_needs_role:
  assumes "gateway_request ge hs g req = Some (g', rep, event)"
  shows "(gw_service g' = gw_service g \<and> gw_jobs g' = gw_jobs g
      \<or> (\<exists>k. caller ge g req = Some k \<and> au_role k \<in> {RoleAdmin, RoleUserKey}))
    \<and> (gw_approvals g' = gw_approvals g
        \<and> (gw_keys g' = gw_keys g
           \<or> (\<exists>k. caller ge g req = Some k \<and> gw_keys g' = kr_updateLastUsed (ge_keyRepo ge) (ge_now ge) (gw_keys g) (au_id k)))
      \<or> (\<exists>k. caller ge g req = Some k \<and> au_role k = RoleAdmin))
    \<and> (gw_connectors g' = gw_connectors g \<and> gw_runtime g' = gw_runtime g \<or> caller ge g req \<noteq> None)
    \<and> (gw_files g' = gw_files g \<or> (\<exists>i. find_route req = Some (PutSettings, i)))
    \<and> (event = None \<or> (\<exists>i. find_route req = Some (WebhookRoute, i)))
    \<and> (isPublicRoute (rq_url req) \<or> caller ge g req \<noteq> None \<or> g' = g \<and> reply_status rep = 401)"
proof -
  from assms obtain r i where route: "find_route req = Some (r, i)"
    by (auto simp: gateway_request_def split: option.splits)
  from assms route show ?thesis
  proof (cases rule: gateway_request_cases)
    case refused
    then show ?thesis by auto
  next
    case (public g1)
    have "\<nexists>c. r = ConnectorRoute c" using public_routes [OF public(1) route] by auto
    with guarded_frames [OF public(3)] public route show ?thesis by auto
  next
    case (known k g1)
    from guarded_frames [OF known(3)] known route show ?thesis by auto
  qed
qed

text \<open>A gateway with one connector and one key of role \<^verbatim>\<open>readonly\<close>.\<close>

definition demo_gateway_env :: "(ApiKeyRecord list, sched_db) gateway_env" where
  "demo_gateway_env = \<lparr>ge_keyRepo = SqliteApiKeyRepository, ge_sha = (\<lambda>v. v), ge_bcompare = (\<lambda>v h. v = h), ge_bhash = (\<lambda>salt v. v),
     ge_rnd = [], ge_salt = [], ge_now = ''2027'', ge_uuid = ''u9'', ge_elapsed = 1, ge_number = (\<lambda>t. None),
     ge_limited = (\<lambda>req. None), ge_draws = demo_draws, ge_environment = demo_env, ge_schemas = demo_route_schemas,
     ge_jobRepo = sqlite_repos, ge_cron = (\<lambda>e tz clk. None), ge_validCron = (\<lambda>e. True), ge_validTz = (\<lambda>z. True),
     ge_createJob = (\<lambda>b. Inl []), ge_updateJob = (\<lambda>b. Inl []), ge_jobPage = (\<lambda>req. (None, None)),
     ge_createKey = (\<lambda>b. Inl []), ge_revokeKey = (\<lambda>b. Inl []), ge_rejection = (\<lambda>b. Inl []), ge_validUuid = (\<lambda>u. True),
     ge_createConnector = (\<lambda>b. Inl []), ge_updateConnector = (\<lambda>b. None), ge_connectorQuery = (\<lambda>req. None),
     ge_eventQuery = (\<lambda>req. None), ge_refuse = None, ge_protocol = ''http'', ge_hostname = ''h'', ge_hmac = (\<lambda>a s t. None),
     ge_webhooks = True, ge_locale = (\<lambda>b. Inl []), ge_settings = \<lparr>ss_schema = (\<lambda>j. Inl []), ss_schemaError = (\<lambda>is. Error ''z''),
       ss_readable = (\<lambda>f. Inr ()), ss_writable = (\<lambda>f. Inr ()), ss_file = ''s.json''\<rparr>, ge_checks = []\<rparr>"

definition demo_gateway :: "(ApiKeyRecord list, sched_db) gateway" where
  "demo_gateway = \<lparr>gw_keys = map (\<lambda>r. r\<lparr>ak_role := RoleReadonly\<rparr>) demo_rows, gw_audit = [], gw_service = service_init,
     gw_jobs = \<lparr>db_agents = [], db_runs = [], db_jobs = [], db_executions = []\<rparr>, gw_connectors = demo_conn_db,
     gw_runtime = runtime_init, gw_files = [], gw_approvals = []\<rparr>"

definition demo_delete :: request where
  "demo_delete = demo_request\<lparr>rq_url := ''/api/v1/connectors/c1'', rq_method := ''DELETE''\<rparr>"

lemma demo_delete_runs:
  "map_option (\<lambda>(g', rep, event). (cd_connectors (gw_connectors g'), reply_status rep, length (gw_audit g')))
     (gateway_request demo_gateway_env [] demo_gateway demo_delete) = Some ([], 204, 1)"
  "map_option au_role (caller demo_gateway_env demo_gateway demo_delete) = Some RoleReadonly"
  "gw_connectors demo_gateway = demo_conn_db" "cd_connectors demo_conn_db = [demo_connector]"
  by (code_simp, code_simp, simp add: demo_gateway_def, simp add: demo_conn_db_def)

theorem gateway_change_needs_role_witness:
  "\<exists>g' rep event k. gateway_request demo_gateway_env [] demo_gateway demo_delete = Some (g', rep, event)
     \<and> gw_connectors g' \<noteq> gw_connectors demo_gateway
     \<and> caller demo_gateway_env demo_gateway demo_delete = Some k \<and> au_role k = RoleReadonly
     \<and> gw_service g' = gw_service demo_gateway \<and> gw_jobs g' = gw_jobs demo_gateway"
proof -
  obtain g' rep event where go: "gateway_request demo_gateway_env [] demo_gateway demo_delete = Some (g', rep, event)"
    and gone: "cd_connectors (gw_connectors g') = []"
    using demo_delete_runs(1) by (auto simp: map_option_case split: option.splits)
  obtain k where k: "caller demo_gateway_env demo_gateway demo_delete = Some k" "au_role k = RoleReadonly"
    using demo_delete_runs(2) by (auto simp: map_option_case split: option.splits)
  have "gw_connectors g' \<noteq> gw_connectors demo_gateway" using gone demo_delete_runs(3,4) by auto
  with gateway_change_needs_role [OF go] go k show ?thesis by auto
qed



end
