(* ===== verification/Http_Transport.thy ===== *)
theory Http_Transport
  imports Gateway_Assembly
begin

text \<open>
  What the clients of the gateway (the scheduler process, the web console, the command line) see of HTTP. An
  exchange is a function \<open>fetch\<close> on the state of whoever answers. \<open>carries\<close> says what the transport and the
  framework behind the address promise: the request reaches the gateway with its path, method, key and parsed
  body, and the reply comes back with its status and its body as text.
\<close>

section \<open>Requests and responses\<close>

record http_request =
  hr_method :: string
  hr_url :: string
  hr_headers :: "(string, string) jsmap"
  hr_body :: "string option"

record http_response =
  hs_status :: int
  hs_statusText :: string
  hs_contentType :: "string option"
  hs_text :: string

type_synonym 'w fetch = "'w \<Rightarrow> http_request \<Rightarrow> 'w \<times> http_response result"

definition response_ok :: "http_response \<Rightarrow> bool" where
  "response_ok r \<longleftrightarrow> 200 \<le> hs_status r \<and> hs_status r \<le> 299"

definition response_json :: "http_response \<Rightarrow> json result" where
  "response_json r = (case json_parse (hs_text r) of None \<Rightarrow> Inl (Error ''SyntaxError'') | Some j \<Rightarrow> Inr j)"

text \<open>Header names do not distinguish upper and lower case.\<close>

definition http_header :: "(string, string) jsmap \<Rightarrow> string \<Rightarrow> string option" where
  "http_header hs k = map_option snd (find (\<lambda>(k', v). js_toLowerCase k' = k) hs)"

definition as_request :: "string \<Rightarrow> string \<Rightarrow> http_request \<Rightarrow> request" where
  "as_request ip path rq =
     \<lparr>rq_url = path, rq_method = hr_method rq, rq_ip = ip, rq_authorization = http_header (hr_headers rq) ''authorization'',
      rq_userAgent = http_header (hr_headers rq) ''user-agent'', rq_query = [], rq_id = [],
      rq_body = Option.bind (hr_body rq) json_parse, rq_apiKey = None\<rparr>"

definition as_response :: "reply \<Rightarrow> http_response" where
  "as_response rep = \<lparr>hs_status = rp_status rep, hs_statusText = [], hs_contentType = Some ''application/json; charset=utf-8'',
     hs_text = json_stringify (rp_body rep)\<rparr>"

definition carries ::
    "('s, 'j) gateway fetch \<Rightarrow> ('s, 'j) gateway_env \<Rightarrow> (string, string) jsmap \<Rightarrow> string \<Rightarrow> string \<Rightarrow> bool" where
  "carries fetch ge hs ip base \<longleftrightarrow>
     (\<forall>g rq path g' rep. hr_url rq = base @ path \<longrightarrow> CHR ''?'' \<notin> set path \<longrightarrow>
        gateway_request ge hs g (as_request ip path rq) = Some (g', Plain rep, None) \<longrightarrow>
        (\<exists>st. fetch g rq = (g', Inr ((as_response rep)\<lparr>hs_statusText := st\<rparr>))))"

text \<open>A transport that hands requests to the gateway itself.\<close>

definition direct_fetch ::
    "('s, 'j) gateway_env \<Rightarrow> (string, string) jsmap \<Rightarrow> string \<Rightarrow> string \<Rightarrow> ('s, 'j) gateway fetch" where
  "direct_fetch ge hs ip base g rq =
     (case gateway_request ge hs g (as_request ip (drop (length base) (hr_url rq)) rq) of
        Some (g', Plain rep, event) \<Rightarrow> (g', Inr (as_response rep))
      | _ \<Rightarrow> (g, Inl (Error ''fetch failed'')))"

lemma direct_fetch_carries: "carries (direct_fetch ge hs ip base) ge hs ip base"
proof -
  have "(as_response rep)\<lparr>hs_statusText := []\<rparr> = as_response rep" for rep by (simp add: as_response_def)
  then show ?thesis unfolding carries_def direct_fetch_def by (auto intro!: exI [of _ "[]"])
qed

lemma gateway_answers: "find_route req = Some (r, i) \<Longrightarrow> gateway_request ge hs g req \<noteq> None"
  by (simp add: gateway_request_def)

end
