(* ===== verification/Scheduler_Process.thy ===== *)
theory Scheduler_Process
  imports Http_Transport
begin

text \<open>
  The scheduler process (\<^verbatim>\<open>apps/scheduler/src/index.ts\<close>): its client of the gateway, the timer that starts
  ticks of the scheduler service (\<^verbatim>\<open>packages/scheduler/src/scheduler.ts\<close>), its health report and its HTTP
  endpoint.

\<close>

section \<open>The client of the gateway\<close>

definition normalizeBaseUrl :: "string \<Rightarrow> string" where
  "normalizeBaseUrl url = (if js_endsWith url ''/'' then butlast url else url)"

definition resolveGatewayBaseUrl :: "nat \<Rightarrow> (string, string) jsmap \<Rightarrow> string option \<Rightarrow> string" where
  "resolveGatewayBaseUrl gatewayPort env override =
     normalizeBaseUrl (js_or override (js_or (jm_get env ''SENCLAW_GATEWAY_URL'') (''http://127.0.0.1:'' @ show_nat gatewayPort)))"

definition resolveGatewayApiKey :: "(string, string) jsmap \<Rightarrow> string option \<Rightarrow> string result" where
  "resolveGatewayApiKey env override =
     (let apiKey = js_or_opt override (js_or_opt (jm_get env ''SENCLAW_SCHEDULER_API_KEY'') (jm_get env ''SENCLAW_API_KEY''))
      in if js_truthy apiKey then Inr (the apiKey)
         else Inl (Error ''Scheduler API key is required. Set SENCLAW_SCHEDULER_API_KEY or SENCLAW_API_KEY.''))"

definition task_json :: "ident \<Rightarrow> string \<Rightarrow> json" where
  "task_json agentId input = JObj [(''agentId'', JStr agentId), (''input'', JStr input)]"

definition task_http_request :: "string \<Rightarrow> string \<Rightarrow> ident \<Rightarrow> string \<Rightarrow> http_request" where
  "task_http_request baseUrl apiKey agentId input =
     \<lparr>hr_method = ''POST'', hr_url = normalizeBaseUrl baseUrl @ ''/api/v1/tasks'',
      hr_headers = [(''Authorization'', ''Bearer '' @ apiKey), (''Content-Type'', ''application/json'')],
      hr_body = Some (json_stringify (task_json agentId input))\<rparr>"

definition gateway_error_message :: "http_response \<Rightarrow> string" where
  "gateway_error_message r =
     (case response_json r of
        Inr payload \<Rightarrow> (case json_field payload ''message'' of Some (JStr m) \<Rightarrow> m | _ \<Rightarrow> ''HTTP '' @ show_int (hs_status r))
      | Inl _ \<Rightarrow> ''HTTP '' @ show_int (hs_status r))"

definition TaskGatewayClient_submitTask ::
    "'w fetch \<Rightarrow> string \<Rightarrow> string \<Rightarrow> 'w \<Rightarrow> ident \<Rightarrow> string \<Rightarrow> 'w \<times> json result" where
  "TaskGatewayClient_submitTask fetch baseUrl apiKey w agentId input =
     (case fetch w (task_http_request baseUrl apiKey agentId input) of
        (w', Inl e) \<Rightarrow> (w', Inl e)
      | (w', Inr r) \<Rightarrow> (w', if response_ok r then response_json r else Inl (Error (gateway_error_message r))))"

section \<open>The timer and its ticks\<close>

text \<open>
  A tick of the service runs between other events of the process: it asks for the due jobs, then executes
  them one after another. \<open>sp_ticks\<close> holds the ticks under way, with their time and the jobs left once they are
  known; a tick that throws ends, and its exception is a rejection nobody handles. The database may be changed
  by the gateway at any time. Executing a job after the database has been closed throws; what it still
  does is the argument \<open>late\<close>.
\<close>

record 's sched_process =
  sp_store :: 's
  sp_timer :: bool
  sp_inProgress :: bool
  sp_ticks :: "(timestamp \<times> ScheduledJob list option) list"
  sp_closed :: bool
  sp_rejections :: "exn list"

datatype 's process_event =
  TimerFires timestamp
| TickFinds
| TickDone
| TickJob "ident \<times> ident" timestamp
| CloseRuntime
| StoreChanges 's

definition process_start :: "'s \<Rightarrow> 's sched_process" where
  "process_start s = \<lparr>sp_store = s, sp_timer = True, sp_inProgress = False, sp_ticks = [], sp_closed = False, sp_rejections = []\<rparr>"

definition tick_ends :: "exn option \<Rightarrow> 's sched_process \<Rightarrow> 's sched_process" where
  "tick_ends e p = p\<lparr>sp_inProgress := False, sp_ticks := tl (sp_ticks p), sp_rejections := sp_rejections p @ (case e of None \<Rightarrow> [] | Some x \<Rightarrow> [x])\<rparr>"

definition timer_fires :: "timestamp \<Rightarrow> 's sched_process \<Rightarrow> 's sched_process" where
  "timer_fires now p =
     (if sp_inProgress p then p
      else p\<lparr>sp_inProgress := True, sp_ticks := sp_ticks p @ [(now, None)]\<rparr>)"

definition tick_finds :: "'s sched_repos \<Rightarrow> exn \<Rightarrow> 's sched_process \<Rightarrow> 's sched_process option" where
  "tick_finds R closed p =
     (case sp_ticks p of
        (now, None) # ts \<Rightarrow>
          Some (if sp_closed p then tick_ends (Some closed) p
                else p\<lparr>sp_ticks := (now, Some (jr_findDueJobs R now (sp_store p))) # ts\<rparr>)
      | _ \<Rightarrow> None)"

definition tick_job ::
    "'s sched_repos \<Rightarrow> cron_parser \<Rightarrow> 's submit \<Rightarrow> ('s \<Rightarrow> ScheduledJob \<Rightarrow> 's \<times> exn) \<Rightarrow> ident \<times> ident \<Rightarrow> timestamp
     \<Rightarrow> 's sched_process \<Rightarrow> 's sched_process option" where
  "tick_job R cron submit late us clk p =
     (case sp_ticks p of
        (now, Some (j # js)) # ts \<Rightarrow>
          Some (if sp_closed p then (let (s, e) = late (sp_store p) j in tick_ends (Some e) (p\<lparr>sp_store := s\<rparr>))
                else (case executeJob R cron submit us clk now (sp_store p) j of
                        (s, Some e) \<Rightarrow> tick_ends (Some e) (p\<lparr>sp_store := s\<rparr>)
                      | (s, None) \<Rightarrow> p\<lparr>sp_store := s, sp_ticks := (now, Some js) # ts\<rparr>))
      | _ \<Rightarrow> None)"

text \<open>Closing stops the timer and closes the database, once; a tick under way is not waited for.\<close>

definition close_runtime :: "'s sched_process \<Rightarrow> 's sched_process" where
  "close_runtime p = (if sp_closed p then p else p\<lparr>sp_closed := True, sp_timer := False\<rparr>)"

fun process_step ::
    "'s sched_repos \<Rightarrow> cron_parser \<Rightarrow> 's submit \<Rightarrow> exn \<Rightarrow> ('s \<Rightarrow> ScheduledJob \<Rightarrow> 's \<times> exn) \<Rightarrow> 's process_event
     \<Rightarrow> 's sched_process \<Rightarrow> 's sched_process option" where
  "process_step R cron submit closed late (TimerFires now) p = (if sp_timer p then Some (timer_fires now p) else None)"
| "process_step R cron submit closed late TickFinds p = tick_finds R closed p"
| "process_step R cron submit closed late (TickJob us clk) p = tick_job R cron submit late us clk p"
| "process_step R cron submit closed late TickDone p =
     (case sp_ticks p of (now, Some []) # ts \<Rightarrow> Some (tick_ends None p) | _ \<Rightarrow> None)"
| "process_step R cron submit closed late CloseRuntime p = Some (close_runtime p)"
| "process_step R cron submit closed late (StoreChanges s) p = Some (p\<lparr>sp_store := s\<rparr>)"

section \<open>Health and the endpoint\<close>

record SchedulerHealth =
  sh_status :: HealthStatus
  sh_pendingJobs :: nat
  sh_detail :: "string option"

definition SchedulerRuntime_getHealth :: "HealthCheckResult result \<Rightarrow> ScheduledJob list result \<Rightarrow> SchedulerHealth" where
  "SchedulerRuntime_getHealth check due =
     (case check of
        Inl e \<Rightarrow> \<lparr>sh_status = Unhealthy, sh_pendingJobs = 0, sh_detail = Some (message e)\<rparr>
      | Inr h \<Rightarrow>
          if hc_status h \<noteq> Healthy then \<lparr>sh_status = hc_status h, sh_pendingJobs = 0, sh_detail = hc_detail h\<rparr>
          else (case due of
                  Inl e \<Rightarrow> \<lparr>sh_status = Unhealthy, sh_pendingJobs = 0, sh_detail = Some (message e)\<rparr>
                | Inr js \<Rightarrow> \<lparr>sh_status = Healthy, sh_pendingJobs = length js, sh_detail = None\<rparr>))"

definition scheduler_health_json :: "SchedulerHealth \<Rightarrow> json" where
  "scheduler_health_json h = JObj ([(''status'', JStr (health_text (sh_status h))), (''pendingJobs'', JNum (int (sh_pendingJobs h)))]
     @ (case sh_detail h of None \<Rightarrow> [] | Some d \<Rightarrow> [(''detail'', JStr d)]))"

definition scheduler_defaultPort :: nat where "scheduler_defaultPort = 4500"

definition createSchedulerDescriptor :: "(string \<times> json) list" where
  "createSchedulerDescriptor = [(''id'', JStr ''scheduler''), (''runtime'', JStr ''typescript''),
     (''supportedPlatforms'', JArr [JStr ''windows'', JStr ''linux'']), (''defaultPort'', JNum (int scheduler_defaultPort))]"

definition scheduler_resolvePort :: "(string \<Rightarrow> int option) \<Rightarrow> (string, string) jsmap \<Rightarrow> int" where
  "scheduler_resolvePort number env =
     (case jm_get env ''SENCLAW_SCHEDULER_PORT'' of
        Some raw \<Rightarrow> if raw \<noteq> [] then js_or (number raw) (int scheduler_defaultPort) else int scheduler_defaultPort
      | None \<Rightarrow> int scheduler_defaultPort)"

definition scheduler_handleRequest :: "string \<Rightarrow> string \<Rightarrow> int \<Rightarrow> SchedulerHealth \<Rightarrow> reply" where
  "scheduler_handleRequest method' path activePort health =
     (if method' = ''GET'' \<and> path = ''/health'' then
        \<lparr>rp_status = (if sh_status health = Unhealthy then 503 else 200), rp_body = scheduler_health_json health\<rparr>
      else if method' = ''GET'' \<and> path = ''/'' then
        \<lparr>rp_status = 200, rp_body = JObj (createSchedulerDescriptor @ [(''activePort'', JNum activePort), (''status'', JStr ''ready'')])\<rparr>
      else error_reply 404 ''NOT_FOUND'' ''Route not found'')"

section \<open>Lemmas\<close>

definition process_ok :: "'s sched_process \<Rightarrow> bool" where
  "process_ok p \<longleftrightarrow> length (sp_ticks p) \<le> 1 \<and> (sp_inProgress p \<longleftrightarrow> sp_ticks p \<noteq> []) \<and> (sp_closed p \<longrightarrow> \<not> sp_timer p)"

lemma process_step_ok: "process_ok p \<Longrightarrow> process_step R cron submit closed late e p = Some p' \<Longrightarrow> process_ok p'"
  by (cases e)
    (auto simp: process_ok_def timer_fires_def tick_finds_def tick_job_def tick_ends_def close_runtime_def Let_def
      split: if_splits list.splits option.splits prod.splits)

interpretation sched: event_machine "process_step R cron submit closed late" "process_start s" process_ok
  for R cron submit closed late s
proof
  show "process_ok (process_start s)" by (simp add: process_ok_def process_start_def)
  show "process_ok p \<Longrightarrow> process_step R cron submit closed late e p = Some p' \<Longrightarrow> process_ok p'" for p e p'
    by (rule process_step_ok)
qed

text \<open>Once closed, a process starts no tick; with no tick under way nothing it does any more throws.\<close>

lemma closed_step:
  assumes "sp_closed p" and "process_step R cron submit closed late e p = Some p'" and "process_ok p"
  shows "sp_closed p' \<and> length (sp_ticks p') \<le> length (sp_ticks p)
    \<and> (sp_ticks p = [] \<longrightarrow> sp_rejections p' = sp_rejections p \<and> (sp_store p' = sp_store p \<or> e = StoreChanges (sp_store p')))"
  using assms
  by (cases e)
    (auto simp: process_ok_def timer_fires_def tick_finds_def tick_job_def tick_ends_def close_runtime_def Let_def
      split: if_splits list.splits option.splits prod.splits)

text \<open>The jobs of a tick, executed by events of their own, end as the loop of the tick does.\<close>

lemma tick_jobs_run:
  assumes "\<not> sp_closed p" and "sp_ticks p = [(now, Some js)]"
  shows "\<exists>es p'. run_events (process_step R cron submit closed late) es p = Some p' \<and> sp_ticks p' = []
    \<and> sp_timer p' = sp_timer p \<and> sp_closed p' = sp_closed p
    \<and> (case tick_loop R cron submit us clks now k (sp_store p) js of
         (s, x) \<Rightarrow> sp_store p' = s \<and> sp_rejections p' = sp_rejections p @ (case x of None \<Rightarrow> [] | Some e \<Rightarrow> [e]))"
  using assms
proof (induction js arbitrary: p k)
  case Nil
  then have "run_events (process_step R cron submit closed late) [TickDone] p = Some (tick_ends None p)" by simp
  with Nil show ?case by (intro exI [of _ "[TickDone]"] exI [of _ "tick_ends None p"]) (simp add: tick_ends_def)
next
  case (Cons j js)
  let ?step = "process_step R cron submit closed late"
  obtain s x where ex: "executeJob R cron submit (us k) (clks k) now (sp_store p) j = (s, x)" by fastforce
  show ?case
  proof (cases x)
    case None
    let ?p = "p\<lparr>sp_store := s, sp_ticks := [(now, Some js)]\<rparr>"
    have one: "?step (TickJob (us k) (clks k)) p = Some ?p" using Cons.prems ex None by (simp add: tick_job_def)
    from Cons.IH [of ?p "Suc k"] Cons.prems obtain es p' where
      "run_events ?step es ?p = Some p'" "sp_ticks p' = []" "sp_timer p' = sp_timer p" "sp_closed p' = sp_closed p"
      "case tick_loop R cron submit us clks now (Suc k) s js of
         (s, x) \<Rightarrow> sp_store p' = s \<and> sp_rejections p' = sp_rejections p @ (case x of None \<Rightarrow> [] | Some e \<Rightarrow> [e])"
      by auto
    with one ex None show ?thesis by (intro exI [of _ "TickJob (us k) (clks k) # es"] exI [of _ p']) simp
  next
    case (Some e)
    let ?p = "tick_ends (Some e) (p\<lparr>sp_store := s\<rparr>)"
    have "run_events ?step [TickJob (us k) (clks k)] p = Some ?p" using Cons.prems ex Some by (simp add: tick_job_def)
    with Cons.prems ex Some show ?thesis by (intro exI [of _ "[TickJob (us k) (clks k)]"] exI [of _ ?p]) (simp add: tick_ends_def)
  qed
qed

lemma tick_runs:
  assumes "\<not> sp_closed p" "sp_timer p" "sp_ticks p = []" "\<not> sp_inProgress p"
  shows "\<exists>es p'. run_events (process_step R cron submit closed late) es p = Some p' \<and> sp_ticks p' = [] \<and> sp_timer p' \<and> \<not> sp_closed p'
    \<and> (case tick R cron submit us clks now (sp_store p) of
         (s, x) \<Rightarrow> sp_store p' = s \<and> sp_rejections p' = sp_rejections p @ (case x of None \<Rightarrow> [] | Some e \<Rightarrow> [e]))"
proof -
  let ?step = "process_step R cron submit closed late"
  let ?p = "p\<lparr>sp_inProgress := True, sp_ticks := [(now, Some (jr_findDueJobs R now (sp_store p)))]\<rparr>"
  have start: "run_events ?step [TimerFires now, TickFinds] p = Some ?p"
    using assms by (simp add: timer_fires_def tick_finds_def)
  from tick_jobs_run [of ?p now "jr_findDueJobs R now (sp_store p)" R cron submit closed late us clks 0] assms
  obtain es p' where es: "run_events ?step es ?p = Some p'" and p': "sp_ticks p' = []" "sp_timer p'" "\<not> sp_closed p'"
      "case tick R cron submit us clks now (sp_store p) of
         (s, x) \<Rightarrow> sp_store p' = s \<and> sp_rejections p' = sp_rejections p @ (case x of None \<Rightarrow> [] | Some e \<Rightarrow> [e])"
    by (auto simp: tick_def)
  have "run_events ?step ([TimerFires now, TickFinds] @ es) p = Some p'" unfolding run_events_append start using es by simp
  with p' show ?thesis by (intro exI [of _ "[TimerFires now, TickFinds] @ es"] exI [of _ p']) simp
qed

text \<open>A submission over HTTP: the route, the guards and the reading of the reply.\<close>

lemma task_route: "rq_url req = ''/api/v1/tasks'' \<Longrightarrow> rq_method req = ''POST'' \<Longrightarrow> find_route req = Some (AgentRoute PostTask, [])"
proof -
  have "js_split CHR ''/'' (hd (js_split CHR ''?'' ''/api/v1/tasks'')) = [[], ''api'', ''v1'', ''tasks'']"
    and "first_match route_table ''POST'' [''api'', ''v1'', ''tasks''] = Some (AgentRoute PostTask, [])"
    by code_simp+
  then show "rq_url req = ''/api/v1/tasks'' \<Longrightarrow> rq_method req = ''POST'' \<Longrightarrow> find_route req = Some (AgentRoute PostTask, [])"
    by (simp add: find_route_def request_path_def)
qed

lemma task_not_public: "\<not> isPublicRoute ''/api/v1/tasks''"
  by code_simp

lemma post_task_guarded:
  assumes "\<forall>req. ge_limited ge req = None" and "rq_apiKey req = Some k"
  shows "guarded_handler ge hs (AgentRoute PostTask) g req =
    (if au_role k = RoleReadonly
     then (g, Plain (the (requireRoles writeRoles req)), None)
     else (let (sv, rep) = post_task (ge_schemas ge) (ge_environment ge) (ge_draws ge) (gw_service g) req
           in (g\<lparr>gw_service := sv\<rparr>, Plain rep, None)))"
    and "au_role k = RoleReadonly \<Longrightarrow> rp_status (the (requireRoles writeRoles req)) = 403"
  using assms
  by (cases "au_role k"; simp add: guarded_handler_def route_roles_def call_roles_def requireRoles_def writeRoles_def
      route_handler_def error_reply_def)+

lemma task_body_arrives: "rq_body (as_request ip path (task_http_request base key agentId input)) = Some (task_json agentId input)"
proof -
  have "json_parse (json_stringify (task_json agentId input)) = Some (task_json agentId input)"
    by (rule json_parse_stringify) (simp add: task_json_def)
  then show ?thesis by (simp add: as_request_def task_http_request_def)
qed

lemma json_ok_run_body: "json_ok (run_body r)"
  by (auto simp: run_body_def text_field_def split: option.splits)

lemma submission_read:
  assumes "fetch g (task_http_request base key agentId input) = (g', Inr ((as_response rep)\<lparr>hs_statusText := st\<rparr>))"
  shows "rp_status rep \<ge> 300 \<Longrightarrow> \<exists>m. TaskGatewayClient_submitTask fetch base key g agentId input = (g', Inl (Error m))"
    and "rp_status rep \<ge> 300 \<Longrightarrow> json_ok (rp_body rep) \<Longrightarrow> json_field (rp_body rep) ''message'' = Some (JStr m) \<Longrightarrow>
      TaskGatewayClient_submitTask fetch base key g agentId input = (g', Inl (Error m))"
    and "rp_status rep \<in> {200..299} \<Longrightarrow> json_ok (rp_body rep) \<Longrightarrow>
      TaskGatewayClient_submitTask fetch base key g agentId input = (g', Inr (rp_body rep))"
  using assms
  by (auto simp: TaskGatewayClient_submitTask_def response_ok_def response_json_def gateway_error_message_def as_response_def
      json_parse_stringify)

lemma submission_settles:
  assumes post: "post_task sc ev dr sv req = (sv', r)" and body: "rq_body req = Some (task_json agentId input)"
    and reply: "fetch g (task_http_request base key agentId input) = (g1, Inr ((as_response r)\<lparr>hs_statusText := st\<rparr>))"
    and go: "TaskGatewayClient_submitTask fetch base key g agentId input = (g', res)"
  shows "g' = g1 \<and> (case TaskSchema sc (Some (task_json agentId input)) of
      Inl is \<Rightarrow> sv' = sv \<and> res = Inl (Error ''Invalid task submission'')
    | Inr (a, x) \<Rightarrow>
        (case InMemoryAgentRepository_get (sv_store sv) a of
           None \<Rightarrow> sv' = sv \<and> res = Inl (Error (message (agent_not_found a)))
         | Some ag \<Rightarrow>
             (let run = new_run (dr_uuid dr) (dr_now dr) a x None
              in res = Inr (run_body run) \<and> run_get (sv_store sv') (dr_uuid dr) = Some run \<and> rn_status run = RunPending
               \<and> sv_threads sv' = sv_threads sv @ [TExec (dr_uuid dr) None (effects_of ev ag x [])])))"
proof -
  have failed: "g' = g1 \<and> res = Inl (Error m)"
    if "r = error_reply 404 e m \<or> r = validation_reply m is" for e m "is"
  proof -
    from that have "rp_status r \<ge> 300" "json_ok (rp_body r)" "json_field (rp_body r) ''message'' = Some (JStr m)"
      by (auto simp: error_reply_def validation_reply_def issue_details_def json_field_def)
    from submission_read(2) [where fetch = fetch, OF reply this] go show ?thesis by simp
  qed
  have done': "g' = g1 \<and> res = Inr (run_body run)" if "r = ok_reply 201 (run_body run)" for run
    using submission_read(3) [where fetch = fetch, OF reply] that go json_ok_run_body by (simp add: ok_reply_def)
  show ?thesis
  proof (cases "TaskSchema sc (Some (task_json agentId input))")
    case (Inl "is")
    with post body failed [of _ "''Invalid task submission''" "is"] show ?thesis by (auto simp: post_task_exact)
  next
    case (Inr ax)
    obtain a x where ax: "ax = (a, x)" by (cases ax)
    show ?thesis
    proof (cases "InMemoryAgentRepository_get (sv_store sv) a")
      case None
      with post body failed [of _ "message (agent_not_found a)"] Inr ax show ?thesis by (auto simp: post_task_exact)
    next
      case (Some ag)
      with post body Inr ax have "sv' = fst (submitTask ev (dr_uuid dr) (dr_now dr) sv a x)"
          "r = ok_reply 201 (run_body (new_run (dr_uuid dr) (dr_now dr) a x None))"
        by (simp_all add: post_task_exact)
      with done' submitTask_stores [OF Some] Inr ax Some show ?thesis by (simp add: Let_def new_run_def)
    qed
  qed
qed

section \<open>Properties\<close>



text \<open>
  C22. A job reaches the agent service through the gateway. When the scheduler's client submits a task and the
  transport carries the exchange, then without a valid key the gateway is unchanged and the client reports an
  error; with a read-only key the agent service is unchanged; with another key the task is validated, the
  agent looked up, and the client returns the run, which the gateway has stored as pending and whose
  execution it has started, once. Errors of the gateway come back with the gateway's message.
\<close>

theorem scheduler_submission:
  assumes "carries fetch ge hs ip (normalizeBaseUrl base)" and "\<forall>req. ge_limited ge req = None"
    and "TaskGatewayClient_submitTask fetch base key g agentId input = (g', res)"
  shows "case caller ge g (as_request ip ''/api/v1/tasks'' (task_http_request base key agentId input)) of
      None \<Rightarrow> g' = g \<and> (\<exists>m. res = Inl (Error m))
    | Some k \<Rightarrow>
        if au_role k = RoleReadonly then gw_service g' = gw_service g \<and> (\<exists>m. res = Inl (Error m))
        else (case TaskSchema (ge_schemas ge) (Some (task_json agentId input)) of
            Inl is \<Rightarrow> gw_service g' = gw_service g \<and> res = Inl (Error ''Invalid task submission'')
          | Inr (a, x) \<Rightarrow>
              (case InMemoryAgentRepository_get (sv_store (gw_service g)) a of
                 None \<Rightarrow> gw_service g' = gw_service g \<and> res = Inl (Error (message (agent_not_found a)))
               | Some ag \<Rightarrow>
                   (let u = dr_uuid (ge_draws ge); run = new_run u (dr_now (ge_draws ge)) a x None
                    in res = Inr (run_body run) \<and> run_get (sv_store (gw_service g')) u = Some run \<and> rn_status run = RunPending
                     \<and> sv_threads (gw_service g')
                         = sv_threads (gw_service g) @ [TExec u None (effects_of (ge_environment ge) ag x [])])))"
proof -
  let ?rq = "task_http_request base key agentId input"
  let ?req = "as_request ip ''/api/v1/tasks'' ?rq"
  have url: "hr_url ?rq = normalizeBaseUrl base @ ''/api/v1/tasks''" "CHR ''?'' \<notin> set ''/api/v1/tasks''"
    by (simp_all add: task_http_request_def)
  have route: "find_route ?req = Some (AgentRoute PostTask, [])"
    by (rule task_route) (simp_all add: as_request_def task_http_request_def)
  have guarded: "\<not> isPublicRoute (rq_url ?req)" using task_not_public by (simp add: as_request_def)
  have answer: "\<exists>st. fetch g ?rq = (g1, Inr ((as_response rep)\<lparr>hs_statusText := st\<rparr>))"
    if "gateway_request ge hs g ?req = Some (g1, Plain rep, None)" for g1 rep
    using assms(1) url that unfolding carries_def by blast
  obtain g1 rep event where run: "gateway_request ge hs g ?req = Some (g1, rep, event)"
    using gateway_answers [OF route] by (metis not_None_eq prod_cases3)
  from run route show ?thesis
  proof (cases rule: gateway_request_cases)
    case refused
    then obtain r where r: "rep = Plain r" "rp_status r = 401" by auto
    with run refused obtain st where "fetch g ?rq = (g, Inr ((as_response r)\<lparr>hs_statusText := st\<rparr>))" using answer by blast
    from submission_read(1) [where fetch = fetch, OF this] r assms(3) refused show ?thesis by auto
  next
    case (public g1)
    with guarded show ?thesis by simp
  next
    case (known k g2)
    let ?req' = "?req\<lparr>rq_id := [], rq_apiKey := Some k\<rparr>" and ?g = "g\<lparr>gw_keys := kr_updateLastUsed (ge_keyRepo ge) (ge_now ge) (gw_keys g) (au_id k)\<rparr>"
    have key: "rq_apiKey ?req' = Some k" and body: "rq_body ?req' = Some (task_json agentId input)"
      by (simp_all add: task_body_arrives)
    note guard = known(3) [unfolded post_task_guarded(1) [OF assms(2) key]]
    show ?thesis
    proof (cases "au_role k = RoleReadonly")
      case True
      with guard have r: "rep = Plain (the (requireRoles writeRoles ?req'))" "event = None" "gw_service g2 = gw_service g" by auto
      obtain st where "fetch g ?rq = (g1, Inr ((as_response (the (requireRoles writeRoles ?req')))\<lparr>hs_statusText := st\<rparr>))"
        using answer run r by blast
      from submission_read(1) [where fetch = fetch, OF this] post_task_guarded(2) [OF assms(2) key True] assms(3) r known(2,4) True
      show ?thesis by auto
    next
      case False
      obtain sv r where post: "post_task (ge_schemas ge) (ge_environment ge) (ge_draws ge) (gw_service g) ?req' = (sv, r)" by fastforce
      with guard False have r: "rep = Plain r" "event = None" "gw_service g2 = sv" by auto
      obtain st where reply: "fetch g ?rq = (g1, Inr ((as_response r)\<lparr>hs_statusText := st\<rparr>))" using answer run r by blast
      from submission_settles [OF post body reply assms(3)] r(3) known(2,4) False show ?thesis
        by (auto simp: Let_def split: sum.splits option.splits)
    qed
  qed
qed

definition demo_served :: "(ApiKeyRecord list, sched_db) gateway" where
  "demo_served = demo_gateway\<lparr>gw_keys := demo_rows,
     gw_service := service_init\<lparr>sv_store := fst (InMemoryAgentRepository_create ''a'' store_init demo_agent)\<rparr>\<rparr>"

theorem scheduler_submission_witness:
  "\<exists>g' run. TaskGatewayClient_submitTask (direct_fetch demo_gateway_env [] ''ip'' ''http://h'') ''http://h/'' (generateApiKey [])
       demo_served ''a'' ''go'' = (g', Inr (run_body run))
     \<and> run_get (sv_store (gw_service g')) ''u1'' = Some run \<and> rn_status run = RunPending"
proof -
  let ?go = "TaskGatewayClient_submitTask (direct_fetch demo_gateway_env [] ''ip'' ''http://h'') ''http://h/'' (generateApiKey [])
       demo_served ''a'' ''go''"
  have base: "normalizeBaseUrl ''http://h/'' = ''http://h''" by code_simp
  have carry: "carries (direct_fetch demo_gateway_env [] ''ip'' ''http://h'') demo_gateway_env [] ''ip'' (normalizeBaseUrl ''http://h/'')"
    unfolding base by (rule direct_fetch_carries)
  have free: "\<forall>req. ge_limited demo_gateway_env req = None" by (simp add: demo_gateway_env_def)
  have "map_option (\<lambda>k. au_role k = RoleReadonly) (caller demo_gateway_env demo_served
      (as_request ''ip'' ''/api/v1/tasks'' (task_http_request ''http://h/'' (generateApiKey []) ''a'' ''go''))) = Some False"
    by code_simp
  then obtain k where k: "caller demo_gateway_env demo_served
      (as_request ''ip'' ''/api/v1/tasks'' (task_http_request ''http://h/'' (generateApiKey []) ''a'' ''go'')) = Some k"
      "au_role k \<noteq> RoleReadonly" by auto
  have schema: "TaskSchema (ge_schemas demo_gateway_env) b = Inr (''a'', ''go'')" "dr_uuid (ge_draws demo_gateway_env) = ''u1''" for b
    by (simp_all add: demo_gateway_env_def demo_route_schemas_def demo_draws_def)
  have agent: "InMemoryAgentRepository_get (sv_store (gw_service demo_served)) ''a'' = Some (new_agent ''a'' demo_agent)"
    by (simp add: demo_served_def InMemoryAgentRepository_create_def InMemoryAgentRepository_get_def Let_def new_agent_def jm_get_set)
  obtain g' res where go: "?go = (g', res)" by fastforce
  from scheduler_submission [OF carry free go] k schema agent go show ?thesis by (auto simp: Let_def)
qed

end
