(* ===== verification/Web_Console.thy ===== *)
theory Web_Console
  imports Http_Transport
begin

text \<open>
  The logic of the web console below its pages: the API client (\<^verbatim>\<open>apps/web/src/api-client.ts\<close>), the stored key
  and the messages for failed requests (\<^verbatim>\<open>lib/auth-session.ts\<close>), the calls of the console (\<^verbatim>\<open>lib/api.ts\<close>,
  \<^verbatim>\<open>lib/approvals.ts\<close>), its locale (\<^verbatim>\<open>lib/locale.ts\<close>, \<^verbatim>\<open>lib/runtime-settings.ts\<close>) and the colours of states
  (\<^verbatim>\<open>lib/status.ts\<close>).

  The URL parser of the browser and \<^verbatim>\<open>URLSearchParams\<close> are arguments. The Chinese texts lie outside the
  characters of the model and are an argument too. The browser's storage is a map, or absent.
\<close>

section \<open>The stored key\<close>

definition API_KEY_STORAGE_KEY :: string where "API_KEY_STORAGE_KEY = ''senclaw.apiKey''"
definition API_KEY_HASH_PARAM :: string where "API_KEY_HASH_PARAM = ''gatewayApiKey''"

type_synonym StorageLike = "(string, string) jsmap"

definition normalizeApiKey :: "string option \<Rightarrow> string option" where
  "normalizeApiKey apiKey = (let trimmed = map_option js_trim apiKey in if js_truthy trimmed then trimmed else None)"

definition loadStoredApiKey :: "StorageLike option \<Rightarrow> string option" where
  "loadStoredApiKey storage = normalizeApiKey (Option.bind storage (\<lambda>m. jm_get m API_KEY_STORAGE_KEY))"

definition saveStoredApiKey :: "string \<Rightarrow> StorageLike option \<Rightarrow> StorageLike option \<times> string option" where
  "saveStoredApiKey apiKey storage =
     (let normalized = normalizeApiKey (Some apiKey)
      in case storage of
           None \<Rightarrow> (None, normalized)
         | Some m \<Rightarrow>
             (case normalized of
                Some k \<Rightarrow> (Some (jm_set m API_KEY_STORAGE_KEY k), Some k)
              | None \<Rightarrow> (Some (jm_delete m API_KEY_STORAGE_KEY), None)))"

definition importApiKeyFromHash ::
    "(string \<Rightarrow> string \<Rightarrow> string option) \<Rightarrow> string \<Rightarrow> StorageLike option \<Rightarrow> StorageLike option \<times> string option" where
  "importApiKeyFromHash searchParam hash storage =
     (let normalizedHash = (if js_startsWith hash ''#'' then drop 1 hash else hash)
      in case normalizeApiKey (searchParam normalizedHash API_KEY_HASH_PARAM) of
           None \<Rightarrow> (storage, None)
         | Some k \<Rightarrow> (map_option (\<lambda>m. jm_set m API_KEY_STORAGE_KEY k) storage, Some k))"

definition clearStoredApiKey :: "StorageLike option \<Rightarrow> StorageLike option" where
  "clearStoredApiKey storage = map_option (\<lambda>m. jm_delete m API_KEY_STORAGE_KEY) storage"

section \<open>The API client\<close>

record url =
  url_href :: string
  url_pathname :: string

text \<open>\<^verbatim>\<open>new URL(text, base)\<close>, or nothing where it throws.\<close>

type_synonym url_parser = "string \<Rightarrow> string \<Rightarrow> url option"

record RequestInit =
  ri_method :: "string option"
  ri_headers :: "(string, string) jsmap"
  ri_body :: "string option"

record CreateApiClientOptions =
  co_baseUrl :: "string option"
  co_apiKey :: "string option"
  co_storedKey :: "string option"

datatype console_error =
  MissingApiKeyError string
| ApiResponseError int string string "json option"
| OtherError exn
| NotAnError

definition missing_key_text :: string where
  "missing_key_text = ''Configure a gateway API key in the web console before calling protected endpoints.''"

definition absolute_url :: "string \<Rightarrow> bool" where
  "absolute_url path \<longleftrightarrow> js_startsWith path ''http://'' \<or> js_startsWith path ''https://''"

definition resolveRequestUrl :: "url_parser \<Rightarrow> string \<Rightarrow> string option \<Rightarrow> string result" where
  "resolveRequestUrl newURL path baseUrl =
     (if absolute_url path \<or> \<not> js_truthy baseUrl then Inr path
      else (let base = the baseUrl;
                normalizedBaseUrl = (if js_endsWith base ''/'' then base else base @ ''/'')
            in case newURL (if js_startsWith path ''/'' then drop 1 path else path) normalizedBaseUrl of
                 None \<Rightarrow> Inl (Error ''Invalid URL'')
               | Some u \<Rightarrow> Inr (url_href u)))"

definition isProtectedApiPath :: "url_parser \<Rightarrow> string \<Rightarrow> bool" where
  "isProtectedApiPath newURL path =
     (let p = (case newURL path ''http://senclaw.local'' of Some u \<Rightarrow> url_pathname u | None \<Rightarrow> path)
      in js_startsWith p ''/api/v1/'' \<or> js_startsWith p ''/api/runtime/approvals'')"

definition console_resolveApiKey :: "CreateApiClientOptions \<Rightarrow> string option" where
  "console_resolveApiKey opts =
     (let dynamic = map_option js_trim (co_storedKey opts); static = map_option js_trim (co_apiKey opts)
      in if js_truthy dynamic then dynamic else if js_truthy static then static else None)"

definition console_headers :: "bool \<Rightarrow> string option \<Rightarrow> RequestInit \<Rightarrow> (string, string) jsmap" where
  "console_headers protected apiKey init =
     (let h1 = jm_set (ri_headers init) ''accept'' ''application/json'';
          h2 = (if ri_body init \<noteq> None \<and> jm_get h1 ''content-type'' = None
                then jm_set h1 ''content-type'' ''application/json'' else h1)
      in if protected then jm_set h2 ''authorization'' (''Bearer '' @ the apiKey) else h2)"

definition console_answer :: "http_response \<Rightarrow> console_error + json option" where
  "console_answer r =
     (if \<not> response_ok r then
        (let payload = (case response_json r of Inr j \<Rightarrow> Some j | Inl _ \<Rightarrow> None);
             e = parseApiErrorPayload payload (hs_statusText r)
         in Inl (ApiResponseError (hs_status r) (pe_code e) (pe_message e) (pe_details e)))
      else if hs_status r = 204 then Inr None
      else if js_includes (js_or (hs_contentType r) []) ''application/json'' then
        (case response_json r of Inl e \<Rightarrow> Inl (OtherError e) | Inr j \<Rightarrow> Inr (Some j))
      else Inr (if hs_text r = [] then None else Some (JStr (hs_text r))))"

definition console_request ::
    "url_parser \<Rightarrow> 'w fetch \<Rightarrow> CreateApiClientOptions \<Rightarrow> 'w \<Rightarrow> string \<Rightarrow> RequestInit \<Rightarrow> 'w \<times> (console_error + json option)" where
  "console_request newURL fetch opts w path init =
     (let protected = isProtectedApiPath newURL path; apiKey = console_resolveApiKey opts
      in if protected \<and> apiKey = None then (w, Inl (MissingApiKeyError missing_key_text))
         else (case resolveRequestUrl newURL path (co_baseUrl opts) of
                 Inl e \<Rightarrow> (w, Inl (OtherError e))
               | Inr target \<Rightarrow>
                   (case fetch w \<lparr>hr_method = js_or (ri_method init) ''GET'', hr_url = target,
                                  hr_headers = console_headers protected apiKey init, hr_body = ri_body init\<rparr> of
                      (w', Inl e) \<Rightarrow> (w', Inl (OtherError e))
                    | (w', Inr r) \<Rightarrow> (w', console_answer r))))"

section \<open>The calls of the console\<close>

datatype console_call =
  AgentList | AgentGet ident | AgentCreate json | AgentDelete ident | TaskSubmit json
| BackgroundCreate json | TaskList | TaskGet ident | TaskMessages ident | TaskSend ident json | TaskResume ident
| RunGet ident | RunList | RunMessages ident | HealthCheckCall
| ApprovalList | ApprovalApprove ident | ApprovalReject ident "string option"

definition get_init :: RequestInit where
  "get_init = \<lparr>ri_method = None, ri_headers = [], ri_body = None\<rparr>"

definition post_init :: "json option \<Rightarrow> RequestInit" where
  "post_init body = \<lparr>ri_method = Some ''POST'', ri_headers = [], ri_body = map_option json_stringify body\<rparr>"

fun console_call_request :: "console_call \<Rightarrow> string \<times> RequestInit" where
  "console_call_request AgentList = (''/api/v1/agents'', get_init)"
| "console_call_request (AgentGet i) = (''/api/v1/agents/'' @ i, get_init)"
| "console_call_request (AgentCreate d) = (''/api/v1/agents'', post_init (Some d))"
| "console_call_request (AgentDelete i) = (''/api/v1/agents/'' @ i, get_init\<lparr>ri_method := Some ''DELETE''\<rparr>)"
| "console_call_request (TaskSubmit d) = (''/api/v1/tasks'', post_init (Some d))"
| "console_call_request (BackgroundCreate d) = (''/api/v1/agent-tasks/background'', post_init (Some d))"
| "console_call_request TaskList = (''/api/v1/agent-tasks'', get_init)"
| "console_call_request (TaskGet i) = (''/api/v1/agent-tasks/'' @ i, get_init)"
| "console_call_request (TaskMessages i) = (''/api/v1/agent-tasks/'' @ i @ ''/messages'', get_init)"
| "console_call_request (TaskSend i d) = (''/api/v1/agent-tasks/'' @ i @ ''/messages'', post_init (Some d))"
| "console_call_request (TaskResume i) = (''/api/v1/agent-tasks/'' @ i @ ''/resume'', post_init None)"
| "console_call_request (RunGet i) = (''/api/v1/runs/'' @ i, get_init)"
| "console_call_request RunList = (''/api/v1/runs'', get_init)"
| "console_call_request (RunMessages i) = (''/api/v1/runs/'' @ i @ ''/messages'', get_init)"
| "console_call_request HealthCheckCall = (''/api/runtime/health'', get_init)"
| "console_call_request ApprovalList = (''/api/runtime/approvals'', get_init)"
| "console_call_request (ApprovalApprove i) = (''/api/runtime/approvals/'' @ i @ ''/approve'', post_init None)"
| "console_call_request (ApprovalReject i comment) =
     (''/api/runtime/approvals/'' @ i @ ''/reject'',
      post_init (Some (JObj (if js_truthy comment then [(''comment'', JStr (the comment))] else []))))"

definition console_run_call ::
    "url_parser \<Rightarrow> 'w fetch \<Rightarrow> StorageLike option \<Rightarrow> 'w \<Rightarrow> console_call \<Rightarrow> 'w \<times> (console_error + json option)" where
  "console_run_call newURL fetch storage w c =
     (let (path, init) = console_call_request c
      in console_request newURL fetch \<lparr>co_baseUrl = None, co_apiKey = None, co_storedKey = loadStoredApiKey storage\<rparr> w path init)"

section \<open>Messages, locale and colours\<close>

record ConsoleErrorState =
  ce_title :: string
  ce_message :: string

text \<open>The Chinese texts, in the order of the source.\<close>

record zh_texts =
  zh_missing :: ConsoleErrorState
  zh_rejected :: ConsoleErrorState
  zh_forbidden :: ConsoleErrorState
  zh_failed :: string
  zh_unknown :: string

definition describeConsoleError :: "zh_texts \<Rightarrow> console_error \<Rightarrow> ConsoleLocale \<Rightarrow> ConsoleErrorState" where
  "describeConsoleError zh e loc =
     (let isZh = (loc = LocaleZhCN);
          failed = (\<lambda>m. \<lparr>ce_title = (if isZh then zh_failed zh else ''Request failed''), ce_message = m\<rparr>)
      in case e of
           MissingApiKeyError _ \<Rightarrow>
             if isZh then zh_missing zh
             else \<lparr>ce_title = ''API key required'',
                   ce_message = ''Configure a gateway API key in the header before using protected console operations.''\<rparr>
         | ApiResponseError st code m d \<Rightarrow>
             if st = 401 then
               (if isZh then zh_rejected zh
                else \<lparr>ce_title = ''Authentication failed'',
                      ce_message = ''The configured API key was rejected by the gateway. Update the key and retry the request.''\<rparr>)
             else if st = 403 then
               (if isZh then zh_forbidden zh
                else \<lparr>ce_title = ''Not enough permissions'',
                      ce_message = ''The configured API key does not have permission for this action. Use a key with the required role and retry.''\<rparr>)
             else failed m
         | OtherError x \<Rightarrow> failed (message x)
         | NotAnError \<Rightarrow> failed (if isZh then zh_unknown zh else ''An unexpected error occurred while talking to the gateway.''))"

definition CONSOLE_LOCALE_STORAGE_KEY :: string where "CONSOLE_LOCALE_STORAGE_KEY = ''senclaw.locale''"

definition normalizeLocale :: "string option \<Rightarrow> ConsoleLocale" where
  "normalizeLocale v = (if v = Some ''zh-CN'' then LocaleZhCN else LocaleEn)"

definition loadStoredLocale :: "StorageLike option \<Rightarrow> ConsoleLocale" where
  "loadStoredLocale storage = normalizeLocale (Option.bind storage (\<lambda>m. jm_get m CONSOLE_LOCALE_STORAGE_KEY))"

definition saveStoredLocale :: "ConsoleLocale \<Rightarrow> StorageLike option \<Rightarrow> StorageLike option \<times> ConsoleLocale" where
  "saveStoredLocale loc storage =
     (let normalized = normalizeLocale (Some (locale_text loc))
      in (map_option (\<lambda>m. jm_set m CONSOLE_LOCALE_STORAGE_KEY (locale_text normalized)) storage, normalized))"

definition locale_answer :: "string \<Rightarrow> http_response \<Rightarrow> ConsoleLocale result" where
  "locale_answer doing r =
     (if \<not> response_ok r then Inl (Error (''Failed to '' @ doing @ '' runtime locale: '' @ show_int (hs_status r)))
      else (case response_json r of
              Inl e \<Rightarrow> Inl e
            | Inr JNull \<Rightarrow> Inl (Error ''TypeError'')
            | Inr j \<Rightarrow> Inr (normalizeLocale (case json_field j ''locale'' of Some (JStr s) \<Rightarrow> Some s | _ \<Rightarrow> None))))"

definition loadRuntimeLocale :: "'w fetch \<Rightarrow> 'w \<Rightarrow> 'w \<times> ConsoleLocale result" where
  "loadRuntimeLocale fetch w =
     (case fetch w \<lparr>hr_method = ''GET'', hr_url = ''/api/runtime/settings'', hr_headers = [(''accept'', ''application/json'')],
                    hr_body = None\<rparr> of
        (w', Inl e) \<Rightarrow> (w', Inl e)
      | (w', Inr r) \<Rightarrow> (w', locale_answer ''load'' r))"

definition saveRuntimeLocale :: "'w fetch \<Rightarrow> 'w \<Rightarrow> ConsoleLocale \<Rightarrow> 'w \<times> ConsoleLocale result" where
  "saveRuntimeLocale fetch w loc =
     (case fetch w \<lparr>hr_method = ''PUT'', hr_url = ''/api/runtime/settings'',
                    hr_headers = [(''accept'', ''application/json''), (''content-type'', ''application/json'')],
                    hr_body = Some (json_stringify (JObj [(''locale'', JStr (locale_text loc))]))\<rparr> of
        (w', Inl e) \<Rightarrow> (w', Inl e)
      | (w', Inr r) \<Rightarrow> (w', locale_answer ''save'' r))"

datatype StatusBadgeVariant = BadgeDefault | BadgeSuccess | BadgeWarning | BadgeDanger

definition getRunStatusVariant :: "RunStatus \<Rightarrow> StatusBadgeVariant" where
  "getRunStatusVariant s =
     (case s of RunCompleted \<Rightarrow> BadgeSuccess | RunRunning \<Rightarrow> BadgeWarning | RunFailed \<Rightarrow> BadgeDanger | _ \<Rightarrow> BadgeDefault)"

definition getAgentTaskStatusVariant :: "AgentTaskStatus \<Rightarrow> StatusBadgeVariant" where
  "getAgentTaskStatusVariant s =
     (case s of TaskCompleted \<Rightarrow> BadgeSuccess | TaskRunning \<Rightarrow> BadgeWarning | TaskFailed \<Rightarrow> BadgeDanger
      | TaskKilled \<Rightarrow> BadgeDanger | _ \<Rightarrow> BadgeDefault)"

definition getHealthStatusVariant :: "string \<Rightarrow> StatusBadgeVariant" where
  "getHealthStatusVariant s =
     (if s = ''healthy'' then BadgeSuccess else if s = ''degraded'' then BadgeWarning
      else if s = ''unhealthy'' then BadgeDanger else BadgeDefault)"

section \<open>Lemmas\<close>

text \<open>What a request of the console sends.\<close>

lemma console_headers_authorization:
  "jm_get (console_headers protected key init) ''authorization''
     = (if protected then Some (''Bearer '' @ the key) else jm_get (ri_headers init) ''authorization'')"
  by (simp add: console_headers_def Let_def jm_get_set)

definition console_sent :: "string \<Rightarrow> RequestInit \<Rightarrow> string \<Rightarrow> http_request" where
  "console_sent path init key = \<lparr>hr_method = js_or (ri_method init) ''GET'', hr_url = path,
     hr_headers = console_headers True (Some key) init, hr_body = ri_body init\<rparr>"

lemma console_stored_key:
  "console_resolveApiKey \<lparr>co_baseUrl = b, co_apiKey = None, co_storedKey = loadStoredApiKey storage\<rparr> = loadStoredApiKey storage"
  by (auto simp: console_resolveApiKey_def loadStoredApiKey_def normalizeApiKey_def Let_def map_option_case split: option.splits)

lemma console_call_protected:
  assumes "console_call_request c = (path, init)" and "c \<noteq> HealthCheckCall" and "CHR ''?'' \<notin> set path"
  shows "js_startsWith path ''/api/v1/'' \<or> js_startsWith path ''/api/runtime/approvals''" and "\<not> isPublicRoute path"
proof -
  show start: "js_startsWith path ''/api/v1/'' \<or> js_startsWith path ''/api/runtime/approvals''"
    using assms(1,2) by (cases c) (auto simp: js_startsWith_prefix)
  have "hd (js_split CHR ''?'' path) = path" using js_split_noop [OF assms(3)] by simp
  with start show "\<not> isPublicRoute path" by (auto simp: isPublicRoute_def js_startsWith_prefix prefix_def)
qed

lemma console_call_sent:
  assumes "console_call_request c = (path, init)" and "c \<noteq> HealthCheckCall"
    and "newURL path ''http://senclaw.local'' = Some u" and "url_pathname u = path"
  shows "console_run_call newURL fetch storage g c =
    (case loadStoredApiKey storage of
       None \<Rightarrow> (g, Inl (MissingApiKeyError missing_key_text))
     | Some key \<Rightarrow> (case fetch g (console_sent path init key) of
                     (w', Inl e) \<Rightarrow> (w', Inl (OtherError e)) | (w', Inr r) \<Rightarrow> (w', console_answer r)))"
proof -
  have "js_startsWith path ''/api/v1/'' \<or> js_startsWith path ''/api/runtime/approvals''"
    using assms(1,2) by (cases c) (auto simp: js_startsWith_prefix)
  then have "isProtectedApiPath newURL path" using assms(3,4) by (simp add: isProtectedApiPath_def Let_def)
  then show ?thesis
    unfolding console_run_call_def console_request_def console_stored_key assms(1)
    by (simp add: resolveRequestUrl_def console_sent_def Let_def split: option.split)
qed

lemma requireRoles_403:
  "rq_apiKey req = Some k \<Longrightarrow> au_role k \<notin> set roles \<Longrightarrow> \<exists>x. requireRoles roles req = Some x \<and> rp_status x = 403"
  by (simp add: requireRoles_def error_reply_def)

lemma console_titles:
  "ce_title (describeConsoleError zh (MissingApiKeyError m) LocaleEn) = ''API key required''"
  "ce_title (describeConsoleError zh (ApiResponseError 401 code m d) LocaleEn) = ''Authentication failed''"
  "ce_title (describeConsoleError zh (ApiResponseError 403 code m d) LocaleEn) = ''Not enough permissions''"
  by (simp_all add: describeConsoleError_def)

lemma find_route_cong: "rq_url a = rq_url b \<Longrightarrow> rq_method a = rq_method b \<Longrightarrow> find_route a = find_route b"
  by (simp only: find_route_def request_path_def)

text \<open>The settings routes need no key.\<close>

lemma gateway_public:
  assumes "isPublicRoute (rq_url req)" and "find_route req = Some (r, i)" and "route_roles r = None"
  shows "gateway_request ge hs g req = Some (route_handler ge hs r g (req\<lparr>rq_id := i, rq_apiKey := None\<rparr>))"
  using assms by (simp add: gateway_request_def authPreHandler_def guarded_handler_def authOnResponse_def split: prod.split)

lemma settings_no_query: "CHR ''?'' \<notin> set ''/api/runtime/settings''"
  by simp

lemma gateway_settings:
  assumes "rq_url req = ''/api/runtime/settings''"
  shows "rq_method req = ''GET'' \<Longrightarrow> gateway_request ge hs g req = Some (g, Plain (get_settings (ge_settings ge) (gw_files g)), None)"
    and "rq_method req = ''PUT'' \<Longrightarrow> gateway_request ge hs g req =
      (let (fs, rep) = put_settings (ge_locale ge) (ge_settings ge) (gw_files g) req in Some (g\<lparr>gw_files := fs\<rparr>, Plain rep, None))"
proof -
  have "js_split CHR ''/'' (request_path req) = [[], ''api'', ''runtime'', ''settings'']"
  proof -
    have "js_split CHR ''/'' (hd (js_split CHR ''?'' ''/api/runtime/settings'')) = [[], ''api'', ''runtime'', ''settings'']" by code_simp
    then show ?thesis using assms by (simp add: request_path_def)
  qed
  then have route: "find_route req = (if rq_method req = ''GET'' then Some (GetSettings, [])
      else if rq_method req = ''PUT'' then Some (PutSettings, []) else None)"
    by (simp add: find_route_def match_public_paths)
  have public: "isPublicRoute (rq_url req)"
  proof -
    have "isPublicRoute ''/api/runtime/settings''" by code_simp
    then show ?thesis using assms by simp
  qed
  show "gateway_request ge hs g req = Some (g, Plain (get_settings (ge_settings ge) (gw_files g)), None)" if "rq_method req = ''GET''"
    using gateway_public [OF public, of GetSettings "[]" ge hs g] route that by (simp add: route_roles_def route_handler_def)
  have "put_settings sch st fs (req\<lparr>rq_id := i, rq_apiKey := a\<rparr>) = put_settings sch st fs req" for sch st fs i a
    by (simp add: put_settings_def)
  then show "gateway_request ge hs g req =
      (let (fs, rep) = put_settings (ge_locale ge) (ge_settings ge) (gw_files g) req in Some (g\<lparr>gw_files := fs\<rparr>, Plain rep, None))"
    if "rq_method req = ''PUT''"
    using gateway_public [OF public, of PutSettings "[]" ge hs g] route that
    by (simp add: route_roles_def route_handler_def split: prod.split)
qed

lemma settings_saved:
  assumes "\<forall>s. ss_schema st (settings_json s) = Inr s" and "\<forall>f. ss_readable st f = Inr ()" and "\<forall>f. ss_writable st f = Inr ()"
  shows "\<exists>fs'. settings_update st fs (Some loc) = (fs', Inr \<lparr>rs_locale = loc\<rparr>) \<and> settings_get st fs' = \<lparr>rs_locale = loc\<rparr>"
  using assms
  by (simp add: settings_update_def settings_get_def writeRuntimeSettings_def readRuntimeSettings_def read_json_def jm_get_set
      settings_parse Let_def)

lemma locale_answer_settings:
  "locale_answer doing ((as_response (ok_reply 200 (settings_body \<lparr>rs_locale = loc\<rparr>)))\<lparr>hs_statusText := st\<rparr>) = Inr loc"
proof -
  have "json_parse (json_stringify (settings_body \<lparr>rs_locale = loc\<rparr>)) = Some (settings_body \<lparr>rs_locale = loc\<rparr>)"
    by (rule json_parse_stringify) (simp add: settings_body_def)
  then show ?thesis
    by (cases loc) (simp_all add: locale_answer_def response_ok_def response_json_def as_response_def ok_reply_def
        settings_body_def json_field_def normalizeLocale_def locale_text_def)
qed

definition known_pattern :: "segment list \<Rightarrow> bool" where
  "known_pattern ps \<longleftrightarrow> take 2 ps = map Lit [''api'', ''v1''] \<and> 2 < length ps
     \<or> take 3 ps = map Lit [''api'', ''runtime'', ''approvals''] \<or> ps = [Lit ''webhooks'', Param]
     \<or> list_ex (\<lambda>p. ps = map Lit p \<or> ps = map Lit p @ [Lit []])
         [[''health''], [''api'', ''runtime'', ''health''], [''api'', ''runtime'', ''settings'']]"

lemma known_patterns: "list_all (\<lambda>(m, ps, r). known_pattern ps) route_table"
  by code_simp

lemma route_patterns:
  assumes "(m, ps, r) \<in> set route_table"
  obtains (v1) x q where "ps = map Lit [''api'', ''v1''] @ x # q"
  | (approvals) q where "ps = map Lit [''api'', ''runtime'', ''approvals''] @ q"
  | (webhook) "ps = map Lit [''webhooks''] @ [Param]"
  | (fixed) p where "p \<in> set [[''health''], [''api'', ''runtime'', ''health''], [''api'', ''runtime'', ''settings'']]"
      "ps = map Lit p @ [] \<or> ps = map Lit p @ [Lit []]"
proof -
  have two: "ps = take 2 ps @ ps ! 2 # drop 3 ps" if "2 < length ps"
    using that id_take_nth_drop [of 2 ps] by (simp add: numeral_3_eq_3)
  have three: "ps = take 3 ps @ drop 3 ps" by simp
  from assms known_patterns have "known_pattern ps" by (auto simp: list_all_iff)
  then consider "take 2 ps = map Lit [''api'', ''v1'']" "2 < length ps"
    | "take 3 ps = map Lit [''api'', ''runtime'', ''approvals'']" | "ps = [Lit ''webhooks'', Param]"
    | "list_ex (\<lambda>p. ps = map Lit p \<or> ps = map Lit p @ [Lit []])
         [[''health''], [''api'', ''runtime'', ''health''], [''api'', ''runtime'', ''settings'']]"
    unfolding known_pattern_def by blast
  then show thesis
  proof cases
    case 1
    with two v1 show thesis by metis
  next
    case 2
    with three approvals show thesis by metis
  next
    case 3
    with webhook show thesis by simp
  next
    case 4
    with fixed show thesis unfolding list_ex_iff by fastforce
  qed
qed

lemma first_match_in: "first_match rs m ss = Some (r, i) \<Longrightarrow> \<exists>ps. (m, ps, r) \<in> set rs \<and> match_segments ps ss [] = Some i"
  by (induction rs m ss rule: first_match.induct) (auto split: if_splits option.splits)

lemma match_Lit: "match_segments (Lit l # ps) ss i = Some j \<Longrightarrow> \<exists>ss'. ss = l # ss' \<and> match_segments ps ss' i = Some j"
  by (cases ss) (auto split: if_splits)

lemma match_lits: "match_segments (map Lit p @ ps) ss i = Some j \<Longrightarrow> \<exists>ss'. ss = p @ ss' \<and> match_segments ps ss' i = Some j"
proof (induction p arbitrary: ss)
  case (Cons l p)
  then obtain ss1 where "ss = l # ss1" "match_segments (map Lit p @ ps) ss1 i = Some j" using match_Lit by force
  with Cons.IH show ?case by fastforce
qed simp

lemma match_Nil: "match_segments [] ss i = Some j \<Longrightarrow> ss = []"
  by (cases ss) auto

lemma match_Cons: "match_segments (x # ps) ss i = Some j \<Longrightarrow> \<exists>s ss'. ss = s # ss'"
  by (cases ss; cases x) auto

text \<open>The paths the gateway answers.\<close>

lemma routed_paths:
  assumes "find_route req = Some (r, i)"
  obtains (v1) t where "request_path req = ''/api/v1/'' @ t"
  | (approvals) t where "request_path req = ''/api/runtime/approvals'' @ t"
  | (webhook) t where "request_path req = ''/webhooks/'' @ t"
  | (fixed) "request_path req \<in> {''/health'', ''/health/'', ''/api/runtime/health'', ''/api/runtime/health/'',
      ''/api/runtime/settings'', ''/api/runtime/settings/''}"
proof -
  from assms obtain ss where ss: "js_split CHR ''/'' (request_path req) = [] # ss"
    and fm: "first_match route_table (rq_method req) ss = Some (r, i)"
    by (auto simp: find_route_def split: list.splits)
  have path: "request_path req = js_join ''/'' ([] # ss)" using js_join_split [of "CHR ''/''" "request_path req"] ss by simp
  from first_match_in [OF fm] obtain ps where ps: "(rq_method req, ps, r) \<in> set route_table" "match_segments ps ss [] = Some i" by blast
  from ps(1) show thesis
  proof (cases rule: route_patterns)
    case v1: (v1 x q)
    then obtain s ss' where "ss = [''api'', ''v1''] @ s # ss'" using ps(2) match_lits match_Cons by metis
    then show thesis using path by (intro that(1) [of "js_join ''/'' (s # ss')"]) simp
  next
    case (approvals q)
    then obtain ss' where "ss = [''api'', ''runtime'', ''approvals''] @ ss'" using ps(2) match_lits by blast
    then show thesis using path
      by (cases ss') (auto intro: that(2) [of "[]"] that(2) [of "CHR ''/'' # js_join ''/'' ss'"])
  next
    case webhook
    then obtain s ss' where "ss = [''webhooks''] @ s # ss'" using ps(2) match_lits match_Cons by metis
    then show thesis using path by (intro that(3) [of "js_join ''/'' (s # ss')"]) simp
  next
    case (fixed p)
    have "ss = p \<or> ss = p @ [[]]" using fixed(2)
    proof
      assume "ps = map Lit p @ []"
      with ps(2) match_lits match_Nil show ?thesis by (metis append_Nil2)
    next
      assume "ps = map Lit p @ [Lit []]"
      with ps(2) match_lits match_Lit match_Nil show ?thesis by metis
    qed
    then have "request_path req = js_join ''/'' ([] # p) \<or> request_path req = js_join ''/'' ([] # p @ [[]])" using path by auto
    moreover have "list_all (\<lambda>p. \<forall>t \<in> set [js_join ''/'' ([] # p), js_join ''/'' ([] # p @ [[]])]. t \<in> set [''/health'', ''/health/'', ''/api/runtime/health'', ''/api/runtime/health/'',
      ''/api/runtime/settings'', ''/api/runtime/settings/'']) [[''health''], [''api'', ''runtime'', ''health''], [''api'', ''runtime'', ''settings'']]"
      by code_simp
    ultimately have "request_path req \<in> set [''/health'', ''/health/'', ''/api/runtime/health'', ''/api/runtime/health/'',
      ''/api/runtime/settings'', ''/api/runtime/settings/'']"
      using fixed(1) unfolding list_all_iff by fastforce
    then show thesis by (intro that(4)) simp
  qed
qed

section \<open>Properties\<close>

text \<open>
  C39. The console and the gateway agree on what is protected. On every address the gateway answers, the console
  attaches the key exactly when the gateway asks for one, except that it takes the addresses of the health and
  settings routes with a slash at the end for public, which the gateway does not.
\<close>

theorem console_protection_agrees:
  assumes "find_route req = Some (r, i)"
    and "newURL (rq_url req) ''http://senclaw.local'' = Some u" and "url_pathname u = request_path req"
  shows "isProtectedApiPath newURL (rq_url req) \<longleftrightarrow>
     \<not> isPublicRoute (rq_url req) \<and> request_path req \<notin> {''/health/'', ''/api/runtime/health/'', ''/api/runtime/settings/''}"
proof -
  have client: "isProtectedApiPath newURL (rq_url req) \<longleftrightarrow>
      js_startsWith (request_path req) ''/api/v1/'' \<or> js_startsWith (request_path req) ''/api/runtime/approvals''"
    using assms(2,3) by (simp add: isProtectedApiPath_def Let_def)
  have server: "isPublicRoute (rq_url req) \<longleftrightarrow> request_path req \<in> {''/health'', ''/api/runtime/health'', ''/metrics'', ''/api/runtime/settings''}
      \<or> js_startsWith (request_path req) ''/webhooks/''"
    by (simp add: isPublicRoute_def request_path_def Let_def)
  from assms(1) show ?thesis
  proof (cases rule: routed_paths)
    case fixed
    then show ?thesis unfolding client server by (elim insertE emptyE) simp_all
  qed (simp_all add: client server js_startsWith_prefix)
qed

theorem console_protection_agrees_witness:
  "isProtectedApiPath (\<lambda>p b. Some \<lparr>url_href = p, url_pathname = p\<rparr>) (rq_url demo_delete) \<longleftrightarrow>
     \<not> isPublicRoute (rq_url demo_delete)"
proof -
  have "find_route demo_delete = Some (ConnectorRoute DeleteConnector, ''c1'')" "request_path demo_delete = ''/api/v1/connectors/c1''"
    "rq_url demo_delete = ''/api/v1/connectors/c1''" by code_simp+
  with console_protection_agrees [of demo_delete _ _ "\<lambda>p b. Some \<lparr>url_href = p, url_pathname = p\<rparr>"] show ?thesis by simp
qed

text \<open>
  A refused call of the console changes nothing and says why. Without a stored key a protected call is not
  sent at all and the message asks for a key; a key the gateway does not know leaves the gateway as it was and the
  message says that authentication failed; a key without the role of the route leaves everything but its
  own last use and the audit log as it was, and the message says that permissions are missing.
\<close>

theorem console_refusals_reported:
  assumes "carries fetch ge hs ip []" and "console_call_request c = (path, init)" and "CHR ''?'' \<notin> set path"
    and "c \<noteq> HealthCheckCall" and "newURL path ''http://senclaw.local'' = Some u" and "url_pathname u = path"
    and "console_run_call newURL fetch storage g c = (g', res)"
    and "find_route (as_request ip path (console_sent path init key)) = Some (r, i)"
  shows "case loadStoredApiKey storage of
      None \<Rightarrow> g' = g \<and> (\<exists>e. res = Inl e \<and> ce_title (describeConsoleError zh e LocaleEn) = ''API key required'')
    | Some stored \<Rightarrow>
        (case caller ge g (as_request ip path (console_sent path init stored)) of
           None \<Rightarrow> g' = g \<and> (\<exists>e. res = Inl e \<and> ce_title (describeConsoleError zh e LocaleEn) = ''Authentication failed'')
         | Some k \<Rightarrow>
             (case route_roles r of
                None \<Rightarrow> True
              | Some roles \<Rightarrow>
                  if au_role k \<in> set roles then True
                  else g' = g\<lparr>gw_keys := gw_keys g', gw_audit := gw_audit g'\<rparr>
                    \<and> (\<exists>e. res = Inl e \<and> ce_title (describeConsoleError zh e LocaleEn) = ''Not enough permissions'')))"
proof (cases "loadStoredApiKey storage")
  case None
  with assms(7) console_call_sent [where newURL = newURL and fetch = fetch and storage = storage and g = g, OF assms(2,4,5,6)] show ?thesis by (auto simp: console_titles)
next
  case (Some stored)
  let ?rq = "console_sent path init stored"
  let ?req = "as_request ip path ?rq"
  have route: "find_route ?req = Some (r, i)"
    using assms(8) find_route_cong [of ?req "as_request ip path (console_sent path init key)"]
    by (simp add: as_request_def console_sent_def)
  have go: "(g', res) = (case fetch g ?rq of (w', Inl e) \<Rightarrow> (w', Inl (OtherError e)) | (w', Inr r) \<Rightarrow> (w', console_answer r))"
    using assms(7) console_call_sent [where newURL = newURL and fetch = fetch and storage = storage and g = g, OF assms(2,4,5,6)] Some by simp
  have answer: "g' = g1 \<and> (\<exists>code m d. res = Inl (ApiResponseError (rp_status rep) code m d))"
    if "gateway_request ge hs g ?req = Some (g1, Plain rep, None)" "rp_status rep \<ge> 300" for g1 rep
  proof -
    from assms(1,3) that(1) obtain st where "fetch g ?rq = (g1, Inr ((as_response rep)\<lparr>hs_statusText := st\<rparr>))"
      unfolding carries_def console_sent_def by (metis append_Nil http_request.select_convs(2))
    with go that(2) show ?thesis by (simp add: console_answer_def response_ok_def as_response_def Let_def)
  qed
  obtain g1 rep event where run: "gateway_request ge hs g ?req = Some (g1, rep, event)"
    using gateway_answers [OF route] by (metis not_None_eq prod_cases3)
  from run route show ?thesis
  proof (cases rule: gateway_request_cases)
    case refused
    then obtain x where x: "rep = Plain x" "rp_status x = 401" by auto
    from answer [of g1 x] run refused x Some show ?thesis by (auto simp: console_titles)
  next
    case (public g2)
    with console_call_protected(2) [OF assms(2,4,3)] show ?thesis by (simp add: as_request_def)
  next
    case (known k g2)
    show ?thesis
    proof (cases "\<exists>roles. route_roles r = Some roles \<and> au_role k \<notin> set roles")
      case True
      then obtain roles where roles: "route_roles r = Some roles" "au_role k \<notin> set roles" by blast
      then obtain x where x: "requireRoles roles (?req\<lparr>rq_id := i, rq_apiKey := Some k\<rparr>) = Some x" "rp_status x = 403"
        using requireRoles_403 [of "?req\<lparr>rq_id := i, rq_apiKey := Some k\<rparr>" k roles] by auto
      with known(3) roles have "rep = Plain x" "event = None" "g2 = g\<lparr>gw_keys := gw_keys g2\<rparr>"
        by (auto simp: guarded_handler_def)
      with answer [of g1 x] run x known(2,4) roles Some show ?thesis
        by (auto simp: console_titles)
    next
      case False
      with known(2) Some show ?thesis by (auto split: option.splits)
    qed
  qed
qed

definition demo_storage :: StorageLike where
  "demo_storage = [(API_KEY_STORAGE_KEY, generateApiKey [])]"

definition demo_zh :: zh_texts where
  "demo_zh = \<lparr>zh_missing = \<lparr>ce_title = [], ce_message = []\<rparr>, zh_rejected = \<lparr>ce_title = [], ce_message = []\<rparr>,
     zh_forbidden = \<lparr>ce_title = [], ce_message = []\<rparr>, zh_failed = [], zh_unknown = []\<rparr>"

theorem console_refusals_reported_witness:
  "\<exists>g' e. console_run_call (\<lambda>p b. Some \<lparr>url_href = p, url_pathname = p\<rparr>) (direct_fetch demo_gateway_env [] ''ip'' [])
       (Some demo_storage) demo_gateway (AgentDelete ''a'') = (g', Inl e)
     \<and> gw_service g' = gw_service demo_gateway
     \<and> ce_title (describeConsoleError demo_zh e LocaleEn) = ''Not enough permissions''"
proof -
  let ?url = "\<lambda>p b :: string. Some \<lparr>url_href = p, url_pathname = p\<rparr>" and ?init = "get_init\<lparr>ri_method := Some ''DELETE''\<rparr>"
  let ?go = "console_run_call ?url (direct_fetch demo_gateway_env [] ''ip'' []) (Some demo_storage) demo_gateway (AgentDelete ''a'')"
  let ?req = "as_request ''ip'' ''/api/v1/agents/a'' (console_sent ''/api/v1/agents/a'' ?init (generateApiKey []))"
  have carry: "carries (direct_fetch demo_gateway_env [] ''ip'' []) demo_gateway_env [] ''ip'' []" by (rule direct_fetch_carries)
  have call: "console_call_request (AgentDelete ''a'') = (''/api/v1/agents/a'', ?init)" by simp
  have quest: "CHR ''?'' \<notin> set ''/api/v1/agents/a''" by simp
  have url: "?url ''/api/v1/agents/a'' ''http://senclaw.local'' = Some \<lparr>url_href = ''/api/v1/agents/a'', url_pathname = ''/api/v1/agents/a''\<rparr>" by simp
  have route: "find_route ?req = Some (AgentRoute DeleteAgent, ''a'')" by code_simp
  have stored: "loadStoredApiKey (Some demo_storage) = Some (generateApiKey [])" by code_simp
  have "map_option au_role (caller demo_gateway_env demo_gateway ?req) = Some RoleReadonly" by code_simp
  then obtain k where k: "caller demo_gateway_env demo_gateway ?req = Some k" "au_role k = RoleReadonly" by auto
  have roles: "route_roles (AgentRoute DeleteAgent) = Some writeRoles" "RoleReadonly \<notin> set writeRoles" by code_simp+
  obtain g' res where go: "?go = (g', res)" by fastforce
  from console_refusals_reported [OF carry call quest _ url _ go route] stored k roles
  have same: "g' = demo_gateway\<lparr>gw_keys := gw_keys g', gw_audit := gw_audit g'\<rparr>"
    and title: "\<exists>e. res = Inl e \<and> ce_title (describeConsoleError zh e LocaleEn) = ''Not enough permissions''" for zh
    by auto
  have "gw_service g' = gw_service demo_gateway" by (subst same) simp
  moreover obtain e where "res = Inl e" "ce_title (describeConsoleError demo_zh e LocaleEn) = ''Not enough permissions''"
    using title by blast
  ultimately show ?thesis using go by blast
qed

text \<open>
  The locale chosen in the console survives a round trip through the gateway: after saving it, without any key,
  a load returns it, and the gateway has changed nothing but its settings file.
\<close>

theorem console_locale_roundtrip:
  assumes "carries fetch ge hs ip []"
    and "\<forall>s. ss_schema (ge_settings ge) (settings_json s) = Inr s"
    and "\<forall>f. ss_readable (ge_settings ge) f = Inr ()" and "\<forall>f. ss_writable (ge_settings ge) f = Inr ()"
    and "\<forall>l. ge_locale ge (Some (JStr (locale_text l))) = Inr l"
    and "saveRuntimeLocale fetch g loc = (g', res)"
  shows "res = Inr loc \<and> loadRuntimeLocale fetch g' = (g', Inr loc) \<and> g' = g\<lparr>gw_files := gw_files g'\<rparr>"
proof -
  let ?st = "ge_settings ge" and ?path = "''/api/runtime/settings''"
  let ?put = "\<lparr>hr_method = ''PUT'', hr_url = ''/api/runtime/settings'',
    hr_headers = [(''accept'', ''application/json''), (''content-type'', ''application/json'')],
    hr_body = Some (json_stringify (JObj [(''locale'', JStr (locale_text loc))]))\<rparr>"
  let ?get = "\<lparr>hr_method = ''GET'', hr_url = ''/api/runtime/settings'', hr_headers = [(''accept'', ''application/json'')], hr_body = None\<rparr>"
  have carried: "\<exists>st. fetch g rq = (g1, Inr ((as_response rep)\<lparr>hs_statusText := st\<rparr>))"
    if "hr_url rq = ?path" "gateway_request ge hs g (as_request ip ?path rq) = Some (g1, Plain rep, None)" for g rq g1 rep
    using assms(1) that unfolding carries_def by (metis append_Nil settings_no_query)
  obtain fs where fs: "settings_update ?st (gw_files g) (Some loc) = (fs, Inr \<lparr>rs_locale = loc\<rparr>)"
      "settings_get ?st fs = \<lparr>rs_locale = loc\<rparr>"
    using settings_saved [OF assms(2-4)] by blast
  have body: "rq_body (as_request ip ?path ?put) = Some (JObj [(''locale'', JStr (locale_text loc))])"
    using json_parse_stringify [of "JObj [(''locale'', JStr (locale_text loc))]"] by (simp add: as_request_def)
  have "gateway_request ge hs g (as_request ip ?path ?put)
      = Some (g\<lparr>gw_files := fs\<rparr>, Plain (ok_reply 200 (settings_body \<lparr>rs_locale = loc\<rparr>)), None)"
    using gateway_settings(2) [of "as_request ip ?path ?put" ge hs g] body fs(1) assms(5)
    by (simp add: as_request_def put_settings_def json_field_def)
  from carried [OF _ this] obtain st where put: "fetch g ?put =
      (g\<lparr>gw_files := fs\<rparr>, Inr ((as_response (ok_reply 200 (settings_body \<lparr>rs_locale = loc\<rparr>)))\<lparr>hs_statusText := st\<rparr>))" by auto
  have "gateway_request ge hs (g\<lparr>gw_files := fs\<rparr>) (as_request ip ?path ?get)
      = Some (g\<lparr>gw_files := fs\<rparr>, Plain (ok_reply 200 (settings_body \<lparr>rs_locale = loc\<rparr>)), None)"
    using gateway_settings(1) [of "as_request ip ?path ?get" ge hs "g\<lparr>gw_files := fs\<rparr>"] fs(2)
    by (simp add: as_request_def get_settings_def)
  from carried [OF _ this] obtain st' where "fetch (g\<lparr>gw_files := fs\<rparr>) ?get =
      (g\<lparr>gw_files := fs\<rparr>, Inr ((as_response (ok_reply 200 (settings_body \<lparr>rs_locale = loc\<rparr>)))\<lparr>hs_statusText := st'\<rparr>))" by auto
  then have "loadRuntimeLocale fetch (g\<lparr>gw_files := fs\<rparr>) = (g\<lparr>gw_files := fs\<rparr>, Inr loc)"
    by (simp add: loadRuntimeLocale_def locale_answer_settings)
  with put assms(6) show ?thesis by (auto simp: saveRuntimeLocale_def locale_answer_settings)
qed

definition demo_settings_env :: "(ApiKeyRecord list, sched_db) gateway_env" where
  "demo_settings_env = demo_gateway_env\<lparr>
     ge_settings := \<lparr>ss_schema = demo_settings_schema, ss_schemaError = (\<lambda>is. Error ''z''), ss_readable = (\<lambda>f. Inr ()),
       ss_writable = (\<lambda>f. Inr ()), ss_file = ''s.json''\<rparr>,
     ge_locale := (\<lambda>b. Inr (normalizeLocale (case b of Some (JStr t) \<Rightarrow> Some t | _ \<Rightarrow> None)))\<rparr>"

lemma demo_settings_ok:
  "\<forall>s. ss_schema (ge_settings demo_settings_env) (settings_json s) = Inr s"
  "\<forall>f. ss_readable (ge_settings demo_settings_env) f = Inr ()" "\<forall>f. ss_writable (ge_settings demo_settings_env) f = Inr ()"
  "\<forall>l. ge_locale demo_settings_env (Some (JStr (locale_text l))) = Inr l"
proof -
  show "\<forall>s. ss_schema (ge_settings demo_settings_env) (settings_json s) = Inr s"
  proof
    fix s :: RuntimeSettings
    show "ss_schema (ge_settings demo_settings_env) (settings_json s) = Inr s"
      by (cases "rs_locale s")
        (simp_all add: demo_settings_env_def demo_settings_schema_def settings_json_def json_field_def locale_text_def)
  qed
  show "\<forall>f. ss_readable (ge_settings demo_settings_env) f = Inr ()" "\<forall>f. ss_writable (ge_settings demo_settings_env) f = Inr ()"
    by (simp_all add: demo_settings_env_def)
  show "\<forall>l. ge_locale demo_settings_env (Some (JStr (locale_text l))) = Inr l"
  proof
    fix l show "ge_locale demo_settings_env (Some (JStr (locale_text l))) = Inr l"
      by (cases l) (simp_all add: demo_settings_env_def normalizeLocale_def locale_text_def)
  qed
qed

theorem console_locale_roundtrip_witness:
  "\<exists>g'. saveRuntimeLocale (direct_fetch demo_settings_env [] ''ip'' []) demo_gateway LocaleZhCN = (g', Inr LocaleZhCN)
     \<and> loadRuntimeLocale (direct_fetch demo_settings_env [] ''ip'' []) g' = (g', Inr LocaleZhCN)"
proof -
  obtain g' res where go: "saveRuntimeLocale (direct_fetch demo_settings_env [] ''ip'' []) demo_gateway LocaleZhCN = (g', res)" by fastforce
  from console_locale_roundtrip [OF direct_fetch_carries demo_settings_ok go] go show ?thesis by blast
qed

text \<open>
  The key kept in the browser: what is saved is read back without surrounding white space, a blank key removes
  the stored one, clearing forgets it, and no other entry of the storage is touched.
\<close>

theorem stored_key_roundtrip:
  "case saveStoredApiKey key (Some m) of
     (st, k) \<Rightarrow> k = (if js_trim key = [] then None else Some (js_trim key)) \<and> loadStoredApiKey st = k
       \<and> loadStoredApiKey (clearStoredApiKey st) = None
       \<and> map_option (\<lambda>m'. jm_delete m' API_KEY_STORAGE_KEY) st = Some (jm_delete m API_KEY_STORAGE_KEY)"
proof (cases "js_trim key = []")
  case True
  then show ?thesis
    by (simp add: saveStoredApiKey_def loadStoredApiKey_def clearStoredApiKey_def normalizeApiKey_def jm_get_delete delete_idem)
next
  case False
  have "jm_delete (jm_set m API_KEY_STORAGE_KEY x) API_KEY_STORAGE_KEY = jm_delete m API_KEY_STORAGE_KEY" for x
    by (induction m) auto
  with False show ?thesis
    by (simp add: saveStoredApiKey_def loadStoredApiKey_def clearStoredApiKey_def normalizeApiKey_def jm_get_set jm_get_delete)
qed

end
