(* ===== verification/Command_Line.thy ===== *)
theory Command_Line
  imports Http_Transport
begin

text \<open>
  The command line (\<^verbatim>\<open>packages/cli/src\<close>): its configuration file and the commands that change it
  (\<^verbatim>\<open>lib/config.ts\<close>, \<^verbatim>\<open>commands/config.ts\<close>), the calls of its API client and the messages for failed calls
  (\<^verbatim>\<open>lib/api.ts\<close>, \<^verbatim>\<open>lib/command-wrapper.ts\<close>), the display of run messages and following a run
  (\<^verbatim>\<open>commands/run.ts\<close>), and the search for the workspace (\<^verbatim>\<open>lib/runtime.ts\<close>, \<^verbatim>\<open>commands/runtime.ts\<close>). The schema of
  the permissions in the same file (\<^verbatim>\<open>packages/config/src/index.ts\<close>) is written out here, because the
  agreement of the two readers is a property below.

  The HTTP library, the prompts, the tables and the colours are third-party code: calls end with a value
  or a failure, and a colour is a function \<open>paint\<close> from a style and a text to a text. The
  file system is a map from paths to texts.
\<close>

section \<open>The configuration file\<close>

record Config =
  cc_gatewayUrl :: "string option"
  cc_apiKey :: "string option"
  cc_permissions :: GlobalPermissionsConfig

text \<open>A member of a value that may be absent or no object.\<close>

definition member_of :: "json option \<Rightarrow> string \<Rightarrow> json option" where
  "member_of v k = Option.bind v (\<lambda>j. json_field j k)"

definition cli_normalizeOptionalString :: "json option \<Rightarrow> string option" where
  "cli_normalizeOptionalString v = (case v of Some (JStr s) \<Rightarrow> if js_trim s \<noteq> [] then Some (js_trim s) else None | _ \<Rightarrow> None)"

definition json_strings :: "json list \<Rightarrow> string list" where
  "json_strings js = concat (map (\<lambda>j. case j of JStr s \<Rightarrow> [s] | _ \<Rightarrow> []) js)"

definition normalizeStringArray :: "json option \<Rightarrow> string list" where
  "normalizeStringArray v = (case v of Some (JArr js) \<Rightarrow> filter (\<lambda>s. s \<noteq> []) (map js_trim (json_strings js)) | _ \<Rightarrow> [])"

definition boolean_or :: "bool \<Rightarrow> json option \<Rightarrow> bool" where
  "boolean_or d v = (case v of Some (JBool b) \<Rightarrow> b | _ \<Rightarrow> d)"

definition normalizePermissions :: "json option \<Rightarrow> GlobalPermissionsConfig" where
  "normalizePermissions raw =
     (let f = member_of raw ''filesystem''; s = member_of raw ''shell''
      in \<lparr>filesystem = \<lparr>allowAllWrites = boolean_or False (member_of f ''allowAllWrites''),
                       writeAllowedPaths = normalizeStringArray (member_of f ''writeAllowedPaths''),
                       fs_promptForElevation = boolean_or True (member_of f ''promptForElevation'')\<rparr>,
          shell = \<lparr>shell_enabled = boolean_or True (member_of s ''enabled''), enforcementMode = Managed,
                   shell_promptForElevation = boolean_or True (member_of s ''promptForElevation'')\<rparr>\<rparr>)"

definition normalizeConfig :: "json \<Rightarrow> Config" where
  "normalizeConfig v =
     \<lparr>cc_gatewayUrl = cli_normalizeOptionalString (json_field v ''gatewayUrl''),
      cc_apiKey = cli_normalizeOptionalString (json_field v ''apiKey''),
      cc_permissions = normalizePermissions (json_field v ''permissions'')\<rparr>"

definition permissions_json :: "GlobalPermissionsConfig \<Rightarrow> json" where
  "permissions_json p = JObj
     [(''filesystem'', JObj [(''allowAllWrites'', JBool (allowAllWrites (filesystem p))),
        (''writeAllowedPaths'', JArr (map JStr (writeAllowedPaths (filesystem p)))),
        (''promptForElevation'', JBool (fs_promptForElevation (filesystem p)))]),
      (''shell'', JObj [(''enabled'', JBool (shell_enabled (shell p))), (''enforcementMode'', JStr ''managed''),
        (''promptForElevation'', JBool (shell_promptForElevation (shell p)))])]"

definition config_json :: "Config \<Rightarrow> json" where
  "config_json c = JObj (text_field ''gatewayUrl'' (cc_gatewayUrl c) @ text_field ''apiKey'' (cc_apiKey c)
     @ [(''permissions'', permissions_json (cc_permissions c))])"

definition cli_loadConfig :: "(string \<Rightarrow> unit result) \<Rightarrow> file_system \<Rightarrow> string \<Rightarrow> Config" where
  "cli_loadConfig readable fs file =
     (if jm_get fs file = None then normalizeConfig (JObj [])
      else (case read_json readable fs (Error ''SyntaxError'') file of
              Inl _ \<Rightarrow> normalizeConfig (JObj [])
            | Inr j \<Rightarrow> normalizeConfig j))"

definition saveConfig :: "(string \<Rightarrow> unit result) \<Rightarrow> file_system \<Rightarrow> string \<Rightarrow> Config \<Rightarrow> file_system \<times> unit result" where
  "saveConfig writable fs file c =
     (case writable file of
        Inl e \<Rightarrow> (fs, Inl e)
      | Inr _ \<Rightarrow> (jm_set fs file (json_pretty (config_json (normalizeConfig (config_json c)))), Inr ()))"

datatype config_key = KeyGatewayUrl | KeyApiKey

definition getConfigValue :: "(string \<Rightarrow> unit result) \<Rightarrow> file_system \<Rightarrow> string \<Rightarrow> config_key \<Rightarrow> string option" where
  "getConfigValue readable fs file k =
     (case k of KeyGatewayUrl \<Rightarrow> cc_gatewayUrl (cli_loadConfig readable fs file) | KeyApiKey \<Rightarrow> cc_apiKey (cli_loadConfig readable fs file))"

definition with_value :: "config_key \<Rightarrow> string \<Rightarrow> Config \<Rightarrow> Config" where
  "with_value k v c = (case k of KeyGatewayUrl \<Rightarrow> c\<lparr>cc_gatewayUrl := Some v\<rparr> | KeyApiKey \<Rightarrow> c\<lparr>cc_apiKey := Some v\<rparr>)"

definition setConfigValue ::
    "(string \<Rightarrow> unit result) \<Rightarrow> (string \<Rightarrow> unit result) \<Rightarrow> file_system \<Rightarrow> string \<Rightarrow> config_key \<Rightarrow> string
     \<Rightarrow> file_system \<times> unit result" where
  "setConfigValue readable writable fs file k v = saveConfig writable fs file (with_value k v (cli_loadConfig readable fs file))"

definition config_key_of :: "string \<Rightarrow> config_key option" where
  "config_key_of t = (if t = ''gatewayUrl'' then Some KeyGatewayUrl else if t = ''apiKey'' then Some KeyApiKey else None)"

text \<open>The two commands: the files, what is printed, and the exit status if the process ends.\<close>

definition config_set_command ::
    "(string \<Rightarrow> unit result) \<Rightarrow> (string \<Rightarrow> unit result) \<Rightarrow> file_system \<Rightarrow> string \<Rightarrow> string \<Rightarrow> string
     \<Rightarrow> (file_system \<times> string list \<times> nat option) result" where
  "config_set_command readable writable fs file key v =
     (case config_key_of key of
        None \<Rightarrow> Inr (fs, [''Invalid config key: '' @ key, ''Valid keys: gatewayUrl, apiKey''], Some 1)
      | Some k \<Rightarrow>
          (case setConfigValue readable writable fs file k v of
             (fs', Inl e) \<Rightarrow> Inl e
           | (fs', Inr _) \<Rightarrow> Inr (fs', [''Set '' @ key @ '' = '' @ v], None)))"

definition config_get_command :: "(string \<Rightarrow> unit result) \<Rightarrow> file_system \<Rightarrow> string \<Rightarrow> string \<Rightarrow> string list \<times> nat option" where
  "config_get_command readable fs file key =
     (case config_key_of key of
        None \<Rightarrow> ([''Invalid config key: '' @ key, ''Valid keys: gatewayUrl, apiKey''], Some 1)
      | Some k \<Rightarrow>
          (case getConfigValue readable fs file k of
             Some v \<Rightarrow> ([v], None)
           | None \<Rightarrow> ([key @ '' is not set''], None)))"

section \<open>The schema of the permissions\<close>

text \<open>
  A schema gives the parsed value, or nothing where it reports issues. \<open>with_default\<close> is the default of a member that
  is absent; a member that is present has to have the type.
\<close>

definition with_default :: "'a \<Rightarrow> (json \<Rightarrow> 'a option) \<Rightarrow> json option \<Rightarrow> 'a option" where
  "with_default d p v = (case v of None \<Rightarrow> Some d | Some j \<Rightarrow> p j)"

definition z_boolean :: "json \<Rightarrow> bool option" where
  "z_boolean j = (case j of JBool b \<Rightarrow> Some b | _ \<Rightarrow> None)"

definition z_strings :: "json \<Rightarrow> string list option" where
  "z_strings j = (case j of JArr js \<Rightarrow> if list_all (\<lambda>x. case x of JStr _ \<Rightarrow> True | _ \<Rightarrow> False) js then Some (json_strings js) else None | _ \<Rightarrow> None)"

definition z_managed :: "json \<Rightarrow> enforcement option" where
  "z_managed j = (if j = JStr ''managed'' then Some Managed else None)"

definition z_object :: "json \<Rightarrow> bool" where
  "z_object j = (case j of JObj _ \<Rightarrow> True | _ \<Rightarrow> False)"

definition GlobalFilesystemPermissionsConfigSchema :: "json \<Rightarrow> GlobalFilesystemPermissionsConfig option" where
  "GlobalFilesystemPermissionsConfigSchema j =
     (case (z_object j, with_default False z_boolean (json_field j ''allowAllWrites''),
            with_default [] z_strings (json_field j ''writeAllowedPaths''),
            with_default True z_boolean (json_field j ''promptForElevation'')) of
        (True, Some a, Some w, Some p) \<Rightarrow> Some \<lparr>allowAllWrites = a, writeAllowedPaths = w, fs_promptForElevation = p\<rparr>
      | _ \<Rightarrow> None)"

definition GlobalShellPermissionsConfigSchema :: "json \<Rightarrow> GlobalShellPermissionsConfig option" where
  "GlobalShellPermissionsConfigSchema j =
     (case (z_object j, with_default True z_boolean (json_field j ''enabled''),
            with_default Managed z_managed (json_field j ''enforcementMode''),
            with_default True z_boolean (json_field j ''promptForElevation'')) of
        (True, Some e, Some m, Some p) \<Rightarrow> Some \<lparr>shell_enabled = e, enforcementMode = m, shell_promptForElevation = p\<rparr>
      | _ \<Rightarrow> None)"

definition GlobalPermissionsConfigSchema :: "json \<Rightarrow> GlobalPermissionsConfig option" where
  "GlobalPermissionsConfigSchema j =
     (case (z_object j,
            with_default (filesystem DEFAULT_GLOBAL_PERMISSIONS) GlobalFilesystemPermissionsConfigSchema (json_field j ''filesystem''),
            with_default (shell DEFAULT_GLOBAL_PERMISSIONS) GlobalShellPermissionsConfigSchema (json_field j ''shell'')) of
        (True, Some f, Some s) \<Rightarrow> Some \<lparr>filesystem = f, shell = s\<rparr>
      | _ \<Rightarrow> None)"

text \<open>The issues of a failed parse are not read by the loader.\<close>

definition GlobalCliConfigSchema :: "json \<Rightarrow> issue list + GlobalPermissionsConfig option" where
  "GlobalCliConfigSchema j =
     (if \<not> z_object j then Inl []
      else (case json_field j ''permissions'' of
              None \<Rightarrow> Inr None
            | Some p \<Rightarrow> (case GlobalPermissionsConfigSchema p of None \<Rightarrow> Inl [] | Some q \<Rightarrow> Inr (Some q))))"

section \<open>Calls and failures\<close>

datatype cli_call =
  CliListAgents | CliGetAgent ident | CliCreateAgent json | CliDeleteAgent ident | CliSubmitTask ident string
| CliBackground json | CliListTasks | CliGetTask ident | CliTaskMessages ident | CliSendMessage ident json | CliResume ident
| CliGetRun ident | CliRunMessages ident | CliHealth

fun cli_call_request :: "cli_call \<Rightarrow> string \<times> string \<times> json option" where
  "cli_call_request CliListAgents = (''GET'', ''/api/v1/agents'', None)"
| "cli_call_request (CliGetAgent i) = (''GET'', ''/api/v1/agents/'' @ i, None)"
| "cli_call_request (CliCreateAgent d) = (''POST'', ''/api/v1/agents'', Some d)"
| "cli_call_request (CliDeleteAgent i) = (''DELETE'', ''/api/v1/agents/'' @ i, None)"
| "cli_call_request (CliSubmitTask a input) =
     (''POST'', ''/api/v1/tasks'', Some (JObj [(''agentId'', JStr a), (''input'', JStr input)]))"
| "cli_call_request (CliBackground d) = (''POST'', ''/api/v1/agent-tasks/background'', Some d)"
| "cli_call_request CliListTasks = (''GET'', ''/api/v1/agent-tasks'', None)"
| "cli_call_request (CliGetTask i) = (''GET'', ''/api/v1/agent-tasks/'' @ i, None)"
| "cli_call_request (CliTaskMessages i) = (''GET'', ''/api/v1/agent-tasks/'' @ i @ ''/messages'', None)"
| "cli_call_request (CliSendMessage i d) = (''POST'', ''/api/v1/agent-tasks/'' @ i @ ''/messages'', Some d)"
| "cli_call_request (CliResume i) = (''POST'', ''/api/v1/agent-tasks/'' @ i @ ''/resume'', None)"
| "cli_call_request (CliGetRun i) = (''GET'', ''/api/v1/runs/'' @ i, None)"
| "cli_call_request (CliRunMessages i) = (''GET'', ''/api/v1/runs/'' @ i @ ''/messages'', None)"
| "cli_call_request CliHealth = (''GET'', ''/health'', None)"

definition client_settings :: "Config \<Rightarrow> string option \<Rightarrow> string option \<Rightarrow> string \<times> string option" where
  "client_settings c baseURL apiKey =
     (let key = (if js_truthy apiKey then apiKey else cc_apiKey c);
          base = (if js_truthy baseURL then the baseURL
                  else if js_truthy (cc_gatewayUrl c) then the (cc_gatewayUrl c) else ''http://localhost:4100'')
      in (base, if js_truthy key then Some (''Bearer '' @ the key) else None))"

text \<open>A failed call: a response with a failure status, no response at all, or another exception.\<close>

datatype cli_failure = AxiosResponse int json | AxiosNoResponse | OtherFailure exn

definition handleAPIError :: "cli_failure \<Rightarrow> exn" where
  "handleAPIError f =
     (case f of
        AxiosResponse st data' \<Rightarrow>
          Error (formatOperatorErrorMessage st (pe_message (parseApiErrorPayload (Some data') (''API error: '' @ show_int st))))
      | AxiosNoResponse \<Rightarrow> Error ''Cannot connect to Senclaw gateway. Make sure it's running.''
      | OtherFailure e \<Rightarrow> e)"

definition withCLIErrorHandling :: "cli_failure + 'a \<Rightarrow> 'a result" where
  "withCLIErrorHandling r = (case r of Inl f \<Rightarrow> Inl (handleAPIError f) | Inr x \<Rightarrow> Inr x)"

section \<open>Following a run\<close>

definition role_style :: "Message \<Rightarrow> string \<times> string" where
  "role_style m = (case m of SystemMessage _ \<Rightarrow> (''gray'', ''SYSTEM'') | UserMessage _ \<Rightarrow> (''blue'', ''USER'')
     | AssistantMessage _ _ \<Rightarrow> (''green'', ''ASSISTANT'') | ToolMessage _ _ \<Rightarrow> (''yellow'', ''TOOL''))"

definition message_text :: "Message \<Rightarrow> string option" where
  "message_text m = (case m of SystemMessage c \<Rightarrow> Some c | UserMessage c \<Rightarrow> Some c | AssistantMessage c _ \<Rightarrow> c | ToolMessage _ c \<Rightarrow> Some c)"

definition format_call :: "(string \<Rightarrow> string \<Rightarrow> string) \<Rightarrow> ToolCall \<Rightarrow> string" where
  "format_call paint c =
     paint ''dim'' ([CHR 0x0A] @ ''Tool Call: '' @ tc_toolName c @ [CHR 0x0A])
     @ paint ''dim'' (''Arguments: '' @ json_pretty (tc_args c) @ [CHR 0x0A])"

definition formatRunMessage :: "(string \<Rightarrow> string \<Rightarrow> string) \<Rightarrow> Message \<Rightarrow> nat \<Rightarrow> string" where
  "formatRunMessage paint m i =
     [CHR 0x0A] @ paint (fst (role_style m) @ ''.bold'') (''['' @ show_nat (i + 1) @ ''] '' @ snd (role_style m)) @ [CHR 0x0A]
     @ (if js_truthy (message_text m) then the (message_text m) @ [CHR 0x0A] else [])
     @ (case m of AssistantMessage _ (Some cs) \<Rightarrow> concat (map (format_call paint) cs) | _ \<Rightarrow> [])"

record follow =
  fo_count :: nat
  fo_printed :: "string list"
  fo_ended :: "RunStatus option"

definition follow_init :: follow where
  "follow_init = \<lparr>fo_count = 0, fo_printed = [], fo_ended = None\<rparr>"

text \<open>
  A poll whose two calls have been answered; \<open>None\<close> is a poll in which one of them failed. Polls may overlap
  and end in another order than they began, but what follows the second answer is not interrupted.
\<close>

definition follow_poll :: "(string \<Rightarrow> string \<Rightarrow> string) \<Rightarrow> (RunStatus \<times> Message list) option \<Rightarrow> follow \<Rightarrow> follow" where
  "follow_poll paint answer f =
     (if fo_ended f \<noteq> None then f
      else (case answer of
              None \<Rightarrow> f
            | Some (st, ms) \<Rightarrow>
                (let f1 = (if fo_count f < length ms
                           then f\<lparr>fo_printed := fo_printed f @ map (\<lambda>i. formatRunMessage paint (ms ! i) i) [fo_count f..<length ms],
                                  fo_count := length ms\<rparr>
                           else f)
                 in if st = RunCompleted \<or> st = RunFailed then f1\<lparr>fo_ended := Some st\<rparr> else f1)))"

section \<open>The workspace\<close>

text \<open>\<^verbatim>\<open>path.dirname\<close>: up to the last slash that is not the first character and not at the end.\<close>

definition dirname_part :: "string \<Rightarrow> string" where
  "dirname_part p = rev (dropWhile (\<lambda>c. c \<noteq> CHR ''/'') (dropWhile (\<lambda>c. c = CHR ''/'') (rev (tl p))))"

definition posix_dirname :: "string \<Rightarrow> string" where
  "posix_dirname p =
     (if p = [] then ''.''
      else if dirname_part p = [] then (if hd p = CHR ''/'' then ''/'' else ''.'')
      else if hd p # butlast (dirname_part p) = ''/'' then ''//'' else hd p # butlast (dirname_part p))"

definition is_workspace :: "string \<Rightarrow> (string \<Rightarrow> bool) \<Rightarrow> string \<Rightarrow> bool" where
  "is_workspace wd existsSync current \<longleftrightarrow>
     existsSync (resolve_all wd [current, ''pnpm-workspace.yaml''])
     \<and> (existsSync (resolve_all wd [current, ''scripts'', ''local-runtime.ts''])
        \<or> existsSync (resolve_all wd [current, ''scripts'', ''local-runtime.js'']))"

lemma dirname_part_shorter:
  assumes "dirname_part p \<noteq> []"
  shows "Suc (Suc (length (dirname_part p))) \<le> length p"
proof -
  let ?t = "dropWhile (\<lambda>c. c = CHR ''/'') (rev (tl p))"
  obtain c u where t: "?t = c # u" using assms by (cases ?t) (auto simp: dirname_part_def)
  then have "c \<noteq> CHR ''/''" using hd_dropWhile [of "\<lambda>c. c = CHR ''/''" "rev (tl p)"] by auto
  with t have "length (dirname_part p) \<le> length u" using length_dropWhile_le [of _ u] by (simp add: dirname_part_def)
  moreover have "Suc (length u) \<le> length (tl p)" using t length_dropWhile_le [of "\<lambda>c. c = CHR ''/''" "rev (tl p)"] by simp
  ultimately show ?thesis by simp
qed

lemma dirname_shorter:
  assumes "posix_dirname p \<noteq> p"
  shows "(if posix_dirname p = ''.'' then 0 else Suc (length (posix_dirname p))) < (if p = ''.'' then 0 else Suc (length p))"
proof (cases "p = [] \<or> dirname_part p = []")
  case True
  with assms show ?thesis by (cases p; cases "tl p") (auto simp: posix_dirname_def split: if_splits)
next
  case False
  then obtain c u where "dirname_part p = c # u" by (cases "dirname_part p") auto
  with False dirname_part_shorter [of p] have "length (posix_dirname p) < length p" "p \<noteq> ''.''"
    by (auto simp: posix_dirname_def)
  then show ?thesis by simp
qed

function workspace_search :: "string \<Rightarrow> (string \<Rightarrow> bool) \<Rightarrow> string \<Rightarrow> string option" where
  "workspace_search wd existsSync current =
     (if is_workspace wd existsSync current then Some current
      else if posix_dirname current = current then None
      else workspace_search wd existsSync (posix_dirname current))"
  by auto

termination workspace_search
  by (relation "measure (\<lambda>(wd, ex, p). if p = ''.'' then 0 else Suc (length p))") (use dirname_shorter in auto)

declare workspace_search.simps [simp del]

definition findSenclawWorkspaceRoot :: "string \<Rightarrow> (string \<Rightarrow> bool) \<Rightarrow> string \<Rightarrow> string option" where
  "findSenclawWorkspaceRoot wd existsSync startDir = workspace_search wd existsSync (resolve_all wd [startDir])"

definition resolveSenclawWorkspaceRoot :: "string \<Rightarrow> (string \<Rightarrow> bool) \<Rightarrow> string option \<Rightarrow> string \<Rightarrow> string result" where
  "resolveSenclawWorkspaceRoot wd existsSync workspacePath startDir =
     (case (if js_truthy workspacePath then Some (resolve_all wd [the workspacePath])
            else findSenclawWorkspaceRoot wd existsSync startDir) of
        Some r \<Rightarrow> Inr r
      | None \<Rightarrow> Inl (Error ''Could not locate a SenClaw workspace. Run this command from the repository root or pass --workspace <path>.''))"

record RuntimeCommandSpec =
  sc_command :: string
  sc_args :: "string list"
  sc_workspaceRoot :: string

definition createRuntimeCommandSpec :: "string \<Rightarrow> string \<Rightarrow> string \<Rightarrow> string \<Rightarrow> RuntimeCommandSpec" where
  "createRuntimeCommandSpec wd execPath what workspaceRoot =
     \<lparr>sc_command = execPath, sc_args = [resolve_all wd [workspaceRoot, ''scripts'', ''local-runtime.js''], what],
      sc_workspaceRoot = workspaceRoot\<rparr>"

text \<open>The exit status of a runtime command, if it sets one, and what it prints; \<open>run\<close> is the call that runs the process.\<close>

definition runtime_action ::
    "string \<Rightarrow> (string \<Rightarrow> bool) \<Rightarrow> string \<Rightarrow> (RuntimeCommandSpec \<Rightarrow> int option result) \<Rightarrow> string \<Rightarrow> string option \<Rightarrow> string
     \<Rightarrow> int option \<times> string list" where
  "runtime_action wd existsSync execPath run what workspace startDir =
     (case resolveSenclawWorkspaceRoot wd existsSync workspace startDir of
        Inl e \<Rightarrow> (Some 1, [message e])
      | Inr root \<Rightarrow>
          (case run (createRuntimeCommandSpec wd execPath what root) of
             Inl e \<Rightarrow> (Some 1, [message e])
           | Inr st \<Rightarrow> (if js_or st 0 \<noteq> 0 then Some (js_or st 1) else None, [])))"

section \<open>Lemmas\<close>

lemma json_strings_map [simp]: "json_strings (map JStr ss) = ss"
  by (induction ss) (simp_all add: json_strings_def)

lemma text_field_get: "map_of (text_field k v @ rest) x = (if x = k \<and> v \<noteq> None then map_option JStr v else map_of rest x)"
  by (auto simp: text_field_def split: option.splits)

lemma permissions_members:
  "normalizePermissions (Some (permissions_json p)) =
     p\<lparr>filesystem := (filesystem p)\<lparr>writeAllowedPaths := filter (\<lambda>s. s \<noteq> []) (map js_trim (writeAllowedPaths (filesystem p)))\<rparr>\<rparr>"
proof -
  have "enforcementMode (shell p) = Managed" by (cases "enforcementMode (shell p)")
  then show ?thesis
    by (simp add: normalizePermissions_def permissions_json_def member_of_def json_field_def boolean_or_def
        normalizeStringArray_def Let_def)
qed

lemma GlobalPermissions_written: "GlobalPermissionsConfigSchema (permissions_json p) = Some p"
proof -
  have "enforcementMode (shell p) = Managed" by (cases "enforcementMode (shell p)")
  then have "GlobalFilesystemPermissionsConfigSchema (JObj [(''allowAllWrites'', JBool (allowAllWrites (filesystem p))),
        (''writeAllowedPaths'', JArr (map JStr (writeAllowedPaths (filesystem p)))),
        (''promptForElevation'', JBool (fs_promptForElevation (filesystem p)))]) = Some (filesystem p)"
    and "GlobalShellPermissionsConfigSchema (JObj [(''enabled'', JBool (shell_enabled (shell p))), (''enforcementMode'', JStr ''managed''),
        (''promptForElevation'', JBool (shell_promptForElevation (shell p)))]) = Some (shell p)"
    by (auto simp: GlobalFilesystemPermissionsConfigSchema_def GlobalShellPermissionsConfigSchema_def z_object_def json_field_def
        with_default_def z_boolean_def z_strings_def z_managed_def list_all_iff)
  then show ?thesis
    by (simp add: GlobalPermissionsConfigSchema_def permissions_json_def z_object_def json_field_def with_default_def)
qed

lemma config_json_fields:
  "json_field (config_json c) ''gatewayUrl'' = map_option JStr (cc_gatewayUrl c)"
  "json_field (config_json c) ''apiKey'' = map_option JStr (cc_apiKey c)"
  "json_field (config_json c) ''permissions'' = Some (permissions_json (cc_permissions c))"
  "z_object (config_json c)" "json_ok (config_json c)"
  by (auto simp: config_json_def json_field_def text_field_def z_object_def permissions_json_def split: option.splits)

lemma optionalString_idem: "cli_normalizeOptionalString (map_option JStr (cli_normalizeOptionalString v)) = cli_normalizeOptionalString v"
  by (auto simp: cli_normalizeOptionalString_def split: option.splits json.splits)

lemma trimmed_idem: "filter (\<lambda>s. s \<noteq> []) (map js_trim (filter (\<lambda>s. s \<noteq> []) (map js_trim ss))) = filter (\<lambda>s. s \<noteq> []) (map js_trim ss)"
  by (induction ss) auto

definition trim_paths :: "GlobalPermissionsConfig \<Rightarrow> GlobalPermissionsConfig" where
  "trim_paths p = p\<lparr>filesystem := (filesystem p)\<lparr>writeAllowedPaths := filter (\<lambda>s. s \<noteq> []) (map js_trim (writeAllowedPaths (filesystem p)))\<rparr>\<rparr>"

lemma normalizeConfig_written:
  "normalizeConfig (config_json c) = \<lparr>cc_gatewayUrl = cli_normalizeOptionalString (map_option JStr (cc_gatewayUrl c)),
     cc_apiKey = cli_normalizeOptionalString (map_option JStr (cc_apiKey c)), cc_permissions = trim_paths (cc_permissions c)\<rparr>"
  by (simp add: normalizeConfig_def config_json_fields permissions_members trim_paths_def)

lemma normalizeConfig_idem: "normalizeConfig (config_json (normalizeConfig (config_json c))) = normalizeConfig (config_json c)"
  by (simp add: normalizeConfig_written optionalString_idem trim_paths_def trimmed_idem)

lemma schema_written: "GlobalCliConfigSchema (config_json c) = Inr (Some (cc_permissions c))"
  by (simp add: GlobalCliConfigSchema_def config_json_fields GlobalPermissions_written)

text \<open>What the command line has saved, it and the gateway read back.\<close>

lemma saved_config_read:
  assumes "readable file = Inr ()" and "saveConfig writable fs file c = (fs', Inr ())"
  shows "cli_loadConfig readable fs' file = normalizeConfig (config_json c)"
    and "loadGlobalPermissionsConfig GlobalCliConfigSchema readable fs' file = trim_paths (cc_permissions c)"
    and "g \<noteq> file \<Longrightarrow> jm_get fs' g = jm_get fs g"
proof -
  let ?c = "normalizeConfig (config_json c)"
  from assms(2) have fs': "fs' = jm_set fs file (json_pretty (config_json ?c))"
    by (simp add: saveConfig_def split: sum.splits)
  have "json_parse (json_pretty (config_json ?c)) = Some (config_json ?c)"
    by (rule json_parse_pretty) (rule config_json_fields)
  with fs' assms(1) have read: "read_json readable fs' e file = Inr (config_json ?c)" "jm_get fs' file \<noteq> None" for e
    by (simp_all add: read_json_def jm_get_set)
  show "cli_loadConfig readable fs' file = normalizeConfig (config_json c)"
    using read by (auto simp: cli_loadConfig_def normalizeConfig_idem)
  have "cc_permissions ?c = trim_paths (cc_permissions c)" by (simp add: normalizeConfig_written)
  then show "loadGlobalPermissionsConfig GlobalCliConfigSchema readable fs' file = trim_paths (cc_permissions c)"
    using read by (auto simp: loadGlobalPermissionsConfig_def schema_written)
  show "g \<noteq> file \<Longrightarrow> jm_get fs' g = jm_get fs g" using fs' by (simp add: jm_get_set)
qed

text \<open>Where the schema accepts a file, the command line reads the same permissions, up to the trimming of paths.\<close>

lemma normalizePermissions_None: "normalizePermissions None = DEFAULT_GLOBAL_PERMISSIONS"
  by (simp add: normalizePermissions_def DEFAULT_GLOBAL_PERMISSIONS_def member_of_def boolean_or_def normalizeStringArray_def)

lemma with_default_boolean: "with_default d z_boolean v = Some b \<Longrightarrow> boolean_or d v = b"
  by (auto simp: with_default_def z_boolean_def boolean_or_def split: option.splits json.splits)

lemma with_default_strings: "with_default [] z_strings v = Some w \<Longrightarrow> normalizeStringArray v = filter (\<lambda>s. s \<noteq> []) (map js_trim w)"
  by (auto simp: with_default_def z_strings_def normalizeStringArray_def split: option.splits json.splits if_splits)

lemma schema_normalized:
  assumes "GlobalPermissionsConfigSchema j = Some p"
  shows "normalizePermissions (Some j) = trim_paths p"
proof -
  from assms obtain f s where p: "p = \<lparr>filesystem = f, shell = s\<rparr>"
    and f: "with_default (filesystem DEFAULT_GLOBAL_PERMISSIONS) GlobalFilesystemPermissionsConfigSchema (json_field j ''filesystem'') = Some f"
    and s: "with_default (shell DEFAULT_GLOBAL_PERMISSIONS) GlobalShellPermissionsConfigSchema (json_field j ''shell'') = Some s"
    by (auto simp: GlobalPermissionsConfigSchema_def split: bool.splits option.splits)
  have managed: "enforcementMode s = Managed" by (cases "enforcementMode s")
  have fs: "boolean_or False (member_of (json_field j ''filesystem'') ''allowAllWrites'') = allowAllWrites f
      \<and> normalizeStringArray (member_of (json_field j ''filesystem'') ''writeAllowedPaths'')
          = filter (\<lambda>s. s \<noteq> []) (map js_trim (writeAllowedPaths f))
      \<and> boolean_or True (member_of (json_field j ''filesystem'') ''promptForElevation'') = fs_promptForElevation f"
  proof (cases "json_field j ''filesystem''")
    case None
    with f show ?thesis
      by (auto simp: with_default_def DEFAULT_GLOBAL_PERMISSIONS_def member_of_def boolean_or_def normalizeStringArray_def)
  next
    case (Some v)
    with f show ?thesis
      by (auto simp: with_default_def [of "filesystem DEFAULT_GLOBAL_PERMISSIONS"] GlobalFilesystemPermissionsConfigSchema_def member_of_def
          dest: with_default_boolean with_default_strings split: bool.splits option.splits)
  qed
  have sh: "boolean_or True (member_of (json_field j ''shell'') ''enabled'') = shell_enabled s
      \<and> boolean_or True (member_of (json_field j ''shell'') ''promptForElevation'') = shell_promptForElevation s"
  proof (cases "json_field j ''shell''")
    case None
    with s show ?thesis by (auto simp: with_default_def DEFAULT_GLOBAL_PERMISSIONS_def member_of_def boolean_or_def)
  next
    case (Some v)
    with s show ?thesis
      by (auto simp: with_default_def [of "shell DEFAULT_GLOBAL_PERMISSIONS"] GlobalShellPermissionsConfigSchema_def member_of_def
          dest: with_default_boolean split: bool.splits option.splits)
  qed
  from fs sh managed show ?thesis
    by (simp add: normalizePermissions_def trim_paths_def p member_of_def Let_def)
qed

text \<open>The parent of a path without \<^verbatim>\<open>.\<close> and \<^verbatim>\<open>..\<close>, and the search over the parents.\<close>

lemma path_join_snoc: "path_join (ss @ [s]) = (if ss = [] then s else path_join ss @ CHR ''/'' # s)"
proof (induction ss)
  case (Cons a ss)
  then show ?case by (cases ss) (simp_all add: path_join_def)
qed (simp add: path_join_def)

lemma dirname_join:
  assumes "\<forall>s \<in> set ss. plain_segment s"
  shows "posix_dirname (CHR ''/'' # path_join ss) = CHR ''/'' # path_join (butlast ss)"
proof (cases ss rule: rev_cases)
  case Nil
  then show ?thesis by (simp add: posix_dirname_def dirname_part_def path_join_def)
next
  case (snoc xs x)
  with assms have x: "x \<noteq> []" "CHR ''/'' \<notin> set x" and xs: "\<forall>s \<in> set xs. s \<noteq> []" by (auto simp: plain_segment_def)
  have keep: "dropWhile (\<lambda>c. c = CHR ''/'') (rev x @ t) = rev x @ t" for t
    using x by (cases "rev x") (auto simp: dropWhile_append)
  have skip: "dropWhile (\<lambda>c. c \<noteq> CHR ''/'') (rev x @ t) = dropWhile (\<lambda>c. c \<noteq> CHR ''/'') t" for t
    by (rule dropWhile_append2) (use x(2) in auto)
  show ?thesis
  proof (cases "xs = []")
    case True
    then have "dirname_part (CHR ''/'' # path_join ss) = []"
      using snoc keep [of "[]"] skip [of "[]"] by (simp add: dirname_part_def path_join_def)
    then show ?thesis using snoc True by (simp add: posix_dirname_def path_join_def)
  next
    case False
    then have "dirname_part (CHR ''/'' # path_join ss) = path_join xs @ ''/''"
      using snoc keep skip by (simp add: dirname_part_def path_join_snoc)
    moreover have "path_join xs \<noteq> []" using path_join_eq_Nil [of xs] xs False by auto
    ultimately show ?thesis using snoc by (simp add: posix_dirname_def butlast_append)
  qed
qed

lemma workspace_search_segments:
  assumes "\<forall>s \<in> set ss. plain_segment s"
  shows "workspace_search wd ex (CHR ''/'' # path_join ss) =
    find (is_workspace wd ex) (map (\<lambda>k. CHR ''/'' # path_join (take k ss)) (rev [0..<Suc (length ss)]))"
  using assms
proof (induction ss rule: rev_induct)
  case Nil
  have "posix_dirname (CHR ''/'' # path_join []) = CHR ''/'' # path_join []" using dirname_join [of "[]"] by simp
  then show ?case by (subst workspace_search.simps) simp
next
  case (snoc x xs)
  let ?P = "CHR ''/'' # path_join (xs @ [x])"
  have up: "posix_dirname (CHR ''/'' # path_join (xs @ [x])) = CHR ''/'' # path_join xs" using dirname_join [OF snoc.prems] by simp
  have "path_join xs \<noteq> path_join (xs @ [x])"
  proof (cases "xs = []")
    case True
    with snoc.prems show ?thesis by (auto simp: path_join_def plain_segment_def)
  next
    case False
    then show ?thesis unfolding path_join_snoc by simp
  qed
  then have "workspace_search wd ex ?P = (if is_workspace wd ex ?P then Some ?P else workspace_search wd ex (CHR ''/'' # path_join xs))"
    using up by (subst workspace_search.simps) simp
  also have "\<dots> = find (is_workspace wd ex) (?P # map (\<lambda>k. CHR ''/'' # path_join (take k xs)) (rev [0..<Suc (length xs)]))"
    using snoc.IH snoc.prems by simp
  also have "?P # map (\<lambda>k. CHR ''/'' # path_join (take k xs)) (rev [0..<Suc (length xs)])
      = map (\<lambda>k. CHR ''/'' # path_join (take k (xs @ [x]))) (rev [0..<Suc (length (xs @ [x]))])" by simp
  finally show ?case .
qed

text \<open>The state of following a run after any polls.\<close>

definition follow_ok :: "(string \<Rightarrow> string \<Rightarrow> string) \<Rightarrow> Message list \<Rightarrow> follow \<Rightarrow> bool" where
  "follow_ok paint log f \<longleftrightarrow> fo_count f \<le> length log
     \<and> fo_printed f = map (\<lambda>i. formatRunMessage paint (log ! i) i) [0..<fo_count f]"

lemma follow_poll_ok:
  assumes "follow_ok paint log f" and "case a of None \<Rightarrow> True | Some (st, ms) \<Rightarrow> prefix ms log"
  shows "follow_ok paint log (follow_poll paint a f)"
proof (cases a)
  case (Some sm)
  obtain st ms where sm: "sm = (st, ms)" by (cases sm)
  with Some assms(2) have pre: "length ms \<le> length log" "\<And>i. i < length ms \<Longrightarrow> ms ! i = log ! i"
    by (auto simp: prefix_def nth_append)
  have "map (\<lambda>i. formatRunMessage paint (ms ! i) i) [fo_count f..<length ms]
      = map (\<lambda>i. formatRunMessage paint (log ! i) i) [fo_count f..<length ms]" using pre(2) by simp
  moreover have "[0..<length ms] = [0..<fo_count f] @ [fo_count f..<length ms]" if "fo_count f < length ms"
    using that upt_add_eq_append [of 0 "fo_count f" "length ms - fo_count f"] by simp
  ultimately show ?thesis using assms(1) pre(1) Some sm by (auto simp: follow_poll_def follow_ok_def Let_def)
qed (use assms in \<open>simp add: follow_poll_def\<close>)

lemma follow_poll_mono: "fo_count f \<le> fo_count (follow_poll paint a f)"
  by (auto simp: follow_poll_def Let_def split: option.split prod.split)

lemma follow_mono: "fo_count f \<le> fo_count (fold (follow_poll paint) as f)"
proof (induction as arbitrary: f)
  case (Cons a as)
  from follow_poll_mono [of f paint a] Cons [of "follow_poll paint a f"] show ?case by simp
qed simp

lemma follow_ended: "fo_ended f \<noteq> None \<Longrightarrow> fold (follow_poll paint) as f = f"
  by (induction as) (auto simp: follow_poll_def)

definition follow_settled :: "(RunStatus \<times> Message list) option list \<Rightarrow> follow \<Rightarrow> bool" where
  "follow_settled answers f \<longleftrightarrow> (case fo_ended f of
      None \<Rightarrow> (\<forall>st ms. Some (st, ms) \<in> set answers \<longrightarrow> length ms \<le> fo_count f \<and> st \<noteq> RunCompleted \<and> st \<noteq> RunFailed)
    | Some st \<Rightarrow> (st = RunCompleted \<or> st = RunFailed) \<and> (\<exists>ms. Some (st, ms) \<in> set answers \<and> length ms \<le> fo_count f))"

lemma follow_settles: "fo_ended f = None \<Longrightarrow> follow_settled answers (fold (follow_poll paint) answers f)"
proof (induction answers arbitrary: f)
  case (Cons a as)
  show ?case
  proof (cases "fo_ended (follow_poll paint a f)")
    case None
    have "length ms \<le> fo_count (follow_poll paint a f) \<and> st \<noteq> RunCompleted \<and> st \<noteq> RunFailed" if "a = Some (st, ms)" for st ms
      using that None Cons.prems by (auto simp: follow_poll_def Let_def split: if_splits)
    moreover from this have "length ms \<le> fo_count (fold (follow_poll paint) as (follow_poll paint a f))" if "a = Some (st, ms)" for st ms
      using that follow_mono [of "follow_poll paint a f" paint as] by fastforce
    ultimately show ?thesis using Cons.IH [OF None] by (auto simp: follow_settled_def split: option.splits)
  next
    case (Some st)
    with Cons.prems obtain ms where "a = Some (st, ms)" "st = RunCompleted \<or> st = RunFailed" "length ms \<le> fo_count (follow_poll paint a f)"
      by (auto simp: follow_poll_def Let_def split: option.splits if_splits)
    with Some follow_ended [of "follow_poll paint a f" paint as] show ?thesis by (auto simp: follow_settled_def)
  qed
qed (simp add: follow_settled_def)

section \<open>Properties\<close>

text \<open>
  Setting a value from the command line keeps the permissions of the file. After a successful
  \<^verbatim>\<open>config set\<close> the value is read back trimmed, the other value is unchanged, and if the file was valid for the
  gateway, the gateway reads the same permissions as before, with blank entries of the writable paths removed and
  the others trimmed. In every case the gateway now reads what the command line had read.
\<close>

theorem config_set_keeps_permissions:
  assumes "jm_get fs file = Some t" and "json_parse t = Some j" and "readable file = Inr ()"
    and "setConfigValue readable writable fs file k v = (fs', Inr ())"
  shows "getConfigValue readable fs' file k = (if js_trim v = [] then None else Some (js_trim v))
    \<and> (\<forall>k'. k' \<noteq> k \<longrightarrow> getConfigValue readable fs' file k' = getConfigValue readable fs file k')
    \<and> loadGlobalPermissionsConfig GlobalCliConfigSchema readable fs' file = trim_paths (cc_permissions (cli_loadConfig readable fs file))
    \<and> (case GlobalCliConfigSchema j of
         Inr _ \<Rightarrow> loadGlobalPermissionsConfig GlobalCliConfigSchema readable fs' file
           = trim_paths (loadGlobalPermissionsConfig GlobalCliConfigSchema readable fs file)
       | Inl _ \<Rightarrow> loadGlobalPermissionsConfig GlobalCliConfigSchema readable fs file = DEFAULT_GLOBAL_PERMISSIONS)"
proof -
  let ?old = "cli_loadConfig readable fs file" and ?new = "with_value k v (cli_loadConfig readable fs file)"
  have save: "saveConfig writable fs file ?new = (fs', Inr ())" using assms(4) by (simp add: setConfigValue_def)
  note read = saved_config_read(1,2) [where readable = readable, OF assms(3) save]
  have old: "?old = normalizeConfig j" using assms(1-3) by (simp add: cli_loadConfig_def read_json_def)
  have perms: "cc_permissions ?new = cc_permissions ?old" by (cases k) (simp_all add: with_value_def)
  have kept: "cli_normalizeOptionalString (map_option JStr (cc_gatewayUrl ?old)) = cc_gatewayUrl ?old"
      "cli_normalizeOptionalString (map_option JStr (cc_apiKey ?old)) = cc_apiKey ?old"
    unfolding old by (simp_all add: normalizeConfig_def optionalString_idem)
  have here: "getConfigValue readable fs' file k = (if js_trim v = [] then None else Some (js_trim v))"
    using read(1) by (cases k) (simp_all add: getConfigValue_def with_value_def normalizeConfig_written cli_normalizeOptionalString_def)
  have other: "getConfigValue readable fs' file k' = getConfigValue readable fs file k'" if "k' \<noteq> k" for k'
    using read(1) kept that by (cases k; cases k') (simp_all add: getConfigValue_def with_value_def normalizeConfig_written)
  have trim: "trim_paths (trim_paths p) = trim_paths p" for p by (simp add: trim_paths_def trimmed_idem)
  have "case GlobalCliConfigSchema j of
      Inr _ \<Rightarrow> trim_paths (cc_permissions ?old) = trim_paths (loadGlobalPermissionsConfig GlobalCliConfigSchema readable fs file)
    | Inl _ \<Rightarrow> loadGlobalPermissionsConfig GlobalCliConfigSchema readable fs file = DEFAULT_GLOBAL_PERMISSIONS"
  proof (cases "z_object j \<and> json_field j ''permissions'' \<noteq> None")
    case True
    then obtain p where p: "json_field j ''permissions'' = Some p" by blast
    show ?thesis
    proof (cases "GlobalPermissionsConfigSchema p")
      case None
      with True p assms(1-3) show ?thesis
        by (simp add: GlobalCliConfigSchema_def loadGlobalPermissionsConfig_def read_json_def)
    next
      case (Some q)
      with True p assms(1-3) old schema_normalized [OF Some] show ?thesis
        by (simp add: GlobalCliConfigSchema_def loadGlobalPermissionsConfig_def read_json_def normalizeConfig_def trim)
    qed
  next
    case False
    with assms(1-3) old show ?thesis
      by (auto simp: GlobalCliConfigSchema_def loadGlobalPermissionsConfig_def read_json_def normalizeConfig_def normalizePermissions_None)
  qed
  then show ?thesis using here other read(2) perms by (simp split: sum.splits)
qed

definition demo_rc :: file_system where
  "demo_rc = [(''rc'', json_stringify (JObj [(''permissions'', JObj [(''filesystem'', JObj [(''allowAllWrites'', JBool True)])])]))]"

theorem config_set_keeps_permissions_witness:
  "\<exists>fs'. setConfigValue (\<lambda>f. Inr ()) (\<lambda>f. Inr ()) demo_rc ''rc'' KeyApiKey '' k '' = (fs', Inr ())
     \<and> getConfigValue (\<lambda>f. Inr ()) fs' ''rc'' KeyApiKey = Some ''k''
     \<and> loadGlobalPermissionsConfig GlobalCliConfigSchema (\<lambda>f. Inr ()) fs' ''rc''
         = trim_paths (loadGlobalPermissionsConfig GlobalCliConfigSchema (\<lambda>f. Inr ()) demo_rc ''rc'')"
proof -
  let ?j = "JObj [(''permissions'', JObj [(''filesystem'', JObj [(''allowAllWrites'', JBool True)])])]"
  have rc: "jm_get demo_rc ''rc'' = Some (json_stringify ?j)" by (simp add: demo_rc_def)
  have parse: "json_parse (json_stringify ?j) = Some ?j" by (rule json_parse_stringify) simp
  have trim: "js_trim '' k '' = ''k''" by code_simp
  have schema: "\<exists>p. GlobalCliConfigSchema ?j = Inr p"
    by (simp add: GlobalCliConfigSchema_def GlobalPermissionsConfigSchema_def GlobalFilesystemPermissionsConfigSchema_def z_object_def
        json_field_def with_default_def z_boolean_def)
  obtain fs' where go: "setConfigValue (\<lambda>f. Inr ()) (\<lambda>f. Inr ()) demo_rc ''rc'' KeyApiKey '' k '' = (fs', Inr ())"
    by (simp add: setConfigValue_def saveConfig_def)
  from config_set_keeps_permissions [OF rc parse _ go] schema trim go show ?thesis by auto
qed

text \<open>
  A file the gateway refuses as a whole, because one member of its permissions has the wrong type, leaves the
  gateway with its defaults. The command line repairs such a file member by member when it sets any value: after
  \<^verbatim>\<open>config set apiKey\<close> the gateway allows all writes.
\<close>

definition broken_rc :: file_system where
  "broken_rc = [(''rc'', json_stringify (JObj [(''permissions'', JObj [(''filesystem'',
     JObj [(''allowAllWrites'', JBool True), (''promptForElevation'', JStr ''no'')])])]))]"

theorem config_set_can_open:
  "loadGlobalPermissionsConfig GlobalCliConfigSchema (\<lambda>f. Inr ()) broken_rc ''rc'' = DEFAULT_GLOBAL_PERMISSIONS
   \<and> (\<exists>fs' out. config_set_command (\<lambda>f. Inr ()) (\<lambda>f. Inr ()) broken_rc ''rc'' ''apiKey'' ''k'' = Inr (fs', out)
        \<and> allowAllWrites (filesystem (loadGlobalPermissionsConfig GlobalCliConfigSchema (\<lambda>f. Inr ()) fs' ''rc'')))"
proof -
  let ?p = "JObj [(''filesystem'', JObj [(''allowAllWrites'', JBool True), (''promptForElevation'', JStr ''no'')])]"
  let ?j = "JObj [(''permissions'', ?p)]"
  have "json_parse (json_stringify ?j) = Some ?j" by (rule json_parse_stringify) simp
  then have read: "read_json (\<lambda>f. Inr ()) broken_rc e ''rc'' = Inr ?j" "jm_get broken_rc ''rc'' \<noteq> None" for e
    by (simp_all add: read_json_def broken_rc_def)
  have "GlobalCliConfigSchema ?j = Inl []"
    by (simp add: GlobalCliConfigSchema_def GlobalPermissionsConfigSchema_def GlobalFilesystemPermissionsConfigSchema_def z_object_def
        json_field_def with_default_def z_boolean_def)
  with read have before: "loadGlobalPermissionsConfig GlobalCliConfigSchema (\<lambda>f. Inr ()) broken_rc ''rc'' = DEFAULT_GLOBAL_PERMISSIONS"
    by (auto simp: loadGlobalPermissionsConfig_def)
  let ?c = "with_value KeyApiKey ''k'' (cli_loadConfig (\<lambda>f. Inr ()) broken_rc ''rc'')"
  obtain fs' where save: "saveConfig (\<lambda>f. Inr ()) broken_rc ''rc'' ?c = (fs', Inr ())" by (simp add: saveConfig_def)
  have "cli_loadConfig (\<lambda>f. Inr ()) broken_rc ''rc'' = normalizeConfig ?j" using read by (auto simp: cli_loadConfig_def)
  then have "allowAllWrites (filesystem (trim_paths (cc_permissions ?c)))"
    by (simp add: with_value_def normalizeConfig_def normalizePermissions_def json_field_def member_of_def boolean_or_def trim_paths_def)
  moreover have "config_set_command (\<lambda>f. Inr ()) (\<lambda>f. Inr ()) broken_rc ''rc'' ''apiKey'' ''k'' = Inr (fs', [''Set apiKey = k''], None)"
    using save by (simp add: config_set_command_def config_key_of_def setConfigValue_def)
  ultimately show ?thesis
    using before saved_config_read(2) [where readable = "\<lambda>f. Inr ()", OF _ save] by auto
qed

text \<open>
  Following a run prints every message once and in order. If every answer shows a beginning of the messages of
  the run, then in whatever order answers arrive and however many polls fail, the printed texts are those of
  the first messages, each once, with its number. Following ends only with an answer that says that the run
  has ended, and then every message of that answer has been printed; as long as it goes on no such answer has
  arrived and every message of every answer has been printed.
\<close>

theorem follow_prints_once:
  assumes "\<forall>st ms. Some (st, ms) \<in> set answers \<longrightarrow> prefix ms log"
  shows "case fold (follow_poll paint) answers follow_init of f \<Rightarrow>
      fo_count f \<le> length log \<and> fo_printed f = map (\<lambda>i. formatRunMessage paint (log ! i) i) [0..<fo_count f]
    \<and> (case fo_ended f of
         None \<Rightarrow> (\<forall>st ms. Some (st, ms) \<in> set answers \<longrightarrow> length ms \<le> fo_count f \<and> st \<noteq> RunCompleted \<and> st \<noteq> RunFailed)
       | Some st \<Rightarrow> (st = RunCompleted \<or> st = RunFailed) \<and> (\<exists>ms. Some (st, ms) \<in> set answers \<and> length ms \<le> fo_count f))"
proof -
  have "follow_ok paint log (fold (follow_poll paint) answers follow_init)"
  proof (rule fold_invariant [where Q = "\<lambda>a. a \<in> set answers"])
    show "follow_ok paint log follow_init" by (simp add: follow_ok_def follow_init_def)
    show "follow_ok paint log (follow_poll paint a f)" if "a \<in> set answers" "follow_ok paint log f" for a f
      using assms that by (intro follow_poll_ok) (auto split: option.split)
  qed auto
  moreover have "follow_settled answers (fold (follow_poll paint) answers follow_init)"
    by (rule follow_settles) (simp add: follow_init_def)
  ultimately show ?thesis by (simp add: follow_ok_def follow_settled_def)
qed

theorem follow_prints_once_witness:
  "fo_printed (fold (follow_poll (\<lambda>s t. t)) [Some (RunRunning, [UserMessage ''hi'', ToolMessage ''c'' ''x'']), None,
       Some (RunRunning, [UserMessage ''hi'']), Some (RunCompleted, [UserMessage ''hi'', ToolMessage ''c'' ''x''])] follow_init)
   = [formatRunMessage (\<lambda>s t. t) (UserMessage ''hi'') 0, formatRunMessage (\<lambda>s t. t) (ToolMessage ''c'' ''x'') 1]"
proof -
  let ?log = "[UserMessage ''hi'', ToolMessage ''c'' ''x'']"
  let ?as = "[Some (RunRunning, ?log), None, Some (RunRunning, [UserMessage ''hi'']), Some (RunCompleted, ?log)]"
  have "\<forall>st ms. Some (st, ms) \<in> set ?as \<longrightarrow> prefix ms ?log" by auto
  from follow_prints_once [OF this, of "\<lambda>s t. t"]
  have printed: "fo_printed (fold (follow_poll (\<lambda>s t. t)) ?as follow_init)
      = map (\<lambda>i. formatRunMessage (\<lambda>s t. t) (?log ! i) i) [0..<fo_count (fold (follow_poll (\<lambda>s t. t)) ?as follow_init)]" by blast
  have "fo_count (fold (follow_poll (\<lambda>s t. t)) ?as follow_init) = 2"
    by (simp add: follow_poll_def follow_init_def)
  with printed show ?thesis by (simp add: upt_rec)
qed

text \<open>
  The search for the workspace ends, and finds the nearest one: the result is the first directory with the
  files of a workspace among the start directory, its parent, and so on up to the root.
\<close>

theorem workspace_root_nearest:
  "let segs = abs_segments (full_path (CHR ''/'' # wd) startDir)
   in findSenclawWorkspaceRoot wd existsSync startDir =
        find (is_workspace wd existsSync) (map (\<lambda>k. CHR ''/'' # path_join (take k segs)) (rev [0..<Suc (length segs)]))"
proof -
  have "resolve_all wd [startDir] = CHR ''/'' # path_join (abs_segments (full_path (CHR ''/'' # wd) startDir))"
    using posix_resolve_segments [of "CHR ''/'' # wd" startDir] by (simp add: resolve_all_def posix_isAbsolute_def)
  then show ?thesis
    using workspace_search_segments abs_segments_plain by (simp add: findSenclawWorkspaceRoot_def Let_def)
qed

end
