(* ===== verification/Observability.thy ===== *)
theory Observability
  imports Complex_Main Gateway_Assembly "HOL-Library.Word"
begin

text \<open>
  Logging, metrics and tracing: \<^verbatim>\<open>packages/logging\<close>, \<^verbatim>\<open>packages/observability\<close> and the hooks by which
  \<^verbatim>\<open>apps/gateway/src/server.ts\<close> applies them to every request.

  The libraries behind them (pino, prom-client, OpenTelemetry) are third-party: the model says which calls
  the code makes on them, as values. What prom-client does with a second metric of a name is an argument.
  Durations and the sampling rate are rationals; the rounding of a quotient to a double is written out where a decision
  depends on it.
\<close>

unbundle bit_operations_syntax

section \<open>Log levels and sampling\<close>

datatype LevelWithSilent = LvTrace | LvDebug | LvInfo | LvWarn | LvError | LvFatal | LvSilent

definition LOG_LEVEL_PRIORITY :: "LevelWithSilent \<Rightarrow> nat" where
  "LOG_LEVEL_PRIORITY l =
     (case l of LvTrace \<Rightarrow> 10 | LvDebug \<Rightarrow> 20 | LvInfo \<Rightarrow> 30 | LvWarn \<Rightarrow> 40 | LvError \<Rightarrow> 50 | LvFatal \<Rightarrow> 60 | LvSilent \<Rightarrow> 70)"

definition mostVerboseLevel :: "LevelWithSilent \<Rightarrow> LevelWithSilent \<Rightarrow> LevelWithSilent" where
  "mostVerboseLevel left right = (if LOG_LEVEL_PRIORITY left \<le> LOG_LEVEL_PRIORITY right then left else right)"

definition hash_step :: "32 word \<Rightarrow> char \<Rightarrow> 32 word" where
  "hash_step h c = (h XOR word_of_nat (of_char c)) * 0x01000193"

definition hashString :: "string \<Rightarrow> nat" where
  "hashString input = unat (foldl hash_step 0x811c9dc5 input)"

text \<open>
  The quotient of two numbers below \<open>2 ^ 32\<close> with \<open>a \<le> b\<close>, rounded to a double: the significand has 53 bits
  and is rounded to the nearest, ties to even.
\<close>

definition half_even :: "nat \<Rightarrow> nat \<Rightarrow> nat" where
  "half_even a b = (let q = a div b; r = a mod b in if 2 * r < b \<or> 2 * r = b \<and> even q then q else q + 1)"

definition double_exponents :: "nat list" where
  "double_exponents = [52..<85]"

definition double_div :: "nat \<Rightarrow> nat \<Rightarrow> rat" where
  "double_div a b =
     (case find (\<lambda>k. b * 2 ^ 52 \<le> a * 2 ^ k) double_exponents of
        None \<Rightarrow> 0
      | Some k \<Rightarrow> of_nat (half_even (a * 2 ^ k) b) / 2 ^ k)"

definition shouldSampleLog :: "string \<Rightarrow> rat \<Rightarrow> bool" where
  "shouldSampleLog key rate =
     (if rate \<le> 0 then False
      else if rate \<ge> 1 then True
      else double_div (hashString key) 0xffffffff < rate)"

definition resolveLogLevel ::
    "LevelWithSilent \<Rightarrow> string option \<Rightarrow> string option \<Rightarrow> (string, LevelWithSilent) jsmap \<Rightarrow> (string, LevelWithSilent) jsmap
     \<Rightarrow> LevelWithSilent" where
  "resolveLogLevel defaultLevel endpoint userId endpointLevels userLevels =
     js_or (case userId of Some u \<Rightarrow> if u = [] then None else jm_get userLevels u | None \<Rightarrow> None)
       (js_or (case endpoint of Some e \<Rightarrow> if e = [] then None else jm_get endpointLevels e | None \<Rightarrow> None) defaultLevel)"

text \<open>The fields that every log line gets from its context, and the order in which a line is put together.\<close>

definition getContextBindings :: "string option \<Rightarrow> (string \<times> string) option \<Rightarrow> (string, json) jsmap" where
  "getContextBindings correlationId spanContext =
     (case correlationId of Some c \<Rightarrow> if c = [] then [] else [(''correlationId'', JStr c)] | None \<Rightarrow> [])
     @ (case spanContext of Some (t, s) \<Rightarrow> [(''traceId'', JStr t), (''spanId'', JStr s)] | None \<Rightarrow> [])"

definition log_object :: "string option \<Rightarrow> (string \<times> string) option \<Rightarrow> (string, json) jsmap \<Rightarrow> (string, json) jsmap" where
  "log_object correlationId spanContext entries =
     foldl (\<lambda>o1 (k, v). jm_set o1 k v) (getContextBindings correlationId spanContext) entries"

definition correlation_id :: "(string, string) jsmap \<Rightarrow> ident \<Rightarrow> ident" where
  "correlation_id headers uuid = js_or (jm_get headers ''x-correlation-id'') uuid"

section \<open>The log line of a request\<close>

text \<open>
  \<open>routeUrl\<close> is the pattern of the route as the framework reports it, if the request matched one.
\<close>

definition resolveMetricPath :: "string option \<Rightarrow> request \<Rightarrow> string" where
  "resolveMetricPath routeUrl req = js_or routeUrl (request_path req)"

definition HIGH_VOLUME_PATHS :: "string list" where
  "HIGH_VOLUME_PATHS = [''/health'', ''/metrics'']"

definition readOptionalString :: "json option \<Rightarrow> string option" where
  "readOptionalString v = (case v of Some (JStr s) \<Rightarrow> if s = [] then None else Some s | _ \<Rightarrow> None)"

definition readRequestObject :: "json option \<Rightarrow> (string, json) jsmap" where
  "readRequestObject v = (case v of Some (JObj fs) \<Rightarrow> fs | _ \<Rightarrow> [])"

definition requestLogLevel ::
    "LevelWithSilent \<Rightarrow> string \<Rightarrow> string option \<Rightarrow> (string, LevelWithSilent) jsmap \<Rightarrow> (string, LevelWithSilent) jsmap
     \<Rightarrow> LevelWithSilent" where
  "requestLogLevel defaultLevel path userId endpointLevels userLevels =
     (if defaultLevel \<noteq> LvInfo then defaultLevel
      else resolveLogLevel defaultLevel (Some path) userId endpointLevels userLevels)"

definition extractRequestLogFields :: "request \<Rightarrow> string \<Rightarrow> (string, string) jsmap" where
  "extractRequestLogFields req path =
     (let body = readRequestObject (rq_body req);
          named = readOptionalString (jm_get body ''agentId'');
          param = readOptionalString (Some (JStr (rq_id req)));
          agentId = (if named = None \<and> js_startsWith path ''/api/v1/agents/'' then param else named);
          runId = (if js_startsWith path ''/api/v1/runs/'' then param else None)
      in List.map_filter (\<lambda>(k, v). map_option (Pair k) v)
           [(''userId'', map_option au_createdBy (rq_apiKey req)), (''agentId'', agentId), (''runId'', runId),
            (''toolName'', readOptionalString (jm_get body ''toolName''))])"

record log_settings =
  ls_endpointLevels :: "(string, LevelWithSilent) jsmap"
  ls_userLevels :: "(string, LevelWithSilent) jsmap"
  ls_samplingRate :: rat

definition debug_levels :: "string list \<Rightarrow> (string, LevelWithSilent) jsmap" where
  "debug_levels names = foldl (\<lambda>m n. jm_set m n LvDebug) [] names"

definition request_log_settings :: "SenclawConfig \<Rightarrow> rat \<Rightarrow> log_settings" where
  "request_log_settings config rate =
     \<lparr>ls_endpointLevels = debug_levels (cf_logDebugEndpoints config),
      ls_userLevels = debug_levels (cf_logDebugUsers config), ls_samplingRate = rate\<rparr>"

record log_call =
  lg_level :: LevelWithSilent
  lg_method :: string
  lg_path :: string
  lg_statusCode :: int
  lg_fields :: "(string, string) jsmap"
  lg_durationMs :: int

definition status_level :: "int \<Rightarrow> LevelWithSilent" where
  "status_level status = (if status \<ge> 500 then LvError else if status \<ge> 400 then LvWarn else LvInfo)"

text \<open>
  The hook after a response. The correlation identifier is the header of the reply and \<open>requestId\<close> the
  framework's own number of the request.
\<close>

definition log_response ::
    "log_settings \<Rightarrow> string option \<Rightarrow> string option \<Rightarrow> ident \<Rightarrow> rat \<Rightarrow> request \<Rightarrow> int \<Rightarrow> log_call option" where
  "log_response ls routeUrl correlation requestId elapsed req status =
     (let path = resolveMetricPath routeUrl req;
          correlationId = readOptionalString (map_option JStr correlation);
          userId = map_option au_createdBy (rq_apiKey req);
          defaultLevel = status_level status;
          level = requestLogLevel defaultLevel path userId (ls_endpointLevels ls) (ls_userLevels ls);
          isSampled = (path \<notin> set HIGH_VOLUME_PATHS
            \<or> shouldSampleLog (rq_method req @ '':'' @ path @ '':'' @ js_or correlationId requestId) (ls_samplingRate ls))
      in if \<not> isSampled \<and> level = defaultLevel then None
         else Some \<lparr>lg_level = level, lg_method = rq_method req, lg_path = path, lg_statusCode = status,
                lg_fields = extractRequestLogFields req path, lg_durationMs = max 0 \<lfloor>elapsed + 1 / 2\<rfloor>\<rparr>)"

section \<open>Lemmas on sampling\<close>

lemma half_even_close:
  assumes "0 < b"
  shows "\<bar>of_nat (half_even a b) - of_nat a / of_nat b\<bar> \<le> (1 / 2 :: rat)"
proof -
  define q r where "q = a div b" and "r = a mod b"
  have r: "r < b" and a: "a = q * b + r" using assms by (simp_all add: q_def r_def)
  have b: "(of_nat b :: rat) > 0" using assms by simp
  have quotient: "(of_nat a / of_nat b :: rat) = of_nat q + of_nat r / of_nat b"
    using b by (simp add: a field_simps)
  show ?thesis
  proof (cases "2 * r < b \<or> 2 * r = b \<and> even q")
    case True
    then have "(2 * of_nat r :: rat) \<le> of_nat b" by (metis less_or_eq_imp_le of_nat_le_iff of_nat_mult of_nat_numeral order_refl)
    with b have "(of_nat r / of_nat b :: rat) \<le> 1 / 2" by (simp add: field_simps)
    moreover have "half_even a b = q" using True by (auto simp: half_even_def Let_def q_def r_def)
    ultimately show ?thesis using b by (simp add: quotient)
  next
    case False
    then have "b \<le> 2 * r" by auto
    then have "(of_nat b :: rat) \<le> 2 * of_nat r" by (metis of_nat_le_iff of_nat_mult of_nat_numeral)
    moreover have "(of_nat r :: rat) < of_nat b" using r by simp
    ultimately have "1 / 2 \<le> (of_nat r / of_nat b :: rat)" "(of_nat r / of_nat b :: rat) < 1"
      using b by (simp_all add: field_simps)
    moreover have "half_even a b = q + 1" using False by (auto simp: half_even_def Let_def q_def r_def)
    ultimately show ?thesis by (simp add: quotient)
  qed
qed

lemma double_div_close:
  assumes "a \<le> b" "0 < b" "b \<le> 2 ^ 32"
  shows "\<bar>double_div a b - of_nat a / of_nat b\<bar> \<le> 1 / 2 ^ 53"
proof (cases "find (\<lambda>k. b * 2 ^ 52 \<le> a * 2 ^ k) double_exponents")
  case None
  moreover have "84 \<in> set double_exponents" unfolding double_exponents_def set_upt by simp
  ultimately have "\<not> b * 2 ^ 52 \<le> a * 2 ^ 84" unfolding find_None_iff by blast
  with assms(3) have "a = 0" by (cases a) simp_all
  with None show ?thesis by (simp add: double_div_def)
next
  case (Some k)
  then have k: "52 \<le> k" using find_Some_set [OF Some] unfolding double_exponents_def set_upt by simp
  have scale: "(of_nat (a * 2 ^ k) / of_nat b / 2 ^ k :: rat) = of_nat a / of_nat b" by simp
  have "double_div a b - of_nat a / of_nat b = (of_nat (half_even (a * 2 ^ k) b) - of_nat (a * 2 ^ k) / of_nat b) / 2 ^ k"
    unfolding diff_divide_distrib scale by (simp only: double_div_def Some option.case)
  also have "\<bar>\<dots>\<bar> \<le> (1 / 2) / (2 ^ k :: rat)"
    using divide_right_mono [OF half_even_close [OF assms(2), of "a * 2 ^ k"], of "2 ^ k"] by (simp add: abs_divide)
  also have "\<dots> \<le> (1 / 2) / 2 ^ 52" using power_increasing [OF k, of "2 :: rat"] by (simp add: frac_le)
  finally show ?thesis by simp
qed

lemma hashString_bound: "hashString s < 2 ^ 32"
  unfolding hashString_def using unsigned_less [of "foldl hash_step 0x811c9dc5 s"] by simp

lemma sample_close: "\<bar>double_div (hashString key) 0xffffffff - of_nat (hashString key) / 0xffffffff\<bar> \<le> 1 / 2 ^ 53"
  using double_div_close [where a = "hashString key" and b = "0xffffffff"] hashString_bound [where s = key] by simp

text \<open>A name is among the debug levels exactly if it was configured.\<close>

lemma debug_levels_get: "jm_get (debug_levels names) n = (if n \<in> set names then Some LvDebug else None)"
proof -
  have "jm_get (foldl (\<lambda>m n. jm_set m n LvDebug) m names) n
          = (if n \<in> set names then Some LvDebug else jm_get m n)" for m :: "(string, LevelWithSilent) jsmap"
    by (induction names arbitrary: m) (auto simp: jsm_simps)
  then show ?thesis by (simp add: debug_levels_def)
qed

lemma request_level:
  "requestLogLevel (status_level status) path userId (debug_levels endpoints) (debug_levels users)
   = (if status < 400 \<and> (path \<noteq> [] \<and> path \<in> set endpoints \<or> (\<exists>u. userId = Some u \<and> u \<noteq> [] \<and> u \<in> set users))
      then LvDebug else status_level status)"
  by (auto simp: requestLogLevel_def status_level_def resolveLogLevel_def debug_levels_get js_or_def split: option.splits)

section \<open>Metrics\<close>

text \<open>A metric object of the client library, and what the code tells it.\<close>

datatype metric_kind = CounterMetric | HistogramMetric | GaugeMetric

record metric =
  mt_kind :: metric_kind
  mt_name :: string
  mt_help :: string
  mt_labelNames :: "string list"
  mt_buckets :: "rat list"

datatype metric_call =
  MetricInc metric "(string, string) jsmap"
| MetricObserve metric "(string, string) jsmap" rat

record MetricsRegistry =
  mr_enabled :: bool
  mr_registry :: "metric list"
  mr_counters :: "(string, metric) jsmap"
  mr_histograms :: "(string, metric) jsmap"
  mr_gauges :: "(string, metric) jsmap"
  mr_calls :: "metric_call list"

text \<open>The library's registry may refuse a new metric.\<close>

type_synonym prom_registry = "metric list \<Rightarrow> metric \<Rightarrow> exn option"

definition new_metric :: "prom_registry \<Rightarrow> metric \<Rightarrow> MetricsRegistry \<Rightarrow> MetricsRegistry result" where
  "new_metric refuses m r =
     (case refuses (mr_registry r) m of
        Some e \<Rightarrow> Inl e
      | None \<Rightarrow> Inr (r\<lparr>mr_registry := mr_registry r @ [m]\<rparr>))"

definition registerCounter :: "prom_registry \<Rightarrow> metric \<Rightarrow> MetricsRegistry \<Rightarrow> (MetricsRegistry \<times> metric) result" where
  "registerCounter refuses config r =
     (case jm_get (mr_counters r) (mt_name config) of
        Some existing \<Rightarrow> Inr (r, existing)
      | None \<Rightarrow>
          (case new_metric refuses config r of
             Inl e \<Rightarrow> Inl e
           | Inr r1 \<Rightarrow> Inr (r1\<lparr>mr_counters := jm_set (mr_counters r1) (mt_name config) config\<rparr>, config)))"

definition registerHistogram :: "prom_registry \<Rightarrow> metric \<Rightarrow> MetricsRegistry \<Rightarrow> (MetricsRegistry \<times> metric) result" where
  "registerHistogram refuses config r =
     (case jm_get (mr_histograms r) (mt_name config) of
        Some existing \<Rightarrow> Inr (r, existing)
      | None \<Rightarrow>
          (case new_metric refuses config r of
             Inl e \<Rightarrow> Inl e
           | Inr r1 \<Rightarrow> Inr (r1\<lparr>mr_histograms := jm_set (mr_histograms r1) (mt_name config) config\<rparr>, config)))"

definition registerGauge :: "prom_registry \<Rightarrow> metric \<Rightarrow> MetricsRegistry \<Rightarrow> (MetricsRegistry \<times> metric) result" where
  "registerGauge refuses config r =
     (case jm_get (mr_gauges r) (mt_name config) of
        Some existing \<Rightarrow> Inr (r, existing)
      | None \<Rightarrow>
          (case new_metric refuses config r of
             Inl e \<Rightarrow> Inl e
           | Inr r1 \<Rightarrow> Inr (r1\<lparr>mr_gauges := jm_set (mr_gauges r1) (mt_name config) config\<rparr>, config)))"

definition counter_config :: "string \<Rightarrow> string \<Rightarrow> string list \<Rightarrow> metric" where
  "counter_config name help labels =
     \<lparr>mt_kind = CounterMetric, mt_name = name, mt_help = help, mt_labelNames = labels, mt_buckets = []\<rparr>"

definition histogram_config :: "string \<Rightarrow> string \<Rightarrow> string list \<Rightarrow> rat list \<Rightarrow> metric" where
  "histogram_config name help labels buckets =
     \<lparr>mt_kind = HistogramMetric, mt_name = name, mt_help = help, mt_labelNames = labels, mt_buckets = buckets\<rparr>"

definition httpRequestsTotal :: metric where
  "httpRequestsTotal = counter_config ''http_requests_total'' ''Total number of HTTP requests.'' [''method'', ''path'', ''status'']"

definition httpRequestDurationSeconds :: metric where
  "httpRequestDurationSeconds = histogram_config ''http_request_duration_seconds'' ''HTTP request duration in seconds.''
     [''method'', ''path'', ''status''] [5 / 1000, 1 / 100, 5 / 100, 1 / 10, 5 / 10, 1, 2, 5]"

definition agentExecutionsTotal :: metric where
  "agentExecutionsTotal = counter_config ''agent_executions_total'' ''Total number of agent executions.'' [''agent_id'', ''status'']"

definition agentExecutionDurationSeconds :: metric where
  "agentExecutionDurationSeconds = histogram_config ''agent_execution_duration_seconds'' ''Agent execution duration in seconds.''
     [''agent_id''] [1 / 10, 5 / 10, 1, 2, 5, 10, 30, 60, 120]"

definition toolCallsTotal :: metric where
  "toolCallsTotal = counter_config ''tool_calls_total'' ''Total number of tool calls.'' [''tool_name'', ''status'']"

definition toolCallDurationSeconds :: metric where
  "toolCallDurationSeconds = histogram_config ''tool_call_duration_seconds'' ''Tool call duration in seconds.''
     [''tool_name''] [1 / 1000, 1 / 100, 5 / 100, 1 / 10, 5 / 10, 1, 5, 10]"

definition dbQueryDurationSeconds :: metric where
  "dbQueryDurationSeconds = histogram_config ''db_query_duration_seconds'' ''Database query duration in seconds.''
     [''operation''] [5 / 10000, 1 / 1000, 5 / 1000, 1 / 100, 5 / 100, 1 / 10, 5 / 10]"

definition constructor_metrics :: "metric list" where
  "constructor_metrics =
     [httpRequestsTotal, httpRequestDurationSeconds, agentExecutionsTotal, agentExecutionDurationSeconds, toolCallsTotal,
      toolCallDurationSeconds, dbQueryDurationSeconds]"

fun register_metrics :: "prom_registry \<Rightarrow> metric list \<Rightarrow> MetricsRegistry \<Rightarrow> MetricsRegistry result" where
  "register_metrics refuses [] r = Inr r"
| "register_metrics refuses (m # ms) r =
     (case (if mt_kind m = CounterMetric then registerCounter refuses m r else registerHistogram refuses m r) of
        Inl e \<Rightarrow> Inl e
      | Inr (r1, _) \<Rightarrow> register_metrics refuses ms r1)"

definition createMetricsRegistry :: "prom_registry \<Rightarrow> bool option \<Rightarrow> MetricsRegistry result" where
  "createMetricsRegistry refuses on =
     register_metrics refuses constructor_metrics
       \<lparr>mr_enabled = js_or on True, mr_registry = [], mr_counters = [], mr_histograms = [], mr_gauges = [], mr_calls = []\<rparr>"

text \<open>The registry of the process, created at its first use unless it was configured before.\<close>

definition configureMetricsRegistry :: "prom_registry \<Rightarrow> bool option \<Rightarrow> MetricsRegistry option \<Rightarrow> MetricsRegistry option result" where
  "configureMetricsRegistry refuses on current =
     (case createMetricsRegistry refuses on of Inl e \<Rightarrow> Inl e | Inr r \<Rightarrow> Inr (Some r))"

definition getMetricsRegistry :: "prom_registry \<Rightarrow> MetricsRegistry option \<Rightarrow> MetricsRegistry result" where
  "getMetricsRegistry refuses current =
     (case current of Some r \<Rightarrow> Inr r | None \<Rightarrow> createMetricsRegistry refuses None)"

definition resetMetricsRegistry :: "prom_registry \<Rightarrow> bool option \<Rightarrow> MetricsRegistry option \<Rightarrow> MetricsRegistry option result" where
  "resetMetricsRegistry = configureMetricsRegistry"

definition tell :: "metric_call list \<Rightarrow> MetricsRegistry \<Rightarrow> MetricsRegistry" where
  "tell cs r = r\<lparr>mr_calls := mr_calls r @ cs\<rparr>"

datatype metric_status = MetricSuccess | MetricFailed

definition metric_status_text :: "metric_status \<Rightarrow> string" where
  "metric_status_text s = (case s of MetricSuccess \<Rightarrow> ''success'' | MetricFailed \<Rightarrow> ''failed'')"

definition recordHttpRequest :: "string \<Rightarrow> string \<Rightarrow> string \<Rightarrow> rat \<Rightarrow> MetricsRegistry \<Rightarrow> MetricsRegistry" where
  "recordHttpRequest method path status durationSeconds r =
     (if \<not> mr_enabled r then r
      else let labels = [(''method'', method), (''path'', path), (''status'', status)]
           in tell [MetricInc httpRequestsTotal labels, MetricObserve httpRequestDurationSeconds labels durationSeconds] r)"

definition recordAgentExecution :: "string \<Rightarrow> metric_status \<Rightarrow> rat \<Rightarrow> MetricsRegistry \<Rightarrow> MetricsRegistry" where
  "recordAgentExecution agentId status durationSeconds r =
     (if \<not> mr_enabled r then r
      else tell [MetricInc agentExecutionsTotal [(''agent_id'', agentId), (''status'', metric_status_text status)],
             MetricObserve agentExecutionDurationSeconds [(''agent_id'', agentId)] durationSeconds] r)"

definition recordToolCall :: "string \<Rightarrow> metric_status \<Rightarrow> rat \<Rightarrow> MetricsRegistry \<Rightarrow> MetricsRegistry" where
  "recordToolCall toolName status durationSeconds r =
     (if \<not> mr_enabled r then r
      else tell [MetricInc toolCallsTotal [(''tool_name'', toolName), (''status'', metric_status_text status)],
             MetricObserve toolCallDurationSeconds [(''tool_name'', toolName)] durationSeconds] r)"

definition recordDatabaseQuery :: "string \<Rightarrow> rat \<Rightarrow> MetricsRegistry \<Rightarrow> MetricsRegistry" where
  "recordDatabaseQuery operation durationSeconds r =
     (if \<not> mr_enabled r then r
      else tell [MetricObserve dbQueryDurationSeconds [(''operation'', operation)] durationSeconds] r)"

text \<open>The duration that the hook, the tools and the database wrapper report, from a reading in milliseconds.\<close>

definition duration_seconds :: "rat \<Rightarrow> rat" where
  "duration_seconds elapsed = max 0 elapsed / 1000"

definition record_response :: "string option \<Rightarrow> request \<Rightarrow> int \<Rightarrow> rat \<Rightarrow> MetricsRegistry \<Rightarrow> MetricsRegistry" where
  "record_response routeUrl req status elapsed =
     recordHttpRequest (rq_method req) (resolveMetricPath routeUrl req) (show_int status) (duration_seconds elapsed)"

definition observeDbQuery :: "string \<Rightarrow> rat \<Rightarrow> 'a result \<Rightarrow> MetricsRegistry \<Rightarrow> MetricsRegistry \<times> 'a result" where
  "observeDbQuery operation elapsed query r = (recordDatabaseQuery operation (duration_seconds elapsed) r, query)"

text \<open>The metrics of the scheduler, registered at their first use.\<close>

definition SCHEDULER_EXECUTED_TOTAL :: metric where
  "SCHEDULER_EXECUTED_TOTAL = counter_config ''scheduler_jobs_executed_total''
     ''Total number of scheduler job executions that were submitted.'' [''job_id'']"

definition SCHEDULER_FAILED_TOTAL :: metric where
  "SCHEDULER_FAILED_TOTAL = counter_config ''scheduler_jobs_failed_total''
     ''Total number of scheduler job executions that failed.'' [''job_id'']"

definition SCHEDULER_SKIPPED_TOTAL :: metric where
  "SCHEDULER_SKIPPED_TOTAL = counter_config ''scheduler_jobs_skipped_total''
     ''Total number of scheduler job executions that were skipped.'' [''job_id'']"

definition SCHEDULER_DURATION_SECONDS :: metric where
  "SCHEDULER_DURATION_SECONDS = histogram_config ''scheduler_execution_duration_seconds''
     ''Scheduler job execution duration in seconds.'' [''job_id''] [1 / 1000, 1 / 100, 5 / 100, 1 / 10, 5 / 10, 1, 5, 10]"

definition incrementExecutionMetric :: "prom_registry \<Rightarrow> metric \<Rightarrow> ident \<Rightarrow> MetricsRegistry \<Rightarrow> MetricsRegistry result" where
  "incrementExecutionMetric refuses m jobId r =
     (case registerCounter refuses m r of
        Inl e \<Rightarrow> Inl e
      | Inr (r1, c) \<Rightarrow> Inr (tell [MetricInc c [(''job_id'', jobId)]] r1))"

definition observeExecutionDuration :: "prom_registry \<Rightarrow> ident \<Rightarrow> rat \<Rightarrow> MetricsRegistry \<Rightarrow> MetricsRegistry result" where
  "observeExecutionDuration refuses jobId durationMs r =
     (case registerHistogram refuses SCHEDULER_DURATION_SECONDS r of
        Inl e \<Rightarrow> Inl e
      | Inr (r1, h) \<Rightarrow> Inr (tell [MetricObserve h [(''job_id'', jobId)] (durationMs / 1000)] r1))"

text \<open>Everything the program records, as events.\<close>

datatype job_outcome = JobSubmitted | JobFailed | JobSkipped

definition job_metric :: "job_outcome \<Rightarrow> metric" where
  "job_metric j = (case j of JobSubmitted \<Rightarrow> SCHEDULER_EXECUTED_TOTAL | JobFailed \<Rightarrow> SCHEDULER_FAILED_TOTAL
                   | JobSkipped \<Rightarrow> SCHEDULER_SKIPPED_TOTAL)"

datatype metric_event =
  HttpResponded "string option" request int rat
| AgentExecuted ident metric_status rat
| ToolCalled string metric_status rat
| DbQueried string rat
| JobCounted job_outcome ident
| JobTimed ident rat

fun metric_step :: "prom_registry \<Rightarrow> metric_event \<Rightarrow> MetricsRegistry \<Rightarrow> MetricsRegistry option" where
  "metric_step refuses (HttpResponded routeUrl req status elapsed) r = Some (record_response routeUrl req status elapsed r)"
| "metric_step refuses (AgentExecuted a st elapsed) r = Some (recordAgentExecution a st (duration_seconds elapsed) r)"
| "metric_step refuses (ToolCalled t st elapsed) r = Some (recordToolCall t st (duration_seconds elapsed) r)"
| "metric_step refuses (DbQueried op elapsed) r = Some (recordDatabaseQuery op (duration_seconds elapsed) r)"
| "metric_step refuses (JobCounted j i) r =
     (case incrementExecutionMetric refuses (job_metric j) i r of Inl _ \<Rightarrow> None | Inr r1 \<Rightarrow> Some r1)"
| "metric_step refuses (JobTimed i ms) r =
     (case observeExecutionDuration refuses i ms r of Inl _ \<Rightarrow> None | Inr r1 \<Rightarrow> Some r1)"

text \<open>What the library should be told of an event, whatever happened before.\<close>

fun event_calls :: "bool \<Rightarrow> metric_event \<Rightarrow> metric_call list" where
  "event_calls on (HttpResponded routeUrl req status elapsed) =
     (let labels = [(''method'', rq_method req), (''path'', resolveMetricPath routeUrl req), (''status'', show_int status)]
      in if on then [MetricInc httpRequestsTotal labels,
                     MetricObserve httpRequestDurationSeconds labels (duration_seconds elapsed)] else [])"
| "event_calls on (AgentExecuted a st elapsed) =
     (if on then [MetricInc agentExecutionsTotal [(''agent_id'', a), (''status'', metric_status_text st)],
                  MetricObserve agentExecutionDurationSeconds [(''agent_id'', a)] (duration_seconds elapsed)] else [])"
| "event_calls on (ToolCalled t st elapsed) =
     (if on then [MetricInc toolCallsTotal [(''tool_name'', t), (''status'', metric_status_text st)],
                  MetricObserve toolCallDurationSeconds [(''tool_name'', t)] (duration_seconds elapsed)] else [])"
| "event_calls on (DbQueried op elapsed) =
     (if on then [MetricObserve dbQueryDurationSeconds [(''operation'', op)] (duration_seconds elapsed)] else [])"
| "event_calls on (JobCounted j i) = [MetricInc (job_metric j) [(''job_id'', i)]]"
| "event_calls on (JobTimed i ms) = [MetricObserve SCHEDULER_DURATION_SECONDS [(''job_id'', i)] (ms / 1000)]"

text \<open>A call that the library accepts: on a registered metric of its kind, with exactly the declared labels.\<close>

fun call_declared :: "metric list \<Rightarrow> metric_call \<Rightarrow> bool" where
  "call_declared ms (MetricInc m labels) \<longleftrightarrow> m \<in> set ms \<and> mt_kind m = CounterMetric \<and> map fst labels = mt_labelNames m"
| "call_declared ms (MetricObserve m labels v) \<longleftrightarrow>
     m \<in> set ms \<and> mt_kind m = HistogramMetric \<and> map fst labels = mt_labelNames m"

text \<open>The documented behaviour of the library's registry: it refuses a name that is taken, and no other.\<close>

definition prom_contract :: "prom_registry \<Rightarrow> bool" where
  "prom_contract refuses \<longleftrightarrow> (\<forall>ms m. refuses ms m = None \<longleftrightarrow> mt_name m \<notin> mt_name ` set ms)"

definition program_metrics :: "metric list" where
  "program_metrics = constructor_metrics
     @ [SCHEDULER_EXECUTED_TOTAL, SCHEDULER_FAILED_TOTAL, SCHEDULER_SKIPPED_TOTAL, SCHEDULER_DURATION_SECONDS]"

definition metrics_ok :: "MetricsRegistry \<Rightarrow> bool" where
  "metrics_ok r \<longleftrightarrow>
     set (mr_registry r) \<subseteq> set program_metrics
     \<and> distinct (map mt_name (mr_registry r))
     \<and> (\<forall>n m. jm_get (mr_counters r) n = Some m \<longleftrightarrow> m \<in> set (mr_registry r) \<and> mt_name m = n \<and> mt_kind m = CounterMetric)
     \<and> (\<forall>n m. jm_get (mr_histograms r) n = Some m \<longleftrightarrow> m \<in> set (mr_registry r) \<and> mt_name m = n \<and> mt_kind m = HistogramMetric)
     \<and> (\<forall>c \<in> set (mr_calls r). call_declared (mr_registry r) c)"

lemmas metric_defs = httpRequestsTotal_def httpRequestDurationSeconds_def agentExecutionsTotal_def
  agentExecutionDurationSeconds_def toolCallsTotal_def toolCallDurationSeconds_def dbQueryDurationSeconds_def
  SCHEDULER_EXECUTED_TOTAL_def SCHEDULER_FAILED_TOTAL_def SCHEDULER_SKIPPED_TOTAL_def SCHEDULER_DURATION_SECONDS_def
  counter_config_def histogram_config_def

lemma program_names: "distinct (map mt_name program_metrics)"
  by (simp add: program_metrics_def constructor_metrics_def metric_defs)

lemma program_kinds: "m \<in> set program_metrics \<Longrightarrow> mt_kind m = CounterMetric \<or> mt_kind m = HistogramMetric"
  by (auto simp: program_metrics_def constructor_metrics_def metric_defs)

lemma program_name_inj:
  "m \<in> set program_metrics \<Longrightarrow> m' \<in> set program_metrics \<Longrightarrow> mt_name m = mt_name m' \<Longrightarrow> m = m'"
  using program_names by (metis distinct_map inj_onD)

lemma call_declared_mono: "call_declared ms c \<Longrightarrow> set ms \<subseteq> set ms' \<Longrightarrow> call_declared ms' c"
  by (cases c) auto

text \<open>A metric of the program that is not registered yet is accepted, and the registry stays well formed.\<close>

lemma unregistered:
  assumes ok: "metrics_ok r" and m: "m \<in> set program_metrics" and "m \<notin> set (mr_registry r)"
  shows "mt_name m \<notin> mt_name ` set (mr_registry r)"
proof
  assume "mt_name m \<in> mt_name ` set (mr_registry r)"
  then obtain m' where m': "m' \<in> set (mr_registry r)" "mt_name m = mt_name m'" by auto
  then have "m' \<in> set program_metrics" using ok unfolding metrics_ok_def by blast
  with program_name_inj [OF m] m' assms(3) show False by blast
qed

lemma register_counter_ok:
  assumes contract: "prom_contract refuses" and ok: "metrics_ok r"
    and m: "m \<in> set program_metrics" and kind: "mt_kind m = CounterMetric"
  shows "\<exists>r'. registerCounter refuses m r = Inr (r', m) \<and> metrics_ok r' \<and> m \<in> set (mr_registry r')
    \<and> set (mr_registry r) \<subseteq> set (mr_registry r') \<and> mr_calls r' = mr_calls r \<and> mr_enabled r' = mr_enabled r"
proof (cases "m \<in> set (mr_registry r)")
  case True
  with ok kind have "jm_get (mr_counters r) (mt_name m) = Some m" by (simp add: metrics_ok_def)
  with True ok show ?thesis by (simp add: registerCounter_def)
next
  case False
  note fresh = unregistered [OF ok m False]
  with ok have none: "jm_get (mr_counters r) (mt_name m) = None"
    by (metis metrics_ok_def image_eqI not_Some_eq)
  have accepted: "refuses (mr_registry r) m = None" using contract fresh by (simp add: prom_contract_def)
  define r' where "r' = r\<lparr>mr_registry := mr_registry r @ [m], mr_counters := jm_set (mr_counters r) (mt_name m) m\<rparr>"
  have "metrics_ok r'" using ok m kind fresh
    by (auto simp: metrics_ok_def r'_def jsm_simps image_iff intro: call_declared_mono)
  moreover have "registerCounter refuses m r = Inr (r', m)"
    by (simp add: registerCounter_def new_metric_def none accepted r'_def)
  ultimately show ?thesis by (auto simp: r'_def)
qed

lemma register_histogram_ok:
  assumes contract: "prom_contract refuses" and ok: "metrics_ok r"
    and m: "m \<in> set program_metrics" and kind: "mt_kind m = HistogramMetric"
  shows "\<exists>r'. registerHistogram refuses m r = Inr (r', m) \<and> metrics_ok r' \<and> m \<in> set (mr_registry r')
    \<and> set (mr_registry r) \<subseteq> set (mr_registry r') \<and> mr_calls r' = mr_calls r \<and> mr_enabled r' = mr_enabled r"
proof (cases "m \<in> set (mr_registry r)")
  case True
  with ok kind have "jm_get (mr_histograms r) (mt_name m) = Some m" by (simp add: metrics_ok_def)
  with True ok show ?thesis by (simp add: registerHistogram_def)
next
  case False
  note fresh = unregistered [OF ok m False]
  with ok have none: "jm_get (mr_histograms r) (mt_name m) = None"
    by (metis metrics_ok_def image_eqI not_Some_eq)
  have accepted: "refuses (mr_registry r) m = None" using contract fresh by (simp add: prom_contract_def)
  define r' where "r' = r\<lparr>mr_registry := mr_registry r @ [m], mr_histograms := jm_set (mr_histograms r) (mt_name m) m\<rparr>"
  have "metrics_ok r'" using ok m kind fresh
    by (auto simp: metrics_ok_def r'_def jsm_simps image_iff intro: call_declared_mono)
  moreover have "registerHistogram refuses m r = Inr (r', m)"
    by (simp add: registerHistogram_def new_metric_def none accepted r'_def)
  ultimately show ?thesis by (auto simp: r'_def)
qed

lemma register_metrics_ok:
  assumes "prom_contract refuses"
  shows "metrics_ok r \<Longrightarrow> set ms \<subseteq> set program_metrics \<Longrightarrow>
    \<exists>r'. register_metrics refuses ms r = Inr r' \<and> metrics_ok r' \<and> set ms \<union> set (mr_registry r) \<subseteq> set (mr_registry r')
      \<and> mr_calls r' = mr_calls r \<and> mr_enabled r' = mr_enabled r"
proof (induction ms arbitrary: r)
  case (Cons m ms)
  then have m: "m \<in> set program_metrics" by simp
  obtain r1 where r1: "(if mt_kind m = CounterMetric then registerCounter refuses m r else registerHistogram refuses m r) = Inr (r1, m)"
    and "metrics_ok r1" "m \<in> set (mr_registry r1)" "set (mr_registry r) \<subseteq> set (mr_registry r1)"
      "mr_calls r1 = mr_calls r" "mr_enabled r1 = mr_enabled r"
    using register_counter_ok [OF assms Cons.prems(1) m] register_histogram_ok [OF assms Cons.prems(1) m] program_kinds [OF m]
    by (cases "mt_kind m = CounterMetric") auto
  moreover from Cons.IH [OF \<open>metrics_ok r1\<close>] Cons.prems obtain r' where "register_metrics refuses ms r1 = Inr r'" "metrics_ok r'"
    "set ms \<union> set (mr_registry r1) \<subseteq> set (mr_registry r')" "mr_calls r' = mr_calls r1" "mr_enabled r' = mr_enabled r1"
    by auto
  ultimately show ?case by (intro exI [of _ r']) (simp, blast)
qed simp

lemma tell_ok: "metrics_ok r \<Longrightarrow> \<forall>c \<in> set cs. call_declared (mr_registry r) c \<Longrightarrow> metrics_ok (tell cs r)"
  by (auto simp: metrics_ok_def tell_def)

text \<open>Each event tells the library exactly its calls, and none of them is refused.\<close>

definition metrics_started :: "MetricsRegistry \<Rightarrow> bool" where
  "metrics_started r \<longleftrightarrow> metrics_ok r \<and> set constructor_metrics \<subseteq> set (mr_registry r)"

lemma metric_shapes [simp]:
  "mt_kind httpRequestsTotal = CounterMetric" "mt_labelNames httpRequestsTotal = [''method'', ''path'', ''status'']"
  "mt_kind httpRequestDurationSeconds = HistogramMetric" "mt_labelNames httpRequestDurationSeconds = [''method'', ''path'', ''status'']"
  "mt_kind agentExecutionsTotal = CounterMetric" "mt_labelNames agentExecutionsTotal = [''agent_id'', ''status'']"
  "mt_kind agentExecutionDurationSeconds = HistogramMetric" "mt_labelNames agentExecutionDurationSeconds = [''agent_id'']"
  "mt_kind toolCallsTotal = CounterMetric" "mt_labelNames toolCallsTotal = [''tool_name'', ''status'']"
  "mt_kind toolCallDurationSeconds = HistogramMetric" "mt_labelNames toolCallDurationSeconds = [''tool_name'']"
  "mt_kind dbQueryDurationSeconds = HistogramMetric" "mt_labelNames dbQueryDurationSeconds = [''operation'']"
  "mt_kind (job_metric j) = CounterMetric" "mt_labelNames (job_metric j) = [''job_id'']"
  "mt_kind SCHEDULER_DURATION_SECONDS = HistogramMetric" "mt_labelNames SCHEDULER_DURATION_SECONDS = [''job_id'']"
  by (simp_all add: metric_defs job_metric_def split: job_outcome.split)

lemma job_metrics_of_program [simp]: "job_metric j \<in> set program_metrics" "SCHEDULER_DURATION_SECONDS \<in> set program_metrics"
  by (simp_all add: program_metrics_def job_metric_def split: job_outcome.split)

lemma tell_Nil [simp]: "tell [] r = r"
  by (simp add: tell_def)

lemma told:
  assumes "metrics_started r" and "\<forall>c \<in> set cs. call_declared (mr_registry r) c"
  shows "metrics_started (tell cs r)" "mr_enabled (tell cs r) = mr_enabled r" "mr_calls (tell cs r) = mr_calls r @ cs"
  using assms tell_ok by (simp_all add: metrics_started_def) (simp_all add: tell_def)

fun job_event :: "metric_event \<Rightarrow> bool" where
  "job_event (JobCounted j i) = True"
| "job_event (JobTimed i ms) = True"
| "job_event _ = False"

lemma direct_step: "\<not> job_event e \<Longrightarrow> metric_step refuses e r = Some (tell (event_calls (mr_enabled r) e) r)"
  by (cases e) (simp_all add: record_response_def recordHttpRequest_def recordAgentExecution_def recordToolCall_def
    recordDatabaseQuery_def Let_def)

lemma direct_declared: "\<not> job_event e \<Longrightarrow> set constructor_metrics \<subseteq> set ms \<Longrightarrow> \<forall>c \<in> set (event_calls on e). call_declared ms c"
  by (cases e; cases on) (simp_all add: constructor_metrics_def Let_def)

lemma metric_step_ok:
  assumes contract: "prom_contract refuses" and r: "metrics_started r"
  shows "\<exists>r'. metric_step refuses e r = Some r' \<and> metrics_started r' \<and> mr_enabled r' = mr_enabled r
    \<and> mr_calls r' = mr_calls r @ event_calls (mr_enabled r) e"
proof (cases "job_event e")
  case False
  then have "\<forall>c \<in> set (event_calls (mr_enabled r) e). call_declared (mr_registry r) c"
    using r direct_declared by (simp add: metrics_started_def)
  from told [OF r this] direct_step [OF False] show ?thesis by auto
next
  case True
  have ok: "metrics_ok r" and base: "set constructor_metrics \<subseteq> set (mr_registry r)" using r by (simp_all add: metrics_started_def)
  from True consider j i where "e = JobCounted j i" | i ms where "e = JobTimed i ms" by (cases e) auto
  then show ?thesis
  proof cases
    case (1 j i)
    obtain r1 where r1: "registerCounter refuses (job_metric j) r = Inr (r1, job_metric j)" "metrics_ok r1"
      "job_metric j \<in> set (mr_registry r1)" "set (mr_registry r) \<subseteq> set (mr_registry r1)"
      "mr_calls r1 = mr_calls r" "mr_enabled r1 = mr_enabled r"
      using register_counter_ok [OF contract ok, of "job_metric j"] by auto
    then have "metrics_started r1" using base by (auto simp: metrics_started_def)
    from told [OF this, of "event_calls (mr_enabled r) e"] r1 show ?thesis by (auto simp: 1 incrementExecutionMetric_def)
  next
    case (2 i ms)
    let ?m = SCHEDULER_DURATION_SECONDS
    obtain r1 where r1: "registerHistogram refuses ?m r = Inr (r1, ?m)" "metrics_ok r1"
      "?m \<in> set (mr_registry r1)" "set (mr_registry r) \<subseteq> set (mr_registry r1)"
      "mr_calls r1 = mr_calls r" "mr_enabled r1 = mr_enabled r"
      using register_histogram_ok [OF contract ok, of ?m] by auto
    then have "metrics_started r1" using base by (auto simp: metrics_started_def)
    from told [OF this, of "event_calls (mr_enabled r) e"] r1 show ?thesis by (auto simp: 2 observeExecutionDuration_def)
  qed
qed

lemma metric_run_ok:
  assumes "prom_contract refuses"
  shows "metrics_started r \<Longrightarrow> \<exists>r'. run_events (metric_step refuses) es r = Some r' \<and> metrics_started r'
    \<and> mr_calls r' = mr_calls r @ concat (map (event_calls (mr_enabled r)) es)"
proof (induction es arbitrary: r)
  case (Cons e es)
  obtain r1 where "metric_step refuses e r = Some r1" "metrics_started r1" "mr_enabled r1 = mr_enabled r"
    "mr_calls r1 = mr_calls r @ event_calls (mr_enabled r) e" using metric_step_ok [OF assms Cons.prems] by blast
  with Cons.IH [of r1] show ?case by auto
qed simp

lemma registry_starts:
  assumes "prom_contract refuses"
  shows "\<exists>r. createMetricsRegistry refuses on = Inr r \<and> metrics_started r \<and> mr_enabled r = js_or on True \<and> mr_calls r = []"
proof -
  let ?r = "\<lparr>mr_enabled = js_or on True, mr_registry = [], mr_counters = [], mr_histograms = [], mr_gauges = [], mr_calls = []\<rparr>"
  have "metrics_ok ?r" by (simp add: metrics_ok_def)
  from register_metrics_ok [OF assms this, of constructor_metrics] show ?thesis
    by (auto simp: createMetricsRegistry_def metrics_started_def program_metrics_def)
qed

section \<open>In-memory metrics\<close>

text \<open>Labels are sorted by their names in the order of the collation, given by the key \<open>collate\<close>.\<close>

definition labelKey :: "(string \<Rightarrow> 'c::linorder) \<Rightarrow> string \<Rightarrow> (string, string) jsmap option \<Rightarrow> string" where
  "labelKey collate name labels =
     (case labels of
        None \<Rightarrow> name
      | Some ls \<Rightarrow>
          if ls = [] then name
          else name @ ''{'' @ js_join '','' (map (\<lambda>(k, v). k @ ''='' @ v) (sort_key (collate \<circ> fst) ls)) @ ''}'')"

record InMemoryMetrics =
  im_counters :: "(string, nat) jsmap"
  im_observations :: "(string, rat list) jsmap"

definition im_empty :: InMemoryMetrics where
  "im_empty = \<lparr>im_counters = [], im_observations = []\<rparr>"

definition InMemoryMetrics_increment ::
    "(string \<Rightarrow> 'c::linorder) \<Rightarrow> string \<Rightarrow> (string, string) jsmap option \<Rightarrow> InMemoryMetrics \<Rightarrow> InMemoryMetrics" where
  "InMemoryMetrics_increment collate name labels s =
     (let key = labelKey collate name labels
      in s\<lparr>im_counters := jm_set (im_counters s) key (js_or (jm_get (im_counters s) key) 0 + 1)\<rparr>)"

definition InMemoryMetrics_observe ::
    "(string \<Rightarrow> 'c::linorder) \<Rightarrow> string \<Rightarrow> rat \<Rightarrow> (string, string) jsmap option \<Rightarrow> InMemoryMetrics \<Rightarrow> InMemoryMetrics" where
  "InMemoryMetrics_observe collate name v labels s =
     (let key = labelKey collate name labels
      in s\<lparr>im_observations := jm_set (im_observations s) key (js_or (jm_get (im_observations s) key) [] @ [v])\<rparr>)"

definition InMemoryMetrics_getCounter ::
    "(string \<Rightarrow> 'c::linorder) \<Rightarrow> string \<Rightarrow> (string, string) jsmap option \<Rightarrow> InMemoryMetrics \<Rightarrow> nat" where
  "InMemoryMetrics_getCounter collate name labels s = js_or (jm_get (im_counters s) (labelKey collate name labels)) 0"

definition InMemoryMetrics_getObservations ::
    "(string \<Rightarrow> 'c::linorder) \<Rightarrow> string \<Rightarrow> (string, string) jsmap option \<Rightarrow> InMemoryMetrics \<Rightarrow> rat list" where
  "InMemoryMetrics_getObservations collate name labels s =
     js_or (jm_get (im_observations s) (labelKey collate name labels)) []"

definition InMemoryMetrics_reset :: "InMemoryMetrics \<Rightarrow> InMemoryMetrics" where
  "InMemoryMetrics_reset s = s\<lparr>im_counters := [], im_observations := []\<rparr>"

text \<open>The order in which labels are given does not matter, as the collation tells their names apart.\<close>

lemma labelKey_order:
  assumes "jm_ok ls" "jm_ok ls'" "set ls = set ls'" "inj_on collate (fst ` set ls)"
  shows "labelKey collate name (Some ls) = labelKey collate name (Some ls')"
proof -
  let ?f = "collate \<circ> fst"
  have inj: "inj_on ?f (set ls)" using assms(1,4) by (simp add: comp_inj_on jm_ok_def distinct_map)
  have dist: "distinct (map ?f (sort_key ?f xs))" if "jm_ok xs" "set xs = set ls" for xs
    using that inj by (simp add: distinct_map jm_ok_def)
  have "sort_key ?f ls = sort_key ?f ls'"
    using dist [OF assms(1) refl] dist [OF assms(2) assms(3) [symmetric]] inj assms(3)
    by (intro map_sorted_distinct_set_unique [of ?f]) auto
  then show ?thesis using assms(3) by (cases "ls = []") (auto simp: labelKey_def)
qed

text \<open>A history of measurements is read back as the number of increments and the list of values of a key.\<close>

datatype measurement = Increment string "(string, string) jsmap option" | Observation string rat "(string, string) jsmap option"

fun measure_with :: "(string \<Rightarrow> 'c::linorder) \<Rightarrow> InMemoryMetrics \<Rightarrow> measurement \<Rightarrow> InMemoryMetrics" where
  "measure_with collate s (Increment name labels) = InMemoryMetrics_increment collate name labels s"
| "measure_with collate s (Observation name v labels) = InMemoryMetrics_observe collate name v labels s"

lemma in_memory_history:
  "InMemoryMetrics_getCounter collate name labels (foldl (measure_with collate) im_empty ms)
     = length (filter (\<lambda>m. \<exists>n ls. m = Increment n ls \<and> labelKey collate n ls = labelKey collate name labels) ms)"
  "InMemoryMetrics_getObservations collate name labels (foldl (measure_with collate) im_empty ms)
     = List.map_filter (\<lambda>m. case m of
         Observation n v ls \<Rightarrow> if labelKey collate n ls = labelKey collate name labels then Some v else None
       | _ \<Rightarrow> None) ms"
proof (induction ms rule: rev_induct)
  case Nil
  { case 1 show ?case by (simp add: InMemoryMetrics_getCounter_def im_empty_def js_or_def)
  next case 2 show ?case by (simp add: InMemoryMetrics_getObservations_def im_empty_def js_or_def map_filter_simps) }
next
  case (snoc m ms)
  { case 1 show ?case using snoc(1)
      by (cases m) (auto simp: InMemoryMetrics_getCounter_def InMemoryMetrics_increment_def InMemoryMetrics_observe_def
        Let_def jsm_simps js_or_def)
  next case 2 show ?case using snoc(2)
      by (cases m) (auto simp: InMemoryMetrics_getObservations_def InMemoryMetrics_increment_def InMemoryMetrics_observe_def
        Let_def jsm_simps js_or_def List.map_filter_def) }
qed

section \<open>Tracing\<close>

datatype SpanKind = SpanInternal | SpanServer | SpanClient

definition resolveSpanKind :: "string option \<Rightarrow> SpanKind" where
  "resolveSpanKind kind =
     (if kind = Some ''server'' then SpanServer else if kind = Some ''client'' then SpanClient else SpanInternal)"

datatype header_value = HeaderText string | HeaderList "string list" | HeaderOther

definition normalizeHeaders :: "(string, header_value) jsmap \<Rightarrow> (string, header_value) jsmap" where
  "normalizeHeaders headers =
     foldl (\<lambda>m (k, v). if v = HeaderOther then m else jm_set m (js_toLowerCase k) v) [] headers"

definition headerGetter_get :: "(string, header_value) jsmap \<Rightarrow> string \<Rightarrow> string list" where
  "headerGetter_get carrier key =
     (case js_or_opt (jm_get carrier (js_toLowerCase key)) (jm_get carrier key) of
        Some (HeaderText v) \<Rightarrow> [v] | Some (HeaderList vs) \<Rightarrow> vs | _ \<Rightarrow> [])"

text \<open>
  The tracing SDK of the process. SDKs are numbered in the order of their start; \<open>ts_shutdown\<close> lists those that
  were told to shut down. An operation of the SDK may fail.
\<close>

record tracing_state =
  ts_active :: "nat option"
  ts_started :: nat
  ts_shutdown :: "nat list"

definition tracing_start :: tracing_state where
  "tracing_start = \<lparr>ts_active = None, ts_started = 0, ts_shutdown = []\<rparr>"

definition shutdownTracing :: "exn option \<Rightarrow> tracing_state \<Rightarrow> tracing_state \<times> unit result" where
  "shutdownTracing fails s =
     (case ts_active s of
        None \<Rightarrow> (s, Inr ())
      | Some sdk \<Rightarrow>
          (s\<lparr>ts_active := None, ts_shutdown := ts_shutdown s @ [sdk]\<rparr>, case fails of Some e \<Rightarrow> Inl e | None \<Rightarrow> Inr ()))"

text \<open>The handle of a disabled tracing has no SDK.\<close>

definition initializeTracing ::
    "bool \<Rightarrow> exn option \<Rightarrow> exn option \<Rightarrow> tracing_state \<Rightarrow> tracing_state \<times> nat option result" where
  "initializeTracing on shutdownFails startFails s =
     (case shutdownTracing shutdownFails s of
        (s1, Inl e) \<Rightarrow> (s1, Inl e)
      | (s1, Inr _) \<Rightarrow>
          if \<not> on then (s1, Inr None)
          else (case startFails of
                  Some e \<Rightarrow> (s1, Inl e)
                | None \<Rightarrow> (s1\<lparr>ts_active := Some (ts_started s1), ts_started := Suc (ts_started s1)\<rparr>, Inr (Some (ts_started s1)))))"

definition handle_shutdown :: "nat \<Rightarrow> tracing_state \<Rightarrow> tracing_state" where
  "handle_shutdown sdk s =
     s\<lparr>ts_active := (if ts_active s = Some sdk then None else ts_active s), ts_shutdown := ts_shutdown s @ [sdk]\<rparr>"

datatype tracing_event = TraceInit bool "exn option" "exn option" | TraceShutdown "exn option" | TraceHandle nat

fun tracing_step :: "tracing_event \<Rightarrow> tracing_state \<Rightarrow> tracing_state option" where
  "tracing_step (TraceInit on e1 e2) s = Some (fst (initializeTracing on e1 e2 s))"
| "tracing_step (TraceShutdown e) s = Some (fst (shutdownTracing e s))"
| "tracing_step (TraceHandle sdk) s = (if sdk < ts_started s then Some (handle_shutdown sdk s) else None)"

definition tracing_ok :: "tracing_state \<Rightarrow> bool" where
  "tracing_ok s \<longleftrightarrow> (\<forall>sdk < ts_started s. sdk \<in> set (ts_shutdown s) \<longleftrightarrow> ts_active s \<noteq> Some sdk)
     \<and> (\<forall>sdk. ts_active s = Some sdk \<longrightarrow> sdk < ts_started s) \<and> (\<forall>sdk \<in> set (ts_shutdown s). sdk < ts_started s)"

interpretation tracing: event_machine tracing_step tracing_start tracing_ok
proof
  show "tracing_ok tracing_start" by (simp add: tracing_ok_def tracing_start_def)
  show "tracing_ok s \<Longrightarrow> tracing_step e s = Some s' \<Longrightarrow> tracing_ok s'" for s e s'
    by (cases e) (auto simp: tracing_ok_def initializeTracing_def shutdownTracing_def handle_shutdown_def less_Suc_eq
      split: option.splits if_splits prod.splits sum.splits)
qed

text \<open>Spans: what the code tells the span of an operation, and the wrapper that runs an operation in one.\<close>

datatype span_error = ErrorValue exn | OtherValue string

datatype span_event =
  SpanStarted string SpanKind "(string, string) jsmap"
| SpanAttribute string int
| SpanException exn
| SpanOk
| SpanFailed string
| SpanEnded

definition setSpanOk :: "span_event list" where
  "setSpanOk = [SpanOk]"

definition setSpanError :: "span_error \<Rightarrow> span_event list" where
  "setSpanError e = (case e of ErrorValue x \<Rightarrow> [SpanException x, SpanFailed (message x)] | OtherValue t \<Rightarrow> [SpanFailed t])"

definition withActiveSpan ::
    "string \<Rightarrow> string option \<Rightarrow> (string, string) jsmap \<Rightarrow> bool option \<Rightarrow> span_event list \<times> (span_error + 'a)
     \<Rightarrow> span_event list \<times> (span_error + 'a)" where
  "withActiveSpan name kind attributes setOkStatusOnSuccess run =
     (case run of
        (es, Inr result) \<Rightarrow>
          (SpanStarted name (resolveSpanKind kind) attributes # es
             @ (if setOkStatusOnSuccess \<noteq> Some False then setSpanOk else []) @ [SpanEnded], Inr result)
      | (es, Inl e) \<Rightarrow> (SpanStarted name (resolveSpanKind kind) attributes # es @ setSpanError e @ [SpanEnded], Inl e))"

text \<open>The spans of requests: \<open>sh_spans\<close> is the map \<^verbatim>\<open>requestSpans\<close> from requests to spans.\<close>

record span_hooks =
  sh_spans :: "(ident, nat) jsmap"
  sh_seen :: "ident list"
  sh_count :: nat
  sh_log :: "(nat \<times> span_event) list"
  sh_failures :: "(exn \<times> string \<times> string \<times> (string, string) jsmap) list"

definition span_hooks_start :: span_hooks where
  "span_hooks_start = \<lparr>sh_spans = [], sh_seen = [], sh_count = 0, sh_log = [], sh_failures = []\<rparr>"

definition span_onRequest :: "ident \<Rightarrow> string option \<Rightarrow> request \<Rightarrow> span_hooks \<Rightarrow> span_hooks" where
  "span_onRequest rid routeUrl req s =
     (let path = resolveMetricPath routeUrl req
      in s\<lparr>sh_spans := jm_set (sh_spans s) rid (sh_count s), sh_seen := rid # sh_seen s, sh_count := Suc (sh_count s),
           sh_log := sh_log s @ [(sh_count s, SpanStarted (rq_method req @ '' '' @ path) (resolveSpanKind (Some ''server''))
                                   [(''http.method'', rq_method req), (''http.route'', path)])]\<rparr>)"

definition log_failure :: "string option \<Rightarrow> request \<Rightarrow> exn \<Rightarrow> span_hooks \<Rightarrow> span_hooks" where
  "log_failure routeUrl req e s =
     (let path = resolveMetricPath routeUrl req
      in s\<lparr>sh_failures := sh_failures s @ [(e, rq_method req, path, extractRequestLogFields req path)]\<rparr>)"

definition span_onError :: "ident \<Rightarrow> string option \<Rightarrow> request \<Rightarrow> exn \<Rightarrow> span_hooks \<Rightarrow> span_hooks" where
  "span_onError rid routeUrl req e s =
     log_failure routeUrl req e
       (case jm_get (sh_spans s) rid of
          None \<Rightarrow> s
        | Some k \<Rightarrow> s\<lparr>sh_log := sh_log s @ map (Pair k) (setSpanError (ErrorValue e))\<rparr>)"

definition span_onResponse :: "ident \<Rightarrow> int \<Rightarrow> span_hooks \<Rightarrow> span_hooks" where
  "span_onResponse rid status s =
     (case jm_get (sh_spans s) rid of
        None \<Rightarrow> s
      | Some k \<Rightarrow>
          s\<lparr>sh_spans := jm_delete (sh_spans s) rid,
            sh_log := sh_log s @ map (Pair k)
              (SpanAttribute ''http.status_code'' status
               # (if status \<ge> 500 then setSpanError (OtherValue (''HTTP '' @ show_int status)) else setSpanOk) @ [SpanEnded])\<rparr>)"

datatype span_hook = HookRequest ident "string option" request | HookError ident "string option" request exn | HookResponse ident int

text \<open>A request passes its first hook once; the later hooks may come in any order and number.\<close>

fun span_step :: "span_hook \<Rightarrow> span_hooks \<Rightarrow> span_hooks option" where
  "span_step (HookRequest rid routeUrl req) s = (if rid \<in> set (sh_seen s) then None else Some (span_onRequest rid routeUrl req s))"
| "span_step (HookError rid routeUrl req e) s = (if rid \<in> set (sh_seen s) then Some (span_onError rid routeUrl req e s) else None)"
| "span_step (HookResponse rid status) s = (if rid \<in> set (sh_seen s) then Some (span_onResponse rid status s) else None)"

definition span_events :: "span_hooks \<Rightarrow> nat \<Rightarrow> span_event list" where
  "span_events s k = map snd (filter (\<lambda>p. fst p = k) (sh_log s))"

definition spans_ok :: "span_hooks \<Rightarrow> bool" where
  "spans_ok s \<longleftrightarrow>
     (\<forall>r k. jm_get (sh_spans s) r = Some k \<longrightarrow> r \<in> set (sh_seen s) \<and> k < sh_count s \<and> SpanEnded \<notin> set (span_events s k))
     \<and> (\<forall>r r' k. jm_get (sh_spans s) r = Some k \<longrightarrow> jm_get (sh_spans s) r' = Some k \<longrightarrow> r = r')
     \<and> (\<forall>k. (\<nexists>r. jm_get (sh_spans s) r = Some k) \<longrightarrow> k < sh_count s \<longrightarrow>
           (\<exists>es. span_events s k = es @ [SpanEnded] \<and> SpanEnded \<notin> set es))
     \<and> (\<forall>p \<in> set (sh_log s). fst p < sh_count s)"

lemma span_events_append [simp]:
  "span_events (s\<lparr>sh_log := sh_log s @ map (Pair k) es\<rparr>) k' = span_events s k' @ (if k' = k then es else [])"
  by (simp add: span_events_def comp_def)

lemma span_events_update [simp]:
  "span_events (s\<lparr>sh_spans := m\<rparr>) k = span_events s k" "span_events (s\<lparr>sh_seen := l\<rparr>) k = span_events s k"
  "span_events (s\<lparr>sh_count := n\<rparr>) k = span_events s k" "span_events (s\<lparr>sh_failures := fs\<rparr>) k = span_events s k"
  by (simp_all add: span_events_def)

lemma log_failure_ok [simp]: "spans_ok (log_failure routeUrl req e s) \<longleftrightarrow> spans_ok s"
  by (simp add: log_failure_def spans_ok_def Let_def)

lemma span_onRequest_ok:
  assumes ok: "spans_ok s" and "rid \<notin> set (sh_seen s)"
  shows "spans_ok (span_onRequest rid routeUrl req s)"
proof -
  define s' where "s' = span_onRequest rid routeUrl req s"
  have new: "span_events s (sh_count s) = []"
    using ok by (auto simp: spans_ok_def span_events_def filter_empty_conv)
  have ends: "SpanEnded \<notin> set (span_events s' (sh_count s))" "\<And>k. k \<noteq> sh_count s \<Longrightarrow> span_events s' k = span_events s k"
    using new by (simp_all add: s'_def span_onRequest_def span_events_def Let_def)
  have parts: "jm_get (sh_spans s') r = (if r = rid then Some (sh_count s) else jm_get (sh_spans s) r)"
    "sh_seen s' = rid # sh_seen s" "sh_count s' = Suc (sh_count s)" "fst ` set (sh_log s') = insert (sh_count s) (fst ` set (sh_log s))" for r
    by (simp_all add: s'_def span_onRequest_def Let_def jsm_simps)
  have open1: "r \<in> set (sh_seen s) \<and> k < sh_count s \<and> SpanEnded \<notin> set (span_events s k)" if "jm_get (sh_spans s) r = Some k" for r k
    using ok that by (simp add: spans_ok_def)
  have "spans_ok s'"
    unfolding spans_ok_def
  proof (intro conjI allI ballI impI)
    fix r k assume "jm_get (sh_spans s') r = Some k"
    then show "r \<in> set (sh_seen s')" "k < sh_count s'" "SpanEnded \<notin> set (span_events s' k)"
      using open1 [of r k] ends by (auto simp: parts split: if_splits)
  next
    fix r r' k assume "jm_get (sh_spans s') r = Some k" "jm_get (sh_spans s') r' = Some k"
    then show "r = r'" using ok open1 [of r k] open1 [of r' k] by (auto simp: parts spans_ok_def split: if_splits)
  next
    fix k assume none: "\<nexists>r. jm_get (sh_spans s') r = Some k" and "k < sh_count s'"
    then have k: "k \<noteq> sh_count s" using parts(1) [of rid] by auto
    with \<open>k < sh_count s'\<close> have "k < sh_count s" by (simp add: parts)
    have "\<nexists>r. jm_get (sh_spans s) r = Some k" using none assms(2) open1 by (metis parts(1))
    with ok \<open>k < sh_count s\<close> k show "\<exists>es. span_events s' k = es @ [SpanEnded] \<and> SpanEnded \<notin> set es" by (simp add: ends(2) spans_ok_def)
  next
    fix p assume "p \<in> set (sh_log s')"
    then have "fst p \<in> insert (sh_count s) (fst ` set (sh_log s))" by (metis parts(4) image_eqI)
    then show "fst p < sh_count s'" using ok by (auto simp: parts spans_ok_def)
  qed
  then show ?thesis by (simp add: s'_def)
qed

lemma span_onError_ok:
  assumes ok: "spans_ok s"
  shows "spans_ok (span_onError rid routeUrl req e s)"
proof (cases "jm_get (sh_spans s) rid")
  case None
  with ok show ?thesis by (simp add: span_onError_def)
next
  case (Some k)
  have "SpanEnded \<notin> set (setSpanError (ErrorValue e))" by (simp add: setSpanError_def)
  with ok Some have "spans_ok (s\<lparr>sh_log := sh_log s @ map (Pair k) (setSpanError (ErrorValue e))\<rparr>)"
    unfolding spans_ok_def by auto
  with Some show ?thesis by (simp add: span_onError_def)
qed

lemma span_onResponse_ok:
  assumes ok: "spans_ok s"
  shows "spans_ok (span_onResponse rid status s)"
proof (cases "jm_get (sh_spans s) rid")
  case None
  with ok show ?thesis by (simp add: span_onResponse_def)
next
  case (Some k)
  define es where "es = SpanAttribute ''http.status_code'' status
    # (if status \<ge> 500 then setSpanError (OtherValue (''HTTP '' @ show_int status)) else setSpanOk)"
  have es: "SpanEnded \<notin> set es" by (simp add: es_def setSpanError_def setSpanOk_def)
  define s' where "s' = span_onResponse rid status s"
  have s': "s' = (s\<lparr>sh_log := sh_log s @ map (Pair k) (es @ [SpanEnded])\<rparr>)\<lparr>sh_spans := jm_delete (sh_spans s) rid\<rparr>"
    by (simp add: s'_def span_onResponse_def Some es_def)
  have events: "span_events s' k' = span_events s k' @ (if k' = k then es @ [SpanEnded] else [])" for k'
    unfolding s' span_events_update span_events_append ..
  have parts: "jm_get (sh_spans s') r = (if r = rid then None else jm_get (sh_spans s) r)" "sh_seen s' = sh_seen s"
    "sh_count s' = sh_count s" "set (sh_log s') = set (sh_log s) \<union> Pair k ` set (es @ [SpanEnded])" for r
    unfolding s' by (simp_all add: jsm_simps)
  have "spans_ok s'"
    unfolding spans_ok_def
  proof (intro conjI allI ballI impI)
    fix r k' assume "jm_get (sh_spans s') r = Some k'"
    then have r: "r \<noteq> rid" "jm_get (sh_spans s) r = Some k'" by (simp_all add: parts split: if_splits)
    with ok Some have "k' \<noteq> k" unfolding spans_ok_def by metis
    with ok r show "r \<in> set (sh_seen s')" "k' < sh_count s'" "SpanEnded \<notin> set (span_events s' k')"
      by (simp_all add: events parts spans_ok_def)
  next
    fix r r' k' assume "jm_get (sh_spans s') r = Some k'" "jm_get (sh_spans s') r' = Some k'"
    with ok show "r = r'" by (auto simp: parts spans_ok_def split: if_splits)
  next
    fix k' assume none: "\<nexists>r. jm_get (sh_spans s') r = Some k'" and k': "k' < sh_count s'"
    show "\<exists>es. span_events s' k' = es @ [SpanEnded] \<and> SpanEnded \<notin> set es"
    proof (cases "k' = k")
      case True
      then show ?thesis using ok Some es by (auto simp: events spans_ok_def)
    next
      case False
      with none Some have "\<nexists>r. jm_get (sh_spans s) r = Some k'" by (metis parts(1) option.inject)
      with ok k' False show ?thesis by (simp add: events parts spans_ok_def)
    qed
  next
    fix p assume "p \<in> set (sh_log s')"
    with ok Some show "fst p < sh_count s'" by (auto simp: parts spans_ok_def)
  qed
  then show ?thesis by (simp add: s'_def)
qed

interpretation spans: event_machine span_step span_hooks_start spans_ok
proof
  show "spans_ok span_hooks_start" by (simp add: spans_ok_def span_hooks_start_def)
  show "spans_ok s \<Longrightarrow> span_step e s = Some s' \<Longrightarrow> spans_ok s'" for s e s'
    by (cases e) (auto simp: span_onRequest_ok span_onError_ok span_onResponse_ok split: if_splits)
qed

lemma normalizeHeaders_keys: "jm_get (normalizeHeaders hs) k \<noteq> None \<Longrightarrow> js_toLowerCase k = k"
proof -
  have lower: "js_toLowerCase (js_toLowerCase n) = js_toLowerCase n" for n by (simp add: js_toLowerCase_def)
  have "jm_get (foldl (\<lambda>m (k, v). if v = HeaderOther then m else jm_set m (js_toLowerCase k) v) m hs) k \<noteq> None
          \<Longrightarrow> \<forall>k. jm_get m k \<noteq> None \<longrightarrow> js_toLowerCase k = k \<Longrightarrow> js_toLowerCase k = k" for m
  proof (induction hs arbitrary: m)
    case (Cons h hs)
    then show ?case by (cases h) (auto simp: jsm_simps lower split: if_splits)
  qed simp
  from this [of "[]"] show "jm_get (normalizeHeaders hs) k \<noteq> None \<Longrightarrow> js_toLowerCase k = k" by (simp add: normalizeHeaders_def)
qed

text \<open>The names of headers are compared without case.\<close>

lemma headers_ignore_case:
  "js_toLowerCase k = js_toLowerCase k' \<Longrightarrow> headerGetter_get (normalizeHeaders hs) k = headerGetter_get (normalizeHeaders hs) k'"
proof -
  have "js_or_opt (jm_get (normalizeHeaders hs) (js_toLowerCase n)) (jm_get (normalizeHeaders hs) n)
          = jm_get (normalizeHeaders hs) (js_toLowerCase n)" for n
    using normalizeHeaders_keys [of hs n] by (cases "jm_get (normalizeHeaders hs) n") (auto simp: js_or_opt_def split: option.splits)
  then have get: "headerGetter_get (normalizeHeaders hs) n = (case jm_get (normalizeHeaders hs) (js_toLowerCase n) of
      Some (HeaderText v) \<Rightarrow> [v] | Some (HeaderList vs) \<Rightarrow> vs | _ \<Rightarrow> [])" for n
    by (simp add: headerGetter_get_def)
  show "js_toLowerCase k = js_toLowerCase k' \<Longrightarrow> ?thesis" by (simp add: get)
qed

section \<open>Properties\<close>

text \<open>
  The log of requests. A response leaves one log line, except for a request to \<^verbatim>\<open>/health\<close> or \<^verbatim>\<open>/metrics\<close> that
  is not sampled, unless a debug level is set for it. The line has the level error from status 500, warn from 400, and otherwise debug if the
  route or the user is configured for it, else info.
\<close>

theorem request_log_exact:
  "map_option (\<lambda>c. (lg_level c, lg_method c, lg_path c, lg_statusCode c))
       (log_response (request_log_settings config rate) routeUrl correlation requestId elapsed req status)
   = (let path = resolveMetricPath routeUrl req;
          configured = path \<noteq> [] \<and> path \<in> set (cf_logDebugEndpoints config)
            \<or> (\<exists>k. rq_apiKey req = Some k \<and> au_createdBy k \<noteq> [] \<and> au_createdBy k \<in> set (cf_logDebugUsers config));
          number = js_or (case correlation of Some c \<Rightarrow> if c = [] then None else Some c | None \<Rightarrow> None) requestId
      in if (path = ''/health'' \<or> path = ''/metrics'') \<and> \<not> (status < 400 \<and> configured)
             \<and> \<not> shouldSampleLog (rq_method req @ '':'' @ path @ '':'' @ number) rate
         then None
         else Some (if status \<ge> 500 then LvError else if status \<ge> 400 then LvWarn else if configured then LvDebug else LvInfo,
                    rq_method req, path, status))"
proof -
  have number: "readOptionalString (map_option JStr correlation)
      = (case correlation of Some c \<Rightarrow> if c = [] then None else Some c | None \<Rightarrow> None)"
    by (simp add: readOptionalString_def split: option.split)
  show ?thesis
    unfolding log_response_def request_log_settings_def Let_def number log_settings.simps request_level
    by (auto simp: HIGH_VOLUME_PATHS_def status_level_def split: if_splits)
qed

text \<open>So a failing health check can go unlogged.\<close>

theorem failing_health_not_logged:
  "log_response (request_log_settings config 0) (Some ''/health'') correlation requestId elapsed req 503 = None"
  by (simp add: log_response_def request_log_settings_def resolveMetricPath_def js_or_def shouldSampleLog_def
    status_level_def requestLogLevel_def HIGH_VOLUME_PATHS_def)

text \<open>
  Sampling. The hash of a key is a 32-bit number, and a log line is kept if the hash as a fraction of the
  largest one is below the rate: exactly so unless the two are within the rounding error of the division. A higher
  rate keeps every line that a lower one keeps.
\<close>

theorem sample_threshold:
  assumes "0 < rate" and "rate < 1"
  shows "(of_nat (hashString key) / 0xffffffff < rate - 1 / 2 ^ 53 \<longrightarrow> shouldSampleLog key rate)
    \<and> (shouldSampleLog key rate \<longrightarrow> of_nat (hashString key) / 0xffffffff < rate + 1 / 2 ^ 53)
    \<and> (shouldSampleLog key rate \<and> rate \<le> rate' \<longrightarrow> shouldSampleLog key rate')
    \<and> hashString key < 2 ^ 32"
proof -
  let ?h = "of_nat (hashString key) / 0xffffffff :: rat" and ?d = "double_div (hashString key) 0xffffffff"
  have sampled: "shouldSampleLog key rate \<longleftrightarrow> ?d < rate" using assms by (simp add: shouldSampleLog_def)
  have "?d \<le> ?h + 1 / 2 ^ 53" "?h \<le> ?d + 1 / 2 ^ 53" using sample_close [of key] by (simp_all only: abs_le_iff) linarith+
  then have "?h < rate - 1 / 2 ^ 53 \<longrightarrow> ?d < rate" "?d < rate \<longrightarrow> ?h < rate + 1 / 2 ^ 53" by linarith+
  moreover have "?d < rate \<and> rate \<le> rate' \<longrightarrow> shouldSampleLog key rate'" using assms by (auto simp: shouldSampleLog_def)
  ultimately show ?thesis unfolding sampled using hashString_bound by blast
qed

lemma demo_hash: "hashString ''a'' = 3826002220"
  by (simp add: hashString_def hash_step_def)

theorem sample_threshold_witness:
  "shouldSampleLog ''a'' (9 / 10) \<and> \<not> shouldSampleLog ''a'' (8 / 10)"
proof -
  have "of_nat (hashString ''a'') / 0xffffffff < (9 / 10 - 1 / 2 ^ 53 :: rat)"
    "\<not> of_nat (hashString ''a'') / 0xffffffff < (8 / 10 + 1 / 2 ^ 53 :: rat)" unfolding demo_hash by simp_all
  moreover have "(0 :: rat) < 9 / 10" "9 / 10 < (1 :: rat)" "(0 :: rat) < 8 / 10" "8 / 10 < (1 :: rat)" by simp_all
  ultimately show ?thesis using sample_threshold [of "9 / 10" "''a''"] sample_threshold [of "8 / 10" "''a''"] by blast
qed

text \<open>
  Metrics. The registry is built without a refusal and no later event is refused: every call names a
  registered metric of its kind with exactly the labels declared for it, no name is registered twice, and the
  calls are those of the events, in order. Disabling metrics silences all of them but those of the scheduler.
\<close>

theorem metrics_recorded:
  assumes "prom_contract refuses"
  shows "\<exists>r0 r. createMetricsRegistry refuses on = Inr r0 \<and> run_events (metric_step refuses) es r0 = Some r
    \<and> distinct (map mt_name (mr_registry r)) \<and> list_all (call_declared (mr_registry r)) (mr_calls r)
    \<and> mr_calls r = concat (map (event_calls (js_or on True)) es)"
proof -
  obtain r0 where r0: "createMetricsRegistry refuses on = Inr r0" "metrics_started r0" "mr_enabled r0 = js_or on True" "mr_calls r0 = []"
    using registry_starts [OF assms] by blast
  obtain r where "run_events (metric_step refuses) es r0 = Some r" "metrics_started r"
    "mr_calls r = concat (map (event_calls (js_or on True)) es)"
    using metric_run_ok [OF assms r0(2), of es] r0 by auto
  with r0 show ?thesis by (auto simp: metrics_started_def metrics_ok_def list_all_iff)
qed

definition demo_prom :: prom_registry where
  "demo_prom ms m = (if mt_name m \<in> mt_name ` set ms then Some (Error ''A metric of this name has already been registered.'') else None)"

theorem metrics_recorded_witness:
  "\<exists>r0 r. createMetricsRegistry demo_prom (Some False) = Inr r0
    \<and> run_events (metric_step demo_prom) [ToolCalled ''shell'' MetricFailed 5, JobCounted JobSkipped ''j1''] r0 = Some r
    \<and> list_all (call_declared (mr_registry r)) (mr_calls r)
    \<and> mr_calls r = [MetricInc SCHEDULER_SKIPPED_TOTAL [(''job_id'', ''j1'')]]"
proof -
  have "prom_contract demo_prom" by (simp add: prom_contract_def demo_prom_def)
  from metrics_recorded [OF this, of "Some False" "[ToolCalled ''shell'' MetricFailed 5, JobCounted JobSkipped ''j1'']"]
  show ?thesis by (auto simp: js_or_def job_metric_def)
qed

text \<open>
  Request spans. Whatever the order of the hooks, every span that the gateway starts for a request is either open,
  and then belongs to exactly one request, or was ended exactly once, as the last thing it was told.
\<close>

theorem request_spans_closed:
  assumes "run_events span_step hs span_hooks_start = Some s" and "k < sh_count s"
  shows "(\<exists>!r. jm_get (sh_spans s) r = Some k) \<and> SpanEnded \<notin> set (span_events s k)
    \<or> (\<nexists>r. jm_get (sh_spans s) r = Some k) \<and> (\<exists>es. span_events s k = es @ [SpanEnded] \<and> SpanEnded \<notin> set es)"
proof (cases "\<exists>r. jm_get (sh_spans s) r = Some k")
  case True
  with spans.run_inv [OF assms(1)] show ?thesis unfolding spans_ok_def by blast
next
  case False
  with spans.run_inv [OF assms(1)] assms(2) show ?thesis unfolding spans_ok_def by blast
qed

definition demo_hooks :: "span_hook list" where
  "demo_hooks = [HookRequest ''r1'' (Some ''/health'') demo_request, HookRequest ''r2'' None demo_request,
     HookResponse ''r1'' 503, HookError ''r1'' None demo_request (Error ''late'')]"

theorem request_spans_closed_witness:
  "\<exists>s. run_events span_step demo_hooks span_hooks_start = Some s \<and> jm_get (sh_spans s) ''r2'' = Some 1
     \<and> SpanEnded \<notin> set (span_events s 1) \<and> (\<exists>es. span_events s 0 = es @ [SpanEnded] \<and> SpanEnded \<notin> set es)"
proof -
  obtain s where s: "run_events span_step demo_hooks span_hooks_start = Some s" and
    parts: "sh_count s = 2" "sh_spans s = [(''r2'', 1)]"
    by (simp add: demo_hooks_def span_hooks_start_def span_onRequest_def span_onResponse_def span_onError_def log_failure_def Let_def)
  from request_spans_closed [OF s, of 0] request_spans_closed [OF s, of 1] s show ?thesis
    by (auto simp: parts split: if_splits)
qed

text \<open>
  One tracing SDK. Whatever is initialised and shut down, in any order and with any failures, at most one
  started SDK has not been told to shut down, and it is the active one.
\<close>

theorem tracing_single_sdk:
  assumes "run_events tracing_step es tracing_start = Some s" and "sdk < ts_started s" and "sdk \<notin> set (ts_shutdown s)"
  shows "ts_active s = Some sdk"
  using tracing.run_inv [OF assms(1)] assms(2,3) unfolding tracing_ok_def by blast

theorem tracing_single_sdk_witness:
  "\<exists>s. run_events tracing_step [TraceInit True None None, TraceInit True (Some (Error ''export failed'')) None,
        TraceInit True None None, TraceHandle 0] tracing_start = Some s \<and> ts_started s = 2 \<and> ts_active s = Some 1"
proof -
  obtain s where s: "run_events tracing_step [TraceInit True None None, TraceInit True (Some (Error ''export failed'')) None,
      TraceInit True None None, TraceHandle 0] tracing_start = Some s" and parts: "ts_started s = 2" "set (ts_shutdown s) = {0}"
    by (simp add: initializeTracing_def shutdownTracing_def handle_shutdown_def tracing_start_def)
  from tracing_single_sdk [OF s, of 1] s parts show ?thesis by simp
qed

end
