(* ===== verification/Local_Launcher.thy ===== *)
theory Local_Launcher
  imports Agent_Storage Http_Transport
begin

text \<open>
  The launcher of the local runtime (\<^verbatim>\<open>scripts/local-runtime.ts\<close>): it prepares the administrator key and the default
  agent in the database, starts the gateway and the web server as background processes that are tracked by
  PID files, waits until they answer, and stops them again.

  The operating system is the argument \<open>outside\<close>: which processes can be signalled (at each of the moments the launcher
  asks), what answers at an address at a time, which process number a new process gets. Everything the
  launcher changes is the record \<open>machine\<close>. The launcher's own files can be read and written. \<open>os_env\<close>
  is the environment after the configuration was loaded into it.
\<close>

section \<open>The machine and what is outside\<close>

record process_spec =
  ps_command :: string
  ps_args :: "string list"
  ps_env :: "(string, string) jsmap"
  ps_cwd :: string

text \<open>A process is stopped with its children by \<^verbatim>\<open>taskkill\<close> on Windows and by a signal elsewhere.\<close>

datatype stop_call = TaskKill int | KillSignal int

record machine =
  mc_files :: file_system
  mc_keys :: "ApiKeyRecord list"
  mc_agents :: agent_db
  mc_started :: "(int \<times> process_spec) list"
  mc_signals :: "stop_call list"
  mc_builds :: nat
  mc_clock :: nat
  mc_output :: "string list"
  mc_errors :: "string list"
  mc_exitCode :: "nat option"

record outside =
  os_windows :: bool
  os_env :: "(string, string) jsmap"
  os_execPath :: string
  os_vite :: "string result"
  os_alive :: "nat \<Rightarrow> int \<Rightarrow> bool"
  os_http :: "nat \<Rightarrow> string \<Rightarrow> (string, string) jsmap \<Rightarrow> http_response result"
  os_latency :: "nat \<Rightarrow> string \<Rightarrow> nat"
  os_pid :: "nat \<Rightarrow> int option"
  os_build :: "int option"
  os_url :: "string \<Rightarrow> string \<Rightarrow> string"
  os_sha :: "string \<Rightarrow> string"
  os_bhash :: "string \<Rightarrow> string \<Rightarrow> string"
  os_rnd :: "8 word list"
  os_keyId :: ident
  os_agentId :: ident
  os_salt :: string
  os_now :: timestamp
  os_config :: "SenclawConfig result"
  os_provider :: "ProviderSmokeConfig result"
  os_storage :: storage_schemas
  os_settings :: "json \<Rightarrow> issue list + RuntimeSettings"
  os_settingsError :: "issue list \<Rightarrow> exn"
  os_summary :: "json \<Rightarrow> PendingApprovalSummary"
  os_zh :: banner_texts
  os_zhStopped :: string

definition and_then :: "machine \<times> 'a result \<Rightarrow> (machine \<Rightarrow> 'a \<Rightarrow> machine \<times> 'b result) \<Rightarrow> machine \<times> 'b result" where
  "and_then r f = (case r of (m, Inl e) \<Rightarrow> (m, Inl e) | (m, Inr x) \<Rightarrow> f m x)"

lemma and_then_simps [simp]:
  "and_then (m, Inl e) f = (m, Inl e)" "and_then (m, Inr x) f = f m x"
  by (simp_all add: and_then_def)

lemma and_then_Inr: "and_then r f = (m', Inr y) \<longleftrightarrow> (\<exists>m x. r = (m, Inr x) \<and> f m x = (m', Inr y))"
  by (auto simp: and_then_def split: prod.splits sum.splits)

section \<open>Addresses\<close>

definition getGatewayPort :: "(string, string) jsmap \<Rightarrow> string" where
  "getGatewayPort env = js_or (jm_get env ''SENCLAW_GATEWAY_PORT'') ''4100''"

definition getWebPort :: "(string, string) jsmap \<Rightarrow> string" where
  "getWebPort env = js_or (jm_get env ''SENCLAW_WEB_PORT'') ''3000''"

definition getGatewayUrl :: "(string, string) jsmap \<Rightarrow> string" where
  "getGatewayUrl env = ''http://localhost:'' @ getGatewayPort env"

definition getWebUrl :: "(string, string) jsmap \<Rightarrow> string" where
  "getWebUrl env = ''http://localhost:'' @ getWebPort env"

section \<open>Processes and PID files\<close>

text \<open>\<^verbatim>\<open>Number.parseInt\<close> with base ten: white space, a sign and the digits that follow.\<close>

definition js_parseInt :: "string \<Rightarrow> int option" where
  "js_parseInt s =
     (let t = dropWhile js_space s;
          u = (case t of c # r \<Rightarrow> if c = CHR ''-'' \<or> c = CHR ''+'' then r else t | [] \<Rightarrow> t);
          ds = takeWhile is_digit u
      in if ds = [] then None
         else Some (if js_startsWith t ''-'' then - int (digits_val ds) else int (digits_val ds)))"

definition readPidFile :: "file_system \<Rightarrow> string \<Rightarrow> int option" where
  "readPidFile fs f = (case jm_get fs f of None \<Rightarrow> None | Some raw \<Rightarrow> js_parseInt (js_trim raw))"

text \<open>\<open>n\<close> numbers the moments at which the launcher asks for the state of a process.\<close>

definition isProcessAlive :: "outside \<Rightarrow> nat \<Rightarrow> int option \<Rightarrow> bool" where
  "isProcessAlive os n pid = (case pid of None \<Rightarrow> False | Some p \<Rightarrow> p \<noteq> 0 \<and> os_alive os n p)"

definition pid_text :: "int \<Rightarrow> string" where
  "pid_text pid = show_int pid @ [CHR 0x0A]"

definition write_file :: "string \<Rightarrow> string \<Rightarrow> machine \<Rightarrow> machine" where
  "write_file f t m = m\<lparr>mc_files := jm_set (mc_files m) f t\<rparr>"

definition remove_file :: "string \<Rightarrow> machine \<Rightarrow> machine" where
  "remove_file f m = m\<lparr>mc_files := jm_delete (mc_files m) f\<rparr>"

text \<open>Opening a log for appending creates it.\<close>

definition open_log :: "string \<Rightarrow> machine \<Rightarrow> machine" where
  "open_log f m = (if jm_get (mc_files m) f = None then write_file f [] m else m)"

definition spawnBackgroundProcess ::
    "outside \<Rightarrow> process_spec \<Rightarrow> string \<Rightarrow> string \<Rightarrow> machine \<Rightarrow> machine \<times> int result" where
  "spawnBackgroundProcess os spec logFile errorFile m =
     (let m1 = open_log errorFile (open_log logFile m)
      in case os_pid os (length (mc_started m1)) of
           None \<Rightarrow> (m1, Inl (Error (''Failed to start '' @ ps_command spec)))
         | Some p \<Rightarrow>
             if p = 0 then (m1, Inl (Error (''Failed to start '' @ ps_command spec)))
             else (m1\<lparr>mc_started := mc_started m1 @ [(p, spec)]\<rparr>, Inr p))"

section \<open>Probing an address\<close>

definition isHttpReachable :: "outside \<Rightarrow> string \<Rightarrow> machine \<Rightarrow> machine \<times> bool" where
  "isHttpReachable os url m =
     (m\<lparr>mc_clock := mc_clock m + os_latency os (mc_clock m) url\<rparr>,
      case os_http os (mc_clock m) url [] of
        Inr response \<Rightarrow> response_ok response \<or> hs_status response < 500
      | Inl _ \<Rightarrow> False)"

lemma isHttpReachable_clock: "mc_clock (fst (isHttpReachable os url m)) = mc_clock m + os_latency os (mc_clock m) url"
  by (simp add: isHttpReachable_def)

function wait_until :: "outside \<Rightarrow> string \<Rightarrow> nat \<Rightarrow> machine \<Rightarrow> machine \<times> unit result" where
  "wait_until os url deadline m =
     (if mc_clock m < deadline
      then (let (m1, up) = isHttpReachable os url m
            in if up then (m1, Inr ()) else wait_until os url deadline (m1\<lparr>mc_clock := mc_clock m1 + 500\<rparr>))
      else (m, Inl (Error (''Timed out waiting for '' @ url))))"
  by pat_completeness auto

termination
  by (relation "measure (\<lambda>(os, url, deadline, m). deadline - mc_clock m)") (auto simp: isHttpReachable_def)

declare wait_until.simps [simp del]

definition waitForUrl :: "outside \<Rightarrow> string \<Rightarrow> machine \<Rightarrow> machine \<times> unit result" where
  "waitForUrl os url m = wait_until os url (mc_clock m + 20000) m"

definition fetchPendingApprovals :: "outside \<Rightarrow> string \<Rightarrow> string \<Rightarrow> machine \<Rightarrow> PendingApprovalSummary list" where
  "fetchPendingApprovals os gatewayUrl adminKey m =
     (case os_http os (mc_clock m) (gatewayUrl @ ''/api/runtime/approvals'') [(''authorization'', ''Bearer '' @ adminKey)] of
        Inl _ \<Rightarrow> []
      | Inr response \<Rightarrow>
          if \<not> response_ok response then []
          else (case response_json response of Inr (JArr js) \<Rightarrow> map (os_summary os) js | _ \<Rightarrow> []))"

section \<open>The administrator key\<close>

definition ensureAdminKey :: "outside \<Rightarrow> LocalRuntimeFiles \<Rightarrow> machine \<Rightarrow> machine \<times> string result" where
  "ensureAdminKey os files m =
     (case jm_get (mc_files m) (rf_adminKeyFile files) of
        Some text \<Rightarrow> (m, Inr (js_trim text))
      | None \<Rightarrow>
          (let rawKey = generateApiKey (os_rnd os);
               record = new_key_record (os_sha os) (os_bhash os) (os_keyId os) (os_salt os) (os_now os) rawKey
                 \<lparr>ci_name = (if kr_count SqliteApiKeyRepository (mc_keys m) = 0 then ''Bootstrap Admin Key''
                             else ''Local Runtime Admin Key''),
                  ci_role = RoleAdmin, ci_createdBy = ''system'', ci_expiresAt = None\<rparr>
           in case kr_create SqliteApiKeyRepository (mc_keys m) record of
                Inl e \<Rightarrow> (m, Inl e)
              | Inr keys \<Rightarrow> (write_file (rf_adminKeyFile files) (rawKey @ [CHR 0x0A]) (m\<lparr>mc_keys := keys\<rparr>), Inr rawKey)))"

section \<open>The default agent\<close>

text \<open>The columns that the insertion leaves out get the defaults of the table.\<close>

definition inserted_agent :: "ident \<Rightarrow> AgentDefinition \<Rightarrow> agent_row" where
  "inserted_agent uuid desired =
     \<lparr>agr_id = uuid, agr_name = df_name desired, agr_systemPrompt = df_systemPrompt desired,
      agr_provider = serializeProvider (df_provider desired), agr_tools = serializeTools (df_tools desired),
      agr_effort = Some EffortMedium, agr_isolation = Some IsoShared, agr_permissionMode = ''default'',
      agr_mode = Some ModeStandard, agr_maxTurns = None, agr_background = False\<rparr>"

definition desired_agent :: "string \<Rightarrow> (string \<times> string list) option \<Rightarrow> AgentDefinition" where
  "desired_agent model existing =
     createDefaultLocalRuntimeAgent
       \<lparr>pc_provider = ''openai'', pc_model = model, pc_temperature = None, pc_maxTokens = None\<rparr>
       (map_option (\<lambda>(prompt, toolNames). \<lparr>xa_systemPrompt = Some prompt, xa_tools = Some toolNames, xa_effort = None,
          xa_isolation = None, xa_permissionMode = None, xa_maxTurns = None, xa_background = None\<rparr>) existing)"

definition syncLocalRuntimeAgent :: "storage_schemas \<Rightarrow> ident \<Rightarrow> string \<Rightarrow> agent_db \<Rightarrow> agent_db \<times> unit result" where
  "syncLocalRuntimeAgent sc uuid model s =
     (case find (\<lambda>r. agr_name r = LOCAL_RUNTIME_AGENT_NAME) (ad_agents s) of
        None \<Rightarrow>
          if list_ex (\<lambda>r. agr_id r = uuid) (ad_agents s) then (s, Inl unique_violation)
          else (s\<lparr>ad_agents := ad_agents s @ [inserted_agent uuid (desired_agent model None)]\<rparr>, Inr ())
      | Some existing \<Rightarrow>
          (case deserializeTools sc (Inl (agr_tools existing)) of
             Inl e \<Rightarrow> (s, Inl e)
           | Inr toolNames \<Rightarrow>
               (let desired = desired_agent model (Some (agr_systemPrompt existing, toolNames));
                    provider = serializeProvider (df_provider desired);
                    toolsText = serializeTools (df_tools desired)
                in if agr_systemPrompt existing = df_systemPrompt desired \<and> agr_provider existing = provider
                      \<and> agr_tools existing = toolsText then (s, Inr ())
                   else (s\<lparr>ad_agents := sql_update (\<lambda>r. agr_id r = agr_id existing)
                            (\<lambda>r. r\<lparr>agr_systemPrompt := df_systemPrompt desired, agr_provider := provider,
                                    agr_tools := toolsText\<rparr>) (ad_agents s)\<rparr>, Inr ()))))"

section \<open>Starting and stopping\<close>

datatype runtime_service = GatewayService | WebService

definition service_text :: "runtime_service \<Rightarrow> string" where
  "service_text s = (case s of GatewayService \<Rightarrow> ''gateway'' | WebService \<Rightarrow> ''web'')"

definition pid_file :: "LocalRuntimeFiles \<Rightarrow> runtime_service \<Rightarrow> string" where
  "pid_file files s = (case s of GatewayService \<Rightarrow> rf_gatewayPidFile files | WebService \<Rightarrow> rf_webPidFile files)"

definition probe_url :: "outside \<Rightarrow> runtime_service \<Rightarrow> string" where
  "probe_url os s = (case s of GatewayService \<Rightarrow> getGatewayUrl (os_env os) @ ''/health'' | WebService \<Rightarrow> getWebUrl (os_env os))"

definition ensureNoUntrackedCollision ::
    "outside \<Rightarrow> LocalRuntimeFiles \<Rightarrow> nat \<Rightarrow> runtime_service \<Rightarrow> machine \<Rightarrow> machine \<times> unit result" where
  "ensureNoUntrackedCollision os files n s m =
     (if isProcessAlive os n (readPidFile (mc_files m) (pid_file files s)) then (m, Inr ())
      else (let (m1, up) = isHttpReachable os (probe_url os s) (remove_file (pid_file files s) m)
            in if up
               then (m1, Inl (Error (''Detected an untracked '' @ service_text s @ '' process on '' @ probe_url os s
                      @ ''. Stop it first or use the launcher stop script if it was started by SenClaw.'')))
               else (m1, Inr ())))"

definition buildWorkspace :: "outside \<Rightarrow> machine \<Rightarrow> machine \<times> unit result" where
  "buildWorkspace os m =
     (m\<lparr>mc_builds := mc_builds m + 1\<rparr>, if os_build os \<noteq> Some 0 then Inl (Error ''Build failed. See output above.'') else Inr ())"

definition createWebRuntimeProcessSpec ::
    "outside \<Rightarrow> string \<Rightarrow> string \<Rightarrow> (string, string) jsmap \<Rightarrow> process_spec result" where
  "createWebRuntimeProcessSpec os root webPort env =
     (case os_vite os of
        Inl e \<Rightarrow> Inl e
      | Inr viteEntrypoint \<Rightarrow>
          Inr \<lparr>ps_command = os_execPath os, ps_args = [viteEntrypoint, ''--host'', ''127.0.0.1'', ''--port'', webPort],
               ps_env = env, ps_cwd = resolve_all [] [root, ''apps'', ''web'']\<rparr>)"

text \<open>\<^verbatim>\<open>encodeURIComponent\<close>: everything but letters, digits and nine marks, as the bytes of UTF-8.\<close>

definition hex_upper :: "nat \<Rightarrow> char" where
  "hex_upper d = (if d < 10 then digit_char d else char_of (55 + d))"

definition uri_escape :: "char \<Rightarrow> string" where
  "uri_escape c =
     (let n = of_char c;
          bytes = (if n < 128 then [n] else [192 + n div 64, 128 + n mod 64])
      in if is_alnum c \<or> c \<in> set ''-_.!~*()'' \<or> n = 39 then [c]
         else concat (map (\<lambda>b. [CHR ''%'', hex_upper (b div 16), hex_upper (b mod 16)]) bytes))"

definition encodeURIComponent :: "string \<Rightarrow> string" where
  "encodeURIComponent s = concat (map uri_escape s)"

definition ADMIN_API_HASH_PARAM :: string where "ADMIN_API_HASH_PARAM = ''gatewayApiKey''"

record launch_plan =
  lp_provider :: ProviderSmokeConfig
  lp_settings :: RuntimeSettings
  lp_adminKey :: string
  lp_autoLoginUrl :: string
  lp_gateway :: process_spec
  lp_web :: process_spec

definition runtime_settings :: "outside \<Rightarrow> LocalRuntimeFiles \<Rightarrow> machine \<Rightarrow> machine \<times> RuntimeSettings result" where
  "runtime_settings os files m =
     (if jm_get (mc_files m) (rf_settingsFile files) \<noteq> None
      then (m, Inr (readRuntimeSettings (os_settings os) (\<lambda>_. Inr ()) (mc_files m) (rf_settingsFile files)))
      else (let (fs, r) = writeRuntimeSettings (os_settings os) (os_settingsError os) (\<lambda>_. Inr ()) (\<lambda>_. Inr ())
                            (mc_files m) (rf_settingsFile files) (Some LocaleEn)
            in (m\<lparr>mc_files := fs\<rparr>, r)))"

definition process_env :: "outside \<Rightarrow> LocalRuntimeFiles \<Rightarrow> ProviderSmokeConfig \<Rightarrow> (string, string) jsmap" where
  "process_env os files provider =
     foldl (\<lambda>e (k, v). jm_set e k v) (os_env os)
       [(''SENCLAW_DB_URL'', ''file:'' @ rf_databaseFile files), (''SENCLAW_GATEWAY_PORT'', getGatewayPort (os_env os)),
        (''SENCLAW_OPENAI_API_KEY'', sk_apiKey provider), (''SENCLAW_OPENAI_BASE_URL'', sk_baseURL provider),
        (''SENCLAW_OPENAI_MODEL'', sk_model provider)]"

text \<open>The first part of the start: configuration, settings, key, agent and the commands to run.\<close>

definition prepare :: "outside \<Rightarrow> string \<Rightarrow> LocalRuntimeFiles \<Rightarrow> machine \<Rightarrow> machine \<times> launch_plan result" where
  "prepare os root files m =
     and_then (m, os_config os) (\<lambda>m _.
     and_then (m, os_provider os) (\<lambda>m provider.
     and_then (runtime_settings os files m) (\<lambda>m settings.
     and_then (ensureAdminKey os files m) (\<lambda>m adminKey.
     and_then (let (db, r) = syncLocalRuntimeAgent (os_storage os) (os_agentId os) (sk_model provider) (mc_agents m)
               in (m\<lparr>mc_agents := db\<rparr>, r)) (\<lambda>m _.
       let env = process_env os files provider
       in and_then (m, createWebRuntimeProcessSpec os root (getWebPort (os_env os)) env) (\<lambda>m web.
          (m, Inr \<lparr>lp_provider = provider, lp_settings = settings, lp_adminKey = adminKey,
                   lp_autoLoginUrl = os_url os (''/#'' @ ADMIN_API_HASH_PARAM @ ''='' @ encodeURIComponent adminKey)
                     (getWebUrl (os_env os) @ ''/''),
                   lp_gateway = \<lparr>ps_command = os_execPath os, ps_args = [''apps/gateway/dist/index.js''], ps_env = env,
                     ps_cwd = root\<rparr>,
                   lp_web = web\<rparr>)))))))"

text \<open>One service: the process is started unless a tracked one lives, and its number is written down.\<close>

definition launch_service ::
    "outside \<Rightarrow> process_spec \<Rightarrow> string \<Rightarrow> string \<Rightarrow> string \<Rightarrow> bool \<Rightarrow> int option \<Rightarrow> machine \<Rightarrow> machine \<times> unit result" where
  "launch_service os spec logFile errorFile pidFile shouldStart reused m =
     and_then (if shouldStart then spawnBackgroundProcess os spec logFile errorFile m else (m, Inr (js_or reused 0)))
       (\<lambda>m pid. (write_file pidFile (pid_text pid) m, Inr ()))"

definition launch :: "outside \<Rightarrow> LocalRuntimeFiles \<Rightarrow> launch_plan \<Rightarrow> machine \<Rightarrow> machine \<times> unit result" where
  "launch os files plan m =
     and_then (ensureNoUntrackedCollision os files 0 GatewayService m) (\<lambda>m _.
     and_then (ensureNoUntrackedCollision os files 1 WebService m) (\<lambda>m _.
       let gatewayPid = readPidFile (mc_files m) (rf_gatewayPidFile files);
           webPid = readPidFile (mc_files m) (rf_webPidFile files);
           startGateway = \<not> isProcessAlive os 2 gatewayPid;
           startWeb = \<not> isProcessAlive os 3 webPid
       in if \<not> startGateway \<and> gatewayPid = None then (m, Inl (Error ''Tracked gateway PID is missing.''))
          else if \<not> startWeb \<and> webPid = None then (m, Inl (Error ''Tracked web PID is missing.''))
          else and_then (if startGateway \<or> startWeb then buildWorkspace os m else (m, Inr ())) (\<lambda>m _.
               and_then (launch_service os (lp_gateway plan) (rf_gatewayOutLog files) (rf_gatewayErrLog files)
                           (rf_gatewayPidFile files) startGateway gatewayPid m) (\<lambda>m _.
                 launch_service os (lp_web plan) (rf_webOutLog files) (rf_webErrLog files) (rf_webPidFile files)
                   startWeb webPid m))))"

definition announce :: "outside \<Rightarrow> LocalRuntimeFiles \<Rightarrow> launch_plan \<Rightarrow> machine \<Rightarrow> machine \<times> unit result" where
  "announce os files plan m =
     and_then (waitForUrl os (getGatewayUrl (os_env os) @ ''/health'') m) (\<lambda>m _.
     and_then (waitForUrl os (getWebUrl (os_env os)) m) (\<lambda>m _.
       (m\<lparr>mc_output := mc_output m @ [createStartupBanner (os_zh os)
             \<lparr>sbi_locale = rs_locale (lp_settings plan), sbi_model = sk_model (lp_provider plan), sbi_adminKey = lp_adminKey plan,
              sbi_gatewayUrl = getGatewayUrl (os_env os), sbi_webUrl = getWebUrl (os_env os),
              sbi_autoLoginUrl = lp_autoLoginUrl plan, sbi_logDir = rf_runtimeDir files,
              sbi_pendingApprovals = Some (fetchPendingApprovals os (getGatewayUrl (os_env os)) (lp_adminKey plan) m)\<rparr>]\<rparr>,
        Inr ())))"

definition start :: "outside \<Rightarrow> string \<Rightarrow> LocalRuntimeFiles \<Rightarrow> machine \<Rightarrow> machine \<times> unit result" where
  "start os root files m =
     and_then (prepare os root files m) (\<lambda>m plan. and_then (launch os files plan m) (\<lambda>m _. announce os files plan m))"

definition stopTrackedProcess :: "outside \<Rightarrow> nat \<Rightarrow> string \<Rightarrow> machine \<Rightarrow> machine" where
  "stopTrackedProcess os n pidFile m =
     (case readPidFile (mc_files m) pidFile of
        Some p \<Rightarrow>
          if p \<noteq> 0 \<and> isProcessAlive os n (Some p)
          then remove_file pidFile (m\<lparr>mc_signals := mc_signals m @ [if os_windows os then TaskKill p else KillSignal p]\<rparr>)
          else remove_file pidFile m
      | None \<Rightarrow> remove_file pidFile m)"

definition stop :: "outside \<Rightarrow> LocalRuntimeFiles \<Rightarrow> machine \<Rightarrow> machine" where
  "stop os files m =
     (let locale' = rs_locale (readRuntimeSettings (os_settings os) (\<lambda>_. Inr ()) (mc_files m) (rf_settingsFile files));
          m1 = stopTrackedProcess os 0 (rf_webPidFile files) m;
          m2 = stopTrackedProcess os 1 (rf_gatewayPidFile files) m1
      in m2\<lparr>mc_output := mc_output m2 @ [if locale' = LocaleZhCN then os_zhStopped os else ''SenClaw stopped.'']\<rparr>)"

definition launcher_main :: "outside \<Rightarrow> string \<Rightarrow> LocalRuntimeFiles \<Rightarrow> string option \<Rightarrow> machine \<Rightarrow> machine" where
  "launcher_main os root files argument m =
     (let command' = js_or argument ''start''
      in if command' = ''start''
         then (case start os root files m of
                 (m1, Inr _) \<Rightarrow> m1
               | (m1, Inl e) \<Rightarrow> m1\<lparr>mc_errors := mc_errors m1 @ [message e], mc_exitCode := Some 1\<rparr>)
         else if command' = ''stop'' then stop os files m
         else m\<lparr>mc_errors := mc_errors m @ [''Unknown command: '' @ command'], mc_exitCode := Some 1\<rparr>)"

section \<open>Lemmas\<close>

text \<open>A process number is read back from the text that was written.\<close>

lemma show_int_chars: "c \<in> set (show_int p) \<Longrightarrow> is_digit c \<or> c = CHR ''-''"
  by (auto simp: show_int_def dest: show_nat_digits split: if_splits)

lemma show_int_no_space: "c \<in> set (show_int p) \<Longrightarrow> \<not> js_space c"
  using show_int_chars [of c p] by (auto simp: is_digit_def js_space_def)

lemma js_trim_line:
  assumes "s \<noteq> []" and "\<And>c. c \<in> set s \<Longrightarrow> \<not> js_space c"
  shows "js_trim (s @ [CHR 0x0A]) = s"
proof -
  have "js_space (CHR 0x0A)" by (simp add: js_space_def)
  moreover have "dropWhile js_space (s @ [CHR 0x0A]) = s @ [CHR 0x0A]" using assms by (cases s) auto
  moreover have "dropWhile js_space (rev s) = rev s" using assms by (cases "rev s") (auto simp: rev_eq_Cons_iff)
  ultimately show ?thesis by (simp add: js_trim_def)
qed

lemma parse_show_nat: "takeWhile is_digit (show_nat n) = show_nat n" "js_startsWith (show_nat n) ''-'' = False"
proof -
  show "takeWhile is_digit (show_nat n) = show_nat n" using show_nat_digits [of _ n] by (simp add: takeWhile_eq_all_conv)
  obtain c t where "show_nat n = c # t" "is_digit c" using show_nat_Cons by blast
  then show "js_startsWith (show_nat n) ''-'' = False" by (auto simp: js_startsWith_def is_digit_def)
qed

lemma parseInt_show: "js_parseInt (show_int p) = Some p"
proof (cases "p < 0")
  case True
  moreover have "dropWhile js_space (show_int p) = show_int p" using True by (simp add: show_int_def js_space_def)
  ultimately show ?thesis by (simp add: js_parseInt_def show_int_def parse_show_nat digits_val_show js_startsWith_def)
next
  case False
  obtain c t where c: "show_nat (nat p) = c # t" "is_digit c" using show_nat_Cons by blast
  have "dropWhile js_space (show_int p) = show_int p"
    using False c show_int_no_space [of c p] by (simp add: show_int_def)
  moreover have "c \<noteq> CHR ''-''" "c \<noteq> CHR ''+''" using c(2) by (auto simp: is_digit_def)
  ultimately show ?thesis using False parse_show_nat [of "nat p"] digits_val_show [of "nat p"]
    by (simp add: js_parseInt_def show_int_def c(1) Let_def)
qed

lemma pid_roundtrip: "js_parseInt (js_trim (pid_text p)) = Some p"
proof -
  have "show_int p \<noteq> []" by (simp add: show_int_def)
  from js_trim_line [OF this show_int_no_space] show ?thesis by (simp add: pid_text_def parseInt_show)
qed

text \<open>What answers at an address, and the processes that a start finds alive at both of its checks.\<close>

definition answers :: "outside \<Rightarrow> string \<Rightarrow> nat \<Rightarrow> bool" where
  "answers os url t = snd (isHttpReachable os url \<lparr>mc_files = [], mc_keys = [], mc_agents = \<lparr>ad_agents = [], ad_runs = [],
     ad_messages = [], ad_messageSeq = 0, ad_tasks = [], ad_taskMessages = [], ad_taskMessageSeq = 0, ad_pending = []\<rparr>,
     mc_started = [], mc_signals = [], mc_builds = 0, mc_clock = t, mc_output = [], mc_errors = [], mc_exitCode = None\<rparr>)"

definition reused :: "outside \<Rightarrow> nat \<Rightarrow> nat \<Rightarrow> int option \<Rightarrow> bool" where
  "reused os n k pid \<longleftrightarrow> isProcessAlive os n pid \<and> isProcessAlive os k pid"

lemma probe_frame [simp]:
  "mc_files (fst (isHttpReachable os url m)) = mc_files m" "mc_started (fst (isHttpReachable os url m)) = mc_started m"
  by (simp_all add: isHttpReachable_def)

lemma collision_checked:
  assumes "ensureNoUntrackedCollision os files n s m = (m', Inr u)"
  shows "mc_started m' = mc_started m"
    and "mc_files m' = (if isProcessAlive os n (readPidFile (mc_files m) (pid_file files s)) then mc_files m
                        else jm_delete (mc_files m) (pid_file files s))"
    and "isProcessAlive os n (readPidFile (mc_files m) (pid_file files s)) \<or> (\<exists>t. \<not> answers os (probe_url os s) t)"
  using assms
  by (auto simp: ensureNoUntrackedCollision_def remove_file_def isHttpReachable_def answers_def Let_def split: if_splits)

lemma wait_frame:
  "wait_until os url deadline m = (m', r) \<Longrightarrow> mc_files m' = mc_files m \<and> mc_started m' = mc_started m"
proof (induction os url deadline m rule: wait_until.induct)
  case (1 os url deadline m)
  obtain m1 up where probe: "isHttpReachable os url m = (m1, up)" by fastforce
  have frame: "mc_files m1 = mc_files m" "mc_started m1 = mc_started m" using probe_frame [of os url m] probe by simp_all
  show ?case
  proof (cases "mc_clock m < deadline \<and> \<not> up")
    case True
    with 1(2) probe have "wait_until os url deadline (m1\<lparr>mc_clock := mc_clock m1 + 500\<rparr>) = (m', r)"
      by (simp add: wait_until.simps [of os url deadline m])
    with 1(1) [OF _ probe [symmetric] refl] True frame show ?thesis by simp
  next
    case False
    with 1(2) probe frame show ?thesis by (auto simp: wait_until.simps [of os url deadline m] split: if_splits)
  qed
qed

lemma announce_frame:
  "announce os files plan m = (m', Inr u) \<Longrightarrow> mc_files m' = mc_files m \<and> mc_started m' = mc_started m"
  by (auto simp: announce_def and_then_Inr waitForUrl_def dest!: wait_frame)

lemma open_log_frame [simp]: "mc_started (open_log f m) = mc_started m"
  "g \<noteq> f \<Longrightarrow> jm_get (mc_files (open_log f m)) g = jm_get (mc_files m) g"
  by (simp_all add: open_log_def write_file_def jsm_simps)

lemma launch_service_ok:
  assumes "launch_service os spec logFile errorFile pidFile st pid m = (m', Inr u)" and "st \<or> pid \<noteq> None"
  shows "\<exists>p. readPidFile (mc_files m') pidFile = Some p \<and> mc_started m' = mc_started m @ (if st then [(p, spec)] else [])
    \<and> (if st then p \<noteq> 0 else pid = Some p)
    \<and> (\<forall>g. g \<notin> {logFile, errorFile, pidFile} \<longrightarrow> jm_get (mc_files m') g = jm_get (mc_files m) g)"
  using assms
  by (auto simp: launch_service_def and_then_Inr spawnBackgroundProcess_def write_file_def readPidFile_def jsm_simps
    pid_roundtrip js_or_def Let_def split: if_splits option.splits)

lemma runtime_settings_frame:
  "runtime_settings os files m = (m', Inr x) \<Longrightarrow>
   mc_started m' = mc_started m \<and> (g \<noteq> rf_settingsFile files \<longrightarrow> jm_get (mc_files m') g = jm_get (mc_files m) g)"
  by (auto simp: runtime_settings_def writeRuntimeSettings_def Let_def jsm_simps split: if_splits prod.splits sum.splits)

lemma admin_key_frame:
  "ensureAdminKey os files m = (m', r) \<Longrightarrow>
   mc_started m' = mc_started m \<and> (g \<noteq> rf_adminKeyFile files \<longrightarrow> jm_get (mc_files m') g = jm_get (mc_files m) g)"
  by (auto simp: ensureAdminKey_def write_file_def Let_def jsm_simps split: option.splits sum.splits)

lemma prepare_frame:
  assumes "prepare os root files m = (m', Inr plan)"
  shows "mc_started m' = mc_started m"
    and "g \<notin> {rf_settingsFile files, rf_adminKeyFile files} \<Longrightarrow> jm_get (mc_files m') g = jm_get (mc_files m) g"
proof -
  from assms obtain m1 x m2 y where "runtime_settings os files m = (m1, Inr x)" "ensureAdminKey os files m1 = (m2, Inr y)"
    "mc_started m' = mc_started m2" "mc_files m' = mc_files m2"
    by (auto simp: prepare_def and_then_Inr Let_def case_prod_beta)
  with runtime_settings_frame [of os files m m1 x g] admin_key_frame [of os files m1 m2 "Inr y" g]
  show "mc_started m' = mc_started m"
    and "g \<notin> {rf_settingsFile files, rf_adminKeyFile files} \<Longrightarrow> jm_get (mc_files m') g = jm_get (mc_files m) g"
    by auto
qed

lemma readPidFile_cong: "jm_get fs f = jm_get fs' f \<Longrightarrow> readPidFile fs f = readPidFile fs' f"
  by (simp add: readPidFile_def)

text \<open>The files of the runtime have different names.\<close>

definition files_distinct :: "LocalRuntimeFiles \<Rightarrow> bool" where
  "files_distinct files \<longleftrightarrow>
     distinct [rf_settingsFile files, rf_adminKeyFile files, rf_gatewayPidFile files, rf_webPidFile files,
       rf_gatewayOutLog files, rf_gatewayErrLog files, rf_webOutLog files, rf_webErrLog files]"

lemma launch_tracks:
  assumes files: "files_distinct files" and ok: "launch os files plan m = (m', Inr u)"
    and g: "g = readPidFile (mc_files m) (rf_gatewayPidFile files)" and w: "w = readPidFile (mc_files m) (rf_webPidFile files)"
  shows "\<exists>pg pw. readPidFile (mc_files m') (rf_gatewayPidFile files) = Some pg
    \<and> readPidFile (mc_files m') (rf_webPidFile files) = Some pw
    \<and> mc_started m' = mc_started m @ (if reused os 0 2 g then [] else [(pg, lp_gateway plan)])
                                     @ (if reused os 1 3 w then [] else [(pw, lp_web plan)])
    \<and> pg \<noteq> 0 \<and> pw \<noteq> 0 \<and> (reused os 0 2 g \<longrightarrow> g = Some pg) \<and> (reused os 1 3 w \<longrightarrow> w = Some pw)
    \<and> (reused os 0 2 g \<or> isProcessAlive os 0 g \<or> (\<exists>t. \<not> answers os (probe_url os GatewayService) t))
    \<and> (reused os 1 3 w \<or> isProcessAlive os 1 w \<or> (\<exists>t. \<not> answers os (probe_url os WebService) t))"
proof -
  let ?gf = "rf_gatewayPidFile files" and ?wf = "rf_webPidFile files"
  from ok obtain m1 m2 m3 m4 u1 u2 u3 u4 where
    c1: "ensureNoUntrackedCollision os files 0 GatewayService m = (m1, Inr u1)" and
    c2: "ensureNoUntrackedCollision os files 1 WebService m1 = (m2, Inr u2)" and
    build: "(if \<not> isProcessAlive os 2 (readPidFile (mc_files m2) ?gf) \<or> \<not> isProcessAlive os 3 (readPidFile (mc_files m2) ?wf)
             then buildWorkspace os m2 else (m2, Inr ())) = (m3, Inr u3)" and
    s1: "launch_service os (lp_gateway plan) (rf_gatewayOutLog files) (rf_gatewayErrLog files) ?gf
           (\<not> isProcessAlive os 2 (readPidFile (mc_files m2) ?gf)) (readPidFile (mc_files m2) ?gf) m3 = (m4, Inr u4)" and
    s2: "launch_service os (lp_web plan) (rf_webOutLog files) (rf_webErrLog files) ?wf
           (\<not> isProcessAlive os 3 (readPidFile (mc_files m2) ?wf)) (readPidFile (mc_files m2) ?wf) m4 = (m', Inr u)"
    by (auto simp: launch_def Let_def and_then_Inr split: if_splits)
  note col = collision_checked [OF c1] collision_checked [OF c2]
  have neq: "?gf \<noteq> ?wf" using files by (simp add: files_distinct_def)
  have g2: "readPidFile (mc_files m2) ?gf = (if isProcessAlive os 0 g then g else None)"
    using col(2,5) neq by (auto simp: readPidFile_def pid_file_def jsm_simps g split: if_splits)
  have w1: "readPidFile (mc_files m1) ?wf = w"
    using col(2) neq by (auto simp: readPidFile_def pid_file_def jsm_simps w split: if_splits)
  have w2: "readPidFile (mc_files m2) ?wf = (if isProcessAlive os 1 w then w else None)"
    using col(5) w1 by (auto simp: readPidFile_def pid_file_def jsm_simps split: if_splits)
  have m3: "mc_started m3 = mc_started m" "mc_files m3 = mc_files m2"
    using build col(1,4) by (auto simp: buildWorkspace_def split: if_splits)
  have alive2: "isProcessAlive os 2 (readPidFile (mc_files m2) ?gf) \<longleftrightarrow> reused os 0 2 g"
    "isProcessAlive os 3 (readPidFile (mc_files m2) ?wf) \<longleftrightarrow> reused os 1 3 w"
    unfolding g2 w2 reused_def by (auto simp: isProcessAlive_def)
  obtain pg where pg: "readPidFile (mc_files m4) ?gf = Some pg"
    "mc_started m4 = mc_started m @ (if reused os 0 2 g then [] else [(pg, lp_gateway plan)])"
    "if reused os 0 2 g then g = Some pg else pg \<noteq> 0"
    "\<forall>f. f \<notin> {rf_gatewayOutLog files, rf_gatewayErrLog files, ?gf} \<longrightarrow> jm_get (mc_files m4) f = jm_get (mc_files m3) f"
    using launch_service_ok [OF s1] alive2(1) m3 g2 by (auto simp: isProcessAlive_def reused_def split: if_splits option.splits)
  obtain pw where pw: "readPidFile (mc_files m') ?wf = Some pw"
    "mc_started m' = mc_started m4 @ (if reused os 1 3 w then [] else [(pw, lp_web plan)])"
    "if reused os 1 3 w then w = Some pw else pw \<noteq> 0"
    "\<forall>f. f \<notin> {rf_webOutLog files, rf_webErrLog files, ?wf} \<longrightarrow> jm_get (mc_files m') f = jm_get (mc_files m4) f"
    using launch_service_ok [OF s2] alive2(2) w2 by (auto simp: isProcessAlive_def reused_def split: if_splits option.splits)
  have "readPidFile (mc_files m') ?gf = Some pg"
    using pw(4) pg(1) files by (auto simp: readPidFile_def files_distinct_def)
  moreover have "pg \<noteq> 0" "pw \<noteq> 0" using pg(3) pw(3) by (auto simp: reused_def isProcessAlive_def split: if_splits)
  ultimately show ?thesis using pg pw col(3) col(6) w1
    by (auto simp: pid_file_def g split: if_splits)
qed

text \<open>The tools of the default agent.\<close>

lemma first_occurrences_props:
  "distinct (first_occurrences seen xs)" "set (first_occurrences seen xs) = set xs - set seen"
  by (induction seen xs rule: first_occurrences.induct) auto

lemma first_occurrences_fixed:
  "distinct xs \<Longrightarrow> set xs \<inter> set seen = {} \<Longrightarrow> set ys \<subseteq> set xs \<union> set seen \<Longrightarrow> first_occurrences seen (xs @ ys) = xs"
proof (induction xs arbitrary: seen)
  case Nil
  then show ?case by (induction ys) auto
next
  case (Cons x xs)
  then have "first_occurrences (x # seen) (xs @ ys) = xs" by (intro Cons.IH) auto
  with Cons.prems show ?case by simp
qed

lemma desired_fixed:
  assumes "d = desired_agent model existing"
  shows "desired_agent model (Some (df_systemPrompt d, df_tools d)) = d"
proof -
  have default: "js_trim DEFAULT_LOCAL_RUNTIME_SYSTEM_PROMPT = DEFAULT_LOCAL_RUNTIME_SYSTEM_PROMPT"
    "DEFAULT_LOCAL_RUNTIME_SYSTEM_PROMPT \<noteq> []"
    by code_simp (simp add: DEFAULT_LOCAL_RUNTIME_SYSTEM_PROMPT_def)
  have "first_occurrences [] (df_tools d @ LOCAL_RUNTIME_AGENT_TOOLS) = df_tools d"
    unfolding assms desired_agent_def createDefaultLocalRuntimeAgent_def Let_def AgentDefinition.simps
    by (intro first_occurrences_fixed) (auto simp: first_occurrences_props)
  then show ?thesis
    by (cases existing)
      (auto simp: assms desired_agent_def createDefaultLocalRuntimeAgent_def Let_def default js_or_def)
qed

lemma desired_tools: "set LOCAL_RUNTIME_AGENT_TOOLS \<subseteq> set (df_tools (desired_agent model existing))"
  "distinct (df_tools (desired_agent model existing))"
  by (simp_all add: desired_agent_def createDefaultLocalRuntimeAgent_def Let_def first_occurrences_props)

lemma desired_prompt: "js_trim (df_systemPrompt (desired_agent model existing)) \<noteq> []"
proof -
  have "js_trim DEFAULT_LOCAL_RUNTIME_SYSTEM_PROMPT \<noteq> []" by code_simp
  then show ?thesis by (simp add: desired_agent_def createDefaultLocalRuntimeAgent_def Let_def)
qed

lemma desired_name: "df_name (desired_agent model existing) = LOCAL_RUNTIME_AGENT_NAME"
  by (simp add: desired_agent_def createDefaultLocalRuntimeAgent_def Let_def)

text \<open>A row that holds a desired agent is found again and left alone.\<close>

lemma sync_settled:
  assumes sc: "schemas_ok sc" and row: "find (\<lambda>r. agr_name r = LOCAL_RUNTIME_AGENT_NAME) (ad_agents s) = Some row"
    and d: "d = desired_agent model existing" "agr_systemPrompt row = df_systemPrompt d"
      "agr_provider row = serializeProvider (df_provider d)" "agr_tools row = serializeTools (df_tools d)"
  shows "syncLocalRuntimeAgent sc uuid model s = (s, Inr ())"
  using desired_fixed [OF d(1)] d(2-4) by (simp add: syncLocalRuntimeAgent_def row tools_roundtrip [OF sc])

lemma find_map_same: "(\<And>x. P (f x) = P x) \<Longrightarrow> find P (map f xs) = map_option f (find P xs)"
  by (induction xs) auto

lemma filter_sql_update:
  "(\<And>r. key (upd r) = key r) \<Longrightarrow> filter (\<lambda>r. key r \<noteq> i) (sql_update (\<lambda>r. key r = i) upd rs) = filter (\<lambda>r. key r \<noteq> i) rs"
  by (induction rs) (auto simp: sql_update_def)

text \<open>What a synchronisation leaves: a row with a desired agent, and all other rows.\<close>

lemma sync_row:
  assumes ok: "syncLocalRuntimeAgent sc uuid model s = (s', Inr u)"
  obtains row existing where "find (\<lambda>r. agr_name r = LOCAL_RUNTIME_AGENT_NAME) (ad_agents s') = Some row"
    "agr_systemPrompt row = df_systemPrompt (desired_agent model existing)"
    "agr_provider row = serializeProvider (df_provider (desired_agent model existing))"
    "agr_tools row = serializeTools (df_tools (desired_agent model existing))"
    "filter (\<lambda>r. agr_id r \<noteq> agr_id row) (ad_agents s') = filter (\<lambda>r. agr_id r \<noteq> agr_id row) (ad_agents s)"
proof (cases "find (\<lambda>r. agr_name r = LOCAL_RUNTIME_AGENT_NAME) (ad_agents s)")
  case None
  let ?row = "inserted_agent uuid (desired_agent model None)"
  have "s' = s\<lparr>ad_agents := ad_agents s @ [?row]\<rparr>" "uuid \<notin> agr_id ` set (ad_agents s)"
    using ok None by (auto simp: syncLocalRuntimeAgent_def list_ex_iff split: if_splits)
  then show thesis
    using None that [of ?row None] by (simp add: find_snoc inserted_agent_def desired_name)
next
  case (Some old)
  then obtain toolNames where tools: "deserializeTools sc (Inl (agr_tools old)) = Inr toolNames"
    using ok by (auto simp: syncLocalRuntimeAgent_def split: sum.splits)
  let ?e = "Some (agr_systemPrompt old, toolNames)"
  let ?d = "desired_agent model ?e"
  let ?upd = "\<lambda>r. r\<lparr>agr_systemPrompt := df_systemPrompt ?d, agr_provider := serializeProvider (df_provider ?d),
                    agr_tools := serializeTools (df_tools ?d)\<rparr>"
  let ?new = "sql_update (\<lambda>r. agr_id r = agr_id old) ?upd (ad_agents s)"
  show thesis
  proof (cases "agr_systemPrompt old = df_systemPrompt ?d \<and> agr_provider old = serializeProvider (df_provider ?d)
                \<and> agr_tools old = serializeTools (df_tools ?d)")
    case True
    then have "s' = s" using ok Some tools by (simp add: syncLocalRuntimeAgent_def Let_def)
    with True Some show thesis using that [of old ?e] by simp
  next
    case False
    then have "s' = s\<lparr>ad_agents := ?new\<rparr>" using ok Some tools by (auto simp: syncLocalRuntimeAgent_def Let_def)
    moreover have "find (\<lambda>r. agr_name r = LOCAL_RUNTIME_AGENT_NAME) ?new = Some (?upd old)"
      unfolding sql_update_def by (subst find_map_same) (simp_all add: Some)
    moreover have "filter (\<lambda>r. agr_id r \<noteq> agr_id old) ?new = filter (\<lambda>r. agr_id r \<noteq> agr_id old) (ad_agents s)"
      by (rule filter_sql_update) simp
    ultimately show thesis using that [of "?upd old" ?e] by simp
  qed
qed

lemma generated_key_no_space:
  assumes "length rnd = 32" and "c \<in> set (generateApiKey rnd)"
  shows "\<not> js_space c"
proof -
  have "list_all is_alnum (base62Encode rnd)"
    using generated_key_valid_plain [OF assms(1)] by (simp add: isValidApiKeyFormat_def generateApiKey_def)
  then have "c \<in> set API_KEY_PREFIX \<or> is_alnum c" using assms(2) by (auto simp: generateApiKey_def list_all_iff)
  then show ?thesis by (auto simp: API_KEY_PREFIX_def is_alnum_def js_space_def Let_def)
qed

lemma wait_notices:
  assumes up: "\<forall>t \<ge> since. answers os url t" and slow: "\<forall>t. os_latency os t url \<le> L" and time: "since + L + 500 \<le> deadline"
  shows "mc_clock m < deadline \<Longrightarrow> \<exists>m'. wait_until os url deadline m = (m', Inr ())"
proof (induction "deadline - mc_clock m" arbitrary: m rule: less_induct)
  case less
  obtain m1 where probe: "isHttpReachable os url m = (m1, answers os url (mc_clock m))"
    by (simp add: isHttpReachable_def answers_def)
  show ?case
  proof (cases "answers os url (mc_clock m)")
    case True
    with less.prems probe show ?thesis by (subst wait_until.simps) simp
  next
    case False
    then have "mc_clock m < since" using up not_le by blast
    moreover have "mc_clock m1 = mc_clock m + os_latency os (mc_clock m) url" using isHttpReachable_clock [of os url m] probe by simp
    ultimately have "mc_clock m1 + 500 < deadline" "mc_clock m < mc_clock m1 + 500"
      using slow [rule_format, of "mc_clock m"] time by linarith+
    moreover from this have "deadline - (mc_clock m1 + 500) < deadline - mc_clock m" using less.prems by linarith
    ultimately obtain m' where "wait_until os url deadline (m1\<lparr>mc_clock := mc_clock m1 + 500\<rparr>) = (m', Inr ())"
      using less.hyps [of "m1\<lparr>mc_clock := mc_clock m1 + 500\<rparr>"] by auto
    with less.prems probe False show ?thesis by (subst wait_until.simps) simp
  qed
qed

section \<open>Properties\<close>


definition demo_files :: LocalRuntimeFiles where
  "demo_files = resolveLocalRuntimeFiles [] (Some ''/w'')"

definition demo_outside :: outside where
  "demo_outside =
     \<lparr>os_windows = False, os_env = [], os_execPath = ''node'', os_vite = Inr ''vite.js'', os_alive = (\<lambda>n p. p = 7),
      os_http = (\<lambda>t url h. if t < 2 then Inl (Error ''refused'')
                  else Inr \<lparr>hs_status = 200, hs_statusText = ''OK'', hs_contentType = None, hs_text = ''[]''\<rparr>),
      os_latency = (\<lambda>t url. 3), os_pid = (\<lambda>n. Some 11), os_build = Some 0, os_url = (\<lambda>r b. b @ r), os_sha = (\<lambda>v. v),
      os_bhash = (\<lambda>salt v. v), os_rnd = replicate 32 7, os_keyId = ''k1'', os_agentId = ''a1'', os_salt = [], os_now = ''2026'',
      os_config = Inr \<lparr>cf_logLevel = ''info'', cf_gatewayPort = 4100, cf_agentRunnerPort = 4101, cf_toolRunnerPort = 4102, cf_maxTurns = 8,
        cf_llmTimeoutMs = 1000, cf_toolTimeoutMs = 1000, cf_dbUrl = None, cf_rateLimitAdmin = 1, cf_rateLimitUser = 1,
        cf_rateLimitReadonly = 1, cf_auditLogRetentionDays = 1, cf_schedulerTickIntervalMs = 1, cf_metricsEnabled = True,
        cf_tracingEnabled = False, cf_tracingEndpoint = None, cf_logDebugEndpoints = [], cf_logDebugUsers = []\<rparr>,
      os_provider = Inr \<lparr>sk_apiKey = ''x'', sk_baseURL = ''y'', sk_model = ''z'', sk_prompt = ''p'', sk_timeoutMs = 1\<rparr>,
      os_storage = demo_storage_schemas, os_settings = demo_settings_schema, os_settingsError = (\<lambda>is. Error ''bad''),
      os_summary = (\<lambda>j. \<lparr>pa_id = [], pa_kind = KindFilesystem, pa_action = [], pa_targetPaths = [], pa_reason = [], pa_requestedBy = []\<rparr>),
      os_zh = english_texts, os_zhStopped = []\<rparr>"

definition demo_machine :: machine where
  "demo_machine =
     \<lparr>mc_files = [(rf_gatewayPidFile demo_files, pid_text 7)], mc_keys = [], mc_agents = db_init, mc_started = [], mc_signals = [],
      mc_builds = 0, mc_clock = 0, mc_output = [], mc_errors = [], mc_exitCode = None\<rparr>"

lemma demo_files_distinct: "files_distinct demo_files"
  by code_simp

definition demo_restart :: machine where
  "demo_restart = demo_machine\<lparr>mc_files := mc_files demo_machine
     @ [(rf_adminKeyFile demo_files, ''key''), (rf_settingsFile demo_files, ''{}'')]\<rparr>"

lemma demo_pids:
  "readPidFile (mc_files demo_machine) (rf_gatewayPidFile demo_files) = Some 7"
  "readPidFile (mc_files demo_machine) (rf_webPidFile demo_files) = None"
  "readPidFile (mc_files demo_restart) (rf_gatewayPidFile demo_files) = Some 7"
  "readPidFile (mc_files demo_restart) (rf_webPidFile demo_files) = None"
  by code_simp+

lemma demo_launch_runs:
  "map_sum (\<lambda>_. ()) (\<lambda>_. ()) (snd (and_then (prepare demo_outside ''/w'' demo_files demo_restart) (\<lambda>m plan. launch demo_outside demo_files plan m)))
     = Inr ()"
  by code_simp

lemma demo_wait: "\<exists>m'. waitForUrl demo_outside url m = (m', Inr ())"
  unfolding waitForUrl_def
  by (rule wait_notices [where since = 2 and L = 3])
    (simp_all add: demo_outside_def answers_def isHttpReachable_def response_ok_def)

lemma demo_start_runs: "\<exists>m'. start demo_outside ''/w'' demo_files demo_restart = (m', Inr ())"
proof -
  obtain m1 plan m2 where "prepare demo_outside ''/w'' demo_files demo_restart = (m1, Inr plan)"
    "launch demo_outside demo_files plan m1 = (m2, Inr ())"
    using demo_launch_runs
    by (cases "and_then (prepare demo_outside ''/w'' demo_files demo_restart) (\<lambda>m plan. launch demo_outside demo_files plan m)";
        cases "snd (and_then (prepare demo_outside ''/w'' demo_files demo_restart) (\<lambda>m plan. launch demo_outside demo_files plan m))")
      (auto simp: and_then_Inr)
  moreover obtain m3 where "waitForUrl demo_outside (getGatewayUrl (os_env demo_outside) @ ''/health'') m2 = (m3, Inr ())"
    using demo_wait by blast
  moreover obtain m4 where "waitForUrl demo_outside (getWebUrl (os_env demo_outside)) m3 = (m4, Inr ())" using demo_wait by blast
  ultimately show ?thesis by (simp add: start_def announce_def)
qed


text \<open>
  The default agent. Synchronising leaves one agent of the fixed name in front, with the configured model, every
  local tool and a prompt that is not blank; no other agent changes, and doing it again changes nothing.
\<close>

theorem default_agent_synced:
  assumes sc: "schemas_ok sc" and ok: "syncLocalRuntimeAgent sc uuid model s = (s', Inr u)"
  shows "\<exists>row toolNames. find (\<lambda>r. agr_name r = LOCAL_RUNTIME_AGENT_NAME) (ad_agents s') = Some row
    \<and> agr_provider row = serializeProvider \<lparr>pc_provider = ''openai'', pc_model = model, pc_temperature = None, pc_maxTokens = None\<rparr>
    \<and> deserializeTools sc (Inl (agr_tools row)) = Inr toolNames \<and> distinct toolNames
    \<and> set LOCAL_RUNTIME_AGENT_TOOLS \<subseteq> set toolNames \<and> js_trim (agr_systemPrompt row) \<noteq> []
    \<and> filter (\<lambda>r. agr_id r \<noteq> agr_id row) (ad_agents s') = filter (\<lambda>r. agr_id r \<noteq> agr_id row) (ad_agents s)
    \<and> (\<forall>uuid'. syncLocalRuntimeAgent sc uuid' model s' = (s', Inr ()))"
  using ok
proof (rule sync_row)
  fix row existing
  let ?d = "desired_agent model existing"
  assume row: "find (\<lambda>r. agr_name r = LOCAL_RUNTIME_AGENT_NAME) (ad_agents s') = Some row"
    and holds: "agr_systemPrompt row = df_systemPrompt ?d" "agr_provider row = serializeProvider (df_provider ?d)"
      "agr_tools row = serializeTools (df_tools ?d)"
    and rest: "filter (\<lambda>r. agr_id r \<noteq> agr_id row) (ad_agents s') = filter (\<lambda>r. agr_id r \<noteq> agr_id row) (ad_agents s)"
  have "\<forall>uuid'. syncLocalRuntimeAgent sc uuid' model s' = (s', Inr ())" using sync_settled [OF sc row refl] holds by blast
  moreover have "deserializeTools sc (Inl (agr_tools row)) = Inr (df_tools ?d)" by (simp add: holds tools_roundtrip [OF sc])
  moreover have "df_provider ?d = \<lparr>pc_provider = ''openai'', pc_model = model, pc_temperature = None, pc_maxTokens = None\<rparr>"
    by (simp add: desired_agent_def createDefaultLocalRuntimeAgent_def Let_def)
  ultimately show ?thesis
    using row rest holds desired_tools [of model existing] desired_prompt [of model existing] by auto
qed

theorem default_agent_synced_witness:
  "\<exists>row. ad_agents (fst (syncLocalRuntimeAgent demo_storage_schemas ''a1'' ''m'' db_init)) = [row]
     \<and> js_trim (agr_systemPrompt row) \<noteq> []
     \<and> syncLocalRuntimeAgent demo_storage_schemas ''a2'' ''m'' (fst (syncLocalRuntimeAgent demo_storage_schemas ''a1'' ''m'' db_init))
       = (fst (syncLocalRuntimeAgent demo_storage_schemas ''a1'' ''m'' db_init), Inr ())"
proof -
  let ?s = "db_init\<lparr>ad_agents := [inserted_agent ''a1'' (desired_agent ''m'' None)]\<rparr>"
  have go: "syncLocalRuntimeAgent demo_storage_schemas ''a1'' ''m'' db_init = (?s, Inr ())"
    by (simp add: syncLocalRuntimeAgent_def db_init_def)
  from default_agent_synced [OF demo_schemas_ok go] show ?thesis unfolding go by (auto split: if_splits)
qed

text \<open>
  The administrator key. Where no key file exists the launcher stores a key that authenticates as an
  administrator and writes it down; the next launch reads back that key and stores nothing.
\<close>

theorem admin_key_usable:
  assumes none: "jm_get (mc_files m) (rf_adminKeyFile files) = None" and rows: "key_rows_ok (mc_keys m)"
    and rnd: "length (os_rnd os) = 32" and uuid: "os_keyId os \<noteq> []"
    and fresh: "kr_get SqliteApiKeyRepository (mc_keys m) (os_keyId os) = None"
      "kr_findByLookupHash SqliteApiKeyRepository (mc_keys m) (os_sha os (generateApiKey (os_rnd os))) = None"
    and compare: "\<And>salt v. bcompare v (os_bhash os salt v)"
  shows "\<exists>m' raw k. ensureAdminKey os files m = (m', Inr raw)
    \<and> authenticateApiKey SqliteApiKeyRepository (os_sha os) bcompare now (mc_keys m') raw = Inr k \<and> au_role k = RoleAdmin
    \<and> (\<forall>os'. ensureAdminKey os' files m' = (m', Inr raw))"
proof -
  let ?raw = "generateApiKey (os_rnd os)"
  let ?input = "\<lparr>ci_name = (if kr_count SqliteApiKeyRepository (mc_keys m) = 0 then ''Bootstrap Admin Key'' else ''Local Runtime Admin Key''),
    ci_role = RoleAdmin, ci_createdBy = ''system'', ci_expiresAt = None\<rparr>"
  obtain keys k where made: "createApiKey SqliteApiKeyRepository (os_sha os) (os_bhash os) (os_rnd os) (os_keyId os) (os_salt os)
      (os_now os) (mc_keys m) ?input = Inr (keys, k, ?raw)"
    and auth: "authenticateApiKey SqliteApiKeyRepository (os_sha os) bcompare now keys ?raw = Inr k" "au_role k = RoleAdmin"
    using sqlite.create_then_authenticate [where input = ?input and now' = now and sha = "os_sha os" and bcompare = bcompare and bhash = "os_bhash os"
        and salt = "os_salt os" and now = "os_now os", OF rows rnd uuid fresh compare]
    by (auto simp: createApiKey_def Let_def split: sum.splits)
  let ?m = "write_file (rf_adminKeyFile files) (?raw @ [CHR 0x0A]) (m\<lparr>mc_keys := keys\<rparr>)"
  have stored: "ensureAdminKey os files m = (?m, Inr ?raw)"
    using made unfolding createApiKey_def Let_def ensureAdminKey_def none option.case
    by (cases "kr_create SqliteApiKeyRepository (mc_keys m) (new_key_record (os_sha os) (os_bhash os) (os_keyId os) (os_salt os)
      (os_now os) ?raw ?input)") simp_all
  have "\<not> js_space c" if "c \<in> set ?raw" for c using generated_key_no_space [OF rnd that] .
  moreover have "?raw \<noteq> []" by (simp add: generateApiKey_def API_KEY_PREFIX_def)
  ultimately have "ensureAdminKey os' files ?m = (?m, Inr ?raw)" for os'
    using js_trim_line by (simp add: ensureAdminKey_def write_file_def jsm_simps)
  with stored auth show ?thesis by (auto simp: write_file_def)
qed

theorem admin_key_usable_witness:
  "\<exists>m' raw k. ensureAdminKey demo_outside demo_files demo_machine = (m', Inr raw)
     \<and> authenticateApiKey SqliteApiKeyRepository (\<lambda>v. v) (\<lambda>v h. v = h) ''2027'' (mc_keys m') raw = Inr k \<and> au_role k = RoleAdmin"
proof -
  have "jm_get (mc_files demo_machine) (rf_adminKeyFile demo_files) = None" by code_simp
  moreover have "key_rows_ok (mc_keys demo_machine)" "length (os_rnd demo_outside) = 32" "os_keyId demo_outside \<noteq> []"
    "kr_get SqliteApiKeyRepository (mc_keys demo_machine) (os_keyId demo_outside) = None"
    "kr_findByLookupHash SqliteApiKeyRepository (mc_keys demo_machine) (os_sha demo_outside (generateApiKey (os_rnd demo_outside))) = None"
    "\<And>salt v. (\<lambda>v h. v = h) v (os_bhash demo_outside salt v)" "os_sha demo_outside = (\<lambda>v. v)"
    by (simp_all add: demo_machine_def demo_outside_def key_rows_ok_def SqliteApiKeyRepository_def)
  ultimately show ?thesis
    using admin_key_usable [where m = demo_machine and files = demo_files and os = demo_outside and bcompare = "\<lambda>v h. v = h"
        and now = "''2027''"] by auto
qed

text \<open>
  Waiting. A server that answers from some moment on, early enough before the 20 seconds are over, is always
  noticed.
\<close>

theorem server_noticed:
  assumes "\<forall>t \<ge> since. answers os url t" and "\<forall>t. os_latency os t url \<le> L" and "since + L + 500 \<le> mc_clock m + 20000"
  shows "\<exists>m'. waitForUrl os url m = (m', Inr ())"
  unfolding waitForUrl_def using wait_notices [OF assms(1,2,3)] by simp

theorem server_noticed_witness:
  "\<exists>m'. waitForUrl demo_outside ''http://localhost:3000'' demo_machine = (m', Inr ())"
  by (rule server_noticed [where since = 2 and L = 3])
    (simp_all add: demo_machine_def demo_outside_def answers_def isHttpReachable_def response_ok_def)

text \<open>
  Stopping. Exactly the tracked processes that are alive are told to stop, the web server first, and both PID
  files are gone.
\<close>

theorem stop_exact:
  assumes files: "rf_gatewayPidFile files \<noteq> rf_webPidFile files"
    and g: "g = readPidFile (mc_files m) (rf_gatewayPidFile files)" and w: "w = readPidFile (mc_files m) (rf_webPidFile files)"
  shows "let call = (\<lambda>n p. if isProcessAlive os n p then [if os_windows os then TaskKill (the p) else KillSignal (the p)] else [])
    in mc_signals (stop os files m) = mc_signals m @ call 0 w @ call 1 g
     \<and> jm_get (mc_files (stop os files m)) (rf_gatewayPidFile files) = None
     \<and> jm_get (mc_files (stop os files m)) (rf_webPidFile files) = None
     \<and> mc_started (stop os files m) = mc_started m"
proof -
  have one: "mc_signals (stopTrackedProcess os n f m) = mc_signals m @ (let p = readPidFile (mc_files m) f in
        if isProcessAlive os n p then [if os_windows os then TaskKill (the p) else KillSignal (the p)] else [])"
    "mc_files (stopTrackedProcess os n f m) = jm_delete (mc_files m) f" "mc_started (stopTrackedProcess os n f m) = mc_started m" for n f m
    by (auto simp: stopTrackedProcess_def remove_file_def isProcessAlive_def Let_def split: option.splits)
  have "readPidFile (jm_delete (mc_files m) (rf_webPidFile files)) (rf_gatewayPidFile files) = g"
    using files by (simp add: g readPidFile_def jsm_simps)
  then show ?thesis using files unfolding stop_def Let_def by (simp add: one g w jsm_simps)
qed

theorem stop_exact_witness:
  "mc_signals (stop demo_outside demo_files demo_machine) = [KillSignal 7]"
proof -
  have "rf_gatewayPidFile demo_files \<noteq> rf_webPidFile demo_files" using demo_files_distinct by (simp add: files_distinct_def)
  from stop_exact [OF this demo_pids(1) [symmetric] demo_pids(2) [symmetric], of demo_outside]
  show ?thesis by (simp add: Let_def isProcessAlive_def demo_outside_def demo_machine_def)
qed

end
