(* ===== verification/Sandbox_Probes.thy ===== *)
theory Sandbox_Probes
  imports Complex_Main Sandbox_Runner Json_Text
begin

text \<open>
  What the sandbox runner takes from other processes: the answer of the native runner of level 4
  (\<^verbatim>\<open>apps/tool-runner-host/src/rust-sandbox.ts\<close>) and the CPU time of the child (\<^verbatim>\<open>sandbox-resources.ts\<close>), with the monitor
  that reads it at intervals.

  A child process is a sequence of events: chunks of its two outputs, an error, the exit. A reading is a
  rational number of milliseconds; \<open>number\<close> is the conversion of a text to a finite number.
\<close>

section \<open>The native runner\<close>

record RustSandboxRunnerOptions =
  rr_command :: "string option"
  rr_args :: "string list option"
  rr_manifestPath :: "string option"

definition resolveToolchainEnv :: "string \<Rightarrow> (string, string) jsmap" where
  "resolveToolchainEnv platform =
     (if platform = ''win32'' then [(''RUSTUP_TOOLCHAIN'', ''stable-x86_64-pc-windows-msvc'')]
      else if platform = ''linux'' then [(''RUSTUP_TOOLCHAIN'', ''stable-x86_64-unknown-linux-gnu'')]
      else [])"

definition runner_path :: "string \<Rightarrow> string list \<Rightarrow> string" where
  "runner_path cwd parts = foldl posix_resolve cwd parts"

definition resolveRunnerInvocation :: "string \<Rightarrow> string \<Rightarrow> (string \<Rightarrow> bool) \<Rightarrow> RustSandboxRunnerOptions \<Rightarrow> string \<times> string list" where
  "resolveRunnerInvocation platform cwd fileExists options =
     (if js_truthy (rr_command options) then (the (rr_command options), js_or (rr_args options) [])
      else (let executableName = (if platform = ''win32'' then ''sandbox-runner.exe'' else ''sandbox-runner'');
                releasePath = runner_path cwd [''native'', ''target'', ''release'', executableName];
                debugPath = runner_path cwd [''native'', ''target'', ''debug'', executableName]
            in if fileExists releasePath then (releasePath, [])
               else if fileExists debugPath then (debugPath, [])
               else (''cargo'', [''run'', ''--quiet'', ''--manifest-path'',
                       js_or (rr_manifestPath options) (runner_path cwd [''native'', ''sandbox-runner'', ''Cargo.toml'']),
                       ''--bin'', ''sandbox-runner''])))"

definition createRunnerUnavailableError :: "string \<times> string list \<Rightarrow> exn \<Rightarrow> exn" where
  "createRunnerUnavailableError invocation e =
     (if err_code e = Some ''ENOENT''
      then (let missing = fst invocation;
                guidance = (if missing = ''cargo''
                  then ''Install Rust and ensure cargo is on PATH, or build native/sandbox-runner before running level 4 tools.''
                  else ''Build native/sandbox-runner before running level 4 tools, or configure rustRunner.command to a valid binary.'')
            in Error (''Rust sandbox runner is unavailable: '' @ missing @ '' was not found. '' @ guidance))
      else e)"

definition execute_message_json :: "ExecuteMessage \<Rightarrow> json" where
  "execute_message_json xm =
     JObj ([(''handlerSource'', JStr (xm_handlerSource xm)), (''args'', xm_args xm), (''sandboxLevel'', JNum (int (xm_sandboxLevel xm)))]
       @ (case xm_sandboxDirectory xm of None \<Rightarrow> [] | Some d \<Rightarrow> [(''sandboxDirectory'', JStr d)])
       @ [(''allowNetwork'', JBool (xm_allowNetwork xm)), (''allowedDomains'', JArr (map JStr (xm_allowedDomains xm))),
          (''allowedPaths'', JArr (map JStr (xm_allowedPaths xm))), (''type'', JStr ''execute'')])"

definition rust_request :: "string \<Rightarrow> string \<Rightarrow> ExecuteMessage \<Rightarrow> ResolvedSandboxOptions \<Rightarrow> string" where
  "rust_request nodePath workerSource xm ro =
     json_stringify (JObj [(''nodePath'', JStr nodePath), (''workerSource'', JStr workerSource),
       (''executeMessage'', execute_message_json xm), (''timeoutMs'', JNum (int (ro_timeoutMs ro))),
       (''maxMemoryMb'', JNum (int (ro_maxMemoryMb ro))), (''maxCpu'', JNum (int (ro_maxCpu ro)))])"

definition present :: "json option \<Rightarrow> json option" where
  "present v = (case v of Some j \<Rightarrow> if j = JNull then None else Some j | None \<Rightarrow> None)"

datatype probe_child_event = OutChunk string | ErrChunk string | ChildFailed exn | ChildExited "int option"

record rust_state =
  ru_stdout :: string
  ru_stderr :: string
  ru_outcome :: "json result option"

definition rust_start :: rust_state where
  "rust_start = \<lparr>ru_stdout = [], ru_stderr = [], ru_outcome = None\<rparr>"

text \<open>A promise keeps its first outcome.\<close>

definition rust_settle :: "json result \<Rightarrow> rust_state \<Rightarrow> rust_state" where
  "rust_settle r s = s\<lparr>ru_outcome := js_or_opt (ru_outcome s) (Some r)\<rparr>"

definition rust_reply :: "string \<Rightarrow> string \<Rightarrow> int option \<Rightarrow> json result" where
  "rust_reply out err code =
     (case (case json_parse (js_trim out) of None \<Rightarrow> None | Some j \<Rightarrow> if j = JNull then None else Some j) of
        Some response \<Rightarrow>
          (if (case json_field response ''ok'' of Some v \<Rightarrow> json_truthy v | None \<Rightarrow> False)
           then Inr (js_or (present (json_field response ''result'')) (JStr []))
           else (let reason = js_or (present (json_field response ''error'')) (JStr (js_trim err))
                 in Inl (Error (if json_truthy reason then json_String reason else ''Rust sandbox failed''))))
      | None \<Rightarrow>
          (let m = js_trim err
           in if m \<noteq> [] then Inl (Error m)
              else Inl (Error (''Rust sandbox runner exited with code '' @ (case code of Some c \<Rightarrow> show_int c | None \<Rightarrow> ''unknown'')))))"

fun rust_event :: "string \<times> string list \<Rightarrow> rust_state \<Rightarrow> probe_child_event \<Rightarrow> rust_state" where
  "rust_event invocation s (OutChunk c) = s\<lparr>ru_stdout := ru_stdout s @ c\<rparr>"
| "rust_event invocation s (ErrChunk c) = s\<lparr>ru_stderr := ru_stderr s @ c\<rparr>"
| "rust_event invocation s (ChildFailed e) = rust_settle (Inl (createRunnerUnavailableError invocation e)) s"
| "rust_event invocation s (ChildExited code) = rust_settle (rust_reply (ru_stdout s) (ru_stderr s) code) s"

definition RustSandboxRunner_execute :: "string \<times> string list \<Rightarrow> probe_child_event list \<Rightarrow> json result option" where
  "RustSandboxRunner_execute invocation es = ru_outcome (foldl (rust_event invocation) rust_start es)"

section \<open>Reading the CPU time\<close>

record probe_state =
  pr_stdout :: string
  pr_stderr :: string
  pr_outcome :: "string option result option"

definition probe_settle :: "string option result \<Rightarrow> probe_state \<Rightarrow> probe_state" where
  "probe_settle r s = s\<lparr>pr_outcome := js_or_opt (pr_outcome s) (Some r)\<rparr>"

fun probe_event :: "probe_state \<Rightarrow> probe_child_event \<Rightarrow> probe_state" where
  "probe_event s (OutChunk c) = s\<lparr>pr_stdout := pr_stdout s @ c\<rparr>"
| "probe_event s (ErrChunk c) = s\<lparr>pr_stderr := pr_stderr s @ c\<rparr>"
| "probe_event s (ChildFailed e) = probe_settle (Inl e) s"
| "probe_event s (ChildExited code) =
     (if code = Some 0
      then probe_settle (Inr (if js_trim (pr_stdout s) = [] then None else Some (js_trim (pr_stdout s)))) s
      else probe_settle (Inl (Error (if js_trim (pr_stderr s) \<noteq> [] then js_trim (pr_stderr s)
             else ''Probe exited with code '' @ (case code of Some c \<Rightarrow> show_int c | None \<Rightarrow> ''null'')))) s)"

definition runProbeCommand :: "probe_child_event list \<Rightarrow> string option result option" where
  "runProbeCommand es = pr_outcome (foldl probe_event \<lparr>pr_stdout = [], pr_stderr = [], pr_outcome = None\<rparr> es)"

definition clock_ticks :: "(string \<Rightarrow> rat option) \<Rightarrow> string option result \<Rightarrow> rat" where
  "clock_ticks number probe =
     (case probe of
        Inl _ \<Rightarrow> 100
      | Inr output \<Rightarrow>
          (case (case output of Some t \<Rightarrow> number t | None \<Rightarrow> None) of
             Some parsed \<Rightarrow> if parsed > 0 then parsed else 100
           | None \<Rightarrow> 100))"

text \<open>The promise of the ticks is made once and kept.\<close>

definition getLinuxClockTicksPerSecond :: "(string \<Rightarrow> rat option) \<Rightarrow> string option result \<Rightarrow> rat option \<Rightarrow> rat option \<times> rat" where
  "getLinuxClockTicksPerSecond number probe kept =
     (let ticks = js_or kept (clock_ticks number probe) in (Some ticks, ticks))"

text \<open>Splitting at runs of white space.\<close>

fun js_words :: "string \<Rightarrow> string list" where
  "js_words [] = [[]]"
| "js_words (c # cs) =
     (if js_space c then (if cs \<noteq> [] \<and> js_space (hd cs) then js_words cs else [] # js_words cs)
      else (case js_words cs of [] \<Rightarrow> [[c]] | w # ws \<Rightarrow> (c # w) # ws))"

definition after_last :: "char \<Rightarrow> string \<Rightarrow> string option" where
  "after_last c s = (if c \<in> set s then Some (rev (takeWhile (\<lambda>x. x \<noteq> c) (rev s))) else None)"

definition field_number :: "(string \<Rightarrow> rat option) \<Rightarrow> string list \<Rightarrow> nat \<Rightarrow> rat option" where
  "field_number number fs i = (if i < length fs then number (fs ! i) else None)"

definition parseLinuxProcessCpuTimeMs :: "(string \<Rightarrow> rat option) \<Rightarrow> string \<Rightarrow> rat \<Rightarrow> rat option" where
  "parseLinuxProcessCpuTimeMs number statLine ticks =
     (case after_last (CHR '')'') statLine of
        None \<Rightarrow> None
      | Some rest \<Rightarrow>
          (let fs = js_words (js_trim (drop 1 rest))
           in case (field_number number fs 11, field_number number fs 12) of
                (Some userTicks, Some systemTicks) \<Rightarrow> Some ((userTicks + systemTicks) * 1000 / ticks)
              | _ \<Rightarrow> None))"

definition readLinuxProcessCpuTimeMs :: "(string \<Rightarrow> rat option) \<Rightarrow> rat \<Rightarrow> string result \<Rightarrow> rat option result" where
  "readLinuxProcessCpuTimeMs number ticks statFile =
     (case statFile of
        Inr statLine \<Rightarrow> Inr (parseLinuxProcessCpuTimeMs number statLine ticks)
      | Inl e \<Rightarrow> if err_code e = Some ''ENOENT'' then Inr None else Inl e)"

definition readWindowsProcessCpuTimeMs :: "(string \<Rightarrow> rat option) \<Rightarrow> string option result \<Rightarrow> rat option result" where
  "readWindowsProcessCpuTimeMs number probe =
     (case probe of
        Inl e \<Rightarrow> Inl e
      | Inr output \<Rightarrow>
          (case output of
             None \<Rightarrow> Inr None
           | Some t \<Rightarrow> Inr (map_option (\<lambda>seconds. seconds * 1000) (number (last (js_split (CHR 0x0A) t))))))"

definition readProcessCpuTimeMs ::
    "string \<Rightarrow> (string \<Rightarrow> rat option) \<Rightarrow> rat \<Rightarrow> string result \<Rightarrow> string option result \<Rightarrow> rat option result" where
  "readProcessCpuTimeMs platform number ticks statFile probe =
     (if platform = ''linux'' then readLinuxProcessCpuTimeMs number ticks statFile
      else if platform = ''win32'' then readWindowsProcessCpuTimeMs number probe
      else Inr None)"

section \<open>The CPU monitor\<close>

definition cpu_over :: "nat \<Rightarrow> nat \<Rightarrow> rat \<Rightarrow> bool" where
  "cpu_over maxCpu elapsedMs cpu \<longleftrightarrow> 500 \<le> elapsedMs \<and> cpu > of_nat elapsedMs * (of_nat maxCpu / 100) + 100"

record cpu_monitor =
  cm_checking :: bool
  cm_stopped :: bool
  cm_probes :: nat
  cm_kills :: nat
  cm_reports :: "exn list"

definition monitor_start :: cpu_monitor where
  "monitor_start = \<lparr>cm_checking = False, cm_stopped = False, cm_probes = 0, cm_kills = 0, cm_reports = []\<rparr>"

datatype monitor_event = MonitorTick bool | MonitorReading nat "rat option result" | MonitorStop

text \<open>
  The interval fires until it is cleared, with the child gone or not; a reading arrives for a probe that is under
  way, at a time after the start.
\<close>

fun monitor_step :: "nat \<Rightarrow> monitor_event \<Rightarrow> cpu_monitor \<Rightarrow> cpu_monitor option" where
  "monitor_step maxCpu (MonitorTick exited) s =
     (if cm_stopped s then None
      else Some (if cm_checking s \<or> exited then s else s\<lparr>cm_checking := True, cm_probes := cm_probes s + 1\<rparr>))"
| "monitor_step maxCpu (MonitorReading elapsed r) s =
     (if \<not> cm_checking s then None
      else (let s1 = s\<lparr>cm_checking := False\<rparr>
            in case r of
                 Inr (Some cpu) \<Rightarrow>
                   if \<not> cm_stopped s \<and> cpu_over maxCpu elapsed cpu
                   then Some (s1\<lparr>cm_kills := cm_kills s + 1,
                          cm_reports := cm_reports s @ [Error (''Tool execution exceeded CPU limit ('' @ show_nat maxCpu @ ''%)'')]\<rparr>)
                   else Some s1
               | _ \<Rightarrow> Some s1))"
| "monitor_step maxCpu MonitorStop s = Some (s\<lparr>cm_stopped := True\<rparr>)"

section \<open>Lemmas\<close>

fun out_text :: "probe_child_event list \<Rightarrow> string" where
  "out_text [] = []"
| "out_text (OutChunk c # es) = c @ out_text es"
| "out_text (_ # es) = out_text es"

fun err_text :: "probe_child_event list \<Rightarrow> string" where
  "err_text [] = []"
| "err_text (ErrChunk c # es) = c @ err_text es"
| "err_text (_ # es) = err_text es"

fun is_chunk :: "probe_child_event \<Rightarrow> bool" where
  "is_chunk (OutChunk c) = True"
| "is_chunk (ErrChunk c) = True"
| "is_chunk _ = False"

lemma rust_chunks:
  "list_all is_chunk es \<Longrightarrow> foldl (rust_event invocation) s es
     = s\<lparr>ru_stdout := ru_stdout s @ out_text es, ru_stderr := ru_stderr s @ err_text es\<rparr>"
proof (induction es arbitrary: s)
  case (Cons e es)
  then show ?case by (cases e) auto
qed simp

lemma rust_kept: "ru_outcome s = Some r \<Longrightarrow> ru_outcome (foldl (rust_event invocation) s es) = Some r"
proof (induction es arbitrary: s)
  case (Cons e es)
  then show ?case by (cases e) (auto simp: rust_settle_def js_or_opt_def)
qed simp

lemma cpu_over_whole: "cpu_over maxCpu elapsed (of_nat cpu) \<longleftrightarrow> cpu_limit_exceeded maxCpu elapsed (Some cpu)"
proof -
  have "(of_nat cpu > of_nat elapsed * (of_nat maxCpu / 100) + (100 :: rat)) \<longleftrightarrow> (of_nat (cpu * 100) > (of_nat (elapsed * maxCpu + 10000) :: rat))"
    by (simp add: field_simps)
  then show ?thesis unfolding cpu_over_def cpu_limit_exceeded_def option.case of_nat_less_iff by simp
qed

fun over_reading :: "nat \<Rightarrow> monitor_event \<Rightarrow> bool" where
  "over_reading maxCpu (MonitorReading elapsed (Inr (Some cpu))) = cpu_over maxCpu elapsed cpu"
| "over_reading maxCpu _ = False"

lemma monitor_stopped:
  "cm_stopped s \<Longrightarrow> run_events (monitor_step maxCpu) es s = Some s' \<Longrightarrow>
   cm_kills s' = cm_kills s \<and> cm_reports s' = cm_reports s \<and> cm_probes s' = cm_probes s"
proof (induction es arbitrary: s)
  case (Cons e es)
  then obtain s1 where s1: "monitor_step maxCpu e s = Some s1" "run_events (monitor_step maxCpu) es s1 = Some s'"
    by (auto split: option.splits)
  have "cm_stopped s1 \<and> cm_kills s1 = cm_kills s \<and> cm_reports s1 = cm_reports s \<and> cm_probes s1 = cm_probes s"
    using s1(1) Cons.prems(1) by (cases e) (auto simp: Let_def split: if_splits sum.splits option.splits)
  with Cons.IH [OF _ s1(2)] show ?case by simp
qed simp

lemma monitor_counts:
  "\<not> cm_stopped s \<Longrightarrow> run_events (monitor_step maxCpu) es s = Some s' \<Longrightarrow>
   cm_kills s' = cm_kills s + length (filter (over_reading maxCpu) (takeWhile (\<lambda>e. e \<noteq> MonitorStop) es))"
proof (induction es arbitrary: s)
  case (Cons e es)
  then obtain s1 where s1: "monitor_step maxCpu e s = Some s1" "run_events (monitor_step maxCpu) es s1 = Some s'"
    by (auto split: option.splits)
  show ?case
  proof (cases "e = MonitorStop")
    case True
    with s1 monitor_stopped [of s1 maxCpu es s'] show ?thesis by auto
  next
    case False
    have "\<not> cm_stopped s1" "cm_kills s1 = cm_kills s + (if over_reading maxCpu e then 1 else 0)"
      using s1(1) Cons.prems(1) False
      by (cases e; auto simp: Let_def split: if_splits sum.splits option.splits)+
    with Cons.IH [OF _ s1(2)] False show ?thesis by simp
  qed
qed simp

definition monitor_ok :: "cpu_monitor \<Rightarrow> bool" where
  "monitor_ok s \<longleftrightarrow> length (cm_reports s) = cm_kills s \<and> cm_kills s + (if cm_checking s then 1 else 0) \<le> cm_probes s"

interpretation monitor: event_machine "monitor_step maxCpu" monitor_start monitor_ok for maxCpu
proof
  show "monitor_ok monitor_start" by (simp add: monitor_ok_def monitor_start_def)
  show "monitor_ok s \<Longrightarrow> monitor_step maxCpu e s = Some s' \<Longrightarrow> monitor_ok s'" for s e s'
    by (cases e) (auto simp: monitor_ok_def Let_def split: if_splits sum.splits option.splits)
qed

text \<open>Words joined by single blanks are split again, and the text after the last parenthesis is found.\<close>

lemma js_words_word:
  "\<forall>c \<in> set w. \<not> js_space c \<Longrightarrow> js_words w = [w]"
  by (induction w) auto

lemma js_words_append:
  "\<forall>c \<in> set w. \<not> js_space c \<Longrightarrow> t \<noteq> [] \<Longrightarrow> \<not> js_space (hd t) \<Longrightarrow> js_words (w @ CHR '' '' # t) = w # js_words t"
proof (induction w)
  case Nil
  then show ?case by (simp add: js_space_def)
qed simp

lemma js_join_head: "w \<noteq> [] \<Longrightarrow> js_join sep (w # ws) \<noteq> [] \<and> hd (js_join sep (w # ws)) = hd w"
  by (cases ws) auto

lemma js_words_join:
  "ws \<noteq> [] \<Longrightarrow> \<forall>w \<in> set ws. w \<noteq> [] \<and> (\<forall>c \<in> set w. \<not> js_space c) \<Longrightarrow> js_words (js_join '' '' ws) = ws"
proof (induction ws)
  case (Cons w ws)
  show ?case
  proof (cases ws)
    case Nil
    with Cons.prems show ?thesis by (simp add: js_words_word)
  next
    case (Cons v vs)
    have v: "v \<noteq> []" "\<not> js_space (hd v)" "\<forall>c \<in> set w. \<not> js_space c" using Cons.prems(2) Cons by (auto simp: hd_in_set)
    have "js_words (w @ '' '' @ js_join '' '' ws) = w # js_words (js_join '' '' ws)"
      using v js_join_head [OF v(1), of "'' ''" vs] Cons by (simp add: js_words_append)
    moreover have "js_words (js_join '' '' ws) = ws" using Cons.IH Cons.prems Cons by simp
    ultimately show ?thesis using Cons by simp
  qed
qed simp

lemma after_last_append: "c \<notin> set t \<Longrightarrow> after_last c (s @ c # t) = Some t"
  by (simp add: after_last_def takeWhile_append)

lemma js_trim_id: "s \<noteq> [] \<Longrightarrow> \<not> js_space (hd s) \<Longrightarrow> \<not> js_space (last s) \<Longrightarrow> js_trim s = s"
proof -
  assume "s \<noteq> []" "\<not> js_space (hd s)" "\<not> js_space (last s)"
  moreover from this have "dropWhile js_space s = s" by (cases s) auto
  moreover from calculation have "dropWhile js_space (rev s) = rev s" by (cases s rule: rev_cases) auto
  ultimately show "js_trim s = s" by (simp add: js_trim_def)
qed

lemma js_join_last: "ws \<noteq> [] \<Longrightarrow> \<forall>w \<in> set ws. w \<noteq> [] \<Longrightarrow> last (js_join sep ws) = last (last ws)"
proof (induction ws)
  case (Cons w ws)
  show ?case
  proof (cases ws)
    case Nil
    then show ?thesis by simp
  next
    case (Cons v vs)
    then have "js_join sep ws \<noteq> []" using js_join_head [of v sep vs] \<open>\<forall>w \<in> set (w # ws). w \<noteq> []\<close> by simp
    with Cons.IH Cons.prems Cons show ?thesis by (simp add: last_append)
  qed
qed simp

section \<open>Properties\<close>

text \<open>
  The answer of the native runner does not depend on how its output is cut into chunks or interleaved: nothing is
  settled while it runs, its exit settles the execution by the output received so far, a failure to run it by
  an explanation, and nothing that comes later changes the outcome.
\<close>

theorem rust_runner_exact:
  assumes "list_all is_chunk es"
  shows "RustSandboxRunner_execute invocation es = None
    \<and> RustSandboxRunner_execute invocation (es @ ChildExited code # later) = Some (rust_reply (out_text es) (err_text es) code)
    \<and> RustSandboxRunner_execute invocation (es @ ChildFailed e # later) = Some (Inl (createRunnerUnavailableError invocation e))"
proof -
  let ?s = "foldl (rust_event invocation) rust_start es"
  have run: "?s = \<lparr>ru_stdout = out_text es, ru_stderr = err_text es, ru_outcome = None\<rparr>"
    using rust_chunks [OF assms, of invocation rust_start] by (simp add: rust_start_def)
  have "ru_outcome (rust_event invocation ?s (ChildExited code)) = Some (rust_reply (out_text es) (err_text es) code)"
    "ru_outcome (rust_event invocation ?s (ChildFailed e)) = Some (Inl (createRunnerUnavailableError invocation e))"
    by (simp_all add: run rust_settle_def js_or_opt_def)
  then show ?thesis using rust_kept run by (simp add: RustSandboxRunner_execute_def)
qed

text \<open>An exit that is reported before the last chunk loses the result.\<close>

definition demo_answer :: string where
  "demo_answer = json_stringify (JObj [(''ok'', JBool True), (''result'', JStr ''42'')])"

theorem rust_runner_exact_witness:
  "RustSandboxRunner_execute (''cargo'', []) [OutChunk (take 5 demo_answer), ErrChunk ''warn'', OutChunk (drop 5 demo_answer), ChildExited (Some 0)]
     = Some (Inr (JStr ''42''))
   \<and> RustSandboxRunner_execute (''cargo'', []) [OutChunk (take 5 demo_answer), ChildExited (Some 0), OutChunk (drop 5 demo_answer)]
     = Some (Inl (Error ''Rust sandbox runner exited with code 0''))"
proof -
  have replies: "rust_reply demo_answer ''warn'' (Some 0) = Inr (JStr ''42'')"
    "rust_reply (take 5 demo_answer) [] (Some 0) = Inl (Error ''Rust sandbox runner exited with code 0'')"
    by code_simp+
  have "list_all is_chunk [OutChunk (take 5 demo_answer), ErrChunk ''warn'', OutChunk (drop 5 demo_answer)]"
    "list_all is_chunk [OutChunk (take 5 demo_answer)]" by simp_all
  from rust_runner_exact [OF this(1), of "(''cargo'', [])" "Some 0" "[]"]
    rust_runner_exact [OF this(2), of "(''cargo'', [])" "Some 0" "[OutChunk (drop 5 demo_answer)]"] replies
  show ?thesis by simp
qed

text \<open>
  The CPU monitor kills the child once for every reading over the limit before it is stopped, and for nothing
  else; every kill is reported, and belongs to a probe of its own.
\<close>

theorem cpu_monitor_exact:
  assumes "run_events (monitor_step maxCpu) es monitor_start = Some s"
  shows "cm_kills s = length (filter (over_reading maxCpu) (takeWhile (\<lambda>e. e \<noteq> MonitorStop) es))
    \<and> length (cm_reports s) = cm_kills s \<and> cm_kills s \<le> cm_probes s"
  using monitor_counts [OF _ assms] monitor.run_inv [OF assms] by (auto simp: monitor_ok_def monitor_start_def split: if_splits)

theorem cpu_monitor_exact_witness:
  "\<exists>s. run_events (monitor_step 50) [MonitorTick False, MonitorTick False, MonitorReading 1000 (Inr (Some 601)), MonitorTick False,
       MonitorStop, MonitorReading 2000 (Inr (Some 9000))] monitor_start = Some s
     \<and> cm_kills s = 1"
proof -
  obtain s where s: "run_events (monitor_step 50) [MonitorTick False, MonitorTick False, MonitorReading 1000 (Inr (Some 601)),
      MonitorTick False, MonitorStop, MonitorReading 2000 (Inr (Some 9000))] monitor_start = Some s"
    by (simp add: monitor_start_def Let_def cpu_over_def)
  from cpu_monitor_exact [OF s] s show ?thesis by (simp add: cpu_over_def)
qed

text \<open>
  The CPU time of a process is read from the right fields of its line in \<^verbatim>\<open>/proc\<close>, whatever its name contains, white
  space and parentheses included.
\<close>

theorem stat_line_read:
  assumes "12 < length fs" and "\<forall>f \<in> set fs. f \<noteq> [] \<and> CHR '')'' \<notin> set f \<and> (\<forall>c \<in> set f. \<not> js_space c)"
    and "number (fs ! 11) = Some u" and "number (fs ! 12) = Some v"
  shows "parseLinuxProcessCpuTimeMs number (pid @ '' ('' @ name @ '') '' @ js_join '' '' fs) ticks = Some ((u + v) * 1000 / ticks)"
proof -
  let ?t = "js_join '' '' fs"
  obtain f fs' where fs: "fs = f # fs'" using assms(1) by (cases fs) auto
  have ne: "fs \<noteq> []" "f \<noteq> []" "last fs \<noteq> []" using assms(1,2) fs by auto
  have words: "js_words ?t = fs" using js_words_join [of fs] assms(2) ne by blast
  have no: "CHR '')'' \<notin> set ?t" using assms(2) by (induction fs rule: induct_list012) auto
  have "\<not> js_space (hd ?t)" using js_join_head [OF ne(2), of "'' ''" fs'] ne(2) assms(2) fs by (simp add: hd_in_set)
  moreover have "\<not> js_space (last ?t)" using js_join_last [OF ne(1), of "'' ''"] assms(2) last_in_set [OF ne(1)] last_in_set [OF ne(3)] by simp
  moreover have "?t \<noteq> []" using js_join_head [OF ne(2), of "'' ''" fs'] fs by simp
  ultimately have "js_trim ?t = ?t" by (rule js_trim_id [rotated 1])
  moreover have "after_last (CHR '')'') ((pid @ '' ('' @ name) @ CHR '')'' # ('' '' @ ?t)) = Some ('' '' @ ?t)"
    by (rule after_last_append) (use no in simp)
  ultimately show ?thesis
    using assms by (simp add: parseLinuxProcessCpuTimeMs_def words field_number_def)
qed

definition demo_stat :: "string list" where
  "demo_stat = replicate 11 ''S'' @ [''30'', ''20'', ''0'']"

theorem stat_line_read_witness:
  "parseLinuxProcessCpuTimeMs (\<lambda>t. if t = ''30'' then Some 30 else if t = ''20'' then Some 20 else None)
     (''7 (a) b) '' @ js_join '' '' demo_stat) 100 = Some 500"
proof -
  have "12 < length demo_stat" "demo_stat ! 11 = ''30''" "demo_stat ! 12 = ''20''"
    "\<forall>f \<in> set demo_stat. f \<noteq> [] \<and> CHR '')'' \<notin> set f \<and> (\<forall>c \<in> set f. \<not> js_space c)"
    by (simp_all add: demo_stat_def js_space_def nth_append)
  with stat_line_read [of demo_stat "\<lambda>t. if t = ''30'' then Some 30 else if t = ''20'' then Some 20 else None" 30 20 "''7''" "''a) b''" 100]
  show ?thesis by simp
qed

end
