(* ===== verification/Web_Queries.thy ===== *)
theory Web_Queries
  imports Web_Console
begin

text \<open>
  The queries and mutations of the web console (\<^verbatim>\<open>apps/web/src/hooks/useAPI.ts\<close>): the key, the call and the
  interval of each query, and what each mutation invalidates when it succeeds.

  The query library is third-party code. Its cache is a list of entries, and \<open>matches\<close> is its filter: whether
  a cached key is meant by the key of an invalidation. It is documented to hold for every key that begins with the
  given one.
\<close>

section \<open>Queries\<close>

datatype console_query =
  UseAgents | UseAgent ident | UseRuns | UseRun ident | UseRunMessages ident
| UseAgentTasks | UseAgentTask ident | UseAgentTaskMessages ident | UseHealth

fun query_key :: "console_query \<Rightarrow> string list" where
  "query_key UseAgents = [''agents'']"
| "query_key (UseAgent i) = [''agents'', i]"
| "query_key UseRuns = [''runs'']"
| "query_key (UseRun i) = [''runs'', i]"
| "query_key (UseRunMessages i) = [''runs'', i, ''messages'']"
| "query_key UseAgentTasks = [''agentTasks'']"
| "query_key (UseAgentTask i) = [''agentTasks'', i]"
| "query_key (UseAgentTaskMessages i) = [''agentTasks'', i, ''messages'']"
| "query_key UseHealth = [''health'']"

fun query_call :: "console_query \<Rightarrow> console_call" where
  "query_call UseAgents = AgentList"
| "query_call (UseAgent i) = AgentGet i"
| "query_call UseRuns = RunList"
| "query_call (UseRun i) = RunGet i"
| "query_call (UseRunMessages i) = RunMessages i"
| "query_call UseAgentTasks = TaskList"
| "query_call (UseAgentTask i) = TaskGet i"
| "query_call (UseAgentTaskMessages i) = TaskMessages i"
| "query_call UseHealth = HealthCheckCall"

fun query_ident :: "console_query \<Rightarrow> ident option" where
  "query_ident (UseAgent i) = Some i"
| "query_ident (UseRun i) = Some i"
| "query_ident (UseRunMessages i) = Some i"
| "query_ident (UseAgentTask i) = Some i"
| "query_ident (UseAgentTaskMessages i) = Some i"
| "query_ident _ = None"

definition query_enabled :: "console_query \<Rightarrow> bool" where
  "query_enabled q = (case query_ident q of None \<Rightarrow> True | Some i \<Rightarrow> i \<noteq> [])"

definition run_live :: "RunStatus option \<Rightarrow> bool" where
  "run_live s \<longleftrightarrow> s = Some RunRunning \<or> s = Some RunPending"

definition task_live :: "AgentTaskStatus option \<Rightarrow> bool" where
  "task_live s \<longleftrightarrow> s = Some TaskRunning \<or> s = Some TaskPending"

text \<open>
  The interval of a query in milliseconds, if it is polled, by the status of the run or the task that was
  read last.
\<close>

fun refetch_interval :: "RunStatus option \<Rightarrow> AgentTaskStatus option \<Rightarrow> console_query \<Rightarrow> nat option" where
  "refetch_interval r t UseAgents = None"
| "refetch_interval r t (UseAgent i) = None"
| "refetch_interval r t UseRuns = Some 5000"
| "refetch_interval r t (UseRun i) = (if run_live r then Some 2000 else None)"
| "refetch_interval r t (UseRunMessages i) = (if run_live r then Some 2000 else None)"
| "refetch_interval r t UseAgentTasks = Some 5000"
| "refetch_interval r t (UseAgentTask i) = (if task_live t then Some 2000 else None)"
| "refetch_interval r t (UseAgentTaskMessages i) = (if task_live t then Some 2000 else None)"
| "refetch_interval r t UseHealth = Some 30000"

section \<open>Mutations\<close>

datatype console_mutation =
  UseCreateAgent json | UseDeleteAgent ident | UseSubmitTask json | UseCreateBackgroundTask json
| UseResumeAgentTask ident | UseSendAgentTaskMessage ident json

fun mutation_call :: "console_mutation \<Rightarrow> console_call" where
  "mutation_call (UseCreateAgent d) = AgentCreate d"
| "mutation_call (UseDeleteAgent i) = AgentDelete i"
| "mutation_call (UseSubmitTask d) = TaskSubmit d"
| "mutation_call (UseCreateBackgroundTask d) = BackgroundCreate d"
| "mutation_call (UseResumeAgentTask i) = TaskResume i"
| "mutation_call (UseSendAgentTaskMessage i d) = TaskSend i d"

fun invalidated_keys :: "console_mutation \<Rightarrow> string list list" where
  "invalidated_keys (UseCreateAgent d) = [[''agents'']]"
| "invalidated_keys (UseDeleteAgent i) = [[''agents'']]"
| "invalidated_keys (UseSubmitTask d) = [[''runs'']]"
| "invalidated_keys (UseCreateBackgroundTask d) = [[''agentTasks'']]"
| "invalidated_keys (UseResumeAgentTask i) =
     [[''agentTasks''], [''agentTasks'', i], [''agentTasks'', i, ''messages''], [''runs'']]"
| "invalidated_keys (UseSendAgentTaskMessage i d) =
     [[''agentTasks''], [''agentTasks'', i], [''agentTasks'', i, ''messages''], [''runs'']]"

record 'a cache_entry =
  ch_query :: console_query
  ch_data :: 'a
  ch_stale :: bool

definition invalidateQueries ::
    "(string list \<Rightarrow> string list \<Rightarrow> bool) \<Rightarrow> string list \<Rightarrow> 'a cache_entry list \<Rightarrow> 'a cache_entry list" where
  "invalidateQueries matches k = map (\<lambda>e. if matches k (query_key (ch_query e)) then e\<lparr>ch_stale := True\<rparr> else e)"

definition mutate ::
    "(string list \<Rightarrow> string list \<Rightarrow> bool) \<Rightarrow> ('w \<Rightarrow> console_call \<Rightarrow> 'w \<times> (console_error + 'r)) \<Rightarrow> 'w \<times> 'a cache_entry list
     \<Rightarrow> console_mutation \<Rightarrow> ('w \<times> 'a cache_entry list) \<times> (console_error + 'r)" where
  "mutate matches run wc m =
     (case run (fst wc) (mutation_call m) of
        (w', Inl e) \<Rightarrow> ((w', snd wc), Inl e)
      | (w', Inr r) \<Rightarrow> ((w', fold (invalidateQueries matches) (invalidated_keys m) (snd wc)), Inr r))"

section \<open>What the gateway would answer\<close>

text \<open>The answer of the gateway to a call it admits, in its present state.\<close>

definition call_request :: "string \<Rightarrow> console_call \<Rightarrow> request" where
  "call_request ip c =
     (case console_call_request c of (path, init) \<Rightarrow>
        as_request ip path \<lparr>hr_method = js_or (ri_method init) ''GET'', hr_url = path, hr_headers = [], hr_body = ri_body init\<rparr>)"

definition admitted_answer ::
    "('s, 'j) gateway_env \<Rightarrow> (string, string) jsmap \<Rightarrow> string \<Rightarrow> ('s, 'j) gateway \<Rightarrow> console_call \<Rightarrow> gateway_reply option" where
  "admitted_answer ge hs ip g c =
     (case find_route (call_request ip c) of
        None \<Rightarrow> None
      | Some (r, i) \<Rightarrow> Some (fst (snd (route_handler ge hs r g ((call_request ip c)\<lparr>rq_id := i\<rparr>)))))"

text \<open>An entry is current if its data are what the gateway would answer now.\<close>

definition entry_current ::
    "('s, 'j) gateway_env \<Rightarrow> (string, string) jsmap \<Rightarrow> string \<Rightarrow> ('s, 'j) gateway \<Rightarrow> gateway_reply option cache_entry \<Rightarrow> bool" where
  "entry_current ge hs ip g e \<longleftrightarrow> ch_data e = admitted_answer ge hs ip g (query_call (ch_query e))"

section \<open>Lemmas\<close>

text \<open>The routes of the calls.\<close>

definition plain_ident :: "ident \<Rightarrow> bool" where
  "plain_ident i \<longleftrightarrow> i \<noteq> [] \<and> CHR ''/'' \<notin> set i \<and> CHR ''?'' \<notin> set i"

definition plain_query :: "console_query \<Rightarrow> bool" where
  "plain_query q \<longleftrightarrow> (case query_ident q of None \<Rightarrow> True | Some i \<Rightarrow> plain_ident i)"

lemma request_path_plain: "CHR ''?'' \<notin> set (rq_url req) \<Longrightarrow> request_path req = rq_url req"
  by (simp add: request_path_def js_split_noop)

lemma route_at:
  assumes "rq_url req = concat (map (\<lambda>s. CHR ''/'' # s) ss)" and "\<forall>s \<in> set ss. CHR ''/'' \<notin> set s \<and> CHR ''?'' \<notin> set s" and "ss \<noteq> []"
  shows "find_route req = first_match route_table (rq_method req) ss"
proof -
  have split: "js_split CHR ''/'' (s @ concat (map (\<lambda>s. CHR ''/'' # s) rs)) = s # rs"
    if "CHR ''/'' \<notin> set s" "\<forall>r \<in> set rs. CHR ''/'' \<notin> set r" for s rs
    using that by (induction rs arbitrary: s) (auto simp: js_split_noop js_split_append)
  have "CHR ''?'' \<notin> set (rq_url req)" using assms(1,2) by auto
  moreover have "js_split CHR ''/'' (rq_url req) = [] # ss" using split [of "[]" ss] assms by auto
  ultimately show ?thesis by (simp add: find_route_def request_path_plain)
qed

lemma agents_matched:
  "first_match route_table m [''api'', ''v1'', ''agents''] =
     (if m = ''POST'' then Some (AgentRoute PostAgent, []) else if m = ''GET'' then Some (AgentRoute GetAgents, []) else None)"
  "i \<noteq> [] \<Longrightarrow> first_match route_table m [''api'', ''v1'', ''agents'', i] =
     (if m = ''GET'' then Some (AgentRoute GetAgent, i) else if m = ''DELETE'' then Some (AgentRoute DeleteAgent, i) else None)"
  by (simp_all add: route_table_def first_match_append first_match_other) (simp_all add: plugin_def at_root_def)

lemma runs_matched:
  "first_match route_table ''GET'' [''api'', ''v1'', ''runs''] = Some (AgentRoute GetRuns, [])"
  "i \<noteq> [] \<Longrightarrow> first_match route_table ''GET'' [''api'', ''v1'', ''runs'', i] = Some (AgentRoute GetRun, i)"
  "i \<noteq> [] \<Longrightarrow> first_match route_table ''GET'' [''api'', ''v1'', ''runs'', i, ''messages''] = Some (AgentRoute GetRunMessages, i)"
  "first_match route_table ''POST'' [''api'', ''v1'', ''tasks''] = Some (AgentRoute PostTask, [])"
  "first_match route_table ''GET'' [''api'', ''runtime'', ''health''] = Some (HealthRoute, [])"
  by (simp_all add: route_table_def first_match_append first_match_other) (simp_all add: plugin_def at_root_def)

lemma tasks_matched:
  "first_match route_table ''GET'' [''api'', ''v1'', ''agent-tasks''] = Some (AgentRoute GetTasks, [])"
  "i \<noteq> [] \<Longrightarrow> first_match route_table ''GET'' [''api'', ''v1'', ''agent-tasks'', i] = Some (AgentRoute GetTask, i)"
  "i \<noteq> [] \<Longrightarrow> first_match route_table ''GET'' [''api'', ''v1'', ''agent-tasks'', i, ''messages''] = Some (AgentRoute GetTaskMessages, i)"
  "i \<noteq> [] \<Longrightarrow> first_match route_table ''POST'' [''api'', ''v1'', ''agent-tasks'', i, ''messages''] = Some (AgentRoute PostTaskMessage, i)"
  "i \<noteq> [] \<Longrightarrow> first_match route_table ''POST'' [''api'', ''v1'', ''agent-tasks'', i, ''resume''] = Some (AgentRoute PostResume, i)"
  "first_match route_table ''POST'' [''api'', ''v1'', ''agent-tasks'', ''background''] = Some (AgentRoute PostBackground, [])"
  by (simp_all add: route_table_def first_match_append first_match_other) (simp_all add: plugin_def at_root_def)

text \<open>Which calls change which part of the service.\<close>

lemma deliver_frames:
  "st_agents (fold (\<lambda>p s. fst (pending_deliver now s p)) ids s) = st_agents s
   \<and> st_runs (fold (\<lambda>p s. fst (pending_deliver now s p)) ids s) = st_runs s
   \<and> st_messages (fold (\<lambda>p s. fst (pending_deliver now s p)) ids s) = st_messages s
   \<and> st_tasks (fold (\<lambda>p s. fst (pending_deliver now s p)) ids s) = st_tasks s
   \<and> st_transcripts (fold (\<lambda>p s. fst (pending_deliver now s p)) ids s) = st_transcripts s"
proof (induction ids arbitrary: s)
  case (Cons i ids)
  show ?case using Cons.IH [of "fst (pending_deliver now s i)"] by (simp add: store_ops Let_def split: option.split)
qed simp

lemma start_frames:
  "startAgentTaskExecution ev uuid now sv task a input hist = (sv', t) \<Longrightarrow>
     st_agents (sv_store sv') = st_agents (sv_store sv) \<and> st_messages (sv_store sv') = st_messages (sv_store sv)
   \<and> st_transcripts (sv_store sv') = st_transcripts (sv_store sv)"
  by (auto simp: startAgentTaskExecution_def store_ops Let_def split: if_splits option.splits prod.splits)

lemma resume_frames:
  "resume_now ev uuid now sv i = (sv', r) \<Longrightarrow>
     st_agents (sv_store sv') = st_agents (sv_store sv) \<and> st_messages (sv_store sv') = st_messages (sv_store sv)
   \<and> st_transcripts (sv_store sv') = st_transcripts (sv_store sv) \<and> (case r of Inl e \<Rightarrow> sv' = sv | Inr t \<Rightarrow> True)"
  by (auto simp: resume_now_def deliver_frames Let_def dest!: start_frames split: sum.splits thread.splits prod.splits)

lemma background_frames:
  "createBackgroundTask ev uuid uuid2 now sv i input opts = (sv', r) \<Longrightarrow>
     st_agents (sv_store sv') = st_agents (sv_store sv) \<and> st_messages (sv_store sv') = st_messages (sv_store sv)
   \<and> st_transcripts (sv_store sv') = st_transcripts (sv_store sv) \<and> (case r of Inl e \<Rightarrow> sv' = sv | Inr t \<Rightarrow> True)"
  by (auto simp: createBackgroundTask_def store_ops Let_def dest!: start_frames split: option.splits if_splits prod.splits)

lemma submit_frames:
  "submitTask ev uuid now sv i input = (sv', r) \<Longrightarrow>
     sv_store sv' = (sv_store sv)\<lparr>st_runs := st_runs (sv_store sv')\<rparr> \<and> (case r of Inl e \<Rightarrow> sv' = sv | Inr t \<Rightarrow> True)"
  by (auto simp: submitTask_def store_ops Let_def split: option.splits prod.splits)

lemma send_frames:
  "sendMessageToAgentTask uuid now sv i content role = (sv', r) \<Longrightarrow>
     sv_store sv' = (sv_store sv)\<lparr>st_pending := st_pending (sv_store sv')\<rparr> \<and> (case r of Inl e \<Rightarrow> sv' = sv | Inr t \<Rightarrow> True)"
  by (auto simp: sendMessageToAgentTask_def store_ops Let_def split: option.splits prod.splits if_splits)

lemmas route_defs = post_agent_def delete_agent_def post_task_def post_background_def post_task_message_def post_resume_def

lemma handler_slices:
  assumes "agent_handler sc ev dr c sv req = (sv', rep)"
  shows "c \<in> {PostAgent, DeleteAgent} \<or> st_agents (sv_store sv') = st_agents (sv_store sv)"
    and "c \<in> {PostTask, PostBackground, PostResume} \<or> st_runs (sv_store sv') = st_runs (sv_store sv)"
    and "c \<in> {PostBackground, PostResume} \<or> st_tasks (sv_store sv') = st_tasks (sv_store sv)"
    and "st_messages (sv_store sv') = st_messages (sv_store sv)"
    and "st_transcripts (sv_store sv') = st_transcripts (sv_store sv)"
proof -
  have store: "sv_store sv' = s\<lparr>st_runs := r\<rparr> \<Longrightarrow> st_agents (sv_store sv') = st_agents s \<and> st_messages (sv_store sv') = st_messages s
      \<and> st_transcripts (sv_store sv') = st_transcripts s \<and> st_tasks (sv_store sv') = st_tasks s"
    "sv_store sv' = s\<lparr>st_pending := p\<rparr> \<Longrightarrow> st_agents (sv_store sv') = st_agents s \<and> st_messages (sv_store sv') = st_messages s
      \<and> st_transcripts (sv_store sv') = st_transcripts s \<and> st_tasks (sv_store sv') = st_tasks s \<and> st_runs (sv_store sv') = st_runs s"
    for s r p by simp_all
  have "(c \<in> {PostAgent, DeleteAgent} \<or> st_agents (sv_store sv') = st_agents (sv_store sv))
    \<and> (c \<in> {PostTask, PostBackground, PostResume} \<or> st_runs (sv_store sv') = st_runs (sv_store sv))
    \<and> (c \<in> {PostBackground, PostResume} \<or> st_tasks (sv_store sv') = st_tasks (sv_store sv))
    \<and> st_messages (sv_store sv') = st_messages (sv_store sv) \<and> st_transcripts (sv_store sv') = st_transcripts (sv_store sv)"
    using assms
    by (cases c) (auto simp: route_defs store_ops Let_def dest!: resume_frames background_frames submit_frames [THEN conjunct1, THEN store(1)]
        send_frames [THEN conjunct1, THEN store(2)] split: sum.splits prod.splits if_splits)
  then show "c \<in> {PostAgent, DeleteAgent} \<or> st_agents (sv_store sv') = st_agents (sv_store sv)"
    and "c \<in> {PostTask, PostBackground, PostResume} \<or> st_runs (sv_store sv') = st_runs (sv_store sv)"
    and "c \<in> {PostBackground, PostResume} \<or> st_tasks (sv_store sv') = st_tasks (sv_store sv)"
    and "st_messages (sv_store sv') = st_messages (sv_store sv)"
    and "st_transcripts (sv_store sv') = st_transcripts (sv_store sv)" by blast+
qed

lemma delete_absent: "jm_get m i = None \<Longrightarrow> jm_delete m i = m"
  by (induction m) (auto split: if_splits)

lemma handler_failed:
  assumes "agent_handler sc ev dr c sv req = (sv', rep)" and "\<not> (200 \<le> rp_status rep \<and> rp_status rep \<le> 299)"
  shows "sv' = sv"
  using assms
  by (cases c) (auto simp: route_defs store_ops Let_def ok_reply_def delete_absent
      dest!: resume_frames background_frames submit_frames send_frames split: sum.splits prod.splits if_splits)

text \<open>Where the calls of the console lead.\<close>

lemma call_paths:
  "console_call_request c = (path, init) \<Longrightarrow> call_request ip c =
     as_request ip path \<lparr>hr_method = js_or (ri_method init) ''GET'', hr_url = path, hr_headers = [], hr_body = ri_body init\<rparr>"
  by (simp add: call_request_def)

fun query_route :: "console_query \<Rightarrow> gateway_route" where
  "query_route UseAgents = AgentRoute GetAgents"
| "query_route (UseAgent i) = AgentRoute GetAgent"
| "query_route UseRuns = AgentRoute GetRuns"
| "query_route (UseRun i) = AgentRoute GetRun"
| "query_route (UseRunMessages i) = AgentRoute GetRunMessages"
| "query_route UseAgentTasks = AgentRoute GetTasks"
| "query_route (UseAgentTask i) = AgentRoute GetTask"
| "query_route (UseAgentTaskMessages i) = AgentRoute GetTaskMessages"
| "query_route UseHealth = HealthRoute"

fun mutation_route :: "console_mutation \<Rightarrow> agent_call \<times> ident" where
  "mutation_route (UseCreateAgent d) = (PostAgent, [])"
| "mutation_route (UseDeleteAgent i) = (DeleteAgent, i)"
| "mutation_route (UseSubmitTask d) = (PostTask, [])"
| "mutation_route (UseCreateBackgroundTask d) = (PostBackground, [])"
| "mutation_route (UseResumeAgentTask i) = (PostResume, i)"
| "mutation_route (UseSendAgentTaskMessage i d) = (PostTaskMessage, i)"

fun mutation_ident :: "console_mutation \<Rightarrow> ident option" where
  "mutation_ident (UseDeleteAgent i) = Some i"
| "mutation_ident (UseResumeAgentTask i) = Some i"
| "mutation_ident (UseSendAgentTaskMessage i d) = Some i"
| "mutation_ident _ = None"

definition plain_mutation :: "console_mutation \<Rightarrow> bool" where
  "plain_mutation m \<longleftrightarrow> (case mutation_ident m of None \<Rightarrow> True | Some i \<Rightarrow> plain_ident i)"

lemma query_routed:
  assumes "plain_query q"
  shows "find_route (call_request ip (query_call q)) = Some (query_route q, js_or (query_ident q) [])"
proof (cases q)
  case UseAgents
  then show ?thesis
    using route_at [of "call_request ip AgentList" "[''api'', ''v1'', ''agents'']"] agents_matched(1)
    by (simp add: call_request_def as_request_def get_init_def)
next
  case (UseAgent i)
  with assms show ?thesis
    using route_at [of "call_request ip (AgentGet i)" "[''api'', ''v1'', ''agents'', i]"] agents_matched(2) [of i]
    by (simp add: call_request_def as_request_def get_init_def plain_query_def plain_ident_def)
next
  case UseRuns
  then show ?thesis
    using route_at [of "call_request ip RunList" "[''api'', ''v1'', ''runs'']"] runs_matched(1)
    by (simp add: call_request_def as_request_def get_init_def)
next
  case (UseRun i)
  with assms show ?thesis
    using route_at [of "call_request ip (RunGet i)" "[''api'', ''v1'', ''runs'', i]"] runs_matched(2) [of i]
    by (simp add: call_request_def as_request_def get_init_def plain_query_def plain_ident_def)
next
  case (UseRunMessages i)
  with assms show ?thesis
    using route_at [of "call_request ip (RunMessages i)" "[''api'', ''v1'', ''runs'', i, ''messages'']"] runs_matched(3) [of i]
    by (simp add: call_request_def as_request_def get_init_def plain_query_def plain_ident_def)
next
  case UseAgentTasks
  then show ?thesis
    using route_at [of "call_request ip TaskList" "[''api'', ''v1'', ''agent-tasks'']"] tasks_matched(1)
    by (simp add: call_request_def as_request_def get_init_def)
next
  case (UseAgentTask i)
  with assms show ?thesis
    using route_at [of "call_request ip (TaskGet i)" "[''api'', ''v1'', ''agent-tasks'', i]"] tasks_matched(2) [of i]
    by (simp add: call_request_def as_request_def get_init_def plain_query_def plain_ident_def)
next
  case (UseAgentTaskMessages i)
  with assms show ?thesis
    using route_at [of "call_request ip (TaskMessages i)" "[''api'', ''v1'', ''agent-tasks'', i, ''messages'']"] tasks_matched(3) [of i]
    by (simp add: call_request_def as_request_def get_init_def plain_query_def plain_ident_def)
next
  case UseHealth
  then show ?thesis
    using route_at [of "call_request ip HealthCheckCall" "[''api'', ''runtime'', ''health'']"] runs_matched(5)
    by (simp add: call_request_def as_request_def get_init_def)
qed

lemma mutation_routed:
  assumes "plain_mutation m" and "console_call_request (mutation_call m) = (path, init)"
    and "rq_url req = path" and "rq_method req = js_or (ri_method init) ''GET''"
  shows "find_route req = Some (AgentRoute (fst (mutation_route m)), snd (mutation_route m))" and "CHR ''?'' \<notin> set path"
proof -
  show plain: "CHR ''?'' \<notin> set path"
    using assms(1,2) by (cases m) (auto simp: plain_mutation_def plain_ident_def)
  have sent: "rq_url req = fst (console_call_request (mutation_call m))"
    "rq_method req = js_or (ri_method (snd (console_call_request (mutation_call m)))) ''GET''"
    using assms(2-4) by simp_all
  show "find_route req = Some (AgentRoute (fst (mutation_route m)), snd (mutation_route m))"
  proof (cases m)
    case (UseCreateAgent d)
    with sent show ?thesis using route_at [of req "[''api'', ''v1'', ''agents'']"] agents_matched(1) by (simp add: post_init_def)
  next
    case (UseDeleteAgent i)
    with sent assms(1) show ?thesis using route_at [of req "[''api'', ''v1'', ''agents'', i]"] agents_matched(2) [of i]
      by (simp add: get_init_def plain_mutation_def plain_ident_def)
  next
    case (UseSubmitTask d)
    with sent show ?thesis using route_at [of req "[''api'', ''v1'', ''tasks'']"] runs_matched(4) by (simp add: post_init_def)
  next
    case (UseCreateBackgroundTask d)
    with sent show ?thesis using route_at [of req "[''api'', ''v1'', ''agent-tasks'', ''background'']"] tasks_matched(6)
      by (simp add: post_init_def)
  next
    case (UseResumeAgentTask i)
    with sent assms(1) show ?thesis using route_at [of req "[''api'', ''v1'', ''agent-tasks'', i, ''resume'']"] tasks_matched(5) [of i]
      by (simp add: post_init_def plain_mutation_def plain_ident_def)
  next
    case (UseSendAgentTaskMessage i d)
    with sent assms(1) show ?thesis using route_at [of req "[''api'', ''v1'', ''agent-tasks'', i, ''messages'']"] tasks_matched(4) [of i]
      by (simp add: post_init_def plain_mutation_def plain_ident_def)
  qed
qed

text \<open>What the answers to the queries depend on.\<close>

lemma answers_depend:
  assumes "plain_query q"
    and "(\<exists>i. q \<in> {UseAgents, UseAgent i}) \<Longrightarrow> st_agents (sv_store (gw_service g')) = st_agents (sv_store (gw_service g))"
    and "(\<exists>i. q \<in> {UseRuns, UseRun i, UseRunMessages i}) \<Longrightarrow> st_runs (sv_store (gw_service g')) = st_runs (sv_store (gw_service g))
      \<and> st_messages (sv_store (gw_service g')) = st_messages (sv_store (gw_service g))"
    and "(\<exists>i. q \<in> {UseAgentTasks, UseAgentTask i, UseAgentTaskMessages i}) \<Longrightarrow> st_tasks (sv_store (gw_service g')) = st_tasks (sv_store (gw_service g))
      \<and> st_transcripts (sv_store (gw_service g')) = st_transcripts (sv_store (gw_service g))"
  shows "admitted_answer ge hs ip g' (query_call q) = admitted_answer ge hs ip g (query_call q)"
  using assms(2-) unfolding admitted_answer_def query_routed [OF assms(1)]
  by (cases q) (auto simp: route_handler_def get_agents_def get_agent_def get_runs_def get_run_def get_run_messages_def get_tasks_def
      get_task_def get_task_messages_def getAgentTaskMessages_def InMemoryAgentRepository_list_def InMemoryAgentRepository_get_def
      InMemoryRunRepository_list_def InMemoryRunRepository_get_def InMemoryMessageRepository_listByRunId_def
      InMemoryAgentTaskRepository_list_def InMemoryAgentTaskRepository_get_def InMemoryAgentTaskMessageRepository_listByTaskId_def
      split: option.split)

text \<open>What a mutation does to the gateway.\<close>

lemma guarded_agent:
  assumes "guarded_handler ge hs (AgentRoute c) g req = (g', rep, event)"
  obtains (refused) x where "g' = g" "rep = Plain x" "event = None"
  | (handled) sv x where "agent_handler (ge_schemas ge) (ge_environment ge) (ge_draws ge) c (gw_service g) req = (sv, x)"
      "g' = g\<lparr>gw_service := sv\<rparr>" "rep = Plain x" "event = None"
proof -
  obtain sv x where h: "agent_handler (ge_schemas ge) (ge_environment ge) (ge_draws ge) c (gw_service g) req = (sv, x)"
    by (cases "agent_handler (ge_schemas ge) (ge_environment ge) (ge_draws ge) c (gw_service g) req")
  have "(g', rep, event) = (g, rep, event) \<and> (\<exists>y. rep = Plain y) \<and> event = None \<or> (g', rep, event) = (g\<lparr>gw_service := sv\<rparr>, Plain x, None)"
    using assms h unfolding guarded_handler_def route_roles_def route_handler_def by (simp split: option.splits if_splits) auto
  then show thesis
  proof
    assume "(g', rep, event) = (g, rep, event) \<and> (\<exists>y. rep = Plain y) \<and> event = None"
    with refused show thesis by blast
  next
    assume "(g', rep, event) = (g\<lparr>gw_service := sv\<rparr>, Plain x, None)"
    with handled [OF h] show thesis by blast
  qed
qed

lemma mutation_effect:
  assumes "carries fetch ge hs ip []" and "plain_mutation m"
    and "\<forall>p. CHR ''?'' \<notin> set p \<longrightarrow> (\<exists>u. newURL p ''http://senclaw.local'' = Some u \<and> url_pathname u = p)"
    and "console_run_call newURL fetch storage g (mutation_call m) = (g', res)"
  shows "gw_service g' = gw_service g
    \<or> (\<exists>req rep. agent_handler (ge_schemas ge) (ge_environment ge) (ge_draws ge) (fst (mutation_route m)) (gw_service g) req
          = (gw_service g', rep))
      \<and> ((\<exists>r. res = Inr r) \<or> (\<exists>e. res = Inl (OtherError e)))"
proof -
  obtain path init where call: "console_call_request (mutation_call m) = (path, init)" by (cases "console_call_request (mutation_call m)")
  have health: "mutation_call m \<noteq> HealthCheckCall" by (cases m) simp_all
  have quest: "CHR ''?'' \<notin> set path"
    by (rule mutation_routed(2) [OF assms(2) call, of "call_request ip (mutation_call m)"])
      (simp_all add: call_paths [OF call] as_request_def)
  with assms(3) obtain u where u: "newURL path ''http://senclaw.local'' = Some u" "url_pathname u = path" by blast
  note sent = console_call_sent [where newURL = newURL and fetch = fetch and storage = storage and g = g, OF call health u]
  show ?thesis
  proof (cases "loadStoredApiKey storage")
    case None
    with assms(4) sent show ?thesis by simp
  next
    case (Some key)
    let ?rq = "console_sent path init key"
    let ?req = "as_request ip path ?rq"
    have url: "rq_url ?req = path" "rq_method ?req = js_or (ri_method init) ''GET''" by (simp_all add: as_request_def console_sent_def)
    note route = mutation_routed(1) [OF assms(2) call url]
    have go: "(g', res) = (case fetch g ?rq of (w', Inl e) \<Rightarrow> (w', Inl (OtherError e)) | (w', Inr r) \<Rightarrow> (w', console_answer r))"
      using assms(4) sent Some by simp
    have answer: "g' = g1 \<and> (\<exists>st. res = console_answer ((as_response rep)\<lparr>hs_statusText := st\<rparr>))"
      if "gateway_request ge hs g ?req = Some (g1, Plain rep, None)" for g1 rep
    proof -
      from assms(1) quest that obtain st where "fetch g ?rq = (g1, Inr ((as_response rep)\<lparr>hs_statusText := st\<rparr>))"
        unfolding carries_def console_sent_def by (metis append_Nil http_request.select_convs(2))
      with go show ?thesis by auto
    qed
    obtain g1 rep event where run: "gateway_request ge hs g ?req = Some (g1, rep, event)"
      using gateway_answers [OF route] by (metis not_None_eq prod_cases3)
    from run route show ?thesis
    proof (cases rule: gateway_request_cases)
      case refused
      with run answer show ?thesis by auto
    next
      case (public g2)
      with console_call_protected(2) [OF call health quest] url(1) show ?thesis by simp
    next
      case (known k g2)
      from known(3) show ?thesis
      proof (cases rule: guarded_agent)
        case (refused x)
        with run answer known(4) show ?thesis by auto
      next
        case (handled sv x)
        with run known(4) answer [of g1 x] obtain st where g1: "g' = g1" "res = console_answer ((as_response x)\<lparr>hs_statusText := st\<rparr>)"
          by auto
        then have sv: "gw_service g' = sv" using known(4) handled(2) by simp
        show ?thesis
        proof (cases "200 \<le> rp_status x \<and> rp_status x \<le> 299")
          case True
          then have "(\<exists>r. res = Inr r) \<or> (\<exists>e. res = Inl (OtherError e))"
            using g1(2) by (auto simp: console_answer_def response_ok_def as_response_def split: sum.splits)
          with handled(1) sv show ?thesis by auto
        next
          case False
          with handler_failed [OF handled(1)] sv show ?thesis by simp
        qed
      qed
    qed
  qed
qed

lemma invalidate_fold:
  "e \<in> set (fold (invalidateQueries matches) ks cache) \<Longrightarrow>
   \<exists>e0 \<in> set cache. ch_query e = ch_query e0 \<and> ch_data e = ch_data e0
     \<and> (ch_stale e \<longleftrightarrow> ch_stale e0 \<or> (\<exists>k \<in> set ks. matches k (query_key (ch_query e0))))"
proof (induction ks arbitrary: cache)
  case (Cons k ks)
  from Cons.IH [of "invalidateQueries matches k cache"] Cons.prems obtain e1 where e1: "e1 \<in> set (invalidateQueries matches k cache)"
    "ch_query e = ch_query e1 \<and> ch_data e = ch_data e1 \<and> (ch_stale e \<longleftrightarrow> ch_stale e1 \<or> (\<exists>k \<in> set ks. matches k (query_key (ch_query e1))))"
    by auto
  then show ?case by (auto simp: invalidateQueries_def)
qed auto

lemma invalidation_covers:
  assumes "\<forall>k \<in> set (invalidated_keys m). \<not> prefix k (query_key q)"
    and "\<not> ((\<exists>d. m = UseCreateBackgroundTask d) \<and> (\<exists>i. q \<in> {UseRuns, UseRun i, UseRunMessages i}))"
  shows "(\<exists>i. q \<in> {UseAgents, UseAgent i}) \<Longrightarrow> fst (mutation_route m) \<notin> {PostAgent, DeleteAgent}"
    and "(\<exists>i. q \<in> {UseRuns, UseRun i, UseRunMessages i}) \<Longrightarrow> fst (mutation_route m) \<notin> {PostTask, PostBackground, PostResume}"
    and "(\<exists>i. q \<in> {UseAgentTasks, UseAgentTask i, UseAgentTaskMessages i}) \<Longrightarrow> fst (mutation_route m) \<notin> {PostBackground, PostResume}"
  using assms by (cases m; fastforce)+

section \<open>Properties\<close>

text \<open>
  C37. After a mutation of the console no cached answer is silently out of date: an entry that was up to date before is
  marked stale or is still what the gateway would answer, whatever the gateway replied; the one exception are the
  answers about runs after a background task was created. Only where the exchange itself failed nothing is known.
\<close>

theorem mutation_keeps_cache:
  assumes "carries fetch ge hs ip []" and "\<forall>k k'. prefix k k' \<longrightarrow> matches k k'"
    and "\<forall>p. CHR ''?'' \<notin> set p \<longrightarrow> (\<exists>u. newURL p ''http://senclaw.local'' = Some u \<and> url_pathname u = p)"
    and "plain_mutation m" and "\<forall>e \<in> set cache. plain_query (ch_query e) \<and> (ch_stale e \<or> entry_current ge hs ip g e)"
    and "mutate matches (console_run_call newURL fetch storage) (g, cache) m = ((g', cache'), res)"
    and "\<forall>e. res \<noteq> Inl (OtherError e)" and "e \<in> set cache'"
  shows "ch_stale e \<or> entry_current ge hs ip g' e
    \<or> (\<exists>d. m = UseCreateBackgroundTask d) \<and> (\<exists>i. ch_query e \<in> {UseRuns, UseRun i, UseRunMessages i})"
proof -
  have run: "console_run_call newURL fetch storage g (mutation_call m) = (g', res)"
    and cache': "cache' = (case res of Inl _ \<Rightarrow> cache | Inr _ \<Rightarrow> fold (invalidateQueries matches) (invalidated_keys m) cache)"
    using assms(6) by (auto simp: mutate_def split: prod.splits sum.splits)
  obtain e0 where e0: "e0 \<in> set cache" "ch_query e = ch_query e0" "ch_data e = ch_data e0" "ch_stale e0 \<Longrightarrow> ch_stale e"
    and inv: "\<forall>r. res = Inr r \<longrightarrow> (\<forall>k \<in> set (invalidated_keys m). matches k (query_key (ch_query e)) \<longrightarrow> ch_stale e)"
    using assms(8) invalidate_fold [of e matches "invalidated_keys m" cache] unfolding cache'
    by (auto split: sum.splits)
  show ?thesis
  proof (cases "ch_stale e")
    case False
    with e0 assms(5) have q: "plain_query (ch_query e)" and cur: "ch_data e = admitted_answer ge hs ip g (query_call (ch_query e))"
      by (auto simp: entry_current_def)
    from mutation_effect [OF assms(1,4,3) run] show ?thesis
    proof
      assume "gw_service g' = gw_service g"
      then have "admitted_answer ge hs ip g' (query_call (ch_query e)) = admitted_answer ge hs ip g (query_call (ch_query e))"
        by (intro answers_depend [OF q]) simp_all
      with cur show ?thesis by (simp add: entry_current_def)
    next
      assume "(\<exists>req rep. agent_handler (ge_schemas ge) (ge_environment ge) (ge_draws ge) (fst (mutation_route m)) (gw_service g) req
          = (gw_service g', rep)) \<and> ((\<exists>r. res = Inr r) \<or> (\<exists>e. res = Inl (OtherError e)))"
      with assms(7) obtain req rep r where h: "agent_handler (ge_schemas ge) (ge_environment ge) (ge_draws ge) (fst (mutation_route m))
          (gw_service g) req = (gw_service g', rep)" and r: "res = Inr r" by blast
      note slices = handler_slices [OF h]
      have fresh: "\<forall>k \<in> set (invalidated_keys m). \<not> prefix k (query_key (ch_query e))"
        using inv r assms(2) False by blast
      show ?thesis
      proof (cases "(\<exists>d. m = UseCreateBackgroundTask d) \<and> (\<exists>i. ch_query e \<in> {UseRuns, UseRun i, UseRunMessages i})")
        case no: False
        have "admitted_answer ge hs ip g' (query_call (ch_query e)) = admitted_answer ge hs ip g (query_call (ch_query e))"
          using slices invalidation_covers [OF fresh no] by (intro answers_depend [OF q]) blast+
        with cur show ?thesis by (simp add: entry_current_def)
      qed simp
    qed
  qed simp
qed

definition demo_console :: "(ApiKeyRecord list, sched_db) gateway" where
  "demo_console = demo_gateway\<lparr>gw_keys := demo_rows, gw_service := service_init\<lparr>sv_store :=
     fst (InMemoryAgentRepository_create ''a'' store_init (demo_create\<lparr>ca_background := Some True\<rparr>))\<rparr>\<rparr>"

definition demo_url :: url_parser where
  "demo_url p b = Some \<lparr>url_href = p, url_pathname = p\<rparr>"

definition demo_cache :: "gateway_reply option cache_entry list" where
  "demo_cache = map (\<lambda>q. \<lparr>ch_query = q, ch_data = admitted_answer demo_gateway_env [] ''ip'' demo_console (query_call q), ch_stale = False\<rparr>)
     [UseAgents, UseRuns, UseAgentTasks]"

abbreviation "demo_mutate \<equiv>
  mutate prefix (console_run_call demo_url (direct_fetch demo_gateway_env [] ''ip'' []) (Some demo_storage)) (demo_console, demo_cache)"

lemma demo_mutations:
  "map_prod (\<lambda>wc. map ch_stale (snd wc)) (\<lambda>r. case r of Inl e \<Rightarrow> False | Inr x \<Rightarrow> True) (demo_mutate (UseSubmitTask JNull))
     = ([False, True, False], True)"
  by code_simp

theorem mutation_keeps_cache_witness:
  "\<exists>g' cache' res. demo_mutate (UseSubmitTask JNull) = ((g', cache'), res)
     \<and> map ch_stale cache' = [False, True, False]
     \<and> (\<forall>e \<in> set cache'. ch_stale e \<or> entry_current demo_gateway_env [] ''ip'' g' e)"
proof -
  obtain g' cache' res where run: "demo_mutate (UseSubmitTask JNull) = ((g', cache'), res)" by (metis surj_pair)
  with demo_mutations have done': "map ch_stale cache' = [False, True, False]" "\<forall>e. res \<noteq> Inl (OtherError e)"
    by (auto split: sum.splits)
  have url: "\<forall>p. CHR ''?'' \<notin> set p \<longrightarrow> (\<exists>u. demo_url p ''http://senclaw.local'' = Some u \<and> url_pathname u = p)"
    by (simp add: demo_url_def)
  have plain: "plain_mutation (UseSubmitTask JNull)"
    "\<forall>e \<in> set demo_cache. plain_query (ch_query e) \<and> (ch_stale e \<or> entry_current demo_gateway_env [] ''ip'' demo_console e)"
    by (auto simp: plain_mutation_def demo_cache_def plain_query_def entry_current_def)
  have "\<forall>e \<in> set cache'. ch_stale e \<or> entry_current demo_gateway_env [] ''ip'' g' e"
    using mutation_keeps_cache [OF direct_fetch_carries _ url plain run done'(2)] by auto
  with run done'(1) show ?thesis by (intro exI conjI)
qed

text \<open>
  The exception: the task's first run is created with it, so the list of runs of the gateway has changed, but the
  cached list is not marked.
\<close>

theorem background_task_hides_run:
  "case demo_mutate (UseCreateBackgroundTask JNull) of ((g', cache'), res) \<Rightarrow>
     map (\<lambda>e. (ch_stale e, entry_current demo_gateway_env [] ''ip'' g' e)) cache' = [(False, True), (False, False), (True, False)]"
  by code_simp

end
