(* ===== verification/Request_Schemas.thy ===== *)
theory Request_Schemas
  imports Command_Line Web_Queries "HOL-Library.Monad_Syntax"
begin

text \<open>
  The schemas of \<^verbatim>\<open>packages/protocol/src\<close> and of the routes (\<^verbatim>\<open>apps/gateway/src/routes\<close>), as the functions from
  JSON to the parsed value that \<^verbatim>\<open>safeParse\<close> computes, and what a gateway that uses them accepts and keeps.

  The combinators of the schema library are written out as documented: objects drop members they do
  not name, a member is required unless it is optional or has a default, and an integer lies in the range a
  number represents exactly. The texts of the issues it reports and its tests for UUIDs, addresses and date texts
  are arguments. Numbers are integers, as everywhere in the model.
\<close>

section \<open>Schema combinators\<close>

definition required :: "(json \<Rightarrow> 'a option) \<Rightarrow> json option \<Rightarrow> 'a option" where
  "required p v = Option.bind v p"

definition optional :: "(json \<Rightarrow> 'a option) \<Rightarrow> json option \<Rightarrow> 'a option option" where
  "optional p v = (case v of None \<Rightarrow> Some None | Some j \<Rightarrow> map_option Some (p j))"

definition nullable :: "(json \<Rightarrow> 'a option) \<Rightarrow> json \<Rightarrow> 'a option option" where
  "nullable p j = (if j = JNull then Some None else map_option Some (p j))"

definition z_object_of :: "json \<Rightarrow> unit option" where
  "z_object_of j = (if z_object j then Some () else None)"

definition z_text :: "nat \<Rightarrow> nat option \<Rightarrow> json \<Rightarrow> string option" where
  "z_text least most j =
     (case j of JStr s \<Rightarrow> if least \<le> length s \<and> (case most of None \<Rightarrow> True | Some n \<Rightarrow> length s \<le> n) then Some s else None
      | _ \<Rightarrow> None)"

definition z_trimmed :: "nat \<Rightarrow> nat option \<Rightarrow> json \<Rightarrow> string option" where
  "z_trimmed least most j = (case j of JStr s \<Rightarrow> z_text least most (JStr (js_trim s)) | _ \<Rightarrow> None)"

definition z_test :: "(string \<Rightarrow> bool) \<Rightarrow> json \<Rightarrow> string option" where
  "z_test p j = (case j of JStr s \<Rightarrow> if p s then Some s else None | _ \<Rightarrow> None)"

definition max_safe :: int where "max_safe = 9007199254740991"

definition z_nat :: "nat \<Rightarrow> int \<Rightarrow> json \<Rightarrow> nat option" where
  "z_nat least most j = (case j of JNum i \<Rightarrow> if int least \<le> i \<and> i \<le> most then Some (nat i) else None | _ \<Rightarrow> None)"

definition z_number :: "int \<Rightarrow> int \<Rightarrow> json \<Rightarrow> int option" where
  "z_number least most j = (case j of JNum i \<Rightarrow> if least \<le> i \<and> i \<le> most then Some i else None | _ \<Rightarrow> None)"

definition z_enum :: "(string \<times> 'a) list \<Rightarrow> json \<Rightarrow> 'a option" where
  "z_enum names j = (case j of JStr s \<Rightarrow> map_of names s | _ \<Rightarrow> None)"

definition z_array :: "(json \<Rightarrow> 'a option) \<Rightarrow> json \<Rightarrow> 'a list option" where
  "z_array p j = (case j of JArr js \<Rightarrow> those (map p js) | _ \<Rightarrow> None)"

definition z_record :: "(json \<Rightarrow> 'a option) \<Rightarrow> json \<Rightarrow> (string \<times> 'a) list option" where
  "z_record p j = (case j of JObj kvs \<Rightarrow> those (map (\<lambda>(k, v). map_option (Pair k) (p v)) kvs) | _ \<Rightarrow> None)"

text \<open>\<^verbatim>\<open>safeParse\<close> on a body that may be missing.\<close>

definition safeParse :: "(json option \<Rightarrow> issue list) \<Rightarrow> (json \<Rightarrow> 'a option) \<Rightarrow> json option \<Rightarrow> issue list + 'a" where
  "safeParse issues p b = (case Option.bind b p of None \<Rightarrow> Inl (issues b) | Some x \<Rightarrow> Inr x)"

section \<open>Agents and tasks\<close>

definition ProviderConfigSchema :: "json \<Rightarrow> ProviderConfig option" where
  "ProviderConfigSchema j = do {
     z_object_of j;
     p \<leftarrow> required (z_text 1 None) (json_field j ''provider'');
     m \<leftarrow> required (z_text 1 None) (json_field j ''model'');
     t \<leftarrow> optional (z_number 0 2) (json_field j ''temperature'');
     n \<leftarrow> optional (z_nat 1 max_safe) (json_field j ''maxTokens'');
     Some \<lparr>pc_provider = p, pc_model = m, pc_temperature = t, pc_maxTokens = n\<rparr> }"

definition AgentEffortSchema :: "json \<Rightarrow> AgentEffort option" where
  "AgentEffortSchema = z_enum [(''low'', EffortLow), (''medium'', EffortMedium), (''high'', EffortHigh)]"

definition AgentIsolationSchema :: "json \<Rightarrow> AgentIsolation option" where
  "AgentIsolationSchema = z_enum [(''shared'', IsoShared), (''isolated'', IsoIsolated)]"

definition AgentModeSchema :: "json \<Rightarrow> AgentMode option" where
  "AgentModeSchema = z_enum [(''standard'', ModeStandard), (''coordinator'', ModeCoordinator)]"

definition AgentDefinitionSchema :: "json \<Rightarrow> CreateAgent option" where
  "AgentDefinitionSchema j = do {
     z_object_of j;
     name \<leftarrow> required (z_text 1 None) (json_field j ''name'');
     prompt \<leftarrow> required (z_text 1 None) (json_field j ''systemPrompt'');
     provider \<leftarrow> required ProviderConfigSchema (json_field j ''provider'');
     ts \<leftarrow> with_default [] (z_array (z_text 0 None)) (json_field j ''tools'');
     effort \<leftarrow> with_default EffortMedium AgentEffortSchema (json_field j ''effort'');
     isolation \<leftarrow> with_default IsoShared AgentIsolationSchema (json_field j ''isolation'');
     permission \<leftarrow> with_default ''default'' (z_text 1 None) (json_field j ''permissionMode'');
     mode \<leftarrow> with_default ModeStandard AgentModeSchema (json_field j ''mode'');
     turns \<leftarrow> optional (z_nat 1 max_safe) (json_field j ''maxTurns'');
     background \<leftarrow> with_default False z_boolean (json_field j ''background'');
     Some \<lparr>ca_name = name, ca_systemPrompt = prompt, ca_provider = provider, ca_tools = Some ts, ca_effort = Some effort,
           ca_isolation = Some isolation, ca_permissionMode = Some permission, ca_mode = Some mode, ca_maxTurns = turns,
           ca_background = Some background\<rparr> }"

definition Task_schema :: "json \<Rightarrow> (ident \<times> string) option" where
  "Task_schema j = do {
     z_object_of j;
     a \<leftarrow> required (z_text 1 None) (json_field j ''agentId'');
     i \<leftarrow> required (z_text 1 None) (json_field j ''input'');
     Some (a, i) }"

definition BackgroundTask_schema :: "json \<Rightarrow> BackgroundTaskInput option" where
  "BackgroundTask_schema j = do {
     z_object_of j;
     a \<leftarrow> required (z_text 1 None) (json_field j ''agentId'');
     i \<leftarrow> required (z_text 1 None) (json_field j ''input'');
     r \<leftarrow> optional (z_text 1 None) (json_field j ''parentRunId'');
     t \<leftarrow> optional (z_text 1 None) (json_field j ''parentTaskId'');
     m \<leftarrow> optional (z_record Some) (json_field j ''metadata'');
     Some \<lparr>bg_agentId = a, bg_input = i, bg_parentRunId = r, bg_parentTaskId = t, bg_metadata = m\<rparr> }"

definition PendingRole_schema :: "json \<Rightarrow> PendingRole option" where
  "PendingRole_schema = z_enum [(''user'', RoleUser), (''system'', RoleSystem)]"

definition TaskMessage_schema :: "json \<Rightarrow> TaskMessageInput option" where
  "TaskMessage_schema j = do {
     z_object_of j;
     c \<leftarrow> required (z_text 1 None) (json_field j ''content'');
     r \<leftarrow> with_default RoleUser PendingRole_schema (json_field j ''role'');
     Some \<lparr>tmi_content = c, tmi_role = r\<rparr> }"

definition protocol_schemas :: "(json option \<Rightarrow> issue list) \<Rightarrow> route_schemas" where
  "protocol_schemas issues = \<lparr>CreateAgentSchema = safeParse issues AgentDefinitionSchema, TaskSchema = safeParse issues Task_schema,
     CreateBackgroundAgentTaskSchema = safeParse issues BackgroundTask_schema,
     AgentTaskMessageSchema = safeParse issues TaskMessage_schema\<rparr>"

section \<open>Jobs, keys and approvals\<close>

definition CreateScheduledJobSchema :: "(string \<Rightarrow> bool) \<Rightarrow> json \<Rightarrow> CreateScheduledJob option" where
  "CreateScheduledJobSchema is_uuid j = do {
     z_object_of j;
     a \<leftarrow> required (z_test is_uuid) (json_field j ''agentId'');
     n \<leftarrow> required (z_text 1 (Some 255)) (json_field j ''name'');
     c \<leftarrow> required (z_text 1 None) (json_field j ''cronExpression'');
     i \<leftarrow> required (z_text 0 None) (json_field j ''input'');
     k \<leftarrow> optional z_boolean (json_field j ''allowConcurrent'');
     z \<leftarrow> optional (z_text 0 None) (json_field j ''timezone'');
     r \<leftarrow> optional (z_nat 0 10) (json_field j ''maxRetries'');
     Some \<lparr>cj_agentId = a, cj_name = n, cj_cronExpression = c, cj_input = i, cj_allowConcurrent = k, cj_timezone = z,
           cj_maxRetries = r\<rparr> }"

definition UpdateScheduledJobSchema :: "json \<Rightarrow> UpdateScheduledJob option" where
  "UpdateScheduledJobSchema j = do {
     z_object_of j;
     n \<leftarrow> optional (z_text 1 (Some 255)) (json_field j ''name'');
     c \<leftarrow> optional (z_text 1 None) (json_field j ''cronExpression'');
     i \<leftarrow> optional (z_text 0 None) (json_field j ''input'');
     e \<leftarrow> optional z_boolean (json_field j ''enabled'');
     k \<leftarrow> optional z_boolean (json_field j ''allowConcurrent'');
     z \<leftarrow> optional (z_text 0 None) (json_field j ''timezone'');
     r \<leftarrow> optional (z_nat 0 10) (json_field j ''maxRetries'');
     Some \<lparr>uj_name = n, uj_cronExpression = c, uj_input = i, uj_enabled = e, uj_allowConcurrent = k, uj_timezone = z,
           uj_maxRetries = r\<rparr> }"

definition ApiKeyRoleSchema :: "json \<Rightarrow> ApiKeyRole option" where
  "ApiKeyRoleSchema = z_enum [(''admin'', RoleAdmin), (''user'', RoleUserKey), (''readonly'', RoleReadonly)]"

text \<open>\<open>in_future\<close> is the comparison of a date text with the current time.\<close>

definition CreateApiKeyRequestSchema :: "(string \<Rightarrow> bool) \<Rightarrow> (string \<Rightarrow> bool) \<Rightarrow> json \<Rightarrow> CreateApiKeyRequest option" where
  "CreateApiKeyRequestSchema is_datetime in_future j = do {
     z_object_of j;
     n \<leftarrow> required (z_trimmed 1 (Some 100)) (json_field j ''name'');
     r \<leftarrow> required ApiKeyRoleSchema (json_field j ''role'');
     e \<leftarrow> optional (nullable (z_test is_datetime)) (json_field j ''expiresAt'');
     (case js_or e None of Some t \<Rightarrow> if t \<noteq> [] \<and> \<not> in_future t then None else Some () | None \<Rightarrow> Some ());
     Some \<lparr>cr_name = n, cr_role = r, cr_expiresAt = js_or e None\<rparr> }"

definition RevokeApiKeyRequestSchema :: "json \<Rightarrow> string option" where
  "RevokeApiKeyRequestSchema j = do { z_object_of j; required (z_trimmed 1 (Some 500)) (json_field j ''reason'') }"

definition RejectApprovalBodySchema :: "json \<Rightarrow> string option option" where
  "RejectApprovalBodySchema j = do { z_object_of j; optional (z_trimmed 1 None) (json_field j ''comment'') }"

section \<open>Connectors\<close>

definition WebhookConfigSchema :: "json \<Rightarrow> WebhookConfig option" where
  "WebhookConfigSchema j = do {
     s \<leftarrow> required (z_text 1 None) (json_field j ''secret'');
     h \<leftarrow> optional (z_text 0 None) (json_field j ''signatureHeader'');
     a \<leftarrow> optional (z_text 0 None) (json_field j ''signatureAlgorithm'');
     ips \<leftarrow> optional (z_array (z_text 0 None)) (json_field j ''allowedIPs'');
     Some \<lparr>wc_secret = s, wc_signatureHeader = h, wc_signatureAlgorithm = a, wc_allowedIPs = ips\<rparr> }"

definition RabbitMqQueueConfigSchema :: "(string \<Rightarrow> bool) \<Rightarrow> json \<Rightarrow> RabbitMqQueueConfig option" where
  "RabbitMqQueueConfigSchema is_url j = do {
     u \<leftarrow> required (z_test is_url) (json_field j ''url'');
     q \<leftarrow> required (z_text 1 None) (json_field j ''queue'');
     e \<leftarrow> optional (z_text 1 None) (json_field j ''exchange'');
     t \<leftarrow> optional (z_enum (map (\<lambda>s. (s, s)) [''direct'', ''fanout'', ''topic'', ''headers''])) (json_field j ''exchangeType'');
     k \<leftarrow> optional (z_text 0 None) (json_field j ''routingKey'');
     p \<leftarrow> optional (z_nat 1 max_safe) (json_field j ''prefetch'');
     d \<leftarrow> optional z_boolean (json_field j ''durable'');
     r \<leftarrow> optional z_boolean (json_field j ''requeueOnFailure'');
     x \<leftarrow> optional (z_text 1 None) (json_field j ''deadLetterExchange'');
     y \<leftarrow> optional (z_text 1 None) (json_field j ''deadLetterRoutingKey'');
     Some \<lparr>rb_url = u, rb_queue = q, rb_exchange = e, rb_exchangeType = t, rb_routingKey = k, rb_prefetch = p, rb_durable = d,
           rb_requeueOnFailure = r, rb_deadLetterExchange = x, rb_deadLetterRoutingKey = y\<rparr> }"

definition RedisQueueConfigSchema :: "(string \<Rightarrow> bool) \<Rightarrow> json \<Rightarrow> RedisQueueConfig option" where
  "RedisQueueConfigSchema is_url j = do {
     u \<leftarrow> required (z_test is_url) (json_field j ''url'');
     s \<leftarrow> required (z_text 1 None) (json_field j ''stream'');
     g \<leftarrow> required (z_text 1 None) (json_field j ''consumerGroup'');
     n \<leftarrow> optional (z_text 1 None) (json_field j ''consumerName'');
     b \<leftarrow> optional (z_nat 1 max_safe) (json_field j ''batchSize'');
     w \<leftarrow> optional (z_nat 0 max_safe) (json_field j ''blockMs'');
     r \<leftarrow> optional z_boolean (json_field j ''requeueOnFailure'');
     d \<leftarrow> optional (z_text 1 None) (json_field j ''deadLetterStream'');
     Some \<lparr>rd_url = u, rd_stream = s, rd_consumerGroup = g, rd_consumerName = n, rd_batchSize = b, rd_blockMs = w,
           rd_requeueOnFailure = r, rd_deadLetterStream = d\<rparr> }"

definition PollingConfigSchema :: "(string \<Rightarrow> bool) \<Rightarrow> json \<Rightarrow> PollingConfig option" where
  "PollingConfigSchema is_url j = do {
     required (z_enum [(''http'', ())]) (json_field j ''provider'');
     u \<leftarrow> required (z_test is_url) (json_field j ''url'');
     m \<leftarrow> optional (z_text 0 None) (json_field j ''method'');
     h \<leftarrow> optional (z_record (z_text 0 None)) (json_field j ''headers'');
     i \<leftarrow> required (z_nat 1 max_safe) (json_field j ''interval'');
     c \<leftarrow> optional (z_enum [(''etag'', DetectEtag), (''content-hash'', DetectContentHash), (''last-modified'', DetectLastModified)])
            (json_field j ''changeDetection'');
     Some \<lparr>pg_url = u, pg_method = m, pg_headers = h, pg_interval = i, pg_changeDetection = c\<rparr> }"

text \<open>The unions are told apart by \<^verbatim>\<open>type\<close> and, for queues, by \<^verbatim>\<open>provider\<close>.\<close>

definition QueueConfigSchema :: "(string \<Rightarrow> bool) \<Rightarrow> json \<Rightarrow> ConnectorConfig option" where
  "QueueConfigSchema is_url j =
     (if json_field j ''provider'' = Some (JStr ''rabbitmq'') then map_option CfgRabbit (RabbitMqQueueConfigSchema is_url j)
      else if json_field j ''provider'' = Some (JStr ''redis'') then map_option CfgRedis (RedisQueueConfigSchema is_url j)
      else None)"

definition ConnectorConfigSchema :: "(string \<Rightarrow> bool) \<Rightarrow> json \<Rightarrow> ConnectorConfig option" where
  "ConnectorConfigSchema is_url j =
     (if json_field j ''type'' = Some (JStr ''webhook'') then map_option CfgWebhook (WebhookConfigSchema j)
      else if json_field j ''type'' = Some (JStr ''queue'') then QueueConfigSchema is_url j
      else if json_field j ''type'' = Some (JStr ''polling'') then map_option CfgPolling (PollingConfigSchema is_url j)
      else None)"

definition filter_value :: "json \<Rightarrow> json option" where
  "filter_value j = (case j of JStr s \<Rightarrow> Some j | JNum i \<Rightarrow> Some j | JBool b \<Rightarrow> Some j | _ \<Rightarrow> None)"

definition TransformationFilterSchema :: "json \<Rightarrow> TransformationFilter option" where
  "TransformationFilterSchema j = do {
     z_object_of j;
     f \<leftarrow> required (z_text 0 None) (json_field j ''field'');
     p \<leftarrow> required (z_enum [(''equals'', OpEquals), (''not_equals'', OpNotEquals), (''contains'', OpContains),
            (''not_contains'', OpNotContains), (''starts_with'', OpStartsWith), (''ends_with'', OpEndsWith),
            (''greater_than'', OpGreaterThan), (''less_than'', OpLessThan), (''regex'', OpRegex)]) (json_field j ''operator'');
     v \<leftarrow> required filter_value (json_field j ''value'');
     Some \<lparr>tf_field = f, tf_operator = p, tf_value = v\<rparr> }"

definition TransformationSchema :: "json \<Rightarrow> Transformation option" where
  "TransformationSchema j = do {
     z_object_of j;
     t \<leftarrow> optional (z_text 0 None) (json_field j ''inputTemplate'');
     p \<leftarrow> optional (z_text 0 None) (json_field j ''jsonPath'');
     a \<leftarrow> optional (z_text 0 None) (json_field j ''staticPrefix'');
     b \<leftarrow> optional (z_text 0 None) (json_field j ''staticSuffix'');
     f \<leftarrow> optional (z_text 0 None) (json_field j ''fallback'');
     fs \<leftarrow> optional (z_array TransformationFilterSchema) (json_field j ''filters'');
     Some \<lparr>tn_inputTemplate = t, tn_jsonPath = p, tn_staticPrefix = a, tn_staticSuffix = b, tn_fallback = f, tn_filters = fs\<rparr> }"

definition ConnectorType_schema :: "json \<Rightarrow> ConnectorType option" where
  "ConnectorType_schema = z_enum [(''webhook'', TypeWebhook), (''queue'', TypeQueue), (''polling'', TypePolling)]"

definition CreateConnectorSchema :: "(string \<Rightarrow> bool) \<Rightarrow> (string \<Rightarrow> bool) \<Rightarrow> json \<Rightarrow> CreateConnector option" where
  "CreateConnectorSchema is_uuid is_url j = do {
     z_object_of j;
     n \<leftarrow> required (z_text 1 (Some 255)) (json_field j ''name'');
     t \<leftarrow> required ConnectorType_schema (json_field j ''type'');
     a \<leftarrow> required (z_test is_uuid) (json_field j ''agentId'');
     c \<leftarrow> required (ConnectorConfigSchema is_url) (json_field j ''config'');
     f \<leftarrow> required TransformationSchema (json_field j ''transformation'');
     Some \<lparr>cc_name = n, cc_type = t, cc_agentId = a, cc_config = c, cc_transformation = f\<rparr> }"

definition UpdateConnectorSchema :: "(string \<Rightarrow> bool) \<Rightarrow> json \<Rightarrow> UpdateConnector option" where
  "UpdateConnectorSchema is_url j = do {
     z_object_of j;
     n \<leftarrow> optional (z_text 1 (Some 255)) (json_field j ''name'');
     c \<leftarrow> optional (ConnectorConfigSchema is_url) (json_field j ''config'');
     f \<leftarrow> optional TransformationSchema (json_field j ''transformation'');
     e \<leftarrow> optional z_boolean (json_field j ''enabled'');
     Some \<lparr>uc_name = n, uc_config = c, uc_transformation = f, uc_enabled = e\<rparr> }"

section \<open>Query strings\<close>

definition query_text :: "request \<Rightarrow> string \<Rightarrow> json option" where
  "query_text req k = map_option JStr (jm_get (rq_query req) k)"

definition connector_QuerySchema :: "(string \<Rightarrow> bool) \<Rightarrow> request \<Rightarrow> (ConnectorType option \<times> bool option \<times> ident option) option" where
  "connector_QuerySchema is_uuid req = do {
     t \<leftarrow> optional ConnectorType_schema (query_text req ''type'');
     e \<leftarrow> optional (\<lambda>j. map_option (\<lambda>s. s = ''true'') (z_text 0 None j)) (query_text req ''enabled'');
     a \<leftarrow> optional (z_test is_uuid) (query_text req ''agentId'');
     Some (t, e, a) }"

text \<open>\<open>number\<close> is the conversion of a text to a number, which gives nothing for a text that is no integer.\<close>

definition z_coerced :: "(string \<Rightarrow> int option) \<Rightarrow> nat \<Rightarrow> int \<Rightarrow> json \<Rightarrow> nat option" where
  "z_coerced number least most j = (case j of JStr s \<Rightarrow> Option.bind (number s) (\<lambda>i. z_nat least most (JNum i)) | _ \<Rightarrow> None)"

definition event_QuerySchema ::
    "(string \<Rightarrow> int option) \<Rightarrow> request \<Rightarrow> (ConnectorEventStatus option \<times> nat \<times> nat) option" where
  "event_QuerySchema number req = do {
     s \<leftarrow> optional (z_enum [(''pending'', EvPending), (''submitted'', EvSubmitted), (''failed'', EvFailed), (''filtered'', EvFiltered)])
            (query_text req ''status'');
     l \<leftarrow> with_default 50 (z_coerced number 1 100) (query_text req ''limit'');
     f \<leftarrow> with_default 0 (z_coerced number 0 max_safe) (query_text req ''offset'');
     Some (s, l, f) }"

section \<open>The delay of a polling connector\<close>

text \<open>
  \<^verbatim>\<open>setInterval(poll, config.interval * 1000)\<close>: a delay that is no number, less than one millisecond or more than
  the largest 32-bit integer is taken as one millisecond.
\<close>

definition timer_delay :: "nat option \<Rightarrow> nat" where
  "timer_delay ms = (case ms of Some d \<Rightarrow> if 1 \<le> d \<and> d \<le> 2147483647 then d else 1 | None \<Rightarrow> 1)"

definition polling_delay :: "ConnectorConfig \<Rightarrow> nat" where
  "polling_delay cfg = timer_delay (case cfg of CfgPolling g \<Rightarrow> Some (pg_interval g * 1000) | _ \<Rightarrow> None)"

section \<open>Lemmas\<close>

named_theorems schema_simps

lemma required_Some [schema_simps]: "required p v = Some x \<longleftrightarrow> (\<exists>j. v = Some j \<and> p j = Some x)"
  by (auto simp: required_def bind_eq_Some_conv)

lemma optional_Some [schema_simps]: "optional p v = Some x \<longleftrightarrow> v = None \<and> x = None \<or> (\<exists>j y. v = Some j \<and> p j = Some y \<and> x = Some y)"
  by (auto simp: optional_def split: option.splits)

lemma default_Some [schema_simps]: "with_default d p v = Some x \<longleftrightarrow> v = None \<and> x = d \<or> (\<exists>j. v = Some j \<and> p j = Some x)"
  by (auto simp: with_default_def split: option.splits)

lemma z_object_of_Some [schema_simps]: "z_object_of j = Some u \<longleftrightarrow> z_object j"
  by (simp add: z_object_of_def)

lemma z_text_Some [schema_simps]:
  "z_text least most j = Some s \<longleftrightarrow> j = JStr s \<and> least \<le> length s \<and> (\<forall>n. most = Some n \<longrightarrow> length s \<le> n)"
  by (auto simp: z_text_def split: json.splits option.splits)

lemma z_nat_Some [schema_simps]: "z_nat least most j = Some n \<longleftrightarrow> j = JNum (int n) \<and> least \<le> n \<and> int n \<le> most"
  by (auto simp: z_nat_def split: json.splits)

lemma z_number_Some [schema_simps]: "z_number least most j = Some i \<longleftrightarrow> j = JNum i \<and> least \<le> i \<and> i \<le> most"
  by (auto simp: z_number_def split: json.splits)

lemma z_boolean_Some [schema_simps]: "z_boolean j = Some b \<longleftrightarrow> j = JBool b"
  by (auto simp: z_boolean_def split: json.splits)

lemma z_test_Some [schema_simps]: "z_test p j = Some s \<longleftrightarrow> j = JStr s \<and> p s"
  by (auto simp: z_test_def split: json.splits)

lemma z_enum_Some [schema_simps]: "z_enum names j = Some x \<longleftrightarrow> (\<exists>s. j = JStr s \<and> map_of names s = Some x)"
  by (auto simp: z_enum_def split: json.splits)

lemma those_map: "those (map (\<lambda>x. p (f x)) xs) = Some ys \<Longrightarrow> length ys = length xs"
  by (induction xs arbitrary: ys) (auto split: option.splits)

lemma those_map_Some: "(\<And>x. x \<in> set xs \<Longrightarrow> f x = Some (g x)) \<Longrightarrow> those (map f xs) = Some (map g xs)"
  by (induction xs) auto

lemma z_array_strings [simp]: "z_array (z_text 0 None) (JArr (map JStr ss)) = Some ss"
  by (induction ss) (simp_all add: z_array_def z_text_def comp_def)

text \<open>What a member that was read satisfies.\<close>

lemma read_members:
  "required (z_text (Suc l) most) v = Some s \<Longrightarrow> s \<noteq> []"
  "required (z_text l (Some n)) v = Some s \<Longrightarrow> length s \<le> n"
  "optional (z_text (Suc l) most) v = Some (Some s) \<Longrightarrow> s \<noteq> []"
  "optional (z_text l (Some n)) v = Some (Some s) \<Longrightarrow> length s \<le> n"
  "with_default d (z_text (Suc l) most) v = Some s \<Longrightarrow> d \<noteq> [] \<Longrightarrow> s \<noteq> []"
  "required (z_nat l most') v = Some i \<Longrightarrow> l \<le> i \<and> int i \<le> most'"
  "optional (z_nat l most') v = Some (Some i) \<Longrightarrow> l \<le> i \<and> int i \<le> most'"
  "optional (z_number a b) v = Some (Some k) \<Longrightarrow> a \<le> k \<and> k \<le> b"
  by (auto simp: schema_simps)

text \<open>Agents the schema accepts.\<close>

definition provider_ok :: "ProviderConfig \<Rightarrow> bool" where
  "provider_ok p \<longleftrightarrow> pc_provider p \<noteq> [] \<and> pc_model p \<noteq> [] \<and> (\<forall>t. pc_temperature p = Some t \<longrightarrow> 0 \<le> t \<and> t \<le> 2)
     \<and> (\<forall>n. pc_maxTokens p = Some n \<longrightarrow> 1 \<le> n \<and> int n \<le> max_safe)"

definition agent_ok :: "Agent \<Rightarrow> bool" where
  "agent_ok a \<longleftrightarrow> ag_name a \<noteq> [] \<and> ag_systemPrompt a \<noteq> [] \<and> provider_ok (ag_provider a) \<and> ag_permissionMode a \<noteq> []
     \<and> (\<forall>n. ag_maxTurns a = Some n \<longrightarrow> 1 \<le> n \<and> int n \<le> max_safe)"

lemma provider_parsed: "ProviderConfigSchema j = Some p \<Longrightarrow> provider_ok p"
  by (auto simp: ProviderConfigSchema_def provider_ok_def bind_eq_Some_conv dest: read_members)

lemma agent_parsed: "AgentDefinitionSchema j = Some d \<Longrightarrow> agent_ok (new_agent u d)"
  by (auto simp: AgentDefinitionSchema_def agent_ok_def new_agent_def bind_eq_Some_conv required_Some [of ProviderConfigSchema]
      dest: provider_parsed read_members)

lemma provider_written: "provider_ok p \<Longrightarrow> ProviderConfigSchema (provider_body p) = Some p"
  by (cases "pc_temperature p"; cases "pc_maxTokens p")
    (auto simp: ProviderConfigSchema_def provider_ok_def provider_body_def nat_field_def json_field_def z_object_of_def z_object_def
      required_def optional_def z_text_def z_nat_def z_number_def Suc_le_eq)

definition parsed_agent :: "Agent \<Rightarrow> CreateAgent" where
  "parsed_agent a = \<lparr>ca_name = ag_name a, ca_systemPrompt = ag_systemPrompt a, ca_provider = ag_provider a, ca_tools = Some (ag_tools a),
     ca_effort = Some (ag_effort a), ca_isolation = Some (ag_isolation a), ca_permissionMode = Some (ag_permissionMode a),
     ca_mode = Some (ag_mode a), ca_maxTurns = ag_maxTurns a, ca_background = Some (ag_background a)\<rparr>"

lemma agent_written: "agent_ok a \<Longrightarrow> AgentDefinitionSchema (agent_body a) = Some (parsed_agent a)"
proof -
  assume ok: "agent_ok a"
  then have p: "ProviderConfigSchema (provider_body (ag_provider a)) = Some (ag_provider a)"
    by (intro provider_written) (simp add: agent_ok_def)
  have e: "AgentEffortSchema (JStr (effort_text x)) = Some x" for x by (cases x) (simp_all add: AgentEffortSchema_def z_enum_def effort_text_def)
  have i: "AgentIsolationSchema (JStr (case x of IsoShared \<Rightarrow> ''shared'' | IsoIsolated \<Rightarrow> ''isolated'')) = Some x" for x
    by (cases x) (simp_all add: AgentIsolationSchema_def z_enum_def)
  have m: "AgentModeSchema (JStr (case x of ModeStandard \<Rightarrow> ''standard'' | ModeCoordinator \<Rightarrow> ''coordinator'')) = Some x" for x
    by (cases x) (simp_all add: AgentModeSchema_def z_enum_def)
  show ?thesis
    using ok p e i m
    by (cases "ag_maxTurns a") (simp_all add: AgentDefinitionSchema_def agent_body_def agent_ok_def nat_field_def json_field_def
        z_object_of_def z_object_def required_def optional_def with_default_def z_text_def z_nat_def z_boolean_def parsed_agent_def Suc_le_eq)
qed

lemma new_parsed_agent [simp]: "new_agent u (parsed_agent a) = a\<lparr>ag_id := u\<rparr>"
  by (simp add: new_agent_def parsed_agent_def)

text \<open>What the connector schemas accept.\<close>

definition config_ok :: "ConnectorConfig \<Rightarrow> bool" where
  "config_ok cfg \<longleftrightarrow> (case cfg of
       CfgWebhook w \<Rightarrow> wc_secret w \<noteq> []
     | CfgRabbit q \<Rightarrow> rb_queue q \<noteq> [] \<and> rb_prefetch q \<noteq> Some 0
     | CfgRedis q \<Rightarrow> rd_stream q \<noteq> [] \<and> rd_consumerGroup q \<noteq> [] \<and> rd_batchSize q \<noteq> Some 0
     | CfgPolling g \<Rightarrow> 1 \<le> pg_interval g)"

lemma config_parsed: "ConnectorConfigSchema is_url j = Some cfg \<Longrightarrow> config_ok cfg"
proof -
  have w: "WebhookConfigSchema j = Some w \<Longrightarrow> config_ok (CfgWebhook w)" for w
    by (auto simp: WebhookConfigSchema_def config_ok_def bind_eq_Some_conv dest: read_members)
  have q: "RabbitMqQueueConfigSchema is_url j = Some q \<Longrightarrow> config_ok (CfgRabbit q)" for q
    by (auto simp: RabbitMqQueueConfigSchema_def config_ok_def bind_eq_Some_conv dest: read_members)
  have r: "RedisQueueConfigSchema is_url j = Some r \<Longrightarrow> config_ok (CfgRedis r)" for r
    by (auto simp: RedisQueueConfigSchema_def config_ok_def bind_eq_Some_conv dest: read_members)
  have g: "PollingConfigSchema is_url j = Some g \<Longrightarrow> config_ok (CfgPolling g)" for g
    by (auto simp: PollingConfigSchema_def config_ok_def bind_eq_Some_conv dest: read_members)
  show "ConnectorConfigSchema is_url j = Some cfg \<Longrightarrow> config_ok cfg"
    using w q r g by (auto simp: ConnectorConfigSchema_def QueueConfigSchema_def split: if_splits)
qed

definition connector_ok :: "Connector \<Rightarrow> bool" where
  "connector_ok c \<longleftrightarrow> cn_name c \<noteq> [] \<and> length (cn_name c) \<le> 255 \<and> config_ok (cn_config c)"

lemma created_connector_ok: "CreateConnectorSchema is_uuid is_url j = Some d \<Longrightarrow> connector_ok (new_connector u t d)"
  by (auto simp: CreateConnectorSchema_def new_connector_def connector_ok_def bind_eq_Some_conv required_Some [of "ConnectorConfigSchema is_url"]
      dest: config_parsed read_members)

lemma updated_connector_ok: "UpdateConnectorSchema is_url j = Some d \<Longrightarrow> connector_ok c \<Longrightarrow> connector_ok (updated_connector t d c)"
  by (auto simp: UpdateConnectorSchema_def updated_connector_def connector_ok_def js_or_def bind_eq_Some_conv
      optional_Some [of "ConnectorConfigSchema is_url"] dest: config_parsed read_members split: option.splits)

lemma updated_connectors_ok:
  assumes "UpdateConnectorSchema is_url j = Some d" and "\<forall>c \<in> set cs. connector_ok c"
  shows "\<forall>c \<in> set (sql_update p (updated_connector t d) cs). connector_ok c"
  using assms(2) updated_connector_ok [OF assms(1)] by (auto simp: sql_update_def)

text \<open>The agents and connectors a gateway stores.\<close>

definition agents_valid :: "service \<Rightarrow> bool" where
  "agents_valid sv \<longleftrightarrow> (\<forall>i a. jm_get (st_agents (sv_store sv)) i = Some a \<longrightarrow> ag_id a = i \<and> agent_ok a)"

definition uses_protocol :: "('s, 'j) gateway_env \<Rightarrow> bool" where
  "uses_protocol ge \<longleftrightarrow> (\<exists>issues is_uuid is_url. ge_schemas ge = protocol_schemas issues
     \<and> ge_createConnector ge = safeParse issues (CreateConnectorSchema is_uuid is_url)
     \<and> ge_updateConnector ge = (\<lambda>b. Option.bind b (UpdateConnectorSchema is_url)))"

definition stored_valid :: "('s, 'j) gateway \<Rightarrow> bool" where
  "stored_valid g \<longleftrightarrow> agents_valid (gw_service g) \<and> (\<forall>c \<in> set (cd_connectors (gw_connectors g)). connector_ok c)"

lemma agents_kept:
  assumes "agent_handler (protocol_schemas issues) ev dr c sv req = (sv', rep)" and "agents_valid sv"
  shows "agents_valid sv'"
proof -
  consider (post) "c = PostAgent" | (delete) "c = DeleteAgent" | (other) "st_agents (sv_store sv') = st_agents (sv_store sv)"
    using handler_slices(1) [OF assms(1)] by auto
  then show ?thesis
  proof cases
    case post
    with assms show ?thesis
      by (auto simp: post_agent_def protocol_schemas_def safeParse_def agents_valid_def store_ops Let_def jm_get_set new_agent_def
          bind_eq_Some_conv dest: agent_parsed [where u = "dr_uuid dr"] split: option.splits if_splits)
  next
    case delete
    with assms show ?thesis
      by (auto simp: delete_agent_def agents_valid_def store_ops Let_def jm_get_delete split: if_splits)
  next
    case other
    with assms(2) show ?thesis by (simp add: agents_valid_def)
  qed
qed

lemma connectors_kept:
  assumes "uses_protocol ge" and "connector_handler ge c g req = (g', rep, event)"
    and "\<forall>c \<in> set (cd_connectors (gw_connectors g)). connector_ok c"
  shows "\<forall>c \<in> set (cd_connectors (gw_connectors g')). connector_ok c"
proof -
  from assms(1) obtain issues is_uuid is_url where
    create: "\<And>b. ge_createConnector ge b = safeParse issues (CreateConnectorSchema is_uuid is_url) b"
    and update: "\<And>b. ge_updateConnector ge b = Option.bind b (UpdateConnectorSchema is_url)"
    by (auto simp: uses_protocol_def)
  let ?ok = "\<lambda>s. \<forall>c \<in> set (cd_connectors s). connector_ok c"
  have post: "?ok s'" if "post_connector refuse protocol hostname uuid now (ge_createConnector ge) s rt body = (s', rt', r)" "?ok s"
    for refuse protocol hostname uuid now s rt body s' rt' r
    using that by (auto simp: post_connector_def create safeParse_def SqliteConnectorRepository_create_def Let_def bind_eq_Some_conv
        dest: created_connector_ok split: option.splits sum.splits if_splits prod.splits)
  have patch: "?ok s'" if "patch_connector refuse valid now (ge_updateConnector ge) s rt r0 = (s', rt', r)" "?ok s"
    for refuse valid now s rt r0 s' rt' r
    using that by (auto simp: patch_connector_def update SqliteConnectorRepository_update_def Let_def bind_eq_Some_conv
        dest!: updated_connectors_ok split: option.splits if_splits prod.splits bool.splits)
  have delete: "?ok s'" if "delete_connector valid s rt r0 = (s', rt', r)" "?ok s" for valid s rt r0 s' rt' r
    using that by (auto simp: delete_connector_def SqliteConnectorRepository_delete_def Let_def split: option.splits if_splits)
  show ?thesis
    using assms(2,3) by (cases c) (auto simp: connector_handler_def Let_def dest: post patch delete split: prod.splits)
qed

lemma stored_kept:
  assumes "uses_protocol ge" and "gateway_request ge hs g req = Some (g', rep, event)" and "stored_valid g"
  shows "stored_valid g'"
proof -
  have handler: "stored_valid g2" if "route_handler ge hs r g1 rq = (g2, rep, event)" "stored_valid g1" for r g1 g2 rq
  proof -
    from assms(1) obtain issues where sc: "ge_schemas ge = protocol_schemas issues" by (auto simp: uses_protocol_def)
    note frames = handler_frames [OF that(1)]
    have "agents_valid (gw_service g2)"
    proof (cases "\<exists>c. r = AgentRoute c")
      case True
      then obtain c where "r = AgentRoute c" ..
      with that show ?thesis by (auto simp: route_handler_def sc stored_valid_def intro: agents_kept split: prod.splits)
    next
      case False
      with frames(2) that(2) show ?thesis by (auto simp: stored_valid_def)
    qed
    moreover have "\<forall>c \<in> set (cd_connectors (gw_connectors g2)). connector_ok c"
    proof (cases "\<exists>c. r = ConnectorRoute c")
      case True
      then obtain c where "r = ConnectorRoute c" ..
      with that(1) have "connector_handler ge c g1 rq = (g2, rep, event)" by (simp add: route_handler_def)
      from connectors_kept [OF assms(1) this] that(2) show ?thesis by (simp add: stored_valid_def)
    next
      case False
      with frames(4) that(2) show ?thesis by (auto simp: stored_valid_def)
    qed
    ultimately show ?thesis by (simp add: stored_valid_def)
  qed
  have guarded: "stored_valid g2" if "guarded_handler ge hs r g1 rq = (g2, rep, event)" "stored_valid g1" for r g1 g2 rq
    using that handler by (auto simp: guarded_handler_def split: option.splits if_splits)
  obtain r i where route: "find_route req = Some (r, i)" using assms(2) by (auto simp: gateway_request_def split: option.splits)
  from assms(2) route show ?thesis
  proof (cases rule: gateway_request_cases)
    case refused
    with assms(3) show ?thesis by simp
  next
    case (public g1)
    with guarded [OF public(3) assms(3)] show ?thesis by simp
  next
    case (known k g1)
    have "stored_valid (g\<lparr>gw_keys := kr_updateLastUsed (ge_keyRepo ge) (ge_now ge) (gw_keys g) (au_id k)\<rparr>)"
      using assms(3) by (simp add: stored_valid_def)
    from guarded [OF known(3) this] show ?thesis unfolding known(4) by (simp add: stored_valid_def)
  qed
qed

section \<open>Properties\<close>

text \<open>A history of requests, each with what the gateway drew for it; a request no route answers changes nothing.\<close>

definition gateway_history ::
    "(('s, 'j) gateway_env \<times> (string, string) jsmap \<times> request) list \<Rightarrow> ('s, 'j) gateway \<Rightarrow> ('s, 'j) gateway" where
  "gateway_history h g =
     fold (\<lambda>(ge, hs, req) g. case gateway_request ge hs g req of None \<Rightarrow> g | Some (g', _) \<Rightarrow> g') h g"

text \<open>
  C10. Whatever requests arrive, the gateway stores only agents and connectors its schemas describe: an agent has a
  name, a prompt, a provider and a model, a temperature between 0 and 2 and positive limits; a connector has a
  name of at most 255 characters and a usable configuration.
\<close>

theorem stored_data_valid:
  assumes "stored_valid g" and "\<forall>(ge, hs, req) \<in> set h. uses_protocol ge"
  shows "stored_valid (gateway_history h g)"
  using assms
proof (induction h arbitrary: g)
  case (Cons x h)
  obtain ge hs req where x: "x = (ge, hs, req)" by (cases x)
  with Cons.prems have "stored_valid (case gateway_request ge hs g req of None \<Rightarrow> g | Some (g', _) \<Rightarrow> g')"
    by (auto split: option.splits dest: stored_kept)
  with Cons x show ?case by (simp add: gateway_history_def)
qed (simp add: gateway_history_def)

text \<open>
  C34. An agent can be copied: posting the answer to \<^verbatim>\<open>GET /api/v1/agents/:id\<close> creates an agent that is equal up to its
  identifier, and leaves every other agent as it was.
\<close>

theorem agent_copied:
  assumes "agents_valid sv" and "InMemoryAgentRepository_get (sv_store sv) i = Some a"
    and "rq_id r0 = i" and "rq_body req = Some (rp_body (get_agent sv r0))"
    and "post_agent (protocol_schemas issues) dr sv req = (sv', rep)"
  shows "rp_status rep = 201 \<and> InMemoryAgentRepository_get (sv_store sv') (dr_uuid dr) = Some (a\<lparr>ag_id := dr_uuid dr\<rparr>)
    \<and> (\<forall>j. j \<noteq> dr_uuid dr \<longrightarrow> InMemoryAgentRepository_get (sv_store sv') j = InMemoryAgentRepository_get (sv_store sv) j)"
proof -
  have "agent_ok a" using assms(1,2) by (auto simp: agents_valid_def InMemoryAgentRepository_get_def)
  moreover have "rq_body req = Some (agent_body a)" using assms(2-4) by (simp add: get_agent_def ok_reply_def)
  ultimately have "CreateAgentSchema (protocol_schemas issues) (rq_body req) = Inr (parsed_agent a)"
    by (simp add: protocol_schemas_def safeParse_def agent_written)
  with assms(5) show ?thesis
    by (auto simp: post_agent_def InMemoryAgentRepository_create_def InMemoryAgentRepository_get_def ok_reply_def jm_get_set Let_def)
qed


definition demo_protocol_env :: "(ApiKeyRecord list, sched_db) gateway_env" where
  "demo_protocol_env = demo_gateway_env\<lparr>ge_schemas := protocol_schemas (\<lambda>b. []),
     ge_createConnector := safeParse (\<lambda>b. []) (CreateConnectorSchema (\<lambda>s. True) (\<lambda>s. True)),
     ge_updateConnector := (\<lambda>b. Option.bind b (UpdateConnectorSchema (\<lambda>s. True)))\<rparr>"

definition demo_post :: "json \<Rightarrow> request" where
  "demo_post j = demo_request\<lparr>rq_url := ''/api/v1/agents'', rq_method := ''POST'', rq_body := Some j\<rparr>"

definition demo_agent_json :: json where
  "demo_agent_json = JObj [(''name'', JStr ''n''), (''systemPrompt'', JStr ''s''),
     (''provider'', JObj [(''provider'', JStr ''p''), (''model'', JStr ''m''), (''temperature'', JNum 1)])]"

abbreviation "demo_history \<equiv> [(demo_protocol_env, [], demo_post demo_agent_json), (demo_protocol_env, [], demo_delete)]"

lemma demo_agents_valid: "agents_valid (gw_service demo_console)"
  by (auto simp: agents_valid_def demo_console_def store_ops store_init_def new_agent_def demo_create_def agent_ok_def provider_ok_def Let_def
      split: if_splits)

lemma demo_history_posts:
  "map_option ag_name (InMemoryAgentRepository_get (sv_store (gw_service (gateway_history demo_history demo_console))) ''u1'') = Some ''n''"
  by code_simp

theorem stored_data_valid_witness:
  "stored_valid (gateway_history demo_history demo_console)
   \<and> map_option ag_name (InMemoryAgentRepository_get (sv_store (gw_service (gateway_history demo_history demo_console))) ''u1'') = Some ''n''"
proof -
  have "stored_valid demo_console"
  proof -
    have "list_all (\<lambda>c. connector_ok c) (cd_connectors (gw_connectors demo_console))" by code_simp
    with demo_agents_valid show ?thesis by (simp add: stored_valid_def list_all_iff)
  qed
  moreover have "uses_protocol demo_protocol_env" by (auto simp: uses_protocol_def demo_protocol_env_def)
  ultimately have "stored_valid (gateway_history demo_history demo_console)" by (intro stored_data_valid) auto
  with demo_history_posts show ?thesis by blast
qed

theorem agent_copied_witness:
  "\<exists>sv' rep. post_agent (protocol_schemas (\<lambda>b. [])) demo_draws (gw_service demo_console)
       (demo_post (rp_body (get_agent (gw_service demo_console) (demo_request\<lparr>rq_id := ''a''\<rparr>)))) = (sv', rep)
     \<and> map_option ag_background (InMemoryAgentRepository_get (sv_store sv') ''u1'') = Some True"
proof -
  obtain sv' rep where post: "post_agent (protocol_schemas (\<lambda>b. [])) demo_draws (gw_service demo_console)
      (demo_post (rp_body (get_agent (gw_service demo_console) (demo_request\<lparr>rq_id := ''a''\<rparr>)))) = (sv', rep)" by fastforce
  obtain a where a: "InMemoryAgentRepository_get (sv_store (gw_service demo_console)) ''a'' = Some a" "ag_background a"
    by (simp add: demo_console_def store_ops store_init_def new_agent_def demo_create_def Let_def)
  have "rq_id (demo_request\<lparr>rq_id := ''a''\<rparr>) = ''a''"
    "rq_body (demo_post (rp_body (get_agent (gw_service demo_console) (demo_request\<lparr>rq_id := ''a''\<rparr>))))
       = Some (rp_body (get_agent (gw_service demo_console) (demo_request\<lparr>rq_id := ''a''\<rparr>)))"
    by (simp_all add: demo_post_def)
  from agent_copied [OF demo_agents_valid a(1) this post] a(2) post show ?thesis
    by (auto simp: demo_draws_def)
qed

definition demo_poller :: "json \<Rightarrow> json" where
  "demo_poller config = JObj [(''name'', JStr ''c''), (''type'', JStr ''polling''), (''agentId'', JStr ''a''), (''config'', config),
     (''transformation'', JObj [])]"


end
