(* ===== verification/Cli_Commands.thy ===== *)
theory Cli_Commands
  imports Request_Schemas
begin

text \<open>
  The commands of the command line that talk to the gateway (\<^verbatim>\<open>packages/cli/src/commands/agent.ts\<close>, \<^verbatim>\<open>task.ts\<close>,
  \<^verbatim>\<open>run.ts\<close>, \<^verbatim>\<open>health.ts\<close>): what each asks the operator, the call it makes, what it prints and how it fails.

  The HTTP library is the argument \<open>axios\<close>: a call on the world \<open>w\<close> ends with the body of the answer or with a failure.
  The prompt library is the record \<open>prompts\<close>. Colours are a function \<open>paint\<close>, and the local form of a date text is
  \<open>localTime\<close>. A member of \<^verbatim>\<open>null\<close> throws, and a list is an array; an answer of another form than an array where a
  list is expected throws too.
\<close>

section \<open>Output and answers\<close>

datatype cli_out =
  OutLine string | OutTable "string list" "nat list" "json option list list" | SpinStart string | SpinSucceed string | SpinStop

type_synonym 'w axios = "'w \<Rightarrow> cli_call \<Rightarrow> 'w \<times> (cli_failure + json)"

record terminal =
  tm_paint :: "string \<Rightarrow> string \<Rightarrow> string"
  tm_localTime :: "json option \<Rightarrow> string"

definition type_error :: exn where "type_error = Error ''TypeError''"

definition template :: "json option \<Rightarrow> string" where
  "template v = (case v of None \<Rightarrow> ''undefined'' | Some j \<Rightarrow> json_String j)"

definition truthy_json :: "json option \<Rightarrow> bool" where
  "truthy_json v = (case v of None \<Rightarrow> False | Some j \<Rightarrow> json_truthy j)"

definition member :: "json \<Rightarrow> string \<Rightarrow> json option result" where
  "member j k = (if j = JNull then Inl type_error else Inr (json_field j k))"

text \<open>\<^verbatim>\<open>x ?? "-"\<close> in a template.\<close>

definition or_dash :: "json option \<Rightarrow> string" where
  "or_dash v = (case json_nullish v of None \<Rightarrow> ''-'' | Some j \<Rightarrow> json_String j)"

definition elements :: "json \<Rightarrow> json list result" where
  "elements j = (case j of JArr js \<Rightarrow> Inr js | _ \<Rightarrow> Inl type_error)"

text \<open>Lines are printed in order until one cannot be built.\<close>

fun print_all :: "cli_out result list \<Rightarrow> cli_out list \<times> unit result" where
  "print_all [] = ([], Inr ())"
| "print_all (Inl e # ls) = ([], Inl e)"
| "print_all (Inr l # ls) = (let (out, r) = print_all ls in (l # out, r))"

definition line_of :: "json \<Rightarrow> string \<Rightarrow> (string \<Rightarrow> string) \<Rightarrow> cli_out result" where
  "line_of j k f = map_sum id (\<lambda>v. OutLine (f (template v))) (member j k)"

definition value_line :: "json \<Rightarrow> string \<Rightarrow> (json option \<Rightarrow> string) \<Rightarrow> cli_out result" where
  "value_line j k f = map_sum id (\<lambda>v. OutLine (f v)) (member j k)"

fun all_results :: "'a result list \<Rightarrow> 'a list result" where
  "all_results [] = Inr []"
| "all_results (Inl e # rs) = Inl e"
| "all_results (Inr x # rs) = map_sum id (\<lambda>xs. x # xs) (all_results rs)"

section \<open>Prompts\<close>

record agent_answers =
  aa_name :: string
  aa_systemPrompt :: string
  aa_provider :: string
  aa_model :: string
  aa_temperature :: "int option"
  aa_tools :: string

record prompts =
  pm_input :: "string \<Rightarrow> string result"
  pm_agent :: "agent_answers result"
  pm_confirm :: "string \<Rightarrow> bool result"

definition promptTaskInput :: "prompts \<Rightarrow> string \<Rightarrow> string option \<Rightarrow> string result" where
  "promptTaskInput pm question given = (if js_truthy given then Inr (the given) else pm_input pm question)"

text \<open>The body of \<^verbatim>\<open>agent create\<close>; a temperature that is no number is sent as \<^verbatim>\<open>null\<close>.\<close>

definition agent_request :: "agent_answers \<Rightarrow> json" where
  "agent_request a = JObj [(''name'', JStr (aa_name a)), (''systemPrompt'', JStr (aa_systemPrompt a)),
     (''provider'', JObj [(''provider'', JStr (aa_provider a)), (''model'', JStr (aa_model a)),
        (''temperature'', (case aa_temperature a of Some t \<Rightarrow> JNum t | None \<Rightarrow> JNull))]),
     (''tools'', JArr (if aa_tools a \<noteq> [] then map (\<lambda>t. JStr (js_trim t)) (js_split CHR '','' (aa_tools a)) else []))]"

section \<open>The commands\<close>

datatype cli_command =
  CmdAgentCreate | CmdAgentList | CmdAgentGet ident | CmdAgentDelete ident
| CmdTaskSubmit ident "string option" | CmdTaskBackground ident "string option" | CmdTaskList | CmdTaskGet ident | CmdTaskLogs ident
| CmdTaskMessage ident "string option" "string option" | CmdTaskResume ident
| CmdRunGet ident | CmdRunLogs ident | CmdHealth

text \<open>
  What a command asks before it calls: the call it will make, nothing if the operator declines, or the failure
  of the prompt.
\<close>

definition command_call :: "prompts \<Rightarrow> cli_command \<Rightarrow> cli_call option result" where
  "command_call pm cmd =
     (case cmd of
        CmdAgentCreate \<Rightarrow> map_sum id (\<lambda>a. Some (CliCreateAgent (agent_request a))) (pm_agent pm)
      | CmdAgentList \<Rightarrow> Inr (Some CliListAgents)
      | CmdAgentGet i \<Rightarrow> Inr (Some (CliGetAgent i))
      | CmdAgentDelete i \<Rightarrow>
          map_sum id (\<lambda>yes. if yes then Some (CliDeleteAgent i) else None) (pm_confirm pm ''Are you sure you want to delete this agent?'')
      | CmdTaskSubmit i given \<Rightarrow> map_sum id (\<lambda>t. Some (CliSubmitTask i t)) (promptTaskInput pm ''Task input:'' given)
      | CmdTaskBackground i given \<Rightarrow>
          map_sum id (\<lambda>t. Some (CliBackground (JObj [(''agentId'', JStr i), (''input'', JStr t)])))
            (promptTaskInput pm ''Background task input:'' given)
      | CmdTaskList \<Rightarrow> Inr (Some CliListTasks)
      | CmdTaskGet i \<Rightarrow> Inr (Some (CliGetTask i))
      | CmdTaskLogs i \<Rightarrow> Inr (Some (CliTaskMessages i))
      | CmdTaskMessage i given role \<Rightarrow>
          map_sum id (\<lambda>t. Some (CliSendMessage i (JObj [(''content'', JStr t), (''role'', JStr (js_or role ''user''))])))
            (promptTaskInput pm ''Follow-up message:'' given)
      | CmdTaskResume i \<Rightarrow> Inr (Some (CliResume i))
      | CmdRunGet i \<Rightarrow> Inr (Some (CliGetRun i))
      | CmdRunLogs i \<Rightarrow> Inr (Some (CliRunMessages i))
      | CmdHealth \<Rightarrow> Inr (Some CliHealth))"

definition before_call :: "cli_command \<Rightarrow> cli_out list" where
  "before_call cmd =
     (case cmd of
        CmdTaskSubmit i t \<Rightarrow> [SpinStart ''Submitting task...'']
      | CmdTaskBackground i t \<Rightarrow> [SpinStart ''Creating background task...'']
      | CmdTaskMessage i t r \<Rightarrow> [SpinStart ''Sending follow-up message...'']
      | CmdTaskResume i \<Rightarrow> [SpinStart ''Resuming background task...'']
      | CmdRunLogs i \<Rightarrow> [SpinStart ''Fetching messages...'']
      | CmdHealth \<Rightarrow> [SpinStart ''Checking health...'']
      | _ \<Rightarrow> [])"

section \<open>Messages in an answer\<close>

definition ToolCallSchema :: "json \<Rightarrow> ToolCall option" where
  "ToolCallSchema j = do {
     z_object_of j;
     i \<leftarrow> required (z_text 1 None) (json_field j ''toolCallId'');
     n \<leftarrow> required (z_text 1 None) (json_field j ''toolName'');
     a \<leftarrow> required (\<lambda>x. if z_object x then Some x else None) (json_field j ''args'');
     Some \<lparr>tc_toolCallId = i, tc_toolName = n, tc_args = a\<rparr> }"

definition MessageSchema :: "json \<Rightarrow> Message option" where
  "MessageSchema j =
     (if json_field j ''role'' = Some (JStr ''system'') then map_option SystemMessage (required (z_text 0 None) (json_field j ''content''))
      else if json_field j ''role'' = Some (JStr ''user'') then map_option UserMessage (required (z_text 0 None) (json_field j ''content''))
      else if json_field j ''role'' = Some (JStr ''assistant'') then do {
        c \<leftarrow> optional (z_text 0 None) (json_field j ''content'');
        cs \<leftarrow> optional (z_array ToolCallSchema) (json_field j ''toolCalls'');
        Some (AssistantMessage c cs) }
      else if json_field j ''role'' = Some (JStr ''tool'') then do {
        i \<leftarrow> required (z_text 1 None) (json_field j ''toolCallId'');
        c \<leftarrow> required (z_text 0 None) (json_field j ''content'');
        Some (ToolMessage i c) }
      else None)"

text \<open>The client takes the answer for messages of the protocol without a check; other answers count as a \<^verbatim>\<open>TypeError\<close>.\<close>

definition messages_of :: "json \<Rightarrow> Message list result" where
  "messages_of j =
     (case elements j of
        Inl e \<Rightarrow> Inl e
      | Inr js \<Rightarrow> (case those (map MessageSchema js) of None \<Rightarrow> Inl type_error | Some ms \<Rightarrow> Inr ms))"

definition message_lines :: "terminal \<Rightarrow> Message list \<Rightarrow> cli_out list" where
  "message_lines tm ms = map (\<lambda>i. OutLine (formatRunMessage (tm_paint tm) (ms ! i) i)) [0..<length ms]"

section \<open>What a command prints\<close>

text \<open>Upper case of the letters that occur in a status.\<close>

definition js_toUpperCase :: "string \<Rightarrow> string" where
  "js_toUpperCase = map (\<lambda>c. if 97 \<le> (of_char c :: nat) \<and> (of_char c :: nat) \<le> 122 then char_of ((of_char c :: nat) - 32) else c)"

definition nested :: "json \<Rightarrow> string \<Rightarrow> string \<Rightarrow> json option result" where
  "nested j k k' = (case member j k of Inl e \<Rightarrow> Inl e | Inr None \<Rightarrow> Inl type_error | Inr (Some x) \<Rightarrow> member x k')"

definition joined_tools :: "string \<Rightarrow> json \<Rightarrow> string result" where
  "joined_tools otherwise j =
     (case member j ''tools'' of
        Inr (Some (JArr js)) \<Rightarrow>
          (let t = js_join '', '' (map (\<lambda>x. if x = JNull then [] else json_String x) js) in Inr (if t = [] then otherwise else t))
      | _ \<Rightarrow> Inl type_error)"

definition agent_cells :: "json \<Rightarrow> json option list result" where
  "agent_cells j = all_results [member j ''id'', member j ''name'', nested j ''provider'' ''provider'', nested j ''provider'' ''model'',
     map_sum id (\<lambda>t. Some (JStr t)) (joined_tools ''-'' j)]"

definition task_cells :: "terminal \<Rightarrow> json \<Rightarrow> json option list result" where
  "task_cells tm j = all_results [member j ''id'', member j ''selectedAgentId'', member j ''status'',
     map_sum id (\<lambda>v. Some (js_or (json_nullish v) (JStr ''-''))) (member j ''activeRunId''),
     map_sum id (\<lambda>v. Some (JStr (tm_localTime tm v))) (member j ''createdAt'')]"

definition table_of :: "string \<Rightarrow> string list \<Rightarrow> nat list \<Rightarrow> (json \<Rightarrow> json option list result) \<Rightarrow> json \<Rightarrow> cli_out list \<times> unit result" where
  "table_of nothing headers widths row j =
     (case elements j of
        Inl e \<Rightarrow> ([], Inl e)
      | Inr [] \<Rightarrow> ([OutLine nothing], Inr ())
      | Inr js \<Rightarrow> (case all_results (map row js) of Inl e \<Rightarrow> ([], Inl e) | Inr rows \<Rightarrow> ([OutTable headers widths rows], Inr ())))"

definition dashes :: "terminal \<Rightarrow> cli_out result" where
  "dashes tm = Inr (OutLine (tm_paint tm ''gray'' (replicate 50 CHR ''-'')))"

text \<open>\<^verbatim>\<open>value || "default"\<close>.\<close>

definition or_default :: "json option \<Rightarrow> string" where
  "or_default v = (if truthy_json v then template v else ''default'')"

definition provider_line :: "(string \<Rightarrow> string) \<Rightarrow> json \<Rightarrow> string \<Rightarrow> (json option \<Rightarrow> string) \<Rightarrow> cli_out result" where
  "provider_line put j k f = map_sum id (\<lambda>v. OutLine (put (f v))) (nested j ''provider'' k)"

definition report_agent :: "terminal \<Rightarrow> json \<Rightarrow> cli_out list \<times> unit result" where
  "report_agent tm j =
     (let bold = tm_paint tm ''bold''; named = (\<lambda>l t. bold l @ '' '' @ t)
      in print_all [Inr (OutLine (bold (CHR 0x0A # ''Agent Details:''))), dashes tm,
           line_of j ''id'' (named ''ID:''), line_of j ''name'' (named ''Name:''),
           provider_line (named ''Provider:'') j ''provider'' template, provider_line (named ''Model:'') j ''model'' template,
           provider_line (named ''Temperature:'') j ''temperature'' or_default,
           provider_line (named ''Max Tokens:'') j ''maxTokens'' or_default,
           map_sum id (\<lambda>t. OutLine (named ''Tools:'' t)) (joined_tools ''none'' j),
           Inr (OutLine (CHR 0x0A # bold ''System Prompt:'')), line_of j ''systemPrompt'' id])"

definition optional_line :: "json \<Rightarrow> string \<Rightarrow> (string \<Rightarrow> string) \<Rightarrow> cli_out result list" where
  "optional_line j k f =
     (case member j k of
        Inl e \<Rightarrow> [Inl e]
      | Inr v \<Rightarrow> if truthy_json v then [Inr (OutLine (f (template v)))] else [])"

definition pretty_line :: "json \<Rightarrow> string \<Rightarrow> cli_out result" where
  "pretty_line j k = value_line j k (\<lambda>v. case v of None \<Rightarrow> ''undefined'' | Some x \<Rightarrow> json_pretty x)"

definition report_task :: "terminal \<Rightarrow> json \<Rightarrow> cli_out list \<times> unit result" where
  "report_task tm j =
     (let bold = tm_paint tm ''bold''; named = (\<lambda>l t. bold l @ '' '' @ t); time = tm_localTime tm
      in print_all ([Inr (OutLine (bold (CHR 0x0A # ''Background Agent Task:''))), dashes tm,
           line_of j ''id'' (named ''ID:''), line_of j ''selectedAgentId'' (named ''Agent ID:''), line_of j ''status'' (named ''Status:''),
           value_line j ''activeRunId'' (\<lambda>v. named ''Active Run:'' (or_dash v)),
           value_line j ''createdAt'' (\<lambda>v. named ''Created:'' (time v)), value_line j ''updatedAt'' (\<lambda>v. named ''Updated:'' (time v))]
         @ optional_line j ''error'' (\<lambda>t. named ''Error:'' (tm_paint tm ''red'' t))
         @ [Inr (OutLine (CHR 0x0A # bold ''Initial Input:'')), line_of j ''initialInput'' id,
            Inr (OutLine (CHR 0x0A # bold ''Metadata:'')), pretty_line j ''metadata'']))"

definition report_run :: "terminal \<Rightarrow> json \<Rightarrow> cli_out list \<times> unit result" where
  "report_run tm j =
     (let bold = tm_paint tm ''bold''; named = (\<lambda>l t. bold l @ '' '' @ t); time = tm_localTime tm
      in print_all ([Inr (OutLine (bold (CHR 0x0A # ''Run Details:''))), dashes tm,
           line_of j ''id'' (named ''ID:''), line_of j ''agentId'' (named ''Agent ID:''), line_of j ''status'' (named ''Status:''),
           value_line j ''createdAt'' (\<lambda>v. named ''Created:'' (time v)), value_line j ''updatedAt'' (\<lambda>v. named ''Updated:'' (time v))]
         @ optional_line j ''error'' (\<lambda>t. named ''Error:'' (tm_paint tm ''red'' t))
         @ [Inr (OutLine (CHR 0x0A # bold ''Input:'')), line_of j ''input'' id]))"

definition status_style :: "json option \<Rightarrow> string \<times> string" where
  "status_style v =
     (if v = Some (JStr ''healthy'') then (''green'', ''OK'') else if v = Some (JStr ''degraded'') then (''yellow'', ''WARN'')
      else if v = Some (JStr ''unhealthy'') then (''red'', ''ERR'') else (''white'', ''?''))"

text \<open>\<^verbatim>\<open>Object.entries\<close>.\<close>

definition entries :: "json \<Rightarrow> (string \<times> json) list" where
  "entries j =
     (case j of JObj kvs \<Rightarrow> kvs
      | JArr js \<Rightarrow> zip (map show_nat [0..<length js]) js
      | JStr s \<Rightarrow> zip (map show_nat [0..<length s]) (map (\<lambda>c. JStr [c]) s)
      | _ \<Rightarrow> [])"

definition check_lines :: "terminal \<Rightarrow> string \<times> json \<Rightarrow> cli_out result list" where
  "check_lines tm x =
     (case member (snd x) ''status'' of
        Inl e \<Rightarrow> [Inl e]
      | Inr st \<Rightarrow>
          (let (style, icon) = status_style st
           in Inr (OutLine (tm_paint tm style (icon @ '' '' @ fst x) @ '': '' @ tm_paint tm style (template st)))
              # optional_line (snd x) ''detail'' (\<lambda>t. tm_paint tm ''dim'' (''  '' @ t))))"

definition report_health :: "terminal \<Rightarrow> json \<Rightarrow> cli_out list \<times> unit result" where
  "report_health tm j =
     print_all (Inr SpinStop #
       (case member j ''status'' of
          Inr (Some (JStr s)) \<Rightarrow>
            (let (style, icon) = status_style (Some (JStr s))
             in [Inr (OutLine (tm_paint tm (style @ ''.bold'')
                   (CHR 0x0A # icon @ '' Overall Status: '' @ js_toUpperCase s @ [CHR 0x0A])))]
                @ (if truthy_json (json_field j ''checks'')
                   then [Inr (OutLine (tm_paint tm ''bold'' ''Component Status:'')), dashes tm]
                        @ concat (map (check_lines tm) (entries (the (json_field j ''checks''))))
                   else [])
                @ [Inr (OutLine [])])
        | _ \<Rightarrow> [Inl type_error]))"

definition report :: "terminal \<Rightarrow> cli_command \<Rightarrow> json \<Rightarrow> cli_out list \<times> unit result" where
  "report tm cmd j =
     (let paint = tm_paint tm; gray = (\<lambda>l t. paint ''gray'' (l @ t))
      in case cmd of
           CmdAgentCreate \<Rightarrow> print_all [Inr (OutLine (paint ''green'' ''Agent created successfully'')), line_of j ''id'' (gray ''ID: '')]
         | CmdAgentList \<Rightarrow> table_of (paint ''yellow'' ''No agents found'') [''ID'', ''Name'', ''Provider'', ''Model'', ''Tools'']
                            [38, 20, 15, 15, 30] agent_cells j
         | CmdAgentGet i \<Rightarrow> report_agent tm j
         | CmdAgentDelete i \<Rightarrow> ([OutLine (paint ''green'' ''Agent deleted successfully'')], Inr ())
         | CmdTaskSubmit i t \<Rightarrow> print_all [Inr (SpinSucceed ''Task submitted successfully''), line_of j ''id'' (gray ''Run ID: ''),
             line_of j ''status'' (gray ''Status: ''),
             line_of j ''id'' (\<lambda>t. paint ''dim'' (CHR 0x0A # ''Use '' @ [CHR 0x27] @ ''senclaw run get '' @ t @ [CHR 0x27] @ '' to check status''))]
         | CmdTaskBackground i t \<Rightarrow> print_all [Inr (SpinSucceed ''Background task created successfully''),
             line_of j ''id'' (gray ''Task ID: ''), line_of j ''status'' (gray ''Status: ''),
             line_of j ''id'' (\<lambda>t. paint ''dim'' (CHR 0x0A # ''Use '' @ [CHR 0x27] @ ''senclaw task bg-get '' @ t @ [CHR 0x27] @ '' to inspect it''))]
         | CmdTaskList \<Rightarrow> table_of (paint ''yellow'' ''No background agent tasks found'')
                           [''ID'', ''Agent'', ''Status'', ''Active Run'', ''Created''] [38, 38, 14, 38, 24] (task_cells tm) j
         | CmdTaskGet i \<Rightarrow> report_task tm j
         | CmdTaskLogs i \<Rightarrow>
             (case messages_of j of
                Inl e \<Rightarrow> ([], Inl e)
              | Inr ms \<Rightarrow> (if ms = [] then [OutLine (paint ''yellow'' ''No transcript messages yet'')] else message_lines tm ms, Inr ()))
         | CmdTaskMessage i t r \<Rightarrow> print_all [Inr (SpinSucceed ''Follow-up message queued''), line_of j ''id'' (gray ''Message ID: ''),
             line_of j ''taskId'' (gray ''Task ID: '')]
         | CmdTaskResume i \<Rightarrow> print_all [Inr (SpinSucceed ''Background task resumed''), line_of j ''id'' (gray ''Task ID: ''),
             line_of j ''status'' (gray ''Status: ''), value_line j ''activeRunId'' (\<lambda>v. paint ''gray'' (''Active Run: '' @ or_dash v))]
         | CmdRunGet i \<Rightarrow> report_run tm j
         | CmdRunLogs i \<Rightarrow>
             (case messages_of j of
                Inl e \<Rightarrow> ([SpinStop], Inl e)
              | Inr ms \<Rightarrow>
                  (SpinStop # (if ms = [] then [OutLine (paint ''yellow'' ''No messages yet'')]
                     else [OutLine (paint ''bold'' ''Message History:''), OutLine (paint ''gray'' (replicate 50 CHR ''-''))] @ message_lines tm ms),
                   Inr ()))
         | CmdHealth \<Rightarrow> report_health tm j)"

definition cli_run ::
    "terminal \<Rightarrow> prompts \<Rightarrow> 'w axios \<Rightarrow> 'w \<Rightarrow> cli_command \<Rightarrow> 'w \<times> cli_out list \<times> unit result" where
  "cli_run tm pm axios w cmd =
     (case command_call pm cmd of
        Inl e \<Rightarrow> (w, [], withCLIErrorHandling (Inl (OtherFailure e)))
      | Inr None \<Rightarrow> (w, [OutLine (tm_paint tm ''yellow'' ''Cancelled'')], Inr ())
      | Inr (Some c) \<Rightarrow>
          (case axios w c of
             (w', Inl f) \<Rightarrow> (w', before_call cmd, withCLIErrorHandling (Inl f))
           | (w', Inr body) \<Rightarrow>
               (let (out, r) = report tm cmd body
                in (w', before_call cmd @ out, (case r of Inl e \<Rightarrow> withCLIErrorHandling (Inl (OtherFailure e)) | Inr _ \<Rightarrow> Inr ())))))"

section \<open>The gateway behind the calls\<close>

definition cli_http :: "string option \<Rightarrow> cli_call \<Rightarrow> string \<times> http_request" where
  "cli_http auth c =
     (case cli_call_request c of (m, path, data') \<Rightarrow>
        (path, \<lparr>hr_method = m, hr_url = path, hr_headers = (case auth of None \<Rightarrow> [] | Some a \<Rightarrow> [(''authorization'', a)]),
                hr_body = map_option json_stringify data'\<rparr>))"

definition cli_request :: "string \<Rightarrow> string option \<Rightarrow> cli_call \<Rightarrow> request" where
  "cli_request ip auth c = (case cli_http auth c of (path, rq) \<Rightarrow> as_request ip path rq)"

definition axios_answer :: "reply \<Rightarrow> cli_failure + json" where
  "axios_answer rep =
     (if 200 \<le> rp_status rep \<and> rp_status rep \<le> 299 then Inr (rp_body rep) else Inl (AxiosResponse (rp_status rep) (rp_body rep)))"

text \<open>What the HTTP library promises: the gateway gets the call, and its answer comes back, a failure for a failure status.\<close>

definition speaks :: "('s, 'j) gateway axios \<Rightarrow> ('s, 'j) gateway_env \<Rightarrow> (string, string) jsmap \<Rightarrow> string \<Rightarrow> string option \<Rightarrow> bool" where
  "speaks axios ge hs ip auth \<longleftrightarrow>
     (\<forall>g c g' rep. gateway_request ge hs g (cli_request ip auth c) = Some (g', Plain rep, None) \<longrightarrow> axios g c = (g', axios_answer rep))"

definition direct_axios :: "('s, 'j) gateway_env \<Rightarrow> (string, string) jsmap \<Rightarrow> string \<Rightarrow> string option \<Rightarrow> ('s, 'j) gateway axios" where
  "direct_axios ge hs ip auth g c =
     (case gateway_request ge hs g (cli_request ip auth c) of
        Some (g', Plain rep, None) \<Rightarrow> (g', axios_answer rep)
      | _ \<Rightarrow> (g, Inl AxiosNoResponse))"

lemma direct_axios_speaks: "speaks (direct_axios ge hs ip auth) ge hs ip auth"
  by (simp add: speaks_def direct_axios_def)

text \<open>A call with a key of the right role is one step of the route it leads to.\<close>

lemma cli_call_effect:
  assumes "speaks axios ge hs ip auth" and "\<forall>req. ge_limited ge req = None"
    and "caller ge g (cli_request ip auth call) = Some k" and "au_role k \<in> set (call_roles c)"
    and "find_route (cli_request ip auth call) = Some (AgentRoute c, i)"
  obtains g' rep where "axios g call = (g', axios_answer rep)"
    and "agent_handler (ge_schemas ge) (ge_environment ge) (ge_draws ge) c (gw_service g)
           ((cli_request ip auth call)\<lparr>rq_id := i, rq_apiKey := Some k\<rparr>) = (gw_service g', rep)"
proof -
  let ?req = "cli_request ip auth call"
  obtain g1 rep event where run: "gateway_request ge hs g ?req = Some (g1, rep, event)"
    using gateway_answers [OF assms(5)] by (metis not_None_eq prod_cases3)
  from run assms(5) show thesis
  proof (cases rule: gateway_request_cases)
    case refused
    with assms(3) show thesis by simp
  next
    case public
    with assms(3) show thesis by simp
  next
    case (known k' g2)
    with assms(3) have k: "k' = k" by simp
    let ?g = "g\<lparr>gw_keys := kr_updateLastUsed (ge_keyRepo ge) (ge_now ge) (gw_keys g) (au_id k)\<rparr>"
    obtain sv x where h: "agent_handler (ge_schemas ge) (ge_environment ge) (ge_draws ge) c (gw_service g) (?req\<lparr>rq_id := i, rq_apiKey := Some k\<rparr>) = (sv, x)"
      by fastforce
    have "requireRoles (call_roles c) (?req\<lparr>rq_id := i, rq_apiKey := Some k\<rparr>) = None" using assms(4) by (simp add: requireRoles_None)
    then have "guarded_handler ge hs (AgentRoute c) ?g (?req\<lparr>rq_id := i, rq_apiKey := Some k\<rparr>) = (?g\<lparr>gw_service := sv\<rparr>, Plain x, None)"
      using assms(2) h by (simp add: guarded_handler_def route_roles_def route_handler_def)
    with known(3) k have g2: "g2 = ?g\<lparr>gw_service := sv\<rparr>" "rep = Plain x" "event = None" by auto
    with run assms(1) have "axios g call = (g1, axios_answer x)" by (simp add: speaks_def)
    moreover have "gw_service g1 = sv" using known(4) g2(1) by simp
    ultimately show thesis using that h by simp
  qed
qed

text \<open>The agent that answers ask for.\<close>

definition answers_ok :: "agent_answers \<Rightarrow> bool" where
  "answers_ok a \<longleftrightarrow> aa_name a \<noteq> [] \<and> aa_systemPrompt a \<noteq> [] \<and> aa_provider a \<noteq> [] \<and> aa_model a \<noteq> []
     \<and> (\<exists>t. aa_temperature a = Some t \<and> 0 \<le> t \<and> t \<le> 2)"

definition agent_of :: "ident \<Rightarrow> agent_answers \<Rightarrow> Agent" where
  "agent_of u a = \<lparr>ag_id = u, ag_name = aa_name a, ag_systemPrompt = aa_systemPrompt a,
     ag_provider = \<lparr>pc_provider = aa_provider a, pc_model = aa_model a, pc_temperature = aa_temperature a, pc_maxTokens = None\<rparr>,
     ag_tools = (if aa_tools a = [] then [] else map js_trim (js_split CHR '','' (aa_tools a))), ag_effort = EffortMedium,
     ag_isolation = IsoShared, ag_permissionMode = ''default'', ag_mode = ModeStandard, ag_maxTurns = None, ag_background = False\<rparr>"

lemma agent_request_parsed:
  "AgentDefinitionSchema (agent_request a) = (if answers_ok a then Some (parsed_agent (agent_of u a)) else None)"
proof -
  have arr: "z_array (z_text 0 None) (JArr (map (\<lambda>t. JStr (js_trim t)) ts)) = Some (map js_trim ts)" for ts
    using z_array_strings [of "map js_trim ts"] by (simp add: comp_def)
  have tools: "with_default [] (z_array (z_text 0 None)) (json_field (agent_request a) ''tools'') = Some (ag_tools (agent_of u a))"
    using arr z_array_strings [of "[]"] by (simp add: agent_request_def json_field_def with_default_def agent_of_def)
  have fields: "z_object_of (agent_request a) = Some ()" "json_field (agent_request a) ''name'' = Some (JStr (aa_name a))"
    "json_field (agent_request a) ''systemPrompt'' = Some (JStr (aa_systemPrompt a))"
    "json_field (agent_request a) ''effort'' = None" "json_field (agent_request a) ''isolation'' = None"
    "json_field (agent_request a) ''permissionMode'' = None" "json_field (agent_request a) ''mode'' = None"
    "json_field (agent_request a) ''maxTurns'' = None" "json_field (agent_request a) ''background'' = None"
    by (simp_all add: agent_request_def json_field_def z_object_of_def z_object_def)
  have provider: "required ProviderConfigSchema (json_field (agent_request a) ''provider'') =
      (if aa_provider a \<noteq> [] \<and> aa_model a \<noteq> [] \<and> (\<exists>t. aa_temperature a = Some t \<and> 0 \<le> t \<and> t \<le> 2)
       then Some (ag_provider (agent_of u a)) else None)"
    by (cases "aa_temperature a") (auto simp: agent_request_def json_field_def required_def ProviderConfigSchema_def z_object_of_def z_object_def
        optional_def z_text_def z_number_def agent_of_def Suc_le_eq)
  show ?thesis
    unfolding AgentDefinitionSchema_def fields tools provider
    by (auto simp: required_def z_text_def with_default_def optional_def parsed_agent_def answers_ok_def agent_of_def Suc_le_eq)
qed

lemma agent_request_json: "json_ok (agent_request a)"
  by (cases "aa_temperature a") (auto simp: agent_request_def)

lemma agent_create_sent:
  shows "rq_body ((cli_request ip auth (CliCreateAgent (agent_request a)))\<lparr>rq_id := i, rq_apiKey := kk\<rparr>) = Some (agent_request a)"
    and "find_route (cli_request ip auth (CliCreateAgent (agent_request a))) = Some (AgentRoute PostAgent, [])"
proof -
  show "rq_body ((cli_request ip auth (CliCreateAgent (agent_request a)))\<lparr>rq_id := i, rq_apiKey := kk\<rparr>) = Some (agent_request a)"
    using json_parse_stringify [OF agent_request_json [of a]] by (simp add: cli_request_def cli_http_def as_request_def)
  show "find_route (cli_request ip auth (CliCreateAgent (agent_request a))) = Some (AgentRoute PostAgent, [])"
    using route_at [of "cli_request ip auth (CliCreateAgent (agent_request a))" "[''api'', ''v1'', ''agents'']"] agents_matched(1)
    by (simp add: cli_request_def cli_http_def as_request_def)
qed

lemma refused_400:
  "withCLIErrorHandling (Inl (AxiosResponse 400 (rp_body (validation_reply m is)))) = Inl (Error m)"
  by (simp add: withCLIErrorHandling_def handleAPIError_def validation_reply_def parseApiErrorPayload_def formatOperatorErrorMessage_def)

text \<open>Messages are read back as they were written.\<close>

definition message_ok :: "Message \<Rightarrow> bool" where
  "message_ok m \<longleftrightarrow> (case m of
       AssistantMessage c (Some cs) \<Rightarrow> (\<forall>x \<in> set cs. tc_toolCallId x \<noteq> [] \<and> tc_toolName x \<noteq> [] \<and> z_object (tc_args x))
     | ToolMessage i c \<Rightarrow> i \<noteq> []
     | _ \<Rightarrow> True)"

lemma call_read: "tc_toolCallId x \<noteq> [] \<Longrightarrow> tc_toolName x \<noteq> [] \<Longrightarrow> z_object (tc_args x) \<Longrightarrow> ToolCallSchema (call_body x) = Some x"
  by (simp add: ToolCallSchema_def call_body_def json_field_def required_def z_text_def z_object_of_def Suc_le_eq) (simp add: z_object_def)

lemma message_read:
  assumes "message_ok m"
  shows "MessageSchema (message_body m) = Some m"
proof (cases m)
  case (AssistantMessage c cs)
  show ?thesis
  proof (cases cs)
    case None
    with AssistantMessage show ?thesis
      by (cases c) (auto simp: MessageSchema_def message_body_def json_field_def text_field_def optional_def z_text_def)
  next
    case (Some l)
    with assms AssistantMessage have "those (map ToolCallSchema (map call_body l)) = Some l"
      using those_map_Some [of l "\<lambda>x. ToolCallSchema (call_body x)" id] call_read by (simp add: message_ok_def comp_def)
    then have "z_array ToolCallSchema (JArr (map call_body l)) = Some l" by (simp add: z_array_def)
    with AssistantMessage Some show ?thesis
      by (cases c) (auto simp: MessageSchema_def message_body_def json_field_def text_field_def optional_def z_text_def)
  qed
qed (use assms in \<open>auto simp: MessageSchema_def message_body_def json_field_def required_def z_text_def message_ok_def Suc_le_eq\<close>)

lemma messages_read: "\<forall>m \<in> set ms. message_ok m \<Longrightarrow> messages_of (JArr (map message_body ms)) = Inr ms"
  using those_map_Some [of ms "\<lambda>m. MessageSchema (message_body m)" id] message_read by (simp add: messages_of_def elements_def comp_def)

section \<open>Properties\<close>


text \<open>
  \<^verbatim>\<open>senclaw health\<close> on an unhealthy gateway. The gateway answers with status 503, which the HTTP library takes
  for a failure: the command fails with the status code, and neither the state of the gateway nor that of its parts is
  ever printed.
\<close>

theorem cli_unhealthy_not_shown:
  assumes "speaks axios ge hs ip auth" and "health_loop (ge_checks ge) [] Healthy = Inr (results, Unhealthy)"
  shows "cli_run tm pm axios g CmdHealth = (g, [SpinStart ''Checking health...''], Inl (Error ''API error: 503''))"
proof -
  let ?req = "cli_request ip auth CliHealth"
  have url: "rq_url ?req = ''/health''" "rq_method ?req = ''GET''" by (simp_all add: cli_request_def cli_http_def as_request_def)
  have public: "isPublicRoute (rq_url ?req)"
  proof -
    have "isPublicRoute ''/health''" by code_simp
    then show ?thesis by (simp add: url)
  qed
  have route: "find_route ?req = Some (HealthRoute, [])"
    using route_at [of ?req "[''health'']"] match_public_paths(1) url by simp
  have body: "get_health (ge_checks ge) = ok_reply 503 (JObj ([(''status'', JStr ''unhealthy'')]
      @ (if results \<noteq> [] then [(''details'', JObj (map (map_prod id health_result_body) results))] else [])))"
    using assms(2) by (simp add: get_health_def health_text_def)
  have "gateway_request ge hs g ?req = Some (g, Plain (get_health (ge_checks ge)), None)"
    using gateway_public [OF public route, of ge hs g] by (simp add: route_roles_def route_handler_def)
  with assms(1) have "axios g CliHealth = (g, axios_answer (get_health (ge_checks ge)))" by (simp add: speaks_def)
  moreover have "show_int 503 = ''503''" by code_simp
  ultimately show ?thesis
    by (simp add: cli_run_def command_call_def before_call_def body axios_answer_def ok_reply_def withCLIErrorHandling_def handleAPIError_def
        parseApiErrorPayload_def formatOperatorErrorMessage_def)
qed

text \<open>
  \<^verbatim>\<open>senclaw task bg-logs\<close> through the gateway prints the transcript of the task: every message once, in order and with
  its number, or that there is none yet. It changes nothing in the service; for a task the gateway does not have it fails
  and says so.
\<close>

theorem cli_logs_exact:
  assumes "speaks axios ge hs ip auth" and "\<forall>req. ge_limited ge req = None" and "plain_ident i"
    and "caller ge g (cli_request ip auth (CliTaskMessages i)) = Some k"
    and "\<forall>m \<in> set (getAgentTaskMessages (gw_service g) i). message_ok m"
    and "cli_run tm pm axios g (CmdTaskLogs i) = (g', out, r)"
  shows "gw_service g' = gw_service g
    \<and> (case task_get (sv_store (gw_service g)) i of
         None \<Rightarrow> out = [] \<and> r = Inl (Error (quoted_not_found ''Agent task'' i))
       | Some t \<Rightarrow> r = Inr () \<and>
           (let ms = getAgentTaskMessages (gw_service g) i
            in out = (if ms = [] then [OutLine (tm_paint tm ''yellow'' ''No transcript messages yet'')]
                      else map (\<lambda>n. OutLine (formatRunMessage (tm_paint tm) (ms ! n) n)) [0..<length ms])))"
proof -
  let ?call = "CliTaskMessages i"
  have roles: "au_role k \<in> set (call_roles GetTaskMessages)" by (cases "au_role k") (simp_all add: call_roles_def readRoles_def)
  have route: "find_route (cli_request ip auth ?call) = Some (AgentRoute GetTaskMessages, i)"
    using route_at [of "cli_request ip auth ?call" "[''api'', ''v1'', ''agent-tasks'', i, ''messages'']"] tasks_matched(3) [of i] assms(3)
    by (simp add: cli_request_def cli_http_def as_request_def plain_ident_def)
  from assms(1,2,4) roles route obtain g1 rep where ax: "axios g ?call = (g1, axios_answer rep)"
    and h: "agent_handler (ge_schemas ge) (ge_environment ge) (ge_draws ge) GetTaskMessages (gw_service g)
        ((cli_request ip auth ?call)\<lparr>rq_id := i, rq_apiKey := Some k\<rparr>) = (gw_service g1, rep)"
    by (rule cli_call_effect)
  have run: "(g', out, r) = (case (g1, axios_answer rep) of
      (w', Inl f) \<Rightarrow> (w', [], withCLIErrorHandling (Inl f))
    | (w', Inr body) \<Rightarrow> (let (out, r) = report tm (CmdTaskLogs i) body
        in (w', out, (case r of Inl e \<Rightarrow> withCLIErrorHandling (Inl (OtherFailure e)) | Inr _ \<Rightarrow> Inr ()))))"
    using assms(6) by (simp add: cli_run_def command_call_def ax before_call_def)
  from h have sv: "gw_service g1 = gw_service g"
    and rep: "rep = (case task_get (sv_store (gw_service g)) i of
        None \<Rightarrow> error_reply 404 ''NOT_FOUND'' (quoted_not_found ''Agent task'' i)
      | Some t \<Rightarrow> ok_reply 200 (JArr (map message_body (getAgentTaskMessages (gw_service g) i))))"
    by (auto simp: get_task_messages_def split: option.splits)
  show ?thesis
  proof (cases "task_get (sv_store (gw_service g)) i")
    case None
    with run rep sv show ?thesis
      by (simp add: axios_answer_def error_reply_def withCLIErrorHandling_def handleAPIError_def parseApiErrorPayload_def
          formatOperatorErrorMessage_def)
  next
    case (Some t)
    with run rep sv show ?thesis
      by (simp add: axios_answer_def ok_reply_def report_def messages_read [OF assms(5)] message_lines_def Let_def split: if_splits)
  qed
qed

definition demo_terminal :: terminal where
  "demo_terminal = \<lparr>tm_paint = (\<lambda>s t. t), tm_localTime = (\<lambda>v. [])\<rparr>"

definition demo_answers :: "int option \<Rightarrow> agent_answers" where
  "demo_answers t = \<lparr>aa_name = ''n'', aa_systemPrompt = ''s'', aa_provider = ''p'', aa_model = ''m'', aa_temperature = t, aa_tools = ''x, y''\<rparr>"

definition demo_prompts :: "int option \<Rightarrow> prompts" where
  "demo_prompts t = \<lparr>pm_input = (\<lambda>q. Inr ''go''), pm_agent = Inr (demo_answers t), pm_confirm = (\<lambda>q. Inr False)\<rparr>"

definition demo_auth :: "string option" where
  "demo_auth = Some (''Bearer '' @ generateApiKey [])"

abbreviation "demo_axios \<equiv> direct_axios demo_protocol_env [] ''ip'' demo_auth"

lemma demo_callers:
  "map_option au_role (caller demo_protocol_env demo_console (cli_request ''ip'' demo_auth (CliCreateAgent (agent_request (demo_answers (Some 1)))))) = Some RoleUserKey"
  "map_option au_role (caller demo_protocol_env demo_console (cli_request ''ip'' demo_auth (CliTaskMessages ''t''))) = Some RoleUserKey"
  by code_simp+

lemma demo_unlimited: "\<forall>req. ge_limited demo_protocol_env req = None"
  by (simp add: demo_protocol_env_def demo_gateway_env_def)


definition demo_sick_env :: "(ApiKeyRecord list, sched_db) gateway_env" where
  "demo_sick_env = demo_gateway_env\<lparr>ge_checks := [(''storage'', Inr \<lparr>hc_status = Unhealthy, hc_detail = Some ''disk''\<rparr>)]\<rparr>"

theorem cli_unhealthy_not_shown_witness:
  "cli_run demo_terminal (demo_prompts None) (direct_axios demo_sick_env [] ''ip'' None) demo_gateway CmdHealth
     = (demo_gateway, [SpinStart ''Checking health...''], Inl (Error ''API error: 503''))"
  by (rule cli_unhealthy_not_shown [OF direct_axios_speaks, where results = "[(''storage'', \<lparr>hc_status = Unhealthy, hc_detail = Some ''disk''\<rparr>)]"])
    (simp add: demo_sick_env_def)

theorem cli_logs_exact_witness:
  "\<exists>g' out. cli_run demo_terminal (demo_prompts None) demo_axios demo_console (CmdTaskLogs ''t'')
     = (g', out, Inl (Error (quoted_not_found ''Agent task'' ''t'')))"
proof -
  obtain g' out r where run: "cli_run demo_terminal (demo_prompts None) demo_axios demo_console (CmdTaskLogs ''t'') = (g', out, r)"
    by (metis prod_cases3)
  obtain k where k: "caller demo_protocol_env demo_console (cli_request ''ip'' demo_auth (CliTaskMessages ''t'')) = Some k"
    using demo_callers(2) by auto
  have plain: "plain_ident ''t''" by (simp add: plain_ident_def)
  have none: "\<forall>m \<in> set (getAgentTaskMessages (gw_service demo_console) ''t''). message_ok m"
    "task_get (sv_store (gw_service demo_console)) ''t'' = None"
    by (simp_all add: getAgentTaskMessages_def demo_console_def store_ops store_init_def Let_def)
  from cli_logs_exact [OF direct_axios_speaks demo_unlimited plain k none(1) run] none(2) run show ?thesis by simp
qed

end
