(* ===== verification/Web_Pages.thy ===== *)
theory Web_Pages
  imports Request_Schemas
begin

text \<open>
  The state behind the pages of the console (\<^verbatim>\<open>apps/web/src/pages\<close>, \<^verbatim>\<open>apps/web/src/components\<close>): forms, the keys of
  rendered lists, the locale, the session and the approval inbox. Each component is its record of state and the steps
  its event handlers take; what is drawn from the state is left out.

  The mutations of the query library keep the variables of their latest call and are under way until answered; a button
  that is loading or disabled takes no clicks, and a form with an empty required member is not submitted. How the
  browser reads numbers is the argument \<open>number_reader\<close>; no number is the value \<open>None\<close>, which is written as \<^verbatim>\<open>null\<close>.
\<close>

section \<open>Loading and failing\<close>

datatype page_view = ViewSpinner | ViewError ConsoleErrorState | ViewContent

definition QueryStateBoundary :: "zh_texts \<Rightarrow> bool \<Rightarrow> console_error option \<Rightarrow> ConsoleLocale \<Rightarrow> page_view" where
  "QueryStateBoundary zh isLoading error loc =
     (if isLoading then ViewSpinner
      else case error of Some e \<Rightarrow> ViewError (describeConsoleError zh e loc) | None \<Rightarrow> ViewContent)"

section \<open>The form of a new agent\<close>

record number_reader =
  nr_parseFloat :: "string \<Rightarrow> int option"
  nr_parseInt :: "string \<Rightarrow> int option"

record agent_form =
  fm_name :: string
  fm_systemPrompt :: string
  fm_provider :: string
  fm_model :: string
  fm_temperature :: "int option"
  fm_maxTokens :: "int option option"
  fm_tools :: "string list"

definition empty_form :: "int \<Rightarrow> agent_form" where
  "empty_form temperature = \<lparr>fm_name = [], fm_systemPrompt = [], fm_provider = ''openai'', fm_model = ''gpt-4'',
     fm_temperature = Some temperature, fm_maxTokens = None, fm_tools = []\<rparr>"

definition tools_of_text :: "string \<Rightarrow> string list" where
  "tools_of_text t = filter (\<lambda>x. x \<noteq> []) (map js_trim (js_split CHR '','' t))"

text \<open>What the controlled input shows.\<close>

definition tools_field :: "agent_form \<Rightarrow> string" where
  "tools_field f = js_join '', '' (fm_tools f)"

datatype form_event =
  FormName string | FormPrompt string | FormProvider string | FormModel string | FormTemperature string | FormMaxTokens string
| FormTools string

fun form_change :: "number_reader \<Rightarrow> form_event \<Rightarrow> agent_form \<Rightarrow> agent_form" where
  "form_change nr (FormName t) f = f\<lparr>fm_name := t\<rparr>"
| "form_change nr (FormPrompt t) f = f\<lparr>fm_systemPrompt := t\<rparr>"
| "form_change nr (FormProvider t) f = f\<lparr>fm_provider := t\<rparr>"
| "form_change nr (FormModel t) f = f\<lparr>fm_model := t\<rparr>"
| "form_change nr (FormTemperature t) f = f\<lparr>fm_temperature := nr_parseFloat nr t\<rparr>"
| "form_change nr (FormMaxTokens t) f = f\<lparr>fm_maxTokens := (if t = [] then None else Some (nr_parseInt nr t))\<rparr>"
| "form_change nr (FormTools t) f = f\<lparr>fm_tools := tools_of_text t\<rparr>"

text \<open>A key typed at the end of the input for the tools: the browser puts it behind what the input shows.\<close>

definition type_tool_key :: "number_reader \<Rightarrow> char \<Rightarrow> agent_form \<Rightarrow> agent_form" where
  "type_tool_key nr c f = form_change nr (FormTools (tools_field f @ [c])) f"

definition number_json :: "int option \<Rightarrow> json" where
  "number_json v = (case v of Some i \<Rightarrow> JNum i | None \<Rightarrow> JNull)"

definition form_json :: "agent_form \<Rightarrow> json" where
  "form_json f = JObj [(''name'', JStr (fm_name f)), (''systemPrompt'', JStr (fm_systemPrompt f)),
     (''provider'', JObj ([(''provider'', JStr (fm_provider f)), (''model'', JStr (fm_model f)), (''temperature'', number_json (fm_temperature f))]
        @ (case fm_maxTokens f of None \<Rightarrow> [] | Some n \<Rightarrow> [(''maxTokens'', number_json n)]))),
     (''tools'', JArr (map JStr (fm_tools f)))]"

record create_page =
  cp_form :: agent_form
  cp_error :: "console_error option"
  cp_left :: "string option"

definition AgentCreate_handleSubmit ::
    "url_parser \<Rightarrow> 'w fetch \<Rightarrow> StorageLike option \<Rightarrow> 'w \<Rightarrow> create_page \<Rightarrow> 'w \<times> create_page" where
  "AgentCreate_handleSubmit newURL fetch storage w p =
     (case console_run_call newURL fetch storage w (AgentCreate (form_json (cp_form p))) of
        (w', Inl e) \<Rightarrow> (w', p\<lparr>cp_error := Some e\<rparr>)
      | (w', Inr _) \<Rightarrow> (w', p\<lparr>cp_error := None, cp_left := Some ''/agents''\<rparr>))"

section \<open>Submitting a task\<close>

record task_page =
  tp_agentId :: ident
  tp_input :: string
  tp_error :: "console_error option"
  tp_run :: "ident option"
  tp_pending :: bool
  tp_sent :: "(ident \<times> string) list"

definition task_page_start :: "string option \<Rightarrow> task_page" where
  "task_page_start param = \<lparr>tp_agentId = js_or param [], tp_input = [], tp_error = None, tp_run = None, tp_pending = False, tp_sent = []\<rparr>"

datatype task_page_event =
  AgentsArrive "ident list" | ChooseAgent ident | TypeInput string | PressSubmit | SubmitAnswer "console_error + ident" | DismissError

fun task_page_step :: "task_page_event \<Rightarrow> task_page \<Rightarrow> task_page option" where
  "task_page_step (AgentsArrive ids) p = Some (if ids \<noteq> [] \<and> tp_agentId p = [] then p\<lparr>tp_agentId := hd ids\<rparr> else p)"
| "task_page_step (ChooseAgent i) p = Some (p\<lparr>tp_agentId := i\<rparr>)"
| "task_page_step (TypeInput t) p = Some (p\<lparr>tp_input := t\<rparr>)"
| "task_page_step PressSubmit p =
     (if tp_pending p \<or> tp_agentId p = [] \<or> tp_input p = [] then None
      else Some (p\<lparr>tp_error := None, tp_run := None, tp_pending := True, tp_sent := tp_sent p @ [(tp_agentId p, tp_input p)]\<rparr>))"
| "task_page_step (SubmitAnswer r) p =
     (if \<not> tp_pending p then None
      else Some (case r of Inr i \<Rightarrow> p\<lparr>tp_pending := False, tp_run := Some i\<rparr> | Inl e \<Rightarrow> p\<lparr>tp_pending := False, tp_error := Some e\<rparr>))"
| "task_page_step DismissError p = Some (p\<lparr>tp_error := None\<rparr>)"

section \<open>Keys of messages\<close>

definition role_name :: "Message \<Rightarrow> string" where
  "role_name m = (case m of SystemMessage _ \<Rightarrow> ''system'' | UserMessage _ \<Rightarrow> ''user'' | AssistantMessage _ _ \<Rightarrow> ''assistant''
     | ToolMessage _ _ \<Rightarrow> ''tool'')"

definition message_parts :: "Message \<Rightarrow> string list" where
  "message_parts m = [role_name m, (case m of ToolMessage i _ \<Rightarrow> i | _ \<Rightarrow> []), (case message_text m of Some t \<Rightarrow> t | None \<Rightarrow> []),
     (case m of AssistantMessage _ (Some cs) \<Rightarrow> js_join '','' (map tc_toolCallId cs) | _ \<Rightarrow> [])]"

definition createMessageKey :: "Message \<Rightarrow> nat \<Rightarrow> string" where
  "createMessageKey m i = js_join ''|'' (message_parts m @ [show_nat i])"

definition base_key :: "Message \<Rightarrow> string" where
  "base_key m = js_join ''|'' (message_parts m)"

fun key_messages :: "(string, nat) jsmap \<Rightarrow> Message list \<Rightarrow> (string \<times> Message) list" where
  "key_messages counts [] = []"
| "key_messages counts (m # ms) =
     (let b = base_key m; occurrence = (case jm_get counts b of Some n \<Rightarrow> n | None \<Rightarrow> 0)
      in (b @ ''|'' @ show_nat occurrence, m) # key_messages (jm_set counts b (occurrence + 1)) ms)"

definition keyedMessages :: "Message list \<Rightarrow> (string \<times> Message) list" where
  "keyedMessages ms = key_messages [] ms"

definition task_message_key :: "Message \<Rightarrow> nat \<Rightarrow> string" where
  "task_message_key m i = role_name m @ ''-'' @ (case message_text m of Some t \<Rightarrow> t | None \<Rightarrow> []) @ ''-'' @ show_nat i"

section \<open>Writing to a background task\<close>

record detail_page =
  dp_input :: string
  dp_pending :: bool
  dp_sent :: "string list"

datatype detail_event = DetailType string | DetailSend | DetailAnswer bool

fun detail_step :: "detail_event \<Rightarrow> detail_page \<Rightarrow> detail_page option" where
  "detail_step (DetailType t) p = Some (p\<lparr>dp_input := t\<rparr>)"
| "detail_step DetailSend p =
     (if dp_pending p \<or> js_trim (dp_input p) = [] then None
      else Some (p\<lparr>dp_pending := True, dp_sent := dp_sent p @ [js_trim (dp_input p)]\<rparr>))"
| "detail_step (DetailAnswer ok) p =
     (if \<not> dp_pending p then None else Some (if ok then p\<lparr>dp_pending := False, dp_input := []\<rparr> else p\<lparr>dp_pending := False\<rparr>))"

section \<open>The locale of the console\<close>

record locale_state =
  ls_locale :: ConsoleLocale
  ls_storage :: "StorageLike option"
  ls_cancelled :: bool
  ls_told :: "ConsoleLocale list"

definition LocaleProvider_start :: "StorageLike option \<Rightarrow> locale_state" where
  "LocaleProvider_start storage = \<lparr>ls_locale = loadStoredLocale storage, ls_storage = storage, ls_cancelled = False, ls_told = []\<rparr>"

text \<open>The answer of \<^verbatim>\<open>loadRuntimeLocale\<close>, the choices of the user, and the end of the component.\<close>

datatype locale_event = LoadAnswer "ConsoleLocale result" | SetLocale ConsoleLocale | ToggleLocale | EndProvider

definition apply_locale :: "ConsoleLocale \<Rightarrow> locale_state \<Rightarrow> locale_state" where
  "apply_locale loc s = (let (st, saved) = saveStoredLocale loc (ls_storage s) in s\<lparr>ls_storage := st, ls_locale := saved\<rparr>)"

definition setLocale :: "ConsoleLocale \<Rightarrow> locale_state \<Rightarrow> locale_state" where
  "setLocale loc s = (let s' = apply_locale loc s in s'\<lparr>ls_told := ls_told s' @ [ls_locale s']\<rparr>)"

fun locale_step :: "locale_event \<Rightarrow> locale_state \<Rightarrow> locale_state" where
  "locale_step (LoadAnswer (Inr loc)) s = (if ls_cancelled s then s else apply_locale loc s)"
| "locale_step (LoadAnswer (Inl e)) s = s"
| "locale_step (SetLocale loc) s = setLocale loc s"
| "locale_step ToggleLocale s = setLocale (if ls_locale s = LocaleEn then LocaleZhCN else LocaleEn) s"
| "locale_step EndProvider s = s\<lparr>ls_cancelled := True\<rparr>"

section \<open>The session in the header\<close>

datatype session_state = SessionConfigured | SessionMissing | SessionSaved | SessionCleared

record layout =
  al_storage :: StorageLike
  al_input :: string
  al_key :: string
  al_session :: session_state
  al_darkMode :: json
  al_refreshed :: nat

definition key_or_empty :: "StorageLike \<Rightarrow> string" where
  "key_or_empty m = (case loadStoredApiKey (Some m) of Some k \<Rightarrow> k | None \<Rightarrow> [])"

text \<open>The dark mode as it was stored; a text that is no JSON makes the header throw.\<close>

definition stored_dark_mode :: "StorageLike \<Rightarrow> json option" where
  "stored_dark_mode m = (let saved = jm_get m ''darkMode'' in if js_truthy saved then json_parse (the saved) else Some (JBool False))"

definition write_dark_mode :: "layout \<Rightarrow> layout" where
  "write_dark_mode s = s\<lparr>al_storage := jm_set (al_storage s) ''darkMode'' (json_stringify (al_darkMode s))\<rparr>"

definition import_key :: "(string \<Rightarrow> string \<Rightarrow> string option) \<Rightarrow> string \<Rightarrow> layout \<Rightarrow> layout" where
  "import_key searchParam hash s =
     (case importApiKeyFromHash searchParam hash (Some (al_storage s)) of
        (Some m, Some k) \<Rightarrow> s\<lparr>al_storage := m, al_key := k, al_input := k, al_session := SessionSaved, al_refreshed := al_refreshed s + 1\<rparr>
      | _ \<Rightarrow> s)"

text \<open>The header after its first effects.\<close>

definition AppLayout_mount :: "(string \<Rightarrow> string \<Rightarrow> string option) \<Rightarrow> string \<Rightarrow> StorageLike \<Rightarrow> json \<Rightarrow> layout" where
  "AppLayout_mount searchParam hash m dark = write_dark_mode (import_key searchParam hash
     \<lparr>al_storage = m, al_input = key_or_empty m, al_key = key_or_empty m,
      al_session = (if key_or_empty m = [] then SessionMissing else SessionConfigured), al_darkMode = dark, al_refreshed = 0\<rparr>)"

definition AppLayout_start :: "(string \<Rightarrow> string \<Rightarrow> string option) \<Rightarrow> string \<Rightarrow> StorageLike \<Rightarrow> layout option" where
  "AppLayout_start searchParam hash m = map_option (AppLayout_mount searchParam hash m) (stored_dark_mode m)"

datatype layout_event = TypeKey string | SaveKey | ClearKey | ToggleDark

fun layout_step :: "layout_event \<Rightarrow> layout \<Rightarrow> layout option" where
  "layout_step (TypeKey t) s = Some (s\<lparr>al_input := t\<rparr>)"
| "layout_step SaveKey s =
     (case saveStoredApiKey (al_input s) (Some (al_storage s)) of
        (st, saved) \<Rightarrow>
          (let k = (case saved of Some k \<Rightarrow> k | None \<Rightarrow> [])
           in Some (s\<lparr>al_storage := the st, al_key := k, al_input := k,
                      al_session := (if k = [] then SessionCleared else SessionSaved), al_refreshed := al_refreshed s + 1\<rparr>)))"
| "layout_step ClearKey s =
     (if al_key s = [] then None
      else Some (s\<lparr>al_storage := the (clearStoredApiKey (Some (al_storage s))), al_key := [], al_input := [], al_session := SessionCleared,
                   al_refreshed := al_refreshed s + 1\<rparr>))"
| "layout_step ToggleDark s = Some (write_dark_mode (s\<lparr>al_darkMode := JBool (\<not> json_truthy (al_darkMode s))\<rparr>))"

section \<open>The approval inbox\<close>

record inbox =
  ib_open :: bool
  ib_approved :: "ident option"
  ib_rejected :: "ident option"

definition inbox_start :: inbox where
  "inbox_start = \<lparr>ib_open = False, ib_approved = None, ib_rejected = None\<rparr>"

definition busyId :: "inbox \<Rightarrow> ident option" where
  "busyId b = (case ib_approved b of Some i \<Rightarrow> Some i | None \<Rightarrow> ib_rejected b)"

datatype inbox_event = ToggleInbox | ClickApprove ident | ClickReject ident

text \<open>The buttons of the busy request are disabled.\<close>

fun inbox_step :: "inbox_event \<Rightarrow> inbox \<Rightarrow> inbox option" where
  "inbox_step ToggleInbox b = Some (b\<lparr>ib_open := \<not> ib_open b\<rparr>)"
| "inbox_step (ClickApprove i) b = (if \<not> ib_open b \<or> busyId b = Some i then None else Some (b\<lparr>ib_approved := Some i\<rparr>))"
| "inbox_step (ClickReject i) b = (if \<not> ib_open b \<or> busyId b = Some i then None else Some (b\<lparr>ib_rejected := Some i\<rparr>))"

definition formatTargets :: "ApprovalRequest \<Rightarrow> string" where
  "formatTargets a = (if ap_targetPaths a \<noteq> [] then js_join '', '' (ap_targetPaths a) else ap_requestedBy a)"


section \<open>Lemmas\<close>

definition tool_char :: "char \<Rightarrow> bool" where
  "tool_char c \<longleftrightarrow> c \<noteq> CHR '','' \<and> \<not> js_space c"

lemma trim_clean:
  assumes "\<forall>c \<in> set t. tool_char c"
  shows "js_trim t = t" and "js_space c \<Longrightarrow> js_trim (t @ [c]) = t"
proof -
  have none: "dropWhile js_space u = u" if "\<forall>c \<in> set u. tool_char c" for u
    using that by (cases u) (auto simp: tool_char_def)
  show "js_trim t = t" using none [OF assms] none [of "rev t"] assms by (simp add: js_trim_def)
  show "js_trim (t @ [c]) = t" if "js_space c"
    using none [OF assms] none [of "rev t"] assms that by (cases t) (auto simp: js_trim_def tool_char_def)
qed

lemma comma_no_space: "\<not> js_space CHR '',''"
  by (simp add: js_space_def)

text \<open>One more key behind a single clean name.\<close>

lemma tools_key:
  assumes "\<forall>c \<in> set t. tool_char c"
  shows "tools_of_text (t @ [c]) = (let u = t @ filter tool_char [c] in if u = [] then [] else [u])"
proof -
  have clean: "CHR '','' \<notin> set t" using assms by (auto simp: tool_char_def)
  consider (comma) "c = CHR '',''" | (space) "c \<noteq> CHR '',''" "js_space c" | (plain) "tool_char c" by (auto simp: tool_char_def)
  then show ?thesis
  proof cases
    case comma
    then show ?thesis using js_split_append [OF clean, of "[]"] trim_clean(1) [OF assms] by (simp add: tools_of_text_def tool_char_def)
  next
    case space
    have "CHR '','' \<notin> set (t @ [c])" using clean space(1) by auto
    from js_split_noop [OF this] show ?thesis using trim_clean(2) [OF assms space(2)] space by (simp add: tools_of_text_def tool_char_def)
  next
    case plain
    have all: "\<forall>x \<in> set (t @ [c]). tool_char x" using assms plain by auto
    then have "CHR '','' \<notin> set (t @ [c])" by (auto simp: tool_char_def)
    from js_split_noop [OF this] show ?thesis using trim_clean(1) [OF all] plain by (simp add: tools_of_text_def)
  qed
qed

lemma split_join_names:
  "ts \<noteq> [] \<Longrightarrow> \<forall>t \<in> set ts. t \<noteq> [] \<and> (\<forall>c \<in> set t. tool_char c) \<Longrightarrow> tools_of_text (js_join '', '' ts) = ts"
proof (induction "'', ''" ts rule: js_join.induct)
  case (2 x)
  then have "CHR '','' \<notin> set x" by (auto simp: tool_char_def)
  from js_split_noop [OF this] show ?case using 2 trim_clean(1) [of x] by (simp add: tools_of_text_def)
next
  case (3 x y r)
  then have x: "CHR '','' \<notin> set x" by (auto simp: tool_char_def)
  have "map js_trim (js_split CHR '','' (CHR '' '' # u)) = map js_trim (js_split CHR '','' u)" for u
    by (cases "js_split CHR '','' u") (auto simp: js_trim_def js_space_def)
  then have "tools_of_text (CHR '' '' # u) = tools_of_text u" for u by (simp add: tools_of_text_def)
  moreover have "tools_of_text (x @ '', '' @ u) = x # tools_of_text (CHR '' '' # u)" for u
    using js_split_append [OF x, of "CHR '' '' # u"] 3(3) trim_clean(1) [of x] by (simp add: tools_of_text_def)
  ultimately show ?case using 3 by simp
qed simp

text \<open>Which forms the gateway takes.\<close>

definition form_ok :: "agent_form \<Rightarrow> bool" where
  "form_ok f \<longleftrightarrow> fm_name f \<noteq> [] \<and> fm_systemPrompt f \<noteq> [] \<and> fm_provider f \<noteq> [] \<and> fm_model f \<noteq> []
     \<and> (\<exists>t. fm_temperature f = Some t \<and> 0 \<le> t \<and> t \<le> 2)
     \<and> (\<forall>n. fm_maxTokens f = Some n \<longrightarrow> (\<exists>i. n = Some i \<and> 1 \<le> i \<and> i \<le> max_safe))"

definition form_agent :: "ident \<Rightarrow> agent_form \<Rightarrow> Agent" where
  "form_agent u f = \<lparr>ag_id = u, ag_name = fm_name f, ag_systemPrompt = fm_systemPrompt f,
     ag_provider = \<lparr>pc_provider = fm_provider f, pc_model = fm_model f, pc_temperature = fm_temperature f,
                    pc_maxTokens = (case fm_maxTokens f of Some (Some i) \<Rightarrow> Some (nat i) | _ \<Rightarrow> None)\<rparr>,
     ag_tools = fm_tools f, ag_effort = EffortMedium, ag_isolation = IsoShared, ag_permissionMode = ''default'',
     ag_mode = ModeStandard, ag_maxTurns = None, ag_background = False\<rparr>"

lemma form_members:
  "z_object_of (form_json f) = Some ()" "json_field (form_json f) ''name'' = Some (JStr (fm_name f))"
  "json_field (form_json f) ''systemPrompt'' = Some (JStr (fm_systemPrompt f))"
  "json_field (form_json f) ''tools'' = Some (JArr (map JStr (fm_tools f)))"
  "json_field (form_json f) ''effort'' = None" "json_field (form_json f) ''isolation'' = None"
  "json_field (form_json f) ''permissionMode'' = None" "json_field (form_json f) ''mode'' = None"
  "json_field (form_json f) ''maxTurns'' = None" "json_field (form_json f) ''background'' = None"
  by (simp_all add: form_json_def json_field_def z_object_of_def z_object_def)

lemma form_provider:
  "required ProviderConfigSchema (json_field (form_json f) ''provider'') =
     (if fm_provider f \<noteq> [] \<and> fm_model f \<noteq> [] \<and> (\<exists>t. fm_temperature f = Some t \<and> 0 \<le> t \<and> t \<le> 2)
        \<and> (\<forall>n. fm_maxTokens f = Some n \<longrightarrow> (\<exists>i. n = Some i \<and> 1 \<le> i \<and> i \<le> max_safe))
      then Some (ag_provider (form_agent u f)) else None)"
  by (cases "fm_temperature f"; cases "fm_maxTokens f")
    (auto simp: form_json_def json_field_def required_def ProviderConfigSchema_def z_object_of_def z_object_def number_json_def
      optional_def z_text_def z_number_def z_nat_def form_agent_def Suc_le_eq split: option.splits)

text \<open>Keys that end with a number.\<close>

lemma numbered_key_inj:
  assumes "\<not> is_digit c" and "a @ c # show_nat m = b @ c # show_nat n"
  shows "a = b \<and> m = n"
proof -
  have digits: "takeWhile is_digit (rev (a @ c # show_nat m)) = rev (show_nat m)" for a m
  proof -
    have "takeWhile is_digit (rev (show_nat m) @ c # rev a) = rev (show_nat m) @ takeWhile is_digit (c # rev a)"
      by (rule takeWhile_append2) (simp add: show_nat_digits)
    with assms(1) show ?thesis by simp
  qed
  from assms(2) have "rev (show_nat m) = rev (show_nat n)" using digits by metis
  then have s: "show_nat m = show_nat n" by simp
  with assms(2) show ?thesis by (metis append_same_eq digits_val_show)
qed

abbreviation counted :: "(string, nat) jsmap \<Rightarrow> string \<Rightarrow> nat" where
  "counted counts b \<equiv> (case jm_get counts b of Some n \<Rightarrow> n | None \<Rightarrow> 0)"

lemma key_messages_from:
  "k \<in> set (map fst (key_messages counts ms)) \<Longrightarrow> \<exists>b n. k = b @ ''|'' @ show_nat n \<and> counted counts b \<le> n"
proof (induction counts ms rule: key_messages.induct)
  case (2 counts m ms)
  let ?b = "base_key m" and ?counts = "jm_set counts (base_key m) (counted counts (base_key m) + 1)"
  have more: "counted counts b \<le> counted ?counts b" for b by (simp add: jm_get_set)
  from 2(2) consider "k = ?b @ ''|'' @ show_nat (counted counts ?b)" | "k \<in> set (map fst (key_messages ?counts ms))"
    by (auto simp: Let_def)
  then show ?case
  proof cases
    case 1
    then show ?thesis by blast
  next
    case 2
    then obtain b n where "k = b @ ''|'' @ show_nat n" "counted ?counts b \<le> n"
      using "2.IH" [OF refl refl] by blast
    with more [of b] show ?thesis using le_trans by blast
  qed
qed simp

lemma key_messages_distinct: "distinct (map fst (key_messages counts ms))"
proof (induction counts ms rule: key_messages.induct)
  case (2 counts m ms)
  let ?b = "base_key m" and ?counts = "jm_set counts (base_key m) (counted counts (base_key m) + 1)"
  have "?b @ ''|'' @ show_nat (counted counts ?b) \<notin> set (map fst (key_messages ?counts ms))"
  proof
    assume "?b @ ''|'' @ show_nat (counted counts ?b) \<in> set (map fst (key_messages ?counts ms))"
    then obtain b n where k: "?b @ ''|'' @ show_nat (counted counts ?b) = b @ ''|'' @ show_nat n" "counted ?counts b \<le> n"
      using key_messages_from by blast
    then have "?b = b \<and> counted counts ?b = n" using numbered_key_inj [of "CHR ''|''" ?b _ b n] by (simp add: is_digit_def)
    with k(2) show False by (auto simp: jm_get_set)
  qed
  with 2 show ?case by (simp add: Let_def)
qed simp

lemma key_messages_append: "\<exists>counts'. key_messages counts (ms @ ns) = key_messages counts ms @ key_messages counts' ns"
  by (induction counts ms rule: key_messages.induct) (auto simp: Let_def)

lemma key_messages_snd: "map snd (key_messages counts ms) = ms"
  by (induction counts ms rule: key_messages.induct) (simp_all add: Let_def)

text \<open>The stored locale is the one that is shown.\<close>

definition locale_ok :: "locale_state \<Rightarrow> bool" where
  "locale_ok s \<longleftrightarrow> (ls_storage s \<noteq> None \<longrightarrow> loadStoredLocale (ls_storage s) = ls_locale s)"

lemma normalize_text [simp]: "normalizeLocale (Some (locale_text l)) = l"
  by (cases l) (simp_all add: normalizeLocale_def locale_text_def)

lemma apply_locale_sel [simp]:
  "ls_locale (apply_locale loc s) = loc" "ls_told (apply_locale loc s) = ls_told s" "ls_cancelled (apply_locale loc s) = ls_cancelled s"
  by (simp_all add: apply_locale_def saveStoredLocale_def)

lemma apply_locale_ok: "locale_ok (apply_locale loc s)"
  by (cases "ls_storage s") (simp_all add: locale_ok_def apply_locale_def saveStoredLocale_def loadStoredLocale_def jm_get_set)

lemma setLocale_ok: "locale_ok (setLocale loc s)"
  using apply_locale_ok [of loc s] by (simp add: setLocale_def locale_ok_def Let_def)

lemma locale_ok_cancel: "locale_ok (s\<lparr>ls_cancelled := b\<rparr>) = locale_ok s"
  by (simp add: locale_ok_def)

interpretation provider: event_machine "\<lambda>e s. Some (locale_step e s)" "LocaleProvider_start storage" locale_ok for storage
proof
  show "locale_ok (LocaleProvider_start storage)" by (simp add: locale_ok_def LocaleProvider_start_def)
  fix s e s' assume "locale_ok s" "Some (locale_step e s) = Some s'"
  then show "locale_ok s'"
    by (cases "(e, s)" rule: locale_step.cases) (auto simp: locale_ok_cancel apply_locale_ok setLocale_ok split: if_splits)
qed

text \<open>The key that is shown is the stored one.\<close>

definition layout_ok :: "layout \<Rightarrow> bool" where
  "layout_ok s \<longleftrightarrow> al_key s = key_or_empty (al_storage s)
     \<and> (al_session s = SessionConfigured \<or> al_session s = SessionSaved \<longleftrightarrow> al_key s \<noteq> [])"

lemma dark_mode_ok: "layout_ok (write_dark_mode s) = layout_ok s"
  by (simp add: layout_ok_def write_dark_mode_def key_or_empty_def loadStoredApiKey_def jm_get_set API_KEY_STORAGE_KEY_def)

lemma normalizeApiKey_Some: "normalizeApiKey v = Some k \<Longrightarrow> k \<noteq> [] \<and> normalizeApiKey (Some k) = Some k"
  by (cases v) (auto simp: normalizeApiKey_def Let_def split: if_splits)

lemma saved_key: "saveStoredApiKey t (Some m) = (st, k) \<Longrightarrow> \<exists>m'. st = Some m' \<and> loadStoredApiKey (Some m') = k"
proof (cases "normalizeApiKey (Some t)")
  case None
  then show "saveStoredApiKey t (Some m) = (st, k) \<Longrightarrow> ?thesis"
    by (auto simp: saveStoredApiKey_def loadStoredApiKey_def jm_get_delete normalizeApiKey_def [of None] Let_def)
next
  case (Some x)
  then have "normalizeApiKey (Some x) = Some x" using normalizeApiKey_Some by blast
  with Some show "saveStoredApiKey t (Some m) = (st, k) \<Longrightarrow> ?thesis"
    by (auto simp: saveStoredApiKey_def loadStoredApiKey_def jm_get_set Let_def)
qed

lemma import_key_ok: "layout_ok s \<Longrightarrow> layout_ok (import_key searchParam hash s)"
  by (auto simp: import_key_def importApiKeyFromHash_def layout_ok_def key_or_empty_def loadStoredApiKey_def jm_get_set
      Let_def normalizeApiKey_Some dest: normalizeApiKey_Some split: option.splits)

lemma loaded_not_empty: "loadStoredApiKey storage = Some k \<Longrightarrow> k \<noteq> []"
  by (auto simp: loadStoredApiKey_def dest: normalizeApiKey_Some)

lemma layout_step_ok: "layout_ok s \<Longrightarrow> layout_step e s = Some s' \<Longrightarrow> layout_ok s'"
proof (cases e)
  case SaveKey
  obtain st k where save: "saveStoredApiKey (al_input s) (Some (al_storage s)) = (st, k)" by fastforce
  then obtain m' where "st = Some m'" "loadStoredApiKey (Some m') = k" using saved_key by blast
  moreover assume "layout_step e s = Some s'"
  ultimately show ?thesis using save SaveKey loaded_not_empty [of "Some m'"]
    by (auto simp: layout_ok_def key_or_empty_def Let_def split: option.splits)
next
  case ClearKey
  moreover assume "layout_step e s = Some s'"
  ultimately show ?thesis
    by (auto simp: layout_ok_def key_or_empty_def clearStoredApiKey_def loadStoredApiKey_def jm_get_delete normalizeApiKey_def Let_def
        split: if_splits)
qed (auto simp: dark_mode_ok, auto simp: layout_ok_def)

interpretation header: event_machine layout_step "AppLayout_mount searchParam hash m dark" layout_ok for searchParam hash m dark
proof
  have "layout_ok \<lparr>al_storage = m, al_input = key_or_empty m, al_key = key_or_empty m,
      al_session = (if key_or_empty m = [] then SessionMissing else SessionConfigured), al_darkMode = dark, al_refreshed = 0\<rparr>"
    by (simp add: layout_ok_def)
  then show "layout_ok (AppLayout_mount searchParam hash m dark)"
    unfolding AppLayout_mount_def dark_mode_ok by (rule import_key_ok)
  show "layout_ok s \<Longrightarrow> layout_step e s = Some s' \<Longrightarrow> layout_ok s'" for s e s' by (rule layout_step_ok)
qed

text \<open>The pages that send.\<close>

definition task_page_ok :: "task_page \<Rightarrow> bool" where
  "task_page_ok p \<longleftrightarrow> (tp_pending p \<longrightarrow> tp_run p = None \<and> tp_error p = None) \<and> (tp_run p = None \<or> tp_error p = None)
     \<and> (\<forall>(a, i) \<in> set (tp_sent p). a \<noteq> [] \<and> i \<noteq> [])"

interpretation submit: event_machine task_page_step "task_page_start param" task_page_ok for param
proof
  show "task_page_ok (task_page_start param)" by (simp add: task_page_ok_def task_page_start_def)
  show "task_page_ok p \<Longrightarrow> task_page_step e p = Some p' \<Longrightarrow> task_page_ok p'" for p e p'
    by (cases e) (auto simp: task_page_ok_def split: if_splits sum.splits)
qed

definition detail_start :: detail_page where
  "detail_start = \<lparr>dp_input = [], dp_pending = False, dp_sent = []\<rparr>"

definition sent_trimmed :: "detail_page \<Rightarrow> bool" where
  "sent_trimmed p \<longleftrightarrow> (\<forall>t \<in> set (dp_sent p). t \<noteq> [] \<and> js_trim t = t)"

interpretation writer: event_machine detail_step detail_start sent_trimmed
proof
  show "sent_trimmed detail_start" by (simp add: sent_trimmed_def detail_start_def)
  fix p e p' assume ok: "sent_trimmed p" and step: "detail_step e p = Some p'"
  have "dp_sent p' = dp_sent p \<or> dp_sent p' = dp_sent p @ [js_trim (dp_input p)] \<and> js_trim (dp_input p) \<noteq> []"
    using step by (cases e) (auto split: if_splits)
  with ok show "sent_trimmed p'" unfolding sent_trimmed_def by fastforce
qed

section \<open>Properties\<close>

text \<open>
  The input for the tools of a new agent. What is typed at its end key by key is one name, the text without commas
  and white space, because a comma or blank at the end is dropped before the next key arrives. Names that are
  pasted at once arrive as they are.
\<close>

theorem typed_tools_merge:
  "fm_tools (fold (type_tool_key nr) ks (empty_form temperature)) =
     (let t = filter tool_char ks in if t = [] then [] else [t])"
proof (induction ks rule: rev_induct)
  case Nil
  then show ?case by (simp add: empty_form_def)
next
  case (snoc c ks)
  let ?t = "filter tool_char ks"
  have "\<forall>c \<in> set ?t. tool_char c" by simp
  from tools_key [OF this, of c] snoc show ?case
    by (cases "?t = []") (simp_all add: type_tool_key_def tools_field_def Let_def)
qed

lemma pasted_tools:
  "ts \<noteq> [] \<Longrightarrow> \<forall>t \<in> set ts. t \<noteq> [] \<and> (\<forall>c \<in> set t. tool_char c) \<Longrightarrow>
   fm_tools (form_change nr (FormTools (js_join '', '' ts)) f) = ts"
  by (simp add: split_join_names)

text \<open>
  The form and the gateway's schema. A form the schema accepts gives exactly the agent that was entered; a form
  without a temperature, which the schema leaves optional, is refused: no number is sent as \<^verbatim>\<open>null\<close>.
\<close>

theorem form_accepted_iff:
  "AgentDefinitionSchema (form_json f) = (if form_ok f then Some (parsed_agent (form_agent u f)) else None)"
proof -
  have tools: "with_default [] (z_array (z_text 0 None)) (json_field (form_json f) ''tools'') = Some (fm_tools f)"
    by (simp add: form_members with_default_def)
  show ?thesis
    unfolding AgentDefinitionSchema_def tools form_members form_provider [of f u]
    by (auto simp: required_def z_text_def with_default_def optional_def parsed_agent_def form_ok_def form_agent_def Suc_le_eq)
qed

lemma cleared_temperature_refused:
  "nr_parseFloat nr [] = None \<Longrightarrow> AgentDefinitionSchema (form_json (form_change nr (FormTemperature []) f)) = None"
  using form_accepted_iff [of "form_change nr (FormTemperature []) f"] by (simp add: form_ok_def)

text \<open>
  The keys under which a run's messages are drawn are pairwise different, belong to the messages in their order, and
  do not change when further messages arrive.
\<close>

theorem run_keys_distinct:
  "distinct (map fst (keyedMessages ms)) \<and> map snd (keyedMessages ms) = ms
   \<and> take (length ms) (keyedMessages (ms @ ns)) = keyedMessages ms"
proof -
  obtain counts where "keyedMessages (ms @ ns) = keyedMessages ms @ key_messages counts ns"
    using key_messages_append unfolding keyedMessages_def by blast
  moreover have "length (keyedMessages ms) = length ms" using key_messages_snd by (metis keyedMessages_def length_map)
  ultimately show ?thesis by (simp add: keyedMessages_def key_messages_distinct key_messages_snd)
qed

lemma message_keys_distinct: "createMessageKey m i = createMessageKey n j \<Longrightarrow> i = j" "task_message_key m i = task_message_key n j \<Longrightarrow> i = j"
proof -
  have key: "createMessageKey m i = base_key m @ CHR ''|'' # show_nat i" for m i
    by (simp add: createMessageKey_def base_key_def message_parts_def)
  show "createMessageKey m i = createMessageKey n j \<Longrightarrow> i = j"
    using numbered_key_inj [of "CHR ''|''" "base_key m" i "base_key n" j] by (simp add: key is_digit_def)
  show "task_message_key m i = task_message_key n j \<Longrightarrow> i = j"
    using numbered_key_inj [of "CHR ''-''" "role_name m @ ''-'' @ (case message_text m of Some t \<Rightarrow> t | None \<Rightarrow> [])" i
        "role_name n @ ''-'' @ (case message_text n of Some t \<Rightarrow> t | None \<Rightarrow> [])" j]
    by (simp add: task_message_key_def is_digit_def)
qed

text \<open>
  Whatever is typed, saved, cleared or imported, the header shows the key that the client of the console uses: the
  session counts as configured exactly if a key is stored, and a protected call then carries that key; otherwise it is
  not made at all.
\<close>

theorem header_shows_session:
  assumes "AppLayout_start searchParam hash m = Some s0" and "run_events layout_step es s0 = Some s"
    and "console_call_request c = (path, init)" and "c \<noteq> HealthCheckCall"
    and "newURL path ''http://senclaw.local'' = Some u" and "url_pathname u = path"
  shows "(al_session s = SessionConfigured \<or> al_session s = SessionSaved \<longleftrightarrow> al_key s \<noteq> [])
    \<and> console_run_call newURL fetch (Some (al_storage s)) w c =
        (if al_key s = [] then (w, Inl (MissingApiKeyError missing_key_text))
         else case fetch w (console_sent path init (al_key s)) of
                (w', Inl e) \<Rightarrow> (w', Inl (OtherError e)) | (w', Inr r) \<Rightarrow> (w', console_answer r))"
proof -
  from assms(1) obtain dark where "s0 = AppLayout_mount searchParam hash m dark" by (auto simp: AppLayout_start_def)
  with assms(2) have ok: "layout_ok s" using header.run_inv by blast
  then have key: "al_key s = (case loadStoredApiKey (Some (al_storage s)) of Some k \<Rightarrow> k | None \<Rightarrow> [])"
    by (simp add: layout_ok_def key_or_empty_def)
  show ?thesis
    unfolding console_call_sent [where newURL = newURL, OF assms(3-6)] using ok key loaded_not_empty [of "Some (al_storage s)"]
    by (auto simp: layout_ok_def split: option.splits)
qed

text \<open>
  A locale that is chosen before the gateway has answered the first load is lost: the console falls back to the answer,
  shows and stores it, and the gateway keeps the choice.
\<close>

theorem early_choice_lost:
  assumes "carries fetch ge hs ip []"
    and "\<forall>s. ss_schema (ge_settings ge) (settings_json s) = Inr s"
    and "\<forall>f. ss_readable (ge_settings ge) f = Inr ()" and "\<forall>f. ss_writable (ge_settings ge) f = Inr ()"
    and "\<forall>l. ge_locale ge (Some (JStr (locale_text l))) = Inr l"
    and "loadRuntimeLocale fetch g = (g1, Inr old)" and "saveRuntimeLocale fetch g1 new = (g2, res)"
    and "s = locale_step (LoadAnswer (Inr old)) (locale_step (SetLocale new) (LocaleProvider_start (Some m)))"
  shows "ls_told s = [new] \<and> ls_locale s = old \<and> loadStoredLocale (ls_storage s) = old \<and> loadRuntimeLocale fetch g2 = (g2, Inr new)"
proof -
  have s: "s = apply_locale old (setLocale new (LocaleProvider_start (Some m)))"
    using assms(8) by (simp add: setLocale_def LocaleProvider_start_def Let_def apply_locale_def saveStoredLocale_def)
  have "ls_told s = [new]" "ls_locale s = old"
    unfolding s by (simp_all add: setLocale_def LocaleProvider_start_def Let_def)
  moreover have "ls_storage s \<noteq> None"
    unfolding s by (simp add: setLocale_def LocaleProvider_start_def Let_def apply_locale_def saveStoredLocale_def)
  ultimately show ?thesis
    using apply_locale_ok [of old "setLocale new (LocaleProvider_start (Some m))"] s
      console_locale_roundtrip [OF assms(1-5,7)] by (simp add: locale_ok_def)
qed

text \<open>
  The buttons of the approval inbox. Blocked is the request that was approved last, even if that failed and long after it
  ended; a request that is being rejected is blocked only if none was ever approved.
\<close>

definition last_click :: "(inbox_event \<Rightarrow> ident option) \<Rightarrow> inbox_event list \<Rightarrow> ident option" where
  "last_click f es = (case rev (List.map_filter f es) of [] \<Rightarrow> None | i # _ \<Rightarrow> Some i)"

definition approve_click :: "inbox_event \<Rightarrow> ident option" where
  "approve_click e = (case e of ClickApprove i \<Rightarrow> Some i | _ \<Rightarrow> None)"

definition reject_click :: "inbox_event \<Rightarrow> ident option" where
  "reject_click e = (case e of ClickReject i \<Rightarrow> Some i | _ \<Rightarrow> None)"

lemma last_click_snoc: "last_click f (es @ [e]) = (case f e of Some i \<Rightarrow> Some i | None \<Rightarrow> last_click f es)"
  by (simp add: last_click_def List.map_filter_def split: option.splits)

lemma inbox_clicks:
  "run_events inbox_step es inbox_start = Some b \<Longrightarrow> ib_approved b = last_click approve_click es \<and> ib_rejected b = last_click reject_click es"
proof (induction es arbitrary: b rule: rev_induct)
  case Nil
  then show ?case by (auto simp: inbox_start_def last_click_def List.map_filter_def)
next
  case (snoc e es)
  then obtain b1 where "run_events inbox_step es inbox_start = Some b1" "inbox_step e b1 = Some b"
    by (auto simp: run_events_append bind_eq_Some_conv split: option.splits)
  with snoc.IH show ?case
    by (cases e) (auto simp: last_click_snoc approve_click_def reject_click_def split: if_splits)
qed

theorem inbox_blocks_last_approved:
  assumes "run_events inbox_step es inbox_start = Some b"
  shows "busyId b = (case last_click approve_click es of Some i \<Rightarrow> Some i | None \<Rightarrow> last_click reject_click es)"
  using inbox_clicks [OF assms] by (simp add: busyId_def split: option.splits)

lemma task_page_consistent:
  "run_events task_page_step es (task_page_start param) = Some p \<Longrightarrow> task_page_ok p"
  by (rule submit.run_inv)

text \<open>What is typed while a message is being sent is lost when it has been accepted.\<close>

lemma typed_while_sending_lost:
  "\<not> dp_pending p \<Longrightarrow> js_trim (dp_input p) \<noteq> [] \<Longrightarrow>
   run_events detail_step [DetailSend, DetailType t, DetailAnswer True] p
     = Some (p\<lparr>dp_input := [], dp_sent := dp_sent p @ [js_trim (dp_input p)]\<rparr>)"
  by simp

section \<open>Instances\<close>

theorem header_shows_session_witness:
  "\<exists>s0 s. AppLayout_start (\<lambda>h p. None) [] [] = Some s0
     \<and> run_events layout_step [TypeKey '' k '', SaveKey, ToggleDark] s0 = Some s \<and> al_session s = SessionSaved \<and> al_key s = ''k''
     \<and> console_run_call (\<lambda>p b. Some \<lparr>url_href = p, url_pathname = p\<rparr>) (\<lambda>w rq. (w, Inl (Error (hr_url rq)))) (Some (al_storage s)) () AgentList
         = ((), Inl (OtherError (Error ''/api/v1/agents'')))"
proof -
  obtain s0 s where start: "AppLayout_start (\<lambda>h p. None) [] [] = Some s0"
    and run: "run_events layout_step [TypeKey '' k '', SaveKey, ToggleDark] s0 = Some s"
    and state: "al_session s = SessionSaved" "al_key s = ''k''"
  proof -
    have "map_option (\<lambda>s. (al_session s, al_key s)) (Option.bind (AppLayout_start (\<lambda>h p. None) [] [])
        (run_events layout_step [TypeKey '' k '', SaveKey, ToggleDark])) = Some (SessionSaved, ''k'')" by code_simp
    then show thesis using that by (auto simp: bind_eq_Some_conv)
  qed
  have url: "(\<lambda>p b. Some \<lparr>url_href = p, url_pathname = p\<rparr>) ''/api/v1/agents'' ''http://senclaw.local''
      = Some \<lparr>url_href = ''/api/v1/agents'', url_pathname = ''/api/v1/agents''\<rparr>" by simp
  have call: "console_call_request AgentList = (''/api/v1/agents'', get_init)" by simp
  have path: "url_pathname \<lparr>url_href = ''/api/v1/agents'', url_pathname = ''/api/v1/agents''\<rparr> = ''/api/v1/agents''" by simp
  from header_shows_session [where newURL = "\<lambda>p b. Some \<lparr>url_href = p, url_pathname = p\<rparr>"
      and fetch = "\<lambda>w rq. (w, Inl (Error (hr_url rq)))" and w = "()", OF start run call _ url path] start run state
  show ?thesis by (auto simp: console_sent_def)
qed

theorem early_choice_lost_witness:
  "\<exists>g2 res s. saveRuntimeLocale (direct_fetch demo_settings_env [] ''ip'' []) demo_gateway LocaleZhCN = (g2, res)
     \<and> s = locale_step (LoadAnswer (Inr LocaleEn)) (locale_step (SetLocale LocaleZhCN) (LocaleProvider_start (Some [])))
     \<and> ls_locale s = LocaleEn \<and> loadRuntimeLocale (direct_fetch demo_settings_env [] ''ip'' []) g2 = (g2, Inr LocaleZhCN)"
proof -
  obtain g2 res where go: "saveRuntimeLocale (direct_fetch demo_settings_env [] ''ip'' []) demo_gateway LocaleZhCN = (g2, res)" by fastforce
  have load: "loadRuntimeLocale (direct_fetch demo_settings_env [] ''ip'' []) demo_gateway = (demo_gateway, Inr LocaleEn)"
  proof -
    let ?get = "\<lparr>hr_method = ''GET'', hr_url = ''/api/runtime/settings'', hr_headers = [(''accept'', ''application/json'')], hr_body = None\<rparr>"
    have "get_settings (ge_settings demo_settings_env) (gw_files demo_gateway) = ok_reply 200 (settings_body \<lparr>rs_locale = LocaleEn\<rparr>)"
      by code_simp
    then have "gateway_request demo_settings_env [] demo_gateway (as_request ''ip'' ''/api/runtime/settings'' ?get)
        = Some (demo_gateway, Plain (ok_reply 200 (settings_body \<lparr>rs_locale = LocaleEn\<rparr>)), None)"
      using gateway_settings(1) [of "as_request ''ip'' ''/api/runtime/settings'' ?get" demo_settings_env "[]" demo_gateway]
      by (simp add: as_request_def)
    then have "\<exists>st. direct_fetch demo_settings_env [] ''ip'' [] demo_gateway ?get
        = (demo_gateway, Inr ((as_response (ok_reply 200 (settings_body \<lparr>rs_locale = LocaleEn\<rparr>)))\<lparr>hs_statusText := st\<rparr>))"
      using direct_fetch_carries [of demo_settings_env "[]" "''ip''" "[]"] settings_no_query
      unfolding carries_def by (metis append_Nil http_request.select_convs(2))
    then show ?thesis by (auto simp: loadRuntimeLocale_def locale_answer_settings)
  qed
  from early_choice_lost [OF direct_fetch_carries demo_settings_ok load go refl, of "[]"] go show ?thesis by blast
qed

theorem inbox_blocks_last_approved_witness:
  "\<exists>b. run_events inbox_step [ToggleInbox, ClickApprove ''a'', ClickReject ''b''] inbox_start = Some b \<and> busyId b = Some ''a''"
proof -
  obtain b where run: "run_events inbox_step [ToggleInbox, ClickApprove ''a'', ClickReject ''b''] inbox_start = Some b"
    by (simp add: inbox_start_def busyId_def)
  from inbox_blocks_last_approved [OF run] run show ?thesis
    by (simp add: last_click_def List.map_filter_def approve_click_def)
qed

end
