(* ===== verification/Runtime_Context.thy ===== *)
theory Runtime_Context
  imports Execution_Loop
begin

text \<open>
  The contexts in which agents run (\<^verbatim>\<open>apps/agent-runner/src/runtime-context.ts\<close>) over an explicit heap, because what a
  subagent shares with its parent is a question of aliasing, and the registry of model providers
  (\<^verbatim>\<open>apps/agent-runner/src/model-provider.ts\<close>).

  Message lists, abort controllers, caches and metadata have addresses. A value in a cache or in metadata is plain or
  a pointer to an object. Agents are not changed by the code and are values. The constructors of model clients are
  an argument.
\<close>

section \<open>Contexts\<close>

datatype ResponseLength = ResponseShort | ResponseMedium | ResponseLong

type_synonym addr = nat

datatype slot = PlainValue json | Pointer addr

record context_heap =
  hp_next :: addr
  hp_messages :: "addr \<Rightarrow> Message list"
  hp_aborted :: "addr \<Rightarrow> bool"
  hp_maps :: "addr \<Rightarrow> (string, slot) jsmap"
  hp_objects :: "addr \<Rightarrow> json"

record AgentRuntimeContext =
  rc_runtimeId :: ident
  rc_agent :: Agent
  rc_messages :: addr
  rc_cwd :: "string option"
  rc_link :: "AgentRunLink option"
  rc_abort :: addr
  rc_cache :: addr
  rc_responseLength :: ResponseLength
  rc_metadata :: addr

record CreateSubagentContextOptions =
  so_agent :: "Agent option"
  so_messages :: "addr option"
  so_cwd :: "string option"
  so_link :: "AgentRunLink option"
  so_metadata :: "addr option"
  so_runtimeId :: "ident option"
  so_shareAbort :: bool
  so_shareCache :: bool
  so_shareLength :: bool
  so_abort :: "addr option"
  so_cache :: "addr option"
  so_length :: "ResponseLength option"

text \<open>New objects at the next addresses; messages are cloned, maps are copied with their pointers.\<close>

definition new_messages :: "Message list \<Rightarrow> context_heap \<Rightarrow> context_heap \<times> addr" where
  "new_messages ms h = (h\<lparr>hp_next := hp_next h + 1, hp_messages := (hp_messages h)(hp_next h := ms)\<rparr>, hp_next h)"

definition new_abort :: "context_heap \<Rightarrow> context_heap \<times> addr" where
  "new_abort h = (h\<lparr>hp_next := hp_next h + 1, hp_aborted := (hp_aborted h)(hp_next h := False)\<rparr>, hp_next h)"

definition new_map :: "(string, slot) jsmap \<Rightarrow> context_heap \<Rightarrow> context_heap \<times> addr" where
  "new_map m h = (h\<lparr>hp_next := hp_next h + 1, hp_maps := (hp_maps h)(hp_next h := m)\<rparr>, hp_next h)"

definition createSubagentContext ::
    "ident \<Rightarrow> AgentRuntimeContext \<Rightarrow> CreateSubagentContextOptions \<Rightarrow> context_heap \<Rightarrow> (context_heap \<times> AgentRuntimeContext) result" where
  "createSubagentContext uuid p opts h =
     (if so_shareAbort opts \<and> so_abort opts \<noteq> None
      then Inl (Error ''Cannot provide an explicit abortController when shareAbortController is enabled.'')
      else if so_shareCache opts \<and> so_cache opts \<noteq> None
      then Inl (Error ''Cannot provide an explicit toolDecisionCache when shareToolDecisionCache is enabled.'')
      else if so_shareLength opts \<and> so_length opts \<noteq> None
      then Inl (Error ''Cannot override responseLength when shareResponseLength is enabled.'')
      else
        (let (h1, ms) = new_messages (hp_messages h (js_or (so_messages opts) (rc_messages p))) h;
             (h2, ab) = (if so_shareAbort opts then (h1, rc_abort p)
                         else case so_abort opts of Some a \<Rightarrow> (h1, a) | None \<Rightarrow> new_abort h1);
             (h3, ca) = (if so_shareCache opts then (h2, rc_cache p)
                         else new_map (hp_maps h2 (js_or (so_cache opts) (rc_cache p))) h2);
             (h4, md) = new_map (hp_maps h3 (js_or (so_metadata opts) (rc_metadata p))) h3
         in Inr (h4, \<lparr>rc_runtimeId = js_or (so_runtimeId opts) uuid, rc_agent = js_or (so_agent opts) (rc_agent p), rc_messages = ms,
               rc_cwd = js_or_opt (so_cwd opts) (rc_cwd p), rc_link = js_or_opt (so_link opts) (rc_link p), rc_abort = ab, rc_cache = ca,
               rc_responseLength = (if so_shareLength opts then rc_responseLength p else js_or (so_length opts) (rc_responseLength p)),
               rc_metadata = md\<rparr>)))"

text \<open>What a holder of a context can do with it.\<close>

datatype context_op = PushMessage Message | AbortRun | CacheSet string slot | MetadataSet string slot | ObjectWrite addr json

fun context_do :: "AgentRuntimeContext \<Rightarrow> context_op \<Rightarrow> context_heap \<Rightarrow> context_heap" where
  "context_do c (PushMessage m) h = h\<lparr>hp_messages := (hp_messages h)(rc_messages c := hp_messages h (rc_messages c) @ [m])\<rparr>"
| "context_do c AbortRun h = h\<lparr>hp_aborted := (hp_aborted h)(rc_abort c := True)\<rparr>"
| "context_do c (CacheSet k v) h = h\<lparr>hp_maps := (hp_maps h)(rc_cache c := jm_set (hp_maps h (rc_cache c)) k v)\<rparr>"
| "context_do c (MetadataSet k v) h = h\<lparr>hp_maps := (hp_maps h)(rc_metadata c := jm_set (hp_maps h (rc_metadata c)) k v)\<rparr>"
| "context_do c (ObjectWrite a j) h = h\<lparr>hp_objects := (hp_objects h)(a := j)\<rparr>"

definition context_run :: "AgentRuntimeContext \<Rightarrow> context_op list \<Rightarrow> context_heap \<Rightarrow> context_heap" where
  "context_run c ops h = fold (context_do c) ops h"

section \<open>Model providers\<close>

type_synonym 'm provider_factories = "(string, ProviderConfig \<Rightarrow> 'm) jsmap"

record openai_settings =
  os_apiKey :: "string option"
  os_baseURL :: "string option"

definition resolveOpenAIProviderSettings :: "(string \<Rightarrow> string option) \<Rightarrow> openai_settings" where
  "resolveOpenAIProviderSettings env =
     (let read = (\<lambda>k. let v = map_option js_trim (env k) in if js_truthy v then v else None)
      in \<lparr>os_apiKey = read ''SENCLAW_OPENAI_API_KEY'', os_baseURL = read ''SENCLAW_OPENAI_BASE_URL''\<rparr>)"

text \<open>The factories at the start of the process; \<open>chat\<close> is the constructor of the OpenAI client's chat models.\<close>

definition initial_factories :: "(string \<Rightarrow> string option) \<Rightarrow> (openai_settings \<Rightarrow> string \<Rightarrow> 'm) \<Rightarrow> 'm provider_factories" where
  "initial_factories env chat = [(''openai'', \<lambda>cfg. chat (resolveOpenAIProviderSettings env) (pc_model cfg))]"

definition registerProviderFactory :: "string \<Rightarrow> (ProviderConfig \<Rightarrow> 'm) \<Rightarrow> 'm provider_factories \<Rightarrow> 'm provider_factories" where
  "registerProviderFactory name factory fs = jm_set fs name factory"

definition resolveModel :: "'m provider_factories \<Rightarrow> ProviderConfig \<Rightarrow> 'm result" where
  "resolveModel fs cfg =
     (case jm_get fs (pc_provider cfg) of
        None \<Rightarrow> Inl (Error (''Unknown LLM provider: '' @ [CHR 0x22] @ pc_provider cfg @ [CHR 0x22] @ ''. Registered providers: ''
                  @ js_join '', '' (jm_keys fs)))
      | Some factory \<Rightarrow> Inr (factory cfg))"

text \<open>The model a run uses, as the argument of the execution.\<close>

definition resolve_with :: "'m provider_factories \<Rightarrow> ProviderConfig \<Rightarrow> unit result" where
  "resolve_with fs cfg = map_sum id (\<lambda>_. ()) (resolveModel fs cfg)"

section \<open>Lemmas\<close>

text \<open>A context of a heap uses addresses below the next one, and so do the options of a call.\<close>

definition context_in :: "context_heap \<Rightarrow> AgentRuntimeContext \<Rightarrow> bool" where
  "context_in h c \<longleftrightarrow> rc_messages c < hp_next h \<and> rc_abort c < hp_next h \<and> rc_cache c < hp_next h \<and> rc_metadata c < hp_next h"

lemma context_run_messages:
  "hp_messages (context_run c ops h) a =
     (if a = rc_messages c then hp_messages h a @ List.map_filter (\<lambda>x. case x of PushMessage m \<Rightarrow> Some m | _ \<Rightarrow> None) ops
      else hp_messages h a)"
proof (induction ops arbitrary: h)
  case (Cons x ops)
  then show ?case by (cases x) (simp_all add: context_run_def List.map_filter_def)
qed (simp add: context_run_def List.map_filter_def)

lemma context_run_aborted: "hp_aborted (context_run c ops h) a = (hp_aborted h a \<or> a = rc_abort c \<and> AbortRun \<in> set ops)"
proof (induction ops arbitrary: h)
  case (Cons x ops)
  then show ?case by (cases x) (auto simp: context_run_def)
qed (simp add: context_run_def)

lemma context_run_maps: "a \<noteq> rc_cache c \<Longrightarrow> a \<noteq> rc_metadata c \<Longrightarrow> hp_maps (context_run c ops h) a = hp_maps h a"
proof (induction ops arbitrary: h)
  case (Cons x ops)
  then show ?case by (cases x) (simp_all add: context_run_def)
qed (simp add: context_run_def)

definition cache_writes :: "context_op list \<Rightarrow> (string \<times> slot) list" where
  "cache_writes ops = List.map_filter (\<lambda>x. case x of CacheSet k v \<Rightarrow> Some (k, v) | _ \<Rightarrow> None) ops"

lemma context_run_cache:
  "rc_cache c \<noteq> rc_metadata c \<Longrightarrow>
   hp_maps (context_run c ops h) (rc_cache c) = fold (\<lambda>(k, v) m. jm_set m k v) (cache_writes ops) (hp_maps h (rc_cache c))"
proof (induction ops arbitrary: h)
  case (Cons x ops)
  then show ?case by (cases x) (simp_all add: context_run_def cache_writes_def List.map_filter_def)
qed (simp add: context_run_def cache_writes_def List.map_filter_def)

text \<open>Where the parts of a new context lie and what they hold.\<close>

lemma subagent_created:
  assumes "createSubagentContext uuid p opts h = Inr (h1, c)" and "context_in h p"
  shows "rc_messages c = hp_next h" "hp_next h < rc_metadata c"
    and "rc_abort c = (if so_shareAbort opts then rc_abort p else case so_abort opts of Some a \<Rightarrow> a | None \<Rightarrow> hp_next h + 1)"
    and "if so_shareCache opts then rc_cache c = rc_cache p else hp_next h < rc_cache c \<and> rc_cache c < rc_metadata c"
    and "hp_messages h1 (rc_messages c) = hp_messages h (js_or (so_messages opts) (rc_messages p))"
    and "\<And>a. a < hp_next h \<Longrightarrow> hp_messages h1 a = hp_messages h a \<and> hp_aborted h1 a = hp_aborted h a \<and> hp_maps h1 a = hp_maps h a"
  using assms
  by (auto simp: createSubagentContext_def new_messages_def new_abort_def new_map_def Let_def
      split: if_splits option.splits)

section \<open>Properties\<close>


text \<open>Objects in the metadata are shared even so: the copy is of the pointers.\<close>

lemma subagent_metadata_pointers:
  assumes "createSubagentContext uuid p opts h = Inr (h1, c)" and "context_in h p" and "so_metadata opts = None"
  shows "hp_maps h1 (rc_metadata c) = hp_maps h (rc_metadata p)"
  using assms
  by (auto simp: createSubagentContext_def new_messages_def new_abort_def new_map_def context_in_def Let_def
      split: if_splits option.splits)

text \<open>
  A run whose agent names a provider that nobody has registered fails with a message that lists the registered ones,
  without a call of the model; a registered provider is found, and other registrations do not matter.
\<close>

theorem unknown_provider_reported:
  assumes "run_get s r \<noteq> None" and "jm_get fs (pc_provider (ag_provider a)) = None"
  shows "\<exists>x. run_get (executeRunRequest clock (resolve_with fs) gen reg xo r task a input hist s) r = Some x
    \<and> rn_status x = RunFailed
    \<and> rn_error x = Some (''Unknown LLM provider: '' @ [CHR 0x22] @ pc_provider (ag_provider a) @ [CHR 0x22]
        @ ''. Registered providers: '' @ js_join '', '' (jm_keys fs))
    \<and> run_messages (executeRunRequest clock (resolve_with fs) gen reg xo r task a input hist s) r
        = run_messages s r @ [SystemMessage (buildRuntimeSystemPrompt a), UserMessage input]"
proof -
  let ?e = "Error (''Unknown LLM provider: '' @ [CHR 0x22] @ pc_provider (ag_provider a) @ [CHR 0x22]
        @ ''. Registered providers: '' @ js_join '', '' (jm_keys fs))"
  let ?start = "[EffStatus RunRunning None, EffMessage (SystemMessage (buildRuntimeSystemPrompt a)), EffMessage (UserMessage input)]"
  have resolve: "resolve_with fs (ag_provider a) = Inl ?e" using assms(2) by (simp add: resolve_with_def resolveModel_def)
  then have effs: "run_effects (resolve_with fs) gen reg xo a input hist = ?start @ [EffStatus RunFailed (Some (message ?e))]"
    by (simp add: run_effects_def markRunFailed_def)
  have "jm_get (st_runs s) r \<noteq> None" using assms(1) by (simp add: InMemoryRunRepository_get_def)
  from perform_status_last [OF this, of clock 0 task ?start RunFailed "Some (message ?e)"]
  obtain x where "run_get (executeRunRequest clock (resolve_with fs) gen reg xo r task a input hist s) r = Some x"
    "rn_status x = RunFailed" "rn_error x = Some (message ?e)"
    unfolding executeRunRequest_def effs by auto
  moreover have "model_messages (resolve_with fs) gen reg xo a input hist = []" by (simp add: model_messages_def resolve)
  ultimately show ?thesis
    using run_terminal [OF assms(1), of clock "resolve_with fs" gen reg xo task a input hist] by simp
qed

lemma resolve_registered:
  "resolveModel (registerProviderFactory (pc_provider cfg) factory fs) cfg = Inr (factory cfg)"
  "jm_get fs (pc_provider cfg) \<noteq> None \<Longrightarrow> pc_provider cfg \<noteq> name \<Longrightarrow>
   resolveModel (registerProviderFactory name factory fs) cfg = resolveModel fs cfg"
  by (auto simp: resolveModel_def registerProviderFactory_def jm_get_set split: option.splits)

section \<open>Instances\<close>

definition demo_parent :: AgentRuntimeContext where
  "demo_parent = \<lparr>rc_runtimeId = ''p'', rc_agent = new_agent ''a1'' demo_agent, rc_messages = 0, rc_cwd = None, rc_link = None, rc_abort = 1,
     rc_cache = 2, rc_responseLength = ResponseShort, rc_metadata = 3\<rparr>"

definition demo_heap :: context_heap where
  "demo_heap = \<lparr>hp_next = 4, hp_messages = (\<lambda>a. []), hp_aborted = (\<lambda>a. False), hp_maps = (\<lambda>a. []), hp_objects = (\<lambda>a. JNull)\<rparr>"

definition demo_options :: "bool \<Rightarrow> CreateSubagentContextOptions" where
  "demo_options share = \<lparr>so_agent = None, so_messages = None, so_cwd = None, so_link = None, so_metadata = None, so_runtimeId = None,
     so_shareAbort = False, so_shareCache = share, so_shareLength = False, so_abort = None, so_cache = None, so_length = None\<rparr>"


theorem unknown_provider_reported_witness:
  "\<exists>x. run_get (executeRunRequest (\<lambda>k. ''t'') (resolve_with (initial_factories (\<lambda>k. None) (\<lambda>s m. m))) (\<lambda>q. Inl (Error ''boom''))
      \<lparr>tools = [], timeoutMs = 1, sandboxRunner = (\<lambda>h c a. Inl (Error []))\<rparr> \<lparr>xo_maxTurns = 3, xo_llmTimeoutMs = 5\<rparr> ''r1'' None
      ((new_agent ''a1'' demo_agent)\<lparr>ag_provider := \<lparr>pc_provider = ''x'', pc_model = ''m'', pc_temperature = None, pc_maxTokens = None\<rparr>\<rparr>) ''hi'' []
      (fst (run_create ''r1'' ''t'' store_init ''a1'' ''hi'' None))) ''r1'' = Some x
    \<and> rn_status x = RunFailed"
proof -
  have run: "run_get (fst (run_create ''r1'' ''t'' store_init ''a1'' ''hi'' None)) ''r1'' \<noteq> None"
    by (simp add: store_ops store_init_def Let_def new_run_def)
  have none: "jm_get (initial_factories (\<lambda>k. None) (\<lambda>s m. m)) (pc_provider (ag_provider ((new_agent ''a1'' demo_agent)
      \<lparr>ag_provider := \<lparr>pc_provider = ''x'', pc_model = ''m'', pc_temperature = None, pc_maxTokens = None\<rparr>\<rparr>))) = None"
    by (simp add: initial_factories_def)
  show ?thesis using unknown_provider_reported [OF run none] by blast
qed

end
