(* ===== verification/Runtime_Services.thy ===== *)
theory Runtime_Services
  imports Request_Schemas
begin

text \<open>
  How the gateway puts its services together (\<^verbatim>\<open>apps/gateway/src/assembly/runtime-services.ts\<close>): its health checks, and
  the connector repositories with and without a database. The connector routes are written here over any repository;
  \<open>routes_over_sqlite\<close> shows that over the SQLite repository they are the routes of \<open>Connectors\<close>.
\<close>

section \<open>Repositories and routes\<close>

record 's connector_repository =
  cr_create :: "'s \<Rightarrow> CreateConnector \<Rightarrow> ('s \<times> Connector) result"
  cr_get :: "'s \<Rightarrow> ident \<Rightarrow> Connector option"
  cr_list :: "'s \<Rightarrow> ConnectorType option \<Rightarrow> bool option \<Rightarrow> ident option \<Rightarrow> Connector list"
  cr_update :: "'s \<Rightarrow> ident \<Rightarrow> UpdateConnector \<Rightarrow> 's \<times> Connector option"
  cr_delete :: "'s \<Rightarrow> ident \<Rightarrow> 's \<times> bool"
  cr_updateLastEventAt :: "'s \<Rightarrow> ident \<Rightarrow> timestamp \<Rightarrow> 's"

definition stored_connectors :: "ident \<Rightarrow> timestamp \<Rightarrow> conn_db connector_repository" where
  "stored_connectors uuid now = \<lparr>cr_create = SqliteConnectorRepository_create uuid now, cr_get = SqliteConnectorRepository_get,
     cr_list = SqliteConnectorRepository_list, cr_update = SqliteConnectorRepository_update now,
     cr_delete = SqliteConnectorRepository_delete, cr_updateLastEventAt = SqliteConnectorRepository_updateLastEventAt now\<rparr>"

text \<open>Without a database nothing is kept, and a created connector is this one, whatever was asked for.\<close>

definition empty_connector :: Connector where
  "empty_connector = \<lparr>cn_id = [], cn_name = [], cn_type = TypeWebhook, cn_agentId = [],
     cn_config = CfgWebhook \<lparr>wc_secret = [], wc_signatureHeader = None, wc_signatureAlgorithm = None, wc_allowedIPs = None\<rparr>,
     cn_transformation = \<lparr>tn_inputTemplate = None, tn_jsonPath = None, tn_staticPrefix = None, tn_staticSuffix = None, tn_fallback = None, tn_filters = None\<rparr>,
     cn_enabled = True, cn_createdAt = [], cn_updatedAt = [], cn_lastEventAt = None\<rparr>"

definition unstored_connectors :: "unit connector_repository" where
  "unstored_connectors = \<lparr>cr_create = (\<lambda>s d. Inr (s, empty_connector)), cr_get = (\<lambda>s i. None), cr_list = (\<lambda>s t e a. []),
     cr_update = (\<lambda>s i d. (s, None)), cr_delete = (\<lambda>s i. (s, False)), cr_updateLastEventAt = (\<lambda>s i t. s)\<rparr>"

text \<open>The event repository without a database.\<close>

definition empty_event :: ConnectorEvent where
  "empty_event = new_event [] [] [] EvPending []"

record 's event_repository =
  er_create :: "'s \<Rightarrow> ident \<Rightarrow> string option \<Rightarrow> ConnectorEventStatus \<Rightarrow> ('s \<times> ConnectorEvent) result"
  er_get :: "'s \<Rightarrow> ident \<Rightarrow> ConnectorEvent option"
  er_listByConnectorId :: "'s \<Rightarrow> ident \<Rightarrow> ConnectorEventStatus option \<Rightarrow> nat option \<Rightarrow> nat option \<Rightarrow> ConnectorEvent list"
  er_update :: "'s \<Rightarrow> ident \<Rightarrow> event_update \<Rightarrow> 's result"

definition unstored_events :: "unit event_repository" where
  "unstored_events = \<lparr>er_create = (\<lambda>s c p st. Inr (s, empty_event)), er_get = (\<lambda>s i. None), er_listByConnectorId = (\<lambda>s i st l f. []),
     er_update = (\<lambda>s i d. Inr s)\<rparr>"

section \<open>The routes over a repository\<close>

definition create_route ::
    "'s connector_repository \<Rightarrow> exn option \<Rightarrow> string \<Rightarrow> string \<Rightarrow> (json option \<Rightarrow> issue list + CreateConnector) \<Rightarrow> 's \<Rightarrow> conn_runtime
     \<Rightarrow> json option \<Rightarrow> 's \<times> conn_runtime \<times> conn_reply" where
  "create_route repo refuse protocol hostname parse s rt body =
     (case parse body of
        Inl is \<Rightarrow> (s, rt, ReplyError (validation_reply ''Invalid connector definition'' is))
      | Inr d \<Rightarrow>
          (case cr_create repo s d of
             Inl e \<Rightarrow> (s, rt, ReplyError (errorHandler 0 (Thrown e)))
           | Inr (s1, c) \<Rightarrow>
               (case lifecycle_sync refuse rt c of
                  (rt1, Some e) \<Rightarrow> (s1, rt1, ReplyError (errorHandler 0 (Thrown e)))
                | (rt1, None) \<Rightarrow>
                    (s1, rt1, ReplyConnector 201 c
                      (if cn_type c = TypeWebhook then Some (protocol @ ''://'' @ hostname @ ''/webhooks/'' @ cn_id c) else None)))))"

definition list_route ::
    "'s connector_repository \<Rightarrow> (request \<Rightarrow> (ConnectorType option \<times> bool option \<times> ident option) option) \<Rightarrow> 's \<Rightarrow> request \<Rightarrow> conn_reply" where
  "list_route repo parseQuery s req =
     (case parseQuery req of
        None \<Rightarrow> ReplyError (error_reply 400 ''VALIDATION_ERROR'' ''Invalid query parameters'')
      | Some (t, e, a) \<Rightarrow> ReplyConnectors (cr_list repo s t e a))"

definition get_route :: "'s connector_repository \<Rightarrow> (string \<Rightarrow> bool) \<Rightarrow> 's \<Rightarrow> request \<Rightarrow> conn_reply" where
  "get_route repo valid_uuid s req =
     (if \<not> valid_uuid (rq_id req) then ReplyError (error_reply 400 ''VALIDATION_ERROR'' ''Invalid connector ID'')
      else (case cr_get repo s (rq_id req) of None \<Rightarrow> connector_not_found | Some c \<Rightarrow> ReplyConnector 200 c None))"

definition update_route ::
    "'s connector_repository \<Rightarrow> exn option \<Rightarrow> (string \<Rightarrow> bool) \<Rightarrow> (json option \<Rightarrow> UpdateConnector option) \<Rightarrow> 's \<Rightarrow> conn_runtime \<Rightarrow> request
     \<Rightarrow> 's \<times> conn_runtime \<times> conn_reply" where
  "update_route repo refuse valid_uuid parse s rt req =
     (case (valid_uuid (rq_id req), parse (rq_body req)) of
        (True, Some d) \<Rightarrow>
          (case cr_update repo s (rq_id req) d of
             (s1, None) \<Rightarrow> (s1, rt, connector_not_found)
           | (s1, Some c) \<Rightarrow>
               (case lifecycle_sync refuse rt c of
                  (rt1, Some e) \<Rightarrow> (s1, rt1, ReplyError (errorHandler 0 (Thrown e)))
                | (rt1, None) \<Rightarrow> (s1, rt1, ReplyConnector 200 c None)))
      | _ \<Rightarrow> (s, rt, ReplyError (error_reply 400 ''VALIDATION_ERROR'' ''Invalid request'')))"

definition delete_route ::
    "'s connector_repository \<Rightarrow> (string \<Rightarrow> bool) \<Rightarrow> 's \<Rightarrow> conn_runtime \<Rightarrow> request \<Rightarrow> 's \<times> conn_runtime \<times> conn_reply" where
  "delete_route repo valid_uuid s rt req =
     (if \<not> valid_uuid (rq_id req)
      then (s, rt, ReplyError (error_reply 400 ''VALIDATION_ERROR'' ''Invalid connector ID''))
      else
        (let existing = cr_get repo s (rq_id req); (s1, deleted) = cr_delete repo s (rq_id req)
         in (case existing of
               Some c \<Rightarrow> if deleted then (s1, lifecycle_stop rt (cn_id c), ReplyNoContent) else (s1, rt, connector_not_found)
             | None \<Rightarrow> (s1, rt, connector_not_found))))"

section \<open>Health checks\<close>

text \<open>The database is checked if there is one; \<open>db\<close> is the outcome of its query.\<close>

definition runtime_checks :: "unit result option \<Rightarrow> (string \<times> HealthCheckResult result) list" where
  "runtime_checks db = (''gateway'', Inr \<lparr>hc_status = Healthy, hc_detail = None\<rparr>)
     # (case db of None \<Rightarrow> [] | Some q \<Rightarrow> [(''storage'', Inr (DatabaseHealthCheck_check q))])"

lemma runtime_health:
  "rp_status (get_health (runtime_checks db)) = (case db of Some (Inl e) \<Rightarrow> 503 | _ \<Rightarrow> 200)"
  by (auto simp: runtime_checks_def get_health_def DatabaseHealthCheck_check_def ok_reply_def split: option.splits sum.splits)

lemma stored_sel:
  "cr_create (stored_connectors uuid now) = SqliteConnectorRepository_create uuid now"
  "cr_get (stored_connectors uuid now) = SqliteConnectorRepository_get"
  "cr_list (stored_connectors uuid now) = SqliteConnectorRepository_list"
  "cr_update (stored_connectors uuid now) = SqliteConnectorRepository_update now"
  "cr_delete (stored_connectors uuid now) = SqliteConnectorRepository_delete"
  by (simp_all add: stored_connectors_def)

section \<open>Properties\<close>

text \<open>With a database the routes are those of the connectors.\<close>

lemma routes_over_sqlite:
  "create_route (stored_connectors uuid now) refuse protocol hostname parse s rt body
     = post_connector refuse protocol hostname uuid now parse s rt body"
  "list_route (stored_connectors uuid now) parseQuery s req = get_connectors parseQuery s req"
  "get_route (stored_connectors uuid now) valid_uuid s req = get_connector valid_uuid s req"
  "update_route (stored_connectors uuid now) refuse valid_uuid parse' s rt req = patch_connector refuse valid_uuid now parse' s rt req"
  "delete_route (stored_connectors uuid now) valid_uuid s rt req = delete_connector valid_uuid s rt req"
  unfolding create_route_def post_connector_def list_route_def get_connectors_def get_route_def get_connector_def
    update_route_def patch_connector_def delete_route_def delete_connector_def stored_sel
  by (rule refl)+

text \<open>
  Without a database the gateway confirms every valid connector with status 201 and the address of a webhook, whatever
  its type and agent, and keeps none: nothing is ever listed, found, updated or removed.
\<close>

theorem unstored_connectors_confirmed_and_lost:
  "(case create_route unstored_connectors refuse protocol hostname parse s rt body of
      (s', rt', rep) \<Rightarrow> rep = (case parse body of
          Inl is \<Rightarrow> ReplyError (validation_reply ''Invalid connector definition'' is)
        | Inr d \<Rightarrow> ReplyConnector 201 empty_connector (Some (protocol @ ''://'' @ hostname @ ''/webhooks/''))))
   \<and> list_route unstored_connectors parseQuery s req = (case parseQuery req of
        None \<Rightarrow> ReplyError (error_reply 400 ''VALIDATION_ERROR'' ''Invalid query parameters'') | Some q \<Rightarrow> ReplyConnectors [])
   \<and> get_route unstored_connectors valid_uuid s req =
       (if valid_uuid (rq_id req) then connector_not_found else ReplyError (error_reply 400 ''VALIDATION_ERROR'' ''Invalid connector ID''))
   \<and> delete_route unstored_connectors valid_uuid s rt req = (s, rt, get_route unstored_connectors valid_uuid s req)"
  by (auto simp: create_route_def list_route_def get_route_def delete_route_def unstored_connectors_def empty_connector_def lifecycle_sync_def
      Let_def split: sum.splits option.splits)

end
