(* ===== verification/Spec2Isabelle.thy ===== *)
theory Spec2Isabelle
  imports Permissions Sandbox_Runner Approvals Agent_Service Agent_Storage Gateway_Routes Queue_Drivers
    Scheduler_Process Web_Console Command_Line Observability
    Local_Launcher Sandbox_Probes Web_Queries Request_Schemas Cli_Commands
    Web_Pages Runtime_Context Runtime_Services
begin

text \<open>
  SenClaw runs language-model agents behind an HTTP gateway. A client creates agents and submits tasks;
  the agent runner sends the conversation to a model and executes the tools it asks for; tools run
  under a local permission policy or in a sandboxed child process; a scheduler and connectors submit
  tasks on their own; API keys protect the gateway, which records what was done in an audit log.

  This library models the TypeScript code under \<^verbatim>\<open>apps/\<close> and \<^verbatim>\<open>packages/\<close>, one theory per component.

  \<^item> \<open>Prelude\<close>: results (\<open>exn + 'a\<close>), the JavaScript string and map operations the code uses
    (insertion-ordered maps as association lists), stable sorting, and the lemmas on them. The locale
    \<open>event_machine\<close> carries an invariant over all runs of a handler of events; the two queue subscriptions, the
    timer of the scheduler, the spans of requests, the tracing SDK, the CPU monitor and the pages of the console interpret it.

  \<^item> \<open>Protocol\<close> (\<^verbatim>\<open>packages/protocol\<close>): JSON values and their text, and the records and enumerations
    that the components exchange.

  \<^item> \<open>Json_Text\<close>: \<^verbatim>\<open>JSON.parse\<close> on the values of the model and its round trip with \<^verbatim>\<open>JSON.stringify\<close>, compact
    and indented.

  \<^item> \<open>Node_Path\<close>: the POSIX half of Node's \<^verbatim>\<open>path\<close> module (\<^verbatim>\<open>normalize\<close>, \<^verbatim>\<open>resolve\<close>, \<^verbatim>\<open>relative\<close>,
    \<^verbatim>\<open>isAbsolute\<close>), with the segment semantics the policies are judged by.

  \<^item> \<open>Permissions\<close> (\<^verbatim>\<open>packages/config/src/permissions.ts\<close>): the decision whether a file action or a
    shell command is allowed, denied or needs approval. The locale \<open>path_contract\<close> states what the policy
    needs of a path module and is interpreted by the POSIX one; an allowed write is inside an allowed
    root.

  \<^item> \<open>Sandbox_Filesystem\<close>, \<open>Sandbox_Network\<close> (\<^verbatim>\<open>sandbox-filesystem.ts\<close>, \<^verbatim>\<open>sandbox-network.ts\<close> of
    \<^verbatim>\<open>apps/tool-runner-host\<close>): the guards of the sandbox, on the host and as the source text given to
    the worker. Every guarded call stays inside its roots or allowed hosts, and both copies agree.

  \<^item> \<open>Tool_Registry\<close> (\<^verbatim>\<open>registry.ts\<close>): registration, one invocation on every branch, and batches of
    invocations under every settlement order of their promises.

  \<^item> \<open>Sandbox_Runner\<close> (\<^verbatim>\<open>sandbox.ts\<close>, \<^verbatim>\<open>sandbox-worker-source.ts\<close>, \<^verbatim>\<open>sandbox-resources.ts\<close>): the child
    process as an event handler. It settles at most once, and exactly when the child has closed.

  \<^item> \<open>Api_Keys\<close> (\<^verbatim>\<open>packages/storage\<close>, \<^verbatim>\<open>apps/gateway/src/auth\<close>): key generation, the in-memory and the
    SQLite repository, and the service. The locale \<open>key_repository\<close> is the contract between the service
    and its repository and is interpreted by both; \<open>two_key_repositories\<close> shows that they answer alike.

  \<^item> \<open>Gateway_Auth\<close> (\<^verbatim>\<open>plugins/auth.ts\<close>, \<^verbatim>\<open>auth/authorization.ts\<close>, \<^verbatim>\<open>plugins/error-handler.ts\<close>,
    \<^verbatim>\<open>routes/keys.ts\<close>): authentication, roles, audit entries and the key routes.

  \<^item> \<open>Approvals\<close> (\<^verbatim>\<open>approval-queue.ts\<close>, \<^verbatim>\<open>routes/approvals.ts\<close>): the queue of approval requests.

  \<^item> \<open>Builtin_Tools\<close> (\<^verbatim>\<open>builtin-tools.ts\<close>, \<^verbatim>\<open>managed-shell.ts\<close> of \<^verbatim>\<open>apps/tool-runner-host\<close>): the file and
    shell tools, which consult the permission policy and ask for approval. The locale \<open>approval_host\<close> is
    what they need of the process that takes their requests; the gateway with its queue interprets it.

  \<^item> \<open>Configuration\<close> (\<^verbatim>\<open>packages/config/src/index.ts\<close>, \<^verbatim>\<open>local-runtime.ts\<close>): configuration from the
    environment, agent definitions and the permissions file, and the files and settings of the local
    runtime.

  \<^item> \<open>Agent_Repositories\<close>, \<open>Execution_Loop\<close>, \<open>Agent_Service\<close> (\<^verbatim>\<open>apps/agent-runner\<close>): the in-memory
    repositories, the execution of a run as a list of effects, and the service as a step relation over
    interleaved segments of asynchronous work. Invariants are proved by rule induction over the
    reachable states.

  \<^item> \<open>Agent_Storage\<close> (\<^verbatim>\<open>packages/storage\<close>): the SQLite repositories of agents, runs, messages and tasks, and
    their simulation of the in-memory ones under every history of operations.

  \<^item> \<open>Gateway_Routes\<close> (\<^verbatim>\<open>apps/gateway/src/routes\<close>, \<^verbatim>\<open>orchestration-tools.ts\<close>): the agent, task, run, settings
    and health routes with their roles, and the tools by which agents start and steer other agents. Every
    request is a sequence of steps of the agent service.

  \<^item> \<open>Scheduler\<close> (\<^verbatim>\<open>packages/scheduler\<close>, \<^verbatim>\<open>scheduler-repositories.ts\<close>, \<^verbatim>\<open>job-repository.ts\<close>,
    \<^verbatim>\<open>execution-repository.ts\<close>, \<^verbatim>\<open>routes/jobs.ts\<close>): a tick over the due jobs. The locale \<open>sched_repository\<close>
    is the contract between the service and its repositories; both the in-memory and the SQLite pair
    interpret it, and the theorems on ticks are proved once in it.

  \<^item> \<open>Connectors\<close> (\<^verbatim>\<open>packages/connector-worker\<close>, the connector repositories, \<^verbatim>\<open>routes/connectors.ts\<close>,
    \<^verbatim>\<open>routes/webhooks.ts\<close>, \<^verbatim>\<open>assembly/connectors.ts\<close>): events with filters, transformation and retries,
    signed webhooks, change detection of polls, and the life cycle of subscriptions and timers.

  \<^item> \<open>Queue_Drivers\<close> (\<^verbatim>\<open>redis-queue-driver.ts\<close>, \<^verbatim>\<open>rabbitmq-queue-driver.ts\<close>, \<^verbatim>\<open>broker-queue-driver.ts\<close>):
    what the drivers do with a message as a trace of client calls with their outcomes, and each
    subscription as a state machine over answers, timers, lost connections and closing.

  \<^item> \<open>Gateway_Assembly\<close> (\<^verbatim>\<open>apps/gateway/src/assembly/routes.ts\<close>, \<^verbatim>\<open>plugins/auth.ts\<close>): the route table over the
    handlers, and one request through the hooks around them: key check, role check, rate limit,
    handler, audit entry. Who can change which part of the gateway's state, and that the audit log is
    complete.

  \<^item> \<open>Http_Transport\<close>: requests and responses as the clients see them. \<open>carries\<close> states what the transport
    promises, and \<open>direct_fetch\<close> is a transport that keeps the promise.

  \<^item> \<open>Scheduler_Process\<close> (\<^verbatim>\<open>apps/scheduler\<close>): the client that submits a job's task to the gateway, the ticks of
    the timer, of which at most one is under way, the health report and the process's own endpoint.

  \<^item> \<open>Web_Console\<close> (\<^verbatim>\<open>apps/web/src/api-client.ts\<close>, \<^verbatim>\<open>apps/web/src/lib\<close>): the client of the console, its stored
    key, the messages for refused requests, and its locale.

  \<^item> \<open>Command_Line\<close> (\<^verbatim>\<open>packages/cli\<close>): the configuration file shared with the permission policy, the calls
    and their failure messages, following a run, and the search for the workspace.

  \<^item> \<open>Observability\<close> (\<^verbatim>\<open>packages/logging\<close>, \<^verbatim>\<open>packages/observability\<close>, the hooks of \<^verbatim>\<open>apps/gateway/src/server.ts\<close>):
    which responses are logged at which level, sampling by a 32-bit hash, the metrics registry, and the
    spans of requests. What the libraries behind them are told is a list of calls.

  \<^item> \<open>Local_Launcher\<close> (\<^verbatim>\<open>scripts/local-runtime.ts\<close>): starting and stopping the local runtime, with PID files,
    probes, the administrator key and the default agent, over a record of the machine. The operating
    system's answers are an argument.

  \<^item> \<open>Sandbox_Probes\<close> (\<^verbatim>\<open>rust-sandbox.ts\<close>, \<^verbatim>\<open>sandbox-resources.ts\<close>): the client of the native runner and the
    readings of CPU time as handlers of the events of a child process, and the monitor that polls them.

  \<^item> \<open>Web_Queries\<close> (\<^verbatim>\<open>apps/web/src/hooks/useAPI.ts\<close>): the queries of the console with their keys and polling, and
    which cached answers its mutations leave out of date.

  \<^item> \<open>Request_Schemas\<close> (\<^verbatim>\<open>packages/protocol\<close>, the schemas of the routes): request bodies as functions from JSON to
    the parsed value. They instantiate the schema argument of \<open>Gateway_Routes\<close>: what is stored is valid.

  \<^item> \<open>Cli_Commands\<close> (\<^verbatim>\<open>packages/cli/src/commands\<close>): what the agent, task, run and health commands ask, call and
    print, and their effect through the gateway behind the HTTP library.

  \<^item> \<open>Web_Pages\<close> (\<^verbatim>\<open>apps/web/src/pages\<close>, \<^verbatim>\<open>apps/web/src/components\<close>): the state behind forms, header, locale and
    approval inbox as steps of their event handlers, and the keys of rendered messages.

  \<^item> \<open>Runtime_Context\<close> (\<^verbatim>\<open>runtime-context.ts\<close>, \<^verbatim>\<open>model-provider.ts\<close> of \<^verbatim>\<open>apps/agent-runner\<close>): the contexts of
    subagents over an explicit heap, which shows what they share with their parent, and the registry of providers.

  \<^item> \<open>Runtime_Services\<close> (\<^verbatim>\<open>runtime-services.ts\<close>): health checks and connector repositories with and without a
    database, with the connector routes over any repository.

  How the parts interact. The gateway authenticates a request (\<open>Gateway_Auth\<close> over \<open>Api_Keys\<close>) and calls
  the agent service (\<open>Agent_Service\<close>), which executes runs (\<open>Execution_Loop\<close>) that call tools
  (\<open>Tool_Registry\<close>), directly or in the sandbox (\<open>Sandbox_Runner\<close> with the two guards). The scheduler and
  the connectors are clients of the agent service through its submission call only, which they take as
  an argument. Tools that need consent (\<open>Builtin_Tools\<close>) put a request into the approval queue. The routes
  (\<open>Gateway_Routes\<close>) translate requests into operations of the service, whose repositories are in memory
  or in SQLite (\<open>Agent_Storage\<close>). Queue connectors receive their messages from \<open>Queue_Drivers\<close>.
  \<open>Gateway_Assembly\<close> puts the hooks and the routes together; the scheduler process, the console and the
  command line reach it through \<open>Http_Transport\<close>, and their theorems are about both sides of the exchange.

  What the lemmas show. Safety: writes, file functions and network calls stay inside what was allowed;
  protected routes need a valid key of the right role; revoked keys never authenticate; webhooks need
  their signature. Ordering and concurrency: batches of tool calls, sandbox events, background tasks
  and follow-up messages under every interleaving. Termination and liveness: runs, ticks, retries and
  removals end, with the outcome recorded. Refinement: repositories of one interface answer alike where
  they do, and the theorems on the differences say where they do not.

  Conventions. What the code throws is a value of type \<open>exn\<close>. Random identifiers, salts and the current
  time are arguments of the operation that draws them. A promise that may never settle is an option;
  where promises settle in an order the code does not fix, the order is an argument. Third-party code is
  an argument, with its documented behaviour as a named hypothesis where a theorem needs it: the
  model SDK, the issues of schema validation, SHA-256 and bcrypt, the URL parser, Node's Windows path module. A SQLite
  table is the list of its rows and a query the list function it denotes.

  All definitions are total. Recursion is structural or has a termination proof. Fuel is used in one place:
  the JSON parser starts with the length of its text, which its round trip shows to be enough for every
  serialised value. The retries of directory removal are bounded by the code's own limit of ten, those of an event by the retry
  policy.

  Not modelled: what the web interface draws from its state, the Rust sources of the native runner, database schema and migrations, process start-up, the
  construction of services and model clients, the libraries behind logging, metrics and tracing, and what the web framework adds on its own (\<^verbatim>\<open>HEAD\<close>
  routes, replies to unknown addresses, the counters of the rate limiter).
\<close>

end
